(* ===== verification/Prelude.thy ===== *)
theory Prelude
  imports Main "HOL-Library.Char_ord" "HOL-Library.List_Lexorder" "HOL-Library.Product_Lexorder"
begin

text \<open>
  Shared machinery of the development: effectful Python code as functions from a state to a
  raised exception or a value and the state after it, the two judgements the component proofs
  use (\<open>triple\<close>, a Hoare triple with a normal and an exceptional postcondition, and
  \<open>steps\<close>, a reflexive and transitive relation between the states before and after), the
  locale of such relations, and generic facts on lists, options and strings.

  Python strings are lists of code points; code points above 255 are not represented.  The
  order on \<open>string\<close> is the lexicographic order of the library, which is Python's.
\<close>

section \<open>Effects\<close>

type_synonym ('s, 'e, 'a) eff = "'s \<Rightarrow> ('e + 'a) \<times> 's"

definition ret :: "'a \<Rightarrow> ('s, 'e, 'a) eff" where
  "ret x = (\<lambda>s. (Inr x, s))"

definition raise :: "'e \<Rightarrow> ('s, 'e, 'a) eff" where
  "raise x = (\<lambda>s. (Inl x, s))"

definition bnd :: "('s, 'e, 'a) eff \<Rightarrow> ('a \<Rightarrow> ('s, 'e, 'b) eff) \<Rightarrow> ('s, 'e, 'b) eff" where
  "bnd m f = (\<lambda>s. case m s of (Inl x, t) \<Rightarrow> (Inl x, t) | (Inr v, t) \<Rightarrow> f v t)"

definition thn :: "('s, 'e, 'a) eff \<Rightarrow> ('s, 'e, 'b) eff \<Rightarrow> ('s, 'e, 'b) eff" where
  "thn m n = bnd m (\<lambda>_. n)"

text \<open>\<open>attempt\<close> is \<open>try: ... except\<close> with the exception handed on as a value; exceptions
  outside \<open>p\<close> still propagate.\<close>

definition attempt :: "('e \<Rightarrow> bool) \<Rightarrow> ('s, 'e, 'a) eff \<Rightarrow> ('s, 'e, 'e + 'a) eff" where
  "attempt p m = (\<lambda>s. case m s of
     (Inl x, t) \<Rightarrow> if p x then (Inr (Inl x), t) else (Inl x, t)
   | (Inr v, t) \<Rightarrow> (Inr (Inr v), t))"

definition asks :: "('s \<Rightarrow> 'a) \<Rightarrow> ('s, 'e, 'a) eff" where
  "asks f = (\<lambda>s. (Inr (f s), s))"

definition alter :: "('s \<Rightarrow> 's) \<Rightarrow> ('s, 'e, unit) eff" where
  "alter f = (\<lambda>s. (Inr (), f s))"

definition lift :: "'e + 'a \<Rightarrow> ('s, 'e, 'a) eff" where
  "lift r = (\<lambda>s. (r, s))"

definition unless :: "bool \<Rightarrow> 'e \<Rightarrow> ('s, 'e, unit) eff" where
  "unless b x = (if b then ret () else raise x)"

definition whenM :: "bool \<Rightarrow> ('s, 'e, unit) eff \<Rightarrow> ('s, 'e, unit) eff" where
  "whenM b m = (if b then m else ret ())"

fun gather :: "('a \<Rightarrow> ('s, 'e, 'b) eff) \<Rightarrow> 'a list \<Rightarrow> ('s, 'e, 'b list) eff" where
  "gather f [] = ret []"
| "gather f (x # xs) = bnd (f x) (\<lambda>y. bnd (gather f xs) (\<lambda>ys. ret (y # ys)))"

lemma ret_apply [simp]: "ret x s = (Inr x, s)"
  by (simp add: ret_def)

lemma raise_apply [simp]: "raise x s = (Inl x, s)"
  by (simp add: raise_def)

lemma asks_apply [simp]: "asks f s = (Inr (f s), s)"
  by (simp add: asks_def)

lemma alter_apply [simp]: "alter f s = (Inr (), f s)"
  by (simp add: alter_def)

lemma lift_apply [simp]: "lift r s = (r, s)"
  by (simp add: lift_def)

lemma bnd_ret [simp]: "bnd (ret x) f = f x"
  by (simp add: bnd_def fun_eq_iff)

lemma bnd_raise [simp]: "bnd (raise x) f = raise x"
  by (simp add: bnd_def fun_eq_iff)

lemma thn_ret [simp]: "thn (ret x) n = n"
  by (simp add: thn_def)

lemma bnd_assoc: "bnd (bnd m f) g = bnd m (\<lambda>x. bnd (f x) g)"
  by (auto simp: bnd_def fun_eq_iff split: prod.splits sum.splits)

lemma bnd_InrE:
  assumes "bnd m f s = (Inr y, t)"
  obtains v u where "m s = (Inr v, u)" "f v u = (Inr y, t)"
  using assms by (auto simp: bnd_def split: prod.splits sum.splits)

lemma bnd_Inr: "m s = (Inr v, u) \<Longrightarrow> bnd m f s = f v u"
  by (simp add: bnd_def)

lemma bnd_Inl: "m s = (Inl x, u) \<Longrightarrow> bnd m f s = (Inl x, u)"
  by (simp add: bnd_def)

section \<open>Hoare triples\<close>

definition triple ::
  "('s \<Rightarrow> bool) \<Rightarrow> ('s, 'e, 'a) eff \<Rightarrow> ('a \<Rightarrow> 's \<Rightarrow> bool) \<Rightarrow> ('e \<Rightarrow> 's \<Rightarrow> bool) \<Rightarrow> bool" where
  "triple P m Q E \<longleftrightarrow>
     (\<forall>s. P s \<longrightarrow> (case m s of (Inl x, t) \<Rightarrow> E x t | (Inr v, t) \<Rightarrow> Q v t))"

named_theorems triple_rules \<open>structural rules for triples\<close>

lemma tripleI:
  assumes "\<And>s v t. P s \<Longrightarrow> m s = (Inr v, t) \<Longrightarrow> Q v t"
    and "\<And>s x t. P s \<Longrightarrow> m s = (Inl x, t) \<Longrightarrow> E x t"
  shows "triple P m Q E"
  using assms by (auto simp: triple_def split: prod.splits sum.splits)

lemma tripleD: "triple P m Q E \<Longrightarrow> P s \<Longrightarrow> m s = (Inr v, t) \<Longrightarrow> Q v t"
  by (auto simp: triple_def)

lemma tripleD_exn: "triple P m Q E \<Longrightarrow> P s \<Longrightarrow> m s = (Inl x, t) \<Longrightarrow> E x t"
  by (auto simp: triple_def)

lemma triple_conseq:
  assumes "triple P' m Q' E'" "\<And>s. P s \<Longrightarrow> P' s"
    "\<And>v t. Q' v t \<Longrightarrow> Q v t" "\<And>x t. E' x t \<Longrightarrow> E x t"
  shows "triple P m Q E"
  using assms by (fastforce simp: triple_def split: prod.splits sum.splits)

lemma triple_pre: "triple P' m Q E \<Longrightarrow> (\<And>s. P s \<Longrightarrow> P' s) \<Longrightarrow> triple P m Q E"
  by (auto simp: triple_def)

lemma triple_ret [triple_rules]: "(\<And>s. P s \<Longrightarrow> Q x s) \<Longrightarrow> triple P (ret x) Q E"
  by (simp add: triple_def)

lemma triple_raise [triple_rules]: "(\<And>s. P s \<Longrightarrow> E x s) \<Longrightarrow> triple P (raise x) Q E"
  by (simp add: triple_def)

lemma triple_bnd:
  assumes "triple P m M E" "\<And>v. triple (M v) (f v) Q E"
  shows "triple P (bnd m f) Q E"
  using assms by (fastforce simp: triple_def bnd_def split: prod.splits sum.splits)

lemma triple_thn:
  assumes "triple P m (\<lambda>_. M) E" "triple M n Q E"
  shows "triple P (thn m n) Q E"
  using assms unfolding thn_def by (rule triple_bnd)

lemma triple_attempt:
  assumes "triple P m (\<lambda>v. Q (Inr v)) (\<lambda>x s. if p x then Q (Inl x) s else E x s)"
  shows "triple P (attempt p m) Q E"
  using assms by (fastforce simp: triple_def attempt_def split: prod.splits sum.splits if_splits)

lemma triple_if:
  assumes "b \<Longrightarrow> triple P m Q E" "\<not> b \<Longrightarrow> triple P n Q E"
  shows "triple P (if b then m else n) Q E"
  using assms by simp

lemma triple_asks: "(\<And>s. P s \<Longrightarrow> Q (f s) s) \<Longrightarrow> triple P (asks f) Q E"
  by (simp add: triple_def)

lemma triple_alter: "(\<And>s. P s \<Longrightarrow> Q () (f s)) \<Longrightarrow> triple P (alter f) Q E"
  by (simp add: triple_def)

lemma triple_unless: "(\<And>s. P s \<Longrightarrow> if b then Q () s else E x s) \<Longrightarrow> triple P (unless b x) Q E"
  by (auto simp: triple_def unless_def)

lemma triple_conj:
  "triple P m Q E \<Longrightarrow> triple P' m Q' E' \<Longrightarrow>
   triple (\<lambda>s. P s \<and> P' s) m (\<lambda>v t. Q v t \<and> Q' v t) (\<lambda>x t. E x t \<and> E' x t)"
  by (fastforce simp: triple_def split: prod.splits sum.splits)

lemma triple_all: "(\<And>z. triple (P z) m (Q z) (E z)) \<Longrightarrow>
   triple (\<lambda>s. \<exists>z. P z s) m (\<lambda>v t. \<exists>z. Q z v t) (\<lambda>x t. \<exists>z. E z x t)"
  by (fastforce simp: triple_def split: prod.splits sum.splits)

section \<open>Relations between the states before and after\<close>

definition steps :: "('s \<Rightarrow> 's \<Rightarrow> bool) \<Rightarrow> ('s, 'e, 'a) eff \<Rightarrow> bool" where
  "steps R m \<longleftrightarrow> (\<forall>s. R s (snd (m s)))"

lemma stepsD: "steps R m \<Longrightarrow> R s (snd (m s))"
  by (simp add: steps_def)

lemma steps_run: "steps R m \<Longrightarrow> m s = (r, t) \<Longrightarrow> R s t"
  by (drule stepsD [of R m s]) simp

text \<open>
  The contract of everything that may change the state: a preorder.  The combinators respect
  it, so an operation built from steps inside the preorder stays inside it, on its normal
  and on its exceptional exits alike.
\<close>

locale step_order =
  fixes R :: "'s \<Rightarrow> 's \<Rightarrow> bool"
  assumes R_refl: "R s s"
    and R_trans: "R s t \<Longrightarrow> R t u \<Longrightarrow> R s u"
begin

lemma so_ret: "steps R (ret x)"
  by (simp add: steps_def R_refl)

lemma so_raise: "steps R (raise x)"
  by (simp add: steps_def R_refl)

lemma so_asks: "steps R (asks f)"
  by (simp add: steps_def R_refl)

lemma so_lift: "steps R (lift r)"
  by (simp add: steps_def R_refl)

lemma so_unless: "steps R (unless b x)"
  by (simp add: unless_def so_ret so_raise)

lemma so_bnd: "steps R m \<Longrightarrow> (\<And>v. steps R (f v)) \<Longrightarrow> steps R (bnd m f)"
  unfolding steps_def bnd_def
  by (auto split: prod.splits sum.splits) (metis R_trans snd_conv)+

lemma so_thn: "steps R m \<Longrightarrow> steps R n \<Longrightarrow> steps R (thn m n)"
  unfolding thn_def by (rule so_bnd)

lemma so_attempt: "steps R m \<Longrightarrow> steps R (attempt p m)"
  unfolding steps_def attempt_def
  by (auto split: prod.splits sum.splits) (metis snd_conv)+

lemma so_if: "steps R m \<Longrightarrow> steps R n \<Longrightarrow> steps R (if b then m else n)"
  by simp

lemma so_when: "steps R m \<Longrightarrow> steps R (whenM b m)"
  by (simp add: whenM_def so_ret)

lemma so_gather: "(\<And>x. steps R (f x)) \<Longrightarrow> steps R (gather f xs)"
  by (induction xs) (auto intro: so_ret so_bnd)

lemma so_option: "steps R m \<Longrightarrow> (\<And>v. steps R (f v)) \<Longrightarrow> steps R (case x of None \<Rightarrow> m | Some v \<Rightarrow> f v)"
  by (cases x) auto

lemma so_sum: "(\<And>v. steps R (f v)) \<Longrightarrow> (\<And>v. steps R (g v)) \<Longrightarrow>
   steps R (case x of Inl v \<Rightarrow> f v | Inr v \<Rightarrow> g v)"
  by (cases x) auto

lemma so_prod: "(\<And>a b. steps R (f a b)) \<Longrightarrow> steps R (case x of (a, b) \<Rightarrow> f a b)"
  by (cases x) auto

lemma so_let: "(\<And>v. steps R (f v)) \<Longrightarrow> steps R (let v = x in f v)"
  by simp

lemmas so_rules = so_ret so_raise so_asks so_lift so_unless so_bnd so_thn so_attempt so_if
  so_when so_gather so_option so_sum so_prod so_let

end

text \<open>
  Both judgements at once: from a state with \<open>P\<close> the program moves along \<open>R\<close>, and ends with
  \<open>Q\<close> or, raising, with \<open>X\<close>.
\<close>

definition guar :: "('s \<Rightarrow> 's \<Rightarrow> bool) \<Rightarrow> ('s \<Rightarrow> bool) \<Rightarrow> ('s, 'e, 'a) eff \<Rightarrow>
    ('a \<Rightarrow> 's \<Rightarrow> bool) \<Rightarrow> ('e \<Rightarrow> 's \<Rightarrow> bool) \<Rightarrow> bool" where
  "guar R P m Q X \<longleftrightarrow> (\<forall>s. P s \<longrightarrow>
     (case m s of (Inl x, t) \<Rightarrow> R s t \<and> X x t | (Inr v, t) \<Rightarrow> R s t \<and> Q v t))"

lemma guarI:
  assumes "\<And>s v t. P s \<Longrightarrow> m s = (Inr v, t) \<Longrightarrow> R s t \<and> Q v t"
    and "\<And>s x t. P s \<Longrightarrow> m s = (Inl x, t) \<Longrightarrow> R s t \<and> X x t"
  shows "guar R P m Q X"
  using assms by (fastforce simp: guar_def split: prod.splits sum.splits)

lemma guarD: "guar R P m Q X \<Longrightarrow> P s \<Longrightarrow> m s = (Inr v, t) \<Longrightarrow> R s t \<and> Q v t"
  by (auto simp: guar_def)

lemma guarD_exn: "guar R P m Q X \<Longrightarrow> P s \<Longrightarrow> m s = (Inl x, t) \<Longrightarrow> R s t \<and> X x t"
  by (auto simp: guar_def)

lemma guar_steps:
  assumes "guar R (\<lambda>_. True) m Q X"
  shows "steps R m"
  unfolding steps_def
proof
  fix s
  obtain r t where "m s = (r, t)" by fastforce
  with assms show "R s (snd (m s))" by (cases r) (auto simp: guar_def dest: spec [of _ s])
qed

lemma guar_triple: "guar R P m Q X \<Longrightarrow> triple P m Q X"
  by (fastforce simp: guar_def triple_def split: prod.splits sum.splits)

lemma guar_conseq:
  assumes "guar R P' m Q' X'" "\<And>s. P s \<Longrightarrow> P' s" "\<And>v t. Q' v t \<Longrightarrow> Q v t" "\<And>x t. X' x t \<Longrightarrow> X x t"
  shows "guar R P m Q X"
  using assms by (fastforce simp: guar_def split: prod.splits sum.splits)

lemma guar_of_steps: "steps R m \<Longrightarrow> guar R P m (\<lambda>_ _. True) (\<lambda>_ _. True)"
  by (rule guarI) (auto dest: steps_run)

context step_order
begin

lemma g_ret: "(\<And>s. P s \<Longrightarrow> Q x s) \<Longrightarrow> guar R P (ret x) Q X"
  by (simp add: guar_def R_refl)

lemma g_raise: "(\<And>s. P s \<Longrightarrow> X x s) \<Longrightarrow> guar R P (raise x) Q X"
  by (simp add: guar_def R_refl)

lemma g_asks: "(\<And>s. P s \<Longrightarrow> Q (f s) s) \<Longrightarrow> guar R P (asks f) Q X"
  by (simp add: guar_def R_refl)

lemma g_lift: "(\<And>s v. P s \<Longrightarrow> r = Inr v \<Longrightarrow> Q v s) \<Longrightarrow> (\<And>s x. P s \<Longrightarrow> r = Inl x \<Longrightarrow> X x s) \<Longrightarrow>
   guar R P (lift r) Q X"
  by (auto simp: guar_def R_refl split: sum.splits)

lemma g_unless: "(\<And>s. P s \<Longrightarrow> if b then Q () s else X x s) \<Longrightarrow> guar R P (unless b x) Q X"
  by (auto simp: guar_def unless_def R_refl)

lemma g_bnd:
  assumes "guar R P m M X" "\<And>v. guar R (M v) (f v) Q X"
  shows "guar R P (bnd m f) Q X"
  unfolding guar_def
proof (intro allI impI)
  fix s assume P: "P s"
  obtain r u where m: "m s = (r, u)" by fastforce
  show "case bnd m f s of (Inl x, t) \<Rightarrow> R s t \<and> X x t | (Inr v, t) \<Rightarrow> R s t \<and> Q v t"
  proof (cases r)
    case (Inl x)
    with guarD_exn [OF assms(1) P] m show ?thesis by (simp add: bnd_def)
  next
    case (Inr v)
    with guarD [OF assms(1) P] m have u: "R s u" "M v u" by auto
    obtain r' t where f: "f v u = (r', t)" by fastforce
    show ?thesis
      using u m f Inr guarD [OF assms(2) u(2)] guarD_exn [OF assms(2) u(2)]
      by (cases r') (auto simp: bnd_def intro: R_trans)
  qed
qed

lemma g_thn: "guar R P m (\<lambda>_. M) X \<Longrightarrow> guar R M n Q X \<Longrightarrow> guar R P (thn m n) Q X"
  unfolding thn_def by (rule g_bnd)

lemma g_attempt:
  assumes "guar R P m (\<lambda>v. Q (Inr v)) (\<lambda>x t. if p x then Q (Inl x) t else X x t)"
  shows "guar R P (attempt p m) Q X"
  using assms
  by (fastforce simp: guar_def attempt_def split: prod.splits sum.splits if_splits)

lemma g_if: "(b \<Longrightarrow> guar R P m Q X) \<Longrightarrow> (\<not> b \<Longrightarrow> guar R P n Q X) \<Longrightarrow> guar R P (if b then m else n) Q X"
  by simp

lemma g_option: "(x = None \<Longrightarrow> guar R P m Q X) \<Longrightarrow> (\<And>v. x = Some v \<Longrightarrow> guar R P (f v) Q X) \<Longrightarrow>
   guar R P (case x of None \<Rightarrow> m | Some v \<Rightarrow> f v) Q X"
  by (cases x) auto

lemma g_sum: "(\<And>v. x = Inl v \<Longrightarrow> guar R P (f v) Q X) \<Longrightarrow> (\<And>v. x = Inr v \<Longrightarrow> guar R P (g v) Q X) \<Longrightarrow>
   guar R P (case x of Inl v \<Rightarrow> f v | Inr v \<Rightarrow> g v) Q X"
  by (cases x) auto

lemma g_prod: "(\<And>a b. x = (a, b) \<Longrightarrow> guar R P (f a b) Q X) \<Longrightarrow> guar R P (case x of (a, b) \<Rightarrow> f a b) Q X"
  by (cases x) auto

lemma g_steps: "steps R m \<Longrightarrow> (\<And>v t. Q v t) \<Longrightarrow> (\<And>x t. X x t) \<Longrightarrow> guar R P m Q X"
  by (rule guarI) (auto dest: steps_run)

end

lemma inv_step_order: "step_order (\<lambda>s t. I s \<longrightarrow> I t)"
  by unfold_locales auto

section \<open>Strings and lists\<close>

definition is_digit :: "char \<Rightarrow> bool" where
  "is_digit c \<longleftrightarrow> CHR ''0'' \<le> c \<and> c \<le> CHR ''9''"

definition is_lower :: "char \<Rightarrow> bool" where
  "is_lower c \<longleftrightarrow> CHR ''a'' \<le> c \<and> c \<le> CHR ''z''"

definition is_upper :: "char \<Rightarrow> bool" where
  "is_upper c \<longleftrightarrow> CHR ''A'' \<le> c \<and> c \<le> CHR ''Z''"

definition is_hex_lower :: "char \<Rightarrow> bool" where
  "is_hex_lower c \<longleftrightarrow> is_digit c \<or> (CHR ''a'' \<le> c \<and> c \<le> CHR ''f'')"

definition lower_char :: "char \<Rightarrow> char" where
  "lower_char c = (if is_upper c then char_of (of_char c + (32::nat)) else c)"

definition digit_char :: "nat \<Rightarrow> char" where
  "digit_char d = char_of (48 + d)"

definition digit_val :: "char \<Rightarrow> nat" where
  "digit_val c = of_char c - 48"

fun dec :: "nat \<Rightarrow> string" where
  "dec n = (if n < 10 then [digit_char n] else dec (n div 10) @ [digit_char (n mod 10)])"

declare dec.simps [simp del]

definition undec :: "string \<Rightarrow> nat" where
  "undec s = foldl (\<lambda>a c. 10 * a + digit_val c) 0 s"

lemma digit_val_char [simp]: "d < 10 \<Longrightarrow> digit_val (digit_char d) = d"
  by (simp add: digit_val_def digit_char_def)

lemma is_digit_char [simp]: "d < 10 \<Longrightarrow> is_digit (digit_char d)"
  by (simp add: is_digit_def digit_char_def less_eq_char_def)

lemma undec_dec [simp]: "undec (dec n) = n"
proof (induction n rule: dec.induct)
  case (1 n)
  then show ?case
    by (cases "n < 10") (simp_all add: dec.simps [of n] undec_def)
qed

lemma dec_digits: "list_all is_digit (dec n)"
proof (induction n rule: dec.induct)
  case (1 n)
  then show ?case
    by (cases "n < 10") (simp_all add: dec.simps [of n])
qed

lemma dec_nonempty [simp]: "dec n \<noteq> []"
  by (simp add: dec.simps [of n])

lemma digit_char_nonzero:
  assumes "0 < d" "d < 10"
  shows "digit_char d \<noteq> CHR ''0''"
proof
  assume "digit_char d = CHR ''0''"
  then have "digit_val (digit_char d) = digit_val (CHR ''0'')" by simp
  with assms show False by (simp add: digit_val_def digit_char_def)
qed

lemma dec_first: "0 < n \<Longrightarrow> hd (dec n) \<noteq> CHR ''0''"
proof (induction n rule: dec.induct)
  case (1 n)
  then show ?case
    by (cases "n < 10") (simp_all add: dec.simps [of n] digit_char_nonzero)
qed

fun join :: "string \<Rightarrow> string list \<Rightarrow> string" where
  "join sep [] = []"
| "join sep [x] = x"
| "join sep (x # y # xs) = x @ sep @ join sep (y # xs)"

fun remove_first :: "('a \<Rightarrow> bool) \<Rightarrow> 'a list \<Rightarrow> 'a list" where
  "remove_first p [] = []"
| "remove_first p (x # xs) = (if p x then xs else x # remove_first p xs)"

end
