(* ===== verification/Naming.thy ===== *)
theory Naming
  imports Prelude
begin

text \<open>
  The exception classes of \<open>game_switch.py\<close> and the validation helpers of \<open>naming.py\<close>.
  \<open>Killed\<close> is the death of the process (the crash hooks of the tests, a SIGKILL): no
  \<open>except\<close> clause catches it, and \<open>BaseExn\<close> is a \<open>BaseException\<close> which is not an
  \<open>Exception\<close>.  Messages are short ASCII tags of the Japanese texts.  Paths are lists of
  components, and \<open>Path.resolve\<close>, which reads symbolic links, is a parameter.
\<close>

section \<open>Exceptions\<close>

datatype exn =
    StateCorrupt string
  | Busy string
  | RequestConflict string
  | InvalidTransition string
  | GameSwitchError string
  | ReadinessTimeout string
  | DeadlineExceeded string
  | RoundBoundaryUnsupported string bool
  | RoundBoundaryError string
  | RoundBoundaryStateChanged string
  | NameInvalid string
  | ValueError string
  | PyRuntimeError string
  | PyNameError string
  | OSError string
  | AdapterError string
  | BaseExn string
  | Killed

fun exn_text :: "exn \<Rightarrow> string" where
  "exn_text (StateCorrupt t) = t"
| "exn_text (Busy t) = t"
| "exn_text (RequestConflict t) = t"
| "exn_text (InvalidTransition t) = t"
| "exn_text (GameSwitchError t) = t"
| "exn_text (ReadinessTimeout t) = t"
| "exn_text (DeadlineExceeded t) = t"
| "exn_text (RoundBoundaryUnsupported t b) = t"
| "exn_text (RoundBoundaryError t) = t"
| "exn_text (RoundBoundaryStateChanged t) = t"
| "exn_text (NameInvalid t) = t"
| "exn_text (ValueError t) = t"
| "exn_text (PyRuntimeError t) = t"
| "exn_text (PyNameError t) = t"
| "exn_text (OSError t) = t"
| "exn_text (AdapterError t) = t"
| "exn_text (BaseExn t) = t"
| "exn_text Killed = []"

text \<open>What \<open>except Exception\<close> and \<open>except BaseException\<close> catch, and the classes the code
  catches by name.\<close>

fun is_Exception :: "exn \<Rightarrow> bool" where
  "is_Exception (BaseExn t) = False"
| "is_Exception Killed = False"
| "is_Exception _ = True"

definition is_BaseException :: "exn \<Rightarrow> bool" where
  "is_BaseException x \<longleftrightarrow> x \<noteq> Killed"

fun is_Busy :: "exn \<Rightarrow> bool" where
  "is_Busy (Busy t) = True"
| "is_Busy _ = False"

fun is_Conflict :: "exn \<Rightarrow> bool" where
  "is_Conflict (RequestConflict t) = True"
| "is_Conflict _ = False"

fun is_StateCorrupt :: "exn \<Rightarrow> bool" where
  "is_StateCorrupt (StateCorrupt t) = True"
| "is_StateCorrupt _ = False"

fun is_InvalidTransition :: "exn \<Rightarrow> bool" where
  "is_InvalidTransition (InvalidTransition t) = True"
| "is_InvalidTransition _ = False"

fun is_DeadlineExceeded :: "exn \<Rightarrow> bool" where
  "is_DeadlineExceeded (DeadlineExceeded t) = True"
| "is_DeadlineExceeded _ = False"

fun is_ReadinessTimeout :: "exn \<Rightarrow> bool" where
  "is_ReadinessTimeout (ReadinessTimeout t) = True"
| "is_ReadinessTimeout _ = False"

fun is_StateChanged :: "exn \<Rightarrow> bool" where
  "is_StateChanged (RoundBoundaryStateChanged t) = True"
| "is_StateChanged _ = False"

fun is_NameInvalid :: "exn \<Rightarrow> bool" where
  "is_NameInvalid (NameInvalid t) = True"
| "is_NameInvalid _ = False"

text \<open>\<open>_safe_detail\<close>: one line of at most 240 characters.\<close>

definition safe_text :: "string \<Rightarrow> string" where
  "safe_text t = take 240 (List.map (\<lambda>c. if c = CHR 0x0A then CHR 0x20 else c) t)"

definition safe_detail :: "exn \<Rightarrow> string" where
  "safe_detail x = safe_text (exn_text x)"

lemma safe_detail_length: "length (safe_detail x) \<le> 240"
  by (simp add: safe_detail_def safe_text_def)

section \<open>Names\<close>

definition name_start :: "char \<Rightarrow> bool" where
  "name_start c \<longleftrightarrow> is_lower c \<or> is_digit c"

definition name_char :: "char \<Rightarrow> bool" where
  "name_char c \<longleftrightarrow> is_lower c \<or> is_digit c \<or> c = CHR ''_'' \<or> c = CHR ''-''"

fun matches_name :: "nat \<Rightarrow> string \<Rightarrow> bool" where
  "matches_name k [] = False"
| "matches_name k (c # cs) = (name_start c \<and> length cs \<le> k \<and> list_all name_char cs)"

definition validate_game_name :: "string \<Rightarrow> exn + string" where
  "validate_game_name s = (if matches_name 63 s then Inr s else Inl (NameInvalid ''game name''))"

definition validate_tmux_name :: "string \<Rightarrow> exn + string" where
  "validate_tmux_name s = (if matches_name 127 s then Inr s else Inl (NameInvalid ''tmux name''))"

text \<open>\<open>TMUX_TARGET_PATTERN\<close>: a name, or two names with a colon between them.  No name holds
  a colon, so the split at the first colon is the only one that can match.\<close>

definition matches_target :: "string \<Rightarrow> bool" where
  "matches_target s =
     (let a = takeWhile (\<lambda>c. c \<noteq> CHR '':'') s; b = dropWhile (\<lambda>c. c \<noteq> CHR '':'') s
      in matches_name 127 a \<and> (b = [] \<or> matches_name 127 (tl b)))"

definition validate_tmux_target :: "string \<Rightarrow> exn + string" where
  "validate_tmux_target s = (if matches_target s then Inr s else Inl (NameInvalid ''tmux target''))"

fun matches_tmux_id :: "char \<Rightarrow> string \<Rightarrow> bool" where
  "matches_tmux_id k [] = False"
| "matches_tmux_id k (c # cs) = (c = k \<and> cs \<noteq> [] \<and> list_all is_digit cs)"

definition validate_tmux_window_id :: "string \<Rightarrow> exn + string" where
  "validate_tmux_window_id s =
     (if matches_tmux_id (CHR ''@'') s then Inr s else Inl (NameInvalid ''tmux window id''))"

definition validate_tmux_session_id :: "string \<Rightarrow> exn + string" where
  "validate_tmux_session_id s =
     (if matches_tmux_id (CHR 0x24) s then Inr s else Inl (NameInvalid ''tmux session id''))"

definition validate_tmux_window_ref :: "string \<Rightarrow> exn + string" where
  "validate_tmux_window_ref s =
     (if matches_tmux_id (CHR ''@'') s then validate_tmux_window_id s else validate_tmux_target s)"

definition validate_tmux_session_ref :: "string \<Rightarrow> exn + string" where
  "validate_tmux_session_ref s =
     (if matches_tmux_id (CHR 0x24) s then validate_tmux_session_id s else validate_tmux_name s)"

section \<open>Runtime identifiers\<close>

text \<open>\<open>RUNTIME_ID_PATTERN\<close> is \<open>g([1-9][0-9]*)-([a-f0-9]{6,32})\<close>; the digits stop at the first
  character that is no digit, which has to be the hyphen.\<close>

definition runtime_id_digits :: "string \<Rightarrow> string" where
  "runtime_id_digits s = takeWhile is_digit (tl s)"

definition matches_runtime_id :: "string \<Rightarrow> bool" where
  "matches_runtime_id s =
     (let ds = runtime_id_digits s; rest = dropWhile is_digit (tl s)
      in s \<noteq> [] \<and> hd s = CHR ''g'' \<and> ds \<noteq> [] \<and> hd ds \<noteq> CHR ''0'' \<and>
         rest \<noteq> [] \<and> hd rest = CHR ''-'' \<and> 6 \<le> length (tl rest) \<and> length (tl rest) \<le> 32 \<and>
         list_all is_hex_lower (tl rest))"

definition validate_runtime_id :: "string \<Rightarrow> exn + string" where
  "validate_runtime_id s =
     (if matches_runtime_id s then Inr s else Inl (NameInvalid ''runtime_id''))"

definition runtime_id_generation :: "string \<Rightarrow> exn + int" where
  "runtime_id_generation s =
     (case validate_runtime_id s of
        Inl x \<Rightarrow> Inl x
      | Inr t \<Rightarrow> Inr (int (undec (runtime_id_digits t))))"

record names =
  nm_game_window :: string
  nm_agent_window :: string
  nm_adapter_session :: string

definition gen_suffix :: "int \<Rightarrow> string" where
  "gen_suffix g = CHR ''g'' # dec (nat g)"

definition runtime_names :: "int \<Rightarrow> exn + names" where
  "runtime_names g =
     (if g < 1 then Inl (NameInvalid ''generation'')
      else case validate_tmux_name (''game-'' @ gen_suffix g) of
        Inl x \<Rightarrow> Inl x
      | Inr a \<Rightarrow> (case validate_tmux_name (''agent-'' @ gen_suffix g) of
          Inl x \<Rightarrow> Inl x
        | Inr b \<Rightarrow> (case validate_tmux_name (''docich-game-'' @ gen_suffix g) of
            Inl x \<Rightarrow> Inl x
          | Inr c \<Rightarrow> Inr \<lparr>nm_game_window = a, nm_agent_window = b, nm_adapter_session = c\<rparr>)))"

type_synonym path = "string list"

fun is_prefix :: "'a list \<Rightarrow> 'a list \<Rightarrow> bool" where
  "is_prefix [] ys = True"
| "is_prefix (x # xs) [] = False"
| "is_prefix (x # xs) (y # ys) = (x = y \<and> is_prefix xs ys)"

definition ensure_contained :: "(path \<Rightarrow> path) \<Rightarrow> path \<Rightarrow> path \<Rightarrow> exn + path" where
  "ensure_contained res base cand =
     (if is_prefix (res base) (res cand) then Inr (res cand)
      else Inl (NameInvalid ''path outside the allowed directory''))"

definition runtime_directory :: "(path \<Rightarrow> path) \<Rightarrow> path \<Rightarrow> string \<Rightarrow> exn + path" where
  "runtime_directory res state_dir rid =
     (case validate_runtime_id rid of
        Inl x \<Rightarrow> Inl x
      | Inr r \<Rightarrow> ensure_contained res (state_dir @ [''runtimes'']) (state_dir @ [''runtimes'', rid]))"

definition make_runtime_id :: "int \<Rightarrow> string \<Rightarrow> string" where
  "make_runtime_id g hex = gen_suffix g @ CHR ''-'' # hex"

section \<open>Facts\<close>

lemma is_digit_dash [simp]: "\<not> is_digit (CHR ''-'')"
  by (simp add: is_digit_def less_eq_char_def)

lemma takeWhile_dec: "takeWhile is_digit (dec n @ CHR ''-'' # h) = dec n"
  using dec_digits [of n] by (simp add: takeWhile_append list_all_iff)

lemma dropWhile_dec: "dropWhile is_digit (dec n @ CHR ''-'' # h) = CHR ''-'' # h"
  using dec_digits [of n] by (simp add: dropWhile_append list_all_iff)

text \<open>A fresh runtime id matches the pattern and carries its generation.\<close>

lemma make_runtime_id_matches:
  assumes "1 \<le> g" "6 \<le> length hex" "length hex \<le> 32" "list_all is_hex_lower hex"
  shows "matches_runtime_id (make_runtime_id g hex)"
  using assms dec_first [of "nat g"]
  by (simp add: matches_runtime_id_def make_runtime_id_def runtime_id_digits_def gen_suffix_def
      takeWhile_dec dropWhile_dec)

lemma make_runtime_id_generation:
  assumes "1 \<le> g" "6 \<le> length hex" "length hex \<le> 32" "list_all is_hex_lower hex"
  shows "runtime_id_generation (make_runtime_id g hex) = Inr g"
  using make_runtime_id_matches [OF assms] assms(1)
  by (simp add: runtime_id_generation_def validate_runtime_id_def)
    (simp add: make_runtime_id_def runtime_id_digits_def gen_suffix_def takeWhile_dec)

lemma runtime_directory_inside:
  "runtime_directory res d rid = Inr p \<Longrightarrow> is_prefix (res (d @ [''runtimes''])) p"
  by (auto simp: runtime_directory_def ensure_contained_def split: sum.splits if_splits)

lemma runtime_names_form:
  "runtime_names g = Inr n \<Longrightarrow>
     1 \<le> g \<and> nm_game_window n = ''game-'' @ gen_suffix g \<and>
     nm_agent_window n = ''agent-'' @ gen_suffix g \<and>
     nm_adapter_session n = ''docich-game-'' @ gen_suffix g"
  by (auto simp: runtime_names_def validate_tmux_name_def split: sum.splits if_splits)

lemma gen_suffix_inj: "1 \<le> g \<Longrightarrow> 1 \<le> h \<Longrightarrow> gen_suffix g = gen_suffix h \<longleftrightarrow> g = h"
proof
  assume a: "1 \<le> g" "1 \<le> h" "gen_suffix g = gen_suffix h"
  then have "undec (dec (nat g)) = undec (dec (nat h))" by (simp add: gen_suffix_def)
  with a show "g = h" by simp
qed simp

text \<open>Different generations never share a window or session name.\<close>

lemma runtime_names_inj:
  assumes "runtime_names g = Inr n" "runtime_names h = Inr m"
    and "nm_game_window n = nm_game_window m \<or> nm_agent_window n = nm_agent_window m \<or>
         nm_adapter_session n = nm_adapter_session m"
  shows "g = h"
  using runtime_names_form [OF assms(1)] runtime_names_form [OF assms(2)] assms(3)
  by (auto simp: gen_suffix_inj)

end
