(* ===== verification/Timestamps.thy ===== *)
theory Timestamps
  imports Naming
begin

text \<open>
  The timestamps of \<open>game_switch.py\<close>: \<open>_utc_now\<close> writes an aware UTC datetime with
  \<open>isoformat().replace("+00:00", "Z")\<close>, the deadline helpers read one back with
  \<open>datetime.fromisoformat\<close>.  An instant is a number of microseconds since
  0001-01-01T00:00:00Z, the smallest datetime of Python.  \<open>fromisoformat\<close> is modelled for the
  extended format with seconds, an optional six-digit fraction and an optional offset, with or
  without \<open>Z\<close>; every other text, which the program never writes, reads as malformed.

  The last section compares the order of the texts, which the FIFO queue sorts by, with the
  order of the instants.
\<close>

section \<open>The proleptic Gregorian calendar\<close>

definition leap :: "nat \<Rightarrow> bool" where
  "leap y \<longleftrightarrow> 4 dvd y \<and> (\<not> 100 dvd y \<or> 400 dvd y)"

definition year_days :: "nat \<Rightarrow> nat" where
  "year_days y = (if leap y then 366 else 365)"

definition month_days :: "bool \<Rightarrow> nat list" where
  "month_days l = [31, if l then 29 else 28, 31, 30, 31, 30, 31, 31, 30, 31, 30, 31]"

definition days_before_year :: "nat \<Rightarrow> nat" where
  "days_before_year y = (y - 1) * 365 + (y - 1) div 4 - (y - 1) div 100 + (y - 1) div 400"

fun month_of :: "nat list \<Rightarrow> nat \<Rightarrow> nat \<times> nat" where
  "month_of [] n = (1, n + 1)"
| "month_of (l # ls) n =
     (if n < l then (1, n + 1) else (case month_of ls (n - l) of (m, d) \<Rightarrow> (m + 1, d)))"

definition year_of :: "nat \<Rightarrow> nat \<times> nat" where
  "year_of n =
     (let q400 = n div 146097; r = n mod 146097;
          q100 = r div 36524; r1 = r mod 36524;
          q4 = r1 div 1461; r2 = r1 mod 1461;
          q1 = r2 div 365; r3 = r2 mod 365;
          y = q400 * 400 + q100 * 100 + q4 * 4 + q1 + 1
      in if q1 = 4 \<or> q100 = 4 then (y - 1, 365) else (y, r3))"

definition civil_of :: "nat \<Rightarrow> nat \<times> nat \<times> nat" where
  "civil_of n = (case year_of n of (y, k) \<Rightarrow> (case month_of (month_days (leap y)) k of (m, d) \<Rightarrow> (y, m, d)))"

definition day_of :: "nat \<Rightarrow> nat \<Rightarrow> nat \<Rightarrow> nat" where
  "day_of y m d = days_before_year y + sum_list (take (m - 1) (month_days (leap y))) + d - 1"

lemma month_days_sum: "sum_list (month_days l) = (if l then 366 else 365)"
  by (simp add: month_days_def)

lemma month_of_spec:
  "month_of ls n = (m, d) \<Longrightarrow> n < sum_list ls \<Longrightarrow>
     1 \<le> m \<and> m \<le> length ls \<and> 1 \<le> d \<and> d \<le> ls ! (m - 1) \<and> sum_list (take (m - 1) ls) + d = n + 1"
proof (induction ls n arbitrary: m d rule: month_of.induct)
  case (2 l ls n)
  show ?case
  proof (cases "n < l")
    case False
    obtain m' d' where md: "month_of ls (n - l) = (m', d')" by fastforce
    have "1 \<le> m' \<and> m' \<le> length ls \<and> 1 \<le> d' \<and> d' \<le> ls ! (m' - 1) \<and>
        sum_list (take (m' - 1) ls) + d' = n - l + 1"
      using 2 False md by auto
    with 2 False md show ?thesis
      by (cases m') (auto simp: nth_Cons')
  qed (use 2 in auto)
qed simp

lemma days_before_year_split:
  assumes "b < 4" "c < 25" "d < 4"
  shows "days_before_year (a * 400 + b * 100 + c * 4 + d + 1) =
    a * 146097 + b * 36524 + c * 1461 + d * 365"
proof -
  let ?y = "a * 400 + b * 100 + c * 4 + d"
  have "?y div 4 = a * 100 + b * 25 + c" "?y div 100 = a * 4 + b" "?y div 400 = a"
    using assms by linarith+
  then show ?thesis by (simp add: days_before_year_def)
qed

lemma dvd_block:
  fixes k q r :: nat
  assumes "0 < r" "r \<le> k"
  shows "k dvd k * q + r \<longleftrightarrow> r = k"
proof
  assume "k dvd k * q + r"
  then have "k dvd r" by (simp add: dvd_add_right_iff)
  then have "k \<le> r" using assms by (simp add: dvd_imp_le)
  with assms show "r = k" by simp
qed simp

lemma leap_split:
  assumes "b < 4" "c < 25" "d < 4"
  shows "leap (a * 400 + b * 100 + c * 4 + d + 1) \<longleftrightarrow> d = 3 \<and> (c \<noteq> 24 \<or> b = 3)"
proof -
  let ?y = "a * 400 + b * 100 + c * 4 + d + 1"
  have y: "?y = 4 * (a * 100 + b * 25 + c) + (d + 1)"
    "?y = 100 * (a * 4 + b) + (c * 4 + d + 1)" "?y = 400 * a + (b * 100 + c * 4 + d + 1)"
    by simp_all
  have "4 dvd ?y \<longleftrightarrow> d + 1 = 4" unfolding y(1) by (rule dvd_block) (use assms in simp_all)
  moreover have "100 dvd ?y \<longleftrightarrow> c * 4 + d + 1 = 100"
    unfolding y(2) by (rule dvd_block) (use assms in simp_all)
  moreover have "400 dvd ?y \<longleftrightarrow> b * 100 + c * 4 + d + 1 = 400"
    unfolding y(3) by (rule dvd_block) (use assms in simp_all)
  moreover have "c * 4 + d + 1 = 100 \<longleftrightarrow> c = 24 \<and> d = 3" using assms by linarith
  moreover have "b * 100 + c * 4 + d + 1 = 400 \<longleftrightarrow> b = 3 \<and> c = 24 \<and> d = 3" using assms by linarith
  ultimately show ?thesis unfolding leap_def by auto
qed

lemma year_of_spec:
  assumes "year_of n = (y, k)"
  shows "days_before_year y + k = n \<and> k < year_days y \<and> 1 \<le> y"
proof -
  define a where "a = n div 146097"
  define r where "r = n mod 146097"
  define b where "b = r div 36524"
  define r1 where "r1 = r mod 36524"
  define c where "c = r1 div 1461"
  define r2 where "r2 = r1 mod 1461"
  define d where "d = r2 div 365"
  define r3 where "r3 = r2 mod 365"
  have n: "n = a * 146097 + r" and r: "r = b * 36524 + r1" and r1: "r1 = c * 1461 + r2"
    and r2: "r2 = d * 365 + r3"
    by (simp_all add: a_def r_def b_def r1_def c_def r2_def d_def r3_def)
  have lt: "r < 146097" "r1 < 36524" "r2 < 1461" "r3 < 365"
    by (simp_all add: r_def r1_def r2_def r3_def)
  have b4: "b \<le> 4" and c24: "c \<le> 24" and d4: "d \<le> 4" using lt r r1 r2 by linarith+
  have eq: "(y, k) = (if d = 4 \<or> b = 4 then (a * 400 + b * 100 + c * 4 + d + 1 - 1, 365)
      else (a * 400 + b * 100 + c * 4 + d + 1, r3))"
    using assms by (auto simp: year_of_def Let_def a_def r_def b_def r1_def c_def r2_def d_def r3_def
        split: if_splits)
  consider "b = 4" | "b \<noteq> 4" "d = 4" | "b < 4" "d < 4" using b4 d4 by linarith
  then show ?thesis
  proof cases
    case 1
    then have z: "r1 = 0" using lt r by linarith
    then have "c = 0" "r2 = 0" "d = 0" using r1 r2 by simp_all
    moreover have "days_before_year (a * 400 + 3 * 100 + 24 * 4 + 3 + 1) = a * 146097 + 3 * 36524 + 24 * 1461 + 3 * 365"
      by (rule days_before_year_split) simp_all
    moreover have "leap (a * 400 + 3 * 100 + 24 * 4 + 3 + 1)" by (subst leap_split) simp_all
    ultimately show ?thesis using 1 eq n r z by (simp add: year_days_def)
  next
    case 2
    then have z: "r3 = 0" using lt r2 by linarith
    have b: "b < 4" using 2 b4 by simp
    have ne: "c \<noteq> 24"
    proof
      assume "c = 24"
      then have "r1 = 24 * 1461 + 1460" using r1 r2 2 z by simp
      then show False using lt by simp
    qed
    then have c: "c < 25" using c24 by simp
    have "days_before_year (a * 400 + b * 100 + c * 4 + 3 + 1) = a * 146097 + b * 36524 + c * 1461 + 3 * 365"
      by (rule days_before_year_split) (use b c in simp_all)
    moreover have "leap (a * 400 + b * 100 + c * 4 + 3 + 1)"
      by (subst leap_split) (use b c ne in simp_all)
    ultimately show ?thesis using 2 eq n r r1 r2 z by (simp add: year_days_def)
  next
    case 3
    have "days_before_year (a * 400 + b * 100 + c * 4 + d + 1) = a * 146097 + b * 36524 + c * 1461 + d * 365"
      by (rule days_before_year_split) (use 3 c24 in simp_all)
    with 3 eq n r r1 r2 lt show ?thesis by (simp add: year_days_def)
  qed
qed

lemma civil_of_spec:
  assumes "civil_of n = (y, m, d)"
  shows "day_of y m d = n" "1 \<le> y" "1 \<le> m" "m \<le> 12" "1 \<le> d" "d \<le> month_days (leap y) ! (m - 1)"
proof -
  obtain k where y: "year_of n = (y, k)" and md: "month_of (month_days (leap y)) k = (m, d)"
    using assms by (auto simp: civil_of_def split: prod.splits)
  note ys = year_of_spec [OF y]
  have "k < sum_list (month_days (leap y))" using ys by (simp add: month_days_sum year_days_def)
  note ms = month_of_spec [OF md this]
  have "length (month_days (leap y)) = 12" by (simp add: month_days_def)
  with ys ms show "day_of y m d = n" "1 \<le> y" "1 \<le> m" "m \<le> 12" "1 \<le> d"
    "d \<le> month_days (leap y) ! (m - 1)"
    by (auto simp: day_of_def)
qed

section \<open>Printing and reading\<close>

fun pad :: "nat \<Rightarrow> nat \<Rightarrow> string" where
  "pad 0 n = []"
| "pad (Suc w) n = pad w (n div 10) @ [digit_char (n mod 10)]"

definition second_us :: nat where "second_us = 1000000"
definition day_us :: nat where "day_us = 86400 * second_us"

text \<open>The first instant after 9999-12-31, the largest date of Python.\<close>

definition max_us :: nat where "max_us = 3652059 * day_us"

definition iso_seconds :: "nat \<Rightarrow> string" where
  "iso_seconds t =
     (case civil_of (t div day_us) of (y, mo, d) \<Rightarrow>
        let s = t mod day_us div second_us
        in pad 4 y @ ''-'' @ pad 2 mo @ ''-'' @ pad 2 d @ ''T'' @
           pad 2 (s div 3600) @ '':'' @ pad 2 (s div 60 mod 60) @ '':'' @ pad 2 (s mod 60))"

definition iso_utc :: "int \<Rightarrow> string" where
  "iso_utc t =
     iso_seconds (nat t) @
     (if nat t mod second_us = 0 then [] else ''.'' @ pad 6 (nat t mod second_us)) @ ''Z''"

datatype stamp = Instant int | Naive int | BadStamp

definition num_field :: "nat \<Rightarrow> nat \<Rightarrow> string \<Rightarrow> nat option" where
  "num_field i w s =
     (let f = take w (drop i s)
      in if length f = w \<and> list_all is_digit f then Some (undec f) else None)"

definition read_offset :: "string \<Rightarrow> int option option" where
  "read_offset s =
     (if s = [] then Some None
      else case (num_field 1 2 s, num_field 4 2 s) of
        (Some h, Some m) \<Rightarrow>
          if length s = 6 \<and> s ! 3 = CHR '':'' \<and> h < 24 \<and> m < 60 \<and> (hd s = CHR ''+'' \<or> hd s = CHR ''-'')
          then Some (Some ((if hd s = CHR ''+'' then 1 else -1) * int ((h * 60 + m) * 60 * second_us)))
          else None
      | _ \<Rightarrow> None)"

definition read_fraction :: "string \<Rightarrow> (nat \<times> string) option" where
  "read_fraction s =
     (if s \<noteq> [] \<and> hd s = CHR ''.'' then
        (case num_field 1 6 s of Some f \<Rightarrow> Some (f, drop 7 s) | None \<Rightarrow> None)
      else Some (0, s))"

definition read_date :: "string \<Rightarrow> nat option" where
  "read_date s =
     (case (num_field 0 4 s, num_field 5 2 s, num_field 8 2 s) of
        (Some y, Some m, Some d) \<Rightarrow>
          if s ! 4 = CHR ''-'' \<and> s ! 7 = CHR ''-'' \<and> 1 \<le> y \<and> 1 \<le> m \<and> m \<le> 12 \<and> 1 \<le> d \<and>
             d \<le> month_days (leap y) ! (m - 1)
          then Some (day_of y m d) else None
      | _ \<Rightarrow> None)"

definition read_time :: "string \<Rightarrow> nat option" where
  "read_time s =
     (case (num_field 11 2 s, num_field 14 2 s, num_field 17 2 s) of
        (Some h, Some m, Some x) \<Rightarrow>
          if s ! 13 = CHR '':'' \<and> s ! 16 = CHR '':'' \<and> h < 24 \<and> m < 60 \<and> x < 60
          then Some (h * 3600 + m * 60 + x) else None
      | _ \<Rightarrow> None)"

text \<open>\<open>dt.datetime.fromisoformat(value.replace("Z", "+00:00"))\<close>.\<close>

definition parse_iso :: "string \<Rightarrow> stamp" where
  "parse_iso value =
     (let s = concat (List.map (\<lambda>c. if c = CHR ''Z'' then ''+00:00'' else [c]) value)
      in case (read_date s, read_time s, read_fraction (drop 19 s)) of
        (Some d, Some x, Some (f, rest)) \<Rightarrow>
          (let us = int (d * day_us + x * second_us + f)
           in case read_offset rest of
                None \<Rightarrow> BadStamp
              | Some None \<Rightarrow> Naive us
              | Some (Some off) \<Rightarrow> Instant (us - off))
      | _ \<Rightarrow> BadStamp)"

text \<open>\<open>_wall_deadline_expired\<close> and \<open>_wall_deadline_remaining_s\<close>; \<open>now\<close> is the reading of
  the wall clock.\<close>

definition wall_deadline_expired :: "int \<Rightarrow> string option \<Rightarrow> bool" where
  "wall_deadline_expired now v =
     (case v of
        None \<Rightarrow> True
      | Some s \<Rightarrow> if s = [] then True
          else (case parse_iso s of BadStamp \<Rightarrow> True | Naive t \<Rightarrow> t \<le> now | Instant t \<Rightarrow> t \<le> now))"

definition wall_deadline_remaining :: "int \<Rightarrow> string option \<Rightarrow> exn + int option" where
  "wall_deadline_remaining now v =
     (case v of
        None \<Rightarrow> Inr None
      | Some s \<Rightarrow> if s = [] then Inl (StateCorrupt ''hard deadline'')
          else (case parse_iso s of
                  BadStamp \<Rightarrow> Inl (StateCorrupt ''hard deadline'')
                | Naive t \<Rightarrow> Inl (StateCorrupt ''hard deadline without timezone'')
                | Instant t \<Rightarrow> Inr (Some (t - now))))"

section \<open>Reading back what was printed\<close>

lemma pad_length [simp]: "length (pad w n) = w"
  by (induction w arbitrary: n) auto

lemma pad_digits [simp]: "list_all is_digit (pad w n)"
  by (induction w arbitrary: n) auto

lemma undec_snoc: "undec (s @ [c]) = 10 * undec s + digit_val c"
  by (simp add: undec_def)

lemma undec_pad: "n < 10 ^ w \<Longrightarrow> undec (pad w n) = n"
proof (induction w arbitrary: n)
  case 0
  then show ?case by (simp add: undec_def)
next
  case (Suc w)
  then have "n div 10 < 10 ^ w" by (simp add: less_mult_imp_div_less mult.commute)
  with Suc.IH show ?case by (simp add: undec_snoc)
qed

lemma num_field_pad:
  "length p = i \<Longrightarrow> n < 10 ^ w \<Longrightarrow> num_field i w (p @ pad w n @ r) = Some n"
  by (simp add: num_field_def Let_def undec_pad)

lemma is_digit_not_Z: "is_digit c \<Longrightarrow> c \<noteq> CHR ''Z''"
  by (auto simp: is_digit_def less_eq_char_def)

lemma replace_Z_id:
  "list_all (\<lambda>c. c \<noteq> CHR ''Z'') s \<Longrightarrow>
   concat (List.map (\<lambda>c. if c = CHR ''Z'' then ''+00:00'' else [c]) s) = s"
  by (induction s) auto

lemma pad_no_Z [simp]: "list_all (\<lambda>c. c \<noteq> CHR ''Z'') (pad w n)"
  using pad_digits [of w n] by (auto simp: list_all_iff dest: is_digit_not_Z)

lemma days_before_year_Suc:
  assumes "1 \<le> y"
  shows "days_before_year (Suc y) = days_before_year y + year_days y"
proof -
  obtain a where y: "y = Suc a" using assms by (cases y) auto
  have d: "Suc a div k = a div k + (if k dvd Suc a then 1 else 0)" for k
    by (simp add: div_Suc dvd_eq_mod_eq_0)
  define q4 q100 q400 where q: "q4 = a div 4" "q100 = a div 100" "q400 = a div 400"
  define p4 p100 p400 where p: "p4 = (4 dvd Suc a)" "p100 = (100 dvd Suc a)" "p400 = (400 dvd Suc a)"
  have "days_before_year (Suc y) = (a * 365 + 365) + (q4 + (if p4 then 1 else 0)) -
      (q100 + (if p100 then 1 else 0)) + (q400 + (if p400 then 1 else 0))"
    by (simp only: days_before_year_def y diff_Suc_1 d q p mult_Suc add.commute [of 365])
  moreover have "days_before_year y = a * 365 + q4 - q100 + q400"
    by (simp only: days_before_year_def y diff_Suc_1 q)
  moreover have "year_days y = (if p4 \<and> (\<not> p100 \<or> p400) then 366 else 365)"
    by (simp only: year_days_def leap_def y p)
  moreover have "p400 \<longrightarrow> p100" "p100 \<longrightarrow> p4" unfolding p
    by (auto elim: dvd_trans [rotated])
  moreover have "q100 \<le> a * 365 + q4" unfolding q by linarith
  ultimately show ?thesis by (cases p4; cases p100; cases p400) simp_all
qed

lemma days_before_year_mono: "1 \<le> y \<Longrightarrow> y \<le> z \<Longrightarrow> days_before_year y \<le> days_before_year z"
proof (induction z)
  case (Suc z)
  then show ?case by (cases "y = Suc z") (auto simp: days_before_year_Suc)
qed simp

lemma civil_year:
  assumes "civil_of n = (y, m, d)"
  shows "days_before_year y \<le> n" "n < days_before_year (Suc y)"
proof -
  obtain k where y: "year_of n = (y, k)"
    using assms by (auto simp: civil_of_def split: prod.splits)
  from year_of_spec [OF y] show "days_before_year y \<le> n" "n < days_before_year (Suc y)"
    by (auto simp: days_before_year_Suc)
qed

lemma year_bound:
  assumes "civil_of n = (y, m, d)" "n < 3652059"
  shows "y < 10000"
proof (rule ccontr)
  assume "\<not> y < 10000"
  then have "days_before_year 10000 \<le> days_before_year y" by (simp add: days_before_year_mono)
  moreover have "days_before_year 10000 = 3652059" by (simp add: days_before_year_def)
  ultimately show False using civil_year [OF assms(1)] assms(2) by simp
qed

lemma civil_small:
  assumes "civil_of n = (y, m, d)"
  shows "m < 100" "d < 100"
proof -
  note c = civil_of_spec [OF assms]
  from c show "m < 100" by simp
  have "\<forall>x\<in>set (month_days (leap y)). x < 100" by (simp add: month_days_def)
  moreover have "m - 1 < length (month_days (leap y))" using c by (simp add: month_days_def)
  ultimately have "month_days (leap y) ! (m - 1) < 100" by (simp add: all_set_conv_all_nth)
  with c show "d < 100" by simp
qed

lemma iso_seconds_length [simp]: "length (iso_seconds t) = 19"
  by (simp add: iso_seconds_def Let_def split: prod.splits)

lemma iso_seconds_no_Z [simp]: "list_all (\<lambda>c. c \<noteq> CHR ''Z'') (iso_seconds t)"
  by (simp add: iso_seconds_def Let_def split: prod.splits)

lemma num_field_at:
  "s = p @ pad w n @ r \<Longrightarrow> length p = i \<Longrightarrow> n < 10 ^ w \<Longrightarrow> num_field i w s = Some n"
  by (simp add: num_field_pad)

lemma nth_at: "s = p @ c # r \<Longrightarrow> length p = i \<Longrightarrow> s ! i = c"
  by auto

lemma read_date_iso:
  assumes "t < max_us"
  shows "read_date (iso_seconds t @ r) = Some (t div day_us)"
proof -
  obtain y m d where c: "civil_of (t div day_us) = (y, m, d)" by (metis prod_cases3)
  obtain u where s: "iso_seconds t @ r = pad 4 y @ ''-'' @ pad 2 m @ ''-'' @ pad 2 d @ u"
    by (auto simp: iso_seconds_def c Let_def)
  note cs = civil_of_spec [OF c] and sm = civil_small [OF c]
  have "t div day_us < 3652059"
    using assms by (simp add: max_us_def less_mult_imp_div_less)
  then have y: "y < 10000" by (rule year_bound [OF c])
  have "num_field 0 4 (iso_seconds t @ r) = Some y"
    by (rule num_field_at [of _ "[]"]) (simp_all add: s y)
  moreover have "num_field 5 2 (iso_seconds t @ r) = Some m"
    by (rule num_field_at [of _ "pad 4 y @ ''-''" _ _ "''-'' @ pad 2 d @ u"]) (simp_all add: s sm)
  moreover have "num_field 8 2 (iso_seconds t @ r) = Some d"
    by (rule num_field_at [of _ "pad 4 y @ ''-'' @ pad 2 m @ ''-''" _ _ u]) (simp_all add: s sm)
  moreover have "(iso_seconds t @ r) ! 4 = CHR ''-''"
    by (rule nth_at [of _ "pad 4 y"]) (simp_all add: s)
  moreover have "(iso_seconds t @ r) ! 7 = CHR ''-''"
    by (rule nth_at [of _ "pad 4 y @ ''-'' @ pad 2 m"]) (simp_all add: s)
  ultimately show ?thesis using cs by (simp add: read_date_def)
qed

lemma read_time_iso:
  "read_time (iso_seconds t @ r) = Some (t mod day_us div second_us)"
proof -
  define x where "x = t mod day_us div second_us"
  obtain y m d where c: "civil_of (t div day_us) = (y, m, d)" by (metis prod_cases3)
  define p where "p = pad 4 y @ ''-'' @ pad 2 m @ ''-'' @ pad 2 d @ ''T''"
  have s: "iso_seconds t @ r = p @ pad 2 (x div 3600) @ '':'' @ pad 2 (x div 60 mod 60) @ '':'' @ pad 2 (x mod 60) @ r"
    by (simp add: iso_seconds_def c Let_def p_def x_def)
  have x: "x < 86400"
    by (simp add: x_def day_us_def second_us_def less_mult_imp_div_less)
  then have h: "x div 3600 < 24" by (simp add: less_mult_imp_div_less)
  have p: "length p = 11" by (simp add: p_def)
  have "num_field 11 2 (iso_seconds t @ r) = Some (x div 3600)"
    by (rule num_field_at [of _ p]) (use h in \<open>simp_all add: s p\<close>)
  moreover have "num_field 14 2 (iso_seconds t @ r) = Some (x div 60 mod 60)"
    by (rule num_field_at [of _ "p @ pad 2 (x div 3600) @ '':''" _ _ "'':'' @ pad 2 (x mod 60) @ r"])
      (simp_all add: s p)
  moreover have "num_field 17 2 (iso_seconds t @ r) = Some (x mod 60)"
    by (rule num_field_at [of _ "p @ pad 2 (x div 3600) @ '':'' @ pad 2 (x div 60 mod 60) @ '':''" _ _ r])
      (simp_all add: s p)
  moreover have "(iso_seconds t @ r) ! 13 = CHR '':''"
    by (rule nth_at [of _ "p @ pad 2 (x div 3600)"]) (simp_all add: s p)
  moreover have "(iso_seconds t @ r) ! 16 = CHR '':''"
    by (rule nth_at [of _ "p @ pad 2 (x div 3600) @ '':'' @ pad 2 (x div 60 mod 60)"]) (simp_all add: s p)
  moreover have "x div 3600 * 3600 + (x div 60 mod 60) * 60 + x mod 60 = x"
  proof -
    have "x div 60 div 60 = x div 3600" by (simp add: div_mult2_eq [symmetric])
    then show ?thesis
      using div_mult_mod_eq [of "x div 60" 60] div_mult_mod_eq [of x 60] by linarith
  qed
  ultimately show ?thesis using h by (simp add: read_time_def x_def [symmetric])
qed

lemma read_offset_utc: "read_offset ''+00:00'' = Some (Some 0)"
  by (simp add: read_offset_def num_field_def is_digit_def less_eq_char_def undec_def digit_val_def
      nth_Cons_numeral)

lemma read_fraction_iso:
  "read_fraction ((if f = 0 then [] else ''.'' @ pad 6 f) @ CHR ''+'' # r) = Some (f, CHR ''+'' # r)"
  if "f < 1000000"
proof (cases "f = 0")
  case False
  have "num_field 1 6 (''.'' @ pad 6 f @ CHR ''+'' # r) = Some f"
    by (rule num_field_at [of _ "''.''" _ _ "CHR ''+'' # r"]) (use that in simp_all)
  with False show ?thesis by (simp add: read_fraction_def)
qed (simp add: read_fraction_def)

text \<open>\<open>_wall_deadline_*\<close> read back exactly the instant \<open>_utc_now\<close> wrote.\<close>

lemma parse_iso_utc:
  assumes "0 \<le> t" "t < int max_us"
  shows "parse_iso (iso_utc t) = Instant t"
proof -
  define n f where n: "n = nat t" and f: "f = n mod second_us"
  define fr where fr: "fr = (if f = 0 then [] else ''.'' @ pad 6 f)"
  have f6: "f < 1000000" by (simp add: f second_us_def)
  have nm: "n < max_us" using assms by (simp add: n)
  have frZ: "list_all (\<lambda>c. c \<noteq> CHR ''Z'') fr" by (simp add: fr)
  have r: "concat (List.map (\<lambda>c. if c = CHR ''Z'' then ''+00:00'' else [c]) (iso_utc t)) =
      iso_seconds n @ fr @ ''+00:00''"
    by (simp only: iso_utc_def n [symmetric] f [symmetric] fr [symmetric] map_append concat_append
        replace_Z_id [OF iso_seconds_no_Z] replace_Z_id [OF frZ]) simp
  have fr': "read_fraction (fr @ ''+00:00'') = Some (f, ''+00:00'')"
    using read_fraction_iso [OF f6] by (simp add: fr)
  have "n div day_us * day_us + n mod day_us div second_us * second_us + f = n"
  proof -
    have "f = n mod day_us mod second_us"
      by (simp add: f day_us_def mod_mod_cancel)
    then have "n mod day_us div second_us * second_us + f = n mod day_us"
      by simp
    then show ?thesis using div_mult_mod_eq [of n day_us] by linarith
  qed
  then have "int (n div day_us * day_us + n mod day_us div second_us * second_us + f) = t"
    using assms by (simp add: n)
  then show ?thesis
    by (simp only: parse_iso_def r Let_def read_date_iso [OF nm] read_time_iso option.case prod.case
        drop_append iso_seconds_length diff_self_eq_0 drop0) (simp add: fr' read_offset_utc)
qed

section \<open>The order of the texts\<close>

lemma append_less_iff:
  fixes a a' b b' :: "'a::linorder list"
  assumes "length a = length a'"
  shows "a @ b < a' @ b' \<longleftrightarrow> a < a' \<or> (a = a' \<and> b < b')"
  using assms by (induction a a' rule: list_induct2) auto

lemma digit_char_less: "m < 10 \<Longrightarrow> n < 10 \<Longrightarrow> digit_char m < digit_char n \<longleftrightarrow> m < n"
  by (simp add: digit_char_def less_char_def)

lemma digit_char_eq: "m < 10 \<Longrightarrow> n < 10 \<Longrightarrow> digit_char m = digit_char n \<longleftrightarrow> m = n"
  by (metis digit_val_char)

lemma pad_eq: "m < 10 ^ w \<Longrightarrow> n < 10 ^ w \<Longrightarrow> pad w m = pad w n \<longleftrightarrow> m = n"
  by (metis undec_pad)

lemma pad_less: "m < 10 ^ w \<Longrightarrow> n < 10 ^ w \<Longrightarrow> pad w m < pad w n \<longleftrightarrow> m < n"
proof (induction w arbitrary: m n)
  case (Suc w)
  have d: "m div 10 < 10 ^ w" "n div 10 < 10 ^ w"
    using Suc.prems by (simp_all add: less_mult_imp_div_less mult.commute)
  have "m < n \<longleftrightarrow> m div 10 < n div 10 \<or> (m div 10 = n div 10 \<and> m mod 10 < n mod 10)"
    using div_mult_mod_eq [of m 10] div_mult_mod_eq [of n 10] by linarith
  then show ?case
    by (simp add: append_less_iff Suc.IH [OF d] pad_eq [OF d] digit_char_less)
qed simp

lemma sum_take_step:
  fixes ls :: "nat list"
  assumes "i < j" "i < length ls"
  shows "sum_list (take i ls) + ls ! i \<le> sum_list (take j ls)"
proof -
  have "take j ls = take (Suc i) ls @ take (j - Suc i) (drop (Suc i) ls)"
    using assms(1) by (metis Suc_leI le_add_diff_inverse take_add)
  then show ?thesis using assms(2) by (simp add: take_Suc_conv_app_nth)
qed

lemma day_us_div: "n div day_us = n div second_us div 86400"
  by (simp add: day_us_def second_us_def div_mult2_eq [symmetric])

lemma day_us_mod: "n mod day_us div second_us = n div second_us mod 86400"
proof -
  have "n mod day_us = second_us * (n div second_us mod 86400) + n mod second_us"
    by (simp only: day_us_def mult.commute [of 86400] mod_mult2_eq)
  moreover have "n mod second_us < second_us" "second_us \<noteq> 0" by (simp_all add: second_us_def)
  ultimately show ?thesis by simp
qed

lemma civil_of_mono:
  assumes "civil_of n = (y, m, d)" "civil_of n' = (y', m', d')" "n < n'"
  shows "y < y' \<or> (y = y' \<and> (m < m' \<or> (m = m' \<and> d < d')))"
proof -
  note c = civil_of_spec [OF assms(1)] and c' = civil_of_spec [OF assms(2)]
  have "y \<le> y'"
  proof (rule ccontr)
    assume "\<not> y \<le> y'"
    then have "days_before_year (Suc y') \<le> days_before_year y" by (simp add: days_before_year_mono)
    with civil_year [OF assms(1)] civil_year [OF assms(2)] assms(3) show False by simp
  qed
  moreover have "m \<le> m'" if "y = y'"
  proof (rule ccontr)
    assume "\<not> m \<le> m'"
    then have mm: "m' - 1 < m - 1" "m' - 1 < length (month_days (leap y))"
      using c c' by (simp_all add: month_days_def)
    let ?ls = "month_days (leap y)"
    have "sum_list (take (m' - 1) ?ls) + ?ls ! (m' - 1) \<le> sum_list (take (m - 1) ?ls)"
      by (rule sum_take_step [OF mm])
    then show False using c c' that assms(3) by (simp add: day_of_def)
  qed
  moreover have "d < d'" if "y = y'" "m = m'"
    using c c' that assms(3) by (auto simp: day_of_def)
  ultimately show ?thesis by linarith
qed

lemma hms_less:
  fixes h m s h' m' s' :: nat
  assumes "h * 3600 + m * 60 + s < h' * 3600 + m' * 60 + s'" "m < 60" "s < 60" "m' < 60" "s' < 60"
  shows "h < h' \<or> (h = h' \<and> (m < m' \<or> (m = m' \<and> s < s')))"
proof (cases "h = h'")
  case True
  with assms show ?thesis by (cases "m = m'") auto
next
  case False
  with assms have "h < h'" by linarith
  then show ?thesis by simp
qed

lemma iso_seconds_mono:
  assumes "t div second_us < u div second_us" "u < max_us"
  shows "iso_seconds t < iso_seconds u"
proof -
  obtain y m d where c: "civil_of (t div day_us) = (y, m, d)" by (metis prod_cases3)
  obtain y' m' d' where c': "civil_of (u div day_us) = (y', m', d')" by (metis prod_cases3)
  define x x' where x: "x = t mod day_us div second_us" "x' = u mod day_us div second_us"
  have tu: "t < u" using assms(1) by (metis div_le_mono not_less)
  have b: "t div day_us < 3652059" "u div day_us < 3652059"
    using assms(2) tu by (simp_all add: max_us_def less_mult_imp_div_less)
  have small: "y < 10 ^ 4" "y' < 10 ^ 4" "m < 10 ^ 2" "m' < 10 ^ 2" "d < 10 ^ 2" "d' < 10 ^ 2"
    using year_bound [OF c b(1)] year_bound [OF c' b(2)] civil_small [OF c] civil_small [OF c']
    by simp_all
  have xb: "x < 86400" "x' < 86400"
    by (simp_all add: x day_us_def second_us_def less_mult_imp_div_less)
  then have h: "x div 3600 < 10 ^ 2" "x' div 3600 < 10 ^ 2" by simp_all
  have ms: "x div 60 mod 60 < 10 ^ 2" "x' div 60 mod 60 < 10 ^ 2" "x mod 60 < 10 ^ 2" "x' mod 60 < 10 ^ 2"
    using mod_less_divisor [of 60 "x div 60"] mod_less_divisor [of 60 "x' div 60"]
      mod_less_divisor [of 60 x] mod_less_divisor [of 60 x'] by simp_all
  have split: "n div second_us = n div day_us * 86400 + n mod day_us div second_us" for n
    by (simp only: day_us_div day_us_mod div_mult_mod_eq)
  have "t div day_us < u div day_us \<or> (t div day_us = u div day_us \<and> x < x')"
    using assms(1) split [of t] split [of u] xb x by linarith
  then show ?thesis
  proof
    assume "t div day_us < u div day_us"
    from civil_of_mono [OF c c' this] show ?thesis
      by (auto simp add: iso_seconds_def c c' Let_def append_less_iff
          pad_less [OF small(1,2)] pad_eq [OF small(1,2)] pad_less [OF small(3,4)] pad_eq [OF small(3,4)]
          pad_less [OF small(5,6)] pad_eq [OF small(5,6)])
  next
    assume eq: "t div day_us = u div day_us \<and> x < x'"
    then have e: "y = y'" "m = m'" "d = d'" using c c' by auto
    have q: "a div 3600 * 3600 + (a div 60 mod 60) * 60 + a mod 60 = a" for a :: nat
    proof -
      have "a div 60 div 60 = a div 3600" by (simp add: div_mult2_eq [symmetric])
      then show ?thesis
        using div_mult_mod_eq [of "a div 60" 60] div_mult_mod_eq [of a 60] by linarith
    qed
    have "x div 3600 < x' div 3600 \<or> (x div 3600 = x' div 3600 \<and>
        (x div 60 mod 60 < x' div 60 mod 60 \<or> (x div 60 mod 60 = x' div 60 mod 60 \<and> x mod 60 < x' mod 60)))"
    proof (rule hms_less)
      show "x div 3600 * 3600 + x div 60 mod 60 * 60 + x mod 60
          < x' div 3600 * 3600 + x' div 60 mod 60 * 60 + x' mod 60"
        unfolding q using eq by simp
    qed simp_all
    then show ?thesis
      by (auto simp add: iso_seconds_def c c' Let_def append_less_iff e x [symmetric]
          pad_less [OF h] pad_eq [OF h] pad_less [OF ms(1,2)] pad_eq [OF ms(1,2)] pad_less [OF ms(3,4)])
  qed
qed

lemma iso_utc_mono_seconds:
  assumes "nat t div second_us < nat u div second_us" "u < int max_us"
  shows "iso_utc t < iso_utc u"
proof -
  have "nat u < max_us"
    using assms(2) by (cases "0 \<le> u") (simp_all add: nat_less_iff max_us_def day_us_def second_us_def)
  from iso_seconds_mono [OF assms(1) this] show ?thesis
    by (simp add: iso_utc_def append_less_iff)
qed

lemma iso_utc_mono_fraction:
  assumes "nat t div second_us = nat u div second_us" "nat t < nat u" "nat t mod second_us \<noteq> 0"
  shows "iso_utc t < iso_utc u"
proof -
  have lt: "nat t mod second_us < nat u mod second_us"
    using assms(1,2) div_mult_mod_eq [of "nat t" second_us] div_mult_mod_eq [of "nat u" second_us]
    by (metis nat_add_left_cancel_less)
  have "nat t mod second_us < 10 ^ 6" "nat u mod second_us < 10 ^ 6" by (simp_all add: second_us_def)
  note p = pad_less [OF this] 
  have "nat t div day_us = nat u div day_us" "nat t mod day_us div second_us = nat u mod day_us div second_us"
    by (simp_all only: day_us_div day_us_mod assms(1))
  then have "iso_seconds (nat t) = iso_seconds (nat u)" by (simp add: iso_seconds_def)
  with lt p assms(3) show ?thesis by (simp add: iso_utc_def append_less_iff)
qed

end
