(* ===== verification/SwitchTypes.thy ===== *)
theory SwitchTypes
  imports Timestamps
begin

text \<open>
  The data of \<open>game_switch.py\<close>: phases, operations and receipt statuses, the JSON documents
  (runtime identities, results, the canonical state, request receipts) as records, the request
  payload as JSON, and the world the code runs in.

  The keys of a Python dict are the fields of a record; an optional key is an option field, and
  a key which is absent and a key which is null are both \<open>None\<close>.  Loading a document from disk
  is where the code checks the JSON types of the keys, and a document which fails there is
  \<open>Unreadable\<close> here; the checks on the values are the definitions of the next theories.

  Everything the code gets from outside is the record \<open>env\<close>, indexed by the number of the
  request made to it: clock readings, fresh identifiers, the fate of a durable write, whether
  the lock is free, what an adapter call answers and how long it takes, and what other processes
  wrote while this one did not hold the lock.  Times are integral microseconds.
\<close>

section \<open>Enumerations\<close>

datatype phase = Idle | Validating | Preparing | Draining | Quiescing | Starting | Probing
  | Committing | Ready | Stopping | RollingBack | FailedPhase | RecoveryRequired

datatype operation = OpStart | OpStop | OpSwitch | OpRestart | OpRotate | OpRecover

datatype status = Allocating | Accepted | Queued | Succeeded | Failed | RolledBack

fun op_str :: "operation \<Rightarrow> string" where
  "op_str OpStart = ''start''"
| "op_str OpStop = ''stop''"
| "op_str OpSwitch = ''switch''"
| "op_str OpRestart = ''restart''"
| "op_str OpRotate = ''rotate''"
| "op_str OpRecover = ''recover''"

fun status_str :: "status \<Rightarrow> string" where
  "status_str Allocating = ''allocating''"
| "status_str Accepted = ''accepted''"
| "status_str Queued = ''queued''"
| "status_str Succeeded = ''succeeded''"
| "status_str Failed = ''failed''"
| "status_str RolledBack = ''rolled_back''"

fun phase_str :: "phase \<Rightarrow> string" where
  "phase_str Idle = ''idle''"
| "phase_str Validating = ''validating''"
| "phase_str Preparing = ''preparing''"
| "phase_str Draining = ''draining''"
| "phase_str Quiescing = ''quiescing''"
| "phase_str Starting = ''starting''"
| "phase_str Probing = ''probing''"
| "phase_str Committing = ''committing''"
| "phase_str Ready = ''ready''"
| "phase_str Stopping = ''stopping''"
| "phase_str RollingBack = ''rolling_back''"
| "phase_str FailedPhase = ''failed''"
| "phase_str RecoveryRequired = ''recovery_required''"

definition terminal :: "status \<Rightarrow> bool" where
  "terminal st \<longleftrightarrow> st = Succeeded \<or> st = Failed \<or> st = RolledBack"

definition in_progress :: "phase \<Rightarrow> bool" where
  "in_progress p \<longleftrightarrow> p \<noteq> Idle \<and> p \<noteq> Ready \<and> p \<noteq> FailedPhase \<and> p \<noteq> RecoveryRequired"

definition all_phases :: "phase list" where
  "all_phases = [Idle, Validating, Preparing, Draining, Quiescing, Starting, Probing, Committing,
     Ready, Stopping, RollingBack, FailedPhase, RecoveryRequired]"

definition in_progress_phases :: "phase list" where
  "in_progress_phases = filter in_progress all_phases"

lemma in_progress_phases_set [simp]: "p \<in> set in_progress_phases \<longleftrightarrow> in_progress p"
  by (cases p) (simp_all add: in_progress_phases_def all_phases_def in_progress_def)

lemma terminal_simps [simp]:
  "\<not> terminal Allocating" "\<not> terminal Accepted" "\<not> terminal Queued"
  "terminal Succeeded" "terminal Failed" "terminal RolledBack"
  by (simp_all add: terminal_def)

lemma in_progress_simps [simp]:
  "\<not> in_progress Idle" "\<not> in_progress Ready" "\<not> in_progress FailedPhase"
  "\<not> in_progress RecoveryRequired" "in_progress Validating" "in_progress Preparing"
  "in_progress Draining" "in_progress Quiescing" "in_progress Starting" "in_progress Probing"
  "in_progress Committing" "in_progress Stopping" "in_progress RollingBack"
  by (simp_all add: in_progress_def)

section \<open>Request payloads\<close>

datatype json =
    JNull
  | JBool bool
  | JInt int
  | JStr string
  | JArr "json list"
  | JObj "(string \<times> json) list"

definition hex_digit :: "nat \<Rightarrow> char" where
  "hex_digit d = (if d < 10 then digit_char d else char_of (87 + d))"

definition json_char :: "char \<Rightarrow> string" where
  "json_char c =
     (if c = CHR 0x22 then [CHR 0x5C, CHR 0x22]
      else if c = CHR 0x5C then [CHR 0x5C, CHR 0x5C]
      else if c = CHR 0x0A then [CHR 0x5C, CHR ''n'']
      else if c = CHR 0x0D then [CHR 0x5C, CHR ''r'']
      else if c = CHR 0x09 then [CHR 0x5C, CHR ''t'']
      else if c = CHR 0x08 then [CHR 0x5C, CHR ''b'']
      else if c = CHR 0x0C then [CHR 0x5C, CHR ''f'']
      else if c < CHR 0x20 then CHR 0x5C # ''u00'' @ [hex_digit (of_char c div 16), hex_digit (of_char c mod 16)]
      else [c])"

definition json_string :: "string \<Rightarrow> string" where
  "json_string s = CHR 0x22 # concat (List.map json_char s) @ [CHR 0x22]"

definition json_int :: "int \<Rightarrow> string" where
  "json_int i = (if i < 0 then CHR ''-'' # dec (nat (- i)) else dec (nat i))"

text \<open>\<open>json.dumps(..., ensure_ascii=False, sort_keys=True, separators=(",", ":"))\<close>.\<close>

fun json_dumps :: "json \<Rightarrow> string" where
  "json_dumps JNull = ''null''"
| "json_dumps (JBool b) = (if b then ''true'' else ''false'')"
| "json_dumps (JInt i) = json_int i"
| "json_dumps (JStr s) = json_string s"
| "json_dumps (JArr xs) = ''['' @ join '','' (List.map json_dumps xs) @ '']''"
| "json_dumps (JObj kvs) = ''{'' @
     join '','' (List.map (\<lambda>(k, t). json_string k @ CHR '':'' # t)
       (sort_key fst (List.map (\<lambda>(k, v). (k, json_dumps v)) kvs))) @ ''}''"

text \<open>\<open>{**payload, key: value}\<close> and \<open>payload[key] = value\<close>.\<close>

fun json_put :: "string \<Rightarrow> json \<Rightarrow> (string \<times> json) list \<Rightarrow> (string \<times> json) list" where
  "json_put k v [] = [(k, v)]"
| "json_put k v ((k', v') # r) = (if k' = k then (k, v) # r else (k', v') # json_put k v r)"

type_synonym payload = "(string \<times> json) list"

definition opt_str :: "string option \<Rightarrow> json" where
  "opt_str x = (case x of None \<Rightarrow> JNull | Some s \<Rightarrow> JStr s)"

definition request_document :: "operation \<Rightarrow> string option \<Rightarrow> payload \<Rightarrow> string" where
  "request_document op target p =
     json_dumps (JObj [(''operation'', JStr (op_str op)), (''target'', opt_str target), (''payload'', JObj p)])"

section \<open>Documents\<close>

record runtime =
  rt_game :: string
  rt_adapter :: string
  rt_generation :: int
  rt_runtime_id :: string
  rt_lease_id :: "string option"
  rt_game_window :: string
  rt_agent_window :: string
  rt_adapter_session :: string
  rt_started_at :: string

record ident =
  id_game :: string
  id_runtime_id :: string
  id_generation :: int
  id_lease_id :: "string option"

record source_ident = ident +
  id_adapter :: string

text \<open>The \<open>result\<close> of a receipt and the \<open>last_result\<close> of the canonical state.\<close>

record outcome =
  oc_request_id :: string
  oc_operation :: operation
  oc_status :: status
  oc_from_game :: "string option"
  oc_to_game :: "string option"
  oc_generation :: "int option"
  oc_error_code :: "string option"
  oc_detail :: "string option"
  oc_cleanup_pending :: "bool option"
  oc_failure_phase :: "string option"
  oc_retained_active :: "runtime option"
  oc_active_retired :: "bool option"
  oc_boundary_cancelled :: "bool option"
  oc_source_runtime :: "source_ident option"
  oc_active_runtime :: "ident option"
  oc_restored_generation :: "int option"
  oc_stopped_runtime :: "source_ident option"
  oc_released_terminal :: "ident option"
  oc_restore_request_id :: "string option"

record retired = runtime +
  rd_retirement :: "outcome option"
  rd_cleanup_role :: "string option"

record cstate =
  cs_schema :: int
  cs_revision :: int
  cs_phase :: phase
  cs_operation :: "operation option"
  cs_request_id :: "string option"
  cs_deadline_at :: "string option"
  cs_next_generation :: int
  cs_active :: "runtime option"
  cs_candidate :: "runtime option"
  cs_previous :: "runtime option"
  cs_retiring :: "retired list"
  cs_last_result :: "outcome option"
  cs_last_error :: "(string \<times> string) option"
  cs_updated_at :: string

record receipt =
  rc_schema :: int
  rc_request_id :: string
  rc_operation :: operation
  rc_target :: "string option"
  rc_payload_hash :: string
  rc_generation :: int
  rc_runtime_id :: string
  rc_runtime_dir :: path
  rc_game_window :: string
  rc_agent_window :: string
  rc_adapter_session :: string
  rc_status :: status
  rc_result :: "outcome option"
  rc_created_at :: string
  rc_updated_at :: string
  rc_allow_extension :: "bool option"
  rc_hard_deadline :: "string option"

definition as_retired :: "runtime \<Rightarrow> outcome option \<Rightarrow> string option \<Rightarrow> retired" where
  "as_retired r proof_of role = runtime.extend r \<lparr>rd_retirement = proof_of, rd_cleanup_role = role\<rparr>"

definition as_runtime :: "retired \<Rightarrow> runtime" where
  "as_runtime r = runtime.truncate r"

definition ident_of :: "runtime \<Rightarrow> ident" where
  "ident_of r = \<lparr>id_game = rt_game r, id_runtime_id = rt_runtime_id r,
     id_generation = rt_generation r, id_lease_id = rt_lease_id r\<rparr>"

definition source_ident_of :: "runtime \<Rightarrow> source_ident" where
  "source_ident_of r = \<lparr>id_game = rt_game r, id_runtime_id = rt_runtime_id r,
     id_generation = rt_generation r, id_lease_id = rt_lease_id r, id_adapter = rt_adapter r\<rparr>"

text \<open>A result with the three keys every result has; the other keys are added by field updates.\<close>

definition new_outcome :: "string \<Rightarrow> operation \<Rightarrow> status \<Rightarrow> outcome" where
  "new_outcome rid op st = \<lparr>oc_request_id = rid, oc_operation = op, oc_status = st,
     oc_from_game = None, oc_to_game = None, oc_generation = None, oc_error_code = None,
     oc_detail = None, oc_cleanup_pending = None, oc_failure_phase = None,
     oc_retained_active = None, oc_active_retired = None, oc_boundary_cancelled = None,
     oc_source_runtime = None, oc_active_runtime = None, oc_restored_generation = None,
     oc_stopped_runtime = None, oc_released_terminal = None, oc_restore_request_id = None\<rparr>"

section \<open>Adapters and their calls\<close>

record spec =
  sp_game :: string
  sp_adapter :: string
  sp_generation :: int
  sp_runtime_id :: string
  sp_lease_id :: "string option"
  sp_runtime_dir :: path
  sp_game_window :: string
  sp_agent_window :: string
  sp_adapter_session :: string

text \<open>An attribute of a Python object which the coordinator inspects (\<open>getattr\<close>), and an
  optional method.\<close>

datatype attr = AttrAbsent | AttrNone | AttrBool bool | AttrNumber int | AttrOther

datatype py_method = NoMethod | NotCallable | Callable

record adapter =
  ad_runtime_id :: string
  ad_generation :: int
  ad_name :: string
  ad_agent_enabled :: bool
  ad_requires_boundary :: attr
  ad_requires_stop_boundary :: bool
  ad_boundary_timeout :: attr
  ad_materialize_timeout :: attr
  ad_request_boundary :: py_method
  ad_cancel_boundary :: py_method
  ad_agent_alive :: py_method
  ad_live_singleton :: py_method
  ad_restore_stopped :: py_method
  ad_release_terminal :: py_method
  ad_adopt_candidate :: py_method

datatype step = SFactory | SPreflight | SBoundary | SCancelBoundary | SStopAgent | SCleanup
  | SMaterialize | SReadiness | SStartAgent | SAlive | SAgentAlive | SSingleton
  | SSingletonRecheck | SContinuity | STerminalPrevious | SAdopt

datatype pyval = PyNone | PyTrue | PyFalse | PyTruthy | PyFalsy

fun py_truth :: "pyval \<Rightarrow> bool" where
  "py_truth PyTrue = True"
| "py_truth PyTruthy = True"
| "py_truth _ = False"

datatype made = NotAnAdapter | Made adapter

text \<open>A call that ran: the step, the runtime it is bound to and whether it came back in time,
  and with what.\<close>

datatype event = Event (ev_step: step) (ev_runtime: string) (ev_answer: "exn + pyval")

section \<open>Updates of the canonical state\<close>

datatype upd =
    SetActive "runtime option"
  | SetCandidate "runtime option"
  | SetPrevious "runtime option"
  | SetRetiring "retired list"
  | SetOperation "operation option"
  | SetRequestId "string option"
  | SetDeadline "string option"
  | SetNextGeneration int
  | SetLastResult "outcome option"
  | SetLastError "(string \<times> string) option"
  | SetManaged string

section \<open>The machine\<close>

datatype 'a doc = Unreadable | Stored 'a

datatype fault = NoFault | KilledBefore | KilledAfter | ErrorBefore | ErrorAfter

text \<open>The claim on the cancellation of one request's boundary (\<open>_BoundaryCancelClaim\<close>): still
  running, or published.\<close>

datatype claim = ClaimPending | ClaimDone "bool \<times> string option"

record machine =
  m_canon :: "cstate doc option"
  m_receipts :: "(string \<times> receipt doc) list"
  m_lock :: bool
  m_now :: int
  m_ticks :: nat
  m_walls :: nat
  m_ids :: nat
  m_writes :: nat
  m_calls :: nat
  m_locks :: nat
  m_mirror :: "string option"
  m_markers :: "string list"
  m_announced :: "string list"
  m_claims :: "(string \<times> claim) list"
  m_unlinked :: "string list"
  m_trace :: "event list"

text \<open>What another process may do to the store while it holds the lock: any sequence of the
  store's transactions.\<close>

datatype other =
    OInitialize
  | OTransition "phase list" phase "upd list"
  | OAccept string operation "string option" "payload option"
  | OEnqueue string operation "string option" "payload option" bool "string option"
  | ORequeue string
  | OFinish string status outcome

record env =
  e_state_dir :: path
  e_resolve :: "path \<Rightarrow> path"
  e_sha256 :: "string \<Rightarrow> string"
  e_tick :: "nat \<Rightarrow> nat"
  e_wall :: "nat \<Rightarrow> int"
  e_uuid :: "nat \<Rightarrow> string"
  e_hex :: "nat \<Rightarrow> string"
  e_fault :: "nat \<Rightarrow> fault"
  e_lock_free :: "nat \<Rightarrow> bool"
  e_others :: "nat \<Rightarrow> other list"
  e_make :: "nat \<Rightarrow> spec \<Rightarrow> nat \<times> (exn + made)"
  e_call :: "nat \<Rightarrow> step \<Rightarrow> adapter \<Rightarrow> nat \<times> (exn + pyval)"
  e_claim_wait :: "nat \<Rightarrow> string \<Rightarrow> bool \<times> string option"
  e_hanjuku_claim :: "nat \<Rightarrow> exn option"
  e_default_timeout :: int
  e_quiesce_verify :: int
  e_poll :: int
  e_cancel_grace :: int
  e_rollback_timeout :: int
  e_round_reacquire :: int
  e_t_preflight :: int
  e_t_round_boundary :: int
  e_t_round_cancel :: int
  e_t_stop_agent :: int
  e_t_start :: int
  e_t_agent_start :: int
  e_t_cleanup :: int
  e_t_probe :: int

type_synonym 'a prog = "(machine, exn, 'a) eff"

section \<open>Clocks, identifiers and durable writes\<close>

text \<open>\<open>time.monotonic()\<close>: the clock never goes back; how far it went on is the environment's.\<close>

definition monotonic :: "env \<Rightarrow> int prog" where
  "monotonic E = (\<lambda>s. let t = m_now s + int (e_tick E (m_ticks s))
     in (Inr t, s\<lparr>m_now := t, m_ticks := m_ticks s + 1\<rparr>))"

definition sleep :: "int \<Rightarrow> unit prog" where
  "sleep d = alter (\<lambda>s. s\<lparr>m_now := m_now s + max 0 d\<rparr>)"

definition wall_now :: "env \<Rightarrow> int prog" where
  "wall_now E = (\<lambda>s. (Inr (e_wall E (m_walls s)), s\<lparr>m_walls := m_walls s + 1\<rparr>))"

definition utc_now :: "env \<Rightarrow> string prog" where
  "utc_now E = bnd (wall_now E) (\<lambda>t. ret (iso_utc t))"

text \<open>\<open>(datetime.now(utc) + timedelta(seconds=d)).isoformat()\<close>.\<close>

definition utc_after :: "env \<Rightarrow> int \<Rightarrow> string prog" where
  "utc_after E d = bnd (wall_now E) (\<lambda>t. ret (iso_utc (t + d)))"

definition fresh_uuid :: "env \<Rightarrow> string prog" where
  "fresh_uuid E = (\<lambda>s. (Inr (e_uuid E (m_ids s)), s\<lparr>m_ids := m_ids s + 1\<rparr>))"

definition token_hex :: "env \<Rightarrow> string prog" where
  "token_hex E = (\<lambda>s. (Inr (e_hex E (m_ids s)), s\<lparr>m_ids := m_ids s + 1\<rparr>))"

definition wall_expired :: "env \<Rightarrow> string option \<Rightarrow> bool prog" where
  "wall_expired E v = bnd (wall_now E) (\<lambda>t. ret (wall_deadline_expired t v))"

definition wall_remaining :: "env \<Rightarrow> string option \<Rightarrow> int option prog" where
  "wall_remaining E v = bnd (wall_now E) (\<lambda>t. lift (wall_deadline_remaining t v))"

text \<open>\<open>atomic_write_json\<close> and \<open>atomic_write_text\<close>: the temporary file is written and synced,
  renamed over the target, and the directory is synced.  The process can die, or the file
  system refuse, before or after the rename; nothing in between can be observed.\<close>

definition atomic_write :: "env \<Rightarrow> (machine \<Rightarrow> machine) \<Rightarrow> unit prog" where
  "atomic_write E f = (\<lambda>s. let s' = s\<lparr>m_writes := m_writes s + 1\<rparr>
     in case e_fault E (m_writes s) of
          NoFault \<Rightarrow> (Inr (), f s')
        | KilledBefore \<Rightarrow> (Inl Killed, s')
        | KilledAfter \<Rightarrow> (Inl Killed, f s')
        | ErrorBefore \<Rightarrow> (Inl (OSError ''write''), s')
        | ErrorAfter \<Rightarrow> (Inl (OSError ''fsync''), f s'))"

end
