(* ===== verification/CanonicalState.thy ===== *)
theory CanonicalState
  imports SwitchTypes
begin

text \<open>
  Request validation and the canonical state of \<open>game_switch.py\<close>: \<open>validate_request_id\<close>,
  \<open>validate_request\<close>, \<open>_validate_runtime\<close>, \<open>validate_state\<close> and the methods of
  \<open>CanonicalStateStore\<close>.  The facts at the end say what a document that loads or saves
  satisfies, and that a stored state only ever changes to a valid one of a higher revision.
\<close>

section \<open>Checks in sequence\<close>

text \<open>A sequence of checks raises at the first that fails.\<close>

definition require :: "bool \<Rightarrow> exn \<Rightarrow> exn + unit" where
  "require b x = (if b then Inr () else Inl x)"

fun all_ok :: "(exn + unit) list \<Rightarrow> exn + unit" where
  "all_ok [] = Inr ()"
| "all_ok (Inl x # cs) = Inl x"
| "all_ok (Inr u # cs) = all_ok cs"

lemma require_Inr [simp]: "require b x = Inr u \<longleftrightarrow> b"
  by (simp add: require_def)

lemma require_Inl: "require b x = Inl y \<longleftrightarrow> \<not> b \<and> y = x"
  by (auto simp: require_def)

lemma Inl_require: "Inl y = require b x \<longleftrightarrow> \<not> b \<and> y = x"
  by (auto simp: require_def)

lemma all_ok_Cons [simp]: "all_ok (c # cs) = Inr u \<longleftrightarrow> c = Inr () \<and> all_ok cs = Inr u"
  by (cases c) auto

lemma all_ok_append [simp]: "all_ok (cs @ ds) = Inr u \<longleftrightarrow> all_ok cs = Inr () \<and> all_ok ds = Inr u"
  by (induction cs) (auto split: sum.splits)

lemma all_ok_map: "all_ok (List.map f xs) = Inr u \<longleftrightarrow> (\<forall>x\<in>set xs. f x = Inr ())"
  by (induction xs) auto

section \<open>Requests\<close>

definition uuid_shape :: "string \<Rightarrow> bool" where
  "uuid_shape s \<longleftrightarrow> length s = 36 \<and>
     list_all (\<lambda>i. if i = 8 \<or> i = 13 \<or> i = 18 \<or> i = 23 then s ! i = CHR ''-'' else is_hex_lower (s ! i)) [0..<36]"

definition validate_request_id :: "string \<Rightarrow> exn + string" where
  "validate_request_id s =
     (let t = List.map lower_char s in if uuid_shape t then Inr t else Inl (NameInvalid ''request_id''))"

definition validate_request :: "operation \<Rightarrow> string option \<Rightarrow> exn + operation \<times> string option" where
  "validate_request op target =
     (case (case target of None \<Rightarrow> Inr None
            | Some t \<Rightarrow> (case validate_game_name t of Inl x \<Rightarrow> Inl x | Inr n \<Rightarrow> Inr (Some n))) of
        Inl x \<Rightarrow> Inl x
      | Inr tg \<Rightarrow>
          if op \<in> {OpStart, OpSwitch, OpRestart} \<and> tg = None then Inl (NameInvalid ''target required'')
          else if op \<in> {OpStop, OpRecover, OpRotate} \<and> tg \<noteq> None then Inl (NameInvalid ''target not allowed'')
          else Inr (op, tg))"

definition payload_hash :: "env \<Rightarrow> operation \<Rightarrow> string option \<Rightarrow> payload \<Rightarrow> string" where
  "payload_hash E op target p = e_sha256 E (request_document op target p)"

section \<open>The canonical state\<close>

definition initial_state :: "env \<Rightarrow> cstate prog" where
  "initial_state E = bnd (utc_now E) (\<lambda>t. ret
     \<lparr>cs_schema = 2, cs_revision = 0, cs_phase = Idle, cs_operation = None, cs_request_id = None,
      cs_deadline_at = None, cs_next_generation = 1, cs_active = None, cs_candidate = None,
      cs_previous = None, cs_retiring = [], cs_last_result = None, cs_last_error = None,
      cs_updated_at = t\<rparr>)"

definition opt_list :: "'a option \<Rightarrow> 'a list" where
  "opt_list x = (case x of None \<Rightarrow> [] | Some v \<Rightarrow> [v])"

lemma opt_list_simps [simp]: "opt_list None = []" "opt_list (Some v) = [v]"
  by (simp_all add: opt_list_def)

definition state_runtimes :: "cstate \<Rightarrow> runtime list" where
  "state_runtimes st = opt_list (cs_active st) @ opt_list (cs_candidate st) @
     opt_list (cs_previous st) @ List.map as_runtime (cs_retiring st)"

definition runtime_generations :: "cstate \<Rightarrow> int list" where
  "runtime_generations st = List.map rt_generation (state_runtimes st)"

definition validate_runtime :: "runtime \<Rightarrow> exn + unit" where
  "validate_runtime r =
     (case (validate_game_name (rt_game r), validate_runtime_id (rt_runtime_id r), runtime_names (rt_generation r)) of
        (Inr g, Inr i, Inr n) \<Rightarrow> all_ok
          [require (runtime_id_generation (rt_runtime_id r) = Inr (rt_generation r)) (StateCorrupt ''runtime_id generation''),
           require (rt_game_window r = nm_game_window n) (StateCorrupt ''game_window''),
           require (rt_agent_window r = nm_agent_window n) (StateCorrupt ''agent_window''),
           require (rt_adapter_session r = nm_adapter_session n) (StateCorrupt ''adapter_session''),
           require (rt_adapter r \<noteq> []) (StateCorrupt ''adapter''),
           (case rt_lease_id r of None \<Rightarrow> Inr ()
            | Some l \<Rightarrow> (case validate_request_id l of Inl x \<Rightarrow> Inl (StateCorrupt ''lease_id'') | Inr v \<Rightarrow> Inr ())),
           require (rt_started_at r \<noteq> []) (StateCorrupt ''started_at'')]
      | _ \<Rightarrow> Inl (StateCorrupt ''runtime identity''))"

definition validate_runtime_opt :: "runtime option \<Rightarrow> exn + unit" where
  "validate_runtime_opt x = (case x of None \<Rightarrow> Inr () | Some r \<Rightarrow> validate_runtime r)"

definition identity_checks :: "cstate \<Rightarrow> (exn + unit) list" where
  "identity_checks st =
     (let p = cs_phase st; op = cs_operation st; rid = cs_request_id st in
      [require (cs_schema st = 2) (StateCorrupt ''schema''),
       require (0 \<le> cs_revision st) (StateCorrupt ''revision''),
       (case rid of None \<Rightarrow> Inr ()
        | Some r \<Rightarrow> (case validate_request_id r of Inl x \<Rightarrow> Inl (StateCorrupt ''request_id'') | Inr v \<Rightarrow> Inr ())),
       require (\<not> (in_progress p \<and> (op = None \<or> rid = None))) (StateCorrupt ''in progress without owner''),
       require (\<not> (p \<in> {Idle, Ready} \<and> (op \<noteq> None \<or> rid \<noteq> None))) (StateCorrupt ''stable with owner''),
       require ((op = None) = (rid = None)) (StateCorrupt ''operation and request_id''),
       require (1 \<le> cs_next_generation st) (StateCorrupt ''next_generation'')])"

definition runtime_checks :: "cstate \<Rightarrow> (exn + unit) list" where
  "runtime_checks st =
     [validate_runtime_opt (cs_active st), validate_runtime_opt (cs_candidate st),
      validate_runtime_opt (cs_previous st)] @
     List.map (\<lambda>r. validate_runtime (as_runtime r)) (cs_retiring st)"

definition shape_checks :: "cstate \<Rightarrow> (exn + unit) list" where
  "shape_checks st =
     (let p = cs_phase st; a = cs_active st; c = cs_candidate st; v = cs_previous st in
      [require (\<not> (p = Idle \<and> (a \<noteq> None \<or> c \<noteq> None \<or> v \<noteq> None))) (StateCorrupt ''idle with runtime''),
       require (\<not> (p = Ready \<and> (a = None \<or> c \<noteq> None \<or> v \<noteq> None))) (StateCorrupt ''ready''),
       require (\<not> (p \<in> {Validating, Stopping} \<and> c \<noteq> None)) (StateCorrupt ''candidate''),
       require (\<not> (p = Draining \<and> (a = None \<or> c \<noteq> None \<or> v \<noteq> None))) (StateCorrupt ''draining''),
       require (distinct (runtime_generations st)) (StateCorrupt ''duplicate generation''),
       require (list_all (\<lambda>g. g < cs_next_generation st) (runtime_generations st))
         (StateCorrupt ''next_generation behind'')])"

definition validate_state :: "cstate \<Rightarrow> exn + unit" where
  "validate_state st = all_ok (identity_checks st @ runtime_checks st @ shape_checks st)"

section \<open>The canonical store\<close>

definition canon_load :: "env \<Rightarrow> (cstate \<times> bool) prog" where
  "canon_load E = bnd (asks m_canon) (\<lambda>f. case f of
       None \<Rightarrow> bnd (initial_state E) (\<lambda>st. ret (st, True))
     | Some Unreadable \<Rightarrow> raise (StateCorrupt ''canonical state unreadable'')
     | Some (Stored st) \<Rightarrow>
         if cs_schema st \<noteq> 2 then raise (StateCorrupt ''schema'')
         else bnd (lift (validate_state st)) (\<lambda>_. ret (st, False)))"

definition load_state :: "env \<Rightarrow> cstate prog" where
  "load_state E = bnd (canon_load E) (\<lambda>(st, missing). ret st)"

definition canon_save :: "env \<Rightarrow> cstate \<Rightarrow> cstate prog" where
  "canon_save E st = bnd (utc_now E) (\<lambda>t.
     let saved = st\<lparr>cs_revision := cs_revision st + 1, cs_schema := 2, cs_updated_at := t\<rparr>
     in bnd (lift (validate_state saved)) (\<lambda>_.
        bnd (atomic_write E (\<lambda>s. s\<lparr>m_canon := Some (Stored saved)\<rparr>)) (\<lambda>_. ret saved)))"

definition canon_initialize :: "env \<Rightarrow> cstate prog" where
  "canon_initialize E = bnd (canon_load E) (\<lambda>(st, needs_write).
     if needs_write then canon_save E st else ret st)"

fun apply_update :: "upd \<Rightarrow> cstate \<Rightarrow> exn + cstate" where
  "apply_update (SetActive v) st = Inr (st\<lparr>cs_active := v\<rparr>)"
| "apply_update (SetCandidate v) st = Inr (st\<lparr>cs_candidate := v\<rparr>)"
| "apply_update (SetPrevious v) st = Inr (st\<lparr>cs_previous := v\<rparr>)"
| "apply_update (SetRetiring v) st = Inr (st\<lparr>cs_retiring := v\<rparr>)"
| "apply_update (SetOperation v) st = Inr (st\<lparr>cs_operation := v\<rparr>)"
| "apply_update (SetRequestId v) st = Inr (st\<lparr>cs_request_id := v\<rparr>)"
| "apply_update (SetDeadline v) st = Inr (st\<lparr>cs_deadline_at := v\<rparr>)"
| "apply_update (SetNextGeneration v) st = Inr (st\<lparr>cs_next_generation := v\<rparr>)"
| "apply_update (SetLastResult v) st = Inr (st\<lparr>cs_last_result := v\<rparr>)"
| "apply_update (SetLastError v) st = Inr (st\<lparr>cs_last_error := v\<rparr>)"
| "apply_update (SetManaged k) st = Inl (InvalidTransition k)"

fun apply_updates :: "upd list \<Rightarrow> cstate \<Rightarrow> exn + cstate" where
  "apply_updates [] st = Inr st"
| "apply_updates (u # us) st = (case apply_update u st of Inl x \<Rightarrow> Inl x | Inr st' \<Rightarrow> apply_updates us st')"

definition canon_transition :: "env \<Rightarrow> phase list \<Rightarrow> phase \<Rightarrow> upd list \<Rightarrow> cstate prog" where
  "canon_transition E expected p us = bnd (load_state E) (\<lambda>st.
     if cs_phase st \<notin> set expected then raise (InvalidTransition (phase_str p))
     else bnd (lift (apply_updates us (st\<lparr>cs_phase := p\<rparr>))) (canon_save E))"

section \<open>Facts\<close>

abbreviation valid_state :: "cstate \<Rightarrow> bool" where
  "valid_state st \<equiv> validate_state st = Inr ()"

definition canon_rev :: "cstate doc option \<Rightarrow> int" where
  "canon_rev f = (case f of Some (Stored st) \<Rightarrow> cs_revision st | _ \<Rightarrow> 0)"

text \<open>What a loaded state may become: it stays, or it becomes a valid state of a higher
  revision.  A file that does not load is never replaced.\<close>

definition canon_loads :: "cstate doc option \<Rightarrow> bool" where
  "canon_loads f = (case f of None \<Rightarrow> True | Some Unreadable \<Rightarrow> False | Some (Stored st) \<Rightarrow> valid_state st)"

definition canon_grows :: "machine \<Rightarrow> machine \<Rightarrow> bool" where
  "canon_grows s t \<longleftrightarrow> m_canon t = m_canon s \<or>
     (canon_loads (m_canon s) \<and> canon_loads (m_canon t) \<and> m_canon t \<noteq> None \<and>
      canon_rev (m_canon s) < canon_rev (m_canon t))"

interpretation canon_grows: step_order canon_grows
  by unfold_locales (auto simp: canon_grows_def)

lemma valid_state_identity:
  assumes "valid_state st"
  shows "cs_schema st = 2" "0 \<le> cs_revision st" "1 \<le> cs_next_generation st"
    "in_progress (cs_phase st) \<Longrightarrow> cs_operation st \<noteq> None \<and> cs_request_id st \<noteq> None"
    "cs_phase st \<in> {Idle, Ready} \<Longrightarrow> cs_operation st = None \<and> cs_request_id st = None"
    "(cs_operation st = None) = (cs_request_id st = None)"
  using assms by (auto simp: validate_state_def identity_checks_def Let_def)

lemma valid_state_request_id:
  assumes "valid_state st" "cs_request_id st = Some r"
  shows "\<exists>v. validate_request_id r = Inr v"
  using assms by (auto simp: validate_state_def identity_checks_def Let_def split: sum.splits)

lemma valid_state_shape:
  assumes "valid_state st"
  shows "cs_phase st = Idle \<Longrightarrow> cs_active st = None \<and> cs_candidate st = None \<and> cs_previous st = None"
    "cs_phase st = Ready \<Longrightarrow> cs_active st \<noteq> None \<and> cs_candidate st = None \<and> cs_previous st = None"
    "cs_phase st \<in> {Validating, Stopping} \<Longrightarrow> cs_candidate st = None"
    "cs_phase st = Draining \<Longrightarrow> cs_active st \<noteq> None \<and> cs_candidate st = None \<and> cs_previous st = None"
    "distinct (runtime_generations st)"
    "\<forall>g\<in>set (runtime_generations st). g < cs_next_generation st"
  using assms by (auto simp: validate_state_def shape_checks_def Let_def list_all_iff)

lemma valid_state_runtimes:
  assumes "valid_state st" "r \<in> set (state_runtimes st)"
  shows "validate_runtime r = Inr ()"
  using assms
  by (auto simp: validate_state_def runtime_checks_def state_runtimes_def validate_runtime_opt_def
      opt_list_def all_ok_map split: option.splits)

lemma validate_runtime_names:
  assumes "validate_runtime r = Inr ()"
  shows "1 \<le> rt_generation r" "rt_game_window r = ''game-'' @ gen_suffix (rt_generation r)"
    "rt_agent_window r = ''agent-'' @ gen_suffix (rt_generation r)"
    "rt_adapter_session r = ''docich-game-'' @ gen_suffix (rt_generation r)"
    "runtime_id_generation (rt_runtime_id r) = Inr (rt_generation r)"
    "matches_runtime_id (rt_runtime_id r)" "matches_name 63 (rt_game r)" "rt_adapter r \<noteq> []"
proof -
  obtain n where n: "runtime_names (rt_generation r) = Inr n"
    and "rt_game_window r = nm_game_window n" "rt_agent_window r = nm_agent_window n"
      "rt_adapter_session r = nm_adapter_session n"
      "runtime_id_generation (rt_runtime_id r) = Inr (rt_generation r)"
      "matches_runtime_id (rt_runtime_id r)" "matches_name 63 (rt_game r)" "rt_adapter r \<noteq> []"
    using assms by (auto simp: validate_runtime_def validate_runtime_id_def validate_game_name_def
        split: sum.splits prod.splits if_splits)
  with runtime_names_form [OF n] show "1 \<le> rt_generation r"
    "rt_game_window r = ''game-'' @ gen_suffix (rt_generation r)"
    "rt_agent_window r = ''agent-'' @ gen_suffix (rt_generation r)"
    "rt_adapter_session r = ''docich-game-'' @ gen_suffix (rt_generation r)"
    "runtime_id_generation (rt_runtime_id r) = Inr (rt_generation r)"
    "matches_runtime_id (rt_runtime_id r)" "matches_name 63 (rt_game r)" "rt_adapter r \<noteq> []"
    by auto
qed

definition fresh_state :: "string \<Rightarrow> cstate" where
  "fresh_state t = \<lparr>cs_schema = 2, cs_revision = 0, cs_phase = Idle, cs_operation = None, cs_request_id = None,
      cs_deadline_at = None, cs_next_generation = 1, cs_active = None, cs_candidate = None,
      cs_previous = None, cs_retiring = [], cs_last_result = None, cs_last_error = None,
      cs_updated_at = t\<rparr>"

definition stamped :: "cstate \<Rightarrow> string \<Rightarrow> cstate" where
  "stamped st t = st\<lparr>cs_revision := cs_revision st + 1, cs_schema := 2, cs_updated_at := t\<rparr>"

lemma valid_fresh_state: "valid_state (fresh_state t)"
  by (simp add: fresh_state_def validate_state_def identity_checks_def runtime_checks_def
      shape_checks_def validate_runtime_opt_def runtime_generations_def state_runtimes_def)

lemma initial_state_run: "initial_state E s =
    (Inr (fresh_state (iso_utc (e_wall E (m_walls s)))), s\<lparr>m_walls := m_walls s + 1\<rparr>)"
  by (simp add: initial_state_def utc_now_def wall_now_def bnd_def fresh_state_def)

lemma canon_load_cases:
  assumes "canon_load E s = (r, t)"
  obtains (missing) u where "m_canon s = None" "r = Inr (fresh_state u, True)" "t = s\<lparr>m_walls := m_walls s + 1\<rparr>"
  | (found) st where "m_canon s = Some (Stored st)" "valid_state st" "r = Inr (st, False)" "t = s"
  | (bad) y where "r = Inl (StateCorrupt y)" "t = s" "\<not> canon_loads (m_canon s)"
proof -
  have corrupt: "\<exists>y. x = StateCorrupt y" if "validate_state st = Inl x" for st x
  proof -
    have q: "\<exists>y. x = StateCorrupt y" if "all_ok cs = Inl x"
      "\<forall>c\<in>set cs. \<forall>z. c = Inl z \<longrightarrow> (\<exists>y. z = StateCorrupt y)" for cs x
      using that
    proof (induction cs)
      case (Cons c cs)
      then show ?case by (cases c) auto
    qed simp
    have vr: "\<forall>z. validate_runtime r = Inl z \<longrightarrow> (\<exists>y. z = StateCorrupt y)" for r
    proof (intro allI impI)
      fix z assume "validate_runtime r = Inl z"
      then show "\<exists>y. z = StateCorrupt y"
        unfolding validate_runtime_def
        by (auto simp: require_Inl Inl_require split: sum.splits prod.splits option.splits if_splits dest!: q)
    qed
    show ?thesis
      using that unfolding validate_state_def
      by (rule q) (auto simp: identity_checks_def runtime_checks_def shape_checks_def Let_def
          require_Inl Inl_require validate_runtime_opt_def vr split: option.splits sum.splits)
  qed
  show thesis
  proof (cases "m_canon s")
    case None
    then show ?thesis using missing assms
      by (auto simp: canon_load_def bnd_def initial_state_run)
  next
    case (Some f)
    show ?thesis
    proof (cases f)
      case Unreadable
      then show ?thesis using bad Some assms by (auto simp: canon_load_def bnd_def canon_loads_def)
    next
      case (Stored st)
      show ?thesis
      proof (cases "cs_schema st = 2")
        case True
        show ?thesis
        proof (cases "validate_state st")
          case (Inl x)
          then show ?thesis using bad Some Stored True assms corrupt [OF Inl]
            by (auto simp: canon_load_def bnd_def canon_loads_def)
        next
          case (Inr u)
          then show ?thesis using found Some Stored True assms
            by (auto simp: canon_load_def bnd_def)
        qed
      next
        case False
        then have "\<not> valid_state st" using valid_state_identity(1) by blast
        then show ?thesis using bad Some Stored False assms
          by (auto simp: canon_load_def bnd_def canon_loads_def)
      qed
    qed
  qed
qed

lemma canon_save_cases:
  assumes "canon_save E st s = (r, t)"
  obtains (saved) u where "valid_state (stamped st u)" "r = Inr (stamped st u)"
      "t = s\<lparr>m_walls := m_walls s + 1, m_writes := m_writes s + 1, m_canon := Some (Stored (stamped st u))\<rparr>"
  | (after) u x where "valid_state (stamped st u)" "r = Inl x" "x = Killed \<or> x = OSError ''fsync''"
      "t = s\<lparr>m_walls := m_walls s + 1, m_writes := m_writes s + 1, m_canon := Some (Stored (stamped st u))\<rparr>"
  | (before) x where "r = Inl x" "x = Killed \<or> x = OSError ''write''"
      "t = s\<lparr>m_walls := m_walls s + 1, m_writes := m_writes s + 1\<rparr>"
  | (refused) u x where "validate_state (stamped st u) = Inl x" "r = Inl x" "t = s\<lparr>m_walls := m_walls s + 1\<rparr>"
proof -
  define u where "u = iso_utc (e_wall E (m_walls s))"
  have e: "canon_save E st s = bnd (lift (validate_state (stamped st u)))
      (\<lambda>_. bnd (atomic_write E (\<lambda>s. s\<lparr>m_canon := Some (Stored (stamped st u))\<rparr>)) (\<lambda>_. ret (stamped st u)))
      (s\<lparr>m_walls := m_walls s + 1\<rparr>)"
    by (simp add: canon_save_def utc_now_def wall_now_def bnd_def u_def stamped_def Let_def)
  show thesis
  proof (cases "validate_state (stamped st u)")
    case (Inl x)
    then show ?thesis using refused assms e by (auto simp: bnd_def)
  next
    case (Inr z)
    then show ?thesis
      using saved [of u] after [of u] before assms e
      by (cases "e_fault E (m_writes s)") (auto simp: bnd_def atomic_write_def Let_def)
  qed
qed

end
