(* ===== verification/Receipts.thy ===== *)
theory Receipts
  imports CanonicalState
begin

text \<open>
  Request receipts: \<open>validate_receipt\<close>, \<open>committed_retirement_result\<close> and the methods of
  \<open>RequestReceiptStore\<close>.  The directory of receipts is a list of file stems and contents.  The
  list \<open>m_unlinked\<close> records which receipts retention removed; no code reads it.
\<close>

section \<open>Validation\<close>

definition hash_shape :: "string \<Rightarrow> bool" where
  "hash_shape h \<longleftrightarrow> length h = 64 \<and> list_all is_hex_lower h"

definition deadline_check :: "receipt \<Rightarrow> exn + unit" where
  "deadline_check rc =
     (case rc_hard_deadline rc of
        None \<Rightarrow> Inr ()
      | Some d \<Rightarrow> (case wall_deadline_remaining 0 (Some d) of
            Inl x \<Rightarrow> Inl x
          | Inr v \<Rightarrow> require (rc_allow_extension rc = Some False) (StateCorrupt ''hard deadline policy'')))"

definition identity_check :: "env \<Rightarrow> receipt \<Rightarrow> exn + unit" where
  "identity_check E rc =
     (case (validate_runtime_id (rc_runtime_id rc), runtime_names (rc_generation rc),
            runtime_directory (e_resolve E) (e_state_dir E) (rc_runtime_id rc)) of
        (Inr i, Inr n, Inr d) \<Rightarrow> all_ok
          [require (runtime_id_generation (rc_runtime_id rc) = Inr (rc_generation rc)) (StateCorrupt ''receipt generation''),
           require (rc_runtime_dir rc = d) (StateCorrupt ''runtime_dir''),
           require (rc_game_window rc = nm_game_window n) (StateCorrupt ''game_window''),
           require (rc_agent_window rc = nm_agent_window n) (StateCorrupt ''agent_window''),
           require (rc_adapter_session rc = nm_adapter_session n) (StateCorrupt ''adapter_session'')]
      | _ \<Rightarrow> Inl (StateCorrupt ''receipt runtime identity''))"

definition validate_receipt :: "env \<Rightarrow> receipt \<Rightarrow> string \<Rightarrow> exn + unit" where
  "validate_receipt E rc expected = all_ok
     [require (rc_schema rc = 1) (StateCorrupt ''receipt schema''),
      (case validate_request_id (rc_request_id rc) of
         Inl x \<Rightarrow> Inl (StateCorrupt ''receipt id'')
       | Inr r \<Rightarrow> (case validate_request_id expected of
             Inl x \<Rightarrow> Inl x
           | Inr e \<Rightarrow> require (r = e) (StateCorrupt ''receipt id and file name''))),
      (case validate_request (rc_operation rc) (rc_target rc) of
         Inl x \<Rightarrow> Inl (StateCorrupt ''receipt operation'') | Inr v \<Rightarrow> Inr ()),
      require (1 \<le> rc_generation rc) (StateCorrupt ''receipt generation''),
      require (hash_shape (rc_payload_hash rc)) (StateCorrupt ''payload hash''),
      deadline_check rc,
      identity_check E rc,
      require (terminal (rc_status rc) = (rc_result rc \<noteq> None)) (StateCorrupt ''receipt result''),
      require (rc_created_at rc \<noteq> []) (StateCorrupt ''created_at''),
      require (rc_updated_at rc \<noteq> []) (StateCorrupt ''updated_at'')]"

section \<open>The commit proof of a retiring runtime\<close>

definition retirement_identities :: "retired \<Rightarrow> outcome \<Rightarrow> bool" where
  "retirement_identities rt res =
     (case (oc_source_runtime res, oc_active_runtime res) of
        (Some src, Some act) \<Rightarrow>
          src = source_ident_of (as_runtime rt) \<and> oc_generation res = Some (id_generation act) \<and>
          id_generation src < id_generation act
      | _ \<Rightarrow> False)"

definition identity_formats :: "outcome \<Rightarrow> source_ident \<Rightarrow> ident \<Rightarrow> exn + unit" where
  "identity_formats res src act =
     (let valid_id = (\<lambda>x. case x of None \<Rightarrow> False | Some l \<Rightarrow> (case validate_request_id l of Inl y \<Rightarrow> False | Inr v \<Rightarrow> True))
      in require
        (valid_id (Some (oc_request_id res)) \<and> matches_name 63 (id_game src) \<and> matches_name 63 (id_game act) \<and>
         valid_id (id_lease_id act) \<and> (id_lease_id src \<noteq> None \<longrightarrow> valid_id (id_lease_id src)) \<and>
         runtime_id_generation (id_runtime_id src) = Inr (id_generation src) \<and>
         runtime_id_generation (id_runtime_id act) = Inr (id_generation act))
        (StateCorrupt ''retirement identity''))"

definition receipt_matches :: "outcome \<Rightarrow> receipt \<Rightarrow> source_ident \<Rightarrow> ident \<Rightarrow> bool" where
  "receipt_matches res rc src act \<longleftrightarrow>
     oc_operation res \<in> {OpStart, OpSwitch, OpRestart, OpRotate} \<and> oc_status res = Succeeded \<and>
     oc_from_game res = Some (id_game src) \<and> oc_to_game res = Some (id_game act) \<and>
     Inr (rc_request_id rc) = validate_request_id (oc_request_id res) \<and>
     rc_operation rc = oc_operation res \<and>
     rc_target rc = (if oc_operation res = OpRotate then None else Some (id_game act)) \<and>
     rc_generation rc = id_generation act \<and> rc_runtime_id rc = id_runtime_id act"

definition committed_retirement_result :: "retired \<Rightarrow> receipt option \<Rightarrow> bool \<Rightarrow> exn + outcome option" where
  "committed_retirement_result rt rcpt require_terminal =
     (case rd_retirement rt of
        None \<Rightarrow> Inr None
      | Some res \<Rightarrow> (case rcpt of
          None \<Rightarrow> Inl (StateCorrupt ''no retirement commit or receipt'')
        | Some rc \<Rightarrow>
            if rc_schema rc \<noteq> 1 then Inl (StateCorrupt ''retirement receipt schema'')
            else if \<not> retirement_identities rt res then Inl (StateCorrupt ''retirement source and destination'')
            else (case (oc_source_runtime res, oc_active_runtime res) of
              (Some src, Some act) \<Rightarrow>
                (case identity_formats res src act of
                   Inl x \<Rightarrow> Inl x
                 | Inr u \<Rightarrow>
                     if \<not> receipt_matches res rc src act then Inl (StateCorrupt ''retirement receipt identity'')
                     else if rc_status rc = Succeeded then
                       (if rc_result rc \<noteq> Some res then Inl (StateCorrupt ''terminal retirement receipt'')
                        else Inr (Some res))
                     else if require_terminal \<or> rc_status rc \<noteq> Accepted \<or> rc_result rc \<noteq> None
                       then Inl (StateCorrupt ''retirement receipt not succeeded'')
                     else Inr (Some res))
            | _ \<Rightarrow> Inl (StateCorrupt ''retirement source and destination''))))"

section \<open>The receipt store\<close>

fun file_put :: "string \<Rightarrow> 'a \<Rightarrow> (string \<times> 'a) list \<Rightarrow> (string \<times> 'a) list" where
  "file_put k v [] = [(k, v)]"
| "file_put k v ((k', v') # r) = (if k' = k then (k, v) # r else (k', v') # file_put k v r)"

definition file_remove :: "string \<Rightarrow> (string \<times> 'a) list \<Rightarrow> (string \<times> 'a) list" where
  "file_remove k xs = filter (\<lambda>(k', v). k' \<noteq> k) xs"

definition receipt_load :: "env \<Rightarrow> string \<Rightarrow> receipt option prog" where
  "receipt_load E rid = bnd (lift (validate_request_id rid)) (\<lambda>k.
     bnd (asks (\<lambda>s. map_of (m_receipts s) k)) (\<lambda>f. case f of
       None \<Rightarrow> ret None
     | Some Unreadable \<Rightarrow> raise (StateCorrupt ''request receipt unreadable'')
     | Some (Stored rc) \<Rightarrow> bnd (lift (validate_receipt E rc rid)) (\<lambda>_. ret (Some rc))))"

definition receipt_save :: "env \<Rightarrow> receipt \<Rightarrow> receipt prog" where
  "receipt_save E rc = bnd (lift (validate_request_id (rc_request_id rc))) (\<lambda>k.
     bnd (utc_now E) (\<lambda>t.
     let saved = rc\<lparr>rc_schema := 1, rc_request_id := k, rc_updated_at := t\<rparr>
     in bnd (lift (validate_receipt E saved k)) (\<lambda>_.
        bnd (atomic_write E (\<lambda>s. s\<lparr>m_receipts := file_put k (Stored saved) (m_receipts s)\<rparr>)) (\<lambda>_.
        ret saved))))"

definition receipt_read :: "env \<Rightarrow> string \<Rightarrow> receipt option prog" where
  "receipt_read E stem = bnd (attempt is_NameInvalid (receipt_load E stem)) (\<lambda>r. case r of
       Inl x \<Rightarrow> raise (StateCorrupt ''receipt file name'')
     | Inr v \<Rightarrow> ret v)"

definition all_receipts :: "env \<Rightarrow> receipt list prog" where
  "all_receipts E = bnd (asks (\<lambda>s. sort (List.map fst (m_receipts s)))) (\<lambda>stems.
     bnd (gather (receipt_read E) stems) (\<lambda>found. ret (concat (List.map opt_list found))))"

definition queue_key :: "receipt \<Rightarrow> string \<times> int \<times> string" where
  "queue_key rc = (rc_created_at rc, rc_generation rc, rc_request_id rc)"

definition queue_order :: "receipt list \<Rightarrow> receipt list" where
  "queue_order rcs = sort_key queue_key (filter (\<lambda>rc. rc_status rc = Queued) rcs)"

definition queued_receipts :: "env \<Rightarrow> receipt list prog" where
  "queued_receipts E = bnd (all_receipts E) (\<lambda>rcs. ret (queue_order rcs))"

definition top_generation :: "receipt list \<Rightarrow> int" where
  "top_generation rcs = (if rcs = [] then 0 else Max (set (List.map rc_generation rcs)))"

definition max_generation :: "env \<Rightarrow> int prog" where
  "max_generation E = bnd (all_receipts E) (\<lambda>rcs. ret (top_generation rcs))"

definition pinned_receipts :: "retired list \<Rightarrow> exn + string list" where
  "pinned_receipts rts = foldr (\<lambda>rt acc. case rd_retirement rt of
       None \<Rightarrow> acc
     | Some res \<Rightarrow> (case validate_request_id (oc_request_id res) of
         Inl x \<Rightarrow> Inl (StateCorrupt ''retirement receipt pin'')
       | Inr r \<Rightarrow> (case acc of Inl x \<Rightarrow> Inl x | Inr rs \<Rightarrow> Inr (r # rs)))) rts (Inr [])"

definition prunable :: "string list \<Rightarrow> receipt list \<Rightarrow> receipt list" where
  "prunable pinned rcs =
     sort_key rc_updated_at (filter (\<lambda>rc. terminal (rc_status rc) \<and> rc_request_id rc \<notin> set pinned) rcs)"

definition unlink_receipt :: "env \<Rightarrow> string \<Rightarrow> unit prog" where
  "unlink_receipt E rid = bnd (lift (validate_request_id rid)) (\<lambda>k.
     atomic_write E (\<lambda>s. s\<lparr>m_receipts := file_remove k (m_receipts s), m_unlinked := k # m_unlinked s\<rparr>))"

definition prune_terminal :: "env \<Rightarrow> nat \<Rightarrow> nat prog" where
  "prune_terminal E max_receipts =
     (if max_receipts < 1 then raise (ValueError ''max_receipts'')
      else bnd (all_receipts E) (\<lambda>rcs.
        if length rcs \<le> max_receipts then ret 0
        else bnd (load_state E) (\<lambda>st.
          bnd (lift (pinned_receipts (cs_retiring st))) (\<lambda>pinned.
            let victims = prunable pinned rcs;
                removable = min (length victims) (length rcs - max_receipts)
            in bnd (gather (\<lambda>rc. unlink_receipt E (rc_request_id rc)) (take removable victims)) (\<lambda>_.
               bnd (if removable = 0 then ret () else atomic_write E (\<lambda>s. s)) (\<lambda>_. ret removable))))))"

section \<open>Facts\<close>

abbreviation valid_receipt :: "env \<Rightarrow> string \<Rightarrow> receipt \<Rightarrow> bool" where
  "valid_receipt E k rc \<equiv> validate_receipt E rc k = Inr ()"

lemma map_of_file_put [simp]: "map_of (file_put k v xs) = (map_of xs)(k \<mapsto> v)"
  by (induction k v xs rule: file_put.induct) (auto simp: fun_eq_iff)

lemma map_of_file_remove [simp]: "map_of (file_remove k xs) = (map_of xs)(k := None)"
  by (induction xs) (auto simp: file_remove_def fun_eq_iff)

lemma keys_file_put [simp]: "set (List.map fst (file_put k v xs)) = insert k (set (List.map fst xs))"
  by (induction k v xs rule: file_put.induct) auto

lemma distinct_file_put: "distinct (List.map fst xs) \<Longrightarrow> distinct (List.map fst (file_put k v xs))"
  by (induction k v xs rule: file_put.induct) (auto simp del: set_map simp add: image_iff
      simp flip: set_map dest: keys_file_put [THEN equalityD1, THEN subsetD])

lemma lower_char_idem [simp]: "lower_char (lower_char c) = lower_char c"
proof (cases "is_upper c")
  case True
  then have "of_char c + 32 \<ge> (97::nat)" "of_char c + 32 \<le> (122::nat)"
    by (simp_all add: is_upper_def less_eq_char_def)
  then have "\<not> is_upper (char_of (of_char c + (32::nat)))"
    by (simp add: is_upper_def less_eq_char_def)
  with True show ?thesis by (simp add: lower_char_def)
qed (simp add: lower_char_def)

lemma validate_request_id_idem: "validate_request_id s = Inr k \<Longrightarrow> validate_request_id k = Inr k"
  by (auto simp: validate_request_id_def Let_def comp_def split: if_splits)

lemma valid_receipt_id:
  assumes "valid_receipt E k rc"
  shows "\<exists>r. validate_request_id (rc_request_id rc) = Inr r \<and> validate_request_id k = Inr r"
  using assms by (auto simp: validate_receipt_def split: sum.splits)

end
