(* ===== verification/SwitchStore.thy ===== *)
theory SwitchStore
  imports Receipts
begin

text \<open>
  \<open>GameSwitchStore\<close> and \<open>GameSwitchTransaction\<close>: accepting, queueing, claiming, requeueing and
  finishing requests under the exclusive lock, and the lock itself.  Other processes run their
  own transactions whenever this one asks for the lock (\<open>e_others\<close>), with the same code.
\<close>

section \<open>Acceptances\<close>

datatype ac_status = AcAccepted | AcInProgress | AcQueued | AcDone status

record acceptance =
  ac_request_id :: string
  ac_generation :: int
  ac_status :: ac_status
  ac_existing :: bool
  ac_receipt :: receipt
  ac_claimed :: bool

definition payload_of :: "payload option \<Rightarrow> payload" where
  "payload_of p = (case p of None \<Rightarrow> [] | Some q \<Rightarrow> q)"

definition classify_existing :: "receipt \<Rightarrow> string \<Rightarrow> exn + acceptance" where
  "classify_existing rc h =
     (if rc_payload_hash rc \<noteq> h then Inl (RequestConflict ''request_id reused with another payload'')
      else Inr \<lparr>ac_request_id = rc_request_id rc, ac_generation = rc_generation rc,
        ac_status = (if terminal (rc_status rc) then AcDone (rc_status rc)
          else if rc_status rc = Queued then AcQueued else AcInProgress),
        ac_existing = True, ac_receipt = rc, ac_claimed = False\<rparr>)"

definition require_exclusive_lock :: "unit prog" where
  "require_exclusive_lock = bnd (asks m_lock) (\<lambda>l. unless l (PyRuntimeError ''exclusive lock required''))"

section \<open>Finishing, requeueing and claiming\<close>

definition finish_request_locked :: "env \<Rightarrow> string \<Rightarrow> status \<Rightarrow> outcome \<Rightarrow> receipt prog" where
  "finish_request_locked E rid st res = bnd require_exclusive_lock (\<lambda>_.
     if \<not> terminal st then raise (ValueError ''terminal status'')
     else bnd (receipt_load E rid) (\<lambda>r. case r of
       None \<Rightarrow> raise (StateCorrupt ''no receipt to finish'')
     | Some rc \<Rightarrow>
         if terminal (rc_status rc) then
           (if rc_status rc \<noteq> st \<or> rc_result rc \<noteq> Some res
            then raise (RequestConflict ''terminal request result'') else ret rc)
         else bnd (receipt_save E (rc\<lparr>rc_status := st, rc_result := Some res\<rparr>)) (\<lambda>saved.
              bnd (prune_terminal E 1000) (\<lambda>_. ret saved))))"

definition requeue_request_locked :: "env \<Rightarrow> string \<Rightarrow> acceptance prog" where
  "requeue_request_locked E rid = bnd require_exclusive_lock (\<lambda>_.
     bnd (receipt_load E rid) (\<lambda>r. case r of
       None \<Rightarrow> raise (StateCorrupt ''no receipt to requeue'')
     | Some rc \<Rightarrow>
         if terminal (rc_status rc) \<or> rc_status rc = Queued then
           ret \<lparr>ac_request_id = rc_request_id rc, ac_generation = rc_generation rc,
             ac_status = (if rc_status rc = Queued then AcQueued else AcDone (rc_status rc)),
             ac_existing = True, ac_receipt = rc, ac_claimed = False\<rparr>
         else bnd (receipt_save E (rc\<lparr>rc_status := Queued, rc_result := None\<rparr>)) (\<lambda>saved.
           ret \<lparr>ac_request_id = rc_request_id saved, ac_generation = rc_generation saved,
             ac_status = AcQueued, ac_existing = True, ac_receipt = saved, ac_claimed = False\<rparr>)))"

definition game_of :: "runtime option \<Rightarrow> string option" where
  "game_of r = map_option rt_game r"

text \<open>The head of the queue whose hard deadline ended before it was claimed.\<close>

definition expire_head :: "env \<Rightarrow> cstate \<Rightarrow> string \<Rightarrow> operation \<Rightarrow> string option \<Rightarrow> receipt \<Rightarrow> string \<Rightarrow> acceptance prog" where
  "expire_head E st rid op target rc h =
     bnd (finish_request_locked E rid Failed
       ((new_outcome rid op Failed)\<lparr>oc_from_game := game_of (cs_active st), oc_to_game := target,
         oc_generation := Some (rc_generation rc), oc_error_code := Some ''timeout'',
         oc_detail := Some ''hard deadline before claim''\<rparr>)) (\<lambda>saved.
     bnd (lift (classify_existing saved h)) (\<lambda>a. ret (a\<lparr>ac_status := AcDone Failed\<rparr>)))"

definition claim_queued_head :: "env \<Rightarrow> cstate \<Rightarrow> string option \<Rightarrow> string \<Rightarrow> operation \<Rightarrow> string option \<Rightarrow>
    receipt \<Rightarrow> string \<Rightarrow> acceptance prog" where
  "claim_queued_head E st owner rid op target rc h = bnd (queued_receipts E) (\<lambda>q.
     if q = [] \<or> rc_request_id (hd q) \<noteq> rid then raise (Busy ''earlier request in the queue'')
     else if owner \<noteq> None \<or> cs_phase st \<notin> {Idle, Ready} then raise (Busy ''current switch not finished'')
     else bnd (wall_remaining E (rc_hard_deadline rc)) (\<lambda>left. case left of
       Some d \<Rightarrow> if d \<le> 0 then expire_head E st rid op target rc h
         else bnd (canon_save E (st\<lparr>cs_phase := Validating, cs_operation := Some op, cs_request_id := Some rid,
                cs_deadline_at := rc_hard_deadline rc\<rparr>)) (\<lambda>_.
              bnd (receipt_save E (rc\<lparr>rc_status := Accepted\<rparr>)) (\<lambda>claimed.
              bnd (lift (classify_existing claimed h)) (\<lambda>a.
              ret (a\<lparr>ac_status := AcAccepted, ac_claimed := True\<rparr>))))
     | None \<Rightarrow> bnd (canon_save E (st\<lparr>cs_phase := Validating, cs_operation := Some op, cs_request_id := Some rid\<rparr>)) (\<lambda>_.
              bnd (receipt_save E (rc\<lparr>rc_status := Accepted\<rparr>)) (\<lambda>claimed.
              bnd (lift (classify_existing claimed h)) (\<lambda>a.
              ret (a\<lparr>ac_status := AcAccepted, ac_claimed := True\<rparr>))))))"

section \<open>Accepting\<close>

definition new_runtime_id :: "env \<Rightarrow> int \<Rightarrow> string prog" where
  "new_runtime_id E g = bnd (lift (runtime_names g)) (\<lambda>_.
     bnd (token_hex E) (\<lambda>h. ret (make_runtime_id g h)))"

definition next_generation_for :: "env \<Rightarrow> cstate \<Rightarrow> int prog" where
  "next_generation_for E st = bnd (max_generation E) (\<lambda>m. ret (max (cs_next_generation st) (m + 1)))"

definition new_receipt :: "env \<Rightarrow> string \<Rightarrow> operation \<Rightarrow> string option \<Rightarrow> string \<Rightarrow> int \<Rightarrow> status \<Rightarrow>
    bool option \<Rightarrow> string option \<Rightarrow> receipt prog" where
  "new_receipt E rid op target h g st ext hard =
     bnd (new_runtime_id E g) (\<lambda>i.
     bnd (lift (runtime_names g)) (\<lambda>n.
     bnd (lift (runtime_directory (e_resolve E) (e_state_dir E) i)) (\<lambda>d.
     bnd (utc_now E) (\<lambda>t1. bnd (utc_now E) (\<lambda>t2.
     ret \<lparr>rc_schema = 1, rc_request_id = rid, rc_operation = op, rc_target = target, rc_payload_hash = h,
       rc_generation = g, rc_runtime_id = i, rc_runtime_dir = d, rc_game_window = nm_game_window n,
       rc_agent_window = nm_agent_window n, rc_adapter_session = nm_adapter_session n, rc_status = st,
       rc_result = None, rc_created_at = t1, rc_updated_at = t2, rc_allow_extension = ext,
       rc_hard_deadline = hard\<rparr>)))))"

definition accept_fresh :: "env \<Rightarrow> cstate \<Rightarrow> string \<Rightarrow> operation \<Rightarrow> string option \<Rightarrow> string \<Rightarrow> acceptance prog" where
  "accept_fresh E st rid op target h =
     (if cs_request_id st \<noteq> None \<or> cs_phase st \<notin> {Idle, Ready} then raise (Busy ''canonical state unfinished'')
      else bnd (next_generation_for E st) (\<lambda>g.
       bnd (new_receipt E rid op target h g Allocating None None) (\<lambda>rc0.
       bnd (receipt_save E rc0) (\<lambda>rc1.
       bnd (canon_save E (st\<lparr>cs_phase := Validating, cs_operation := Some op, cs_request_id := Some rid,
             cs_next_generation := g + 1\<rparr>)) (\<lambda>_.
       bnd (receipt_save E (rc1\<lparr>rc_status := Accepted\<rparr>)) (\<lambda>rc.
       bnd (prune_terminal E 1000) (\<lambda>_.
       ret \<lparr>ac_request_id = rid, ac_generation = g, ac_status = AcAccepted, ac_existing = False,
         ac_receipt = rc, ac_claimed = False\<rparr>)))))))"

text \<open>The terminal write already landed: only the receipt is missing.\<close>

definition commit_landed :: "cstate \<Rightarrow> string \<Rightarrow> bool" where
  "commit_landed st rid \<longleftrightarrow>
     (case cs_last_result st of None \<Rightarrow> False | Some l \<Rightarrow> oc_request_id l = rid \<and> terminal (oc_status l)) \<or>
     list_ex (\<lambda>rt. case rd_retirement rt of None \<Rightarrow> False | Some p \<Rightarrow> oc_request_id p = rid) (cs_retiring st)"

definition accept_existing :: "env \<Rightarrow> cstate \<Rightarrow> string \<Rightarrow> operation \<Rightarrow> string option \<Rightarrow> string \<Rightarrow>
    receipt \<Rightarrow> acceptance \<Rightarrow> acceptance prog" where
  "accept_existing E st0 rid op target h rc c =
     bnd (if cs_next_generation st0 \<le> ac_generation c
          then canon_save E (st0\<lparr>cs_next_generation := ac_generation c + 1\<rparr>) else ret st0) (\<lambda>st.
     if rc_status rc = Allocating then
       (if (cs_request_id st0 = Some rid \<and> cs_phase st \<noteq> Validating) \<or>
           (cs_request_id st0 = None \<and> cs_phase st \<notin> {Idle, Ready})
        then raise (StateCorrupt ''allocating receipt and canonical phase'')
        else bnd (canon_save E (st\<lparr>cs_phase := Validating, cs_operation := Some op, cs_request_id := Some rid\<rparr>)) (\<lambda>_.
             bnd (receipt_save E (rc\<lparr>rc_status := Accepted\<rparr>)) (\<lambda>rc'.
             lift (classify_existing rc' h))))
     else if rc_status rc = Queued then claim_queued_head E st (cs_request_id st0) rid op target rc h
     else if cs_request_id st0 = None then
       (if cs_phase st \<in> {Idle, Ready} \<and> rc_status rc = Accepted then
         (if commit_landed st rid then raise (StateCorrupt ''accepted receipt without canonical request'')
          else bnd (requeue_request_locked E rid) (\<lambda>a.
               claim_queued_head E st None rid op target (ac_receipt a) h))
        else raise (StateCorrupt ''accepted receipt without canonical request''))
     else ret c)"

text \<open>The checks between classifying the request and acting on it.\<close>

definition accept_guard :: "env \<Rightarrow> cstate \<Rightarrow> string \<Rightarrow> bool \<Rightarrow> unit prog" where
  "accept_guard E st rid known =
     (if cs_request_id st \<noteq> None \<and> cs_request_id st \<noteq> Some rid then raise (Busy ''another request owns the canonical state'')
      else if cs_phase st \<in> {FailedPhase, RecoveryRequired} then raise (Busy ''canonical state needs recovery'')
      else if cs_request_id st = Some rid \<and> \<not> known then raise (StateCorrupt ''canonical request without receipt'')
      else bnd (all_receipts E) (\<lambda>rcs.
        if list_ex (\<lambda>rc. \<not> terminal (rc_status rc) \<and> rc_status rc \<noteq> Queued \<and> rc_request_id rc \<noteq> rid) rcs
        then raise (Busy ''another unfinished receipt'') else ret ()))"

definition accept_request_locked :: "env \<Rightarrow> string \<Rightarrow> operation \<Rightarrow> string option \<Rightarrow> payload option \<Rightarrow> acceptance prog" where
  "accept_request_locked E rid0 op0 target0 p = bnd require_exclusive_lock (\<lambda>_.
     bnd (lift (validate_request_id rid0)) (\<lambda>rid.
     bnd (lift (validate_request op0 target0)) (\<lambda>(op, target).
     let h = payload_hash E op target (payload_of p) in
     bnd (canon_initialize E) (\<lambda>st.
     bnd (receipt_load E rid) (\<lambda>existing. case existing of
       None \<Rightarrow> bnd (accept_guard E st rid False) (\<lambda>_. accept_fresh E st rid op target h)
     | Some rc \<Rightarrow> bnd (lift (classify_existing rc h)) (\<lambda>c.
         if terminal (rc_status rc) then ret c
         else bnd (accept_guard E st rid True) (\<lambda>_. accept_existing E st rid op target h rc c)))))))"

section \<open>Queueing\<close>

definition extension_marker :: "payload \<Rightarrow> payload" where
  "extension_marker p = json_put ''_allow_boundary_timeout_extension'' (JBool False) p"

definition deadline_policy :: "bool \<Rightarrow> string option \<Rightarrow> exn + unit" where
  "deadline_policy ext hard =
     (case hard of None \<Rightarrow> Inr ()
      | Some d \<Rightarrow> (case wall_deadline_remaining 0 (Some d) of
            Inl x \<Rightarrow> Inl x
          | Inr v \<Rightarrow> require (\<not> ext) (ValueError ''hard_deadline_at needs no extension'')))"

definition enqueue_fresh :: "env \<Rightarrow> cstate \<Rightarrow> string \<Rightarrow> operation \<Rightarrow> string option \<Rightarrow> string \<Rightarrow> bool \<Rightarrow> string option \<Rightarrow> acceptance prog" where
  "enqueue_fresh E st rid op target h ext hard =
     (if cs_phase st \<in> {FailedPhase, RecoveryRequired} then raise (Busy ''canonical state needs recovery'')
      else bnd (next_generation_for E st) (\<lambda>g.
       bnd (new_receipt E rid op target h g Queued (Some ext) hard) (\<lambda>rc0.
       bnd (receipt_save E rc0) (\<lambda>rc.
       bnd (canon_save E (st\<lparr>cs_next_generation := g + 1\<rparr>)) (\<lambda>_.
       bnd (prune_terminal E 1000) (\<lambda>_.
       ret \<lparr>ac_request_id = rid, ac_generation = g, ac_status = AcQueued, ac_existing = False,
         ac_receipt = rc, ac_claimed = False\<rparr>))))))"

definition enqueue_request_locked :: "env \<Rightarrow> string \<Rightarrow> operation \<Rightarrow> string option \<Rightarrow> payload option \<Rightarrow> bool \<Rightarrow>
    string option \<Rightarrow> acceptance prog" where
  "enqueue_request_locked E rid0 op0 target0 p ext hard = bnd require_exclusive_lock (\<lambda>_.
     bnd (lift (validate_request_id rid0)) (\<lambda>rid.
     bnd (lift (validate_request op0 target0)) (\<lambda>(op, target).
     bnd (lift (deadline_policy ext hard)) (\<lambda>_.
     bnd (canon_initialize E) (\<lambda>st.
     bnd (receipt_load E rid) (\<lambda>existing.
     let legacy = payload_hash E op target (payload_of p);
         h = payload_hash E op target (if ext then payload_of p else extension_marker (payload_of p))
     in case existing of
       None \<Rightarrow> enqueue_fresh E st rid op target h ext hard
     | Some rc \<Rightarrow> lift (classify_existing rc (if rc_payload_hash rc = legacy then legacy else h))))))))"

section \<open>Transactions\<close>

definition transition :: "env \<Rightarrow> phase list \<Rightarrow> phase \<Rightarrow> upd list \<Rightarrow> cstate prog" where
  "transition E expected p us = bnd require_exclusive_lock (\<lambda>_. canon_transition E expected p us)"

definition forget :: "'a prog \<Rightarrow> unit prog" where
  "forget m = bnd m (\<lambda>_. ret ())"

fun other_body :: "env \<Rightarrow> other \<Rightarrow> unit prog" where
  "other_body E OInitialize = forget (canon_initialize E)"
| "other_body E (OTransition ps p us) = forget (transition E ps p us)"
| "other_body E (OAccept rid op tg p) = forget (accept_request_locked E rid op tg p)"
| "other_body E (OEnqueue rid op tg p ext hard) = forget (enqueue_request_locked E rid op tg p ext hard)"
| "other_body E (ORequeue rid) = forget (requeue_request_locked E rid)"
| "other_body E (OFinish rid st res) = forget (finish_request_locked E rid st res)"

text \<open>Another process runs one transaction: whatever becomes of it, the lock is free again.\<close>

definition run_other :: "env \<Rightarrow> other \<Rightarrow> machine \<Rightarrow> machine" where
  "run_other E o1 s = (snd (other_body E o1 (s\<lparr>m_lock := True\<rparr>)))\<lparr>m_lock := False\<rparr>"

definition run_others :: "env \<Rightarrow> machine \<Rightarrow> machine" where
  "run_others E s = foldl (\<lambda>t o1. run_other E o1 t) (s\<lparr>m_locks := m_locks s + 1\<rparr>) (e_others E (m_locks s))"

text \<open>\<open>GameSwitchLock.acquire(exclusive=True, blocking=False)\<close> of a new lock object, which fails
  with busy while this process holds the lock through another one.\<close>

definition acquire_lock :: "env \<Rightarrow> unit prog" where
  "acquire_lock E = (\<lambda>s.
     if m_lock s then (Inl (Busy ''switch in progress''), s)
     else let free = e_lock_free E (m_locks s); t = run_others E s
       in if free then (Inr (), t\<lparr>m_lock := True\<rparr>) else (Inl (Busy ''switch in progress''), t))"

definition release_lock :: "unit prog" where
  "release_lock = alter (\<lambda>s. s\<lparr>m_lock := False\<rparr>)"

text \<open>\<open>with store.transaction() as tx: ...\<close>, and \<open>try: ... finally: ...\<close> of one release.\<close>

definition releasing :: "'a prog \<Rightarrow> 'a prog" where
  "releasing m = (\<lambda>s. case m s of (r, t) \<Rightarrow> (r, t\<lparr>m_lock := False\<rparr>))"

definition transaction :: "env \<Rightarrow> 'a prog \<Rightarrow> 'a prog" where
  "transaction E m = bnd (acquire_lock E) (\<lambda>_. releasing m)"

text \<open>\<open>GameSwitchTransaction.reacquire_for_wait\<close>.  Each round sleeps at least one poll interval
  or up to the deadline, so \<open>reacquire_rounds\<close> rounds are enough; the fuel never runs out.\<close>

fun reacquire_loop :: "env \<Rightarrow> nat \<Rightarrow> int \<Rightarrow> unit prog" where
  "reacquire_loop E 0 deadline = raise (BaseExn ''out of fuel'')"
| "reacquire_loop E (Suc n) deadline = bnd (monotonic E) (\<lambda>t.
     if deadline \<le> t then raise (DeadlineExceeded ''writer lock not reacquired'')
     else bnd (attempt is_Busy (acquire_lock E)) (\<lambda>r. case r of
       Inr u \<Rightarrow> ret ()
     | Inl x \<Rightarrow> bnd (monotonic E) (\<lambda>t'.
         bnd (sleep (min (e_poll E) (max (deadline - t') 0))) (\<lambda>_. reacquire_loop E n deadline))))"

definition poll_rounds :: "env \<Rightarrow> int \<Rightarrow> nat" where
  "poll_rounds E budget = nat (budget div max 1 (e_poll E)) + 3"

definition reacquire_for_wait :: "env \<Rightarrow> int \<Rightarrow> unit prog" where
  "reacquire_for_wait E deadline = bnd (asks m_now) (\<lambda>t. reacquire_loop E (poll_rounds E (deadline - t)) deadline)"

definition release_for_wait :: "unit prog" where
  "release_for_wait = bnd require_exclusive_lock (\<lambda>_. release_lock)"

definition store_initialize :: "env \<Rightarrow> cstate prog" where
  "store_initialize E = transaction E (canon_initialize E)"

definition classify_request :: "env \<Rightarrow> string \<Rightarrow> operation \<Rightarrow> string option \<Rightarrow> payload option \<Rightarrow> acceptance prog" where
  "classify_request E rid0 op0 target0 p =
     bnd (lift (validate_request_id rid0)) (\<lambda>rid.
     bnd (lift (validate_request op0 target0)) (\<lambda>(op, target).
     bnd (receipt_load E rid) (\<lambda>r. case r of
       None \<Rightarrow> raise (Busy ''another switch in progress'')
     | Some rc \<Rightarrow> lift (classify_existing rc (payload_hash E op target (payload_of p))))))"

definition accept_request :: "env \<Rightarrow> string \<Rightarrow> operation \<Rightarrow> string option \<Rightarrow> payload option \<Rightarrow> acceptance prog" where
  "accept_request E rid op target p =
     bnd (attempt is_Busy (transaction E (accept_request_locked E rid op target p))) (\<lambda>r. case r of
       Inr a \<Rightarrow> ret a
     | Inl x \<Rightarrow> classify_request E rid op target p)"

definition enqueue_request :: "env \<Rightarrow> string \<Rightarrow> operation \<Rightarrow> string option \<Rightarrow> payload option \<Rightarrow> bool \<Rightarrow>
    string option \<Rightarrow> acceptance prog" where
  "enqueue_request E rid op target p ext hard =
     bnd (lift (deadline_policy ext hard)) (\<lambda>_.
     bnd (attempt is_Busy (transaction E (enqueue_request_locked E rid op target (Some (payload_of p)) ext hard))) (\<lambda>r. case r of
       Inr a \<Rightarrow> ret a
     | Inl x \<Rightarrow> bnd (receipt_load E rid) (\<lambda>existing.
         let legacy = payload_hash E op target (payload_of p) in
         case existing of
           Some rc \<Rightarrow> if rc_payload_hash rc = legacy then lift (classify_existing rc legacy)
             else classify_request E rid op target (Some (if ext then payload_of p else extension_marker (payload_of p)))
         | None \<Rightarrow> classify_request E rid op target (Some (if ext then payload_of p else extension_marker (payload_of p))))))"

definition finish_request :: "env \<Rightarrow> string \<Rightarrow> status \<Rightarrow> outcome \<Rightarrow> receipt prog" where
  "finish_request E rid st res = transaction E (finish_request_locked E rid st res)"

end
