(* ===== verification/StoreFacts.thy ===== *)
theory StoreFacts
  imports SwitchStore
begin

text \<open>
  What the store's operations may touch, the two relations every transaction keeps the disk in
  (\<open>canon_grows\<close>, \<open>receipts_follow\<close>), the interface the coordinator's proofs rest on
  (\<open>store_contract\<close>), and the behaviour of accepting, claiming, queueing and finishing.
\<close>

section \<open>Frames\<close>

text \<open>What no operation of the store touches.\<close>

definition store_frame :: "machine \<Rightarrow> machine \<Rightarrow> bool" where
  "store_frame s t \<longleftrightarrow> m_lock t = m_lock s \<and> m_now t = m_now s \<and> m_ticks t = m_ticks s \<and>
     m_calls t = m_calls s \<and> m_locks t = m_locks s \<and> m_mirror t = m_mirror s \<and>
     m_markers t = m_markers s \<and> m_announced t = m_announced s \<and> m_claims t = m_claims s \<and>
     m_trace t = m_trace s"

definition canon_kept :: "machine \<Rightarrow> machine \<Rightarrow> bool" where
  "canon_kept s t \<longleftrightarrow> store_frame s t \<and> m_canon t = m_canon s"

definition receipts_kept :: "machine \<Rightarrow> machine \<Rightarrow> bool" where
  "receipts_kept s t \<longleftrightarrow> store_frame s t \<and> m_receipts t = m_receipts s \<and> m_unlinked t = m_unlinked s"

definition disk_kept :: "machine \<Rightarrow> machine \<Rightarrow> bool" where
  "disk_kept s t \<longleftrightarrow> m_canon t = m_canon s \<and> m_receipts t = m_receipts s \<and> m_unlinked t = m_unlinked s"

text \<open>Work in memory: the disk and the trace stay, the clock does not go back.\<close>

definition calm :: "machine \<Rightarrow> machine \<Rightarrow> bool" where
  "calm s t \<longleftrightarrow> disk_kept s t \<and> m_trace t = m_trace s \<and> m_now s \<le> m_now t"

interpretation sfr: step_order store_frame
  by unfold_locales (simp_all add: store_frame_def)

interpretation ck: step_order canon_kept
  by unfold_locales (simp_all add: canon_kept_def store_frame_def)

interpretation rk: step_order receipts_kept
  by unfold_locales (simp_all add: receipts_kept_def store_frame_def)

interpretation dk: step_order disk_kept
  by unfold_locales (simp_all add: disk_kept_def)

lemma steps_weaken: "steps R m \<Longrightarrow> (\<And>s t. R s t \<Longrightarrow> S s t) \<Longrightarrow> steps S m"
  by (simp add: steps_def)

lemma clock_canon_kept:
  "steps canon_kept (wall_now E)" "steps canon_kept (utc_now E)" "steps canon_kept (fresh_uuid E)"
  "steps canon_kept (token_hex E)" "steps canon_kept (wall_remaining E v)" "steps canon_kept (wall_expired E v)"
proof -
  show w: "steps canon_kept (wall_now E)"
    by (simp add: steps_def wall_now_def canon_kept_def store_frame_def)
  show "steps canon_kept (utc_now E)" unfolding utc_now_def by (intro ck.so_rules w)
  show "steps canon_kept (fresh_uuid E)"
    by (simp add: steps_def fresh_uuid_def canon_kept_def store_frame_def)
  show "steps canon_kept (token_hex E)"
    by (simp add: steps_def token_hex_def canon_kept_def store_frame_def)
  show "steps canon_kept (wall_remaining E v)" unfolding wall_remaining_def by (intro ck.so_rules w)
  show "steps canon_kept (wall_expired E v)" unfolding wall_expired_def by (intro ck.so_rules w)
qed

lemma clock_receipts_kept:
  "steps receipts_kept (wall_now E)" "steps receipts_kept (utc_now E)" "steps receipts_kept (fresh_uuid E)"
  "steps receipts_kept (token_hex E)" "steps receipts_kept (wall_remaining E v)"
  "steps receipts_kept (wall_expired E v)"
proof -
  show w: "steps receipts_kept (wall_now E)"
    by (simp add: steps_def wall_now_def receipts_kept_def store_frame_def)
  show "steps receipts_kept (utc_now E)" unfolding utc_now_def by (intro rk.so_rules w)
  show "steps receipts_kept (fresh_uuid E)"
    by (simp add: steps_def fresh_uuid_def receipts_kept_def store_frame_def)
  show "steps receipts_kept (token_hex E)"
    by (simp add: steps_def token_hex_def receipts_kept_def store_frame_def)
  show "steps receipts_kept (wall_remaining E v)" unfolding wall_remaining_def by (intro rk.so_rules w)
  show "steps receipts_kept (wall_expired E v)" unfolding wall_expired_def by (intro rk.so_rules w)
qed

lemma atomic_write_canon_kept:
  "(\<And>s. canon_kept s (f s)) \<Longrightarrow> steps canon_kept (atomic_write E f)"
  by (auto simp: steps_def atomic_write_def Let_def canon_kept_def store_frame_def split: fault.splits)

lemma atomic_write_receipts_kept:
  "(\<And>s. receipts_kept s (f s)) \<Longrightarrow> steps receipts_kept (atomic_write E f)"
  by (auto simp: steps_def atomic_write_def Let_def receipts_kept_def store_frame_def split: fault.splits)

named_theorems kept_rules \<open>which part of the disk an operation leaves alone\<close>

declare clock_canon_kept [kept_rules] clock_receipts_kept [kept_rules]

lemma canon_ops_receipts_kept [kept_rules]:
  "steps receipts_kept (canon_load E)" "steps receipts_kept (load_state E)"
  "steps receipts_kept (canon_save E st)" "steps receipts_kept (canon_initialize E)"
  "steps receipts_kept (canon_transition E ps p us)"
proof -
  show l: "steps receipts_kept (canon_load E)"
    unfolding canon_load_def initial_state_def
    by (auto intro!: rk.so_rules kept_rules split: option.splits doc.splits)
  show ls: "steps receipts_kept (load_state E)"
    unfolding load_state_def by (intro rk.so_rules l)
  have w: "steps receipts_kept (atomic_write E (\<lambda>s. s\<lparr>m_canon := Some (Stored x)\<rparr>))" for x
    by (rule atomic_write_receipts_kept) (simp add: receipts_kept_def store_frame_def)
  show sv: "steps receipts_kept (canon_save E st)" for st
    unfolding canon_save_def by (intro rk.so_rules kept_rules w)
  show "steps receipts_kept (canon_initialize E)"
    unfolding canon_initialize_def by (intro rk.so_rules l sv)
  show "steps receipts_kept (canon_transition E ps p us)"
    unfolding canon_transition_def by (intro rk.so_rules ls sv)
qed

lemma receipt_ops_canon_kept [kept_rules]:
  "steps canon_kept (receipt_load E rid)" "steps canon_kept (receipt_save E rc)"
  "steps canon_kept (all_receipts E)" "steps canon_kept (queued_receipts E)"
  "steps canon_kept (max_generation E)"
proof -
  show l: "steps canon_kept (receipt_load E rid)" for rid
    unfolding receipt_load_def
    by (auto intro!: ck.so_rules kept_rules split: option.splits doc.splits)
  have w: "steps canon_kept (atomic_write E (\<lambda>s. s\<lparr>m_receipts := g s\<rparr>))" for g
    by (rule atomic_write_canon_kept) (simp add: canon_kept_def store_frame_def)
  show "steps canon_kept (receipt_save E rc)"
    unfolding receipt_save_def by (intro ck.so_rules kept_rules w)
  show a: "steps canon_kept (all_receipts E)"
    unfolding all_receipts_def receipt_read_def by (intro ck.so_rules l)
  show "steps canon_kept (queued_receipts E)"
    unfolding queued_receipts_def by (intro ck.so_rules a)
  show "steps canon_kept (max_generation E)"
    unfolding max_generation_def by (intro ck.so_rules a)
qed

lemma load_canon_kept [kept_rules]:
  "steps canon_kept (canon_load E)" "steps canon_kept (load_state E)"
proof -
  show l: "steps canon_kept (canon_load E)"
    unfolding canon_load_def initial_state_def
    by (auto intro!: ck.so_rules kept_rules split: option.splits doc.splits)
  show "steps canon_kept (load_state E)"
    unfolding load_state_def by (intro ck.so_rules l)
qed

lemma load_receipts_kept [kept_rules]:
  "steps receipts_kept (receipt_load E rid)" "steps receipts_kept (all_receipts E)"
  "steps receipts_kept (queued_receipts E)" "steps receipts_kept (max_generation E)"
proof -
  show l: "steps receipts_kept (receipt_load E rid)" for rid
    unfolding receipt_load_def
    by (auto intro!: rk.so_rules kept_rules split: option.splits doc.splits)
  show a: "steps receipts_kept (all_receipts E)"
    unfolding all_receipts_def receipt_read_def by (intro rk.so_rules l)
  show "steps receipts_kept (queued_receipts E)"
    unfolding queued_receipts_def by (intro rk.so_rules a)
  show "steps receipts_kept (max_generation E)"
    unfolding max_generation_def by (intro rk.so_rules a)
qed

lemma prune_canon_kept [kept_rules]:
  "steps canon_kept (unlink_receipt E rid)" "steps canon_kept (prune_terminal E n)"
proof -
  show u: "steps canon_kept (unlink_receipt E rid)" for rid
    unfolding unlink_receipt_def
    by (intro ck.so_rules atomic_write_canon_kept) (simp add: canon_kept_def store_frame_def)
  have "steps canon_kept (atomic_write E (\<lambda>s. s))"
    by (rule atomic_write_canon_kept) (rule ck.R_refl)
  then show "steps canon_kept (prune_terminal E n)"
    unfolding prune_terminal_def by (intro ck.so_rules kept_rules u)
qed

lemma new_receipt_kept [kept_rules]:
  "steps canon_kept (new_receipt E rid op target h g st ext hard)"
  "steps receipts_kept (new_receipt E rid op target h g st ext hard)"
  "steps canon_kept (next_generation_for E x)" "steps receipts_kept (next_generation_for E x)"
  unfolding new_receipt_def new_runtime_id_def next_generation_for_def
  by (intro ck.so_rules rk.so_rules kept_rules)+

lemma lock_canon_kept [kept_rules]:
  "steps canon_kept require_exclusive_lock" "steps receipts_kept require_exclusive_lock"
  unfolding require_exclusive_lock_def by (intro ck.so_rules rk.so_rules)+

lemma finish_canon_kept [kept_rules]:
  "steps canon_kept (finish_request_locked E rid st res)"
  unfolding finish_request_locked_def by (intro ck.so_rules kept_rules)

lemma requeue_canon_kept [kept_rules]:
  "steps canon_kept (requeue_request_locked E rid)"
  unfolding requeue_request_locked_def by (intro ck.so_rules kept_rules)

section \<open>The canonical state only grows\<close>

definition holds_state :: "cstate \<Rightarrow> machine \<Rightarrow> bool" where
  "holds_state st s \<longleftrightarrow> m_canon s = Some (Stored st) \<and> valid_state st"

lemma canon_kept_guar:
  assumes "steps canon_kept m" "\<And>s s'. P s \<Longrightarrow> m_canon s' = m_canon s \<Longrightarrow> P s'"
  shows "guar canon_grows P m (\<lambda>_. P) (\<lambda>_ _. True)"
  by (rule guarI) (use assms steps_run in \<open>fastforce simp: canon_grows_def canon_kept_def\<close>)+

lemma holds_kept:
  "steps canon_kept m \<Longrightarrow> guar canon_grows (holds_state st) m (\<lambda>_. holds_state st) (\<lambda>_ _. True)"
  by (rule canon_kept_guar) (auto simp: holds_state_def)

lemma stamped_rev [simp]: "cs_revision (stamped st u) = cs_revision st + 1"
  by (simp add: stamped_def)

lemma canon_save_grows:
  assumes "cs_revision st = cs_revision old"
  shows "guar canon_grows (holds_state old) (canon_save E st) (\<lambda>v. holds_state v) (\<lambda>_ _. True)"
proof (rule guarI)
  fix s v t assume P: "holds_state old s" and e: "canon_save E st s = (Inr v, t)"
  from e show "canon_grows s t \<and> holds_state v t"
    by (cases rule: canon_save_cases)
      (use P assms in \<open>auto simp: canon_grows_def holds_state_def canon_loads_def canon_rev_def\<close>)
next
  fix s x t assume P: "holds_state old s" and e: "canon_save E st s = (Inl x, t)"
  from e show "canon_grows s t \<and> True"
    by (cases rule: canon_save_cases)
      (use P assms in \<open>auto simp: canon_grows_def holds_state_def canon_loads_def canon_rev_def\<close>)
qed

lemma canon_initialize_grows:
  "guar canon_grows (\<lambda>_. True) (canon_initialize E) (\<lambda>v. holds_state v) (\<lambda>_ _. True)"
proof -
  have "canon_grows s t \<and> (\<forall>v. r = Inr v \<longrightarrow> holds_state v t)" if e: "canon_initialize E s = (r, t)" for s r t
  proof -
    obtain r1 u where l: "canon_load E s = (r1, u)" by fastforce
    from l show ?thesis
    proof (cases rule: canon_load_cases)
      case (missing a)
      with e l have sv: "canon_save E (fresh_state a) u = (r, t)"
        by (simp add: canon_initialize_def bnd_def)
      have m: "m_canon u = None" "m_canon s = None" using missing by auto
      from sv show ?thesis
        by (cases rule: canon_save_cases)
          (use m in \<open>auto simp: canon_grows_def holds_state_def canon_loads_def canon_rev_def fresh_state_def\<close>)
    next
      case (found st)
      with e l show ?thesis
        by (auto simp: canon_initialize_def bnd_def canon_grows_def holds_state_def)
    next
      case (bad y)
      with e l show ?thesis by (auto simp: canon_initialize_def bnd_def canon_grows_def)
    qed
  qed
  then show ?thesis by (intro guarI) auto
qed

lemma load_state_holds:
  "guar canon_grows (\<lambda>_. True) (load_state E)
     (\<lambda>v s. holds_state v s \<or> (m_canon s = None \<and> v = fresh_state (cs_updated_at v))) (\<lambda>_ _. True)"
proof -
  have "canon_grows s t \<and> (\<forall>v. r = Inr v \<longrightarrow> holds_state v t \<or> (m_canon t = None \<and> v = fresh_state (cs_updated_at v)))"
    if e: "load_state E s = (r, t)" for s r t
  proof -
    obtain r1 u where l: "canon_load E s = (r1, u)" by fastforce
    from l show ?thesis
      by (cases rule: canon_load_cases)
        (use e l in \<open>auto simp: load_state_def bnd_def canon_grows_def holds_state_def fresh_state_def\<close>)
  qed
  then show ?thesis by (intro guarI) auto
qed

lemma apply_update_rev: "apply_update u st = Inr st' \<Longrightarrow> cs_revision st' = cs_revision st"
  by (cases u) auto

lemma apply_updates_rev: "apply_updates us st = Inr st' \<Longrightarrow> cs_revision st' = cs_revision st"
  by (induction us st rule: apply_updates.induct) (auto dest: apply_update_rev split: sum.splits)

lemma canon_save_fresh_grows:
  assumes "cs_revision st = 0"
  shows "guar canon_grows (\<lambda>s. m_canon s = None) (canon_save E st) (\<lambda>v. holds_state v) (\<lambda>_ _. True)"
proof -
  have "canon_grows s t \<and> (\<forall>v. r = Inr v \<longrightarrow> holds_state v t)"
    if m: "m_canon s = None" and e: "canon_save E st s = (r, t)" for s r t
    using e by (cases rule: canon_save_cases)
      (use m assms in \<open>auto simp: canon_grows_def holds_state_def canon_loads_def canon_rev_def\<close>)
  then show ?thesis by (intro guarI) auto
qed

lemma canon_transition_grows:
  "guar canon_grows (\<lambda>_. True) (canon_transition E ps p us)
     (\<lambda>v. holds_state v) (\<lambda>_ _. True)"
  unfolding canon_transition_def
proof (rule canon_grows.g_bnd [OF load_state_holds], rule canon_grows.g_if, goal_cases)
  case (1 v)
  show ?case by (rule canon_grows.g_raise) simp
next
  case (2 st)
  let ?P = "\<lambda>s. holds_state st s \<or> (m_canon s = None \<and> st = fresh_state (cs_updated_at st))"
  show ?case
  proof (rule canon_grows.g_bnd)
    show "guar canon_grows ?P (lift (apply_updates us (st\<lparr>cs_phase := p\<rparr>)))
        (\<lambda>v s. ?P s \<and> cs_revision v = cs_revision st) (\<lambda>_ _. True)"
      by (rule canon_grows.g_lift) (auto dest: apply_updates_rev)
    fix v
    show "guar canon_grows (\<lambda>s. ?P s \<and> cs_revision v = cs_revision st) (canon_save E v)
        (\<lambda>v. holds_state v) (\<lambda>_ _. True)"
    proof (rule guarI)
      fix s w t assume P: "?P s \<and> cs_revision v = cs_revision st" and e: "canon_save E v s = (Inr w, t)"
      show "canon_grows s t \<and> holds_state w t"
        using P guarD [OF canon_save_grows _ e] guarD [OF canon_save_fresh_grows _ e]
        by (metis cstate.select_convs(2) fresh_state_def)
    next
      fix s x t assume P: "?P s \<and> cs_revision v = cs_revision st" and e: "canon_save E v s = (Inl x, t)"
      show "canon_grows s t \<and> True"
        using P guarD_exn [OF canon_save_grows _ e] guarD_exn [OF canon_save_fresh_grows _ e]
        by (metis cstate.select_convs(2) fresh_state_def)
    qed
  qed
qed

lemma claim_grows:
  "guar canon_grows (holds_state st) (claim_queued_head E st ow rid op tg rc h) (\<lambda>_ _. True) (\<lambda>_ _. True)"
proof -
  have fin: "guar canon_grows (holds_state v) m (\<lambda>_ _. True) (\<lambda>_ _. True)" if "steps canon_kept m" for m :: "'a prog" and v
    by (rule guar_conseq [OF holds_kept [OF that]]) auto
  have cl: "guar canon_grows (holds_state st)
      (bnd (canon_save E st') (\<lambda>_. bnd (receipt_save E x) (\<lambda>c. bnd (lift (classify_existing c h)) (\<lambda>a. ret (g a)))))
      (\<lambda>_ _. True) (\<lambda>_ _. True)" if "cs_revision st' = cs_revision st" for st' x and g :: "acceptance \<Rightarrow> acceptance"
    by (rule canon_grows.g_bnd [OF canon_save_grows [OF that]], rule fin) (intro ck.so_rules kept_rules)
  have ex: "guar canon_grows (holds_state st) (expire_head E st i op tg rc h) (\<lambda>_ _. True) (\<lambda>_ _. True)" for i
    unfolding expire_head_def by (rule fin) (intro ck.so_rules kept_rules)
  show ?thesis
    unfolding claim_queued_head_def
    by (rule canon_grows.g_bnd [OF holds_kept], intro kept_rules,
        intro canon_grows.g_if canon_grows.g_raise canon_grows.g_bnd [OF holds_kept] kept_rules)
      (auto split: option.splits intro!: cl ex canon_grows.g_if)
qed

lemma kept_then_true: "steps canon_kept m \<Longrightarrow> guar canon_grows P m (\<lambda>_ _. True) (\<lambda>_ _. True)"
  by (rule guarI) (auto dest: steps_run simp: canon_kept_def canon_grows_def)

lemma accept_fresh_grows:
  "guar canon_grows (holds_state st) (accept_fresh E st rid op tg h) (\<lambda>_ _. True) (\<lambda>_ _. True)"
  unfolding accept_fresh_def
  by (intro canon_grows.g_if canon_grows.g_raise canon_grows.g_bnd [OF holds_kept] kept_rules
      canon_grows.g_bnd [OF canon_save_grows] kept_then_true ck.so_rules) auto

lemma enqueue_fresh_grows:
  "guar canon_grows (holds_state st) (enqueue_fresh E st rid op tg h ext hard) (\<lambda>_ _. True) (\<lambda>_ _. True)"
  unfolding enqueue_fresh_def
  by (intro canon_grows.g_if canon_grows.g_raise canon_grows.g_bnd [OF holds_kept] kept_rules
      canon_grows.g_bnd [OF canon_save_grows] kept_then_true ck.so_rules) auto

lemma accept_existing_grows:
  "guar canon_grows (holds_state st) (accept_existing E st rid op tg h rc c) (\<lambda>_ _. True) (\<lambda>_ _. True)"
  unfolding accept_existing_def
proof (rule canon_grows.g_bnd)
  show "guar canon_grows (holds_state st)
      (if cs_next_generation st \<le> ac_generation c
       then canon_save E (st\<lparr>cs_next_generation := ac_generation c + 1\<rparr>) else ret st)
      (\<lambda>v. holds_state v) (\<lambda>_ _. True)"
    by (intro canon_grows.g_if canon_grows.g_ret canon_save_grows) auto
next
  fix v
  show "guar canon_grows (holds_state v)
      (if rc_status rc = Allocating then
         (if (cs_request_id st = Some rid \<and> cs_phase v \<noteq> Validating) \<or>
             (cs_request_id st = None \<and> cs_phase v \<notin> {Idle, Ready})
          then raise (StateCorrupt ''allocating receipt and canonical phase'')
          else bnd (canon_save E (v\<lparr>cs_phase := Validating, cs_operation := Some op, cs_request_id := Some rid\<rparr>)) (\<lambda>_.
               bnd (receipt_save E (rc\<lparr>rc_status := Accepted\<rparr>)) (\<lambda>rc'. lift (classify_existing rc' h))))
       else if rc_status rc = Queued then claim_queued_head E v (cs_request_id st) rid op tg rc h
       else if cs_request_id st = None then
         (if cs_phase v \<in> {Idle, Ready} \<and> rc_status rc = Accepted then
           (if commit_landed v rid then raise (StateCorrupt ''accepted receipt without canonical request'')
            else bnd (requeue_request_locked E rid) (\<lambda>a.
                 claim_queued_head E v None rid op tg (ac_receipt a) h))
          else raise (StateCorrupt ''accepted receipt without canonical request''))
       else ret c) (\<lambda>_ _. True) (\<lambda>_ _. True)"
    by (intro canon_grows.g_if canon_grows.g_raise canon_grows.g_ret claim_grows
        canon_grows.g_bnd [OF canon_save_grows] kept_then_true ck.so_rules kept_rules
        canon_grows.g_bnd [OF holds_kept [OF requeue_canon_kept]]) auto
qed

lemma accept_guard_kept [kept_rules]:
  "steps canon_kept (accept_guard E st rid b)" "steps receipts_kept (accept_guard E st rid b)"
  unfolding accept_guard_def by (intro ck.so_rules rk.so_rules kept_rules)+

lemma accept_grows: "steps canon_grows (accept_request_locked E rid op tg p)"
proof -
  have "guar canon_grows (\<lambda>_. True) (accept_request_locked E rid op tg p) (\<lambda>_ _. True) (\<lambda>_ _. True)"
    unfolding accept_request_locked_def Let_def
    by (rule canon_grows.g_bnd [OF kept_then_true [OF lock_canon_kept(1)]],
        rule canon_grows.g_bnd [OF kept_then_true [OF ck.so_lift]],
        rule canon_grows.g_bnd [OF kept_then_true [OF ck.so_lift]])
      (auto split: prod.splits option.splits
        intro!: canon_grows.g_bnd [OF canon_initialize_grows] canon_grows.g_bnd [OF holds_kept]
          kept_rules ck.so_lift canon_grows.g_ret accept_fresh_grows accept_existing_grows)
  then show ?thesis by (rule guar_steps)
qed

lemma enqueue_grows: "steps canon_grows (enqueue_request_locked E rid op tg p ext hard)"
proof -
  have "guar canon_grows (\<lambda>_. True) (enqueue_request_locked E rid op tg p ext hard) (\<lambda>_ _. True) (\<lambda>_ _. True)"
    unfolding enqueue_request_locked_def Let_def
    by (rule canon_grows.g_bnd [OF kept_then_true [OF lock_canon_kept(1)]],
        rule canon_grows.g_bnd [OF kept_then_true [OF ck.so_lift]],
        rule canon_grows.g_bnd [OF kept_then_true [OF ck.so_lift]])
      (auto split: prod.splits option.splits
        intro!: canon_grows.g_bnd [OF kept_then_true [OF ck.so_lift]]
          canon_grows.g_bnd [OF canon_initialize_grows] canon_grows.g_bnd [OF holds_kept]
          kept_rules enqueue_fresh_grows kept_then_true [OF ck.so_lift])
  then show ?thesis by (rule guar_steps)
qed

lemma canon_kept_grows: "steps canon_kept m \<Longrightarrow> steps canon_grows m"
  by (erule steps_weaken) (simp add: canon_kept_def canon_grows_def)

section \<open>Receipts follow one another\<close>

abbreviation entry :: "machine \<Rightarrow> string \<Rightarrow> receipt doc option" where
  "entry s k \<equiv> map_of (m_receipts s) k"

definition same_identity :: "receipt \<Rightarrow> receipt \<Rightarrow> bool" where
  "same_identity a b \<longleftrightarrow> rc_operation b = rc_operation a \<and> rc_target b = rc_target a \<and>
     rc_payload_hash b = rc_payload_hash a \<and> rc_generation b = rc_generation a \<and>
     rc_runtime_id b = rc_runtime_id a \<and> rc_created_at b = rc_created_at a \<and>
     rc_allow_extension b = rc_allow_extension a \<and> rc_hard_deadline b = rc_hard_deadline a"

definition receipt_loads :: "env \<Rightarrow> string \<Rightarrow> receipt doc option \<Rightarrow> bool" where
  "receipt_loads E k f =
     (case f of None \<Rightarrow> True | Some Unreadable \<Rightarrow> False | Some (Stored rc) \<Rightarrow> valid_receipt E k rc)"

definition entry_follows :: "env \<Rightarrow> string \<Rightarrow> receipt doc option \<Rightarrow> receipt doc option \<Rightarrow> bool" where
  "entry_follows E k a b \<longleftrightarrow> b = a \<or>
     (receipt_loads E k a \<and> (\<exists>n. b = Some (Stored n) \<and> valid_receipt E k n \<and>
        (\<forall>old. a = Some (Stored old) \<longrightarrow> \<not> terminal (rc_status old) \<and> same_identity old n)))"

text \<open>A receipt that retention has not removed stays, appears, or moves to a new status with the
  identity it had; a terminal one never changes, and neither does one that does not load.\<close>

definition receipts_follow :: "env \<Rightarrow> machine \<Rightarrow> machine \<Rightarrow> bool" where
  "receipts_follow E s t \<longleftrightarrow> set (m_unlinked s) \<subseteq> set (m_unlinked t) \<and>
     (\<forall>k. k \<notin> set (m_unlinked t) \<longrightarrow> entry_follows E k (entry s k) (entry t k))"

lemma entry_follows_trans:
  "entry_follows E k a b \<Longrightarrow> entry_follows E k b c \<Longrightarrow> entry_follows E k a c"
  by (fastforce simp: entry_follows_def same_identity_def)

interpretation rf: step_order "receipts_follow E" for E
proof
  fix s t u
  show "receipts_follow E s s" by (simp add: receipts_follow_def entry_follows_def)
  assume "receipts_follow E s t" "receipts_follow E t u"
  then show "receipts_follow E s u"
    unfolding receipts_follow_def by (meson entry_follows_trans subset_iff)
qed

lemma receipts_kept_follow: "receipts_kept s t \<Longrightarrow> receipts_follow E s t"
  by (simp add: receipts_kept_def receipts_follow_def entry_follows_def)

lemma kept_follow: "steps receipts_kept m \<Longrightarrow> steps (receipts_follow E) m"
  by (erule steps_weaken) (rule receipts_kept_follow)

lemma valid_receipt_key:
  "validate_request_id rid = Inr k \<Longrightarrow> validate_receipt E rc rid = validate_receipt E rc k"
  using validate_request_id_idem [of rid k]
  by (cases "validate_request_id (rc_request_id rc)") (simp_all add: validate_receipt_def)

definition holds_receipt :: "env \<Rightarrow> string \<Rightarrow> receipt \<Rightarrow> machine \<Rightarrow> bool" where
  "holds_receipt E k rc s \<longleftrightarrow> entry s k = Some (Stored rc) \<and> valid_receipt E k rc"

lemma receipt_load_run:
  assumes "receipt_load E rid s = (r, t)"
  shows "t = s" and "r = Inr None \<Longrightarrow> \<exists>k. validate_request_id rid = Inr k \<and> entry s k = None"
    and "r = Inr (Some rc) \<Longrightarrow> \<exists>k. validate_request_id rid = Inr k \<and> holds_receipt E k rc s"
  using assms
  by (auto simp: receipt_load_def bnd_def holds_receipt_def valid_receipt_key
      split: sum.splits option.splits doc.splits)

lemma kept_guar:
  assumes "steps receipts_kept m" "\<And>s s'. P s \<Longrightarrow> receipts_kept s s' \<Longrightarrow> P s'"
  shows "guar (receipts_follow E) P m (\<lambda>_. P) (\<lambda>_ _. True)"
  by (rule guarI) (use assms steps_run receipts_kept_follow in fastforce)+

lemma receipt_holds_kept:
  "steps receipts_kept m \<Longrightarrow>
   guar (receipts_follow E) (holds_receipt E k rc) m (\<lambda>_. holds_receipt E k rc) (\<lambda>_ _. True)"
  by (rule kept_guar) (auto simp: holds_receipt_def receipts_kept_def)

lemma absent_kept:
  "steps receipts_kept m \<Longrightarrow>
   guar (receipts_follow E) (\<lambda>s. entry s k = None) m (\<lambda>_ s. entry s k = None) (\<lambda>_ _. True)"
  by (rule kept_guar) (auto simp: receipts_kept_def)

lemma kept_rf: "steps receipts_kept m \<Longrightarrow> guar (receipts_follow E) P m (\<lambda>_ _. True) (\<lambda>_ _. True)"
  by (rule guarI) (auto dest: steps_run receipts_kept_follow)

definition stamp_receipt :: "receipt \<Rightarrow> string \<Rightarrow> string \<Rightarrow> receipt" where
  "stamp_receipt rc k t = rc\<lparr>rc_schema := 1, rc_request_id := k, rc_updated_at := t\<rparr>"

lemma receipt_save_cases:
  assumes "receipt_save E rc s = (r, t)"
  obtains (bad_id) x where "validate_request_id (rc_request_id rc) = Inl x" "r = Inl x" "t = s"
  | (refused) k u x where "validate_request_id (rc_request_id rc) = Inr k"
      "validate_receipt E (stamp_receipt rc k u) k = Inl x" "r = Inl x" "t = s\<lparr>m_walls := m_walls s + 1\<rparr>"
  | (before) k x where "validate_request_id (rc_request_id rc) = Inr k"
      "r = Inl x" "x = Killed \<or> x = OSError ''write''"
      "t = s\<lparr>m_walls := m_walls s + 1, m_writes := m_writes s + 1\<rparr>"
  | (after) k u x where "validate_request_id (rc_request_id rc) = Inr k"
      "valid_receipt E k (stamp_receipt rc k u)" "r = Inl x" "x = Killed \<or> x = OSError ''fsync''"
      "t = s\<lparr>m_walls := m_walls s + 1, m_writes := m_writes s + 1,
         m_receipts := file_put k (Stored (stamp_receipt rc k u)) (m_receipts s)\<rparr>"
  | (saved) k u where "validate_request_id (rc_request_id rc) = Inr k"
      "valid_receipt E k (stamp_receipt rc k u)" "r = Inr (stamp_receipt rc k u)"
      "t = s\<lparr>m_walls := m_walls s + 1, m_writes := m_writes s + 1,
         m_receipts := file_put k (Stored (stamp_receipt rc k u)) (m_receipts s)\<rparr>"
proof -
  define u where "u = iso_utc (e_wall E (m_walls s))"
  show thesis
  proof (cases "validate_request_id (rc_request_id rc)")
    case (Inl x)
    then show ?thesis using bad_id assms by (auto simp: receipt_save_def bnd_def)
  next
    case k: (Inr k)
    have e: "receipt_save E rc s = bnd (lift (validate_receipt E (stamp_receipt rc k u) k))
        (\<lambda>_. bnd (atomic_write E (\<lambda>s. s\<lparr>m_receipts := file_put k (Stored (stamp_receipt rc k u)) (m_receipts s)\<rparr>))
          (\<lambda>_. ret (stamp_receipt rc k u)))
        (s\<lparr>m_walls := m_walls s + 1\<rparr>)"
      by (simp add: receipt_save_def utc_now_def wall_now_def bnd_def u_def stamp_receipt_def Let_def k)
    show ?thesis
    proof (cases "validate_receipt E (stamp_receipt rc k u) k")
      case (Inl x)
      then show ?thesis using refused [OF k] assms e by (auto simp: bnd_def)
    next
      case (Inr z)
      then show ?thesis
        using saved [of k u] after [of k u] before [of k] assms e k
        by (cases "e_fault E (m_writes s)") (auto simp: bnd_def atomic_write_def Let_def)
    qed
  qed
qed

text \<open>What may be saved over an entry.\<close>

definition may_save :: "env \<Rightarrow> receipt \<Rightarrow> machine \<Rightarrow> bool" where
  "may_save E rc s \<longleftrightarrow> (\<forall>k. validate_request_id (rc_request_id rc) = Inr k \<longrightarrow>
     receipt_loads E k (entry s k) \<and>
     (\<forall>old. entry s k = Some (Stored old) \<longrightarrow> \<not> terminal (rc_status old) \<and> same_identity old rc))"

lemma stamp_identity [simp]: "same_identity old (stamp_receipt rc k u) = same_identity old rc"
  by (simp add: same_identity_def stamp_receipt_def)

lemma stamp_receipt_simps [simp]:
  "rc_status (stamp_receipt rc k u) = rc_status rc" "rc_generation (stamp_receipt rc k u) = rc_generation rc"
  "rc_result (stamp_receipt rc k u) = rc_result rc" "rc_request_id (stamp_receipt rc k u) = k"
  by (simp_all add: stamp_receipt_def)

lemma receipt_save_follows:
  "guar (receipts_follow E) (may_save E rc) (receipt_save E rc)
     (\<lambda>v s. \<exists>k u. validate_request_id (rc_request_id rc) = Inr k \<and> v = stamp_receipt rc k u \<and> holds_receipt E k v s)
     (\<lambda>_ _. True)"
proof -
  have "receipts_follow E s t \<and> (\<forall>v. r = Inr v \<longrightarrow>
      (\<exists>k u. validate_request_id (rc_request_id rc) = Inr k \<and> v = stamp_receipt rc k u \<and> holds_receipt E k v t))"
    if P: "may_save E rc s" and e: "receipt_save E rc s = (r, t)" for s r t
    using e
  proof (cases rule: receipt_save_cases)
    case (after k u x)
    with P show ?thesis
      by (auto simp: receipts_follow_def entry_follows_def may_save_def)
  next
    case (saved k u)
    with P show ?thesis
      by (auto simp: receipts_follow_def entry_follows_def may_save_def holds_receipt_def)
  qed (auto simp: receipts_follow_def entry_follows_def)
  then show ?thesis by (intro guarI) auto
qed

lemma same_identity_refl [simp]: "same_identity rc (rc\<lparr>rc_status := st, rc_result := res\<rparr>)"
  "same_identity rc (rc\<lparr>rc_status := st\<rparr>)" "same_identity rc rc"
  by (simp_all add: same_identity_def)

lemma holds_id: "holds_receipt E k rc s \<Longrightarrow>
    \<exists>i. validate_request_id (rc_request_id rc) = Inr i \<and> validate_request_id k = Inr i"
  by (auto simp: holds_receipt_def dest: valid_receipt_id)

lemma may_save_update:
  assumes "holds_receipt E k rc s" "validate_request_id k = Inr k" "\<not> terminal (rc_status rc)"
  shows "may_save E (rc\<lparr>rc_status := st, rc_result := res\<rparr>) s" "may_save E (rc\<lparr>rc_status := st\<rparr>) s"
  using holds_id [OF assms(1)] assms
  by (auto simp: may_save_def holds_receipt_def receipt_loads_def)

lemma unlink_follows: "steps (receipts_follow E) (unlink_receipt E rid)"
  unfolding unlink_receipt_def
proof (intro rf.so_rules)
  fix k
  show "steps (receipts_follow E) (atomic_write E
      (\<lambda>s. s\<lparr>m_receipts := file_remove k (m_receipts s), m_unlinked := k # m_unlinked s\<rparr>))"
    by (auto simp: steps_def atomic_write_def Let_def receipts_follow_def entry_follows_def split: fault.splits)
qed

lemma prune_follows: "steps (receipts_follow E) (prune_terminal E n)"
proof -
  have "steps receipts_kept (atomic_write E (\<lambda>s. s))"
    by (rule atomic_write_receipts_kept) (rule rk.R_refl)
  then show ?thesis
    unfolding prune_terminal_def
    by (intro rf.so_rules unlink_follows kept_follow [OF load_receipts_kept(2)]
        kept_follow [OF canon_ops_receipts_kept(2)] kept_follow)
qed

lemma steps_rf: "steps (receipts_follow E) m \<Longrightarrow> guar (receipts_follow E) P m (\<lambda>_ _. True) (\<lambda>_ _. True)"
  by (rule guar_of_steps)

lemma prune_ret: "steps (receipts_follow E) (bnd (prune_terminal E n) (\<lambda>_. ret v))"
  by (intro rf.so_bnd rf.so_ret prune_follows)

lemma receipt_load_guar:
  "guar (receipts_follow E) (\<lambda>_. True) (receipt_load E rid)
     (\<lambda>r s. \<exists>k. validate_request_id rid = Inr k \<and>
        (case r of None \<Rightarrow> entry s k = None | Some rc \<Rightarrow> holds_receipt E k rc s)) (\<lambda>_ _. True)"
proof (rule guarI)
  fix s v t assume e: "receipt_load E rid s = (Inr v, t)"
  then show "receipts_follow E s t \<and> (\<exists>k. validate_request_id rid = Inr k \<and>
        (case v of None \<Rightarrow> entry t k = None | Some rc \<Rightarrow> holds_receipt E k rc t))"
    using receipt_load_run [OF e] by (cases v) (auto simp: rf.R_refl)
next
  fix s x t assume "receipt_load E rid s = (Inl x, t)"
  then have "t = s" by (rule receipt_load_run(1))
  then show "receipts_follow E s t \<and> True" by (simp add: rf.R_refl)
qed

lemma finish_follows: "steps (receipts_follow E) (finish_request_locked E rid st res)"
proof -
  have sv: "guar (receipts_follow E)
      (\<lambda>s. \<exists>k. validate_request_id rid = Inr k \<and> holds_receipt E k rc s)
      (receipt_save E (rc\<lparr>rc_status := st, rc_result := Some res\<rparr>)) (\<lambda>_ _. True) (\<lambda>_ _. True)"
    if "\<not> terminal (rc_status rc)" for rc
    by (rule guar_conseq [OF receipt_save_follows])
      (use that in \<open>auto intro: may_save_update dest: validate_request_id_idem\<close>)
  have "guar (receipts_follow E) (\<lambda>_. True) (finish_request_locked E rid st res) (\<lambda>_ _. True) (\<lambda>_ _. True)"
    unfolding finish_request_locked_def
    by (rule rf.g_bnd [OF kept_rf [OF lock_canon_kept(2)]], rule rf.g_if, rule rf.g_raise, simp,
        rule rf.g_bnd [OF receipt_load_guar])
      (auto split: option.splits intro!: rf.g_raise rf.g_ret rf.g_bnd [OF sv] steps_rf [OF prune_ret])
  then show ?thesis by (rule guar_steps)
qed

lemma save_held:
  assumes "validate_request_id k = Inr k" "\<not> terminal (rc_status rc)"
    "rc' = rc\<lparr>rc_status := st, rc_result := res\<rparr> \<or> rc' = rc\<lparr>rc_status := st\<rparr>"
  shows "guar (receipts_follow E) (holds_receipt E k rc) (receipt_save E rc')
    (\<lambda>v s. holds_receipt E k v s \<and> (\<exists>u. v = stamp_receipt rc' k u)) (\<lambda>_ _. True)"
proof -
  have m: "may_save E rc' s \<and> validate_request_id (rc_request_id rc') = Inr k" if "holds_receipt E k rc s" for s
    using may_save_update [OF that assms(1,2)] holds_id [OF that] assms(1,3) by auto
  show ?thesis
  proof (rule guarI)
    fix s v t assume "holds_receipt E k rc s" "receipt_save E rc' s = (Inr v, t)"
    then show "receipts_follow E s t \<and> holds_receipt E k v t \<and> (\<exists>u. v = stamp_receipt rc' k u)"
      using m guarD [OF receipt_save_follows] by (metis old.sum.inject(2))
  next
    fix s x t assume "holds_receipt E k rc s" "receipt_save E rc' s = (Inl x, t)"
    then show "receipts_follow E s t \<and> True"
      using m guarD_exn [OF receipt_save_follows] by metis
  qed
qed

lemma load_held:
  assumes "validate_request_id rid = Inr k"
  shows "guar (receipts_follow E) (holds_receipt E k rc) (receipt_load E rid)
    (\<lambda>r s. r = Some rc \<and> holds_receipt E k rc s) (\<lambda>_ _. True)"
proof -
  have "receipt_load E rid s = (Inr (Some rc), s)" if "holds_receipt E k rc s" for s
    using that assms by (simp add: holds_receipt_def receipt_load_def bnd_def valid_receipt_key [OF assms])
  then show ?thesis by (auto simp: guar_def rf.R_refl)
qed

text \<open>A name that is no request id never reaches the directory.\<close>

lemma load_known:
  assumes "\<And>k. validate_request_id rid = Inr k \<Longrightarrow> guar (receipts_follow E) (\<lambda>s. entry s k = None) (f None) Q (\<lambda>_ _. True)"
    and "\<And>k rc. validate_request_id rid = Inr k \<Longrightarrow> guar (receipts_follow E) (holds_receipt E k rc) (f (Some rc)) Q (\<lambda>_ _. True)"
  shows "guar (receipts_follow E) P (bnd (receipt_load E rid) f) Q (\<lambda>_ _. True)"
proof (rule guar_conseq [OF rf.g_bnd [OF receipt_load_guar]])
  fix r
  show "guar (receipts_follow E) (\<lambda>s. \<exists>k. validate_request_id rid = Inr k \<and>
      (case r of None \<Rightarrow> entry s k = None | Some rc \<Rightarrow> holds_receipt E k rc s)) (f r) Q (\<lambda>_ _. True)"
  proof (cases "validate_request_id rid")
    case (Inl x)
    then show ?thesis by (simp add: guar_def)
  next
    case (Inr k)
    then show ?thesis using assms by (cases r) auto
  qed
qed auto

lemma requeue_holds:
  assumes k: "validate_request_id rid = Inr k" and st: "\<not> terminal (rc_status rc)"
  shows "guar (receipts_follow E) (holds_receipt E k rc) (requeue_request_locked E rid)
       (\<lambda>a s. holds_receipt E k (ac_receipt a) s \<and> rc_status (ac_receipt a) = Queued) (\<lambda>_ _. True)"
  unfolding requeue_request_locked_def
proof (rule rf.g_bnd [OF receipt_holds_kept [OF lock_canon_kept(2)]], rule rf.g_bnd [OF load_held [OF k]])
  fix r
  have kk: "validate_request_id k = Inr k" using k by (rule validate_request_id_idem)
  show "guar (receipts_follow E) (\<lambda>s. r = Some rc \<and> holds_receipt E k rc s)
     (case r of None \<Rightarrow> raise (StateCorrupt ''no receipt to requeue'')
      | Some rc \<Rightarrow>
          if terminal (rc_status rc) \<or> rc_status rc = Queued then
            ret \<lparr>ac_request_id = rc_request_id rc, ac_generation = rc_generation rc,
              ac_status = (if rc_status rc = Queued then AcQueued else AcDone (rc_status rc)),
              ac_existing = True, ac_receipt = rc, ac_claimed = False\<rparr>
          else bnd (receipt_save E (rc\<lparr>rc_status := Queued, rc_result := None\<rparr>)) (\<lambda>saved.
            ret \<lparr>ac_request_id = rc_request_id saved, ac_generation = rc_generation saved,
              ac_status = AcQueued, ac_existing = True, ac_receipt = saved, ac_claimed = False\<rparr>))
     (\<lambda>a s. holds_receipt E k (ac_receipt a) s \<and> rc_status (ac_receipt a) = Queued) (\<lambda>_ _. True)"
  proof (cases "r = Some rc")
    case True
    show ?thesis
    proof (cases "rc_status rc = Queued")
      case q: True
      then show ?thesis using True by (auto intro!: rf.g_ret)
    next
      case q: False
      have "guar (receipts_follow E) (holds_receipt E k rc)
          (receipt_save E (rc\<lparr>rc_status := Queued, rc_result := None\<rparr>))
          (\<lambda>v s. holds_receipt E k v s \<and> rc_status v = Queued) (\<lambda>_ _. True)"
        by (rule guar_conseq [OF save_held [OF kk st]]) auto
      then show ?thesis using True q st by (auto intro!: rf.g_bnd rf.g_ret)
    qed
  qed (simp add: guar_def)
qed

lemma requeue_follows: "steps (receipts_follow E) (requeue_request_locked E rid)"
proof -
  have "guar (receipts_follow E) (\<lambda>_. True) (requeue_request_locked E rid) (\<lambda>_ _. True) (\<lambda>_ _. True)"
    unfolding requeue_request_locked_def
    by (rule rf.g_bnd [OF kept_rf [OF lock_canon_kept(2)]], rule load_known)
      (auto intro!: rf.g_raise rf.g_if rf.g_ret
        rf.g_bnd [OF guar_conseq [OF save_held], where M = "\<lambda>_ _. True"]
        dest: validate_request_id_idem)
  then show ?thesis by (rule guar_steps)
qed

lemma claim_follows:
  assumes k: "validate_request_id rid = Inr rid" and st: "\<not> terminal (rc_status rc)"
  shows "guar (receipts_follow E) (holds_receipt E rid rc) (claim_queued_head E st' ow rid op tg rc h)
    (\<lambda>_ _. True) (\<lambda>_ _. True)"
proof -
  have cl: "guar (receipts_follow E) (holds_receipt E rid rc)
      (bnd (canon_save E x) (\<lambda>_. bnd (receipt_save E (rc\<lparr>rc_status := Accepted\<rparr>)) (\<lambda>c. bnd (lift (classify_existing c h)) (\<lambda>a. ret (g a)))))
      (\<lambda>_ _. True) (\<lambda>_ _. True)" for x and g :: "acceptance \<Rightarrow> acceptance"
    by (rule rf.g_bnd [OF receipt_holds_kept [OF canon_ops_receipts_kept(3)]],
        rule rf.g_bnd [OF save_held [OF k st disjI2 [OF refl]]])
      (intro steps_rf rf.so_rules)
  have ex: "steps (receipts_follow E) (expire_head E st' i op tg rc h)" for i
    unfolding expire_head_def by (intro rf.so_rules finish_follows)
  show ?thesis
    unfolding claim_queued_head_def
    by (rule rf.g_bnd [OF receipt_holds_kept [OF load_receipts_kept(3)]],
        intro rf.g_if rf.g_raise rf.g_bnd [OF receipt_holds_kept [OF clock_receipts_kept(5)]] rf.g_option
          cl steps_rf [OF ex] TrueI)
qed

lemma save_absent:
  assumes "validate_request_id (rc_request_id rc) = Inr k"
  shows "guar (receipts_follow E) (\<lambda>s. entry s k = None) (receipt_save E rc)
    (\<lambda>v s. holds_receipt E k v s \<and> (\<exists>u. v = stamp_receipt rc k u)) (\<lambda>_ _. True)"
proof -
  have m: "may_save E rc s" if "entry s k = None" for s
    using that assms by (simp add: may_save_def receipt_loads_def)
  show ?thesis
  proof (rule guarI)
    fix s v t assume "entry s k = None" "receipt_save E rc s = (Inr v, t)"
    then show "receipts_follow E s t \<and> holds_receipt E k v t \<and> (\<exists>u. v = stamp_receipt rc k u)"
      using m assms guarD [OF receipt_save_follows] by (metis old.sum.inject(2))
  next
    fix s x t assume "entry s k = None" "receipt_save E rc s = (Inl x, t)"
    then show "receipts_follow E s t \<and> True"
      using m guarD_exn [OF receipt_save_follows] by metis
  qed
qed

lemma new_receipt_form:
  "new_receipt E rid op tg h g st ext hard s = (Inr rc, t) \<Longrightarrow>
   rc_request_id rc = rid \<and> rc_status rc = st \<and> rc_generation rc = g \<and> rc_operation rc = op \<and>
   rc_target rc = tg \<and> rc_payload_hash rc = h \<and> rc_hard_deadline rc = hard \<and> rc_allow_extension rc = ext"
  by (auto simp: new_receipt_def elim!: bnd_InrE)

lemma new_receipt_absent:
  "guar (receipts_follow E) (\<lambda>s. entry s k = None) (new_receipt E rid op tg h g st ext hard)
     (\<lambda>v s. entry s k = None \<and> rc_request_id v = rid \<and> rc_status v = st) (\<lambda>_ _. True)"
proof (rule guarI)
  fix s v t assume n: "entry s k = None" and e: "new_receipt E rid op tg h g st ext hard s = (Inr v, t)"
  show "receipts_follow E s t \<and> entry t k = None \<and> rc_request_id v = rid \<and> rc_status v = st"
    using guarD [OF absent_kept [OF new_receipt_kept(2)] n e] new_receipt_form [OF e] by simp
next
  fix s x t assume n: "entry s k = None" and e: "new_receipt E rid op tg h g st ext hard s = (Inl x, t)"
  show "receipts_follow E s t \<and> True"
    using guarD_exn [OF absent_kept [OF new_receipt_kept(2)] n e] by simp
qed

text \<open>The first save of a new receipt, and what follows it.\<close>

lemma new_then:
  assumes k: "validate_request_id rid = Inr rid"
    and f: "\<And>rc :: receipt. rc_status rc = st \<Longrightarrow> guar (receipts_follow E) (holds_receipt E rid rc) (f rc) (\<lambda>_ _. True) (\<lambda>_ _. True)"
  shows "guar (receipts_follow E) (\<lambda>s. entry s rid = None)
    (bnd (new_receipt E rid op tg h g st ext hard) (\<lambda>rc0. bnd (receipt_save E rc0) f)) (\<lambda>_ _. True) (\<lambda>_ _. True)"
proof (rule rf.g_bnd [OF new_receipt_absent])
  fix rc0
  show "guar (receipts_follow E) (\<lambda>s. entry s rid = None \<and> rc_request_id rc0 = rid \<and> rc_status rc0 = st)
      (bnd (receipt_save E rc0) f) (\<lambda>_ _. True) (\<lambda>_ _. True)"
  proof (cases "rc_request_id rc0 = rid \<and> rc_status rc0 = st")
    case True
    with k have i: "validate_request_id (rc_request_id rc0) = Inr rid" by simp
    have "guar (receipts_follow E) (\<lambda>s. entry s rid = None) (bnd (receipt_save E rc0) f) (\<lambda>_ _. True) (\<lambda>_ _. True)"
    proof (rule rf.g_bnd [OF save_absent [OF i]])
      fix v
      show "guar (receipts_follow E) (\<lambda>s. holds_receipt E rid v s \<and> (\<exists>u. v = stamp_receipt rc0 rid u)) (f v)
          (\<lambda>_ _. True) (\<lambda>_ _. True)"
      proof (cases "rc_status v = st")
        case True
        then show ?thesis by (intro guar_conseq [OF f]) auto
      next
        case False
        then have "\<not> (\<exists>u. v = stamp_receipt rc0 rid u)" using True \<open>rc_request_id rc0 = rid \<and> rc_status rc0 = st\<close> by auto
        then show ?thesis by (simp add: guar_def)
      qed
    qed
    then show ?thesis using True by simp
  qed (auto simp: guar_def)
qed

lemma accept_fresh_follows:
  assumes k: "validate_request_id rid = Inr rid"
  shows "guar (receipts_follow E) (\<lambda>s. entry s rid = None) (accept_fresh E st rid op tg h) (\<lambda>_ _. True) (\<lambda>_ _. True)"
  unfolding accept_fresh_def
proof (intro rf.g_if rf.g_raise rf.g_bnd [OF absent_kept [OF new_receipt_kept(4)]] new_then [OF k] TrueI)
  fix g and rc :: receipt
  assume "rc_status rc = Allocating"
  then have nt: "\<not> terminal (rc_status rc)" by simp
  show "guar (receipts_follow E) (holds_receipt E rid rc)
      (bnd (canon_save E (st\<lparr>cs_phase := Validating, cs_operation := Some op, cs_request_id := Some rid,
             cs_next_generation := g + 1\<rparr>)) (\<lambda>_.
       bnd (receipt_save E (rc\<lparr>rc_status := Accepted\<rparr>)) (\<lambda>rc.
       bnd (prune_terminal E 1000) (\<lambda>_.
       ret \<lparr>ac_request_id = rid, ac_generation = g, ac_status = AcAccepted, ac_existing = False,
         ac_receipt = rc, ac_claimed = False\<rparr>)))) (\<lambda>_ _. True) (\<lambda>_ _. True)"
    by (rule rf.g_bnd [OF receipt_holds_kept [OF canon_ops_receipts_kept(3)]],
        rule rf.g_bnd [OF save_held [OF k nt disjI2 [OF refl]]], rule steps_rf [OF prune_ret])
qed

lemma enqueue_fresh_follows:
  assumes k: "validate_request_id rid = Inr rid"
  shows "guar (receipts_follow E) (\<lambda>s. entry s rid = None) (enqueue_fresh E st rid op tg h ext hard) (\<lambda>_ _. True) (\<lambda>_ _. True)"
  unfolding enqueue_fresh_def
  by (intro rf.g_if rf.g_raise rf.g_bnd [OF absent_kept [OF new_receipt_kept(4)]] new_then [OF k] TrueI
      steps_rf rf.so_bnd prune_follows rf.so_ret kept_follow [OF canon_ops_receipts_kept(3)])

lemma accept_existing_follows:
  assumes k: "validate_request_id rid = Inr rid" and nt: "\<not> terminal (rc_status rc)"
  shows "guar (receipts_follow E) (holds_receipt E rid rc) (accept_existing E st rid op tg h rc c) (\<lambda>_ _. True) (\<lambda>_ _. True)"
proof -
  have c1: "guar (receipts_follow E) (holds_receipt E rid rc)
      (bnd (canon_save E x) (\<lambda>_. bnd (receipt_save E (rc\<lparr>rc_status := Accepted\<rparr>)) (\<lambda>rc'. lift (classify_existing rc' h))))
      (\<lambda>_ _. True) (\<lambda>_ _. True)" for x
    by (rule rf.g_bnd [OF receipt_holds_kept [OF canon_ops_receipts_kept(3)]],
        rule rf.g_bnd [OF save_held [OF k nt disjI2 [OF refl]]]) (intro steps_rf rf.so_rules)
  have c2: "guar (receipts_follow E) (holds_receipt E rid rc)
      (bnd (requeue_request_locked E rid) (\<lambda>a. claim_queued_head E v None rid op tg (ac_receipt a) h))
      (\<lambda>_ _. True) (\<lambda>_ _. True)" for v
  proof (rule rf.g_bnd [OF requeue_holds [OF k nt]])
    fix a
    show "guar (receipts_follow E) (\<lambda>s. holds_receipt E rid (ac_receipt a) s \<and> rc_status (ac_receipt a) = Queued)
        (claim_queued_head E v None rid op tg (ac_receipt a) h) (\<lambda>_ _. True) (\<lambda>_ _. True)"
    proof (cases "rc_status (ac_receipt a) = Queued")
      case True
      then have "\<not> terminal (rc_status (ac_receipt a))" by simp
      from claim_follows [OF k this] show ?thesis by (rule guar_conseq) auto
    qed (simp add: guar_def)
  qed
  have first: "steps receipts_kept (if cs_next_generation st \<le> ac_generation c
       then canon_save E (st\<lparr>cs_next_generation := ac_generation c + 1\<rparr>) else ret st)"
    by (intro rk.so_rules canon_ops_receipts_kept(3))
  show ?thesis
    unfolding accept_existing_def
    by (rule rf.g_bnd [OF receipt_holds_kept [OF first]])
      (intro rf.g_if rf.g_raise rf.g_ret c1 c2 claim_follows [OF k nt] TrueI)
qed

text \<open>A request id that was accepted by the validator, carried to the code after it.\<close>

lemma with_request_id:
  assumes "\<And>k. validate_request_id k = Inr k \<Longrightarrow> guar (receipts_follow E) P (f k) Q (\<lambda>_ _. True)"
  shows "guar (receipts_follow E) P (bnd (lift (validate_request_id rid)) f) Q (\<lambda>_ _. True)"
proof (cases "validate_request_id rid")
  case (Inl x)
  then show ?thesis by (simp add: guar_def bnd_def rf.R_refl)
next
  case (Inr k)
  then have "bnd (lift (validate_request_id rid)) f = f k" by (simp add: bnd_def fun_eq_iff)
  with assms [OF validate_request_id_idem [OF Inr]] show ?thesis by simp
qed

lemma accept_follows: "steps (receipts_follow E) (accept_request_locked E rid op tg p)"
proof -
  have "guar (receipts_follow E) (\<lambda>_. True) (accept_request_locked E rid op tg p) (\<lambda>_ _. True) (\<lambda>_ _. True)"
    unfolding accept_request_locked_def Let_def
    apply (rule rf.g_bnd [OF kept_rf [OF lock_canon_kept(2)]])
    apply (rule with_request_id)
    apply (rule rf.g_bnd [OF kept_rf [OF rk.so_lift]])
    apply (simp split: prod.splits)
    apply (intro allI impI)
    apply (rule rf.g_bnd [OF kept_rf [OF canon_ops_receipts_kept(4)]])
    apply (rule load_known)
     apply simp
     apply (rule rf.g_bnd [OF absent_kept [OF accept_guard_kept(2)]])
     apply (erule accept_fresh_follows)
    apply simp
    apply (rule rf.g_bnd [OF receipt_holds_kept [OF rk.so_lift]])
    apply (intro rf.g_if rf.g_ret TrueI rf.g_bnd [OF receipt_holds_kept [OF accept_guard_kept(2)]])
    apply (erule (1) accept_existing_follows)
    done
  then show ?thesis by (rule guar_steps)
qed

lemma enqueue_follows: "steps (receipts_follow E) (enqueue_request_locked E rid op tg p ext hard)"
proof -
  have "guar (receipts_follow E) (\<lambda>_. True) (enqueue_request_locked E rid op tg p ext hard) (\<lambda>_ _. True) (\<lambda>_ _. True)"
    unfolding enqueue_request_locked_def Let_def
    apply (rule rf.g_bnd [OF kept_rf [OF lock_canon_kept(2)]])
    apply (rule with_request_id)
    apply (rule rf.g_bnd [OF kept_rf [OF rk.so_lift]])
    apply (rule rf.g_prod)
    apply (rule rf.g_bnd [OF kept_rf [OF rk.so_lift]])
    apply (rule rf.g_bnd [OF kept_rf [OF canon_ops_receipts_kept(4)]])
    apply (rule load_known)
     apply (simp only: option.case sum.inject)
     apply (rule enqueue_fresh_follows, assumption)
    apply (simp only: option.case)
    apply (rule steps_rf [OF rf.so_lift])
    done
  then show ?thesis by (rule guar_steps)
qed

section \<open>The contract of the store\<close>

section \<open>Frames of the store\<close>

lemma canon_kept_frame: "steps canon_kept m \<Longrightarrow> steps store_frame m"
  by (erule steps_weaken) (simp add: canon_kept_def)

lemma receipts_kept_frame: "steps receipts_kept m \<Longrightarrow> steps store_frame m"
  by (erule steps_weaken) (simp add: receipts_kept_def)

lemma frame_reads: "steps store_frame (canon_load E)" "steps store_frame (load_state E)"
  "steps store_frame (receipt_load E rid)" "steps store_frame (all_receipts E)" "steps store_frame (queued_receipts E)"
  "steps store_frame require_exclusive_lock" "steps store_frame (utc_now E)" "steps store_frame (wall_now E)"
  "steps store_frame (wall_remaining E v)" "steps store_frame (wall_expired E v)" "steps store_frame (fresh_uuid E)"
  "steps store_frame (token_hex E)" "steps store_frame (next_generation_for E x)"
  "steps store_frame (new_receipt E rid op target h g st ext hard)"
  by (rule canon_kept_frame, rule kept_rules)+

lemma frame_writes: "steps store_frame (receipt_save E rc)" "steps store_frame (prune_terminal E n)"
  "steps store_frame (finish_request_locked E rid st res)" "steps store_frame (requeue_request_locked E rid)"
  "steps store_frame (canon_save E x)" "steps store_frame (canon_initialize E)" "steps store_frame (canon_transition E ps p us)"
  by (rule canon_kept_frame receipts_kept_frame, rule kept_rules; fail)+

lemma frame_claim: "steps store_frame (claim_queued_head E st rq rid op tg rc h)"
  unfolding claim_queued_head_def expire_head_def Let_def by (intro sfr.so_rules frame_reads frame_writes)

lemma frame_accept: "steps store_frame (accept_request_locked E rid op tg p)"
  unfolding accept_request_locked_def accept_guard_def accept_fresh_def accept_existing_def Let_def
  by (intro sfr.so_rules frame_reads frame_writes frame_claim)

lemma frame_enqueue: "steps store_frame (enqueue_request_locked E rid op tg p ext hard)"
  unfolding enqueue_request_locked_def enqueue_fresh_def Let_def by (intro sfr.so_rules frame_reads frame_writes)

lemmas frame_rules = sfr.so_rules frame_reads frame_writes frame_accept frame_enqueue

text \<open>
  What the coordinator relies on: a relation between disks which every transaction of the store
  stays in, and which does not mind what the coordinator keeps in memory.  Everything that is
  built from the transactions stays in it then, whatever other processes run in between.
\<close>

locale store_contract = step_order R for R :: "machine \<Rightarrow> machine \<Rightarrow> bool" +
  fixes E :: env
  assumes quiet: "calm s t \<Longrightarrow> R s t"
    and initialize_ok: "steps R (canon_initialize E)"
    and transition_ok: "steps R (canon_transition E ps p us)"
    and accept_ok: "steps R (accept_request_locked E rid op tg pl)"
    and enqueue_ok: "steps R (enqueue_request_locked E rid op tg pl ext hard)"
    and requeue_ok: "steps R (requeue_request_locked E rid)"
    and finish_ok: "steps R (finish_request_locked E rid st res)"
begin

lemma quiet_steps: "steps calm m \<Longrightarrow> steps R m"
  by (erule steps_weaken) (rule quiet)

lemma tx_transition: "steps R (transition E ps p us)"
  unfolding transition_def require_exclusive_lock_def
  by (intro so_rules transition_ok)

lemma other_body_ok: "steps R (other_body E o1)"
  by (cases o1) (auto simp: forget_def intro!: so_bnd so_ret initialize_ok tx_transition accept_ok
      enqueue_ok requeue_ok finish_ok)

lemma run_other_ok: "R s (run_other E o1 s)"
proof -
  have "R s (s\<lparr>m_lock := True\<rparr>)" by (rule quiet) (simp add: calm_def disk_kept_def)
  moreover have "R (s\<lparr>m_lock := True\<rparr>) (snd (other_body E o1 (s\<lparr>m_lock := True\<rparr>)))"
    by (rule stepsD [OF other_body_ok])
  moreover have "R (snd (other_body E o1 (s\<lparr>m_lock := True\<rparr>))) (run_other E o1 s)"
    by (rule quiet) (simp add: calm_def disk_kept_def run_other_def)
  ultimately show ?thesis by (blast intro: R_trans)
qed

lemma run_others_ok: "R s (run_others E s)"
proof -
  have f: "R t (foldl (\<lambda>t o1. run_other E o1 t) t os)" for t os
    by (induction os arbitrary: t) (auto intro: R_refl R_trans run_other_ok)
  have "R s (s\<lparr>m_locks := m_locks s + 1\<rparr>)" by (rule quiet) (simp add: calm_def disk_kept_def)
  with f show ?thesis unfolding run_others_def by (blast intro: R_trans)
qed

lemma acquire_ok: "steps R (acquire_lock E)"
  unfolding steps_def
proof
  fix s
  have "R s (run_others E s)" by (rule run_others_ok)
  moreover have "R (run_others E s) ((run_others E s)\<lparr>m_lock := True\<rparr>)"
    by (rule quiet) (simp add: calm_def disk_kept_def)
  ultimately show "R s (snd (acquire_lock E s))"
    by (auto simp: acquire_lock_def Let_def intro: R_refl R_trans)
qed

lemma release_ok: "steps R release_lock"
  by (rule quiet_steps) (simp add: steps_def release_lock_def calm_def disk_kept_def)

lemma releasing_ok: "steps R m \<Longrightarrow> steps R (releasing m)"
  unfolding steps_def
proof
  fix s assume m: "\<forall>s. R s (snd (m s))"
  have "R (snd (m s)) (snd (releasing m s))"
    by (rule quiet) (simp add: calm_def disk_kept_def releasing_def split: prod.splits)
  with m show "R s (snd (releasing m s))" by (blast intro: R_trans)
qed

lemma transaction_ok: "steps R m \<Longrightarrow> steps R (transaction E m)"
  unfolding transaction_def by (intro so_bnd acquire_ok releasing_ok)

lemma clocks_ok: "steps R (monotonic E)" "steps R (sleep d)" "steps R (wall_now E)" "steps R (utc_now E)"
  "steps R (utc_after E d)" "steps R (wall_expired E v)" "steps R (wall_remaining E v)"
  "steps R (fresh_uuid E)" "steps R (token_hex E)"
proof -
  have w: "steps R (wall_now E)"
    by (rule quiet_steps) (simp add: steps_def wall_now_def calm_def disk_kept_def)
  then show "steps R (wall_now E)" .
  show "steps R (monotonic E)" by (rule quiet_steps) (simp add: steps_def monotonic_def calm_def disk_kept_def Let_def)
  show "steps R (sleep d)" by (rule quiet_steps) (simp add: steps_def sleep_def calm_def disk_kept_def)
  show "steps R (fresh_uuid E)" by (rule quiet_steps) (simp add: steps_def fresh_uuid_def calm_def disk_kept_def)
  show "steps R (token_hex E)" by (rule quiet_steps) (simp add: steps_def token_hex_def calm_def disk_kept_def)
  show "steps R (utc_now E)" "steps R (utc_after E d)" "steps R (wall_expired E v)" "steps R (wall_remaining E v)"
    unfolding utc_now_def utc_after_def wall_expired_def wall_remaining_def by (intro so_rules w)+
qed

lemma reads_ok: "steps R (load_state E)" "steps R (canon_load E)" "steps R (receipt_load E rid)"
  "steps R (queued_receipts E)" "steps R (all_receipts E)"
proof -
  have c: "calm s t" if "canon_kept s t" "receipts_kept s t" for s t
    using that by (simp add: canon_kept_def receipts_kept_def calm_def disk_kept_def store_frame_def)
  have b: "steps R m" if "steps canon_kept m" "steps receipts_kept m" for m :: "'x prog"
    using that c unfolding steps_def by (blast intro: quiet)
  show "steps R (load_state E)" by (rule b [OF load_canon_kept(2) canon_ops_receipts_kept(2)])
  show "steps R (canon_load E)" by (rule b [OF load_canon_kept(1) canon_ops_receipts_kept(1)])
  show "steps R (receipt_load E rid)" by (rule b [OF receipt_ops_canon_kept(1) load_receipts_kept(1)])
  show "steps R (queued_receipts E)" by (rule b [OF receipt_ops_canon_kept(4) load_receipts_kept(3)])
  show "steps R (all_receipts E)" by (rule b [OF receipt_ops_canon_kept(3) load_receipts_kept(2)])
qed

lemma reacquire_ok: "steps R (reacquire_for_wait E d)"
proof -
  have "steps R (reacquire_loop E n d)" for n
  proof (induction n)
    case (Suc n)
    then show ?case by (simp only: reacquire_loop.simps) (intro so_rules clocks_ok acquire_ok)
  qed (simp only: reacquire_loop.simps so_raise)
  then show ?thesis unfolding reacquire_for_wait_def by (intro so_rules)
qed

lemma release_wait_ok: "steps R release_for_wait"
  unfolding release_for_wait_def require_exclusive_lock_def by (intro so_rules release_ok)

lemma classify_ok: "steps R (classify_request E rid op tg p)"
  unfolding classify_request_def by (intro so_rules reads_ok)

lemma store_api_ok:
  "steps R (store_initialize E)" "steps R (accept_request E rid op tg p)"
  "steps R (enqueue_request E rid op tg p ext hard)" "steps R (finish_request E rid st res)"
  unfolding store_initialize_def accept_request_def enqueue_request_def finish_request_def
  by (intro so_rules transaction_ok initialize_ok accept_ok enqueue_ok finish_ok reads_ok classify_ok)+

lemmas tx_rules = so_rules tx_transition initialize_ok accept_ok enqueue_ok requeue_ok finish_ok
  transaction_ok reacquire_ok release_wait_ok clocks_ok reads_ok classify_ok

end

interpretation canon_store: store_contract canon_grows E for E
proof
  show "canon_grows s t" if "calm s t" for s t
    using that by (simp add: canon_grows_def calm_def disk_kept_def)
  show "steps canon_grows (canon_initialize E)" by (rule guar_steps [OF canon_initialize_grows])
  show "steps canon_grows (canon_transition E ps p us)" for ps p us
    by (rule guar_steps [OF canon_transition_grows])
  show "steps canon_grows (accept_request_locked E rid op tg pl)" for rid op tg pl by (rule accept_grows)
  show "steps canon_grows (enqueue_request_locked E rid op tg pl ext hard)" for rid op tg pl ext hard
    by (rule enqueue_grows)
  show "steps canon_grows (requeue_request_locked E rid)" for rid
    by (rule canon_kept_grows [OF requeue_canon_kept])
  show "steps canon_grows (finish_request_locked E rid st res)" for rid st res
    by (rule canon_kept_grows [OF finish_canon_kept])
qed

interpretation receipt_store: store_contract "receipts_follow E" E for E
proof
  show "receipts_follow E s t" if "calm s t" for s t
    using that by (simp add: receipts_follow_def entry_follows_def calm_def disk_kept_def)
  show "steps (receipts_follow E) (canon_initialize E)" by (rule kept_follow [OF canon_ops_receipts_kept(4)])
  show "steps (receipts_follow E) (canon_transition E ps p us)" for ps p us
    by (rule kept_follow [OF canon_ops_receipts_kept(5)])
  show "steps (receipts_follow E) (accept_request_locked E rid op tg pl)" for rid op tg pl by (rule accept_follows)
  show "steps (receipts_follow E) (enqueue_request_locked E rid op tg pl ext hard)" for rid op tg pl ext hard
    by (rule enqueue_follows)
  show "steps (receipts_follow E) (requeue_request_locked E rid)" for rid by (rule requeue_follows)
  show "steps (receipts_follow E) (finish_request_locked E rid st res)" for rid st res by (rule finish_follows)
qed

text \<open>What happened stays recorded, and time does not go back.\<close>

definition onward :: "machine \<Rightarrow> machine \<Rightarrow> bool" where
  "onward s t \<longleftrightarrow> (\<exists>more. m_trace t = more @ m_trace s) \<and> m_now s \<le> m_now t"

interpretation ow: step_order onward
proof
  show "onward s s" for s by (simp add: onward_def)
  show "onward s u" if "onward s t" "onward t u" for s t u
    using that unfolding onward_def by (metis append_assoc order_trans)
qed

lemma frame_onward: "steps store_frame m \<Longrightarrow> steps onward m"
  by (erule steps_weaken) (simp add: store_frame_def onward_def)

interpretation memory_store: store_contract onward E for E
proof
  show "onward s t" if "calm s t" for s t using that by (simp add: onward_def calm_def)
qed (rule frame_onward, intro frame_rules)+

end
