(* ===== verification/AdapterCalls.thy ===== *)
theory AdapterCalls
  imports StoreFacts
begin

text \<open>
  The coordinator's dealings with adapters: runtime specifications, the bounded call
  (\<open>_call_adapter\<close>), the factory, the liveness probe, the policy attributes, and teardown.
  A call answers after some time; one that takes longer than it was given fails with the
  deadline error, and every call that ran is an event of the trace.
\<close>

section \<open>Specifications\<close>

text \<open>\<open>RuntimeSpec.from_runtime\<close> and \<open>runtime_state_dict\<close>.\<close>

definition spec_of_runtime :: "env \<Rightarrow> runtime \<Rightarrow> exn + spec" where
  "spec_of_runtime E r =
     (case runtime_names (rt_generation r) of
        Inl x \<Rightarrow> Inl x
      | Inr n \<Rightarrow> (case validate_runtime_id (rt_runtime_id r) of
          Inl x \<Rightarrow> Inl x
        | Inr i \<Rightarrow> (case runtime_directory (e_resolve E) (e_state_dir E) i of
            Inl x \<Rightarrow> Inl x
          | Inr d \<Rightarrow> Inr \<lparr>sp_game = rt_game r, sp_adapter = rt_adapter r, sp_generation = rt_generation r,
              sp_runtime_id = i, sp_lease_id = rt_lease_id r, sp_runtime_dir = d,
              sp_game_window = nm_game_window n, sp_agent_window = nm_agent_window n,
              sp_adapter_session = nm_adapter_session n\<rparr>)))"

definition runtime_of_spec :: "spec \<Rightarrow> string \<Rightarrow> runtime" where
  "runtime_of_spec sp started = \<lparr>rt_game = sp_game sp, rt_adapter = sp_adapter sp,
     rt_generation = sp_generation sp, rt_runtime_id = sp_runtime_id sp, rt_lease_id = sp_lease_id sp,
     rt_game_window = sp_game_window sp, rt_agent_window = sp_agent_window sp,
     rt_adapter_session = sp_adapter_session sp, rt_started_at = started\<rparr>"

text \<open>\<open>_candidate_spec\<close>: the identity the receipt reserved, with a new lease.\<close>

definition candidate_spec :: "env \<Rightarrow> receipt \<Rightarrow> string \<Rightarrow> spec prog" where
  "candidate_spec E rc target =
     bnd (lift (runtime_names (rc_generation rc))) (\<lambda>n.
     bnd (fresh_uuid E) (\<lambda>l.
     bnd (lift (runtime_directory (e_resolve E) (e_state_dir E) (rc_runtime_id rc))) (\<lambda>d.
     ret \<lparr>sp_game = target, sp_adapter = [], sp_generation = rc_generation rc,
       sp_runtime_id = rc_runtime_id rc, sp_lease_id = Some l, sp_runtime_dir = d,
       sp_game_window = nm_game_window n, sp_agent_window = nm_agent_window n,
       sp_adapter_session = nm_adapter_session n\<rparr>)))"

text \<open>\<open>_failure_code\<close>.\<close>

definition failure_code :: "exn \<Rightarrow> string \<Rightarrow> string" where
  "failure_code x fallback =
     (if is_ReadinessTimeout x then ''readiness_timeout''
      else if is_DeadlineExceeded x then ''timeout'' else fallback)"

section \<open>Bounded calls\<close>

definition check_deadline :: "env \<Rightarrow> int \<Rightarrow> unit prog" where
  "check_deadline E deadline = bnd (monotonic E) (\<lambda>t.
     unless (t < deadline) (DeadlineExceeded ''request deadline''))"

text \<open>The worker thread is joined for what remains of the step's time, then cancelled and joined
  for the grace period; a late answer is dropped.\<close>

definition bounded_call :: "env \<Rightarrow> (nat \<Rightarrow> nat \<times> (exn + 'v)) \<Rightarrow> (exn + 'v \<Rightarrow> event list) \<Rightarrow> int \<Rightarrow> int \<Rightarrow> 'v prog" where
  "bounded_call E ask log deadline timeout = bnd (monotonic E) (\<lambda>t.
     let remaining = min (deadline - t) timeout in
     if remaining \<le> 0 then raise (DeadlineExceeded ''adapter deadline'')
     else (\<lambda>s. case ask (m_calls s) of (took, answer) \<Rightarrow>
       let res = (if int took \<le> remaining then answer
             else if int took \<le> remaining + e_cancel_grace E then Inl (DeadlineExceeded ''adapter timeout'')
             else Inl (DeadlineExceeded ''adapter timeout, cancel ignored''));
           spent = min (int took) (remaining + max 0 (e_cancel_grace E))
       in (res, s\<lparr>m_calls := m_calls s + 1, m_now := m_now s + spent, m_trace := log res @ m_trace s\<rparr>)))"

definition call_adapter :: "env \<Rightarrow> step \<Rightarrow> adapter \<Rightarrow> int \<Rightarrow> int \<Rightarrow> pyval prog" where
  "call_adapter E st ad deadline timeout =
     bounded_call E (\<lambda>i. e_call E i st ad) (\<lambda>r. [Event st (ad_runtime_id ad) r]) deadline timeout"

text \<open>\<open>_probe_alive\<close>: \<open>None\<close> when the probe itself failed.\<close>

definition probe_alive :: "env \<Rightarrow> adapter \<Rightarrow> int \<Rightarrow> bool option prog" where
  "probe_alive E ad deadline =
     bnd (attempt is_Exception (call_adapter E SAlive ad deadline (e_t_probe E))) (\<lambda>r. case r of
       Inl x \<Rightarrow> ret None
     | Inr v \<Rightarrow> ret (Some (py_truth v)))"

definition make_adapter :: "env \<Rightarrow> spec \<Rightarrow> int \<Rightarrow> adapter prog" where
  "make_adapter E sp deadline =
     bnd (bounded_call E (\<lambda>i. e_make E i sp) (\<lambda>r. []) deadline (e_t_start E)) (\<lambda>m. case m of
       NotAnAdapter \<Rightarrow> raise (GameSwitchError ''factory returned no adapter'')
     | Made ad \<Rightarrow>
         if ad_name ad = [] then raise (GameSwitchError ''adapter without name'')
         else if sp_adapter sp \<noteq> [] \<and> ad_name ad \<noteq> sp_adapter sp
           then raise (GameSwitchError ''adapter kind mismatch'')
         else ret (ad\<lparr>ad_runtime_id := sp_runtime_id sp, ad_generation := sp_generation sp\<rparr>))"

definition adapter_for :: "env \<Rightarrow> runtime \<Rightarrow> int \<Rightarrow> adapter prog" where
  "adapter_for E r deadline = bnd (lift (spec_of_runtime E r)) (\<lambda>sp. make_adapter E sp deadline)"

section \<open>Policy attributes\<close>

definition round_boundary_required :: "adapter \<Rightarrow> exn + bool" where
  "round_boundary_required ad =
     (case ad_requires_boundary ad of
        AttrAbsent \<Rightarrow> Inr False
      | AttrBool b \<Rightarrow> Inr b
      | _ \<Rightarrow> Inl (GameSwitchError ''requires_round_boundary must be bool''))"

definition seconds_attr :: "attr \<Rightarrow> exn + int option" where
  "seconds_attr a =
     (case a of
        AttrAbsent \<Rightarrow> Inr None
      | AttrNone \<Rightarrow> Inr None
      | AttrNumber v \<Rightarrow> if 0 < v then Inr (Some v) else Inl (GameSwitchError ''seconds must be positive'')
      | _ \<Rightarrow> Inl (GameSwitchError ''seconds must be a number''))"

definition boundary_timeout_override :: "adapter \<Rightarrow> exn + int option" where
  "boundary_timeout_override ad = seconds_attr (ad_boundary_timeout ad)"

definition materialize_timeout :: "env \<Rightarrow> adapter \<Rightarrow> exn + int" where
  "materialize_timeout E ad =
     (case seconds_attr (ad_materialize_timeout ad) of
        Inl x \<Rightarrow> Inl x
      | Inr None \<Rightarrow> Inr (e_t_start E)
      | Inr (Some v) \<Rightarrow> Inr v)"

section \<open>Stopping a runtime\<close>

text \<open>\<open>_wait_stopped\<close> polls until the limit and probes once more; the rounds the fuel allows are
  what the budget and the poll interval allow.\<close>

fun wait_loop :: "env \<Rightarrow> nat \<Rightarrow> adapter \<Rightarrow> int \<Rightarrow> int \<Rightarrow> bool prog" where
  "wait_loop E 0 ad limit deadline = raise (BaseExn ''out of fuel'')"
| "wait_loop E (Suc n) ad limit deadline = bnd (monotonic E) (\<lambda>t.
     if limit \<le> t then bnd (probe_alive E ad deadline) (\<lambda>a. ret (a = Some False))
     else bnd (probe_alive E ad deadline) (\<lambda>a.
       if a = Some False then ret True
       else bnd (sleep (e_poll E)) (\<lambda>_. wait_loop E n ad limit deadline)))"

definition wait_stopped :: "env \<Rightarrow> adapter \<Rightarrow> int \<Rightarrow> bool prog" where
  "wait_stopped E ad deadline = bnd (monotonic E) (\<lambda>t.
     wait_loop E (poll_rounds E (e_quiesce_verify E)) ad (min deadline (t + e_quiesce_verify E)) deadline)"

definition confirmed_dead :: "env \<Rightarrow> adapter \<Rightarrow> int \<Rightarrow> bool prog" where
  "confirmed_dead E ad deadline = bnd (probe_alive E ad deadline) (\<lambda>a. ret (a = Some False))"

definition stop_and_clean :: "env \<Rightarrow> adapter \<Rightarrow> int \<Rightarrow> unit prog" where
  "stop_and_clean E ad deadline =
     bnd (call_adapter E SStopAgent ad deadline (e_t_stop_agent E)) (\<lambda>_.
     bnd (call_adapter E SCleanup ad deadline (e_t_cleanup E)) (\<lambda>_. ret ()))"

definition teardown_runtime :: "env \<Rightarrow> adapter \<Rightarrow> int \<Rightarrow> bool prog" where
  "teardown_runtime E ad deadline =
     bnd (attempt is_Exception (bnd (stop_and_clean E ad deadline) (\<lambda>_. wait_stopped E ad deadline))) (\<lambda>r. case r of
       Inl x \<Rightarrow> ret False
     | Inr b \<Rightarrow> ret b)"

text \<open>\<open>try: ... _make_adapter(...); _teardown_runtime(...) except Exception: False\<close>.\<close>

definition try_teardown :: "env \<Rightarrow> runtime \<Rightarrow> int \<Rightarrow> bool prog" where
  "try_teardown E r deadline =
     bnd (attempt is_Exception (bnd (adapter_for E r deadline) (\<lambda>ad. teardown_runtime E ad deadline))) (\<lambda>res. case res of
       Inl x \<Rightarrow> ret False
     | Inr b \<Rightarrow> ret b)"

section \<open>The contract\<close>

text \<open>Calls are in memory: they leave the disk alone, whatever the adapter answers.\<close>

lemma bounded_call_disk: "steps disk_kept (bounded_call E ask log deadline timeout)"
  unfolding bounded_call_def Let_def
proof (intro dk.so_bnd)
  show "steps disk_kept (monotonic E)" by (simp add: steps_def monotonic_def disk_kept_def Let_def)
  fix t
  show "steps disk_kept (if min (deadline - t) timeout \<le> 0 then raise (DeadlineExceeded ''adapter deadline'')
      else (\<lambda>s. case ask (m_calls s) of (took, answer) \<Rightarrow>
        ((if int took \<le> min (deadline - t) timeout then answer
             else if int took \<le> min (deadline - t) timeout + e_cancel_grace E then Inl (DeadlineExceeded ''adapter timeout'')
             else Inl (DeadlineExceeded ''adapter timeout, cancel ignored'')),
          s\<lparr>m_calls := m_calls s + 1,
            m_now := m_now s + min (int took) (min (deadline - t) timeout + max 0 (e_cancel_grace E)),
            m_trace := log (if int took \<le> min (deadline - t) timeout then answer
             else if int took \<le> min (deadline - t) timeout + e_cancel_grace E then Inl (DeadlineExceeded ''adapter timeout'')
             else Inl (DeadlineExceeded ''adapter timeout, cancel ignored'')) @ m_trace s\<rparr>)))"
    by (intro dk.so_if dk.so_raise) (simp add: steps_def disk_kept_def split: prod.split)
qed

text \<open>The coordinator's part of the interface: besides the store's transactions it calls adapters.\<close>

locale coordinator_contract = store_contract R E for R E +
  assumes call_ok: "steps R (call_adapter E st ad d t)"
    and factory_ok: "steps R (bounded_call E (\<lambda>i. e_make E i sp) (\<lambda>r. []) d t)"
begin

lemma probe_ok: "steps R (probe_alive E ad d)"
  unfolding probe_alive_def by (intro so_rules call_ok)

lemma so_made:
  "steps R m \<Longrightarrow> (\<And>ad. steps R (f ad)) \<Longrightarrow> steps R (case x of NotAnAdapter \<Rightarrow> m | Made ad \<Rightarrow> f ad)"
  by (cases x) auto

lemma make_ok: "steps R (make_adapter E sp d)"
  unfolding make_adapter_def by (intro so_rules so_made factory_ok)

lemma adapter_for_ok: "steps R (adapter_for E r d)"
  unfolding adapter_for_def by (intro so_rules make_ok)

lemma check_deadline_ok: "steps R (check_deadline E d)"
  unfolding check_deadline_def by (intro so_rules clocks_ok)

lemma candidate_spec_ok: "steps R (candidate_spec E rc tg)"
  unfolding candidate_spec_def by (intro so_rules clocks_ok)

lemma wait_ok: "steps R (wait_stopped E ad d)"
proof -
  have "steps R (wait_loop E n ad l d)" for n l
  proof (induction n)
    case (Suc n)
    then show ?case by (simp only: wait_loop.simps) (intro so_rules clocks_ok probe_ok)
  qed (simp only: wait_loop.simps so_raise)
  then show ?thesis unfolding wait_stopped_def by (intro so_rules clocks_ok)
qed

lemma stop_and_clean_ok: "steps R (stop_and_clean E ad d)"
  unfolding stop_and_clean_def by (intro so_rules call_ok)

lemma teardown_ok: "steps R (teardown_runtime E ad d)"
  unfolding teardown_runtime_def by (intro so_rules stop_and_clean_ok wait_ok)

lemma try_teardown_ok: "steps R (try_teardown E r d)"
  unfolding try_teardown_def by (intro so_rules adapter_for_ok teardown_ok)

lemma confirmed_dead_ok: "steps R (confirmed_dead E ad d)"
  unfolding confirmed_dead_def by (intro so_rules probe_ok)

lemmas call_rules = tx_rules call_ok probe_ok make_ok adapter_for_ok check_deadline_ok
  candidate_spec_ok wait_ok stop_and_clean_ok teardown_ok try_teardown_ok confirmed_dead_ok

end

lemma bounded_onward: "steps onward (bounded_call E ask log deadline timeout)"
  unfolding bounded_call_def Let_def
proof (intro ow.so_bnd memory_store.clocks_ok)
  fix t
  show "steps onward (if min (deadline - t) timeout \<le> 0 then raise (DeadlineExceeded ''adapter deadline'')
      else (\<lambda>s. case ask (m_calls s) of (took, answer) \<Rightarrow>
        ((if int took \<le> min (deadline - t) timeout then answer
             else if int took \<le> min (deadline - t) timeout + e_cancel_grace E then Inl (DeadlineExceeded ''adapter timeout'')
             else Inl (DeadlineExceeded ''adapter timeout, cancel ignored'')),
          s\<lparr>m_calls := m_calls s + 1,
            m_now := m_now s + min (int took) (min (deadline - t) timeout + max 0 (e_cancel_grace E)),
            m_trace := log (if int took \<le> min (deadline - t) timeout then answer
             else if int took \<le> min (deadline - t) timeout + e_cancel_grace E then Inl (DeadlineExceeded ''adapter timeout'')
             else Inl (DeadlineExceeded ''adapter timeout, cancel ignored'')) @ m_trace s\<rparr>)))"
    by (cases "min (deadline - t) timeout \<le> 0") (auto simp: steps_def onward_def split: prod.split)
qed

interpretation canon: coordinator_contract canon_grows E for E
  by unfold_locales (unfold call_adapter_def, (rule steps_weaken [OF bounded_call_disk], simp add: canon_grows_def disk_kept_def)+)

interpretation receipts: coordinator_contract "receipts_follow E" E for E
  by unfold_locales (unfold call_adapter_def,
      (rule steps_weaken [OF bounded_call_disk], simp add: receipts_follow_def entry_follows_def disk_kept_def)+)

interpretation memory: coordinator_contract onward E for E
  by unfold_locales (unfold call_adapter_def, (rule bounded_onward)+)

end
