(* ===== verification/Housekeeping.thy ===== *)
theory Housekeeping
  imports AdapterCalls
begin

text \<open>
  Results of the coordinator and the work after a terminal write: the mirror file, the teardown
  of retiring runtimes with their commit proofs (\<open>_finalize_locked\<close>), receipts left behind by a
  crash, and the failure exit \<open>_fail_locked\<close>.  Lists of warnings are passed and returned where
  the code appends to a list.
\<close>

section \<open>Results\<close>

datatype result_doc = NoDoc | ReceiptDoc receipt | OutcomeDoc outcome

record switch_result =
  sr_request_id :: string
  sr_operation :: string
  sr_status :: string
  sr_target :: "string option"
  sr_from_game :: "string option"
  sr_to_game :: "string option"
  sr_generation :: "int option"
  sr_error_code :: "string option"
  sr_detail :: "string option"
  sr_warnings :: "string list"
  sr_cleanup_pending :: bool
  sr_receipt :: result_doc

definition plain_result :: "string \<Rightarrow> string \<Rightarrow> string \<Rightarrow> switch_result" where
  "plain_result rid op st = \<lparr>sr_request_id = rid, sr_operation = op, sr_status = st, sr_target = None,
     sr_from_game = None, sr_to_game = None, sr_generation = None, sr_error_code = None,
     sr_detail = None, sr_warnings = [], sr_cleanup_pending = False, sr_receipt = NoDoc\<rparr>"

text \<open>\<open>_result_from_receipt\<close> of a receipt, and of the \<open>last_result\<close> a recovery passes instead.\<close>

definition result_from_receipt :: "receipt \<Rightarrow> string list \<Rightarrow> bool \<Rightarrow> switch_result" where
  "result_from_receipt rc warns pending =
     \<lparr>sr_request_id = rc_request_id rc, sr_operation = op_str (rc_operation rc),
      sr_status = status_str (rc_status rc), sr_target = rc_target rc,
      sr_from_game = (case rc_result rc of None \<Rightarrow> None | Some r \<Rightarrow> oc_from_game r),
      sr_to_game = (case rc_result rc of None \<Rightarrow> None | Some r \<Rightarrow> oc_to_game r),
      sr_generation = Some (rc_generation rc),
      sr_error_code = (case rc_result rc of None \<Rightarrow> None | Some r \<Rightarrow> oc_error_code r),
      sr_detail = (case rc_result rc of None \<Rightarrow> None | Some r \<Rightarrow> oc_detail r),
      sr_warnings = warns,
      sr_cleanup_pending = (pending \<or> (case rc_result rc of None \<Rightarrow> False | Some r \<Rightarrow> oc_cleanup_pending r = Some True)),
      sr_receipt = ReceiptDoc rc\<rparr>"

definition result_from_outcome :: "outcome \<Rightarrow> string list \<Rightarrow> bool \<Rightarrow> switch_result" where
  "result_from_outcome oc warns pending =
     \<lparr>sr_request_id = oc_request_id oc, sr_operation = op_str (oc_operation oc),
      sr_status = status_str (oc_status oc), sr_target = None, sr_from_game = None, sr_to_game = None,
      sr_generation = oc_generation oc, sr_error_code = oc_error_code oc, sr_detail = oc_detail oc,
      sr_warnings = warns, sr_cleanup_pending = pending, sr_receipt = OutcomeDoc oc\<rparr>"

definition result_from_doc :: "result_doc \<Rightarrow> string list \<Rightarrow> bool \<Rightarrow> switch_result" where
  "result_from_doc d warns pending =
     (case d of
        NoDoc \<Rightarrow> plain_result [] [] []
      | ReceiptDoc rc \<Rightarrow> result_from_receipt rc warns pending
      | OutcomeDoc oc \<Rightarrow> result_from_outcome oc warns pending)"

definition queued_result :: "receipt \<Rightarrow> cstate option \<Rightarrow> switch_result" where
  "queued_result rc st = (plain_result (rc_request_id rc) (op_str (rc_operation rc)) ''queued'')
     \<lparr>sr_target := rc_target rc, sr_from_game := (case st of None \<Rightarrow> None | Some x \<Rightarrow> game_of (cs_active x)),
      sr_to_game := rc_target rc, sr_generation := Some (rc_generation rc),
      sr_error_code := Some ''queued'', sr_detail := Some ''waiting in the queue'',
      sr_receipt := ReceiptDoc rc\<rparr>"

section \<open>Mirror, markers, hooks\<close>

definition write_mirror :: "env \<Rightarrow> string option \<Rightarrow> unit prog" where
  "write_mirror E g = atomic_write E (\<lambda>s. s\<lparr>m_mirror := g\<rparr>)"

definition mirror_or_warn :: "env \<Rightarrow> string option \<Rightarrow> string list \<Rightarrow> string list prog" where
  "mirror_or_warn E g warns = bnd (attempt is_Exception (write_mirror E g)) (\<lambda>r. case r of
       Inl x \<Rightarrow> ret (warns @ [''mirror: '' @ safe_detail x])
     | Inr u \<Rightarrow> ret warns)"

definition repair_mirror :: "env \<Rightarrow> string list \<Rightarrow> string list prog" where
  "repair_mirror E warns = bnd (load_state E) (\<lambda>st. mirror_or_warn E (game_of (cs_active st)) warns)"

text \<open>\<open>_write_retire_marker\<close>: the marker of a runtime whose teardown was confirmed.\<close>

definition write_retire_marker :: "env \<Rightarrow> string \<Rightarrow> string list \<Rightarrow> string list prog" where
  "write_retire_marker E rid warns =
     bnd (attempt is_Exception
       (if matches_runtime_id rid then atomic_write E (\<lambda>s. s\<lparr>m_markers := rid # m_markers s\<rparr>)
        else raise (ValueError ''invalid_runtime_id''))) (\<lambda>r. case r of
       Inl x \<Rightarrow> ret (warns @ [''retire marker: '' @ safe_detail x])
     | Inr u \<Rightarrow> ret warns)"

text \<open>\<open>_emit_post_commit\<close>: whatever the hook does, the committed switch is not failed.\<close>

definition announce :: "string \<Rightarrow> unit prog" where
  "announce game = alter (\<lambda>s. s\<lparr>m_announced := game # m_announced s\<rparr>)"

section \<open>Retiring runtimes\<close>

definition settle_retirement :: "env \<Rightarrow> retired \<Rightarrow> unit prog" where
  "settle_retirement E rt =
     (case rd_retirement rt of
        None \<Rightarrow> ret ()
      | Some p \<Rightarrow> bnd (receipt_load E (oc_request_id p)) (\<lambda>original.
          bnd (lift (committed_retirement_result rt original False)) (\<lambda>res.
          case (original, res) of
            (Some rc, Some r) \<Rightarrow>
              if rc_status rc = Accepted
              then bnd (finish_request_locked E (rc_request_id rc) Succeeded r) (\<lambda>_. ret ()) else ret ()
          | _ \<Rightarrow> ret ())))"

definition retire_one :: "env \<Rightarrow> int \<Rightarrow> retired \<Rightarrow> bool prog" where
  "retire_one E deadline rt =
     bnd (attempt is_Exception
       (bnd (settle_retirement E rt) (\<lambda>_.
        bnd (adapter_for E (as_runtime rt) deadline) (\<lambda>ad. teardown_runtime E ad deadline)))) (\<lambda>r. case r of
       Inl x \<Rightarrow> ret False
     | Inr b \<Rightarrow> ret b)"

fun retire_all :: "env \<Rightarrow> int \<Rightarrow> retired list \<Rightarrow> string list \<Rightarrow> (retired list \<times> string list) prog" where
  "retire_all E deadline [] warns = ret ([], warns)"
| "retire_all E deadline (rt # rts) warns = bnd (retire_one E deadline rt) (\<lambda>torn.
     if torn then bnd (write_retire_marker E (rt_runtime_id rt) warns) (\<lambda>w. retire_all E deadline rts w)
     else bnd (retire_all E deadline rts (warns @ [''retiring runtime not stopped''])) (\<lambda>(rest, w).
          ret (rt # rest, w)))"

definition finalize_locked :: "env \<Rightarrow> int \<Rightarrow> string list \<Rightarrow> (bool \<times> string list) prog" where
  "finalize_locked E deadline warns = bnd (load_state E) (\<lambda>st.
     bnd (mirror_or_warn E (game_of (cs_active st)) warns) (\<lambda>w1.
     bnd (retire_all E deadline (cs_retiring st) w1) (\<lambda>(remaining, w2).
     bnd (if length remaining \<noteq> length (cs_retiring st)
          then bnd (transition E [cs_phase st] (cs_phase st) [SetRetiring remaining]) (\<lambda>_. ret ()) else ret ()) (\<lambda>_.
     ret (remaining \<noteq> [], w2)))))"

definition retry_retiring :: "env \<Rightarrow> int \<Rightarrow> string list \<Rightarrow> (bool \<times> string list) prog" where
  "retry_retiring E deadline warns = bnd (load_state E) (\<lambda>st.
     if cs_retiring st = [] then ret (False, warns)
     else bnd (finalize_locked E deadline warns) (\<lambda>(pending, w).
          bnd (load_state E) (\<lambda>st'. ret (pending \<or> cs_retiring st' \<noteq> [], w))))"

section \<open>Receipts left behind by a crash\<close>

definition finish_recovering_receipt :: "env \<Rightarrow> string \<Rightarrow> status \<Rightarrow> outcome \<Rightarrow> unit prog" where
  "finish_recovering_receipt E rid st res = bnd (receipt_load E rid) (\<lambda>r. case r of
       None \<Rightarrow> ret ()
     | Some rc \<Rightarrow> if terminal (rc_status rc) then ret ()
         else bnd (finish_request_locked E rid st res) (\<lambda>_. ret ()))"

definition reconcile_dangling :: "env \<Rightarrow> unit prog" where
  "reconcile_dangling E = bnd (load_state E) (\<lambda>st. case cs_last_result st of
       None \<Rightarrow> ret ()
     | Some l \<Rightarrow>
         if oc_source_runtime l \<noteq> None then ret ()
         else if \<not> terminal (oc_status l) then ret ()
         else if oc_request_id l = [] then ret ()
         else finish_recovering_receipt E (oc_request_id l) (oc_status l) l)"

section \<open>Failing a request\<close>

definition fail_locked :: "env \<Rightarrow> acceptance \<Rightarrow> int \<Rightarrow> string \<Rightarrow> string \<Rightarrow> string list \<Rightarrow> bool \<Rightarrow> bool \<Rightarrow> bool \<Rightarrow>
    switch_result prog" where
  "fail_locked E ac deadline code detail warns pending keep_previous keep_active =
     bnd (load_state E) (\<lambda>st.
     let last = (new_outcome (ac_request_id ac) (rc_operation (ac_receipt ac)) Failed)
           \<lparr>oc_from_game := game_of (cs_active st), oc_to_game := rc_target (ac_receipt ac),
            oc_generation := Some (ac_generation ac), oc_error_code := Some code, oc_detail := Some detail,
            oc_cleanup_pending := (if pending then Some True else None)\<rparr>
     in bnd (transition E in_progress_phases FailedPhase
           [SetActive (if keep_active then cs_active st else None), SetCandidate (cs_candidate st),
            SetPrevious (if keep_previous then cs_previous st else None), SetOperation None, SetRequestId None,
            SetDeadline None, SetLastResult (Some last), SetLastError (Some (code, detail))]) (\<lambda>_.
        bnd (finish_request_locked E (ac_request_id ac) Failed last) (\<lambda>rc.
        bnd (finalize_locked E deadline warns) (\<lambda>(fin, w).
        ret (result_from_receipt rc w (fin \<or> pending))))))"

section \<open>The contract\<close>

lemma quiet_write:
  assumes "\<And>s. calm s (f s)"
  shows "steps calm (atomic_write E f)"
  unfolding steps_def
proof
  fix s
  have "calm (s\<lparr>m_writes := m_writes s + 1\<rparr>) (f (s\<lparr>m_writes := m_writes s + 1\<rparr>))" by (rule assms)
  then show "calm s (snd (atomic_write E f s))"
    by (auto simp: atomic_write_def Let_def calm_def disk_kept_def split: fault.splits)
qed

context coordinator_contract
begin

lemma mirror_ok: "steps R (write_mirror E g)" "steps R (mirror_or_warn E g w)" "steps R (repair_mirror E w)"
proof -
  show m: "steps R (write_mirror E g)" for g
    unfolding write_mirror_def by (rule quiet_steps, rule quiet_write) (simp add: calm_def disk_kept_def)
  show mw: "steps R (mirror_or_warn E g w)" for g w
    unfolding mirror_or_warn_def by (intro so_rules m)
  show "steps R (repair_mirror E w)"
    unfolding repair_mirror_def by (intro so_rules mw reads_ok)
qed

lemma marker_ok: "steps R (write_retire_marker E i w)"
  unfolding write_retire_marker_def
  by (intro so_rules quiet_steps quiet_write) (simp add: calm_def disk_kept_def)

lemma announce_ok: "steps R (announce g)"
  by (rule quiet_steps) (simp add: steps_def announce_def calm_def disk_kept_def)

lemma settle_ok: "steps R (settle_retirement E rt)"
  unfolding settle_retirement_def by (intro tx_rules)

lemma retire_one_ok: "steps R (retire_one E d rt)"
  unfolding retire_one_def by (intro so_rules settle_ok adapter_for_ok teardown_ok)

lemma retire_all_ok: "steps R (retire_all E d rts w)"
proof (induction rts arbitrary: w)
  case Nil
  then show ?case by (simp only: retire_all.simps so_ret)
next
  case (Cons rt rts)
  then show ?case by (simp only: retire_all.simps) (intro so_rules retire_one_ok marker_ok)
qed

lemma finalize_ok: "steps R (finalize_locked E d w)"
  unfolding finalize_locked_def by (intro tx_rules mirror_ok retire_all_ok)

lemma retry_ok: "steps R (retry_retiring E d w)"
  unfolding retry_retiring_def by (intro tx_rules finalize_ok)

lemma finish_recovering_ok: "steps R (finish_recovering_receipt E rid st res)"
  unfolding finish_recovering_receipt_def by (intro tx_rules)

lemma reconcile_ok: "steps R (reconcile_dangling E)"
  unfolding reconcile_dangling_def by (intro tx_rules finish_recovering_ok)

lemma fail_ok: "steps R (fail_locked E ac d code det w p kp ka)"
  unfolding fail_locked_def by (intro tx_rules finalize_ok)

lemmas house_rules = call_rules mirror_ok marker_ok announce_ok settle_ok retire_one_ok retire_all_ok
  finalize_ok retry_ok finish_recovering_ok reconcile_ok fail_ok

end

end
