(* ===== verification/Rollback.thy ===== *)
theory Rollback
  imports Housekeeping
begin

text \<open>
  Undoing a switch: \<open>_rollback_locked\<close> stops the candidate and restores the game that ran before
  (\<open>_restore_previous_locked\<close>), by a new lease when its runtime is still alive and as a fresh
  generation when it is not.
\<close>

section \<open>Restoring the previous runtime\<close>

text \<open>The result of a restore: the terminal document, or nothing when it failed; the warnings; and
  what the code appends to \<open>cleanup_pending_out\<close>.\<close>

type_synonym restored = "result_doc option \<times> string list \<times> bool list"

record restore_request =
  rr_request_id :: string
  rr_operation :: operation
  rr_target :: "string option"
  rr_generation :: int
  rr_previous :: runtime
  rr_deadline :: int
  rr_finish_receipt :: bool
  rr_error_code :: string
  rr_detail :: string

definition call_readiness :: "env \<Rightarrow> adapter \<Rightarrow> int \<Rightarrow> unit prog" where
  "call_readiness E ad deadline = bnd (monotonic E) (\<lambda>t.
     bnd (call_adapter E SReadiness ad deadline (max (deadline - t) 0)) (\<lambda>_. ret ()))"

definition start_agent_if :: "env \<Rightarrow> adapter \<Rightarrow> int \<Rightarrow> unit prog" where
  "start_agent_if E ad deadline =
     (if ad_agent_enabled ad
      then bnd (call_adapter E SStartAgent ad deadline (e_t_agent_start E)) (\<lambda>_. ret ()) else ret ())"

text \<open>The proof that only the shared singleton is still running, which one adapter kind can give.\<close>

definition live_singleton_proof :: "env \<Rightarrow> cstate \<Rightarrow> runtime \<Rightarrow> int \<Rightarrow> adapter option prog" where
  "live_singleton_proof E st previous deadline =
     (if cs_candidate st = None \<and> cs_retiring st \<noteq> [] \<and> rt_adapter previous = ''soren'' then
        bnd (attempt is_Exception (bnd (adapter_for E previous deadline) (\<lambda>ad.
           if ad_live_singleton ad = Callable then
             bnd (call_adapter E SSingleton ad deadline (e_t_probe E)) (\<lambda>v.
             ret (if v = PyTrue then Some ad else None))
           else ret None))) (\<lambda>r. case r of Inl x \<Rightarrow> ret None | Inr a \<Rightarrow> ret a)
      else ret None)"

definition restored_outcome :: "restore_request \<Rightarrow> int \<Rightarrow> outcome" where
  "restored_outcome q g = (new_outcome (rr_request_id q) (rr_operation q) RolledBack)
     \<lparr>oc_from_game := Some (rt_game (rr_previous q)), oc_to_game := rr_target q,
      oc_generation := Some (rr_generation q), oc_restored_generation := Some g,
      oc_error_code := Some (rr_error_code q), oc_detail := Some (rr_detail q)\<rparr>"

text \<open>The commit of a restore: canonical write, announcement, receipt, housekeeping.\<close>

definition commit_restored :: "env \<Rightarrow> restore_request \<Rightarrow> runtime \<Rightarrow> int \<Rightarrow> string list \<Rightarrow> restored prog" where
  "commit_restored E q rd g warns =
     (let last = restored_outcome q g in
      bnd (transition E [RollingBack, FailedPhase] Ready
        [SetActive (Some rd), SetCandidate None, SetPrevious None, SetOperation None, SetRequestId None,
         SetDeadline None, SetLastResult (Some last), SetLastError (Some (rr_error_code q, rr_detail q))]) (\<lambda>_.
      bnd (if rt_game rd \<noteq> [] then announce (rt_game rd) else ret ()) (\<lambda>_.
      bnd (if rr_finish_receipt q
           then bnd (finish_request_locked E (rr_request_id q) RolledBack last) (\<lambda>rc. ret (ReceiptDoc rc))
           else ret (OutcomeDoc last)) (\<lambda>doc.
      bnd (finalize_locked E (rr_deadline q) warns) (\<lambda>(pending, w).
      ret (Some doc, w, [pending]))))))"

text \<open>The runtime is still alive: a new lease, written before the agent starts.\<close>

definition restore_alive :: "env \<Rightarrow> restore_request \<Rightarrow> adapter \<Rightarrow> string \<Rightarrow> adapter option \<Rightarrow> string list \<Rightarrow> restored prog" where
  "restore_alive E q ad lease singleton warns =
     (let d = rr_deadline q; renewed = (rr_previous q)\<lparr>rt_lease_id := Some lease\<rparr> in
      bnd (attempt is_Exception
        (bnd (call_adapter E SStopAgent ad d (e_t_stop_agent E)) (\<lambda>_. call_readiness E ad d))) (\<lambda>r. case r of
        Inl x \<Rightarrow> ret (None, warns @ [''previous readiness: '' @ safe_detail x], [])
      | Inr u \<Rightarrow>
          bnd (case singleton of
                 None \<Rightarrow> ret True
               | Some proof_ad \<Rightarrow>
                   bnd (attempt is_Exception (call_adapter E SSingletonRecheck proof_ad d (e_t_probe E))) (\<lambda>v.
                   ret (v = Inr PyTrue))) (\<lambda>proven.
          if \<not> proven then ret (None, warns @ [''shared singleton changed''], [])
          else bnd (transition E [RollingBack, FailedPhase] RollingBack
                 [SetPrevious (Some renewed), SetOperation (Some (rr_operation q)), SetRequestId (Some (rr_request_id q))]) (\<lambda>_.
               bnd (attempt is_Exception (start_agent_if E ad d)) (\<lambda>r2. case r2 of
                 Inl x \<Rightarrow> ret (None, warns @ [''agent restart: '' @ safe_detail x], [])
               | Inr u \<Rightarrow> commit_restored E q renewed (rt_generation (rr_previous q)) warns)))))"

text \<open>The runtime is gone: positive evidence that it may be continued, then a fresh generation.\<close>

definition may_continue :: "env \<Rightarrow> adapter \<Rightarrow> int \<Rightarrow> string list \<Rightarrow> (bool \<times> string list) prog" where
  "may_continue E ad deadline warns =
     (if ad_restore_stopped ad = Callable then
        bnd (attempt is_Exception (call_adapter E SContinuity ad deadline (e_t_probe E))) (\<lambda>r. case r of
          Inl x \<Rightarrow> ret (False, warns @ [''continuity unknown: '' @ safe_detail x])
        | Inr v \<Rightarrow> if v = PyTrue then ret (True, warns) else ret (False, warns @ [''no continuity evidence'']))
      else ret (True, warns))"

definition rollback_spec :: "env \<Rightarrow> runtime \<Rightarrow> int \<Rightarrow> spec prog" where
  "rollback_spec E previous g =
     bnd (new_runtime_id E g) (\<lambda>i.
     bnd (lift (runtime_names g)) (\<lambda>n.
     bnd (fresh_uuid E) (\<lambda>l.
     bnd (lift (runtime_directory (e_resolve E) (e_state_dir E) i)) (\<lambda>d.
     ret \<lparr>sp_game = rt_game previous, sp_adapter = rt_adapter previous, sp_generation = g,
       sp_runtime_id = i, sp_lease_id = Some l, sp_runtime_dir = d, sp_game_window = nm_game_window n,
       sp_agent_window = nm_agent_window n, sp_adapter_session = nm_adapter_session n\<rparr>))))"

definition bring_up :: "env \<Rightarrow> adapter \<Rightarrow> int \<Rightarrow> unit prog" where
  "bring_up E ad deadline =
     bnd (lift (materialize_timeout E ad)) (\<lambda>t.
     bnd (call_adapter E SMaterialize ad deadline t) (\<lambda>_.
     bnd (check_deadline E deadline) (\<lambda>_.
     bnd (call_readiness E ad deadline) (\<lambda>_.
     start_agent_if E ad deadline))))"

text \<open>A candidate that could not be confirmed stopped stays tracked, in \<open>retiring\<close>.\<close>

definition drop_or_retire_candidate :: "env \<Rightarrow> phase list \<Rightarrow> bool \<Rightarrow> unit prog" where
  "drop_or_retire_candidate E ps torn = bnd (load_state E) (\<lambda>st. case cs_candidate st of
       None \<Rightarrow> ret ()
     | Some c \<Rightarrow>
         if torn then bnd (transition E ps RollingBack [SetCandidate None]) (\<lambda>_. ret ())
         else bnd (transition E ps RollingBack
           [SetCandidate None, SetRetiring (as_retired c None (Some ''failed_candidate'') # cs_retiring st)]) (\<lambda>_. ret ()))"

definition restore_fresh :: "env \<Rightarrow> restore_request \<Rightarrow> adapter \<Rightarrow> string list \<Rightarrow> restored prog" where
  "restore_fresh E q previous_ad warns =
     (let d = rr_deadline q in
      bnd (may_continue E previous_ad d warns) (\<lambda>(ok, w). if \<not> ok then ret (None, w, []) else
      bnd (load_state E) (\<lambda>st.
      let g = cs_next_generation st in
      bnd (rollback_spec E (rr_previous q) g) (\<lambda>sp.
      bnd (utc_now E) (\<lambda>t.
      let rd = runtime_of_spec sp t in
      bnd (transition E [RollingBack, FailedPhase] RollingBack
        [SetNextGeneration (g + 1), SetCandidate (Some rd), SetOperation (Some (rr_operation q)),
         SetRequestId (Some (rr_request_id q))]) (\<lambda>_.
      bnd (attempt is_Exception (make_adapter E sp d)) (\<lambda>m. case m of
        Inl x \<Rightarrow> ret (None, w @ [''rollback adapter: '' @ safe_detail x], [])
      | Inr ad \<Rightarrow>
          bnd (attempt is_Exception (bring_up E ad d)) (\<lambda>r. case r of
            Inl x \<Rightarrow>
              bnd (teardown_runtime E ad d) (\<lambda>torn.
              bnd (drop_or_retire_candidate E [RollingBack] torn) (\<lambda>_.
              ret (None, w @ [''rollback start: '' @ safe_detail x], [])))
          | Inr u \<Rightarrow> commit_restored E q rd g w))))))))"

definition restore_previous :: "env \<Rightarrow> restore_request \<Rightarrow> string list \<Rightarrow> restored prog" where
  "restore_previous E q warns =
     (let previous = rr_previous q; d = rr_deadline q in
      bnd (load_state E) (\<lambda>st.
      bnd (live_singleton_proof E st previous d) (\<lambda>singleton.
      if cs_candidate st \<noteq> None \<or> (cs_retiring st \<noteq> [] \<and> singleton = None)
      then ret (None, warns @ [''unstopped runtime, restore refused''], [True])
      else
        bnd (lift (spec_of_runtime E previous)) (\<lambda>sp0.
        bnd (fresh_uuid E) (\<lambda>lease.
        bnd (attempt is_Exception (make_adapter E (sp0\<lparr>sp_lease_id := Some lease\<rparr>) d)) (\<lambda>m. case m of
          Inl x \<Rightarrow> ret (None, warns @ [''previous adapter: '' @ safe_detail x], [])
        | Inr ad \<Rightarrow>
            bnd (probe_alive E ad d) (\<lambda>alive.
            if singleton \<noteq> None \<and> alive \<noteq> Some True
            then ret (None, warns @ [''shared singleton may not be restarted''], [])
            else case alive of
              Some True \<Rightarrow> restore_alive E q ad lease singleton warns
            | Some False \<Rightarrow> restore_fresh E q ad warns
            | None \<Rightarrow>
                if ad_name ad = ''program'' then
                  bnd (teardown_runtime E ad d) (\<lambda>torn.
                  restore_fresh E q ad (warns @ [if torn then ''program view torn down'' else ''program view teardown unconfirmed'']))
                else ret (None, warns @ [''previous liveness unknown''], []))))))))"

section \<open>Rolling back\<close>

text \<open>The checkpoint claim of one game, settled by another module of the program; it may fail.\<close>

definition hanjuku_claim :: "env \<Rightarrow> runtime \<Rightarrow> unit prog" where
  "hanjuku_claim E c = (\<lambda>s.
     if rt_game c = ''hanjuku-hero'' then
       (case e_hanjuku_claim E (m_calls s) of
          None \<Rightarrow> (Inr (), s\<lparr>m_calls := m_calls s + 1\<rparr>)
        | Some x \<Rightarrow> (Inl x, s\<lparr>m_calls := m_calls s + 1\<rparr>))
     else (Inr (), s))"

definition discard_candidate :: "env \<Rightarrow> int \<Rightarrow> string list \<Rightarrow> (bool \<times> string list) prog" where
  "discard_candidate E deadline warns = bnd (load_state E) (\<lambda>st. case cs_candidate st of
       None \<Rightarrow> ret (False, warns)
     | Some c \<Rightarrow>
         bnd (try_teardown E c deadline) (\<lambda>torn.
         bnd (if torn then drop_or_retire_candidate E [RollingBack] True
              else bnd (transition E [RollingBack] RollingBack
                [SetCandidate None, SetRetiring (as_retired c None (Some ''failed_candidate'') # cs_retiring st)]) (\<lambda>_. ret ())) (\<lambda>_.
         bnd (hanjuku_claim E c) (\<lambda>_.
         ret (\<not> torn, if torn then warns else warns @ [''candidate not stopped''])))))"

definition rollback_locked :: "env \<Rightarrow> acceptance \<Rightarrow> string option \<Rightarrow> string \<Rightarrow> string \<Rightarrow> switch_result prog" where
  "rollback_locked E ac target0 code detail =
     (let rc = ac_receipt ac; target = (if target0 = None then rc_target rc else target0) in
      bnd (monotonic E) (\<lambda>now. let d = now + e_rollback_timeout E in
      bnd (transition E in_progress_phases RollingBack []) (\<lambda>_.
      bnd (discard_candidate E d []) (\<lambda>(pending, w).
      bnd (load_state E) (\<lambda>st.
      case (if cs_previous st \<noteq> None then cs_previous st else cs_active st) of
        None \<Rightarrow> fail_locked E ac d code detail w pending False False
      | Some previous \<Rightarrow>
          bnd (if cs_previous st = None
               then bnd (transition E [RollingBack] RollingBack [SetActive None, SetPrevious (Some previous)]) (\<lambda>_. ret ())
               else ret ()) (\<lambda>_.
          bnd (restore_previous E \<lparr>rr_request_id = ac_request_id ac, rr_operation = rc_operation rc,
                 rr_target = target, rr_generation = rc_generation rc, rr_previous = previous, rr_deadline = d,
                 rr_finish_receipt = True, rr_error_code = code, rr_detail = detail\<rparr> w) (\<lambda>(doc, w', out).
          let pending' = (pending \<or> (\<exists>b\<in>set out. b)) in
          case doc of
            None \<Rightarrow> fail_locked E ac d ''rollback_failed'' (''rollback failed ('' @ code @ '': '' @ detail @ '')'') w' pending' True False
          | Some x \<Rightarrow> ret (result_from_doc x w' pending'))))))))"

section \<open>The contract\<close>

context coordinator_contract
begin

lemma readiness_ok: "steps R (call_readiness E ad d)" "steps R (start_agent_if E ad d)"
  unfolding call_readiness_def start_agent_if_def by (intro house_rules)+

lemma singleton_ok: "steps R (live_singleton_proof E st p d)"
  unfolding live_singleton_proof_def by (intro house_rules)

lemma commit_restored_ok: "steps R (commit_restored E q rd g w)"
  unfolding commit_restored_def by (intro house_rules)

lemma restore_alive_ok: "steps R (restore_alive E q ad l s w)"
  unfolding restore_alive_def by (intro house_rules readiness_ok commit_restored_ok)

lemma may_continue_ok: "steps R (may_continue E ad d w)"
  unfolding may_continue_def by (intro house_rules)

lemma new_runtime_id_ok: "steps R (new_runtime_id E g)"
  unfolding new_runtime_id_def by (intro house_rules)

lemma rollback_spec_ok: "steps R (rollback_spec E p g)"
  unfolding rollback_spec_def by (intro house_rules new_runtime_id_ok)

lemma bring_up_ok: "steps R (bring_up E ad d)"
  unfolding bring_up_def by (intro house_rules readiness_ok)

lemma drop_ok: "steps R (drop_or_retire_candidate E ps t)"
  unfolding drop_or_retire_candidate_def by (intro house_rules)

lemma restore_fresh_ok: "steps R (restore_fresh E q ad w)"
  unfolding restore_fresh_def
  by (intro house_rules may_continue_ok rollback_spec_ok bring_up_ok drop_ok commit_restored_ok)

lemma so_bool: "steps R m \<Longrightarrow> steps R n \<Longrightarrow> steps R (case b of True \<Rightarrow> m | False \<Rightarrow> n)"
  by (cases b) auto

lemma restore_ok: "steps R (restore_previous E q w)"
  unfolding restore_previous_def
  by (intro house_rules singleton_ok so_bool restore_alive_ok restore_fresh_ok)

lemma hanjuku_ok: "steps R (hanjuku_claim E c)"
  by (rule quiet_steps) (simp add: steps_def hanjuku_claim_def calm_def disk_kept_def split: option.split)

lemma discard_ok: "steps R (discard_candidate E d w)"
  unfolding discard_candidate_def by (intro house_rules drop_ok hanjuku_ok)

lemma rollback_ok: "steps R (rollback_locked E ac t code det)"
  unfolding rollback_locked_def by (intro house_rules discard_ok restore_ok)

lemmas rollback_rules = house_rules readiness_ok singleton_ok commit_restored_ok restore_alive_ok
  may_continue_ok new_runtime_id_ok rollback_spec_ok bring_up_ok drop_ok restore_fresh_ok restore_ok
  hanjuku_ok discard_ok rollback_ok

end

end
