(* ===== verification/Boundary.thy ===== *)
theory Boundary
  imports Rollback
begin

text \<open>
  Waiting for the end of a match: while an adapter waits, the writer lock is released, the
  canonical state stays \<open>draining\<close> and other processes may run; afterwards the lock is taken
  again and every identity is checked before anything is stopped.  A wait that fails is
  cancelled, once per request, before the state leaves \<open>draining\<close>.
\<close>

section \<open>The wait\<close>

definition draining_identity :: "cstate \<Rightarrow> phase \<times> string option \<times> runtime option \<times> runtime option \<times> runtime option" where
  "draining_identity st = (cs_phase st, cs_request_id st, cs_active st, cs_candidate st, cs_previous st)"

text \<open>\<open>finally: tx.reacquire_for_wait(...)\<close> with the short grace of its own.\<close>

definition reacquire_grace :: "env \<Rightarrow> unit prog" where
  "reacquire_grace E = bnd (monotonic E) (\<lambda>t. reacquire_for_wait E (t + max (e_round_reacquire E) 100000))"

text \<open>One adapter call with the lock released; the answer is kept until the lock is back.\<close>

definition unlocked_call :: "env \<Rightarrow> step \<Rightarrow> adapter \<Rightarrow> int \<Rightarrow> int \<Rightarrow> (exn + pyval) prog" where
  "unlocked_call E st ad deadline timeout =
     bnd release_for_wait (\<lambda>_.
     bnd (attempt is_BaseException (call_adapter E st ad deadline timeout)) (\<lambda>r.
     bnd (reacquire_grace E) (\<lambda>_. ret r)))"

text \<open>The deadline of the wait: a game may declare a longer one, which is written to the canonical
  state before the lock is released.\<close>

definition extend_wait :: "env \<Rightarrow> int option \<Rightarrow> bool \<Rightarrow> int \<Rightarrow> int prog" where
  "extend_wait E override allow deadline =
     (case override of
        None \<Rightarrow> ret deadline
      | Some o_s \<Rightarrow>
          if \<not> allow then ret deadline
          else bnd (monotonic E) (\<lambda>t.
            if t + o_s \<le> deadline then ret deadline
            else bnd (utc_after E o_s) (\<lambda>at.
                 bnd (transition E [Draining] Draining [SetDeadline (Some at)]) (\<lambda>_. ret (t + o_s)))))"

definition boundary_verdict :: "exn + pyval \<Rightarrow> exn + unit" where
  "boundary_verdict r =
     (case r of
        Inl (RoundBoundaryUnsupported m b) \<Rightarrow> Inl (RoundBoundaryUnsupported m True)
      | Inl x \<Rightarrow> Inl x
      | Inr v \<Rightarrow> if v = PyFalse then Inl (RoundBoundaryError ''not acknowledged'') else Inr ())"

definition recheck_draining :: "env \<Rightarrow> runtime \<Rightarrow> string \<Rightarrow> unit prog" where
  "recheck_draining E old_active rid = bnd (load_state E) (\<lambda>st.
     if draining_identity st \<noteq> (Draining, Some rid, Some old_active, None, None)
     then raise (RoundBoundaryStateChanged ''request or active identity changed'')
     else bnd (wall_expired E (cs_deadline_at st)) (\<lambda>late.
       if late then raise (RoundBoundaryStateChanged ''request or active identity changed'') else ret ()))"

text \<open>After an extended wait the other steps get back the budget that was left before it.\<close>

definition restore_budget :: "env \<Rightarrow> int \<Rightarrow> int \<Rightarrow> int \<Rightarrow> int prog" where
  "restore_budget E deadline wait_deadline remaining =
     (if wait_deadline \<le> deadline then ret wait_deadline
      else bnd (monotonic E) (\<lambda>t. let post = min wait_deadline (t + remaining) in
        bnd (wall_now E) (\<lambda>w. bnd (monotonic E) (\<lambda>t2.
        bnd (transition E [Draining] Draining [SetDeadline (Some (iso_utc (w + max (post - t2) 0)))]) (\<lambda>_.
        ret post)))))"

definition await_boundary :: "env \<Rightarrow> adapter \<Rightarrow> runtime \<Rightarrow> string \<Rightarrow> int \<Rightarrow> bool \<Rightarrow> int prog" where
  "await_boundary E ad old_active rid deadline allow =
     bnd (lift (round_boundary_required ad)) (\<lambda>required.
     case ad_request_boundary ad of
       NoMethod \<Rightarrow> if required then raise (RoundBoundaryUnsupported ''no boundary support'' False) else ret deadline
     | NotCallable \<Rightarrow> raise (RoundBoundaryUnsupported ''boundary method not callable'' False)
     | Callable \<Rightarrow>
         bnd (lift (boundary_timeout_override ad)) (\<lambda>override.
         bnd (monotonic E) (\<lambda>t.
         bnd (extend_wait E override allow deadline) (\<lambda>wait_deadline.
         bnd (unlocked_call E SBoundary ad wait_deadline
                (case override of None \<Rightarrow> e_t_round_boundary E | Some o_s \<Rightarrow> o_s)) (\<lambda>r.
         bnd (lift (boundary_verdict r)) (\<lambda>_.
         bnd (recheck_draining E old_active rid) (\<lambda>_.
         restore_budget E deadline wait_deadline (max (deadline - t) 0))))))))"

section \<open>Cancelling\<close>

fun claim_put :: "string \<Rightarrow> claim \<Rightarrow> (string \<times> claim) list \<Rightarrow> (string \<times> claim) list" where
  "claim_put k v [] = [(k, v)]"
| "claim_put k v ((k', v') # r) = (if k' = k then (k, v) # r else (k', v') # claim_put k v r)"

definition set_claim :: "string \<Rightarrow> claim \<Rightarrow> unit prog" where
  "set_claim rid c = alter (\<lambda>s. s\<lparr>m_claims := claim_put rid c (m_claims s)\<rparr>)"

definition retire_claim :: "string \<Rightarrow> unit prog" where
  "retire_claim rid = alter (\<lambda>s. s\<lparr>m_claims := filter (\<lambda>(k, v). k \<noteq> rid) (m_claims s)\<rparr>)"

definition cancel_once :: "env \<Rightarrow> adapter \<Rightarrow> string \<Rightarrow> (bool \<times> string option) prog" where
  "cancel_once E ad rid = bnd (load_state E) (\<lambda>entry_st.
     if cs_phase entry_st \<noteq> Draining \<or> cs_request_id entry_st \<noteq> Some rid
     then raise (RoundBoundaryStateChanged ''identity changed before cancel'')
     else let timeout = max (e_t_round_cancel E) 100000 in
       bnd (monotonic E) (\<lambda>t.
       bnd (unlocked_call E SCancelBoundary ad (t + timeout) timeout) (\<lambda>r.
       bnd (load_state E) (\<lambda>current.
       if draining_identity current \<noteq> draining_identity entry_st
       then raise (RoundBoundaryStateChanged ''identity changed during cancel'')
       else case r of
         Inl x \<Rightarrow> ret (False, Some (safe_detail x))
       | Inr v \<Rightarrow> if v = PyFalse then ret (False, Some ''cancel not acknowledged'') else ret (True, None)))))"

text \<open>A caller that finds the cancellation claimed waits for the claimer's result instead of
  calling the adapter again.\<close>

definition await_claim :: "env \<Rightarrow> string \<Rightarrow> cstate \<Rightarrow> claim \<Rightarrow> (bool \<times> string option) prog" where
  "await_claim E rid entry_st c =
     bnd release_for_wait (\<lambda>_.
     bnd (case c of ClaimDone r \<Rightarrow> ret r | ClaimPending \<Rightarrow> asks (\<lambda>s. e_claim_wait E (m_calls s) rid)) (\<lambda>res.
     bnd (reacquire_grace E) (\<lambda>_.
     bnd (load_state E) (\<lambda>current.
     if draining_identity current \<noteq> draining_identity entry_st
     then raise (RoundBoundaryStateChanged ''identity changed while waiting for cancel'')
     else ret res))))"

definition cancel_boundary :: "env \<Rightarrow> adapter option \<Rightarrow> string \<Rightarrow> (bool \<times> string option) prog" where
  "cancel_boundary E ad0 rid =
     (case ad0 of
        None \<Rightarrow> ret (False, Some ''cancel_round_boundary not callable'')
      | Some ad \<Rightarrow>
          if ad_cancel_boundary ad \<noteq> Callable then ret (False, Some ''cancel_round_boundary not callable'')
          else bnd (load_state E) (\<lambda>entry_st.
            if cs_phase entry_st \<noteq> Draining \<or> cs_request_id entry_st \<noteq> Some rid
            then raise (RoundBoundaryStateChanged ''identity changed before cancel'')
            else bnd (asks (\<lambda>s. map_of (m_claims s) rid)) (\<lambda>c. case c of
              Some cl \<Rightarrow> await_claim E rid entry_st cl
            | None \<Rightarrow>
                bnd (set_claim rid ClaimPending) (\<lambda>_.
                bnd (attempt is_BaseException (cancel_once E ad rid)) (\<lambda>r. case r of
                  Inl x \<Rightarrow> bnd (retire_claim rid) (\<lambda>_. raise x)
                | Inr res \<Rightarrow>
                    bnd (set_claim rid (ClaimDone res)) (\<lambda>_.
                    bnd (if fst res then ret () else retire_claim rid) (\<lambda>_. ret res)))))))"

section \<open>When the wait fails\<close>

definition stale_result :: "acceptance \<Rightarrow> string option \<Rightarrow> string \<Rightarrow> switch_result" where
  "stale_result ac target detail =
     (plain_result (ac_request_id ac) (op_str (rc_operation (ac_receipt ac))) ''failed'')
       \<lparr>sr_target := target, sr_to_game := target, sr_generation := Some (ac_generation ac),
        sr_error_code := Some ''recovery_required'', sr_detail := Some detail,
        sr_receipt := ReceiptDoc (ac_receipt ac)\<rparr>"

definition boundary_outcome :: "acceptance \<Rightarrow> string option \<Rightarrow> runtime \<Rightarrow> string \<Rightarrow> string \<Rightarrow> outcome" where
  "boundary_outcome ac target old_active code detail =
     (new_outcome (ac_request_id ac) (rc_operation (ac_receipt ac)) Failed)
       \<lparr>oc_from_game := Some (rt_game old_active), oc_to_game := target,
        oc_generation := Some (ac_generation ac), oc_error_code := Some code, oc_detail := Some detail\<rparr>"

text \<open>\<open>_retire_dead_active_locked\<close>: the old runtime is known dead; it leaves \<open>active\<close> for
  \<open>retiring\<close> first and is torn down then.\<close>

definition retire_dead_active :: "env \<Rightarrow> acceptance \<Rightarrow> string option \<Rightarrow> runtime \<Rightarrow> adapter \<Rightarrow> cstate \<Rightarrow>
    string \<Rightarrow> string \<Rightarrow> bool \<Rightarrow> switch_result prog" where
  "retire_dead_active E ac target old_active ad st code detail cancelled =
     (let entry = as_retired old_active None (Some ''failed_boundary_active'') in
      bnd (transition E [Draining] Idle
        [SetActive None, SetCandidate None, SetPrevious None, SetOperation None, SetRequestId None,
         SetDeadline None, SetRetiring (entry # cs_retiring st), SetLastError (Some (code, detail))]) (\<lambda>_.
      bnd (monotonic E) (\<lambda>t.
      bnd (teardown_runtime E ad (t + e_rollback_timeout E)) (\<lambda>torn.
      let last = (boundary_outcome ac target old_active code detail)
            \<lparr>oc_failure_phase := Some ''round_boundary'', oc_active_retired := Some True,
             oc_boundary_cancelled := Some cancelled, oc_cleanup_pending := Some (\<not> torn)\<rparr>;
          w = (if torn then [] else [''stopped runtime not collected''])
      in bnd (transition E [Idle] Idle
           [SetRetiring (if torn then cs_retiring st else entry # cs_retiring st), SetLastResult (Some last)]) (\<lambda>_.
         bnd (finish_request_locked E (ac_request_id ac) Failed last) (\<lambda>rc.
         bnd (if torn then write_retire_marker E (rt_runtime_id old_active) w else ret w) (\<lambda>w1.
         bnd (mirror_or_warn E None w1) (\<lambda>w2.
         ret (result_from_receipt rc w2 (\<not> torn))))))))))"

definition keep_draining :: "env \<Rightarrow> acceptance \<Rightarrow> string option \<Rightarrow> runtime \<Rightarrow> string \<Rightarrow> string option \<Rightarrow> switch_result prog" where
  "keep_draining E ac target old_active detail cancel_detail =
     (let text = detail @ ''; boundary cancel failed'' @
            (case cancel_detail of None \<Rightarrow> [] | Some c \<Rightarrow> '': '' @ c);
          last = boundary_outcome ac target old_active ''recovery_required'' text
      in bnd (transition E [Draining] Draining
           [SetLastResult (Some last), SetLastError (Some (''recovery_required'', text))]) (\<lambda>_.
         ret ((stale_result ac target text)\<lparr>sr_from_game := Some (rt_game old_active)\<rparr>)))"

definition retain_active :: "env \<Rightarrow> acceptance \<Rightarrow> string option \<Rightarrow> runtime \<Rightarrow> string \<Rightarrow> string \<Rightarrow> bool \<Rightarrow> switch_result prog" where
  "retain_active E ac target old_active code detail cancelled =
     (let last = (boundary_outcome ac target old_active code detail)
            \<lparr>oc_failure_phase := Some ''round_boundary'', oc_retained_active := Some old_active,
             oc_boundary_cancelled := Some cancelled\<rparr>
      in bnd (transition E [Draining] Ready
           [SetActive (Some old_active), SetCandidate None, SetPrevious None, SetOperation None,
            SetRequestId None, SetDeadline None, SetLastResult (Some last), SetLastError (Some (code, detail))]) (\<lambda>_.
         bnd (finish_request_locked E (ac_request_id ac) Failed last) (\<lambda>rc.
         ret (result_from_receipt rc [] False))))"

definition decided_or_stale :: "env \<Rightarrow> acceptance \<Rightarrow> string option \<Rightarrow> string \<Rightarrow> switch_result prog" where
  "decided_or_stale E ac target detail = bnd (receipt_load E (ac_request_id ac)) (\<lambda>r. case r of
       Some rc \<Rightarrow> if terminal (rc_status rc) then ret (result_from_receipt rc [] False) else ret (stale_result ac target detail)
     | None \<Rightarrow> ret (stale_result ac target detail))"

definition boundary_failure :: "env \<Rightarrow> acceptance \<Rightarrow> string option \<Rightarrow> runtime \<Rightarrow> adapter \<Rightarrow> string \<Rightarrow> string \<Rightarrow> bool \<Rightarrow>
    switch_result prog" where
  "boundary_failure E ac target old_active ad code detail cancel =
     bnd (load_state E) (\<lambda>st.
     if cs_phase st \<noteq> Draining \<or> cs_request_id st \<noteq> Some (ac_request_id ac) \<or> cs_active st \<noteq> Some old_active
     then decided_or_stale E ac target ''identity changed at boundary failure''
     else
       bnd (if cancel
            then bnd (attempt (\<lambda>x. is_StateChanged x \<or> is_DeadlineExceeded x) (cancel_boundary E (Some ad) (ac_request_id ac)))
                   (\<lambda>r. ret (Some r))
            else ret None) (\<lambda>c. case c of
         Some (Inl x) \<Rightarrow> ret (stale_result ac target (''recheck after cancel: '' @ safe_detail x))
       | Some (Inr (False, why)) \<Rightarrow> keep_draining E ac target old_active detail why
       | _ \<Rightarrow>
           bnd (monotonic E) (\<lambda>t.
           bnd (probe_alive E ad (t + e_t_probe E)) (\<lambda>a.
           if a = Some False then retire_dead_active E ac target old_active ad st code detail cancel
           else retain_active E ac target old_active code detail cancel))))"

section \<open>The contract\<close>

context coordinator_contract
begin

lemma reacquire_grace_ok: "steps R (reacquire_grace E)"
  unfolding reacquire_grace_def by (intro rollback_rules)

lemma unlocked_ok: "steps R (unlocked_call E st ad d t)"
  unfolding unlocked_call_def by (intro rollback_rules reacquire_grace_ok)

lemma extend_ok: "steps R (extend_wait E ov al d)"
  unfolding extend_wait_def by (intro rollback_rules)

lemma recheck_ok: "steps R (recheck_draining E oa rid)"
  unfolding recheck_draining_def by (intro rollback_rules)

lemma budget_ok: "steps R (restore_budget E d wd r)"
  unfolding restore_budget_def by (intro rollback_rules)

lemma so_method: "steps R m \<Longrightarrow> steps R n \<Longrightarrow> steps R k \<Longrightarrow>
  steps R (case x of NoMethod \<Rightarrow> m | NotCallable \<Rightarrow> n | Callable \<Rightarrow> k)"
  by (cases x) auto

lemma await_ok: "steps R (await_boundary E ad oa rid d al)"
  unfolding await_boundary_def
  by (intro rollback_rules so_method extend_ok unlocked_ok recheck_ok budget_ok)

lemma claims_ok: "steps R (set_claim rid c)" "steps R (retire_claim rid)"
  by (rule quiet_steps, simp add: steps_def set_claim_def retire_claim_def calm_def disk_kept_def)+

lemma cancel_once_ok: "steps R (cancel_once E ad rid)"
  unfolding cancel_once_def by (intro rollback_rules unlocked_ok)

lemma so_claim: "steps R m \<Longrightarrow> (\<And>r. steps R (f r)) \<Longrightarrow>
  steps R (case c of ClaimPending \<Rightarrow> m | ClaimDone r \<Rightarrow> f r)"
  by (cases c) auto

lemma await_claim_ok: "steps R (await_claim E rid b c)"
  unfolding await_claim_def by (intro rollback_rules so_claim reacquire_grace_ok)

lemma cancel_ok: "steps R (cancel_boundary E ad rid)"
  unfolding cancel_boundary_def by (intro rollback_rules claims_ok cancel_once_ok await_claim_ok)

lemma retire_dead_ok: "steps R (retire_dead_active E ac tg oa ad st code det c)"
  unfolding retire_dead_active_def by (intro rollback_rules)

lemma keep_draining_ok: "steps R (keep_draining E ac tg oa det c)"
  unfolding keep_draining_def by (intro rollback_rules)

lemma retain_ok: "steps R (retain_active E ac tg oa code det c)"
  unfolding retain_active_def by (intro rollback_rules)

lemma decided_ok: "steps R (decided_or_stale E ac tg det)"
  unfolding decided_or_stale_def by (intro rollback_rules)

lemma boundary_failure_ok: "steps R (boundary_failure E ac tg oa ad code det c)"
  unfolding boundary_failure_def
  by (intro rollback_rules so_bool decided_ok cancel_ok keep_draining_ok retire_dead_ok retain_ok)

lemmas boundary_rules = rollback_rules reacquire_grace_ok unlocked_ok extend_ok recheck_ok budget_ok
  so_method await_ok claims_ok cancel_once_ok await_claim_ok cancel_ok retire_dead_ok keep_draining_ok
  retain_ok decided_ok boundary_failure_ok so_bool

end

end
