(* ===== verification/SwitchOps.thy ===== *)
theory SwitchOps
  imports Boundary
begin

text \<open>
  The two transitions: \<open>_switch_locked\<close> (start, switch, restart and rotate) takes a request from
  \<open>validating\<close> through \<open>preparing\<close>, \<open>draining\<close>, \<open>quiescing\<close>, \<open>starting\<close> and \<open>probing\<close> to the
  commit in \<open>ready\<close>; \<open>_stop_locked\<close> from \<open>validating\<close> through \<open>quiescing\<close> and \<open>stopping\<close> to
  \<open>idle\<close>.  A step that ends the request early returns its result (\<open>Inl\<close>).
\<close>

section \<open>Switching\<close>

definition or_rollback :: "env \<Rightarrow> acceptance \<Rightarrow> string option \<Rightarrow> (exn \<Rightarrow> string) \<Rightarrow> 'a prog \<Rightarrow> (switch_result + 'a) prog" where
  "or_rollback E ac target code m = bnd (attempt is_Exception m) (\<lambda>r. case r of
       Inr v \<Rightarrow> ret (Inr v)
     | Inl x \<Rightarrow> bnd (rollback_locked E ac target (code x) (safe_detail x)) (\<lambda>res. ret (Inl res)))"

definition next_step :: "(switch_result + 'a) prog \<Rightarrow> ('a \<Rightarrow> switch_result prog) \<Rightarrow> switch_result prog" where
  "next_step m f = bnd m (\<lambda>r. case r of Inl res \<Rightarrow> ret res | Inr v \<Rightarrow> f v)"

definition next_part :: "(switch_result + 'a) prog \<Rightarrow> ('a \<Rightarrow> (switch_result + 'b) prog) \<Rightarrow> (switch_result + 'b) prog" where
  "next_part m f = bnd m (\<lambda>r. case r of Inl res \<Rightarrow> ret (Inl res) | Inr v \<Rightarrow> f v)"

text \<open>Up to and including the preflight.\<close>

definition prepare_candidate :: "env \<Rightarrow> acceptance \<Rightarrow> string \<Rightarrow> int \<Rightarrow> string \<Rightarrow> (switch_result + spec \<times> adapter) prog" where
  "prepare_candidate E ac target deadline deadline_at =
     bnd (candidate_spec E (ac_receipt ac) target) (\<lambda>sp.
     next_part (or_rollback E ac (Some target) (\<lambda>x. failure_code x ''invalid_game'') (make_adapter E sp deadline)) (\<lambda>ad.
     bnd (check_deadline E deadline) (\<lambda>_.
     bnd (transition E [Validating] Preparing [SetDeadline (Some deadline_at)]) (\<lambda>_.
     next_part (or_rollback E ac (Some target) (\<lambda>x. failure_code x ''prepare_failed'')
                 (call_adapter E SPreflight ad deadline (e_t_preflight E))) (\<lambda>_.
     bnd (check_deadline E deadline) (\<lambda>_.
     ret (Inr (sp\<lparr>sp_adapter := ad_name ad\<rparr>, ad))))))))"

text \<open>What a failed boundary wait comes to.\<close>

definition boundary_exit :: "env \<Rightarrow> acceptance \<Rightarrow> string option \<Rightarrow> runtime \<Rightarrow> adapter \<Rightarrow> exn \<Rightarrow> switch_result prog" where
  "boundary_exit E ac target old_active ad x =
     (case x of
        RoundBoundaryStateChanged m \<Rightarrow> decided_or_stale E ac target ''identity changed while draining''
      | RoundBoundaryUnsupported m started \<Rightarrow>
          boundary_failure E ac target old_active ad ''round_boundary_unsupported'' (safe_detail x) started
      | ReadinessTimeout m \<Rightarrow> boundary_failure E ac target old_active ad ''timeout'' (safe_detail x) True
      | DeadlineExceeded m \<Rightarrow> bnd (asks m_lock) (\<lambda>held.
          if \<not> held then ret (stale_result ac target (''lock not reacquired: '' @ safe_detail x))
          else boundary_failure E ac target old_active ad ''timeout'' (safe_detail x) True)
      | _ \<Rightarrow> boundary_failure E ac target old_active ad ''quiesce_failed'' (safe_detail x) True)"

definition drain_old :: "env \<Rightarrow> acceptance \<Rightarrow> string \<Rightarrow> runtime \<Rightarrow> int \<Rightarrow> bool \<Rightarrow> (switch_result + int \<times> adapter) prog" where
  "drain_old E ac target old_active deadline allow =
     bnd (lift (spec_of_runtime E old_active)) (\<lambda>old_sp.
     bnd (attempt is_Exception (make_adapter E old_sp deadline)) (\<lambda>m. case m of
       Inl x \<Rightarrow> bnd (rollback_locked E ac (Some target) ''prepare_failed'' (''old runtime adapter: '' @ safe_detail x)) (\<lambda>res. ret (Inl res))
     | Inr ad \<Rightarrow>
         bnd (lift (round_boundary_required ad)) (\<lambda>required.
         bnd (confirmed_dead E ad deadline) (\<lambda>dead.
         let detach = [SetActive None, SetPrevious (Some old_active)] in
         if dead then bnd (transition E [Preparing] Quiescing detach) (\<lambda>_. ret (Inr (deadline, ad)))
         else if ad_request_boundary ad = Callable \<or> required then
           bnd (transition E [Preparing] Draining []) (\<lambda>_.
           bnd (attempt is_Exception (await_boundary E ad old_active (ac_request_id ac) deadline allow)) (\<lambda>r. case r of
             Inl x \<Rightarrow> bnd (boundary_exit E ac (Some target) old_active ad x) (\<lambda>res. ret (Inl res))
           | Inr d \<Rightarrow> bnd (transition E [Draining] Quiescing detach) (\<lambda>_. ret (Inr (d, ad)))))
         else bnd (transition E [Preparing] Quiescing detach) (\<lambda>_. ret (Inr (deadline, ad)))))))"

definition quiesce_old :: "env \<Rightarrow> acceptance \<Rightarrow> string \<Rightarrow> adapter \<Rightarrow> int \<Rightarrow> (switch_result + unit) prog" where
  "quiesce_old E ac target ad deadline =
     next_part (or_rollback E ac (Some target) (\<lambda>x. failure_code x ''quiesce_failed'') (stop_and_clean E ad deadline)) (\<lambda>_.
     bnd (wait_stopped E ad deadline) (\<lambda>stopped.
     if stopped then ret (Inr ())
     else bnd (rollback_locked E ac (Some target) ''quiesce_failed'' ''old runtime not stopped'') (\<lambda>res. ret (Inl res))))"

definition start_candidate :: "env \<Rightarrow> acceptance \<Rightarrow> string \<Rightarrow> spec \<Rightarrow> adapter \<Rightarrow> int \<Rightarrow> (switch_result + runtime) prog" where
  "start_candidate E ac target sp ad deadline =
     bnd (utc_now E) (\<lambda>t. let rd = runtime_of_spec sp t in
     bnd (transition E [Quiescing] Starting [SetCandidate (Some rd)]) (\<lambda>_.
     next_part (or_rollback E ac (Some target) (\<lambda>x. failure_code x ''start_failed'')
                 (bnd (lift (materialize_timeout E ad)) (\<lambda>limit. call_adapter E SMaterialize ad deadline limit))) (\<lambda>_.
     bnd (check_deadline E deadline) (\<lambda>_.
     bnd (transition E [Starting] Probing []) (\<lambda>_.
     next_part (or_rollback E ac (Some target) (\<lambda>x. failure_code x ''start_failed'') (call_readiness E ad deadline)) (\<lambda>_.
     bnd (check_deadline E deadline) (\<lambda>_.
     next_part (or_rollback E ac (Some target) (\<lambda>x. failure_code x ''agent_start_failed'') (start_agent_if E ad deadline)) (\<lambda>_.
     bnd (check_deadline E deadline) (\<lambda>_. ret (Inr rd))))))))))"

text \<open>The commit point: one canonical write publishes the new active runtime and retires the old
  one with the proof of this commit.\<close>

definition commit_outcome :: "acceptance \<Rightarrow> operation \<Rightarrow> string \<Rightarrow> runtime option \<Rightarrow> runtime option \<Rightarrow> runtime \<Rightarrow> outcome" where
  "commit_outcome ac op target old_active previous rd =
     (new_outcome (ac_request_id ac) op Succeeded)
       \<lparr>oc_from_game := game_of old_active, oc_to_game := Some target, oc_generation := Some (ac_generation ac),
        oc_source_runtime := map_option source_ident_of previous, oc_active_runtime := Some (ident_of rd)\<rparr>"

definition commit_switch :: "env \<Rightarrow> acceptance \<Rightarrow> operation \<Rightarrow> string \<Rightarrow> runtime option \<Rightarrow> runtime \<Rightarrow> int \<Rightarrow> switch_result prog" where
  "commit_switch E ac op target old_active rd deadline =
     bnd (load_state E) (\<lambda>st.
     let last = commit_outcome ac op target old_active (cs_previous st) rd;
         retiring = (case cs_previous st of
             None \<Rightarrow> cs_retiring st
           | Some p \<Rightarrow> as_retired p (Some last) None # cs_retiring st)
     in bnd (transition E [Probing] Ready
          [SetActive (Some rd), SetCandidate None, SetPrevious None, SetRetiring retiring, SetOperation None,
           SetRequestId None, SetDeadline None, SetLastResult (Some last), SetLastError None]) (\<lambda>_.
        bnd (finish_request_locked E (ac_request_id ac) Succeeded last) (\<lambda>rc.
        bnd (announce target) (\<lambda>_.
        bnd (finalize_locked E deadline []) (\<lambda>(pending, w).
        ret (result_from_receipt rc w pending))))))"

definition switch_locked :: "env \<Rightarrow> acceptance \<Rightarrow> operation \<Rightarrow> string \<Rightarrow> int \<Rightarrow> string \<Rightarrow> bool \<Rightarrow> switch_result prog" where
  "switch_locked E ac op target deadline deadline_at allow =
     bnd (load_state E) (\<lambda>st.
     next_step (prepare_candidate E ac target deadline deadline_at) (\<lambda>(sp, ad).
     next_step
       (case cs_active st of
          None \<Rightarrow> bnd (transition E [Preparing] Quiescing []) (\<lambda>_. ret (Inr deadline))
        | Some old_active \<Rightarrow>
            next_part (drain_old E ac target old_active deadline allow) (\<lambda>(d, old_ad).
            next_part (quiesce_old E ac target old_ad d) (\<lambda>_. ret (Inr d)))) (\<lambda>d.
     next_step (start_candidate E ac target sp ad d) (\<lambda>rd.
     commit_switch E ac op target (cs_active st) rd d))))"

section \<open>Stopping\<close>

definition stop_boundary_exit :: "env \<Rightarrow> acceptance \<Rightarrow> runtime \<Rightarrow> adapter \<Rightarrow> exn \<Rightarrow> switch_result prog" where
  "stop_boundary_exit E ac active ad x =
     (if is_StateChanged x then decided_or_stale E ac None ''stop draining identity changed''
      else bnd (asks m_lock) (\<lambda>held.
        if \<not> held then ret (stale_result ac None ''stop draining writer lock unavailable'')
        else case x of
          RoundBoundaryUnsupported m started \<Rightarrow>
            boundary_failure E ac None active ad ''round_boundary_unsupported'' (safe_detail x) started
        | _ \<Rightarrow> boundary_failure E ac None active ad
            (if is_ReadinessTimeout x \<or> is_DeadlineExceeded x then ''timeout'' else ''quiesce_failed'') (safe_detail x) True))"

text \<open>From \<open>validating\<close> to \<open>quiescing\<close>, through a drain where the game asks for one.\<close>

definition stop_drain :: "env \<Rightarrow> acceptance \<Rightarrow> runtime \<Rightarrow> adapter \<Rightarrow> int \<Rightarrow> string \<Rightarrow> (switch_result + int) prog" where
  "stop_drain E ac active ad deadline deadline_at =
     bnd (confirmed_dead E ad deadline) (\<lambda>dead.
     if dead then bnd (transition E [Validating] Quiescing []) (\<lambda>_. ret (Inr deadline))
     else if ad_requires_stop_boundary ad then
       bnd (transition E [Validating] Draining [SetDeadline (Some deadline_at)]) (\<lambda>_.
       bnd (attempt is_Exception (await_boundary E ad active (ac_request_id ac) deadline True)) (\<lambda>r. case r of
         Inl x \<Rightarrow> bnd (stop_boundary_exit E ac active ad x) (\<lambda>res. ret (Inl res))
       | Inr d \<Rightarrow> bnd (transition E [Draining] Quiescing []) (\<lambda>_. ret (Inr d))))
     else bnd (transition E [Validating] Quiescing []) (\<lambda>_. ret (Inr deadline)))"

definition or_fail :: "env \<Rightarrow> acceptance \<Rightarrow> int \<Rightarrow> 'a prog \<Rightarrow> (switch_result + 'a) prog" where
  "or_fail E ac deadline m = bnd (attempt is_Exception m) (\<lambda>r. case r of
       Inr v \<Rightarrow> ret (Inr v)
     | Inl x \<Rightarrow> bnd (fail_locked E ac deadline (failure_code x ''quiesce_failed'') (safe_detail x) [] False False True)
         (\<lambda>res. ret (Inl res)))"

definition stop_active :: "env \<Rightarrow> acceptance \<Rightarrow> runtime \<Rightarrow> int \<Rightarrow> string \<Rightarrow> (switch_result + int) prog" where
  "stop_active E ac active deadline deadline_at =
     bnd (attempt is_Exception (adapter_for E active deadline)) (\<lambda>m. case m of
       Inl x \<Rightarrow> bnd (fail_locked E ac deadline ''quiesce_failed'' (''old runtime adapter: '' @ safe_detail x) [] False False True)
         (\<lambda>res. ret (Inl res))
     | Inr ad \<Rightarrow>
         next_part (stop_drain E ac active ad deadline deadline_at) (\<lambda>d.
         next_part (or_fail E ac d (call_adapter E SStopAgent ad d (e_t_stop_agent E))) (\<lambda>_.
         bnd (transition E [Quiescing] Stopping []) (\<lambda>_.
         next_part (or_fail E ac d (call_adapter E SCleanup ad d (e_t_cleanup E))) (\<lambda>_.
         bnd (wait_stopped E ad d) (\<lambda>stopped.
         if stopped then ret (Inr d)
         else bnd (fail_locked E ac d ''quiesce_failed'' ''old runtime not stopped'' [] False False True)
           (\<lambda>res. ret (Inl res))))))))"

definition stop_outcome :: "acceptance \<Rightarrow> runtime option \<Rightarrow> outcome" where
  "stop_outcome ac active = (new_outcome (ac_request_id ac) OpStop Succeeded)
     \<lparr>oc_from_game := game_of active, oc_generation := map_option rt_generation active,
      oc_stopped_runtime := map_option source_ident_of active\<rparr>"

definition stop_locked :: "env \<Rightarrow> acceptance \<Rightarrow> int \<Rightarrow> string \<Rightarrow> switch_result prog" where
  "stop_locked E ac deadline deadline_at =
     bnd (load_state E) (\<lambda>st.
     next_step
       (case cs_active st of
          None \<Rightarrow> bnd (transition E [Validating] Quiescing []) (\<lambda>_.
                  bnd (transition E [Quiescing] Stopping []) (\<lambda>_. ret (Inr deadline)))
        | Some active \<Rightarrow> stop_active E ac active deadline deadline_at) (\<lambda>d.
     let last = stop_outcome ac (cs_active st) in
     bnd (transition E [Stopping] Idle
       [SetActive None, SetCandidate None, SetPrevious None, SetOperation None, SetRequestId None,
        SetDeadline None, SetLastResult (Some last), SetLastError None]) (\<lambda>_.
     bnd (finish_request_locked E (ac_request_id ac) Succeeded last) (\<lambda>rc.
     bnd (finalize_locked E d []) (\<lambda>(pending, w).
     ret (result_from_receipt rc w pending))))))"

section \<open>Running an accepted request\<close>

definition run_operation :: "env \<Rightarrow> acceptance \<Rightarrow> operation \<Rightarrow> string option \<Rightarrow> int \<Rightarrow> string \<Rightarrow> bool \<Rightarrow> switch_result prog" where
  "run_operation E ac op target deadline deadline_at allow =
     bnd (attempt is_DeadlineExceeded
       (if op = OpStop then stop_locked E ac deadline deadline_at
        else if op = OpRecover then raise (InvalidTransition ''operation recover'')
        else switch_locked E ac op (case target of None \<Rightarrow> [] | Some t \<Rightarrow> t) deadline deadline_at allow)) (\<lambda>r. case r of
       Inr res \<Rightarrow> ret res
     | Inl x \<Rightarrow> rollback_locked E ac target ''timeout'' (safe_detail x))"

section \<open>The contract\<close>

context coordinator_contract
begin

lemma or_rollback_ok: "steps R m \<Longrightarrow> steps R (or_rollback E ac tg code m)"
  unfolding or_rollback_def by (intro boundary_rules)

lemma next_step_ok: "steps R m \<Longrightarrow> (\<And>v. steps R (f v)) \<Longrightarrow> steps R (next_step m f)"
  unfolding next_step_def by (intro so_rules)

lemma next_part_ok: "steps R m \<Longrightarrow> (\<And>v. steps R (f v)) \<Longrightarrow> steps R (next_part m f)"
  unfolding next_part_def by (intro so_rules)

lemmas part_rules = or_rollback_ok next_step_ok next_part_ok

lemma prepare_ok: "steps R (prepare_candidate E ac tg d da)"
  unfolding prepare_candidate_def by (intro boundary_rules part_rules)

lemma boundary_exit_ok: "steps R (boundary_exit E ac tg oa ad x)"
  by (cases x; simp only: boundary_exit_def exn.case; intro boundary_rules)

lemma drain_old_ok: "steps R (drain_old E ac tg oa d al)"
  unfolding drain_old_def by (intro boundary_rules part_rules boundary_exit_ok)

lemma quiesce_ok: "steps R (quiesce_old E ac tg ad d)"
  unfolding quiesce_old_def by (intro boundary_rules part_rules)

lemma start_ok: "steps R (start_candidate E ac tg sp ad d)"
  unfolding start_candidate_def by (intro boundary_rules part_rules)

lemma commit_ok: "steps R (commit_switch E ac op tg oa rd d)"
  unfolding commit_switch_def by (intro boundary_rules)

lemma switch_ok: "steps R (switch_locked E ac op tg d da al)"
  unfolding switch_locked_def
  by (intro boundary_rules part_rules prepare_ok drain_old_ok quiesce_ok start_ok commit_ok)

lemma stop_exit_ok: "steps R (stop_boundary_exit E ac a ad x)"
  unfolding stop_boundary_exit_def
  by (cases x; simp only: exn.case is_StateChanged.simps if_True if_False; intro boundary_rules)

lemma stop_drain_ok: "steps R (stop_drain E ac a ad d da)"
  unfolding stop_drain_def by (intro boundary_rules stop_exit_ok)

lemma or_fail_ok: "steps R m \<Longrightarrow> steps R (or_fail E ac d m)"
  unfolding or_fail_def by (intro boundary_rules)

lemma stop_active_ok: "steps R (stop_active E ac a d da)"
  unfolding stop_active_def by (intro boundary_rules part_rules stop_drain_ok or_fail_ok)

lemma stop_ok: "steps R (stop_locked E ac d da)"
  unfolding stop_locked_def by (intro boundary_rules part_rules stop_active_ok)

lemma run_ok: "steps R (run_operation E ac op tg d da al)"
  unfolding run_operation_def by (intro boundary_rules switch_ok stop_ok)

lemmas op_rules = boundary_rules part_rules switch_ok stop_ok run_ok

end

end
