(* ===== verification/Recovery.thy ===== *)
theory Recovery
  imports SwitchOps
begin

text \<open>
  \<open>_recover_locked\<close> and its branches: what a recovery does in each phase a crashed or failed
  request can leave behind.
\<close>

section \<open>Results of a recovery\<close>

definition recover_result :: "string \<Rightarrow> string option \<Rightarrow> string \<Rightarrow> string list \<Rightarrow> bool \<Rightarrow> switch_result" where
  "recover_result st code detail warns pending =
     (plain_result [] ''recover'' st)\<lparr>sr_error_code := code, sr_detail := Some detail,
        sr_warnings := warns, sr_cleanup_pending := pending\<rparr>"

text \<open>\<open>_recover_fail_locked\<close>: the identity of the failure being recovered is kept.\<close>

definition prior_outcome :: "cstate \<Rightarrow> outcome" where
  "prior_outcome st = (case cs_last_result st of None \<Rightarrow> new_outcome [] OpRecover Failed | Some l \<Rightarrow> l)"

definition recover_fail :: "env \<Rightarrow> cstate \<Rightarrow> string list \<Rightarrow> string \<Rightarrow> string \<Rightarrow> switch_result prog" where
  "recover_fail E st warns detail code =
     bnd (load_state E) (\<lambda>current.
     let pending = (cs_candidate current \<noteq> None \<or> cs_retiring current \<noteq> []);
         prior = prior_outcome st;
         last = (new_outcome (case cs_request_id st of Some r \<Rightarrow> r | None \<Rightarrow> oc_request_id prior) (oc_operation prior) Failed)
           \<lparr>oc_from_game := oc_from_game prior, oc_to_game := oc_to_game prior, oc_generation := oc_generation prior,
            oc_error_code := Some code, oc_detail := Some detail,
            oc_cleanup_pending := (if pending then Some True else None)\<rparr>
     in bnd (attempt is_InvalidTransition
          (transition E [cs_phase st] FailedPhase [SetLastResult (Some last), SetLastError (Some (code, detail))])) (\<lambda>_.
        ret (recover_result ''failed'' (Some code) detail warns pending)))"

section \<open>Draining\<close>

definition draining_result :: "cstate \<Rightarrow> receipt \<Rightarrow> runtime \<Rightarrow> string \<Rightarrow> string \<Rightarrow> string \<Rightarrow> switch_result" where
  "draining_result st rc active status_text code detail =
     (plain_result (case cs_request_id st of Some r \<Rightarrow> r | None \<Rightarrow> [])
        (op_str (case cs_operation st of Some op \<Rightarrow> op | None \<Rightarrow> rc_operation rc)) status_text)
       \<lparr>sr_target := rc_target rc, sr_from_game := Some (rt_game active), sr_to_game := rc_target rc,
        sr_generation := Some (rc_generation rc), sr_error_code := Some code, sr_detail := Some detail,
        sr_receipt := ReceiptDoc rc\<rparr>"

definition draining_outcome :: "string \<Rightarrow> receipt \<Rightarrow> runtime \<Rightarrow> outcome" where
  "draining_outcome rid rc active = (new_outcome rid (rc_operation rc) Failed)
     \<lparr>oc_from_game := Some (rt_game active), oc_to_game := rc_target rc,
      oc_generation := Some (rc_generation rc), oc_error_code := Some ''timeout'',
      oc_detail := Some ''boundary wait cancelled after its deadline'',
      oc_failure_phase := Some ''round_boundary'', oc_retained_active := Some active,
      oc_boundary_cancelled := Some True\<rparr>"

definition recover_draining :: "env \<Rightarrow> cstate \<Rightarrow> int \<Rightarrow> switch_result prog" where
  "recover_draining E st deadline =
     (case (cs_request_id st, cs_active st) of
        (Some rid, Some active) \<Rightarrow>
          bnd (receipt_load E rid) (\<lambda>r. case r of
            None \<Rightarrow> raise (StateCorrupt ''draining request without receipt'')
          | Some rc \<Rightarrow>
              bnd (wall_expired E (cs_deadline_at st)) (\<lambda>late.
              if \<not> late then ret (draining_result st rc active ''busy'' ''busy'' ''waiting for the boundary'')
              else
                bnd (attempt is_Exception
                  (bnd (adapter_for E active deadline) (\<lambda>ad.
                   bnd (cancel_boundary E (Some ad) rid) (\<lambda>(ok, why).
                   if ok then ret ()
                   else raise (RoundBoundaryError (case why of None \<Rightarrow> ''cancel not acknowledged'' | Some w \<Rightarrow> w)))))) (\<lambda>c. case c of
                  Inl x \<Rightarrow> ret (draining_result st rc active ''failed'' ''recovery_required''
                             (''expired drain not released: '' @ safe_detail x))
                | Inr u \<Rightarrow>
                    let last = draining_outcome rid rc active in
                    bnd (load_state E) (\<lambda>current.
                    bnd (if cs_phase current = Draining
                         then bnd (transition E [Draining] Ready
                           [SetActive (Some active), SetCandidate None, SetPrevious None, SetOperation None,
                            SetRequestId None, SetDeadline None, SetLastResult (Some last),
                            SetLastError (Some (''timeout'', ''boundary wait cancelled after its deadline''))]) (\<lambda>_. ret ())
                         else ret ()) (\<lambda>_.
                    bnd (finish_request_locked E rid Failed last) (\<lambda>saved.
                    ret (result_from_receipt saved [] False)))))))
      | _ \<Rightarrow> raise (StateCorrupt ''draining state without request or active''))"

section \<open>Idle, ready\<close>

definition recover_idle :: "env \<Rightarrow> int \<Rightarrow> switch_result prog" where
  "recover_idle E deadline =
     bnd (repair_mirror E []) (\<lambda>w.
     bnd (reconcile_dangling E) (\<lambda>_.
     bnd (load_state E) (\<lambda>st.
     bnd (if cs_retiring st \<noteq> [] then retry_retiring E deadline w else ret (False, w)) (\<lambda>(pending, w2).
     ret (recover_result ''succeeded'' None ''nothing to recover'' w2 pending)))))"

text \<open>The active runtime is dead: it is torn down, and stays in \<open>retiring\<close> if that cannot be
  confirmed.\<close>

definition recover_lost_active :: "env \<Rightarrow> cstate \<Rightarrow> runtime \<Rightarrow> adapter \<Rightarrow> int \<Rightarrow> string list \<Rightarrow> switch_result prog" where
  "recover_lost_active E st active ad deadline warns =
     bnd (teardown_runtime E ad deadline) (\<lambda>torn.
     let pending = (\<not> torn \<or> cs_retiring st \<noteq> []);
         last = (new_outcome [] OpRecover Failed)
           \<lparr>oc_from_game := Some (rt_game active), oc_generation := Some (rt_generation active),
            oc_error_code := Some ''start_failed'', oc_detail := Some ''active runtime lost'',
            oc_cleanup_pending := (if pending then Some True else None)\<rparr>
     in bnd (transition E [Ready] FailedPhase
          ([SetActive None, SetCandidate (cs_candidate st), SetPrevious (cs_previous st),
            SetLastResult (Some last), SetLastError (Some (''start_failed'', ''active runtime lost''))] @
           (if torn then [] else [SetRetiring (as_retired active None None # cs_retiring st)]))) (\<lambda>_.
        bnd (mirror_or_warn E None warns) (\<lambda>w.
        ret ((recover_result ''failed'' (Some ''start_failed'') ''active runtime lost'' w pending)
          \<lparr>sr_from_game := Some (rt_game active), sr_generation := Some (rt_generation active)\<rparr>))))"

definition settle_ready :: "env \<Rightarrow> int \<Rightarrow> string list \<Rightarrow> switch_result prog" where
  "settle_ready E deadline warns =
     bnd (finalize_locked E deadline warns) (\<lambda>(pending, w).
     bnd (reconcile_dangling E) (\<lambda>_.
     ret (recover_result ''succeeded'' None ''ready state confirmed'' w pending)))"

definition recover_ready :: "env \<Rightarrow> int \<Rightarrow> switch_result prog" where
  "recover_ready E deadline =
     bnd (load_state E) (\<lambda>st. case cs_active st of
       None \<Rightarrow> settle_ready E deadline []
     | Some active \<Rightarrow>
         bnd (attempt is_Exception (adapter_for E active deadline)) (\<lambda>m.
         let w = (case m of Inl x \<Rightarrow> [''active adapter: '' @ safe_detail x] | Inr ad \<Rightarrow> []) in
         bnd (case m of Inl x \<Rightarrow> ret None | Inr ad \<Rightarrow> probe_alive E ad deadline) (\<lambda>alive.
         case (alive, m) of
           (Some False, Inr ad) \<Rightarrow> recover_lost_active E st active ad deadline w
         | (Some True, _) \<Rightarrow> settle_ready E deadline w
         | _ \<Rightarrow>
             bnd (repair_mirror E w) (\<lambda>w2.
             ret ((recover_result ''failed'' (Some ''probe_failed'') ''active liveness unknown'' w2 False)
               \<lparr>sr_from_game := Some (rt_game active), sr_generation := Some (rt_generation active)\<rparr>)))))"

section \<open>Failed\<close>

definition cleanup_leftovers :: "env \<Rightarrow> cstate \<Rightarrow> int \<Rightarrow> string list \<Rightarrow> (bool \<times> string list) prog" where
  "cleanup_leftovers E st deadline warns =
     bnd (case cs_candidate st of
            None \<Rightarrow> ret (False, warns)
          | Some c \<Rightarrow>
              bnd (try_teardown E c deadline) (\<lambda>torn.
              bnd (load_state E) (\<lambda>current.
              if \<not> torn then
                bnd (transition E [cs_phase current] (cs_phase current)
                  [SetCandidate None, SetRetiring (as_retired c None (Some ''failed_candidate'') # cs_retiring current)]) (\<lambda>_.
                ret (True, warns @ [''candidate not stopped'']))
              else if cs_candidate current \<noteq> None then
                bnd (transition E [cs_phase current] (cs_phase current) [SetCandidate None]) (\<lambda>_. ret (False, warns))
              else ret (False, warns)))) (\<lambda>(pending, w).
     bnd (retry_retiring E deadline w) (\<lambda>(p2, w2). ret (p2 \<or> pending, w2)))"

definition recover_from_previous :: "env \<Rightarrow> runtime \<Rightarrow> string list \<Rightarrow> switch_result prog" where
  "recover_from_previous E previous warns =
     bnd (load_state E) (\<lambda>st. case cs_last_result st of
       None \<Rightarrow> raise (StateCorrupt ''failed phase without last_result'')
     | Some l \<Rightarrow> (case oc_generation l of
         None \<Rightarrow> raise (StateCorrupt ''failed phase without generation'')
       | Some g \<Rightarrow>
           bnd (monotonic E) (\<lambda>t.
           bnd (restore_previous E \<lparr>rr_request_id = oc_request_id l, rr_operation = oc_operation l,
                  rr_target = oc_to_game l, rr_generation = g, rr_previous = previous,
                  rr_deadline = t + e_rollback_timeout E, rr_finish_receipt = False,
                  rr_error_code = (case oc_error_code l of Some c \<Rightarrow> if c = [] then ''recovery'' else c | None \<Rightarrow> ''recovery''),
                  rr_detail = (case oc_detail l of Some c \<Rightarrow> if c = [] then ''recovered after crash'' else c
                     | None \<Rightarrow> ''recovered after crash'')\<rparr> warns) (\<lambda>(doc, w, out). case doc of
             None \<Rightarrow> recover_fail E st w ''previous runtime not restored'' ''rollback_failed''
           | Some d \<Rightarrow>
               bnd (reconcile_dangling E) (\<lambda>_.
               bnd (load_state E) (\<lambda>current.
               ret (result_from_doc d w
                 (cs_candidate current \<noteq> None \<or> cs_retiring current \<noteq> [] \<or> (\<exists>b\<in>set out. b)))))))))"

definition recover_stop :: "env \<Rightarrow> runtime \<Rightarrow> int \<Rightarrow> string list \<Rightarrow> bool \<Rightarrow> switch_result prog" where
  "recover_stop E active deadline warns pending =
     bnd (attempt is_Exception (bnd (adapter_for E active deadline) (\<lambda>ad.
            bnd (stop_and_clean E ad deadline) (\<lambda>_. ret ad)))) (\<lambda>r. case r of
       Inl x \<Rightarrow> bnd (load_state E) (\<lambda>st. recover_fail E st warns ''stop not resumed'' (safe_detail x))
     | Inr ad \<Rightarrow>
         bnd (wait_stopped E ad deadline) (\<lambda>stopped.
         if \<not> stopped then bnd (load_state E) (\<lambda>st. recover_fail E st warns ''old runtime not stopped, kept'' ''quiesce_failed'')
         else
           let last = (new_outcome [] OpRecover Succeeded)
                 \<lparr>oc_from_game := Some (rt_game active), oc_generation := Some (rt_generation active)\<rparr>
           in bnd (transition E [FailedPhase] Idle
                [SetActive None, SetCandidate None, SetPrevious None, SetOperation None, SetRequestId None,
                 SetDeadline None, SetLastResult (Some last), SetLastError None]) (\<lambda>_.
              bnd (mirror_or_warn E None warns) (\<lambda>w.
              bnd (reconcile_dangling E) (\<lambda>_.
              ret ((recover_result ''succeeded'' None ''stop completed'' w pending)
                \<lparr>sr_from_game := Some (rt_game active), sr_generation := Some (rt_generation active)\<rparr>))))))"

text \<open>One kind of game whose match is over may be released instead of restored.  The code raises
  \<open>AdapterError\<close> when its teardown is not confirmed, a name the module does not define.\<close>

definition release_terminal :: "env \<Rightarrow> runtime \<Rightarrow> int \<Rightarrow> ident option prog" where
  "release_terminal E previous deadline =
     bnd (adapter_for E previous deadline) (\<lambda>ad.
     if ad_release_terminal ad \<noteq> Callable then ret None
     else bnd (call_adapter E STerminalPrevious ad deadline (e_t_probe E)) (\<lambda>v.
       if \<not> py_truth v then ret None
       else bnd (teardown_runtime E ad deadline) (\<lambda>torn.
         if torn then ret (Some (ident_of previous))
         else raise (PyNameError ''name AdapterError is not defined''))))"

definition releasable :: "cstate \<Rightarrow> bool \<Rightarrow> bool" where
  "releasable st pending \<longleftrightarrow> cs_active st = None \<and> \<not> pending \<and> cs_candidate st = None \<and> cs_retiring st = [] \<and>
     (case cs_previous st of None \<Rightarrow> False | Some p \<Rightarrow> rt_adapter p = ''retroarch'' \<and> rt_game p = ''hanjuku-hero'')"

definition recover_to_idle :: "env \<Rightarrow> cstate \<Rightarrow> ident option \<Rightarrow> string list \<Rightarrow> bool \<Rightarrow> switch_result prog" where
  "recover_to_idle E st released warns pending =
     (let base = (new_outcome [] OpRecover Succeeded)\<lparr>oc_detail := Some ''recovered from failed''\<rparr>;
          last = (case released of None \<Rightarrow> base
            | Some i \<Rightarrow> base\<lparr>oc_released_terminal := Some i,
                oc_restore_request_id := map_option oc_request_id (cs_last_result st)\<rparr>)
      in bnd (transition E [FailedPhase] Idle
           [SetCandidate None, SetPrevious None, SetOperation None, SetRequestId None, SetDeadline None,
            SetLastResult (Some last), SetLastError None]) (\<lambda>_.
         bnd (repair_mirror E warns) (\<lambda>w.
         bnd (reconcile_dangling E) (\<lambda>_.
         ret (recover_result ''succeeded'' None ''recovered from failed'' w pending)))))"

definition recover_failed :: "env \<Rightarrow> int \<Rightarrow> bool \<Rightarrow> switch_result prog" where
  "recover_failed E deadline abandon_view =
     bnd (load_state E) (\<lambda>st0.
     bnd (cleanup_leftovers E st0 deadline []) (\<lambda>(pending, w).
     bnd (load_state E) (\<lambda>st.
     let abandon = (abandon_view \<and> cs_active st = None \<and>
           (case cs_previous st of None \<Rightarrow> False | Some p \<Rightarrow> rt_adapter p = ''program'')) in
     bnd (if releasable st pending
          then (case cs_previous st of None \<Rightarrow> ret (Inr None)
            | Some p \<Rightarrow> attempt is_Exception (release_terminal E p deadline))
          else ret (Inr None)) (\<lambda>rel. case rel of
       Inl x \<Rightarrow> recover_fail E st w (safe_detail x) ''quiesce_failed''
     | Inr released \<Rightarrow>
         (case (cs_previous st, cs_active st) of
            (Some p, a) \<Rightarrow>
              if \<not> (abandon \<or> released \<noteq> None) then recover_from_previous E p w
              else (case a of Some active \<Rightarrow> recover_stop E active deadline w pending
                    | None \<Rightarrow> recover_to_idle E st released w pending)
          | (None, Some active) \<Rightarrow> recover_stop E active deadline w pending
          | (None, None) \<Rightarrow> recover_to_idle E st released w pending)))))"

definition adopt_refused :: "string list \<Rightarrow> string \<Rightarrow> switch_result" where
  "adopt_refused warns detail = recover_result ''failed'' (Some ''recovery_required'') detail warns True"

definition adoptable :: "cstate \<Rightarrow> bool" where
  "adoptable st \<longleftrightarrow> cs_phase st = FailedPhase \<and> cs_previous st \<noteq> None \<and> cs_active st = None \<and>
     cs_candidate st = None \<and> (case cs_retiring st of [r] \<Rightarrow> rd_cleanup_role r = Some ''failed_candidate'' | _ \<Rightarrow> False)"

definition adopt_candidate :: "env \<Rightarrow> int \<Rightarrow> switch_result prog" where
  "adopt_candidate E deadline =
     bnd (load_state E) (\<lambda>st.
     if \<not> adoptable st then ret (adopt_refused [] ''no failed candidate to adopt'')
     else let failed = as_runtime (hd (cs_retiring st)); previous = the (cs_previous st) in
       bnd (attempt is_Exception (adapter_for E failed deadline)) (\<lambda>m. case m of
         Inl x \<Rightarrow> ret (adopt_refused [] (''failed candidate adapter: '' @ safe_detail x))
       | Inr ad \<Rightarrow>
           if ad_adopt_candidate ad \<noteq> Callable then ret (adopt_refused [] ''adapter cannot adopt'')
           else
             bnd (monotonic E) (\<lambda>t.
             bnd (attempt is_Exception (call_adapter E SAdopt ad deadline (max (deadline - t) 0))) (\<lambda>r. case r of
               Inl x \<Rightarrow> ret (adopt_refused [] (''adoption not proven: '' @ safe_detail x))
             | Inr v \<Rightarrow>
                 if v \<noteq> PyTrue then ret (adopt_refused [] ''not proven to be the running candidate'')
                 else bnd (load_state E) (\<lambda>current.
                   if current \<noteq> st then ret (adopt_refused [] ''canonical state changed'')
                   else
                     let last = (new_outcome [] OpRecover Succeeded)
                           \<lparr>oc_from_game := Some (rt_game previous), oc_to_game := Some (rt_game failed),
                            oc_generation := Some (rt_generation failed), oc_active_runtime := Some (ident_of failed),
                            oc_detail := Some ''failed candidate adopted''\<rparr>
                     in bnd (transition E [FailedPhase] Ready
                          [SetActive (Some failed), SetCandidate None, SetPrevious None,
                           SetRetiring [as_retired previous None None], SetOperation None, SetRequestId None,
                           SetDeadline None, SetLastResult (Some last), SetLastError None]) (\<lambda>_.
                        bnd (announce (rt_game failed)) (\<lambda>_.
                        bnd (finalize_locked E deadline []) (\<lambda>(pending, w).
                        ret ((recover_result ''succeeded'' None ''failed candidate adopted'' w pending)
                          \<lparr>sr_from_game := Some (rt_game previous), sr_to_game := Some (rt_game failed),
                           sr_generation := Some (rt_generation failed)\<rparr>)))))))))"

section \<open>In progress\<close>

text \<open>A stop that was interrupted is carried out.\<close>

definition resume_stop_outcome :: "cstate \<Rightarrow> outcome" where
  "resume_stop_outcome st = (new_outcome (case cs_request_id st of Some r \<Rightarrow> r | None \<Rightarrow> []) OpStop Succeeded)
     \<lparr>oc_from_game := game_of (cs_active st), oc_generation := map_option rt_generation (cs_active st)\<rparr>"

definition resume_stop :: "env \<Rightarrow> int \<Rightarrow> switch_result prog" where
  "resume_stop E deadline =
     bnd (load_state E) (\<lambda>st.
     next_step
       (case cs_active st of
          None \<Rightarrow> ret (Inr ())
        | Some active \<Rightarrow>
            bnd (attempt is_Exception (adapter_for E active deadline)) (\<lambda>m. case m of
              Inl x \<Rightarrow> bnd (recover_fail E st [] ''adapter not created'' (safe_detail x)) (\<lambda>res. ret (Inl res))
            | Inr ad \<Rightarrow>
                bnd (attempt is_Exception (stop_and_clean E ad deadline)) (\<lambda>r. case r of
                  Inl x \<Rightarrow> bnd (recover_fail E st [] ''stop not resumed'' (safe_detail x)) (\<lambda>res. ret (Inl res))
                | Inr u \<Rightarrow>
                    bnd (wait_stopped E ad deadline) (\<lambda>stopped.
                    if stopped then ret (Inr ())
                    else bnd (recover_fail E st [] ''old runtime not stopped, kept'' ''quiesce_failed'') (\<lambda>res. ret (Inl res)))))) (\<lambda>u.
     let last = resume_stop_outcome st in
     bnd (transition E in_progress_phases Idle
       [SetActive None, SetCandidate None, SetPrevious None, SetOperation None, SetRequestId None,
        SetDeadline None, SetLastResult (Some last), SetLastError None]) (\<lambda>_.
     bnd (case cs_request_id st of None \<Rightarrow> ret () | Some rid \<Rightarrow> finish_recovering_receipt E rid Succeeded last) (\<lambda>_.
     bnd (repair_mirror E []) (\<lambda>w.
     ret ((recover_result ''succeeded'' None ''stop completed'' w False)
       \<lparr>sr_request_id := oc_request_id last, sr_from_game := oc_from_game last, sr_generation := oc_generation last\<rparr>))))))"

text \<open>Any other interrupted request is rolled back.\<close>

definition resume_rollback :: "env \<Rightarrow> cstate \<Rightarrow> switch_result prog" where
  "resume_rollback E st =
     bnd (case cs_request_id st of None \<Rightarrow> ret None | Some rid \<Rightarrow> receipt_load E rid) (\<lambda>r. case r of
       None \<Rightarrow> raise (StateCorrupt ''canonical request without receipt'')
     | Some rc \<Rightarrow> rollback_locked E \<lparr>ac_request_id = (case cs_request_id st of Some i \<Rightarrow> i | None \<Rightarrow> []),
         ac_generation = rc_generation rc, ac_status = AcInProgress, ac_existing = True, ac_receipt = rc,
         ac_claimed = False\<rparr> None ''recovery'' ''recovered after crash'')"

definition recover_locked :: "env \<Rightarrow> int \<Rightarrow> bool \<Rightarrow> bool \<Rightarrow> switch_result prog" where
  "recover_locked E deadline abandon_view adopt =
     bnd (canon_initialize E) (\<lambda>st.
     if cs_phase st = Draining then recover_draining E st deadline
     else if cs_phase st = Idle then recover_idle E deadline
     else if cs_phase st = RecoveryRequired
       then ret (recover_result ''failed'' (Some ''recovery_required'') ''canonical state broken'' [] False)
     else if cs_phase st = FailedPhase \<and> adopt then adopt_candidate E deadline
     else if cs_phase st = FailedPhase then recover_failed E deadline abandon_view
     else if cs_phase st = Ready then recover_ready E deadline
     else if cs_operation st = Some OpStop then resume_stop E deadline
     else resume_rollback E st)"

section \<open>The contract\<close>

context coordinator_contract
begin

lemma recover_fail_ok: "steps R (recover_fail E st w det code)"
  unfolding recover_fail_def by (intro op_rules)

lemma recover_draining_ok: "steps R (recover_draining E st d)"
  unfolding recover_draining_def by (intro op_rules)

lemma recover_idle_ok: "steps R (recover_idle E d)"
  unfolding recover_idle_def by (intro op_rules)

lemma recover_lost_ok: "steps R (recover_lost_active E st a ad d w)"
  unfolding recover_lost_active_def by (intro op_rules)

lemma recover_ready_ok: "steps R (recover_ready E d)"
  unfolding recover_ready_def settle_ready_def by (intro op_rules recover_lost_ok)

lemma cleanup_leftovers_ok: "steps R (cleanup_leftovers E st d w)"
  unfolding cleanup_leftovers_def by (intro op_rules)

lemma recover_previous_ok: "steps R (recover_from_previous E p w)"
  unfolding recover_from_previous_def by (intro op_rules recover_fail_ok)

lemma recover_stop_ok: "steps R (recover_stop E a d w p)"
  unfolding recover_stop_def by (intro op_rules recover_fail_ok)

lemma release_terminal_ok: "steps R (release_terminal E p d)"
  unfolding release_terminal_def by (intro op_rules)

lemma recover_to_idle_ok: "steps R (recover_to_idle E st r w p)"
  unfolding recover_to_idle_def by (intro op_rules)

lemma recover_failed_ok: "steps R (recover_failed E d a)"
  unfolding recover_failed_def
  by (intro op_rules cleanup_leftovers_ok release_terminal_ok recover_fail_ok recover_previous_ok
      recover_stop_ok recover_to_idle_ok)

lemma adopt_ok: "steps R (adopt_candidate E d)"
  unfolding adopt_candidate_def by (intro op_rules)

lemma resume_stop_ok: "steps R (resume_stop E d)"
  unfolding resume_stop_def by (intro op_rules recover_fail_ok)

lemma resume_rollback_ok: "steps R (resume_rollback E st)"
  unfolding resume_rollback_def by (intro op_rules)

lemma recover_ok: "steps R (recover_locked E d a ad)"
  unfolding recover_locked_def
  by (intro op_rules recover_draining_ok recover_idle_ok adopt_ok recover_failed_ok recover_ready_ok
      resume_stop_ok resume_rollback_ok)

lemmas recovery_rules = op_rules recover_draining_ok recover_ok

end

end
