(* ===== verification/Coordinator.thy ===== *)
theory Coordinator
  imports Recovery
begin

text \<open>
  The public operations of \<open>GameSwitchCoordinator\<close>: \<open>_execute\<close> with its queue, replay and fence
  rules, \<open>start\<close>, \<open>stop\<close>, \<open>switch\<close>, \<open>restart\<close>, \<open>rotate\<close>, \<open>recover\<close>, \<open>resume_queued\<close>,
  \<open>maintain_fifo\<close> and \<open>repair_active_agent\<close>.  Event logging is left out.
\<close>

section \<open>Rotation\<close>

fun index_of :: "'a \<Rightarrow> 'a list \<Rightarrow> nat" where
  "index_of x [] = 0"
| "index_of x (y # ys) = (if x = y then 0 else Suc (index_of x ys))"

definition next_rotation_game :: "string list \<Rightarrow> string option \<Rightarrow> exn + string" where
  "next_rotation_game games current =
     (if games = [] then Inl (ValueError ''games list is empty'')
      else case current of
        None \<Rightarrow> Inr (games ! 0)
      | Some c \<Rightarrow> if c \<notin> set games then Inr (games ! 0)
          else Inr (games ! ((index_of c games + 1) mod length games)))"

section \<open>A request inside the lock\<close>

record exec =
  ex_request_id :: string
  ex_operation :: operation
  ex_target :: "string option"
  ex_payload :: "payload option"
  ex_deadline :: int
  ex_deadline_at :: string
  ex_games :: "string list option"
  ex_allow :: bool

definition enqueue_exec :: "env \<Rightarrow> exec \<Rightarrow> operation \<Rightarrow> string option \<Rightarrow> acceptance prog" where
  "enqueue_exec E q op target = enqueue_request_locked E (ex_request_id q) op target (ex_payload q) (ex_allow q)
     (if ex_allow q then None else Some (ex_deadline_at q))"

definition request_conflict :: "exec \<Rightarrow> string option \<Rightarrow> string \<Rightarrow> switch_result" where
  "request_conflict q target detail =
     (plain_result (ex_request_id q) (op_str (ex_operation q)) ''request_conflict'')
       \<lparr>sr_target := target, sr_error_code := Some ''request_conflict'', sr_detail := Some detail\<rparr>"

text \<open>The source fence of a request: \<open>payload["expected_source"]\<close>.\<close>

definition expected_source :: "payload option \<Rightarrow> json option" where
  "expected_source p = (case p of None \<Rightarrow> None | Some q \<Rightarrow> map_of q ''expected_source'')"

definition source_fields :: "json \<Rightarrow> (string \<times> string \<times> int \<times> string) option" where
  "source_fields j =
     (case j of
        JObj kvs \<Rightarrow>
          if set (List.map fst kvs) \<noteq> {''game'', ''runtime_id'', ''generation'', ''lease_id''} then None
          else (case (map_of kvs ''game'', map_of kvs ''runtime_id'', map_of kvs ''generation'', map_of kvs ''lease_id'') of
              (Some (JStr g), Some (JStr i), Some (JInt n), Some (JStr l)) \<Rightarrow>
                if 0 < n \<and> g \<noteq> [] \<and> i \<noteq> [] \<and> l \<noteq> [] then Some (g, i, n, l) else None
            | _ \<Rightarrow> None)
      | _ \<Rightarrow> None)"

definition source_holds :: "operation \<Rightarrow> json \<Rightarrow> runtime option \<Rightarrow> bool" where
  "source_holds op j active =
     (op \<in> {OpStop, OpSwitch} \<and>
      (case (source_fields j, active) of
         (Some (g, i, n, l), Some a) \<Rightarrow>
           rt_game a = g \<and> rt_runtime_id a = i \<and> rt_generation a = n \<and> rt_lease_id a = Some l
       | _ \<Rightarrow> False))"

text \<open>A request that ends before it touches any runtime: the canonical state goes back to its
  stable phase and the receipt is finished as failed.\<close>

definition reject_accepted :: "env \<Rightarrow> outcome \<Rightarrow> runtime option \<Rightarrow> string \<Rightarrow> string \<Rightarrow> switch_result prog" where
  "reject_accepted E oc active code detail =
     bnd (transition E [Validating] (if active = None then Idle else Ready)
       [SetOperation None, SetRequestId None, SetDeadline None, SetLastResult (Some oc),
        SetLastError (Some (code, detail))]) (\<lambda>_.
     bnd (finish_request_locked E (oc_request_id oc) Failed oc) (\<lambda>saved.
     ret (result_from_receipt saved [] False)))"

section \<open>While another request drains\<close>

definition in_progress_result :: "exec \<Rightarrow> receipt \<Rightarrow> cstate \<Rightarrow> switch_result" where
  "in_progress_result q rc st =
     (plain_result (ex_request_id q) (op_str (rc_operation rc)) ''in_progress'')
       \<lparr>sr_target := rc_target rc, sr_from_game := game_of (cs_active st), sr_to_game := rc_target rc,
        sr_generation := Some (rc_generation rc), sr_detail := Some ''waiting for the boundary'',
        sr_receipt := ReceiptDoc rc\<rparr>"

text \<open>Recovering an expired drain and, when that made the state ready, running the request again;
  otherwise the result at hand.\<close>

definition recover_then :: "env \<Rightarrow> cstate \<Rightarrow> int \<Rightarrow> switch_result prog \<Rightarrow> switch_result prog \<Rightarrow> switch_result prog" where
  "recover_then E st deadline again otherwise =
     bnd (wall_expired E (cs_deadline_at st)) (\<lambda>late.
     if late then
       bnd (recover_locked E deadline False False) (\<lambda>_.
       bnd (load_state E) (\<lambda>_.
       bnd (load_state E) (\<lambda>current.
       if cs_phase current = Ready then again else otherwise)))
     else otherwise)"

definition handle_draining :: "env \<Rightarrow> (exec \<Rightarrow> switch_result prog) \<Rightarrow> cstate \<Rightarrow> exec \<Rightarrow> switch_result prog" where
  "handle_draining E again st q =
     bnd (receipt_load E (ex_request_id q)) (\<lambda>existing. case existing of
       None \<Rightarrow>
         if cs_request_id st = Some (ex_request_id q) then raise (StateCorrupt ''draining request without receipt'')
         else bnd (enqueue_exec E q (ex_operation q) (ex_target q)) (\<lambda>ac.
              recover_then E st (ex_deadline q) (again (q\<lparr>ex_games := None\<rparr>)) (ret (queued_result (ac_receipt ac) (Some st))))
     | Some rc \<Rightarrow>
         let target = (if ex_operation q = OpRestart \<and> rc_operation rc = OpRestart then rc_target rc else ex_target q);
             same_op = (ex_operation q = rc_operation rc \<or> (ex_operation q = OpStart \<and> rc_operation rc = OpSwitch))
         in if \<not> same_op \<or> target \<noteq> rc_target rc \<or>
               rc_payload_hash rc \<noteq> payload_hash E (rc_operation rc) (rc_target rc) (payload_of (ex_payload q))
            then ret (request_conflict q target ''request_id reused with another request'')
            else if terminal (rc_status rc) then ret (result_from_receipt rc [] False)
            else
              bnd (if cs_request_id st \<noteq> Some (ex_request_id q) \<and> rc_status rc \<noteq> Queued
                   then bnd (requeue_request_locked E (ex_request_id q)) (\<lambda>a. ret (ac_receipt a)) else ret rc) (\<lambda>rc'.
              let otherwise = (if rc_status rc' = Queued then ret (queued_result rc' (Some st)) else ret (in_progress_result q rc' st))
              in if rc_status rc' = Queued
                 then recover_then E st (ex_deadline q) (again (q\<lparr>ex_target := target, ex_games := None\<rparr>)) otherwise
                 else bnd (wall_expired E (cs_deadline_at st)) (\<lambda>late.
                   if late then recover_then E st (ex_deadline q) (again (q\<lparr>ex_target := target, ex_games := None\<rparr>)) otherwise
                   else otherwise)))"

section \<open>Requests that need no transition\<close>

definition already_running :: "exec \<Rightarrow> operation \<Rightarrow> string option \<Rightarrow> runtime \<Rightarrow> switch_result" where
  "already_running q op target a =
     (let base = plain_result (ex_request_id q) (op_str op) in
      if Some (rt_game a) = target then
        (base ''succeeded'')\<lparr>sr_target := target, sr_from_game := target, sr_to_game := target,
           sr_generation := Some (rt_generation a), sr_detail := Some ''already running''\<rparr>
      else
        (base ''failed'')\<lparr>sr_target := target, sr_from_game := Some (rt_game a), sr_to_game := target,
           sr_generation := Some (rt_generation a), sr_error_code := Some ''already_active'',
           sr_detail := Some ''another game is active''\<rparr>)"

definition succeeded_outcome :: "exec \<Rightarrow> operation \<Rightarrow> string option \<Rightarrow> int \<Rightarrow> string \<Rightarrow> outcome" where
  "succeeded_outcome q op game g detail = (new_outcome (ex_request_id q) op Succeeded)
     \<lparr>oc_from_game := game, oc_to_game := game, oc_generation := Some g, oc_detail := Some detail\<rparr>"

definition finish_noop :: "env \<Rightarrow> exec \<Rightarrow> outcome \<Rightarrow> switch_result prog" where
  "finish_noop E q oc = bnd (finish_request_locked E (ex_request_id q) Succeeded oc) (\<lambda>saved.
     ret (result_from_receipt saved [] False))"

section \<open>After acceptance\<close>

text \<open>\<open>_reconcile_stale_receipt\<close>: only the commit this request made closes its receipt.\<close>

definition retirement_of :: "cstate \<Rightarrow> string \<Rightarrow> retired option" where
  "retirement_of st rid =
     List.find (\<lambda>rt. case rd_retirement rt of None \<Rightarrow> False | Some p \<Rightarrow> oc_request_id p = rid) (cs_retiring st)"

definition reconcile_stale :: "env \<Rightarrow> string \<Rightarrow> operation \<Rightarrow> string option \<Rightarrow> payload option \<Rightarrow> int \<Rightarrow> switch_result option prog" where
  "reconcile_stale E rid op target p deadline =
     bnd (load_state E) (\<lambda>st.
     bnd (case retirement_of st rid of
            None \<Rightarrow> ret (cs_last_result st)
          | Some rt \<Rightarrow> bnd (receipt_load E rid) (\<lambda>r. lift (committed_retirement_result rt r False))) (\<lambda>last0.
     case last0 of
       None \<Rightarrow> ret None
     | Some oc \<Rightarrow>
         if retirement_of st rid = None \<and> oc_source_runtime oc \<noteq> None \<and> oc_request_id oc = rid
         then raise (StateCorrupt ''no commit marker of the retirement'')
         else if oc_request_id oc \<noteq> rid \<or> \<not> terminal (oc_status oc) then ret None
         else bnd (receipt_load E rid) (\<lambda>r. case r of
             None \<Rightarrow> ret None
           | Some rc \<Rightarrow>
               if terminal (rc_status rc) then ret None
               else if rc_payload_hash rc \<noteq> payload_hash E op target (payload_of p)
                 then raise (RequestConflict ''request_id reused with another payload'')
               else bnd (finish_request_locked E rid (oc_status oc) oc) (\<lambda>saved.
                    bnd (finalize_locked E deadline []) (\<lambda>(pending, w).
                    ret (Some (result_from_receipt saved w pending)))))))"

definition timeout_outcome :: "exec \<Rightarrow> operation \<Rightarrow> string option \<Rightarrow> acceptance \<Rightarrow> cstate \<Rightarrow> string \<Rightarrow> string \<Rightarrow> outcome" where
  "timeout_outcome q op target ac st code detail = (new_outcome (ex_request_id q) op Failed)
     \<lparr>oc_from_game := game_of (cs_active st), oc_to_game := target, oc_generation := Some (ac_generation ac),
      oc_error_code := Some code, oc_detail := Some detail\<rparr>"

definition run_accepted :: "env \<Rightarrow> exec \<Rightarrow> cstate \<Rightarrow> operation \<Rightarrow> string option \<Rightarrow> string option \<Rightarrow> acceptance \<Rightarrow>
    int \<Rightarrow> string \<Rightarrow> switch_result prog" where
  "run_accepted E q st op target rotate_target ac deadline deadline_at =
     (let replay = (ac_existing ac \<and> \<not> ac_claimed ac);
          act = (if replay then recover_locked E deadline False False
                 else run_operation E ac op (if rotate_target = None then target else rotate_target) deadline deadline_at (ex_allow q))
      in bnd (load_state E) (\<lambda>current.
         if replay \<and> cs_phase current \<noteq> Validating then recover_locked E deadline False False
         else case expected_source (ex_payload q) of
           None \<Rightarrow> act
         | Some j \<Rightarrow>
             if source_holds op j (cs_active st) then act
             else reject_accepted E
               (timeout_outcome q op target ac st ''source_fence_lost'' ''expected source runtime identity no longer matches'')
               (cs_active st) ''source_fence_lost'' ''expected source runtime identity no longer matches''))"

definition after_accept :: "env \<Rightarrow> exec \<Rightarrow> cstate \<Rightarrow> operation \<Rightarrow> string option \<Rightarrow> string option \<Rightarrow> acceptance \<Rightarrow> switch_result prog" where
  "after_accept E q st op target rotate_target ac =
     (case ac_status ac of
        AcDone s \<Rightarrow> ret (result_from_receipt (ac_receipt ac) [] False)
      | _ \<Rightarrow>
         bnd (wall_remaining E (rc_hard_deadline (ac_receipt ac))) (\<lambda>left.
         let replay = (ac_existing ac \<and> \<not> ac_claimed ac) in
         case left of
           None \<Rightarrow> run_accepted E q st op target rotate_target ac (ex_deadline q) (ex_deadline_at q)
         | Some d \<Rightarrow>
             if replay then run_accepted E q st op target rotate_target ac (ex_deadline q) (ex_deadline_at q)
             else if d \<le> 0 then
               bnd (load_state E) (\<lambda>current.
               reject_accepted E (timeout_outcome q op target ac current ''timeout'' ''hard deadline after claim'')
                 (cs_active current) ''timeout'' ''hard deadline after claim'')
             else
               bnd (monotonic E) (\<lambda>t.
               run_accepted E q st op target rotate_target ac (min (ex_deadline q) (t + d))
                 (case rc_hard_deadline (ac_receipt ac) of None \<Rightarrow> [] | Some h \<Rightarrow> h))))"

definition accept_and_run :: "env \<Rightarrow> exec \<Rightarrow> cstate \<Rightarrow> operation \<Rightarrow> string option \<Rightarrow> switch_result prog" where
  "accept_and_run E q st op target =
     bnd (if op = OpRotate
          then bnd (lift (next_rotation_game (case ex_games q of None \<Rightarrow> [] | Some g \<Rightarrow> g) (game_of (cs_active st)))) (\<lambda>g. ret (Some g))
          else ret None) (\<lambda>rotate_target.
     let tg = (if op = OpRotate then None else target) in
     bnd (attempt (\<lambda>x. is_Conflict x \<or> is_StateCorrupt x) (accept_request_locked E (ex_request_id q) op tg (ex_payload q))) (\<lambda>r. case r of
       Inr ac \<Rightarrow> after_accept E q st op target rotate_target ac
     | Inl x \<Rightarrow>
         if is_Conflict x then ret ((request_conflict q target (safe_detail x))\<lparr>sr_operation := op_str op\<rparr>)
         else bnd (reconcile_stale E (ex_request_id q) op tg (ex_payload q) (ex_deadline q)) (\<lambda>rec. case rec of
             Some res \<Rightarrow> ret res
           | None \<Rightarrow> raise x)))"

section \<open>The whole request\<close>

text \<open>\<open>start\<close> resent for a request that was recorded as \<open>switch\<close> follows the receipt.\<close>

definition follow_alias :: "env \<Rightarrow> exec \<Rightarrow> string option \<Rightarrow> receipt option \<Rightarrow> operation" where
  "follow_alias E q target existing =
     (case existing of
        None \<Rightarrow> ex_operation q
      | Some rc \<Rightarrow>
          if ex_operation q = OpStart \<and> rc_operation rc = OpSwitch \<and> rc_target rc = target \<and>
             payload_hash E (rc_operation rc) (rc_target rc) (payload_of (ex_payload q)) = rc_payload_hash rc
          then OpSwitch else ex_operation q)"

definition restart_target :: "env \<Rightarrow> exec \<Rightarrow> cstate \<Rightarrow> string option prog" where
  "restart_target E q st =
     (if ex_operation q = OpRestart \<and> ex_target q = None then
        bnd (receipt_load E (ex_request_id q)) (\<lambda>r. case r of
          Some rc \<Rightarrow> ret (if rc_target rc \<noteq> None then rc_target rc else game_of (cs_active st))
        | None \<Rightarrow> ret (game_of (cs_active st)))
      else ret (ex_target q))"

text \<open>The cases after the queue rules that end without a transition, then acceptance.\<close>

definition execute_settled :: "env \<Rightarrow> exec \<Rightarrow> cstate \<Rightarrow> operation \<Rightarrow> string option \<Rightarrow> receipt option \<Rightarrow> switch_result prog" where
  "execute_settled E q st op target0 existing =
     bnd (if op = OpRestart then
            bnd (receipt_load E (ex_request_id q)) (\<lambda>r. case r of
              Some rc \<Rightarrow> (case rc_target rc of None \<Rightarrow> raise (StateCorrupt ''restart receipt without target'') | Some t \<Rightarrow> ret (Some (Some t)))
            | None \<Rightarrow> (case cs_active st of None \<Rightarrow> ret None | Some a \<Rightarrow> ret (Some (Some (rt_game a)))))
          else ret (Some target0)) (\<lambda>tg. case tg of
       None \<Rightarrow> ret ((plain_result (ex_request_id q) (op_str op) ''failed'')
         \<lparr>sr_error_code := Some ''no_active_game'', sr_detail := Some ''no game is running''\<rparr>)
     | Some target \<Rightarrow>
         if op = OpStop \<and> cs_active st = None \<and> expected_source (ex_payload q) = None then
           (case existing of
              Some rc \<Rightarrow> if rc_status rc = Queued
                then finish_noop E q (succeeded_outcome q op None (rc_generation rc) ''no game is running'')
                else ret ((plain_result (ex_request_id q) (op_str op) ''succeeded'')\<lparr>sr_detail := Some ''no game is running''\<rparr>)
            | None \<Rightarrow> ret ((plain_result (ex_request_id q) (op_str op) ''succeeded'')\<lparr>sr_detail := Some ''no game is running''\<rparr>))
         else accept_and_run E q st op target)"

definition execute_queue :: "env \<Rightarrow> exec \<Rightarrow> cstate \<Rightarrow> string option \<Rightarrow> switch_result prog" where
  "execute_queue E q st target =
     bnd (receipt_load E (ex_request_id q)) (\<lambda>existing.
     let op = follow_alias E q target existing in
     bnd (queued_receipts E) (\<lambda>queue.
     if cs_phase st \<notin> {Idle, Ready} \<and> existing = None then
       bnd (enqueue_exec E q op target) (\<lambda>ac. ret (queued_result (ac_receipt ac) (Some st)))
     else if queue \<noteq> [] \<and> rc_request_id (hd queue) \<noteq> ex_request_id q then
       (case existing of
          Some rc \<Rightarrow> if terminal (rc_status rc) then ret (result_from_receipt rc [] False)
            else bnd (enqueue_exec E q op target) (\<lambda>ac. ret (queued_result (ac_receipt ac) (Some st)))
        | None \<Rightarrow> bnd (enqueue_exec E q op target) (\<lambda>ac. ret (queued_result (ac_receipt ac) (Some st))))
     else case (existing, cs_active st) of
       (Some rc, Some a) \<Rightarrow>
         if rc_status rc = Queued \<and> op \<in> {OpStart, OpSwitch} \<and> Some (rt_game a) = target \<and>
            expected_source (ex_payload q) = None
         then finish_noop E q (succeeded_outcome q op target (rc_generation rc) ''already running'')
         else if op = OpStart then ret (already_running q op target a)
         else execute_settled E q st op target existing
     | (None, Some a) \<Rightarrow>
         if op = OpStart then ret (already_running q op target a) else execute_settled E q st op target existing
     | _ \<Rightarrow> execute_settled E q st op target existing))"

text \<open>A recovered drain leads back to the start of \<open>_execute_locked\<close>, in phase \<open>ready\<close>: two
  rounds are enough, and the fuel of the caller is two.\<close>

fun execute_locked :: "env \<Rightarrow> nat \<Rightarrow> exec \<Rightarrow> switch_result prog" where
  "execute_locked E 0 q = raise (BaseExn ''out of fuel'')"
| "execute_locked E (Suc n) q =
     bnd (canon_initialize E) (\<lambda>st.
     bnd (restart_target E q st) (\<lambda>target.
     if cs_phase st \<in> {FailedPhase, RecoveryRequired} then
       ret ((plain_result (ex_request_id q) (op_str (ex_operation q)) ''failed'')
         \<lparr>sr_target := target, sr_error_code := Some ''recovery_required'',
          sr_detail := Some ''canonical state needs recovery''\<rparr>)
     else if cs_phase st = Draining then handle_draining E (execute_locked E n) st (q\<lparr>ex_target := target\<rparr>)
     else execute_queue E q st target))"

section \<open>Busy\<close>

definition busy_result :: "string \<Rightarrow> string \<Rightarrow> string option \<Rightarrow> string \<Rightarrow> switch_result" where
  "busy_result rid op target detail = (plain_result rid op ''busy'')
     \<lparr>sr_target := target, sr_error_code := Some ''busy'', sr_detail := Some detail\<rparr>"

definition classify_busy :: "env \<Rightarrow> exec \<Rightarrow> switch_result prog" where
  "classify_busy E q =
     bnd (if ex_operation q = OpStart then receipt_load E (ex_request_id q) else ret None) (\<lambda>r1.
     let op = follow_alias E q (ex_target q) r1 in
     bnd (if op = OpRestart then receipt_load E (ex_request_id q) else ret None) (\<lambda>r2.
     if op = OpRestart \<and> (case r2 of None \<Rightarrow> True | Some rc \<Rightarrow> rc_target rc = None)
     then ret (busy_result (ex_request_id q) (op_str op) None ''another switch in progress'')
     else
       let target = (if op = OpRestart then (case r2 of None \<Rightarrow> None | Some rc \<Rightarrow> rc_target rc) else ex_target q) in
       bnd (attempt (\<lambda>x. is_Conflict x \<or> is_Busy x) (classify_request E (ex_request_id q) op target (ex_payload q))) (\<lambda>r. case r of
         Inl x \<Rightarrow>
           if is_Conflict x then ret ((request_conflict q target (safe_detail x))\<lparr>sr_operation := op_str op\<rparr>)
           else ret (busy_result (ex_request_id q) (op_str op) target (safe_detail x))
       | Inr ac \<Rightarrow> (case ac_status ac of
             AcDone s \<Rightarrow> ret (result_from_receipt (ac_receipt ac) [] False)
           | AcQueued \<Rightarrow> ret (queued_result (ac_receipt ac) None)
           | _ \<Rightarrow> ret ((plain_result (ex_request_id q) (op_str op) ''in_progress'')
               \<lparr>sr_target := target, sr_generation := Some (ac_generation ac),
                sr_detail := Some ''same request in progress'', sr_receipt := ReceiptDoc (ac_receipt ac)\<rparr>)))))"

text \<open>Entry: one second of retries for the lock.\<close>

definition entry_retry :: int where "entry_retry = 1000000"

fun entry_loop :: "env \<Rightarrow> nat \<Rightarrow> int \<Rightarrow> switch_result prog \<Rightarrow> switch_result prog \<Rightarrow> switch_result prog" where
  "entry_loop E 0 until body busy = raise (BaseExn ''out of fuel'')"
| "entry_loop E (Suc n) until body busy =
     bnd (attempt is_Busy (transaction E body)) (\<lambda>r. case r of
       Inr res \<Rightarrow> ret res
     | Inl x \<Rightarrow>
         bnd (monotonic E) (\<lambda>t.
         if until \<le> t then busy
         else bnd (sleep (min (e_poll E) (until - t))) (\<lambda>_. entry_loop E n until body busy)))"

definition with_entry_retry :: "env \<Rightarrow> int \<Rightarrow> switch_result prog \<Rightarrow> switch_result prog \<Rightarrow> switch_result prog" where
  "with_entry_retry E deadline body busy =
     bnd (monotonic E) (\<lambda>t1. bnd (monotonic E) (\<lambda>t2.
     entry_loop E (poll_rounds E entry_retry) (t1 + min entry_retry (max (deadline - t2) 0)) body busy))"

section \<open>Public operations\<close>

text \<open>The payload a capped request is identified by: the marker, unless an older receipt of the same
  request was written without it.\<close>

definition capped_payload :: "env \<Rightarrow> string \<Rightarrow> operation \<Rightarrow> string option \<Rightarrow> payload option \<Rightarrow> payload prog" where
  "capped_payload E rid op target p =
     bnd (receipt_load E rid) (\<lambda>r.
     let legacy = payload_of p in
     case r of
       None \<Rightarrow> ret (extension_marker legacy)
     | Some rc \<Rightarrow>
         let lop = (if op = OpStart \<and> rc_operation rc = OpSwitch \<and> rc_target rc = target then OpSwitch else op)
         in if rc_target rc = target \<and> rc_payload_hash rc = payload_hash E lop target legacy
            then ret legacy else ret (extension_marker legacy))"

definition execute :: "env \<Rightarrow> operation \<Rightarrow> string option \<Rightarrow> string list option \<Rightarrow> string option \<Rightarrow> int option \<Rightarrow>
    payload option \<Rightarrow> bool \<Rightarrow> switch_result prog" where
  "execute E op0 target0 games rid0 timeout0 payload0 allow =
     bnd (case rid0 of None \<Rightarrow> fresh_uuid E | Some r \<Rightarrow> lift (validate_request_id r)) (\<lambda>rid.
     bnd (if op0 = OpRestart then
            (if target0 \<noteq> None then raise (NameInvalid ''restart takes no target'') else ret (op0, None))
          else lift (validate_request op0 target0)) (\<lambda>(op, target).
     bnd (if allow then ret payload0
          else bnd (capped_payload E rid op target payload0) (\<lambda>p. ret (Some p))) (\<lambda>p1.
     let p = (if op = OpRotate
          then Some (json_put ''rotation_games'' (JArr (List.map JStr (case games of None \<Rightarrow> [] | Some g \<Rightarrow> g))) (payload_of p1))
          else p1);
         timeout = (case timeout0 of None \<Rightarrow> e_default_timeout E | Some t \<Rightarrow> t) in
     if timeout \<le> 0 then raise (ValueError ''timeout_s'')
     else
       bnd (monotonic E) (\<lambda>t.
       bnd (utc_after E timeout) (\<lambda>at.
       let q = \<lparr>ex_request_id = rid, ex_operation = op, ex_target = target, ex_payload = p,
                ex_deadline = t + timeout, ex_deadline_at = at, ex_games = games, ex_allow = allow\<rparr>
       in with_entry_retry E (ex_deadline q) (execute_locked E 2 q) (classify_busy E q))))))"

definition start :: "env \<Rightarrow> string \<Rightarrow> string option \<Rightarrow> int option \<Rightarrow> payload option \<Rightarrow> bool \<Rightarrow> switch_result prog" where
  "start E game rid timeout p allow = execute E OpStart (Some game) None rid timeout p allow"

definition stop :: "env \<Rightarrow> string option \<Rightarrow> int option \<Rightarrow> payload option \<Rightarrow> switch_result prog" where
  "stop E rid timeout p = execute E OpStop None None rid timeout p True"

definition switch :: "env \<Rightarrow> string \<Rightarrow> string option \<Rightarrow> int option \<Rightarrow> payload option \<Rightarrow> bool \<Rightarrow> switch_result prog" where
  "switch E target rid timeout p allow = execute E OpSwitch (Some target) None rid timeout p allow"

definition restart :: "env \<Rightarrow> string option \<Rightarrow> int option \<Rightarrow> payload option \<Rightarrow> switch_result prog" where
  "restart E rid timeout p = execute E OpRestart None None rid timeout p True"

definition rotate_games :: "env \<Rightarrow> string list \<Rightarrow> string option \<Rightarrow> int option \<Rightarrow> payload option \<Rightarrow> switch_result prog" where
  "rotate_games E games rid timeout p =
     (if games = [] \<or> \<not> list_all (matches_name 63) games then
        ret ((plain_result (case rid of None \<Rightarrow> [] | Some r \<Rightarrow> r) ''rotate'' ''failed'')
          \<lparr>sr_error_code := Some ''invalid_rotation'',
           sr_detail := Some (if games = [] then ''rotation games empty'' else ''game name'')\<rparr>)
      else execute E OpRotate None (Some games) rid timeout p True)"

definition recover :: "env \<Rightarrow> int option \<Rightarrow> bool \<Rightarrow> cstate option \<Rightarrow> bool \<Rightarrow> switch_result prog" where
  "recover E timeout abandon_view snapshot adopt =
     bnd (monotonic E) (\<lambda>t.
     let deadline = t + (case timeout of None \<Rightarrow> e_default_timeout E | Some x \<Rightarrow> x) in
     with_entry_retry E deadline
       (bnd (case snapshot of
               None \<Rightarrow> ret True
             | Some expected \<Rightarrow> bnd (canon_load E) (\<lambda>(observed, missing). ret (\<not> missing \<and> observed = expected))) (\<lambda>same.
        if same then recover_locked E deadline abandon_view adopt
        else ret (recover_result ''failed'' (Some ''source_fence_lost'') ''recover source changed before execution'' [] True)))
       (ret (busy_result [] ''recover'' None ''switch in progress'')))"

section \<open>The queue driver\<close>

definition fifo_result :: "string \<Rightarrow> string \<Rightarrow> string option \<Rightarrow> string option \<Rightarrow> string \<Rightarrow> switch_result" where
  "fifo_result op st from_game code detail = (plain_result [] op st)
     \<lparr>sr_from_game := from_game, sr_error_code := code, sr_detail := Some detail\<rparr>"

text \<open>Under the lock: the head to run, or the result when there is nothing to run.\<close>

definition peek_queue :: "env \<Rightarrow> (switch_result + receipt) prog" where
  "peek_queue E =
     bnd (canon_initialize E) (\<lambda>st.
     if cs_phase st \<notin> {Idle, Ready}
     then ret (Inl (fifo_result ''resume_fifo'' ''busy'' (game_of (cs_active st)) (Some ''busy'') ''phase not stable''))
     else bnd (queued_receipts E) (\<lambda>queue.
       if queue = [] then ret (Inl (fifo_result ''resume_fifo'' ''succeeded'' (game_of (cs_active st)) None ''queue empty''))
       else let rc = hd queue in
         bnd (wall_remaining E (rc_hard_deadline rc)) (\<lambda>left.
         if (case left of None \<Rightarrow> False | Some d \<Rightarrow> d \<le> 0) then
           bnd (finish_request_locked E (rc_request_id rc) Failed
             ((new_outcome (rc_request_id rc) (rc_operation rc) Failed)
               \<lparr>oc_from_game := game_of (cs_active st), oc_to_game := rc_target rc,
                oc_generation := Some (rc_generation rc), oc_error_code := Some ''timeout'',
                oc_detail := Some ''hard deadline before claim''\<rparr>)) (\<lambda>saved.
           ret (Inl (result_from_receipt saved [] False)))
         else ret (Inr rc))))"

definition replay_head :: "env \<Rightarrow> int option \<Rightarrow> receipt \<Rightarrow> switch_result prog" where
  "replay_head E timeout0 rc =
     bnd (wall_remaining E (rc_hard_deadline rc)) (\<lambda>left.
     let rid = Some (rc_request_id rc);
         timeout = (case left of None \<Rightarrow> timeout0
            | Some d \<Rightarrow> Some (max (min (case timeout0 of None \<Rightarrow> e_default_timeout E | Some t \<Rightarrow> t) d) 1));
         allow = (case rc_allow_extension rc of None \<Rightarrow> True | Some b \<Rightarrow> b)
     in case (rc_operation rc, rc_target rc) of
       (OpStart, Some t) \<Rightarrow> start E t rid timeout None allow
     | (OpSwitch, Some t) \<Rightarrow> switch E t rid timeout None allow
     | (OpStop, None) \<Rightarrow> stop E rid timeout None
     | (OpRestart, Some t) \<Rightarrow> restart E rid timeout None
     | (op, tg) \<Rightarrow> ret ((plain_result (rc_request_id rc) (op_str op) ''failed'')
         \<lparr>sr_target := tg, sr_to_game := tg, sr_generation := Some (rc_generation rc),
          sr_error_code := Some ''recovery_required'', sr_detail := Some ''queue head kept'',
          sr_receipt := ReceiptDoc rc\<rparr>))"

definition resume_queued :: "env \<Rightarrow> int option \<Rightarrow> switch_result prog" where
  "resume_queued E timeout =
     bnd (attempt is_Busy (transaction E (peek_queue E))) (\<lambda>r. case r of
       Inl x \<Rightarrow> ret (fifo_result ''resume_fifo'' ''busy'' None (Some ''busy'') (safe_detail x))
     | Inr (Inl res) \<Rightarrow> ret res
     | Inr (Inr rc) \<Rightarrow> replay_head E timeout rc)"

definition op_or :: "operation option \<Rightarrow> string \<Rightarrow> string" where
  "op_or op d = (case op of None \<Rightarrow> d | Some x \<Rightarrow> op_str x)"

definition maintain_result :: "cstate \<Rightarrow> string \<Rightarrow> string \<Rightarrow> string \<Rightarrow> switch_result" where
  "maintain_result st status_text code detail =
     (plain_result (case cs_request_id st of None \<Rightarrow> [] | Some r \<Rightarrow> r) (op_or (cs_operation st) ''maintain_fifo'') status_text)
       \<lparr>sr_from_game := game_of (cs_active st), sr_generation := map_option rt_generation (cs_active st),
        sr_error_code := Some code, sr_detail := Some detail\<rparr>"

text \<open>Under the lock: a result that ends the maintenance, or what the recovered drain reported.\<close>

definition maintain_locked :: "env \<Rightarrow> int option \<Rightarrow> (switch_result + switch_result option) prog" where
  "maintain_locked E timeout =
     bnd (canon_initialize E) (\<lambda>st.
     if cs_phase st = Draining then
       bnd (wall_expired E (cs_deadline_at st)) (\<lambda>late.
       if \<not> late then ret (Inl (maintain_result st ''busy'' ''busy'' ''waiting for the boundary''))
       else
         bnd (monotonic E) (\<lambda>t.
         bnd (recover_draining E st (t + (case timeout of None \<Rightarrow> e_default_timeout E | Some x \<Rightarrow> x))) (\<lambda>recovered.
         bnd (load_state E) (\<lambda>current.
         if cs_phase current \<noteq> Ready then ret (Inl recovered) else ret (Inr (Some recovered))))))
     else if cs_phase st \<in> {Idle, Ready} then ret (Inr None)
     else ret (Inl (maintain_result st ''failed'' ''recovery_required'' ''phase not maintained'')))"

definition maintain_fifo :: "env \<Rightarrow> int option \<Rightarrow> switch_result prog" where
  "maintain_fifo E timeout =
     bnd (attempt is_Busy (transaction E (maintain_locked E timeout))) (\<lambda>r. case r of
       Inl x \<Rightarrow> ret (fifo_result ''maintain_fifo'' ''busy'' None (Some ''busy'') (safe_detail x))
     | Inr (Inl res) \<Rightarrow> ret res
     | Inr (Inr recovered) \<Rightarrow>
         bnd (resume_queued E timeout) (\<lambda>resumed.
         case recovered of
           None \<Rightarrow> ret resumed
         | Some res \<Rightarrow> if sr_request_id resumed = [] then ret res else ret resumed))"

section \<open>The agent watchdog\<close>

fun await_agent :: "env \<Rightarrow> nat \<Rightarrow> adapter \<Rightarrow> int \<Rightarrow> bool prog" where
  "await_agent E 0 ad deadline = ret False"
| "await_agent E (Suc n) ad deadline =
     bnd (call_adapter E SAgentAlive ad deadline (e_t_probe E)) (\<lambda>v.
     if py_truth v then ret True
     else if n = 0 then ret False
     else bnd (monotonic E) (\<lambda>t.
       if deadline - t \<le> 0 then ret False
       else bnd (sleep (min 200000 (deadline - t))) (\<lambda>_. await_agent E n ad deadline)))"

definition restart_agent :: "env \<Rightarrow> adapter \<Rightarrow> int \<Rightarrow> bool option prog" where
  "restart_agent E ad deadline =
     bnd (attempt is_Exception
       (bnd (call_adapter E SStopAgent ad deadline (e_t_stop_agent E)) (\<lambda>_.
        bnd (call_adapter E SStartAgent ad deadline (e_t_agent_start E)) (\<lambda>_.
        await_agent E 5 ad deadline)))) (\<lambda>r. case r of
       Inl x \<Rightarrow> ret (Some False)
     | Inr b \<Rightarrow> ret (Some b))"

definition repair_body :: "env \<Rightarrow> string option \<Rightarrow> int \<Rightarrow> bool option prog" where
  "repair_body E game deadline =
     bnd (canon_initialize E) (\<lambda>st. case cs_active st of
       None \<Rightarrow> ret None
     | Some active \<Rightarrow>
         if cs_phase st \<noteq> Ready \<or> (case game of None \<Rightarrow> False | Some g \<Rightarrow> rt_game active \<noteq> g) then ret None
         else bnd (adapter_for E active deadline) (\<lambda>ad.
           if \<not> ad_agent_enabled ad then ret (Some True)
           else if ad_agent_alive ad \<noteq> Callable then ret None
           else bnd (attempt is_Exception (call_adapter E SAgentAlive ad deadline (e_t_probe E))) (\<lambda>r. case r of
             Inl x \<Rightarrow> ret None
           | Inr v \<Rightarrow>
               if py_truth v then ret (Some True)
               else bnd (probe_alive E ad deadline) (\<lambda>a.
                 if a \<noteq> Some True then ret None else restart_agent E ad deadline))))"

definition repair_active_agent :: "env \<Rightarrow> string option \<Rightarrow> int option \<Rightarrow> bool option prog" where
  "repair_active_agent E game timeout =
     (let budget = (case timeout of None \<Rightarrow> 30000000 | Some t \<Rightarrow> t) in
      if budget \<le> 0 then ret None
      else bnd (monotonic E) (\<lambda>t.
        bnd (attempt is_Exception (transaction E (repair_body E game (t + budget)))) (\<lambda>r. case r of
          Inl x \<Rightarrow> ret None
        | Inr v \<Rightarrow> ret v)))"

section \<open>The contract\<close>

context coordinator_contract
begin

lemma enqueue_exec_ok: "steps R (enqueue_exec E q op tg)"
  unfolding enqueue_exec_def by (rule enqueue_ok)

lemma reject_ok: "steps R (reject_accepted E oc a code det)"
  unfolding reject_accepted_def by (intro recovery_rules)

lemma recover_then_ok: "steps R a \<Longrightarrow> steps R b \<Longrightarrow> steps R (recover_then E st d a b)"
  unfolding recover_then_def by (intro recovery_rules)

lemma handle_draining_ok: "(\<And>q. steps R (again q)) \<Longrightarrow> steps R (handle_draining E again st q)"
  unfolding handle_draining_def Let_def by (intro recovery_rules recover_then_ok enqueue_exec_ok)

lemma finish_noop_ok: "steps R (finish_noop E q l)"
  unfolding finish_noop_def by (intro recovery_rules)

lemma reconcile_stale_ok: "steps R (reconcile_stale E rid op tg p d)"
  unfolding reconcile_stale_def by (intro recovery_rules)

lemma run_accepted_ok: "steps R (run_accepted E q st op tg rt ac d da)"
  unfolding run_accepted_def Let_def by (intro recovery_rules reject_ok)

lemma so_ac: "steps R m1 \<Longrightarrow> steps R m2 \<Longrightarrow> steps R m3 \<Longrightarrow> (\<And>s. steps R (f s)) \<Longrightarrow>
  steps R (case x of AcAccepted \<Rightarrow> m1 | AcInProgress \<Rightarrow> m2 | AcQueued \<Rightarrow> m3 | AcDone s \<Rightarrow> f s)"
  by (cases x) auto

lemma after_accept_ok: "steps R (after_accept E q st op tg rt ac)"
  unfolding after_accept_def Let_def by (intro so_ac recovery_rules reject_ok run_accepted_ok)

lemma accept_and_run_ok: "steps R (accept_and_run E q st op tg)"
  unfolding accept_and_run_def by (intro recovery_rules after_accept_ok reconcile_stale_ok)

lemma restart_target_ok: "steps R (restart_target E q st)"
  unfolding restart_target_def by (intro recovery_rules)

lemma execute_settled_ok: "steps R (execute_settled E q st op tg ex)"
  unfolding execute_settled_def by (intro recovery_rules finish_noop_ok accept_and_run_ok)

lemma execute_queue_ok: "steps R (execute_queue E q st tg)"
  unfolding execute_queue_def
  by (intro recovery_rules finish_noop_ok enqueue_exec_ok execute_settled_ok)

lemma execute_locked_ok: "steps R (execute_locked E n q)"
proof (induction n arbitrary: q)
  case (Suc n)
  then show ?case
    by (simp only: execute_locked.simps)
      (intro recovery_rules restart_target_ok handle_draining_ok execute_queue_ok)
qed (simp only: execute_locked.simps so_raise)

lemma classify_busy_ok: "steps R (classify_busy E q)"
  unfolding classify_busy_def by (intro so_ac recovery_rules)

lemma entry_ok: "steps R body \<Longrightarrow> steps R busy \<Longrightarrow> steps R (with_entry_retry E d body busy)"
proof -
  assume b: "steps R body" "steps R busy"
  have "steps R (entry_loop E n u body busy)" for n u
  proof (induction n)
    case (Suc n)
    with b show ?case by (simp only: entry_loop.simps) (intro recovery_rules)
  qed (simp only: entry_loop.simps so_raise)
  then show ?thesis unfolding with_entry_retry_def by (intro recovery_rules)
qed

lemma execute_ok: "steps R (execute E op tg g rid t p al)"
  unfolding execute_def capped_payload_def Let_def
  by (intro recovery_rules entry_ok execute_locked_ok classify_busy_ok)

lemma peek_ok: "steps R (peek_queue E)"
  unfolding peek_queue_def by (intro recovery_rules)

lemma so_operation: "steps R a \<Longrightarrow> steps R b \<Longrightarrow> steps R c \<Longrightarrow> steps R d \<Longrightarrow> steps R e \<Longrightarrow> steps R f \<Longrightarrow>
  steps R (case x of OpStart \<Rightarrow> a | OpStop \<Rightarrow> b | OpSwitch \<Rightarrow> c | OpRestart \<Rightarrow> d | OpRotate \<Rightarrow> e | OpRecover \<Rightarrow> f)"
  by (cases x) auto

text \<open>Every public operation stays inside the relation.\<close>

lemma api_ok:
  "steps R (start E game rid t p al)" "steps R (stop E rid t p)" "steps R (switch E game rid t p al)"
  "steps R (restart E rid t p)" "steps R (rotate_games E games rid t p)"
  unfolding start_def stop_def switch_def restart_def rotate_games_def
  by (intro recovery_rules execute_ok)+

lemma replay_ok: "steps R (replay_head E t rc)"
  unfolding replay_head_def by (intro recovery_rules so_operation api_ok)

lemma queue_api_ok: "steps R (resume_queued E t)" "steps R (maintain_fifo E t)"
proof -
  show r: "steps R (resume_queued E t)"
    unfolding resume_queued_def by (intro recovery_rules peek_ok replay_ok)
  show "steps R (maintain_fifo E t)"
    unfolding maintain_fifo_def maintain_locked_def by (intro recovery_rules r)
qed

lemma recover_api_ok: "steps R (recover E t a snap ad)"
  unfolding recover_def by (intro recovery_rules entry_ok)

lemma await_agent_ok: "steps R (await_agent E n ad d)"
proof (induction n)
  case (Suc n)
  then show ?case by (simp only: await_agent.simps) (intro recovery_rules)
qed (simp only: await_agent.simps so_ret)

lemma repair_ok: "steps R (repair_active_agent E g t)"
  unfolding repair_active_agent_def repair_body_def restart_agent_def
  by (intro recovery_rules await_agent_ok)

end

end
