(* ===== verification/StoreRuns.thy ===== *)
theory StoreRuns
  imports StoreFacts
begin

text \<open>
  Runs of the store taken apart: what a successful run of each operation did, step by step.  The
  properties of accepting, claiming, finishing and retention rest on these lemmas.
\<close>

section \<open>Reading the directory of receipts\<close>

definition on_file :: "machine \<Rightarrow> receipt \<Rightarrow> bool" where
  "on_file s rc \<longleftrightarrow> (\<exists>k. validate_request_id k = Inr k \<and> entry s k = Some (Stored rc))"

lemma receipt_read_run:
  assumes "receipt_read E stem s = (r, t)"
  shows "t = s" and "r = Inr v \<Longrightarrow> \<exists>k. validate_request_id stem = Inr k \<and>
    (case v of None \<Rightarrow> entry s k = None | Some rc \<Rightarrow> holds_receipt E k rc s)"
proof -
  obtain r1 u where l: "receipt_load E stem s = (r1, u)" by fastforce
  note run = receipt_load_run [OF l]
  show "t = s" using assms l run(1)
    by (auto simp: receipt_read_def bnd_def attempt_def split: sum.splits if_splits)
  assume "r = Inr v"
  with assms l have "r1 = Inr v"
    by (auto simp: receipt_read_def bnd_def attempt_def split: sum.splits if_splits)
  with run(2,3) show "\<exists>k. validate_request_id stem = Inr k \<and>
      (case v of None \<Rightarrow> entry s k = None | Some rc \<Rightarrow> holds_receipt E k rc s)"
    by (cases v) auto
qed

lemma gather_run:
  assumes "gather f xs s = (r, t)" "\<And>x s r t. f x s = (r, t) \<Longrightarrow> t = s"
  shows "t = s \<and> (\<forall>ys. r = Inr ys \<longrightarrow> list_all2 (\<lambda>x y. f x s = (Inr y, s)) xs ys)"
  using assms(1)
proof (induction xs arbitrary: r t)
  case (Cons x xs)
  obtain r1 u where f: "f x s = (r1, u)" by fastforce
  with assms(2) have u: "u = s" by blast
  show ?case
  proof (cases r1)
    case (Inl y)
    with Cons.prems f u show ?thesis by (auto simp: bnd_def)
  next
    case (Inr y)
    obtain r2 u2 where g: "gather f xs s = (r2, u2)" by fastforce
    from Cons.IH [OF g] Cons.prems f u Inr g show ?thesis
      by (cases r2) (auto simp: bnd_def)
  qed
qed simp

lemma all2_members:
  assumes "list_all2 P xs ys"
  shows "\<forall>y\<in>set ys. \<exists>x\<in>set xs. P x y" "\<forall>x\<in>set xs. \<exists>y\<in>set ys. P x y"
  using assms by (induction rule: list_all2_induct) auto

lemma all_receipts_run:
  assumes "all_receipts E s = (r, t)"
  shows "t = s"
    and "r = Inr rcs \<Longrightarrow> rc \<in> set rcs \<Longrightarrow> \<exists>k. validate_request_id k = Inr k \<and> holds_receipt E k rc s"
    and "r = Inr rcs \<Longrightarrow> on_file s rc \<Longrightarrow> rc \<in> set rcs"
proof -
  define stems where "stems = sort (List.map fst (m_receipts s))"
  obtain r1 u where g: "gather (receipt_read E) stems s = (r1, u)" by fastforce
  have gr: "u = s" "\<And>ys. r1 = Inr ys \<Longrightarrow> list_all2 (\<lambda>x y. receipt_read E x s = (Inr y, s)) stems ys"
    using gather_run [OF g] receipt_read_run(1) by blast+
  have e: "all_receipts E s = (case r1 of Inl x \<Rightarrow> Inl x | Inr ys \<Rightarrow> Inr (concat (List.map opt_list ys)), s)"
    using g gr(1) by (cases r1) (auto simp: all_receipts_def bnd_def stems_def)
  with assms show "t = s" by simp
  assume r: "r = Inr rcs"
  with e assms obtain ys where ys: "r1 = Inr ys" "rcs = concat (List.map opt_list ys)"
    by (cases r1) auto
  note all2 = gr(2) [OF ys(1)]
  show "\<exists>k. validate_request_id k = Inr k \<and> holds_receipt E k rc s" if "rc \<in> set rcs"
  proof -
    from that ys have "Some rc \<in> set ys" by (auto simp: opt_list_def split: option.splits)
    with all2_members(1) [OF all2] obtain x where "receipt_read E x s = (Inr (Some rc), s)" by blast
    from receipt_read_run(2) [OF this refl] show ?thesis
      by (auto dest: validate_request_id_idem)
  qed
  show "rc \<in> set rcs" if f: "on_file s rc"
  proof -
    from f obtain k where k: "validate_request_id k = Inr k" "entry s k = Some (Stored rc)"
      by (auto simp: on_file_def)
    from map_of_SomeD [OF k(2)] have "k \<in> fst ` set (m_receipts s)" by (rule image_eqI [rotated]) simp
    then have "k \<in> set stems" by (simp add: stems_def)
    with all2_members(2) [OF all2] obtain v where v: "v \<in> set ys" "receipt_read E k s = (Inr v, s)" by blast
    from receipt_read_run(2) [OF v(2) refl] k have "v = Some rc"
      by (auto simp: holds_receipt_def split: option.splits)
    with v ys show ?thesis by force
  qed
qed

lemma queued_receipts_run:
  assumes "queued_receipts E s = (r, t)"
  shows "t = s" and "r = Inr q \<Longrightarrow> \<exists>rcs. all_receipts E s = (Inr rcs, s) \<and> q = queue_order rcs"
  using assms all_receipts_run(1) [of E s]
  by (auto simp: queued_receipts_def bnd_def split: sum.splits prod.splits)

lemma queue_order_sorted: "sorted (List.map queue_key (queue_order rcs))"
  by (simp add: queue_order_def)

lemma queue_order_set: "set (queue_order rcs) = {rc \<in> set rcs. rc_status rc = Queued}"
  by (auto simp: queue_order_def)

lemma queue_head_least:
  assumes "queue_order rcs \<noteq> []" "rc \<in> set rcs" "rc_status rc = Queued"
  shows "queue_key (hd (queue_order rcs)) \<le> queue_key rc"
proof -
  obtain x xs where q: "queue_order rcs = x # xs" using assms(1) by (cases "queue_order rcs") auto
  with queue_order_sorted [of rcs] have "\<forall>y\<in>set (x # xs). queue_key x \<le> queue_key y" by auto
  moreover have "rc \<in> set (x # xs)" using queue_order_set [of rcs] assms(2,3) q by auto
  ultimately show ?thesis using q by auto
qed

lemma top_generation_ge: "rc \<in> set rcs \<Longrightarrow> rc_generation rc \<le> top_generation rcs"
  by (auto simp: top_generation_def)

section \<open>Retention\<close>

definition retained :: "string list \<Rightarrow> machine \<Rightarrow> machine \<Rightarrow> bool" where
  "retained pinned s t \<longleftrightarrow> m_canon t = m_canon s \<and>
     (\<forall>k. validate_request_id k = Inr k \<longrightarrow> entry t k = entry s k \<or>
        (entry t k = None \<and> (\<exists>rc. entry s k = Some (Stored rc) \<and> terminal (rc_status rc) \<and> rc_request_id rc \<notin> set pinned)))"

lemma retained_refl: "retained ps s s"
  by (simp add: retained_def)

lemma unlink_run:
  assumes "unlink_receipt E rid s = (r, t)"
  shows "m_canon t = m_canon s" and "k \<noteq> j \<Longrightarrow> validate_request_id rid = Inr j \<Longrightarrow> entry t k = entry s k"
    "entry t k = entry s k \<or> entry t k = None"
    and "validate_request_id rid = Inl x \<Longrightarrow> entry t k = entry s k"
  using assms
  by (auto simp: unlink_receipt_def bnd_def atomic_write_def Let_def split: sum.splits fault.splits if_splits)

lemma unlink_all_run:
  assumes "gather (\<lambda>rc. unlink_receipt E (rc_request_id rc)) vs u = (r, t)"
    and "\<And>rc. rc \<in> set vs \<Longrightarrow> terminal (rc_status rc) \<and> rc_request_id rc \<notin> set ps \<and>
      (\<exists>k. validate_request_id k = Inr k \<and> validate_request_id (rc_request_id rc) = Inr k \<and> entry s k = Some (Stored rc))"
    and "retained ps s u"
  shows "retained ps s t"
  using assms
proof (induction vs arbitrary: u r t)
  case (Cons rc vs)
  obtain r1 w where f: "unlink_receipt E (rc_request_id rc) u = (r1, w)" by fastforce
  note f = unlink_run [OF f] f
  obtain k where k: "validate_request_id k = Inr k" "validate_request_id (rc_request_id rc) = Inr k"
      "entry s k = Some (Stored rc)" "terminal (rc_status rc)" "rc_request_id rc \<notin> set ps"
    using Cons.prems(2) [of rc] by auto
  have w: "retained ps s w"
    unfolding retained_def
  proof (intro conjI allI impI)
    show "m_canon w = m_canon s" using f(1) Cons.prems(3) by (simp add: retained_def)
    fix j assume "validate_request_id j = Inr j"
    with Cons.prems(3) f(2) [of j k, OF _ k(2)] f(3) [of j] k
    show "entry w j = entry s j \<or> (entry w j = None \<and>
      (\<exists>rc. entry s j = Some (Stored rc) \<and> terminal (rc_status rc) \<and> rc_request_id rc \<notin> set ps))"
      by (cases "j = k") (auto simp: retained_def)
  qed
  show ?case
  proof (cases r1)
    case (Inl x)
    with Cons.prems(1) f(5) w show ?thesis by (auto simp: bnd_def)
  next
    case (Inr y)
    obtain r2 t2 where g: "gather (\<lambda>rc. unlink_receipt E (rc_request_id rc)) vs w = (r2, t2)" by fastforce
    have "retained ps s t2" by (rule Cons.IH [OF g _ w]) (use Cons.prems(2) in auto)
    with Cons.prems(1) f(5) Inr g show ?thesis by (cases r2) (auto simp: bnd_def)
  qed
qed auto

lemma pinned_receipts_sound:
  assumes "pinned_receipts rts = Inr ps" "rt \<in> set rts" "rd_retirement rt = Some res"
  shows "\<exists>k. validate_request_id (oc_request_id res) = Inr k \<and> k \<in> set ps"
  using assms
proof (induction rts arbitrary: ps)
  case (Cons r rts)
  show ?case
  proof (cases "pinned_receipts rts")
    case (Inl x)
    with Cons.prems show ?thesis
      by (auto simp: pinned_receipts_def split: option.splits sum.splits)
  next
    case (Inr qs)
    with Cons show ?thesis
      by (auto simp: pinned_receipts_def split: option.splits sum.splits)
  qed
qed simp

lemma load_state_run:
  assumes "load_state E s = (r, t)"
  shows "m_canon t = m_canon s" "m_receipts t = m_receipts s" "m_unlinked t = m_unlinked s" "m_lock t = m_lock s"
    and "r = Inr st \<Longrightarrow> holds_state st s \<or> (m_canon s = None \<and> (\<exists>u. st = fresh_state u))"
proof -
  obtain r1 u where l: "canon_load E s = (r1, u)" by fastforce
  from l have "m_canon t = m_canon s \<and> m_receipts t = m_receipts s \<and> m_unlinked t = m_unlinked s \<and> m_lock t = m_lock s \<and>
      (r = Inr st \<longrightarrow> holds_state st s \<or> (m_canon s = None \<and> (\<exists>u. st = fresh_state u)))"
    by (cases rule: canon_load_cases) (use assms l in \<open>auto simp: load_state_def bnd_def holds_state_def\<close>)
  then show "m_canon t = m_canon s" "m_receipts t = m_receipts s" "m_unlinked t = m_unlinked s" "m_lock t = m_lock s"
    "r = Inr st \<Longrightarrow> holds_state st s \<or> (m_canon s = None \<and> (\<exists>u. st = fresh_state u))" by auto
qed

lemma retained_entries: "retained ps s u \<Longrightarrow> m_canon t = m_canon u \<Longrightarrow> m_receipts t = m_receipts u \<Longrightarrow> retained ps s t"
  by (simp add: retained_def)

lemma atomic_write_frame:
  assumes "atomic_write E f s = (r, t)" "\<And>u. m_canon (f u) = m_canon u \<and> m_receipts (f u) = m_receipts u"
  shows "m_canon t = m_canon s" "m_receipts t = m_receipts s"
  using assms by (auto simp: atomic_write_def Let_def split: fault.splits)

lemma bnd_cases:
  assumes "bnd m f s = (r, t)"
  obtains (raised) x where "m s = (Inl x, t)" "r = Inl x" | (went) v u where "m s = (Inr v, u)" "f v u = (r, t)"
  using assms by (auto simp: bnd_def split: prod.splits sum.splits)

lemma prune_cases:
  assumes e: "prune_terminal E n s = (r, t)"
  obtains (unchanged) "m_canon t = m_canon s" "m_receipts t = m_receipts s"
  | (some) rcs s2 st ps vs r3 s3 where "all_receipts E s = (Inr rcs, s)" "load_state E s = (Inr st, s2)"
      "pinned_receipts (cs_retiring st) = Inr ps" "set vs \<subseteq> set (prunable ps rcs)"
      "gather (\<lambda>rc. unlink_receipt E (rc_request_id rc)) vs s2 = (r3, s3)"
      "m_canon t = m_canon s3" "m_receipts t = m_receipts s3"
proof (cases "n < 1")
  case True
  with e have "t = s" by (simp add: prune_terminal_def)
  then have "m_canon t = m_canon s" "m_receipts t = m_receipts s" by simp_all
  then show thesis by (rule unchanged)
next
  case False
  define body where "body st ps rcs = (let victims = prunable ps rcs;
        removable = min (length victims) (length rcs - n)
      in bnd (gather (\<lambda>rc. unlink_receipt E (rc_request_id rc)) (take removable victims)) (\<lambda>_.
         bnd (if removable = 0 then ret () else atomic_write E (\<lambda>s. s)) (\<lambda>_. ret removable)))" for st :: cstate and ps rcs
  from False e have "bnd (all_receipts E) (\<lambda>rcs. if length rcs \<le> n then ret 0
      else bnd (load_state E) (\<lambda>st. bnd (lift (pinned_receipts (cs_retiring st))) (\<lambda>ps. body st ps rcs))) s = (r, t)"
    unfolding prune_terminal_def body_def by simp
  then show thesis
  proof (cases rule: bnd_cases)
    case (raised x)
    with all_receipts_run(1) unchanged show thesis by blast
  next
    case (went rcs u)
    with all_receipts_run(1) have a: "all_receipts E s = (Inr rcs, s)" "u = s" by blast+
    from went(2) consider (few) "t = s"
      | (many) "bnd (load_state E) (\<lambda>st. bnd (lift (pinned_receipts (cs_retiring st))) (\<lambda>ps. body st ps rcs)) s = (r, t)"
      using a(2) by (auto split: if_splits)
    then show thesis
    proof cases
      case few
      then show thesis by (intro unchanged) simp_all
    next
      case many
      then show thesis
      proof (cases rule: bnd_cases)
        case (raised x)
        with load_state_run [OF raised(1)] unchanged show thesis by blast
      next
        case (went st s2)
        note l = load_state_run [OF went(1)]
        from went(2) show thesis
        proof (cases rule: bnd_cases)
          case (raised x)
          with l unchanged show thesis by simp
        next
          case ps: (went ps u2)
          let ?vs = "take (min (length (prunable ps rcs)) (length rcs - n)) (prunable ps rcs)"
          obtain r3 s3 where g: "gather (\<lambda>rc. unlink_receipt E (rc_request_id rc)) ?vs s2 = (r3, s3)" by fastforce
          have "m_canon t = m_canon s3 \<and> m_receipts t = m_receipts s3"
            using ps g unfolding body_def
            by (auto simp: Let_def bnd_def split: sum.splits if_splits prod.splits dest: atomic_write_frame)
          with a(1) went(1) ps(1) g show thesis by (intro some) (auto dest: in_set_takeD)
        qed
      qed
    qed
  qed
qed

text \<open>Retention removes only finished receipts that no retiring runtime refers to.\<close>

lemma prune_run:
  assumes e: "prune_terminal E n s = (r, t)"
  shows "\<exists>ps. retained ps s t \<and>
    (m_receipts t = m_receipts s \<or>
     (\<forall>st rt res. m_canon s = Some (Stored st) \<longrightarrow> rt \<in> set (cs_retiring st) \<longrightarrow> rd_retirement rt = Some res \<longrightarrow>
       (\<exists>k. validate_request_id (oc_request_id res) = Inr k \<and> k \<in> set ps)))"
  using e
proof (cases rule: prune_cases)
  case unchanged
  then show ?thesis using retained_entries [OF retained_refl, of t s "[]"] by auto
next
  case (some rcs s2 st ps vs r3 s3)
  note l = load_state_run [OF some(2)]
  have "retained ps s s3"
  proof (rule unlink_all_run [OF some(5)])
    show "retained ps s s2" using l by (simp add: retained_def)
    fix rc assume "rc \<in> set vs"
    with some(4) have v: "rc \<in> set rcs" "terminal (rc_status rc)" "rc_request_id rc \<notin> set ps"
      by (auto simp: prunable_def)
    from all_receipts_run(2) [OF some(1) refl v(1)] obtain k
      where k: "validate_request_id k = Inr k" "holds_receipt E k rc s" by blast
    with holds_id [OF k(2)] v show "terminal (rc_status rc) \<and> rc_request_id rc \<notin> set ps \<and>
      (\<exists>k. validate_request_id k = Inr k \<and> validate_request_id (rc_request_id rc) = Inr k \<and> entry s k = Some (Stored rc))"
      by (auto simp: holds_receipt_def)
  qed
  with some(6,7) have "retained ps s t" by (auto intro: retained_entries)
  moreover have "\<exists>k. validate_request_id (oc_request_id res) = Inr k \<and> k \<in> set ps"
    if "m_canon s = Some (Stored st')" "rt \<in> set (cs_retiring st')" "rd_retirement rt = Some res" for st' rt res
    using pinned_receipts_sound [OF some(3)] l(5) [OF refl] that by (auto simp: holds_state_def)
  ultimately show ?thesis by blast
qed

lemma prune_keeps:
  assumes "prune_terminal E n s = (r, t)"
  shows "m_canon t = m_canon s"
    and "validate_request_id k = Inr k \<Longrightarrow> entry s k = Some (Stored rc) \<Longrightarrow> \<not> terminal (rc_status rc) \<Longrightarrow> entry t k = entry s k"
  using prune_run [OF assms] by (auto simp: retained_def)

section \<open>Saves and loads that succeeded\<close>

lemma lock_run:
  assumes "bnd require_exclusive_lock f s = (r, t)" "m_lock s"
  shows "f () s = (r, t)"
  using assms by (simp add: require_exclusive_lock_def bnd_def unless_def)

lemma receipt_save_run:
  assumes "receipt_save E rc s = (Inr v, t)"
  shows "\<exists>k u. validate_request_id (rc_request_id rc) = Inr k \<and> v = stamp_receipt rc k u \<and> valid_receipt E k v \<and>
    entry t k = Some (Stored v)"
    and "m_canon t = m_canon s" "m_lock t = m_lock s" "m_unlinked t = m_unlinked s"
    and "validate_request_id (rc_request_id rc) = Inr k \<Longrightarrow> j \<noteq> k \<Longrightarrow> entry t j = entry s j"
  using assms by (cases rule: receipt_save_cases; auto)+

lemma canon_save_run:
  assumes "canon_save E st s = (Inr v, t)"
  shows "\<exists>u. v = stamped st u" "valid_state v" "m_canon t = Some (Stored v)" "m_receipts t = m_receipts s"
    "m_lock t = m_lock s" "m_unlinked t = m_unlinked s"
  using assms by (cases rule: canon_save_cases; auto)+

lemma stamped_simps [simp]:
  "cs_phase (stamped st u) = cs_phase st" "cs_operation (stamped st u) = cs_operation st"
  "cs_request_id (stamped st u) = cs_request_id st" "cs_next_generation (stamped st u) = cs_next_generation st"
  "cs_active (stamped st u) = cs_active st" "cs_candidate (stamped st u) = cs_candidate st"
  "cs_previous (stamped st u) = cs_previous st" "cs_retiring (stamped st u) = cs_retiring st"
  "cs_last_result (stamped st u) = cs_last_result st" "cs_deadline_at (stamped st u) = cs_deadline_at st"
  "state_runtimes (stamped st u) = state_runtimes st"
  by (simp_all add: stamped_def state_runtimes_def)

lemma canon_initialize_run:
  assumes "canon_initialize E s = (Inr st, t)"
  shows "holds_state st t" "m_receipts t = m_receipts s" "m_lock t = m_lock s" "m_unlinked t = m_unlinked s"
    and "m_canon s = None \<and> (\<exists>u v. st = stamped (fresh_state u) v) \<or> (m_canon s = Some (Stored st) \<and> t = s)"
proof -
  from assms have "holds_state st t \<and> m_receipts t = m_receipts s \<and> m_lock t = m_lock s \<and> m_unlinked t = m_unlinked s \<and>
      (m_canon s = None \<and> (\<exists>u v. st = stamped (fresh_state u) v) \<or> (m_canon s = Some (Stored st) \<and> t = s))"
    unfolding canon_initialize_def
  proof (cases rule: bnd_cases)
    case (went v u)
    then obtain r1 where l: "canon_load E s = (Inr v, u)" by simp
    from l show ?thesis
    proof (cases rule: canon_load_cases)
      case (missing a)
      with went have "canon_save E (fresh_state a) u = (Inr st, t)" by simp
      from canon_save_run [OF this] missing show ?thesis by (auto simp: holds_state_def)
    next
      case (found st')
      with went show ?thesis by (auto simp: holds_state_def)
    next
      case (bad y)
      with l show ?thesis by simp
    qed
  qed simp
  then show "holds_state st t" "m_receipts t = m_receipts s" "m_lock t = m_lock s" "m_unlinked t = m_unlinked s"
    "m_canon s = None \<and> (\<exists>u v. st = stamped (fresh_state u) v) \<or> (m_canon s = Some (Stored st) \<and> t = s)" by auto
qed

lemma new_receipt_run:
  assumes "new_receipt E rid op tg h g st ext hard s = (Inr rc, t)"
  shows "rc_request_id rc = rid" "rc_operation rc = op" "rc_target rc = tg" "rc_payload_hash rc = h"
    "rc_generation rc = g" "rc_status rc = st" "rc_result rc = None" "rc_hard_deadline rc = hard"
    "m_canon t = m_canon s" "m_receipts t = m_receipts s" "m_lock t = m_lock s"
  using assms
  by (auto simp: new_receipt_def new_runtime_id_def token_hex_def utc_now_def wall_now_def bnd_def
      split: sum.splits)

lemma next_generation_run:
  assumes "next_generation_for E st s = (Inr g, t)"
  shows "t = s" "cs_next_generation st \<le> g" "on_file s rc \<Longrightarrow> rc_generation rc < g"
proof -
  from assms obtain rcs where a: "all_receipts E s = (Inr rcs, s)" "t = s"
      and g: "g = max (cs_next_generation st) (top_generation rcs + 1)"
    using all_receipts_run(1) [of E s]
    by (auto simp: next_generation_for_def max_generation_def bnd_def split: sum.splits prod.splits)
  then show "t = s" "cs_next_generation st \<le> g" by auto
  show "rc_generation rc < g" if "on_file s rc"
    using top_generation_ge [OF all_receipts_run(3) [OF a(1) refl that]] g by simp
qed

section \<open>Accepting\<close>

text \<open>What a fresh acceptance leaves on disk.\<close>

definition owned_by :: "string \<Rightarrow> operation \<Rightarrow> receipt \<Rightarrow> machine \<Rightarrow> bool" where
  "owned_by rid op rc t \<longleftrightarrow> (\<exists>st. m_canon t = Some (Stored st) \<and> valid_state st \<and> cs_phase st = Validating \<and>
     cs_operation st = Some op \<and> cs_request_id st = Some rid) \<and>
     entry t rid = Some (Stored rc) \<and> rc_status rc = Accepted"

lemma accept_fresh_run:
  assumes "accept_fresh E st rid op tg h s = (Inr a, t)" "validate_request_id rid = Inr rid"
  shows "cs_request_id st = None" "cs_phase st \<in> {Idle, Ready}" "ac_status a = AcAccepted" "\<not> ac_existing a"
    "owned_by rid op (ac_receipt a) t" "rc_generation (ac_receipt a) = ac_generation a"
    "cs_next_generation st \<le> ac_generation a" "on_file s rc \<Longrightarrow> rc_generation rc < ac_generation a"
    "\<exists>u. m_canon t = Some (Stored (stamped (st\<lparr>cs_phase := Validating, cs_operation := Some op,
       cs_request_id := Some rid, cs_next_generation := ac_generation a + 1\<rparr>) u))"
proof -
  from assms(1) show st: "cs_request_id st = None" "cs_phase st \<in> {Idle, Ready}"
    by (auto simp: accept_fresh_def split: if_splits)
  have "bnd (next_generation_for E st) (\<lambda>g.
       bnd (new_receipt E rid op tg h g Allocating None None) (\<lambda>rc0.
       bnd (receipt_save E rc0) (\<lambda>rc1.
       bnd (canon_save E (st\<lparr>cs_phase := Validating, cs_operation := Some op, cs_request_id := Some rid,
             cs_next_generation := g + 1\<rparr>)) (\<lambda>_.
       bnd (receipt_save E (rc1\<lparr>rc_status := Accepted\<rparr>)) (\<lambda>rc.
       bnd (prune_terminal E 1000) (\<lambda>_.
       ret \<lparr>ac_request_id = rid, ac_generation = g, ac_status = AcAccepted, ac_existing = False,
         ac_receipt = rc, ac_claimed = False\<rparr>)))))) s = (Inr a, t)"
    using assms(1) st by (auto simp: accept_fresh_def split: if_splits)
  then obtain g s1 rc0 s2 rc1 s3 st' s4 rc2 s5 v s6 where
      g: "next_generation_for E st s = (Inr g, s1)"
    and r0: "new_receipt E rid op tg h g Allocating None None s1 = (Inr rc0, s2)"
    and r1: "receipt_save E rc0 s2 = (Inr rc1, s3)"
    and c: "canon_save E (st\<lparr>cs_phase := Validating, cs_operation := Some op, cs_request_id := Some rid,
             cs_next_generation := g + 1\<rparr>) s3 = (Inr st', s4)"
    and r2: "receipt_save E (rc1\<lparr>rc_status := Accepted\<rparr>) s4 = (Inr rc2, s5)"
    and p: "prune_terminal E 1000 s5 = (Inr v, s6)"
    and a: "a = \<lparr>ac_request_id = rid, ac_generation = g, ac_status = AcAccepted, ac_existing = False,
         ac_receipt = rc2, ac_claimed = False\<rparr>" "t = s6"
    by (elim bnd_InrE) simp
  note gr = next_generation_run [OF g] and nr = new_receipt_run [OF r0] and cr = canon_save_run [OF c]
  obtain u1 where u1: "rc1 = stamp_receipt rc0 rid u1" using receipt_save_run(1) [OF r1] nr(1) assms(2) by auto
  then have "rc_request_id (rc1\<lparr>rc_status := Accepted\<rparr>) = rid" by simp
  with receipt_save_run(1) [OF r2] assms(2) obtain u2
    where u2: "rc2 = stamp_receipt (rc1\<lparr>rc_status := Accepted\<rparr>) rid u2" "entry s5 rid = Some (Stored rc2)" by auto
  from u2 have acc: "rc_status rc2 = Accepted" by simp
  with prune_keeps(2) [OF p assms(2) u2(2)] a u2 have e: "entry t rid = Some (Stored rc2)" by simp
  have m: "m_canon t = Some (Stored st')" using prune_keeps(1) [OF p] receipt_save_run(2) [OF r2] cr(3) a by simp
  from cr(1) m a show "\<exists>u. m_canon t = Some (Stored (stamped (st\<lparr>cs_phase := Validating, cs_operation := Some op,
       cs_request_id := Some rid, cs_next_generation := ac_generation a + 1\<rparr>) u))" by auto
  show "ac_status a = AcAccepted" "\<not> ac_existing a" using a by auto
  show "rc_generation (ac_receipt a) = ac_generation a" using a u2 u1 nr(5) by simp
  show "cs_next_generation st \<le> ac_generation a" "on_file s rc \<Longrightarrow> rc_generation rc < ac_generation a"
    using gr a by auto
  show "owned_by rid op (ac_receipt a) t"
    using cr(1,2) m e acc a unfolding owned_by_def by auto
qed

lemma accept_guard_run:
  assumes "accept_guard E st rid known s = (Inr u, t)"
  shows "t = s" "cs_request_id st = None \<or> cs_request_id st = Some rid"
    "cs_phase st \<notin> {FailedPhase, RecoveryRequired}"
    "validate_request_id rid = Inr rid \<Longrightarrow> on_file s rc \<Longrightarrow>
       entry s rid = Some (Stored rc) \<or> terminal (rc_status rc) \<or> rc_status rc = Queued"
proof -
  have "bnd (all_receipts E) (\<lambda>rcs.
        if list_ex (\<lambda>rc. \<not> terminal (rc_status rc) \<and> rc_status rc \<noteq> Queued \<and> rc_request_id rc \<noteq> rid) rcs
        then raise (Busy ''another unfinished receipt'') else ret ()) s = (Inr u, t)"
    using assms by (auto simp: accept_guard_def split: if_splits)
  then obtain rcs s1 where a: "all_receipts E s = (Inr rcs, s1)"
      and f: "\<not> list_ex (\<lambda>rc. \<not> terminal (rc_status rc) \<and> rc_status rc \<noteq> Queued \<and> rc_request_id rc \<noteq> rid) rcs" "t = s1"
    by (elim bnd_InrE) (auto split: if_splits)
  from all_receipts_run(1) [OF a] f show "t = s" by simp
  show "cs_request_id st = None \<or> cs_request_id st = Some rid" "cs_phase st \<notin> {FailedPhase, RecoveryRequired}"
    using assms by (auto simp: accept_guard_def split: if_splits)
  show "entry s rid = Some (Stored rc) \<or> terminal (rc_status rc) \<or> rc_status rc = Queued"
    if r: "validate_request_id rid = Inr rid" "on_file s rc"
  proof -
    have m: "rc \<in> set rcs" by (rule all_receipts_run(3) [OF a refl r(2)])
    from all_receipts_run(2) [OF a refl m] obtain k where "validate_request_id k = Inr k" "holds_receipt E k rc s" by blast
    with holds_id [OF this(2)] m f r(1) show ?thesis by (auto simp: list_ex_iff holds_receipt_def)
  qed
qed

section \<open>Claiming\<close>

lemma classify_existing_run:
  assumes "classify_existing rc h = Inr a"
  shows "ac_receipt a = rc" "\<not> ac_claimed a" "ac_existing a" "rc_payload_hash rc = h"
    "ac_generation a = rc_generation rc"
    "ac_status a = (if terminal (rc_status rc) then AcDone (rc_status rc)
       else if rc_status rc = Queued then AcQueued else AcInProgress)"
  using assms by (auto simp: classify_existing_def split: if_splits)

lemma pure_reads:
  "wall_remaining E v s = (r, t) \<Longrightarrow> m_canon t = m_canon s \<and> m_receipts t = m_receipts s \<and> m_lock t = m_lock s \<and> m_unlinked t = m_unlinked s"
  by (auto simp: wall_remaining_def wall_now_def bnd_def)

text \<open>The two writes of a claim: the canonical state, then the receipt.\<close>

definition claim_writes :: "env \<Rightarrow> cstate \<Rightarrow> receipt \<Rightarrow> string \<Rightarrow> acceptance prog" where
  "claim_writes E st rc h = bnd (canon_save E st) (\<lambda>_.
     bnd (receipt_save E (rc\<lparr>rc_status := Accepted\<rparr>)) (\<lambda>claimed.
     bnd (lift (classify_existing claimed h)) (\<lambda>a. ret (a\<lparr>ac_status := AcAccepted, ac_claimed := True\<rparr>))))"

lemma claim_writes_run:
  assumes "claim_writes E st rc h s = (Inr a, t)" "validate_request_id (rc_request_id rc) = Inr rid"
    "cs_phase st = Validating" "cs_operation st = Some op" "cs_request_id st = Some rid"
  shows "owned_by rid op (ac_receipt a) t" "ac_claimed a" "ac_status a = AcAccepted" "rc_request_id (ac_receipt a) = rid"
    "rc_created_at (ac_receipt a) = rc_created_at rc" "rc_generation (ac_receipt a) = rc_generation rc"
proof -
  from assms(1) obtain st' s1 claimed s2 b where c: "canon_save E st s = (Inr st', s1)"
    and r: "receipt_save E (rc\<lparr>rc_status := Accepted\<rparr>) s1 = (Inr claimed, s2)"
    and b: "classify_existing claimed h = Inr b" "a = b\<lparr>ac_status := AcAccepted, ac_claimed := True\<rparr>" "t = s2"
    unfolding claim_writes_def by (elim bnd_InrE) simp
  note cr = canon_save_run [OF c] and b' = classify_existing_run [OF b(1)]
  from receipt_save_run(1) [OF r] assms(2) obtain u
    where u: "claimed = stamp_receipt (rc\<lparr>rc_status := Accepted\<rparr>) rid u" "entry s2 rid = Some (Stored claimed)" by auto
  with cr(1,2) receipt_save_run(2) [OF r] cr(3) assms b b'(1) show "owned_by rid op (ac_receipt a) t"
    by (auto simp: owned_by_def)
  show "ac_claimed a" "ac_status a = AcAccepted" using b by simp_all
  show "rc_request_id (ac_receipt a) = rid"
    "rc_created_at (ac_receipt a) = rc_created_at rc" "rc_generation (ac_receipt a) = rc_generation rc"
    using b b'(1) u by (simp_all add: stamp_receipt_def)
qed

lemma claim_run:
  assumes e: "claim_queued_head E st owner rid op tg rc h s = (Inr a, t)" and cl: "ac_claimed a"
    and id: "validate_request_id rid = Inr rid" "entry s rid = Some (Stored rc)"
  shows "owner = None" "cs_phase st \<in> {Idle, Ready}" "rc_status rc = Queued" "owned_by rid op (ac_receipt a) t"
    "queue_key (ac_receipt a) = queue_key rc"
    "on_file s rc' \<Longrightarrow> rc_status rc' = Queued \<Longrightarrow> queue_key rc \<le> queue_key rc'"
proof -
  let ?tail = "\<lambda>left :: int option. case left of
       Some d \<Rightarrow> if d \<le> 0 then expire_head E st rid op tg rc h
         else claim_writes E (st\<lparr>cs_phase := Validating, cs_operation := Some op, cs_request_id := Some rid,
                cs_deadline_at := rc_hard_deadline rc\<rparr>) rc h
     | None \<Rightarrow> claim_writes E (st\<lparr>cs_phase := Validating, cs_operation := Some op, cs_request_id := Some rid\<rparr>) rc h"
  from e obtain q s1 where q: "queued_receipts E s = (Inr q, s1)"
    and e1: "(if q = [] \<or> rc_request_id (hd q) \<noteq> rid then raise (Busy ''earlier request in the queue'')
     else if owner \<noteq> None \<or> cs_phase st \<notin> {Idle, Ready} then raise (Busy ''current switch not finished'')
     else bnd (wall_remaining E (rc_hard_deadline rc)) ?tail) s1 = (Inr a, t)"
    unfolding claim_queued_head_def claim_writes_def by (elim bnd_InrE)
  from queued_receipts_run [OF q] obtain rcs where a: "all_receipts E s = (Inr rcs, s)" "q = queue_order rcs" "s1 = s" by auto
  from e1 have h: "q \<noteq> []" "rc_request_id (hd q) = rid" and o: "owner = None" "cs_phase st \<in> {Idle, Ready}"
    by (auto split: if_splits)
  have "hd q \<in> set q" using h(1) by simp
  with queue_order_set a(2) have hq: "hd q \<in> set rcs" "rc_status (hd q) = Queued" by auto
  from all_receipts_run(2) [OF a(1) refl hq(1)] obtain k where k: "validate_request_id k = Inr k" "holds_receipt E k (hd q) s" by blast
  with holds_id [OF k(2)] h(2) id have hd: "hd q = rc" by (auto simp: holds_receipt_def)
  show "owner = None" "cs_phase st \<in> {Idle, Ready}" "rc_status rc = Queued" using o hq hd by auto
  show "queue_key rc \<le> queue_key rc'" if "on_file s rc'" "rc_status rc' = Queued"
    using queue_head_least [OF _ all_receipts_run(3) [OF a(1) refl that(1)] that(2)] a(2) h(1) hd by simp
  have rid: "validate_request_id (rc_request_id rc) = Inr rid" using h hd id by simp
  from e1 have "bnd (wall_remaining E (rc_hard_deadline rc)) ?tail s1 = (Inr a, t)" by (auto split: if_splits)
  then obtain left s2 where e2: "?tail left s2 = (Inr a, t)" by (rule bnd_InrE)
  have "\<not> ac_claimed b" if "expire_head E st rid op tg rc h s2 = (Inr b, t)" for b
    using that unfolding expire_head_def
    by (auto elim!: bnd_InrE simp: classify_existing_def split: if_splits)
  with e2 cl obtain st' where w: "claim_writes E st' rc h s2 = (Inr a, t)" "cs_phase st' = Validating"
      "cs_operation st' = Some op" "cs_request_id st' = Some rid"
    by (cases left) (auto split: if_splits)
  from claim_writes_run [OF w(1) rid w(2-4)] h(2) hd show "owned_by rid op (ac_receipt a) t"
    "queue_key (ac_receipt a) = queue_key rc" by (auto simp: queue_key_def)
qed

lemma on_file_keeps:
  assumes "on_file s rc" "\<And>k. validate_request_id k = Inr k \<Longrightarrow> entry s k = Some (Stored rc) \<Longrightarrow> entry t k = entry s k"
  shows "on_file t rc"
  using assms unfolding on_file_def by fastforce

lemma requeue_run:
  assumes "requeue_request_locked E rid s = (Inr a, t)" "m_lock s" "validate_request_id rid = Inr rid"
    and "entry s rid = Some (Stored rc)" "\<not> terminal (rc_status rc)" "rc_status rc \<noteq> Queued"
  shows "entry t rid = Some (Stored (ac_receipt a))" "m_canon t = m_canon s"
    "j \<noteq> rid \<Longrightarrow> entry t j = entry s j" "\<exists>u. ac_receipt a = stamp_receipt (rc\<lparr>rc_status := Queued, rc_result := None\<rparr>) rid u"
proof -
  from assms(1) have "(bnd (receipt_load E rid) (\<lambda>r. case r of
       None \<Rightarrow> raise (StateCorrupt ''no receipt to requeue'')
     | Some rc \<Rightarrow>
         if terminal (rc_status rc) \<or> rc_status rc = Queued then
           ret \<lparr>ac_request_id = rc_request_id rc, ac_generation = rc_generation rc,
             ac_status = (if rc_status rc = Queued then AcQueued else AcDone (rc_status rc)),
             ac_existing = True, ac_receipt = rc, ac_claimed = False\<rparr>
         else bnd (receipt_save E (rc\<lparr>rc_status := Queued, rc_result := None\<rparr>)) (\<lambda>saved.
           ret \<lparr>ac_request_id = rc_request_id saved, ac_generation = rc_generation saved,
             ac_status = AcQueued, ac_existing = True, ac_receipt = saved, ac_claimed = False\<rparr>))) s = (Inr a, t)"
    unfolding requeue_request_locked_def by (rule lock_run) (rule assms(2))
  then obtain r s1 where l: "receipt_load E rid s = (Inr r, s1)"
    and b: "(case r of
       None \<Rightarrow> raise (StateCorrupt ''no receipt to requeue'')
     | Some rc \<Rightarrow>
         if terminal (rc_status rc) \<or> rc_status rc = Queued then
           ret \<lparr>ac_request_id = rc_request_id rc, ac_generation = rc_generation rc,
             ac_status = (if rc_status rc = Queued then AcQueued else AcDone (rc_status rc)),
             ac_existing = True, ac_receipt = rc, ac_claimed = False\<rparr>
         else bnd (receipt_save E (rc\<lparr>rc_status := Queued, rc_result := None\<rparr>)) (\<lambda>saved.
           ret \<lparr>ac_request_id = rc_request_id saved, ac_generation = rc_generation saved,
             ac_status = AcQueued, ac_existing = True, ac_receipt = saved, ac_claimed = False\<rparr>)) s1 = (Inr a, t)"
    by (rule bnd_InrE)
  note run = receipt_load_run [OF l]
  have r: "r = Some rc" "s1 = s"
    using run(1) run(2) run(3) assms(3,4) by (cases r; auto simp: holds_receipt_def)+
  with run(3) assms(3) have h: "holds_receipt E rid rc s" by auto
  from holds_id [OF h] assms(3) have id: "validate_request_id (rc_request_id rc) = Inr rid" by auto
  from b r assms(5,6) obtain v where sv: "receipt_save E (rc\<lparr>rc_status := Queued, rc_result := None\<rparr>) s = (Inr v, t)"
      "ac_receipt a = v" by (auto elim!: bnd_InrE)
  from receipt_save_run(1,2) [OF sv(1)] receipt_save_run(5) [OF sv(1), of rid j] id sv(2)
  show "entry t rid = Some (Stored (ac_receipt a))" "m_canon t = m_canon s" "j \<noteq> rid \<Longrightarrow> entry t j = entry s j"
    "\<exists>u. ac_receipt a = stamp_receipt (rc\<lparr>rc_status := Queued, rc_result := None\<rparr>) rid u"
    by auto
qed

text \<open>What a claim of the queue's head amounts to, wherever it happens.\<close>

definition claimed_head :: "machine \<Rightarrow> string \<Rightarrow> operation \<Rightarrow> acceptance \<Rightarrow> machine \<Rightarrow> bool" where
  "claimed_head s rid op a t \<longleftrightarrow> owned_by rid op (ac_receipt a) t \<and>
     (\<forall>rc. on_file s rc \<longrightarrow> rc_status rc = Queued \<longrightarrow> queue_key (ac_receipt a) \<le> queue_key rc)"

lemma accept_existing_claim:
  assumes e: "accept_existing E st0 rid op tg h rc c s = (Inr a, t)" and cl: "ac_claimed a" "\<not> ac_claimed c"
    and id: "validate_request_id rid = Inr rid" "entry s rid = Some (Stored rc)" and lk: "m_lock s"
    and nt: "\<not> terminal (rc_status rc)"
  shows "claimed_head s rid op a t" "cs_request_id st0 = None"
proof -
  from e obtain st s1 where sv: "(if cs_next_generation st0 \<le> ac_generation c
          then canon_save E (st0\<lparr>cs_next_generation := ac_generation c + 1\<rparr>) else ret st0) s = (Inr st, s1)"
    and e1: "(if rc_status rc = Allocating then
       (if (cs_request_id st0 = Some rid \<and> cs_phase st \<noteq> Validating) \<or>
           (cs_request_id st0 = None \<and> cs_phase st \<notin> {Idle, Ready})
        then raise (StateCorrupt ''allocating receipt and canonical phase'')
        else bnd (canon_save E (st\<lparr>cs_phase := Validating, cs_operation := Some op, cs_request_id := Some rid\<rparr>)) (\<lambda>_.
             bnd (receipt_save E (rc\<lparr>rc_status := Accepted\<rparr>)) (\<lambda>rc'.
             lift (classify_existing rc' h))))
     else if rc_status rc = Queued then claim_queued_head E st (cs_request_id st0) rid op tg rc h
     else if cs_request_id st0 = None then
       (if cs_phase st \<in> {Idle, Ready} \<and> rc_status rc = Accepted then
         (if commit_landed st rid then raise (StateCorrupt ''accepted receipt without canonical request'')
          else bnd (requeue_request_locked E rid) (\<lambda>a.
               claim_queued_head E st None rid op tg (ac_receipt a) h))
        else raise (StateCorrupt ''accepted receipt without canonical request''))
     else ret c) s1 = (Inr a, t)"
    unfolding accept_existing_def by (rule bnd_InrE)
  from sv have s1: "m_receipts s1 = m_receipts s" "m_lock s1 = m_lock s"
    by (auto split: if_splits dest: canon_save_run(4,5))
  have na: "rc_status rc \<noteq> Allocating"
    using e1 cl by (auto elim!: bnd_InrE dest: classify_existing_run(2) split: if_splits)
  consider (queued) "rc_status rc = Queued" "claim_queued_head E st (cs_request_id st0) rid op tg rc h s1 = (Inr a, t)"
    | (landed) a1 s2 where "rc_status rc \<noteq> Queued" "cs_request_id st0 = None" "requeue_request_locked E rid s1 = (Inr a1, s2)"
        "claim_queued_head E st None rid op tg (ac_receipt a1) h s2 = (Inr a, t)"
    using e1 na cl by (auto elim!: bnd_InrE split: if_splits)
  then have "claimed_head s rid op a t \<and> cs_request_id st0 = None"
  proof cases
    case queued
    from id s1 have "entry s1 rid = Some (Stored rc)" by simp
    note c = claim_run [OF queued(2) cl(1) id(1) this]
    from c(6) s1 have "queue_key rc \<le> queue_key rc'" if "on_file s rc'" "rc_status rc' = Queued" for rc'
      using that by (auto simp: on_file_def)
    with c show ?thesis by (auto simp: claimed_head_def)
  next
    case landed
    from id s1 have h: "entry s1 rid = Some (Stored rc)" by simp
    from lk s1 have l: "m_lock s1" by simp
    note q = requeue_run [OF landed(3) l id(1) h nt landed(1)]
    note c = claim_run [OF landed(4) cl(1) id(1) q(1)]
    have "queue_key (ac_receipt a1) \<le> queue_key rc'" if r: "on_file s rc'" "rc_status rc' = Queued" for rc'
    proof (rule c(6) [OF _ r(2)])
      show "on_file s2 rc'"
      proof (rule on_file_keeps [OF r(1)])
        fix k assume "validate_request_id k = Inr k" "entry s k = Some (Stored rc')"
        with r(2) landed(1) id(2) have "k \<noteq> rid" by auto
        with q(3) s1 show "entry s2 k = entry s k" by simp
      qed
    qed
    with c landed(2) show ?thesis by (auto simp: claimed_head_def)
  qed
  then show "claimed_head s rid op a t" "cs_request_id st0 = None" by auto
qed

lemma validate_request_same:
  "validate_request op tg = Inr v \<Longrightarrow> v = (op, tg)"
  by (auto simp: validate_request_def validate_game_name_def split: option.splits sum.splits if_splits)

lemma accept_cases:
  assumes e: "accept_request_locked E rid0 op tg p s = (Inr a, t)" and lk: "m_lock s"
  obtains (fresh) rid st s1 where "validate_request_id rid0 = Inr rid" "canon_initialize E s = (Inr st, s1)"
      "entry s1 rid = None" "accept_guard E st rid False s1 = (Inr (), s1)"
      "accept_fresh E st rid op tg (payload_hash E op tg (payload_of p)) s1 = (Inr a, t)"
  | (finished) rid st s1 rc where "validate_request_id rid0 = Inr rid" "canon_initialize E s = (Inr st, s1)"
      "holds_receipt E rid rc s1" "terminal (rc_status rc)" "t = s1"
      "classify_existing rc (payload_hash E op tg (payload_of p)) = Inr a"
  | (known) rid st s1 rc c where "validate_request_id rid0 = Inr rid" "canon_initialize E s = (Inr st, s1)"
      "holds_receipt E rid rc s1" "\<not> terminal (rc_status rc)"
      "classify_existing rc (payload_hash E op tg (payload_of p)) = Inr c"
      "accept_guard E st rid True s1 = (Inr (), s1)"
      "accept_existing E st rid op tg (payload_hash E op tg (payload_of p)) rc c s1 = (Inr a, t)"
proof -
  let ?h = "payload_hash E op tg (payload_of p)"
  from e have "bnd (lift (validate_request_id rid0)) (\<lambda>rid.
     bnd (lift (validate_request op tg)) (\<lambda>(op, target).
     let h = payload_hash E op target (payload_of p) in
     bnd (canon_initialize E) (\<lambda>st.
     bnd (receipt_load E rid) (\<lambda>existing. case existing of
       None \<Rightarrow> bnd (accept_guard E st rid False) (\<lambda>_. accept_fresh E st rid op target h)
     | Some rc \<Rightarrow> bnd (lift (classify_existing rc h)) (\<lambda>c.
         if terminal (rc_status rc) then ret c
         else bnd (accept_guard E st rid True) (\<lambda>_. accept_existing E st rid op target h rc c)))))) s = (Inr a, t)"
    unfolding accept_request_locked_def by (rule lock_run) (rule lk)
  then obtain rid st s1 existing s2 where id: "validate_request_id rid0 = Inr rid"
    and i: "canon_initialize E s = (Inr st, s1)" and l: "receipt_load E rid s1 = (Inr existing, s2)"
    and b: "(case existing of
       None \<Rightarrow> bnd (accept_guard E st rid False) (\<lambda>_. accept_fresh E st rid op tg ?h)
     | Some rc \<Rightarrow> bnd (lift (classify_existing rc ?h)) (\<lambda>c.
         if terminal (rc_status rc) then ret c
         else bnd (accept_guard E st rid True) (\<lambda>_. accept_existing E st rid op tg ?h rc c))) s2 = (Inr a, t)"
    by (auto elim!: bnd_InrE dest!: validate_request_same simp: Let_def)
  note run = receipt_load_run [OF l]
  have idr: "validate_request_id rid = Inr rid" by (rule validate_request_id_idem [OF id])
  show thesis
  proof (cases existing)
    case None
    with b run(1) obtain u s3 where "accept_guard E st rid False s1 = (Inr u, s3)"
        "accept_fresh E st rid op tg ?h s3 = (Inr a, t)" by (auto elim!: bnd_InrE)
    with accept_guard_run(1) fresh [OF id i] run(2) None idr show thesis by fastforce
  next
    case (Some rc)
    with run(3) idr have h: "holds_receipt E rid rc s1" by auto
    from b run(1) Some obtain c where c: "classify_existing rc ?h = Inr c"
      and b': "(if terminal (rc_status rc) then ret c
         else bnd (accept_guard E st rid True) (\<lambda>_. accept_existing E st rid op tg ?h rc c)) s1 = (Inr a, t)"
      by (auto elim!: bnd_InrE)
    show thesis
    proof (cases "terminal (rc_status rc)")
      case True
      with b' c show thesis by (intro finished [OF id i h]) auto
    next
      case False
      with b' obtain u s3 where "accept_guard E st rid True s1 = (Inr u, s3)"
        "accept_existing E st rid op tg ?h rc c s3 = (Inr a, t)" by (auto elim!: bnd_InrE)
      with accept_guard_run(1) known [OF id i h False c] show thesis by fastforce
    qed
  qed
qed

lemma accept_existing_flags:
  assumes "accept_existing E st0 rid op tg h rc c s = (Inr a, t)" "ac_existing c" "ac_status c \<noteq> AcAccepted"
  shows "ac_existing a" "ac_claimed a \<or> ac_status a \<noteq> AcAccepted"
proof -
  have "ac_existing a \<and> (ac_claimed a \<or> ac_status a \<noteq> AcAccepted)"
    if "claim_queued_head E st owner rid op tg rc h s = (Inr a, t)" for st owner rc s
    using that unfolding claim_queued_head_def expire_head_def
    by (auto elim!: bnd_InrE simp: classify_existing_def split: if_splits option.splits)
  with assms have "ac_existing a \<and> (ac_claimed a \<or> ac_status a \<noteq> AcAccepted)"
    unfolding accept_existing_def
    by (auto elim!: bnd_InrE simp: classify_existing_def split: if_splits)
  then show "ac_existing a" "ac_claimed a \<or> ac_status a \<noteq> AcAccepted" by auto
qed

end
