(* ===== verification/Samples.thy ===== *)
theory Samples
  imports Coordinator StoreRuns
begin

text \<open>
  A concrete environment and the rules by which the simplifier runs the model on it.  The
  witnesses of the properties are such runs: no fault, no other process, an adapter that answers
  every call in one microsecond.  Time stamps stay symbolic.
\<close>

definition sample_adapter :: adapter where
  "sample_adapter = \<lparr>ad_runtime_id = [], ad_generation = 0, ad_name = ''program'', ad_agent_enabled = True,
     ad_requires_boundary = AttrAbsent, ad_requires_stop_boundary = False, ad_boundary_timeout = AttrAbsent,
     ad_materialize_timeout = AttrAbsent, ad_request_boundary = NoMethod, ad_cancel_boundary = NoMethod,
     ad_agent_alive = Callable, ad_live_singleton = NoMethod, ad_restore_stopped = NoMethod,
     ad_release_terminal = NoMethod, ad_adopt_candidate = NoMethod\<rparr>"

definition sample_env :: env where
  "sample_env = \<lparr>e_state_dir = [''state''], e_resolve = (\<lambda>p. p), e_sha256 = (\<lambda>s. replicate 64 (CHR ''a'')),
    e_tick = (\<lambda>_. 1), e_wall = (\<lambda>i. int i), e_uuid = (\<lambda>i. ''00000000-0000-4000-8000-00000000000a''),
    e_hex = (\<lambda>i. ''0123456789abcdef''), e_fault = (\<lambda>_. NoFault), e_lock_free = (\<lambda>_. True), e_others = (\<lambda>_. []),
    e_make = (\<lambda>i sp. (1, Inr (Made sample_adapter))),
    e_call = (\<lambda>i st ad. (1, Inr (if st = SAlive then PyFalse else PyTrue))),
    e_claim_wait = (\<lambda>_ _. (True, None)), e_hanjuku_claim = (\<lambda>_. None),
    e_default_timeout = 60000000, e_quiesce_verify = 5000000, e_poll = 100000, e_cancel_grace = 1000000,
    e_rollback_timeout = 30000000, e_round_reacquire = 1000000, e_t_preflight = 10000000,
    e_t_round_boundary = 10000000, e_t_round_cancel = 1000000, e_t_stop_agent = 1000000, e_t_start = 10000000,
    e_t_agent_start = 1000000, e_t_cleanup = 1000000, e_t_probe = 1000000\<rparr>"

definition blank :: machine where
  "blank = \<lparr>m_canon = None, m_receipts = [], m_lock = False, m_now = 0, m_ticks = 0, m_walls = 0, m_ids = 0,
     m_writes = 0, m_calls = 0, m_locks = 0, m_mirror = None, m_markers = [], m_announced = [], m_claims = [],
     m_unlinked = [], m_trace = []\<rparr>"

abbreviation locked_blank :: machine where
  "locked_blank \<equiv> blank\<lparr>m_lock := True\<rparr>"

definition sample_id :: string where
  "sample_id = ''00000000-0000-4000-8000-00000000000b''"

definition other_id :: string where
  "other_id = ''00000000-0000-4000-8000-00000000000c''"

section \<open>Strings\<close>

lemma iso_utc_nonempty [simp]: "iso_utc t \<noteq> []"
  by (auto simp: iso_utc_def Let_def dest: arg_cong [of _ _ length])

lemmas run_chars = is_digit_def is_lower_def is_upper_def is_hex_lower_def less_eq_char_def
  lower_char_def name_start_def name_char_def

lemma sample_ids [simp]:
  "validate_request_id sample_id = Inr sample_id" "validate_request_id other_id = Inr other_id"
  "validate_request_id ''00000000-0000-4000-8000-00000000000a'' = Inr ''00000000-0000-4000-8000-00000000000a''"
  "sample_id \<noteq> other_id" "other_id \<noteq> sample_id"
  by (simp_all add: validate_request_id_def sample_id_def other_id_def uuid_shape_def run_chars Let_def upt_rec)

lemma small_digits [simp]:
  "digit_char 0 = CHR ''0''" "digit_char (Suc 0) = CHR ''1''" "digit_char 2 = CHR ''2''" "digit_char 3 = CHR ''3''"
  by code_simp+

lemma sample_names [simp]:
  "runtime_names 1 = Inr \<lparr>nm_game_window = ''game-g1'', nm_agent_window = ''agent-g1'', nm_adapter_session = ''docich-game-g1''\<rparr>"
  "runtime_names 2 = Inr \<lparr>nm_game_window = ''game-g2'', nm_agent_window = ''agent-g2'', nm_adapter_session = ''docich-game-g2''\<rparr>"
  by (simp_all add: runtime_names_def validate_tmux_name_def gen_suffix_def dec.simps run_chars)

lemma sample_runtime_ids [simp]:
  "validate_runtime_id ''g1-0123456789abcdef'' = Inr ''g1-0123456789abcdef''"
  "runtime_id_generation ''g1-0123456789abcdef'' = Inr 1"
  "validate_runtime_id ''g2-0123456789abcdef'' = Inr ''g2-0123456789abcdef''"
  "runtime_id_generation ''g2-0123456789abcdef'' = Inr 2"
  by (simp_all add: validate_runtime_id_def runtime_id_generation_def matches_runtime_id_def
      runtime_id_digits_def run_chars Let_def undec_def digit_val_def)

lemma sample_hash [simp]: "hash_shape (replicate 64 (CHR ''a''))"
proof -
  have "is_hex_lower (CHR ''a'')" by (simp add: run_chars)
  then show ?thesis by (simp add: hash_shape_def list_all_iff)
qed

section \<open>Running\<close>

lemma bnd_apply: "bnd m f s = (case m s of (Inl x, t) \<Rightarrow> (Inl x, t) | (Inr v, t) \<Rightarrow> f v t)"
  by (simp add: bnd_def)

lemma attempt_apply: "attempt p m s = (case m s of (Inl x, t) \<Rightarrow> if p x then (Inr (Inl x), t) else (Inl x, t)
    | (Inr v, t) \<Rightarrow> (Inr (Inr v), t))"
  by (simp add: attempt_def)

lemma releasing_apply: "releasing m s = (case m s of (r, t) \<Rightarrow> (r, t\<lparr>m_lock := False\<rparr>))"
  by (simp add: releasing_def)

lemma atomic_write_ok:
  "e_fault E (m_writes s) = NoFault \<Longrightarrow> atomic_write E f s = (Inr (), f (s\<lparr>m_writes := m_writes s + 1\<rparr>))"
  by (simp add: atomic_write_def Let_def)

lemma clocks_apply:
  "wall_now E s = (Inr (e_wall E (m_walls s)), s\<lparr>m_walls := m_walls s + 1\<rparr>)"
  "monotonic E s = (Inr (m_now s + int (e_tick E (m_ticks s))),
     s\<lparr>m_now := m_now s + int (e_tick E (m_ticks s)), m_ticks := m_ticks s + 1\<rparr>)"
  "token_hex E s = (Inr (e_hex E (m_ids s)), s\<lparr>m_ids := m_ids s + 1\<rparr>)"
  "fresh_uuid E s = (Inr (e_uuid E (m_ids s)), s\<lparr>m_ids := m_ids s + 1\<rparr>)"
  by (simp_all add: wall_now_def monotonic_def token_hex_def fresh_uuid_def Let_def)

lemma acquire_apply: "acquire_lock E s = (if m_lock s then (Inl (Busy ''switch in progress''), s)
     else if e_lock_free E (m_locks s) then (Inr (), (run_others E s)\<lparr>m_lock := True\<rparr>)
     else (Inl (Busy ''switch in progress''), run_others E s))"
  by (simp add: acquire_lock_def Let_def)

lemma bounded_apply: "bounded_call E ask log deadline timeout s =
  (let t = m_now s + int (e_tick E (m_ticks s));
       u = s\<lparr>m_now := t, m_ticks := m_ticks s + 1\<rparr>;
       remaining = min (deadline - t) timeout
   in if remaining \<le> 0 then (Inl (DeadlineExceeded ''adapter deadline''), u)
      else case ask (m_calls s) of (took, answer) \<Rightarrow>
       let res = (if int took \<le> remaining then answer
             else if int took \<le> remaining + e_cancel_grace E then Inl (DeadlineExceeded ''adapter timeout'')
             else Inl (DeadlineExceeded ''adapter timeout, cancel ignored''));
           spent = min (int took) (remaining + max 0 (e_cancel_grace E))
       in (res, u\<lparr>m_calls := m_calls s + 1, m_now := t + spent, m_trace := log res @ m_trace s\<rparr>))"
  by (simp add: bounded_call_def bnd_apply clocks_apply Let_def split: prod.split)

lemma no_deadline [simp]: "wall_deadline_remaining t None = Inr None" "wall_deadline_expired t None"
  by (simp_all add: wall_deadline_remaining_def wall_deadline_expired_def)

lemmas run_basic = bnd_apply attempt_apply releasing_apply atomic_write_ok clocks_apply acquire_apply
  bounded_apply run_others_def unless_def Let_def utc_now_def utc_after_def wall_expired_def wall_remaining_def
  sleep_def

lemmas run_state = require_def store_initialize_def transaction_def canon_initialize_def canon_load_def
  canon_save_def initial_state_def validate_state_def identity_checks_def runtime_checks_def shape_checks_def
  validate_runtime_opt_def validate_runtime_def runtime_generations_def state_runtimes_def
  require_exclusive_lock_def load_state_def canon_transition_def transition_def

lemmas run_receipts = validate_receipt_def deadline_check_def identity_check_def receipt_load_def
  receipt_save_def receipt_read_def all_receipts_def queue_order_def queue_key_def queued_receipts_def
  max_generation_def top_generation_def prune_terminal_def validate_request_def validate_game_name_def
  runtime_directory_def ensure_contained_def payload_hash_def classify_existing_def

lemmas run_requests = accept_request_locked_def accept_guard_def accept_fresh_def accept_existing_def
  next_generation_for_def new_receipt_def new_runtime_id_def make_runtime_id_def gen_suffix_def
  enqueue_request_locked_def enqueue_fresh_def deadline_policy_def claim_queued_head_def
  requeue_request_locked_def finish_request_locked_def

lemmas run_calls = adapter_for_def make_adapter_def spec_of_runtime_def call_adapter_def probe_alive_def
  stop_and_clean_def wait_stopped_def teardown_runtime_def confirmed_dead_def check_deadline_def
  poll_rounds_def

lemmas run_all = run_basic run_state run_receipts run_requests run_chars dec.simps sample_env_def

text \<open>The states of one story: initialised, one request accepted, two queued behind it.\<close>

definition ready_machine :: machine where
  "ready_machine = locked_blank\<lparr>m_canon := Some (Stored (fresh_state (iso_utc 0))), m_walls := 1\<rparr>"

definition sample_receipt :: "string \<Rightarrow> operation \<Rightarrow> string option \<Rightarrow> status \<Rightarrow> outcome option \<Rightarrow> string \<Rightarrow> string \<Rightarrow> receipt" where
  "sample_receipt rid op tg st res created updated =
     \<lparr>rc_schema = 1, rc_request_id = rid, rc_operation = op, rc_target = tg,
      rc_payload_hash = replicate 64 (CHR ''a''), rc_generation = 1, rc_runtime_id = ''g1-0123456789abcdef'',
      rc_runtime_dir = [''state'', ''runtimes'', ''g1-0123456789abcdef''], rc_game_window = ''game-g1'',
      rc_agent_window = ''agent-g1'', rc_adapter_session = ''docich-game-g1'', rc_status = st,
      rc_result = res, rc_created_at = created, rc_updated_at = updated,
      rc_allow_extension = None, rc_hard_deadline = None\<rparr>"

lemma sample_receipt_simps [simp]:
  "rc_status (sample_receipt rid op tg st res c u) = st" "rc_request_id (sample_receipt rid op tg st res c u) = rid"
  "rc_operation (sample_receipt rid op tg st res c u) = op" "rc_target (sample_receipt rid op tg st res c u) = tg"
  "rc_payload_hash (sample_receipt rid op tg st res c u) = replicate 64 (CHR ''a'')"
  "rc_result (sample_receipt rid op tg st res c u) = res" "rc_hard_deadline (sample_receipt rid op tg st res c u) = None"
  "rc_generation (sample_receipt rid op tg st res c u) = 1" "rc_created_at (sample_receipt rid op tg st res c u) = c"
  "rc_runtime_id (sample_receipt rid op tg st res c u) = ''g1-0123456789abcdef''"
  "rc_updated_at (sample_receipt rid op tg st res c u) = u"
  "rc_allow_extension (sample_receipt rid op tg st res c u) = None" "rc_schema (sample_receipt rid op tg st res c u) = 1"
  by (simp_all add: sample_receipt_def)

lemma sample_receipt_valid:
  "validate_request_id rid = Inr rid \<Longrightarrow> validate_request op tg = Inr v \<Longrightarrow> terminal st = (res \<noteq> None) \<Longrightarrow>
   c \<noteq> [] \<Longrightarrow> u \<noteq> [] \<Longrightarrow> validate_receipt sample_env (sample_receipt rid op tg st res c u) rid = Inr ()"
  by (simp add: validate_receipt_def deadline_check_def identity_check_def runtime_directory_def ensure_contained_def
      require_def sample_receipt_def sample_env_def)

definition sample_acceptance :: acceptance where
  "sample_acceptance = \<lparr>ac_request_id = sample_id, ac_generation = 1, ac_status = AcAccepted, ac_existing = False,
     ac_receipt = sample_receipt sample_id OpStart (Some ''mario'') Accepted None (iso_utc 1) (iso_utc 5),
     ac_claimed = False\<rparr>"

definition accepted_machine :: machine where
  "accepted_machine = ready_machine\<lparr>
     m_canon := Some (Stored (stamped ((fresh_state (iso_utc 0))\<lparr>cs_phase := Validating, cs_operation := Some OpStart,
       cs_request_id := Some sample_id, cs_next_generation := 2\<rparr>) (iso_utc 4))),
     m_receipts := [(sample_id, Stored (sample_receipt sample_id OpStart (Some ''mario'') Accepted None (iso_utc 1) (iso_utc 5)))],
     m_walls := 6, m_ids := 1, m_writes := 3\<rparr>"

lemma sample_accept:
  "accept_request_locked sample_env sample_id OpStart (Some ''mario'') None ready_machine = (Inr sample_acceptance, accepted_machine)"
  by (simp add: run_all ready_machine_def blank_def fresh_state_def sample_acceptance_def accepted_machine_def
      stamped_def sample_receipt_def)

text \<open>One request queued on an idle machine.\<close>

definition queued_machine :: machine where
  "queued_machine = ready_machine\<lparr>
     m_canon := Some (Stored ((fresh_state (iso_utc 0))\<lparr>cs_next_generation := 2\<rparr>)),
     m_receipts := [(sample_id, Stored (sample_receipt sample_id OpStart (Some ''mario'') Queued None (iso_utc 1) (iso_utc 2)))]\<rparr>"

lemma sample_claim:
  "\<exists>a t. accept_request_locked sample_env sample_id OpStart (Some ''mario'') None queued_machine = (Inr a, t) \<and>
     ac_claimed a \<and> ac_status a = AcAccepted"
  by (simp add: run_all queued_machine_def ready_machine_def blank_def fresh_state_def sample_receipt_def)

text \<open>Finished requests.\<close>

abbreviation finished_receipt :: "string \<Rightarrow> string \<Rightarrow> receipt" where
  "finished_receipt rid u \<equiv> sample_receipt rid OpStart (Some ''mario'') Succeeded (Some (new_outcome rid OpStart Succeeded)) ''1'' u"

definition finished_machine :: machine where
  "finished_machine = ready_machine\<lparr>
     m_canon := Some (Stored ((fresh_state (iso_utc 0))\<lparr>cs_next_generation := 2\<rparr>)),
     m_receipts := [(sample_id, Stored (finished_receipt sample_id ''1''))]\<rparr>"

lemma finished_machine_held:
  "m_lock finished_machine" "holds_state ((fresh_state (iso_utc 0))\<lparr>cs_next_generation := 2\<rparr>) finished_machine"
  "holds_receipt sample_env sample_id (finished_receipt sample_id ''1'') finished_machine"
  by (simp_all add: finished_machine_def ready_machine_def holds_state_def holds_receipt_def run_state fresh_state_def
      sample_receipt_valid [OF sample_ids(1)] validate_request_def validate_game_name_def run_chars Let_def)

lemma finished_on_file: "on_file finished_machine (finished_receipt sample_id ''1'')"
  unfolding on_file_def by (rule exI [of _ sample_id]) (simp add: finished_machine_def)

lemma sample_accept_second:
  "\<exists>a t. accept_request_locked sample_env other_id OpStart (Some ''mario'') None finished_machine = (Inr a, t) \<and>
     ac_status a = AcAccepted \<and> \<not> ac_existing a"
  by (simp add: run_all finished_machine_def ready_machine_def blank_def fresh_state_def sample_receipt_def)

definition crowded_machine :: machine where
  "crowded_machine = finished_machine\<lparr>m_receipts :=
     [(sample_id, Stored (finished_receipt sample_id ''1'')), (other_id, Stored (finished_receipt other_id ''2''))]\<rparr>"

lemma sample_ids_less [simp]: "sample_id \<le> other_id" "\<not> other_id \<le> sample_id"
  by (simp_all add: sample_id_def other_id_def less_eq_char_def)

lemma crowded_entry: "entry crowded_machine sample_id = Some (Stored (finished_receipt sample_id ''1''))"
  by (simp add: crowded_machine_def)

lemma crowded_pruned: "entry (snd (prune_terminal sample_env 1 crowded_machine)) sample_id = None"
  by (simp add: run_basic run_state prune_terminal_def all_receipts_def receipt_read_def receipt_load_def
      sample_receipt_valid validate_request_def validate_game_name_def run_chars crowded_machine_def finished_machine_def
      ready_machine_def blank_def fresh_state_def prunable_def pinned_receipts_def unlink_receipt_def file_remove_def
      sample_env_def [THEN arg_cong, of e_fault] less_eq_char_def)

text \<open>A game on air, and the request that stops it.\<close>

definition sample_active :: runtime where
  "sample_active = \<lparr>rt_game = ''mario'', rt_adapter = ''program'', rt_generation = 1, rt_runtime_id = ''g1-0123456789abcdef'',
     rt_lease_id = Some sample_id, rt_game_window = ''game-g1'', rt_agent_window = ''agent-g1'',
     rt_adapter_session = ''docich-game-g1'', rt_started_at = iso_utc 3\<rparr>"

definition stop_acceptance :: acceptance where
  "stop_acceptance = \<lparr>ac_request_id = other_id, ac_generation = 1, ac_status = AcAccepted, ac_existing = False,
     ac_receipt = sample_receipt other_id OpStop None Accepted None (iso_utc 1) (iso_utc 5), ac_claimed = False\<rparr>"

definition stopping_machine :: machine where
  "stopping_machine = ready_machine\<lparr>
     m_canon := Some (Stored ((fresh_state (iso_utc 0))\<lparr>cs_phase := Validating, cs_operation := Some OpStop,
       cs_request_id := Some other_id, cs_next_generation := 2, cs_active := Some sample_active\<rparr>)),
     m_receipts := [(other_id, Stored (sample_receipt other_id OpStop None Accepted None (iso_utc 1) (iso_utc 5)))]\<rparr>"

text \<open>A runtime that waits for its teardown.\<close>

definition retiring_state :: cstate where
  "retiring_state = (fresh_state (iso_utc 0))\<lparr>cs_next_generation := 2, cs_retiring := [as_retired sample_active None None]\<rparr>"

definition retiring_machine :: machine where
  "retiring_machine = ready_machine\<lparr>m_canon := Some (Stored retiring_state)\<rparr>"

lemma retiring_held: "holds_state retiring_state retiring_machine"
  by (simp add: holds_state_def retiring_machine_def retiring_state_def as_retired_def sample_active_def runtime.extend_def
      fresh_state_def as_runtime_def runtime.truncate_def run_state run_chars validate_game_name_def ready_machine_def)

text \<open>A switch just before its commit: the candidate runs, the old game is stopped.\<close>

definition sample_next :: runtime where
  "sample_next = \<lparr>rt_game = ''zelda'', rt_adapter = ''program'', rt_generation = 2, rt_runtime_id = ''g2-0123456789abcdef'',
     rt_lease_id = Some other_id, rt_game_window = ''game-g2'', rt_agent_window = ''agent-g2'',
     rt_adapter_session = ''docich-game-g2'', rt_started_at = iso_utc 7\<rparr>"

definition probing_state :: cstate where
  "probing_state = (fresh_state (iso_utc 0))\<lparr>cs_phase := Probing, cs_operation := Some OpSwitch, cs_request_id := Some other_id,
     cs_next_generation := 3, cs_candidate := Some sample_next, cs_previous := Some sample_active\<rparr>"

definition probing_machine :: machine where
  "probing_machine = ready_machine\<lparr>m_canon := Some (Stored probing_state)\<rparr>"

lemma probing_held: "holds_state probing_state probing_machine"
  by (simp add: holds_state_def probing_machine_def probing_state_def sample_active_def sample_next_def
      fresh_state_def run_state run_chars validate_game_name_def ready_machine_def)

lemma sample_runtimes_valid: "validate_runtime sample_active = Inr ()" "validate_runtime sample_next = Inr ()"
  by (simp_all add: sample_active_def sample_next_def run_state run_chars validate_game_name_def)

definition switch_receipt :: receipt where
  "switch_receipt = (sample_receipt other_id OpSwitch (Some ''zelda'') Accepted None ''1'' ''2'')
     \<lparr>rc_generation := 2, rc_runtime_id := ''g2-0123456789abcdef''\<rparr>"

definition switch_acceptance :: acceptance where
  "switch_acceptance = \<lparr>ac_request_id = other_id, ac_generation = 2, ac_status = AcAccepted, ac_existing = False,
     ac_receipt = switch_receipt, ac_claimed = False\<rparr>"

end
