(* ===== verification/Sessions.thy ===== *)
theory Sessions
  imports Samples
begin

text \<open>
  The public operations as one datatype of calls, and the machines that any sequence of calls can
  reach: each call may meet write errors, the death of the process, a busy lock, and whatever
  other processes did in between (\<open>env\<close>).  Properties of everything reachable are here.
\<close>

section \<open>Calls\<close>

datatype call =
    CStart string "string option" "int option" "payload option" bool
  | CStop "string option" "int option" "payload option"
  | CSwitch string "string option" "int option" "payload option" bool
  | CRestart "string option" "int option" "payload option"
  | CRotate "string list" "string option" "int option" "payload option"
  | CRecover "int option" bool "cstate option" bool
  | CResume "int option"
  | CMaintain "int option"
  | CRepair "string option" "int option"
  | CInitialize
  | CAccept string operation "string option" "payload option"
  | CEnqueue string operation "string option" "payload option" bool "string option"
  | CFinish string status outcome

fun serve :: "env \<Rightarrow> call \<Rightarrow> unit prog" where
  "serve E (CStart g rid t p al) = forget (start E g rid t p al)"
| "serve E (CStop rid t p) = forget (stop E rid t p)"
| "serve E (CSwitch g rid t p al) = forget (switch E g rid t p al)"
| "serve E (CRestart rid t p) = forget (restart E rid t p)"
| "serve E (CRotate gs rid t p) = forget (rotate_games E gs rid t p)"
| "serve E (CRecover t ab snap ad) = forget (recover E t ab snap ad)"
| "serve E (CResume t) = forget (resume_queued E t)"
| "serve E (CMaintain t) = forget (maintain_fifo E t)"
| "serve E (CRepair g t) = forget (repair_active_agent E g t)"
| "serve E CInitialize = forget (store_initialize E)"
| "serve E (CAccept rid op tg p) = forget (accept_request E rid op tg p)"
| "serve E (CEnqueue rid op tg p ext hard) = forget (enqueue_request E rid op tg p ext hard)"
| "serve E (CFinish rid st res) = forget (finish_request E rid st res)"

inductive reached :: "env \<Rightarrow> machine \<Rightarrow> machine \<Rightarrow> bool" for E where
  reached_refl: "reached E s s"
| reached_call: "reached E s t \<Longrightarrow> snd (serve E c t) = u \<Longrightarrow> reached E s u"

inductive_cases reachedE: "reached E s t"

lemma reached_trans: "reached E t u \<Longrightarrow> reached E s t \<Longrightarrow> reached E s u"
  by (induction rule: reached.induct) (auto intro: reached_call)

context coordinator_contract
begin

lemma forget_ok: "steps R m \<Longrightarrow> steps R (forget m)"
  unfolding forget_def by (intro so_rules)

lemma serve_ok: "steps R (serve E c)"
  by (cases c; simp only: serve.simps; intro forget_ok api_ok queue_api_ok recover_api_ok repair_ok store_api_ok)

text \<open>What one transaction of the store respects, every reachable machine respects.\<close>

lemma reached_ok: "reached E s t \<Longrightarrow> R s t"
proof (induction rule: reached.induct)
  case (reached_call s t c u)
  then show ?case using R_trans stepsD [OF serve_ok] by blast
qed (rule R_refl)

end
end
