(* ===== verification/SessionProperties.thy ===== *)
theory SessionProperties
  imports Sessions
begin

text \<open>
  What holds on every disk the program can reach, from any start, through any sequence of calls,
  write errors, deaths of the process and transactions of other processes.
\<close>

section \<open>Names of a valid state\<close>

lemma distinct_named:
  assumes "distinct (List.map rt_generation rs)" "\<And>r. r \<in> set rs \<Longrightarrow> 1 \<le> rt_generation r"
    "\<And>r. r \<in> set rs \<Longrightarrow> f r = p @ gen_suffix (rt_generation r)"
  shows "distinct (List.map f rs)"
proof -
  have "inj_on f (set rs)"
    using assms by (intro inj_onI) (metis distinct_map gen_suffix_inj inj_onD same_append_eq)
  with assms(1) show ?thesis by (simp add: distinct_map)
qed

lemma valid_state_names:
  assumes "valid_state st"
  shows "distinct (List.map rt_game_window (state_runtimes st))"
    "distinct (List.map rt_agent_window (state_runtimes st))"
    "distinct (List.map rt_adapter_session (state_runtimes st))"
proof -
  note n = validate_runtime_names [OF valid_state_runtimes [OF assms]]
  have d: "distinct (List.map rt_generation (state_runtimes st))"
    using valid_state_shape(5) [OF assms] by (simp add: runtime_generations_def)
  show "distinct (List.map rt_game_window (state_runtimes st))"
    by (rule distinct_named [OF d n(1) n(2)])
  show "distinct (List.map rt_agent_window (state_runtimes st))"
    by (rule distinct_named [OF d n(1) n(3)])
  show "distinct (List.map rt_adapter_session (state_runtimes st))"
    by (rule distinct_named [OF d n(1) n(4)])
qed

lemma reached_canon: "reached E s t \<Longrightarrow> canon_grows s t"
  by (rule canon.reached_ok)

lemma reached_receipts: "reached E s t \<Longrightarrow> receipts_follow E s t"
  by (rule receipts.reached_ok)

lemma reached_loads: "reached E s t \<Longrightarrow> canon_loads (m_canon s) \<Longrightarrow> canon_loads (m_canon t)"
  by (auto dest!: reached_canon simp: canon_grows_def)

section \<open>The canonical state\<close>

text \<open>C1: from a fresh directory, whatever was requested, whatever writes failed and wherever
  processes died, the canonical state on disk passes \<open>validate_state\<close>: an idle state has no
  runtime, a ready state has exactly the active one, a state in progress has an owner, and no two
  runtimes that are tracked share a game window, an agent window or a session.\<close>

theorem canonical_state_sound:
  assumes "m_canon s = None" "reached E s t" "m_canon t = Some d"
  shows "\<exists>st. d = Stored st \<and> validate_state st = Inr () \<and>
    (cs_phase st = Idle \<longrightarrow> cs_active st = None \<and> cs_candidate st = None \<and> cs_previous st = None) \<and>
    (cs_phase st = Ready \<longrightarrow> cs_active st \<noteq> None \<and> cs_candidate st = None \<and> cs_previous st = None) \<and>
    (in_progress (cs_phase st) \<longrightarrow> cs_operation st \<noteq> None \<and> cs_request_id st \<noteq> None) \<and>
    distinct (List.map rt_game_window (state_runtimes st)) \<and>
    distinct (List.map rt_agent_window (state_runtimes st)) \<and>
    distinct (List.map rt_adapter_session (state_runtimes st))"
proof -
  have "canon_loads (m_canon t)" by (rule reached_loads [OF assms(2)]) (simp add: assms(1) canon_loads_def)
  with assms(3) obtain st where st: "d = Stored st" "valid_state st"
    by (cases d) (auto simp: canon_loads_def)
  with valid_state_shape [OF st(2)] valid_state_identity [OF st(2)] valid_state_names [OF st(2)]
  show ?thesis by blast
qed

lemma canonical_state_sound_witness:
  "\<exists>st. Stored (stamped (fresh_state (iso_utc 0)) (iso_utc 1)) = Stored st \<and> validate_state st = Inr () \<and>
    (cs_phase st = Idle \<longrightarrow> cs_active st = None \<and> cs_candidate st = None \<and> cs_previous st = None) \<and>
    (cs_phase st = Ready \<longrightarrow> cs_active st \<noteq> None \<and> cs_candidate st = None \<and> cs_previous st = None) \<and>
    (in_progress (cs_phase st) \<longrightarrow> cs_operation st \<noteq> None \<and> cs_request_id st \<noteq> None) \<and>
    distinct (List.map rt_game_window (state_runtimes st)) \<and>
    distinct (List.map rt_agent_window (state_runtimes st)) \<and>
    distinct (List.map rt_adapter_session (state_runtimes st))"
proof (rule canonical_state_sound)
  show "m_canon blank = None" by (simp add: blank_def)
  show "reached sample_env blank (snd (serve sample_env CInitialize blank))"
    by (rule reached_call [OF reached_refl refl])
  show "m_canon (snd (serve sample_env CInitialize blank)) =
      Some (Stored (stamped (fresh_state (iso_utc 0)) (iso_utc 1)))"
    by (simp add: forget_def run_all blank_def stamped_def fresh_state_def)
qed

text \<open>C5: a canonical state that does not load, because the file is unreadable or its content does
  not validate, is never overwritten by any call.\<close>

theorem corrupt_state_kept:
  assumes "reached E s t" "m_canon s = Some Unreadable \<or> (\<exists>st. m_canon s = Some (Stored st) \<and> validate_state st \<noteq> Inr ())"
  shows "m_canon t = m_canon s"
  using reached_canon [OF assms(1)] assms(2) by (auto simp: canon_grows_def canon_loads_def)

lemma corrupt_state_kept_witness:
  "m_canon (snd (serve sample_env CInitialize (blank\<lparr>m_canon := Some Unreadable\<rparr>))) = m_canon (blank\<lparr>m_canon := Some Unreadable\<rparr>)"
  by (rule corrupt_state_kept [of sample_env])
    (rule reached_call [OF reached_refl refl], simp)

text \<open>C6: the canonical state is replaced only by one of a higher revision; two different states
  never have the same revision.\<close>

theorem revision_orders_states:
  assumes "reached E s t" "m_canon s = Some (Stored a)" "m_canon t = Some (Stored b)"
  shows "b = a \<or> cs_revision a < cs_revision b"
  using reached_canon [OF assms(1)] assms(2,3) by (auto simp: canon_grows_def canon_rev_def)

text \<open>An enqueue on an idle machine replaces the canonical state: it takes a generation.\<close>

lemma revision_orders_states_witness:
  "\<exists>a b. m_canon (ready_machine\<lparr>m_lock := False\<rparr>) = Some (Stored a) \<and>
     m_canon (snd (serve sample_env (CEnqueue sample_id OpStop None None True None) (ready_machine\<lparr>m_lock := False\<rparr>))) = Some (Stored b) \<and>
     cs_next_generation b = cs_next_generation a + 1 \<and> cs_revision a < cs_revision b"
proof -
  let ?s = "ready_machine\<lparr>m_lock := False\<rparr>" and ?c = "CEnqueue sample_id OpStop None None True None"
  have a: "m_canon ?s = Some (Stored (fresh_state (iso_utc 0)))" by (simp add: ready_machine_def)
  have "\<exists>b. m_canon (snd (serve sample_env ?c ?s)) = Some (Stored b) \<and> cs_next_generation b = 2"
    by (simp add: run_all ready_machine_def blank_def fresh_state_def stamped_def forget_def enqueue_request_def
        enqueue_request_locked_def enqueue_fresh_def deadline_policy_def next_generation_for_def new_receipt_def
        new_runtime_id_def make_runtime_id_def gen_suffix_def atomic_write_def)
  then obtain b where b: "m_canon (snd (serve sample_env ?c ?s)) = Some (Stored b)" "cs_next_generation b = 2" by blast
  have "reached sample_env ?s (snd (serve sample_env ?c ?s))" by (rule reached_call [OF reached_refl refl])
  from revision_orders_states [OF this a b(1)] b(2) have "cs_revision (fresh_state (iso_utc 0)) < cs_revision b"
    by (auto simp: fresh_state_def)
  with a b show ?thesis by (auto simp: fresh_state_def)
qed

section \<open>The receipts\<close>

text \<open>C14: a receipt keeps its identity for as long as retention has not removed it: whatever is called,
  whatever fails and wherever processes die, its operation, target, payload, generation, runtime id,
  creation time and deadline stay, a receipt that takes its place is valid, and once it is finished it
  does not change at all.\<close>

theorem receipts_keep_identity:
  assumes "reached E s t" "entry s k = Some (Stored rc)" "k \<notin> set (m_unlinked t)"
  shows "\<exists>rc'. entry t k = Some (Stored rc') \<and>
    (rc' = rc \<or> (\<not> terminal (rc_status rc) \<and> same_identity rc rc' \<and> validate_receipt E rc' k = Inr ()))"
  using reached_receipts [OF assms(1)] assms(2,3) by (auto simp: receipts_follow_def entry_follows_def)

lemma receipts_keep_identity_witness:
  "\<exists>rc'. entry (snd (serve sample_env CInitialize finished_machine)) sample_id = Some (Stored rc') \<and>
    (rc' = finished_receipt sample_id ''1'' \<or>
      (rc_status rc' = Queued \<and> same_identity (finished_receipt sample_id ''1'') rc'))"
proof -
  have "reached sample_env finished_machine (snd (serve sample_env CInitialize finished_machine))"
    by (rule reached_call [OF reached_refl refl])
  moreover have "entry finished_machine sample_id = Some (Stored (finished_receipt sample_id ''1''))"
    by (simp add: finished_machine_def)
  moreover have "sample_id \<notin> set (m_unlinked (snd (serve sample_env CInitialize finished_machine)))"
    by (simp add: run_all forget_def finished_machine_def ready_machine_def blank_def)
  ultimately show ?thesis
    using receipts_keep_identity [of sample_env finished_machine "snd (serve sample_env CInitialize finished_machine)"]
    by fastforce
qed

end
