(* ===== verification/RequestText.thy ===== *)
theory RequestText
  imports SwitchTypes
begin

text \<open>
  The text that identifies a request.  \<open>json_dumps\<close> is injective up to the order of the keys of an
  object (\<open>json_norm\<close>): before a delimiter a text is read in one way only.  So two requests with
  the same document have the same operation, target and payload.
\<close>

section \<open>Codes that are read in one way\<close>

definition delimited :: "string \<Rightarrow> bool" where
  "delimited r \<longleftrightarrow> (\<forall>c s. r = c # s \<longrightarrow> c \<in> {CHR '','', CHR '']'', CHR ''}''})"

lemma delimited_simps [simp]:
  "delimited []" "delimited (CHR '','' # r)" "delimited (CHR '']'' # r)" "delimited (CHR ''}'' # r)"
  by (simp_all add: delimited_def)

text \<open>A text before a delimiter determines what it is the text of.\<close>

definition readable :: "('a \<Rightarrow> string) \<Rightarrow> ('a \<Rightarrow> 'b) \<Rightarrow> 'a \<Rightarrow> bool" where
  "readable f g x \<longleftrightarrow> (\<forall>y r s. delimited r \<longrightarrow> delimited s \<longrightarrow> f x @ r = f y @ s \<longrightarrow> g x = g y \<and> r = s)"

lemma readableD: "readable f g x \<Longrightarrow> f x @ r = f y @ s \<Longrightarrow> delimited r \<Longrightarrow> delimited s \<Longrightarrow> g x = g y \<and> r = s"
  by (auto simp: readable_def)

section \<open>Strings\<close>

lemma hex_digit_code: "n < 16 \<Longrightarrow> of_char (hex_digit n) = (if n < 10 then 48 + n else 87 + n :: nat)"
proof -
  assume "n < 16"
  then have "(48 + n) mod 256 = 48 + n" "(87 + n) mod 256 = 87 + n" by (intro mod_less, linarith)+
  then show ?thesis by (simp only: hex_digit_def digit_char_def of_char_of if_distrib [of of_char])
qed

lemma hex_digit_inj: "m < 16 \<Longrightarrow> n < 16 \<Longrightarrow> hex_digit m = hex_digit n \<Longrightarrow> m = n"
proof -
  assume a: "m < 16" "n < 16" "hex_digit m = hex_digit n"
  then have "(if m < 10 then 48 + m else 87 + m) = (if n < 10 then 48 + n else 87 + n)" by (metis hex_digit_code)
  with a(1,2) show "m = n" by (cases "m < 10"; cases "n < 10") simp_all
qed

lemma control_char_inj:
  fixes c d :: char
  assumes "c < CHR 0x20" "d < CHR 0x20"
    and "hex_digit (of_char c div 16) = hex_digit (of_char d div 16)" "hex_digit (of_char c mod 16) = hex_digit (of_char d mod 16)"
  shows "c = d"
proof -
  have b: "of_char c < (32::nat)" "of_char d < (32::nat)" using assms(1,2) by (simp_all add: less_char_def)
  then have "of_char c div 16 < (16::nat)" "of_char d div 16 < (16::nat)" by auto
  with assms(3,4) have "of_char c div 16 = (of_char d div 16::nat)" "of_char c mod 16 = (of_char d mod 16::nat)"
    by (auto intro: hex_digit_inj)
  then have "of_char c = (of_char d::nat)" by (metis mult_div_mod_eq)
  then show ?thesis by (simp add: of_char_eq_iff)
qed

lemma json_char_unique: "json_char c @ r = json_char d @ s \<Longrightarrow> c = d \<and> r = s"
  by (auto simp: json_char_def dest: control_char_inj split: if_splits)

lemma json_char_no_quote: "json_char c @ r \<noteq> CHR 0x22 # s" "CHR 0x22 # s \<noteq> json_char c @ r"
  by (auto simp: json_char_def)

lemma json_chars_unique:
  "concat (List.map json_char a) @ CHR 0x22 # r = concat (List.map json_char b) @ CHR 0x22 # s \<Longrightarrow> a = b \<and> r = s"
proof (induction a arbitrary: b)
  case Nil
  then show ?case by (cases b) (auto simp: json_char_no_quote)
next
  case (Cons c a)
  then obtain d b' where b: "b = d # b'" by (cases b) (auto simp: json_char_no_quote)
  with Cons.prems have "json_char c @ (concat (List.map json_char a) @ CHR 0x22 # r) =
      json_char d @ (concat (List.map json_char b') @ CHR 0x22 # s)" by simp
  from json_char_unique [OF this] Cons.IH b show ?case by auto
qed

lemma json_string_unique: "json_string a @ r = json_string b @ s \<Longrightarrow> a = b \<and> r = s"
  using json_chars_unique [of a r b s] by (simp add: json_string_def)

section \<open>Numbers\<close>

lemma dec_unique:
  assumes "dec m @ r = dec n @ s" "delimited r" "delimited s"
  shows "m = n \<and> r = s"
proof -
  have t: "takeWhile is_digit (dec k @ u) = dec k" if "delimited u" for k u
  proof (cases u)
    case (Cons c v)
    with that have "\<not> is_digit c" by (auto simp: delimited_def is_digit_def less_eq_char_def)
    with Cons dec_digits [of k] show ?thesis by (simp add: takeWhile_append list_all_iff)
  qed (use dec_digits [of k] in \<open>simp add: list_all_iff\<close>)
  have "dec m = dec n" using arg_cong [OF assms(1), of "takeWhile is_digit"] assms(2,3) by (simp add: t)
  with assms(1) show ?thesis by (metis append_same_eq same_append_eq undec_dec)
qed

lemma dec_no_minus: "dec m @ r \<noteq> CHR ''-'' # s" "CHR ''-'' # s \<noteq> dec m @ r"
  using dec_digits [of m] by (cases "dec m"; auto simp: is_digit_def less_eq_char_def)+

lemma json_int_unique:
  assumes "json_int i @ r = json_int j @ s" "delimited r" "delimited s"
  shows "i = j \<and> r = s"
proof (cases "i < 0")
  case True
  with assms(1) have j: "j < 0" using dec_no_minus by (auto simp: json_int_def split: if_splits)
  with True assms(1) have "dec (nat (- i)) @ r = dec (nat (- j)) @ s" by (simp add: json_int_def)
  from dec_unique [OF this assms(2,3)] True j show ?thesis by (simp add: nat_eq_iff2)
next
  case False
  with assms(1) have j: "\<not> j < 0" using dec_no_minus by (auto simp: json_int_def split: if_splits)
  with False assms(1) have "dec (nat i) @ r = dec (nat j) @ s" by (simp add: json_int_def)
  from dec_unique [OF this assms(2,3)] False j show ?thesis by (simp add: eq_nat_nat_iff)
qed

section \<open>Sequences\<close>

text \<open>Texts of elements, none of which starts with a closing bracket, separated by commas.\<close>

definition opens :: "string \<Rightarrow> bool" where
  "opens t \<longleftrightarrow> t \<noteq> [] \<and> hd t \<notin> {CHR '','', CHR '']'', CHR ''}''}"

lemma join_unique:
  assumes "\<forall>x\<in>set xs. readable f g x" "\<forall>x. opens (f x)" "c \<in> {CHR '']'', CHR ''}''}"
    and "join '','' (List.map f xs) @ c # r = join '','' (List.map f ys) @ c # s"
  shows "List.map g xs = List.map g ys \<and> r = s"
  using assms(1,4)
proof (induction xs arbitrary: ys)
  case Nil
  show ?case
  proof (cases ys)
    case (Cons y zs)
    with Nil assms(2,3) have False by (cases zs; cases "f y") (auto simp: opens_def dest!: spec [of _ y])
    then show ?thesis ..
  qed (use Nil in simp)
next
  case (Cons x xs)
  have c: "delimited (c # u)" for u using assms(3) by (auto simp: delimited_def)
  have head: "\<exists>u. join '','' (List.map f (z # zs)) @ c # t = f z @ u \<and> delimited u \<and>
      u = (if zs = [] then c # t else CHR '','' # join '','' (List.map f zs) @ c # t)" for z zs t
    using c by (cases zs) auto
  show ?case
  proof (cases ys)
    case Nil
    with Cons.prems assms(2,3) have False by (cases xs; cases "f x") (auto simp: opens_def dest!: spec [of _ x])
    then show ?thesis ..
  next
    case (Cons y zs)
    let ?t = "\<lambda>ws t. if ws = [] then c # t else CHR '','' # join '','' (List.map f ws) @ c # t"
    have "f x @ ?t xs r = f y @ ?t zs s"
      using Cons.prems(2) head [of x xs r] head [of y zs s] unfolding Cons by simp
    moreover have "delimited (?t xs r)" "delimited (?t zs s)" using c by auto
    moreover have "readable f g x" using Cons.prems(1) by simp
    ultimately have "g x = g y \<and> ?t xs r = ?t zs s" by (intro readableD)
    then have e: "g x = g y" "?t xs r = ?t zs s" by (rule conjunct1, rule conjunct2)
    show ?thesis
    proof (cases "xs = [] \<or> zs = []")
      case True
      with e(2) assms(3) have "xs = []" "zs = []" "r = s" by (auto split: if_splits)
      with e(1) Cons show ?thesis by simp
    next
      case False
      with e(2) have "join '','' (List.map f xs) @ c # r = join '','' (List.map f zs) @ c # s" by simp
      with Cons.IH [of zs] Cons.prems(1) e(1) Cons show ?thesis by simp
    qed
  qed
qed

section \<open>Documents\<close>

fun json_norm :: "json \<Rightarrow> json" where
  "json_norm (JArr xs) = JArr (List.map json_norm xs)"
| "json_norm (JObj kvs) = JObj (sort_key fst (List.map (\<lambda>(k, v). (k, json_norm v)) kvs))"
| "json_norm v = v"

lemma sort_map_snd: "sort_key fst (List.map (\<lambda>(k, v). (k, h v)) kvs) = List.map (\<lambda>(k, v). (k, h v)) (sort_key fst kvs)"
proof (induction kvs)
  case (Cons p kvs)
  have "insort_key fst (k, h v) (List.map (\<lambda>(k, v). (k, h v)) ps) = List.map (\<lambda>(k, v). (k, h v)) (insort_key fst (k, v) ps)" for k v ps
    by (induction ps) auto
  with Cons show ?case by (cases p) simp
qed simp

lemma json_dumps_opens: "opens (json_dumps v)"
proof (cases v)
  case (JInt i)
  have "opens (dec n)" for n
    using dec_digits [of n] by (cases "dec n") (auto simp: opens_def is_digit_def less_eq_char_def)
  with JInt show ?thesis by (auto simp: json_int_def opens_def)
qed (auto simp: opens_def json_string_def)

lemma entry_readable:
  assumes "readable json_dumps json_norm v"
  shows "readable (\<lambda>(k, v). json_string k @ CHR '':'' # json_dumps v) (\<lambda>(k, v). (k, json_norm v)) (k, v)"
  unfolding readable_def
proof (clarify, goal_cases)
  case (1 k' v' r s)
  then have "json_string k @ (CHR '':'' # json_dumps v @ r) = json_string k' @ (CHR '':'' # json_dumps v' @ s)" by simp
  from json_string_unique [OF this] readableD [OF assms _ 1(1,2)] show ?case by auto
qed

text \<open>The first character tells the constructor.\<close>

fun kind :: "json \<Rightarrow> nat" where
  "kind JNull = 0" | "kind (JBool b) = 1" | "kind (JInt i) = 2" | "kind (JStr s) = 3"
| "kind (JArr xs) = 4" | "kind (JObj kvs) = 5"

definition char_kind :: "char \<Rightarrow> nat" where
  "char_kind c = (if c = CHR ''n'' then 0 else if c = CHR ''t'' \<or> c = CHR ''f'' then 1
     else if c = CHR 0x22 then 3 else if c = CHR ''['' then 4 else if c = CHR ''{'' then 5 else 2)"

lemma digit_kind: "is_digit c \<Longrightarrow> char_kind c = 2"
  by (auto simp: char_kind_def is_digit_def less_eq_char_def)

lemma json_dumps_kind: "char_kind (hd (json_dumps v @ r)) = kind v"
proof (cases v)
  case (JInt i)
  have "char_kind (hd (dec n @ r)) = 2" for n
    using dec_digits [of n] digit_kind by (cases "dec n") auto
  moreover have "char_kind (CHR ''-'') = 2" by (simp add: char_kind_def)
  ultimately show ?thesis using JInt by (cases "i < 0") (simp_all add: json_int_def)
qed (auto simp: char_kind_def json_string_def)

lemma readableI:
  assumes "\<And>b r s. delimited r \<Longrightarrow> delimited s \<Longrightarrow> json_dumps a @ r = json_dumps b @ s \<Longrightarrow> kind a = kind b \<Longrightarrow>
    json_norm a = json_norm b \<and> r = s"
  shows "readable json_dumps json_norm a"
  unfolding readable_def using assms json_dumps_kind by metis

theorem json_dumps_readable: "readable json_dumps json_norm a"
proof (induction a)
  case (JInt i)
  show ?case
  proof (rule readableI)
    fix b r s assume p: "delimited r" "delimited s" "json_dumps (JInt i) @ r = json_dumps b @ s" "kind (JInt i) = kind b"
    then obtain j where "b = JInt j" by (cases b) auto
    with p json_int_unique [of i r j s] show "json_norm (JInt i) = json_norm b \<and> r = s" by simp
  qed
next
  case JNull
  show ?case
  proof (rule readableI)
    fix b r s assume "json_dumps JNull @ r = json_dumps b @ s" "kind JNull = kind b"
    then show "json_norm JNull = json_norm b \<and> r = s" by (cases b) auto
  qed
next
  case (JBool x)
  show ?case
  proof (rule readableI)
    fix b r s assume "json_dumps (JBool x) @ r = json_dumps b @ s" "kind (JBool x) = kind b"
    then show "json_norm (JBool x) = json_norm b \<and> r = s" by (cases b) (auto split: if_splits)
  qed
next
  case (JStr x)
  show ?case
  proof (rule readableI)
    fix b r s assume p: "json_dumps (JStr x) @ r = json_dumps b @ s" "kind (JStr x) = kind b"
    then obtain y where "b = JStr y" by (cases b) auto
    with p json_string_unique [of x r y s] show "json_norm (JStr x) = json_norm b \<and> r = s" by simp
  qed
next
  case (JArr xs)
  show ?case
  proof (rule readableI)
    fix b r s assume p: "json_dumps (JArr xs) @ r = json_dumps b @ s" "kind (JArr xs) = kind b"
    then obtain ys where b: "b = JArr ys" by (cases b) auto
    with p have "join '','' (List.map json_dumps xs) @ CHR '']'' # r = join '','' (List.map json_dumps ys) @ CHR '']'' # s" by simp
    from join_unique [OF _ _ _ this, of json_norm] JArr.IH json_dumps_opens b
    show "json_norm (JArr xs) = json_norm b \<and> r = s" by simp
  qed
next
  case (JObj kvs)
  let ?f = "\<lambda>(k, v). json_string k @ CHR '':'' # json_dumps v" and ?g = "\<lambda>(k, v). (k, json_norm v)"
  have dumped: "json_dumps (JObj ps) @ t = ''{'' @ join '','' (List.map ?f (sort_key fst ps)) @ CHR ''}'' # t" for ps t
    unfolding json_dumps.simps sort_map_snd by (simp add: case_prod_unfold o_def)
  have norm: "json_norm (JObj ps) = JObj (List.map ?g (sort_key fst ps))" for ps
    by (simp add: sort_map_snd)
  have ih: "\<forall>x\<in>set (sort_key fst kvs). readable ?f ?g x"
    using JObj.IH entry_readable by (fastforce simp: fsts.simps snds.simps)
  have "\<forall>x. opens (?f x)" by (auto simp: opens_def json_string_def)
  note join = join_unique [OF ih this, of "CHR ''}''"]
  show ?case
  proof (rule readableI)
    fix b r s assume p: "json_dumps (JObj kvs) @ r = json_dumps b @ s" "kind (JObj kvs) = kind b"
    then obtain ps where b: "b = JObj ps" by (cases b) auto
    with p(1) have "join '','' (List.map ?f (sort_key fst kvs)) @ CHR ''}'' # r = join '','' (List.map ?f (sort_key fst ps)) @ CHR ''}'' # s"
      unfolding b dumped by simp
    from join [OF _ this] b show "json_norm (JObj kvs) = json_norm b \<and> r = s" by (simp only: norm) simp
  qed
qed

text \<open>The document of a request determines the request, up to the order of the keys of its payload.\<close>

theorem request_document_inject:
  assumes "request_document op tg p = request_document op' tg' p'"
  shows "op = op' \<and> tg = tg' \<and> json_norm (JObj p) = json_norm (JObj p')"
proof -
  have "json_norm (JObj [(''operation'', JStr (op_str op)), (''target'', opt_str tg), (''payload'', JObj p)]) =
      json_norm (JObj [(''operation'', JStr (op_str op')), (''target'', opt_str tg'), (''payload'', JObj p')])"
    (is "json_norm ?x = json_norm ?y")
  proof -
    have "json_dumps ?x @ [] = json_dumps ?y @ []" using assms by (simp only: request_document_def)
    from readableD [OF json_dumps_readable [of ?x], of "[]" ?y "[]", OF this] show ?thesis by (simp only: delimited_simps simp_thms)
  qed
  then have "(''operation'', json_norm (JStr (op_str op))) = (''operation'', json_norm (JStr (op_str op')))
      \<and> json_norm (opt_str tg) = json_norm (opt_str tg') \<and> json_norm (JObj p) = json_norm (JObj p')"
    by (simp add: less_eq_char_def)
  moreover have "json_norm (opt_str t) = opt_str t" for t by (cases t) (simp_all add: opt_str_def)
  moreover have "opt_str tg = opt_str tg' \<Longrightarrow> tg = tg'" by (cases tg; cases tg') (simp_all add: opt_str_def)
  moreover have "op_str op = op_str op' \<Longrightarrow> op = op'" by (cases op; cases op') simp_all
  ultimately show ?thesis by simp
qed

end
