(* ===== verification/StoreProperties.thy ===== *)
theory StoreProperties
  imports Sessions RequestText
begin

text \<open>
  What the request store promises: who gets the canonical state, in which order, what a repeated
  request is told, and what is final.
\<close>

section \<open>Acceptance\<close>

lemma accept_existing_result:
  assumes "accept_request_locked E rid0 op tg p s = (Inr a, t)" "m_lock s" "ac_existing a" "\<not> ac_claimed a"
  shows "ac_status a \<noteq> AcAccepted"
  using assms(1,2)
proof (cases rule: accept_cases)
  case (fresh rid st s1)
  with accept_fresh_run(4) [OF fresh(5)] assms(3) show ?thesis by (auto dest: validate_request_id_idem)
next
  case (finished rid st s1 rc)
  with classify_existing_run(6) [OF finished(6)] show ?thesis by simp
next
  case (known rid st s1 rc c)
  with accept_existing_flags(2) [OF known(7)] classify_existing_run(3,6) [OF known(5)] assms(4)
  show ?thesis by (auto split: if_splits)
qed

lemma before_initialize:
  assumes "canon_initialize E s = (Inr st, s1)" "m_canon s = Some (Stored st0)"
  shows "st = st0" "s1 = s"
  using canon_initialize_run(5) [OF assms(1)] assms(2) by auto

lemma on_file_same: "m_receipts t = m_receipts s \<Longrightarrow> on_file t rc = on_file s rc"
  by (simp add: on_file_def)

text \<open>C3: a request that is newly accepted owns the canonical state, which was stable and without
  an owner; its receipt is on disk as accepted; and its generation is above that of every receipt
  and of every runtime the state tracks, so that no window, session or directory is used twice.\<close>

theorem fresh_acceptance:
  assumes "accept_request_locked E rid0 op tg p s = (Inr a, t)" "m_lock s"
    and "ac_status a = AcAccepted" "\<not> ac_existing a"
  shows "(\<exists>rid. validate_request_id rid0 = Inr rid \<and> owned_by rid op (ac_receipt a) t) \<and>
    rc_generation (ac_receipt a) = ac_generation a \<and>
    (\<forall>rc. on_file s rc \<longrightarrow> rc_generation rc < ac_generation a) \<and>
    (\<forall>st. m_canon s = Some (Stored st) \<longrightarrow> cs_request_id st = None \<and> cs_phase st \<in> {Idle, Ready} \<and>
       (\<forall>g\<in>set (runtime_generations st). g < ac_generation a))"
  using assms(1,2)
proof (cases rule: accept_cases)
  case (fresh rid st s1)
  have idr: "validate_request_id rid = Inr rid" by (rule validate_request_id_idem [OF fresh(1)])
  note run = accept_fresh_run [OF fresh(5) idr] and ini = canon_initialize_run [OF fresh(2)]
  have "cs_request_id st0 = None \<and> cs_phase st0 \<in> {Idle, Ready} \<and> (\<forall>g\<in>set (runtime_generations st0). g < ac_generation a)"
    if "m_canon s = Some (Stored st0)" for st0
  proof -
    from before_initialize [OF fresh(2) that] have "st = st0" by simp
    with ini(1) run(1,2,7) valid_state_shape(6) [of st] show ?thesis by (fastforce simp: holds_state_def)
  qed
  with run(5,6,8) fresh(1) on_file_same [OF ini(2)] show ?thesis by blast
next
  case (finished rid st s1 rc)
  with classify_existing_run(3) [OF finished(6)] assms(4) show ?thesis by simp
next
  case (known rid st s1 rc c)
  with accept_existing_flags(1) [OF known(7)] classify_existing_run(3,6) [OF known(5)] assms(4)
  show ?thesis by (auto split: if_splits)
qed

lemma fresh_acceptance_witness:
  "\<exists>a t. accept_request_locked sample_env other_id OpStart (Some ''mario'') None finished_machine = (Inr a, t) \<and>
    owned_by other_id OpStart (ac_receipt a) t \<and> rc_generation (finished_receipt sample_id ''1'') < ac_generation a"
proof -
  obtain a t where r: "accept_request_locked sample_env other_id OpStart (Some ''mario'') None finished_machine = (Inr a, t)"
      "ac_status a = AcAccepted" "\<not> ac_existing a" using sample_accept_second by blast
  from fresh_acceptance [OF r(1) finished_machine_held(1) r(2,3)] r(1) finished_on_file show ?thesis by fastforce
qed

text \<open>C2: at most one request drives the machine: whenever a request is accepted, freshly or from
  the queue, every other receipt on disk is finished or waits in the queue.\<close>

theorem single_driver:
  assumes "accept_request_locked E rid0 op tg p s = (Inr a, t)" "m_lock s" "ac_status a = AcAccepted"
    and "validate_request_id rid0 = Inr rid"
  shows "\<forall>rc. on_file s rc \<longrightarrow> terminal (rc_status rc) \<or> rc_status rc = Queued \<or> entry s rid = Some (Stored rc)"
proof -
  note idr = validate_request_id_idem [OF assms(4)]
  have g: ?thesis if "canon_initialize E s = (Inr st, s1)" "accept_guard E st rid known s1 = (Inr (), s1)" for st s1 known
    using accept_guard_run(4) [OF that(2) idr] canon_initialize_run(2) [OF that(1)] by (auto simp: on_file_def)
  from assms(1,2) show ?thesis
  proof (cases rule: accept_cases)
    case (fresh rid' st s1)
    with assms(4) g show ?thesis by simp
  next
    case (finished rid' st s1 rc')
    with classify_existing_run(6) [OF finished(6)] assms(3) show ?thesis by simp
  next
    case (known rid' st s1 rc' c)
    with assms(4) g show ?thesis by simp
  qed
qed

lemma single_driver_witness:
  "\<exists>a t. accept_request_locked sample_env other_id OpStart (Some ''mario'') None finished_machine = (Inr a, t) \<and>
    ac_status a = AcAccepted \<and> (terminal (rc_status (finished_receipt sample_id ''1'')) \<or>
      rc_status (finished_receipt sample_id ''1'') = Queued \<or>
      entry finished_machine other_id = Some (Stored (finished_receipt sample_id ''1'')))"
proof -
  obtain a t where r: "accept_request_locked sample_env other_id OpStart (Some ''mario'') None finished_machine = (Inr a, t)"
      "ac_status a = AcAccepted" "\<not> ac_existing a" using sample_accept_second by blast
  from single_driver [OF r(1) finished_machine_held(1) r(2) sample_ids(2)] r finished_on_file show ?thesis by blast
qed

text \<open>C4: the queue is first in, first out: a claimed request has the least queue key (creation
  stamp, generation, id) of all queued receipts, nobody owned the canonical state before, and the
  claimer owns it afterwards.\<close>

theorem queue_is_fifo:
  assumes "accept_request_locked E rid0 op tg p s = (Inr a, t)" "m_lock s" "ac_claimed a"
  shows "\<exists>rid. validate_request_id rid0 = Inr rid \<and> owned_by rid op (ac_receipt a) t \<and>
    (\<forall>rc. on_file s rc \<longrightarrow> rc_status rc = Queued \<longrightarrow> queue_key (ac_receipt a) \<le> queue_key rc) \<and>
    (\<forall>st. m_canon s = Some (Stored st) \<longrightarrow> cs_request_id st = None)"
  using assms(1,2)
proof (cases rule: accept_cases)
  case (fresh rid st s1)
  have "\<not> ac_claimed a" using fresh(5) unfolding accept_fresh_def by (auto elim!: bnd_InrE split: if_splits)
  with assms(3) show ?thesis by simp
next
  case (finished rid st s1 rc)
  with classify_existing_run(2) [OF finished(6)] assms(3) show ?thesis by simp
next
  case (known rid st s1 rc c)
  have idr: "validate_request_id rid = Inr rid" by (rule validate_request_id_idem [OF known(1)])
  note ini = canon_initialize_run [OF known(2)]
  from known(3) have e: "entry s1 rid = Some (Stored rc)" by (simp add: holds_receipt_def)
  from ini(3) assms(2) have "m_lock s1" by simp
  note cl = accept_existing_claim [OF known(7) assms(3) classify_existing_run(2) [OF known(5)] idr e this known(4)]
  have "cs_request_id st0 = None" if "m_canon s = Some (Stored st0)" for st0
    using before_initialize(1) [OF known(2) that] cl(2) by simp
  with cl(1) known(1) on_file_same [OF ini(2)] show ?thesis by (auto simp: claimed_head_def)
qed

lemma queue_is_fifo_witness:
  "\<exists>a t. accept_request_locked sample_env sample_id OpStart (Some ''mario'') None queued_machine = (Inr a, t) \<and>
    (\<exists>rid. validate_request_id sample_id = Inr rid \<and> owned_by rid OpStart (ac_receipt a) t \<and>
    (\<forall>rc. on_file queued_machine rc \<longrightarrow> rc_status rc = Queued \<longrightarrow> queue_key (ac_receipt a) \<le> queue_key rc) \<and>
    (\<forall>st. m_canon queued_machine = Some (Stored st) \<longrightarrow> cs_request_id st = None))"
proof -
  obtain a t where r: "accept_request_locked sample_env sample_id OpStart (Some ''mario'') None queued_machine = (Inr a, t)"
      "ac_claimed a" using sample_claim by blast
  from queue_is_fifo [OF r(1) _ r(2)] r(1) show ?thesis
    by (auto simp: queued_machine_def ready_machine_def)
qed

section \<open>Repeated requests\<close>

lemma load_held_receipt: "holds_receipt E k rc s \<Longrightarrow> validate_request_id k = Inr k \<Longrightarrow> receipt_load E k s = (Inr (Some rc), s)"
  by (simp add: receipt_load_def bnd_def holds_receipt_def)

lemma initialize_held: "holds_state st s \<Longrightarrow> canon_initialize E s = (Inr st, s)"
  by (auto simp: canon_initialize_def canon_load_def bnd_def holds_state_def dest: valid_state_identity(1))

text \<open>Repeating a finished request runs nothing: it returns the recorded receipt with its final
  status and leaves the machine as it is.\<close>

lemma finished_request_replayed:
  assumes "m_lock s" "holds_state st s" "validate_request_id rid0 = Inr rid" "validate_request op tg = Inr (op, tg)"
    and "holds_receipt E rid rc s" "terminal (rc_status rc)"
    and "rc_payload_hash rc = payload_hash E op tg (payload_of p)"
  shows "accept_request_locked E rid0 op tg p s =
    (Inr \<lparr>ac_request_id = rc_request_id rc, ac_generation = rc_generation rc, ac_status = AcDone (rc_status rc),
       ac_existing = True, ac_receipt = rc, ac_claimed = False\<rparr>, s)"
  using assms validate_request_id_idem [OF assms(3)]
  by (simp add: accept_request_locked_def require_exclusive_lock_def bnd_apply unless_def initialize_held
      load_held_receipt classify_existing_def Let_def)

lemma finished_request_replayed_witness:
  "accept_request_locked sample_env sample_id OpStart (Some ''mario'') None finished_machine =
    (Inr \<lparr>ac_request_id = sample_id, ac_generation = 1, ac_status = AcDone Succeeded, ac_existing = True,
       ac_receipt = finished_receipt sample_id ''1'', ac_claimed = False\<rparr>, finished_machine)"
  using finished_request_replayed [of finished_machine "(fresh_state (iso_utc 0))\<lparr>cs_next_generation := 2\<rparr>"
      sample_id sample_id OpStart "Some ''mario''" sample_env "finished_receipt sample_id ''1''" None] finished_machine_held
  by (simp add: payload_hash_def sample_env_def validate_request_def validate_game_name_def run_chars)

lemma accept_fresh_hash:
  assumes "accept_fresh E st rid op tg h s = (Inr a, t)" "validate_request_id rid = Inr rid"
  shows "rc_payload_hash (ac_receipt a) = h"
proof -
  have "bnd (next_generation_for E st) (\<lambda>g.
       bnd (new_receipt E rid op tg h g Allocating None None) (\<lambda>rc0.
       bnd (receipt_save E rc0) (\<lambda>rc1.
       bnd (canon_save E (st\<lparr>cs_phase := Validating, cs_operation := Some op, cs_request_id := Some rid,
             cs_next_generation := g + 1\<rparr>)) (\<lambda>_.
       bnd (receipt_save E (rc1\<lparr>rc_status := Accepted\<rparr>)) (\<lambda>rc.
       bnd (prune_terminal E 1000) (\<lambda>_.
       ret \<lparr>ac_request_id = rid, ac_generation = g, ac_status = AcAccepted, ac_existing = False,
         ac_receipt = rc, ac_claimed = False\<rparr>)))))) s = (Inr a, t)"
    using assms(1) by (auto simp: accept_fresh_def split: if_splits)
  then obtain g s1 rc0 s2 rc1 s3 st' s4 rc2 s5 v s6 where
      "next_generation_for E st s = (Inr g, s1)"
    and r0: "new_receipt E rid op tg h g Allocating None None s1 = (Inr rc0, s2)"
    and r1: "receipt_save E rc0 s2 = (Inr rc1, s3)"
    and "canon_save E (st\<lparr>cs_phase := Validating, cs_operation := Some op, cs_request_id := Some rid,
             cs_next_generation := g + 1\<rparr>) s3 = (Inr st', s4)"
    and r2: "receipt_save E (rc1\<lparr>rc_status := Accepted\<rparr>) s4 = (Inr rc2, s5)"
    and "prune_terminal E 1000 s5 = (Inr v, s6)"
    and a: "a = \<lparr>ac_request_id = rid, ac_generation = g, ac_status = AcAccepted, ac_existing = False,
         ac_receipt = rc2, ac_claimed = False\<rparr>"
    by (elim bnd_InrE) simp
  have "rc_payload_hash rc1 = h" using receipt_save_run(1) [OF r1] new_receipt_run(4) [OF r0]
    by (auto simp: stamp_receipt_def)
  then show ?thesis using receipt_save_run(1) [OF r2] a by (auto simp: stamp_receipt_def)
qed

text \<open>The receipt of a fresh acceptance has the hash of the request it was made for.\<close>

lemma accepted_hash:
  assumes "accept_request_locked E rid0 op tg p s = (Inr a, t)" "m_lock s" "\<not> ac_existing a"
  shows "rc_payload_hash (ac_receipt a) = payload_hash E op tg (payload_of p)"
  using assms(1,2)
proof (cases rule: accept_cases)
  case (fresh rid st s1)
  show ?thesis by (rule accept_fresh_hash [OF fresh(5) validate_request_id_idem [OF fresh(1)]])
next
  case (finished rid st s1 rc)
  with classify_existing_run(3) [OF finished(6)] assms(3) show ?thesis by simp
next
  case (known rid st s1 rc c)
  with accept_existing_flags(1) [OF known(7)] classify_existing_run(3,6) [OF known(5)] assms(3)
  show ?thesis by (auto split: if_splits)
qed

text \<open>C7: a request id belongs to the request it was first accepted for.  As long as the receipt of that
  acceptance keeps its identity (as it does through every session), whatever status it is in, using
  the id for another operation, another target or another payload (up to the order of its keys) is
  refused and changes nothing.  SHA-256 is only asked not to collide on the two request documents.\<close>

theorem reused_request_id_refused:
  assumes "accept_request_locked E rid1 op1 tg1 p1 s1 = (Inr a, t1)" "m_lock s1" "\<not> ac_existing a"
    and "m_lock s" "holds_state st s" "validate_request_id rid0 = Inr rid" "validate_request op tg = Inr (op, tg)"
    and "holds_receipt E rid rc s" "same_identity (ac_receipt a) rc"
    and "(op, tg, json_norm (JObj (payload_of p))) \<noteq> (op1, tg1, json_norm (JObj (payload_of p1)))"
    and "e_sha256 E (request_document op tg (payload_of p)) = e_sha256 E (request_document op1 tg1 (payload_of p1)) \<Longrightarrow>
      request_document op tg (payload_of p) = request_document op1 tg1 (payload_of p1)"
  shows "\<exists>m. accept_request_locked E rid0 op tg p s = (Inl (RequestConflict m), s)"
proof -
  have "rc_payload_hash rc = payload_hash E op1 tg1 (payload_of p1)"
    using accepted_hash [OF assms(1-3)] assms(9) by (simp add: same_identity_def)
  moreover have "payload_hash E op tg (payload_of p) \<noteq> payload_hash E op1 tg1 (payload_of p1)"
  proof
    assume "payload_hash E op tg (payload_of p) = payload_hash E op1 tg1 (payload_of p1)"
    then have "request_document op tg (payload_of p) = request_document op1 tg1 (payload_of p1)"
      using assms(11) by (simp only: payload_hash_def)
    from request_document_inject [OF this] assms(10) show False by simp
  qed
  ultimately have "rc_payload_hash rc \<noteq> payload_hash E op tg (payload_of p)" by simp
  with assms(4-8) validate_request_id_idem [OF assms(6)] show ?thesis
    by (simp add: accept_request_locked_def require_exclusive_lock_def bnd_apply unless_def initialize_held
        load_held_receipt classify_existing_def Let_def)
qed

text \<open>A hash that tells the first request from the others; the id is used again for another target.\<close>

definition telling_env :: env where
  "telling_env = sample_env\<lparr>e_sha256 := (\<lambda>d. replicate 64
     (if d = request_document OpStart (Some ''mario'') (payload_of None) then CHR ''a'' else CHR ''b''))\<rparr>"

lemma telling_accept:
  "accept_request_locked telling_env sample_id OpStart (Some ''mario'') None ready_machine = (Inr sample_acceptance, accepted_machine)"
  by (simp add: telling_env_def run_all ready_machine_def blank_def fresh_state_def sample_acceptance_def accepted_machine_def
      stamped_def sample_receipt_def)

lemma telling_held:
  "m_lock accepted_machine" "\<exists>st. holds_state st accepted_machine"
  "holds_receipt telling_env sample_id (ac_receipt sample_acceptance) accepted_machine"
proof -
  have "holds_state (stamped ((fresh_state (iso_utc 0))\<lparr>cs_phase := Validating, cs_operation := Some OpStart,
       cs_request_id := Some sample_id, cs_next_generation := 2\<rparr>) (iso_utc 4)) accepted_machine"
    by (simp add: holds_state_def accepted_machine_def ready_machine_def run_state stamped_def fresh_state_def)
  then show "\<exists>st. holds_state st accepted_machine" by blast
qed (simp_all add: accepted_machine_def ready_machine_def sample_acceptance_def holds_receipt_def validate_receipt_def
    deadline_check_def identity_check_def runtime_directory_def ensure_contained_def require_def sample_receipt_def
    telling_env_def sample_env_def validate_request_def validate_game_name_def run_chars)

lemma reused_request_id_refused_witness:
  "\<exists>m. accept_request_locked telling_env sample_id OpStart (Some ''zelda'') None accepted_machine =
     (Inl (RequestConflict m), accepted_machine)"
proof -
  obtain st where st: "holds_state st accepted_machine" using telling_held(2) by blast
  have zelda: "validate_request OpStart (Some ''zelda'') = Inr (OpStart, Some ''zelda'')"
    by (simp add: validate_request_def validate_game_name_def run_chars)
  have same: "same_identity (ac_receipt sample_acceptance) (ac_receipt sample_acceptance)" by (simp add: same_identity_def)
  have told: "e_sha256 telling_env (request_document OpStart (Some ''zelda'') (payload_of None)) =
      e_sha256 telling_env (request_document OpStart (Some ''mario'') (payload_of None)) \<Longrightarrow>
    request_document OpStart (Some ''zelda'') (payload_of None) = request_document OpStart (Some ''mario'') (payload_of None)"
    by (simp add: telling_env_def split: if_splits)
  show ?thesis
    by (rule reused_request_id_refused [OF telling_accept _ _ telling_held(1) st sample_ids(1) zelda telling_held(3) same _ told])
      (simp_all add: ready_machine_def sample_acceptance_def)
qed

text \<open>C8: finishing is final: finishing a finished request again returns its receipt when status and
  result are the recorded ones and is refused otherwise; neither changes anything.\<close>

theorem finishing_is_final:
  assumes "m_lock s" "validate_request_id rid = Inr k" "holds_receipt E k rc s" "terminal (rc_status rc)" "terminal st"
  shows "finish_request_locked E rid st res s =
    (if rc_status rc = st \<and> rc_result rc = Some res then Inr rc else Inl (RequestConflict ''terminal request result''), s)"
proof -
  from assms(2,3) have "receipt_load E rid s = (Inr (Some rc), s)"
    by (simp add: receipt_load_def bnd_def holds_receipt_def valid_receipt_key)
  with assms show ?thesis
    by (simp add: finish_request_locked_def require_exclusive_lock_def bnd_apply unless_def)
qed

lemma finishing_is_final_witness:
  "finish_request_locked sample_env sample_id Failed (new_outcome sample_id OpStart Failed) finished_machine =
     (Inl (RequestConflict ''terminal request result''), finished_machine)"
  using finishing_is_final [OF finished_machine_held(1) sample_ids(1) finished_machine_held(3), of Failed
      "new_outcome sample_id OpStart Failed"] by simp

section \<open>Retention\<close>

text \<open>C9: retention never removes a receipt that is still needed: what disappears was finished, and
  no runtime awaiting its teardown refers to it; the canonical state is not touched.\<close>

theorem retention_spares_needed:
  assumes "prune_terminal E n s = (r, t)" "validate_request_id k = Inr k" "entry s k = Some (Stored rc)" "entry t k \<noteq> entry s k"
  shows "m_canon t = m_canon s \<and> entry t k = None \<and> terminal (rc_status rc) \<and>
    (\<forall>st rt res. m_canon s = Some (Stored st) \<longrightarrow> rt \<in> set (cs_retiring st) \<longrightarrow> rd_retirement rt = Some res \<longrightarrow>
       validate_request_id (oc_request_id res) \<noteq> Inr (rc_request_id rc))"
proof -
  from prune_run [OF assms(1)] assms(4) obtain ps where ps: "retained ps s t"
    "\<And>st rt res. m_canon s = Some (Stored st) \<Longrightarrow> rt \<in> set (cs_retiring st) \<Longrightarrow> rd_retirement rt = Some res \<Longrightarrow>
       \<exists>k. validate_request_id (oc_request_id res) = Inr k \<and> k \<in> set ps" by auto
  with assms(2-4) have "m_canon t = m_canon s" "entry t k = None" "terminal (rc_status rc)" "rc_request_id rc \<notin> set ps"
    by (auto simp: retained_def)
  with ps(2) show ?thesis by fastforce
qed

lemma retention_spares_needed_witness:
  "m_canon (snd (prune_terminal sample_env 1 crowded_machine)) = m_canon crowded_machine \<and>
   entry (snd (prune_terminal sample_env 1 crowded_machine)) sample_id = None \<and>
   terminal (rc_status (finished_receipt sample_id ''1''))"
  using retention_spares_needed [OF prod.collapse [symmetric] sample_ids(1) crowded_entry, of sample_env 1]
  by (simp add: crowded_entry crowded_pruned del: One_nat_def)

end
