(* ===== verification/QueueProperties.thy ===== *)
theory QueueProperties
  imports Sessions
begin

text \<open>
  The request queue as a priority queue: the abstraction of a machine is the map from request ids to
  the receipts that wait, ordered by the queue key.  Queueing a request inserts its receipt,
  claiming removes a least one, and everything else the store does to it leaves the map alone.
\<close>

section \<open>The abstraction\<close>

definition waiting :: "machine \<Rightarrow> string \<Rightarrow> receipt option" where
  "waiting s k = (case entry s k of
     Some (Stored rc) \<Rightarrow> if rc_status rc = Queued \<and> validate_request_id k = Inr k then Some rc else None
   | _ \<Rightarrow> None)"

lemma waiting_entry: "entry t k = entry s k \<Longrightarrow> waiting t k = waiting s k"
  by (simp add: waiting_def)

lemma waiting_same: "m_receipts t = m_receipts s \<Longrightarrow> waiting t = waiting s"
  by (simp add: waiting_def fun_eq_iff)

lemma waiting_on_file: "waiting s k = Some rc \<Longrightarrow> on_file s rc \<and> rc_status rc = Queued"
  by (auto simp: waiting_def on_file_def split: option.splits doc.splits if_splits)

lemma prune_waiting:
  assumes "prune_terminal E n s = (r, t)"
  shows "waiting t = waiting s"
proof
  fix k
  from prune_run [OF assms] obtain ps where "retained ps s t" by auto
  then show "waiting t k = waiting s k"
    by (cases "validate_request_id k = Inr k")
      (fastforce simp: retained_def waiting_def split: option.splits doc.splits)+
qed

lemma save_waiting:
  assumes "receipt_save E rc s = (Inr v, t)" "validate_request_id (rc_request_id rc) = Inr k"
  shows "waiting t = (waiting s)(k := if rc_status rc = Queued then Some v else None)"
proof
  fix j
  from receipt_save_run(1) [OF assms(1)] assms(2) obtain u where v: "v = stamp_receipt rc k u" "entry t k = Some (Stored v)"
    by auto
  from receipt_save_run(5) [OF assms] have "j \<noteq> k \<Longrightarrow> entry t j = entry s j" by blast
  with v validate_request_id_idem [OF assms(2)] show "waiting t j = ((waiting s)(k := if rc_status rc = Queued then Some v else None)) j"
    by (auto simp: waiting_def)
qed

lemma save_state_waiting: "canon_save E st s = (Inr v, t) \<Longrightarrow> waiting t = waiting s"
  by (rule waiting_same) (rule canon_save_run(4))

section \<open>Insertion\<close>

lemma enqueue_fresh_run:
  assumes "enqueue_fresh E st rid op tg h ext hard s = (Inr a, t)" "validate_request_id rid = Inr rid"
  shows "waiting t = (waiting s)(rid \<mapsto> ac_receipt a)" "ac_status a = AcQueued" "\<not> ac_existing a"
    "rc_request_id (ac_receipt a) = rid" "cs_next_generation st \<le> ac_generation a"
    "on_file s rc \<Longrightarrow> rc_generation rc < ac_generation a"
proof -
  from assms(1) obtain g s1 rc0 s2 rc1 s3 st' s4 v s5 where
      g: "next_generation_for E st s = (Inr g, s1)"
    and r0: "new_receipt E rid op tg h g Queued (Some ext) hard s1 = (Inr rc0, s2)"
    and r1: "receipt_save E rc0 s2 = (Inr rc1, s3)"
    and c: "canon_save E (st\<lparr>cs_next_generation := g + 1\<rparr>) s3 = (Inr st', s4)"
    and p: "prune_terminal E 1000 s4 = (Inr v, s5)"
    and a: "a = \<lparr>ac_request_id = rid, ac_generation = g, ac_status = AcQueued, ac_existing = False,
         ac_receipt = rc1, ac_claimed = False\<rparr>" "t = s5"
    by (auto simp: enqueue_fresh_def elim!: bnd_InrE split: if_splits)
  note gr = next_generation_run [OF g] and nr = new_receipt_run [OF r0]
  have "waiting s2 = waiting s" using gr(1) nr(10) by (intro waiting_same) simp
  moreover have "waiting s3 = (waiting s2)(rid \<mapsto> rc1)" using save_waiting [OF r1] nr(1,6) assms(2) by simp
  ultimately show "waiting t = (waiting s)(rid \<mapsto> ac_receipt a)"
    using prune_waiting [OF p] save_state_waiting [OF c] a by simp
  show "ac_status a = AcQueued" "\<not> ac_existing a" "cs_next_generation st \<le> ac_generation a"
    "on_file s rc \<Longrightarrow> rc_generation rc < ac_generation a" using a gr by auto
  show "rc_request_id (ac_receipt a) = rid" using receipt_save_run(1) [OF r1] nr(1) assms(2) a by auto
qed

lemma classify_existing_flag: "classify_existing rc h = Inr a \<Longrightarrow> ac_existing a"
  by (auto simp: classify_existing_def split: if_splits)

text \<open>C15: queueing refines insertion: a request that is newly queued was not waiting before, the waiting
  requests are those from before and it, and its generation is above that of every receipt; a request
  that was known already changes nothing in the queue.\<close>

theorem enqueue_inserts:
  assumes "enqueue_request_locked E rid0 op tg p ext hard s = (Inr a, t)" "m_lock s" "validate_request_id rid0 = Inr rid"
  shows "if ac_existing a then waiting t = waiting s
    else waiting s rid = None \<and> waiting t = (waiting s)(rid \<mapsto> ac_receipt a) \<and> ac_status a = AcQueued \<and>
      (\<forall>rc. on_file s rc \<longrightarrow> rc_generation rc < ac_generation a)"
proof -
  have idr: "validate_request_id rid = Inr rid" by (rule validate_request_id_idem [OF assms(3)])
  let ?legacy = "payload_hash E op tg (payload_of p)"
    and ?h = "payload_hash E op tg (if ext then payload_of p else extension_marker (payload_of p))"
  from lock_run [OF assms(1) [unfolded enqueue_request_locked_def] assms(2)] assms(3)
  obtain st s1 existing s2 where i: "canon_initialize E s = (Inr st, s1)" and l: "receipt_load E rid s1 = (Inr existing, s2)"
    and b: "(case existing of None \<Rightarrow> enqueue_fresh E st rid op tg ?h ext hard
       | Some rc \<Rightarrow> lift (classify_existing rc (if rc_payload_hash rc = ?legacy then ?legacy else ?h))) s2 = (Inr a, t)"
    by (auto elim!: bnd_InrE dest!: validate_request_same simp: Let_def)
  note run = receipt_load_run [OF l] and ini = canon_initialize_run [OF i]
  have w: "waiting s2 = waiting s" "\<And>rc. on_file s2 rc = on_file s rc"
    using run(1) ini(2) by (auto intro: waiting_same simp: on_file_def)
  show ?thesis
  proof (cases existing)
    case None
    with b have f: "enqueue_fresh E st rid op tg ?h ext hard s2 = (Inr a, t)" by simp
    from run(1,2) None idr have "waiting s2 rid = None" by (auto simp: waiting_def)
    with enqueue_fresh_run [OF f idr] w show ?thesis by auto
  next
    case (Some rc)
    with b w show ?thesis by (auto dest: classify_existing_flag)
  qed
qed

lemma enqueue_inserts_witness:
  "\<exists>a t. enqueue_request_locked sample_env sample_id OpStart (Some ''mario'') None True None ready_machine = (Inr a, t) \<and>
     waiting ready_machine sample_id = None \<and> waiting t = (waiting ready_machine)(sample_id \<mapsto> ac_receipt a)"
proof -
  have "\<exists>a t. enqueue_request_locked sample_env sample_id OpStart (Some ''mario'') None True None ready_machine = (Inr a, t) \<and>
      \<not> ac_existing a"
    by (simp add: run_all ready_machine_def blank_def fresh_state_def)
  then obtain a t where r: "enqueue_request_locked sample_env sample_id OpStart (Some ''mario'') None True None ready_machine = (Inr a, t)"
    "\<not> ac_existing a" by blast
  from enqueue_inserts [OF r(1) _ sample_ids(1)] r show ?thesis by (auto simp: ready_machine_def)
qed

section \<open>Removal of the least\<close>

text \<open>C16: claiming refines the removal of a least element: the claimed receipt was waiting, no waiting
  receipt has a smaller key, and afterwards exactly the others wait.\<close>

theorem claim_removes_least:
  assumes "claim_queued_head E st owner rid op tg rc h s = (Inr a, t)" "ac_claimed a"
    and "validate_request_id rid = Inr rid" "entry s rid = Some (Stored rc)"
  shows "waiting s rid = Some rc \<and> (\<forall>k rc'. waiting s k = Some rc' \<longrightarrow> queue_key rc \<le> queue_key rc') \<and>
    waiting t = (waiting s)(rid := None)"
proof -
  note c = claim_run [OF assms]
  have q: "queued_receipts E s = (x, s') \<Longrightarrow> s' = s" for x s' using queued_receipts_run(1) by blast
  have hd: "rc_request_id rc = rid"
  proof -
    from assms(1) obtain q s1 where "queued_receipts E s = (Inr q, s1)" "q \<noteq> []" "rc_request_id (hd q) = rid"
      unfolding claim_queued_head_def by (auto elim!: bnd_InrE split: if_splits)
    with queued_receipts_run(2) [of E s "Inr q" s1 q] obtain rcs where a: "all_receipts E s = (Inr rcs, s)" "q = queue_order rcs" by auto
    then have "hd q \<in> set rcs" using \<open>q \<noteq> []\<close> queue_order_set [of rcs] by (metis (no_types, lifting) hd_in_set mem_Collect_eq)
    from all_receipts_run(2) [OF a(1) refl this] obtain k where k: "validate_request_id k = Inr k" "holds_receipt E k (hd q) s" by blast
    with holds_id [OF k(2)] \<open>rc_request_id (hd q) = rid\<close> assms(3,4) have "hd q = rc" by (auto simp: holds_receipt_def)
    with \<open>rc_request_id (hd q) = rid\<close> show ?thesis by simp
  qed
  from assms(1,2) obtain left s1 st' where w: "claim_writes E st' rc h s1 = (Inr a, t)" "m_receipts s1 = m_receipts s"
    unfolding claim_queued_head_def claim_writes_def [symmetric]
    by (auto elim!: bnd_InrE dest!: q split: if_splits option.splits
        simp: expire_head_def classify_existing_def wall_remaining_def wall_now_def)
  then obtain v s2 claimed where "canon_save E st' s1 = (Inr v, s2)" "receipt_save E (rc\<lparr>rc_status := Accepted\<rparr>) s2 = (Inr claimed, t)"
    unfolding claim_writes_def by (auto elim!: bnd_InrE)
  with save_state_waiting save_waiting [of E "rc\<lparr>rc_status := Accepted\<rparr>" s2 claimed t rid] hd assms(3) waiting_same [OF w(2)]
  have "waiting t = (waiting s)(rid := None)" by fastforce
  moreover have "waiting s rid = Some rc" using c(3) assms(3,4) by (simp add: waiting_def)
  ultimately show ?thesis using c(6) waiting_on_file by blast
qed

abbreviation waiting_receipt :: receipt where
  "waiting_receipt \<equiv> sample_receipt sample_id OpStart (Some ''mario'') Queued None (iso_utc 1) (iso_utc 2)"

lemma claim_removes_least_witness:
  "\<exists>a t. claim_queued_head sample_env ((fresh_state (iso_utc 0))\<lparr>cs_next_generation := 2\<rparr>) None sample_id OpStart (Some ''mario'')
       waiting_receipt (replicate 64 (CHR ''a'')) queued_machine = (Inr a, t) \<and>
     waiting queued_machine sample_id = Some waiting_receipt \<and> waiting t = (waiting queued_machine)(sample_id := None)"
proof -
  have "\<exists>a t. claim_queued_head sample_env ((fresh_state (iso_utc 0))\<lparr>cs_next_generation := 2\<rparr>) None sample_id OpStart (Some ''mario'')
       waiting_receipt (replicate 64 (CHR ''a'')) queued_machine = (Inr a, t) \<and> ac_claimed a"
    by (simp add: run_all queued_machine_def ready_machine_def blank_def fresh_state_def sample_receipt_def)
  then obtain a t where r: "claim_queued_head sample_env ((fresh_state (iso_utc 0))\<lparr>cs_next_generation := 2\<rparr>) None sample_id OpStart
      (Some ''mario'') waiting_receipt (replicate 64 (CHR ''a'')) queued_machine = (Inr a, t)" "ac_claimed a" by blast
  have "entry queued_machine sample_id = Some (Stored waiting_receipt)" by (simp add: queued_machine_def)
  from claim_removes_least [OF r sample_ids(1) this] r(1) show ?thesis by blast
qed

end
