(* ===== verification/NameProperties.thy ===== *)
theory NameProperties
  imports Samples
begin

text \<open>
  Names, identifiers and time stamps: what is printed reads back, different runtimes never share a
  name, a runtime directory stays inside the state directory, and what the order of the stamps is.
\<close>

section \<open>Runtime identifiers\<close>

lemma digit_char_val: "is_digit c \<Longrightarrow> digit_char (digit_val c) = c \<and> digit_val c < 10"
  by (auto simp: digit_char_def digit_val_def is_digit_def less_eq_char_def)

lemma undec_eq_0: "list_all is_digit s \<Longrightarrow> undec s = 0 \<Longrightarrow> s \<noteq> [] \<Longrightarrow> hd s = CHR ''0''"
proof (induction s rule: rev_induct)
  case (snoc c s)
  then have u: "undec s = 0" "digit_val c = 0" "list_all is_digit s" "is_digit c" by (simp_all add: undec_snoc)
  with digit_char_val [of c] have "c = CHR ''0''" by simp
  with snoc.IH u show ?case by (cases s) auto
qed simp

lemma dec_undec: "list_all is_digit s \<Longrightarrow> s \<noteq> [] \<Longrightarrow> hd s \<noteq> CHR ''0'' \<Longrightarrow> dec (undec s) = s"
proof (induction s rule: rev_induct)
  case (snoc c s)
  then have c: "digit_char (digit_val c) = c" "digit_val c < 10" "list_all is_digit s" by (simp_all add: digit_char_val)
  show ?case
  proof (cases "s = []")
    case True
    with c show ?thesis by (simp add: undec_def dec.simps)
  next
    case False
    with snoc.prems have h: "hd s \<noteq> CHR ''0''" by simp
    with undec_eq_0 [OF c(3)] False have "0 < undec s" by blast
    with c snoc.IH [OF c(3) False h] show ?thesis by (simp add: undec_snoc dec.simps [of "10 * undec s + digit_val c"])
  qed
qed simp

lemma runtime_id_split:
  assumes "matches_runtime_id s"
  shows "\<exists>h. s = make_runtime_id (int (undec (runtime_id_digits s))) h \<and> 1 \<le> undec (runtime_id_digits s) \<and>
    6 \<le> length h \<and> length h \<le> 32 \<and> list_all is_hex_lower h"
proof -
  define ds rest where d: "ds = runtime_id_digits s" and r: "rest = dropWhile is_digit (tl s)"
  with assms have m: "s \<noteq> []" "hd s = CHR ''g''" "ds \<noteq> []" "hd ds \<noteq> CHR ''0''" "rest \<noteq> []" "hd rest = CHR ''-''"
    "6 \<le> length (tl rest)" "length (tl rest) \<le> 32" "list_all is_hex_lower (tl rest)"
    by (auto simp: matches_runtime_id_def Let_def)
  have dd: "list_all is_digit ds" by (auto simp: d runtime_id_digits_def list_all_iff dest: set_takeWhileD)
  have "tl s = ds @ rest" by (simp add: d r runtime_id_digits_def)
  with m have "s = CHR ''g'' # ds @ CHR ''-'' # tl rest" by (metis list.collapse)
  moreover have "dec (undec ds) = ds" by (rule dec_undec [OF dd m(3,4)])
  moreover have "0 < undec ds" using undec_eq_0 [OF dd _ m(3)] m(4) by blast
  ultimately show ?thesis using m(7-9)
    by (intro exI [of _ "tl rest"]) (simp add: make_runtime_id_def gen_suffix_def d)
qed

text \<open>Runtime identifiers and pairs of a generation and a token correspond: the id made of a
  generation and a token is valid and its generation reads back, and every valid id is the one made
  of the generation it carries and some token.\<close>

lemma runtime_id_roundtrip:
  assumes "1 \<le> g" "6 \<le> length h" "length h \<le> 32" "list_all is_hex_lower h"
  shows "validate_runtime_id (make_runtime_id g h) = Inr (make_runtime_id g h) \<and>
    runtime_id_generation (make_runtime_id g h) = Inr g \<and>
    (\<forall>s v. validate_runtime_id s = Inr v \<longrightarrow>
       (\<exists>k. v = s \<and> (\<exists>g'. runtime_id_generation s = Inr g' \<and> 1 \<le> g' \<and> s = make_runtime_id g' k)))"
proof -
  have "\<exists>k. v = s \<and> (\<exists>g'. runtime_id_generation s = Inr g' \<and> 1 \<le> g' \<and> s = make_runtime_id g' k)"
    if "validate_runtime_id s = Inr v" for s v
  proof -
    from that have m: "matches_runtime_id s" "v = s" by (auto simp: validate_runtime_id_def split: if_splits)
    from runtime_id_split [OF m(1)] m show ?thesis
      by (auto simp: runtime_id_generation_def validate_runtime_id_def)
  qed
  with make_runtime_id_matches [OF assms] make_runtime_id_generation [OF assms] show ?thesis
    by (simp add: validate_runtime_id_def)
qed

lemma runtime_id_roundtrip_witness:
  "validate_runtime_id (make_runtime_id 7 ''0123456789abcdef'') = Inr (make_runtime_id 7 ''0123456789abcdef'') \<and>
   runtime_id_generation (make_runtime_id 7 ''0123456789abcdef'') = Inr 7"
proof -
  have "list_all is_hex_lower ''0123456789abcdef''" by (simp add: run_chars)
  from runtime_id_roundtrip [OF _ _ _ this, of 7] show ?thesis by simp
qed

lemma name_no_colon: "matches_name i s \<Longrightarrow> CHR '':'' \<notin> set s"
  by (cases s) (auto simp: name_start_def name_char_def is_lower_def is_digit_def list_all_iff less_eq_char_def)

lemma colon_split: "CHR '':'' \<notin> set a \<Longrightarrow> takeWhile (\<lambda>c. c \<noteq> CHR '':'') (a @ CHR '':'' # b) = a"
  "CHR '':'' \<notin> set a \<Longrightarrow> dropWhile (\<lambda>c. c \<noteq> CHR '':'') (a @ CHR '':'' # b) = CHR '':'' # b"
  by (induction a) auto

lemma colon_none: "CHR '':'' \<notin> set s \<Longrightarrow> takeWhile (\<lambda>c. c \<noteq> CHR '':'') s = s"
  "CHR '':'' \<notin> set s \<Longrightarrow> dropWhile (\<lambda>c. c \<noteq> CHR '':'') s = []"
  by (induction s) auto

lemma colon_first:
  assumes "dropWhile (\<lambda>c. c \<noteq> CHR '':'') s \<noteq> []"
  obtains b where "dropWhile (\<lambda>c. c \<noteq> CHR '':'') s = CHR '':'' # b" "s = takeWhile (\<lambda>c. c \<noteq> CHR '':'') s @ CHR '':'' # b"
proof -
  from assms hd_dropWhile [OF assms] obtain b where b: "dropWhile (\<lambda>c. c \<noteq> CHR '':'') s = CHR '':'' # b"
    by (cases "dropWhile (\<lambda>c. c \<noteq> CHR '':'') s") auto
  from takeWhile_dropWhile_id [of "\<lambda>c. c \<noteq> CHR '':''" s] have "s = takeWhile (\<lambda>c. c \<noteq> CHR '':'') s @ CHR '':'' # b"
    unfolding b by (rule sym)
  with b that show ?thesis by blast
qed

lemma matches_target_iff:
  "matches_target s \<longleftrightarrow> matches_name 127 s \<or> (\<exists>a b. s = a @ CHR '':'' # b \<and> matches_name 127 a \<and> matches_name 127 b)"
proof (cases "dropWhile (\<lambda>c. c \<noteq> CHR '':'') s = []")
  case True
  then have "\<forall>x\<in>set s. x \<noteq> CHR '':''" by (simp add: dropWhile_eq_Nil_conv)
  then have n: "CHR '':'' \<notin> set s" by blast
  then have "\<nexists>a b. s = a @ CHR '':'' # b" by (metis in_set_conv_decomp)
  moreover have "matches_target s = matches_name 127 s" unfolding matches_target_def Let_def colon_none [OF n] by simp
  ultimately show ?thesis by blast
next
  case False
  then obtain b where b: "dropWhile (\<lambda>c. c \<noteq> CHR '':'') s = CHR '':'' # b"
    "s = takeWhile (\<lambda>c. c \<noteq> CHR '':'') s @ CHR '':'' # b" by (rule colon_first)
  then have c: "CHR '':'' \<in> set s" by (metis in_set_conv_decomp)
  have "a = takeWhile (\<lambda>c. c \<noteq> CHR '':'') s \<and> b' = b" if "s = a @ CHR '':'' # b'" "matches_name 127 a" for a b'
    using colon_split [OF name_no_colon [OF that(2)], of b'] b(1) that(1) by simp
  with b(2) have "(\<exists>a b'. s = a @ CHR '':'' # b' \<and> matches_name 127 a \<and> matches_name 127 b') \<longleftrightarrow>
    matches_name 127 (takeWhile (\<lambda>c. c \<noteq> CHR '':'') s) \<and> matches_name 127 b" by metis
  moreover have "\<not> matches_name 127 s" using name_no_colon c by blast
  moreover from b(1) have "matches_target s \<longleftrightarrow>
    matches_name 127 (takeWhile (\<lambda>c. c \<noteq> CHR '':'') s) \<and> matches_name 127 b" by (simp add: matches_target_def)
  ultimately show ?thesis by simp
qed

text \<open>Two generations share no game window, agent window or adapter session, whatever the
  generations are, and the three names of one generation are valid tmux targets.\<close>

theorem runtime_names_disjoint:
  assumes "runtime_names g = Inr n" "runtime_names k = Inr m" "g \<noteq> k"
  shows "nm_game_window n \<noteq> nm_game_window m \<and> nm_agent_window n \<noteq> nm_agent_window m \<and>
    nm_adapter_session n \<noteq> nm_adapter_session m \<and>
    distinct [nm_game_window n, nm_agent_window n, nm_adapter_session n] \<and>
    validate_tmux_target (nm_game_window n) = Inr (nm_game_window n) \<and>
    validate_tmux_target (nm_agent_window n) = Inr (nm_agent_window n) \<and>
    validate_tmux_session_ref (nm_adapter_session n) = Inr (nm_adapter_session n)"
proof -
  have mt: "matches_target s" if "matches_name 127 s" for s using that by (simp add: matches_target_iff)
  have v: "matches_name 127 (nm_game_window n)" "matches_name 127 (nm_agent_window n)" "matches_name 127 (nm_adapter_session n)"
    using assms(1) by (auto simp: runtime_names_def validate_tmux_name_def split: sum.splits if_splits)
  have "\<not> matches_tmux_id (CHR 0x24) (nm_adapter_session n)" using runtime_names_form [OF assms(1)] by simp
  with v have "validate_tmux_session_ref (nm_adapter_session n) = Inr (nm_adapter_session n)"
    by (simp add: validate_tmux_session_ref_def validate_tmux_name_def)
  moreover have "validate_tmux_target (nm_game_window n) = Inr (nm_game_window n)"
    "validate_tmux_target (nm_agent_window n) = Inr (nm_agent_window n)"
    using mt v by (simp_all add: validate_tmux_target_def)
  moreover have "distinct [nm_game_window n, nm_agent_window n, nm_adapter_session n]"
    using runtime_names_form [OF assms(1)] by simp
  ultimately show ?thesis using runtime_names_inj [OF assms(1,2)] assms(3) by blast
qed

lemma runtime_names_disjoint_witness:
  "nm_game_window \<lparr>nm_game_window = ''game-g1'', nm_agent_window = ''agent-g1'', nm_adapter_session = ''docich-game-g1''\<rparr> \<noteq>
   nm_game_window \<lparr>nm_game_window = ''game-g2'', nm_agent_window = ''agent-g2'', nm_adapter_session = ''docich-game-g2''\<rparr>"
  using runtime_names_disjoint [OF sample_names(1,2)] by simp

text \<open>A tmux target is accepted exactly when it is a name, or two names joined by one colon.\<close>

theorem tmux_target_language:
  "validate_tmux_target s = Inr v \<longleftrightarrow> v = s \<and>
     (matches_name 127 s \<or> (\<exists>a b. s = a @ CHR '':'' # b \<and> matches_name 127 a \<and> matches_name 127 b))"
  by (auto simp: validate_tmux_target_def matches_target_iff)

section \<open>Time stamps\<close>

text \<open>A stamp the program wrote reads back as the instant it was written for, so the remaining
  time of a deadline is the difference to the wall clock, and the deadline has expired exactly when
  that difference is not positive.\<close>

lemma stamp_roundtrip:
  assumes "0 \<le> t" "t < int max_us"
  shows "parse_iso (iso_utc t) = Instant t \<and>
    wall_deadline_remaining now (Some (iso_utc t)) = Inr (Some (t - now)) \<and>
    wall_deadline_expired now (Some (iso_utc t)) = (t \<le> now)"
  using parse_iso_utc [OF assms] by (simp add: wall_deadline_remaining_def wall_deadline_expired_def)

lemma stamp_roundtrip_witness:
  "wall_deadline_remaining 63900000000000000 (Some (iso_utc 63900000000000001)) = Inr (Some 1) \<and>
   \<not> wall_deadline_expired 63900000000000000 (Some (iso_utc 63900000000000001))"
  using stamp_roundtrip [of 63900000000000001 63900000000000000] by (simp add: max_us_def day_us_def second_us_def)

text \<open>Requests created in different seconds are served in the order of their creation: along the
  queue the seconds of the creation instants never decrease.\<close>

theorem queue_by_seconds:
  assumes "\<And>rc. rc \<in> set rcs \<Longrightarrow> rc_created_at rc = iso_utc (at rc) \<and> at rc < int max_us"
  shows "sorted (List.map (\<lambda>rc. nat (at rc) div second_us) (queue_order rcs))"
proof -
  have le: "nat (at a) div second_us \<le> nat (at b) div second_us"
    if "queue_key a \<le> queue_key b" "a \<in> set rcs" "b \<in> set rcs" for a b
  proof (rule ccontr)
    assume "\<not> ?thesis"
    then have "iso_utc (at b) < iso_utc (at a)" using iso_utc_mono_seconds assms [OF that(2)] by force
    with that assms [OF that(2)] assms [OF that(3)] show False by (auto simp: queue_key_def less_eq_prod_def)
  qed
  have "sorted_wrt (\<lambda>a b. queue_key a \<le> queue_key b) (queue_order rcs)"
    using queue_order_sorted [of rcs] by (simp add: sorted_map)
  then have "sorted_wrt (\<lambda>a b. nat (at a) div second_us \<le> nat (at b) div second_us) (queue_order rcs)"
    by (rule sorted_wrt_mono_rel [rotated]) (use le in \<open>simp add: queue_order_set\<close>)
  then show ?thesis by (simp add: sorted_map)
qed

definition queued_at :: "string \<Rightarrow> int \<Rightarrow> receipt" where
  "queued_at rid t = sample_receipt rid OpStop None Queued None (iso_utc t) (iso_utc t)"

lemma queued_at_simps [simp]: "rc_created_at (queued_at rid t) = iso_utc t" "rc_status (queued_at rid t) = Queued"
  "rc_generation (queued_at rid t) = 1" "rc_request_id (queued_at rid t) = rid"
  by (simp_all add: queued_at_def)

lemma queue_by_seconds_witness:
  "sorted (List.map (\<lambda>rc. nat (if rc_request_id rc = sample_id then 1000000 else 5000000) div second_us)
     (queue_order [queued_at other_id 5000000, queued_at sample_id 1000000]))"
  by (rule queue_by_seconds) (auto simp: max_us_def day_us_def second_us_def)

lemma whole_second_last:
  assumes "nat t mod second_us = 0" "0 \<le> t" "0 < f" "f < second_us"
  shows "iso_utc (t + int f) < iso_utc t"
proof -
  have n: "nat (t + int f) = nat t + f" using assms by (simp add: nat_add_distrib)
  have "(nat t + f) div second_us = nat t div second_us"
    using assms by (metis add.right_neutral div_less div_mult_mod_eq div_mult_self3 less_nat_zero_code)
  moreover have m: "(nat t + f) mod second_us = f" using assms by (simp add: mod_add_left_eq [symmetric])
  ultimately have "iso_seconds (nat t + f) = iso_seconds (nat t)"
    by (simp add: iso_seconds_def day_us_div day_us_mod)
  with assms n m show ?thesis by (simp add: iso_utc_def append_less_iff less_char_def)
qed

text \<open>Within one second the queue is not first in, first out: \<open>isoformat\<close> leaves the fraction out
  when it is zero, and \<open>Z\<close> sorts after the point, so a request created exactly on the second is
  served after every request created later in that second.\<close>

theorem fifo_inverted_within_second:
  assumes "nat t mod second_us = 0" "0 \<le> t" "0 < f" "f < second_us"
    and "rc_created_at a = iso_utc t" "rc_created_at b = iso_utc (t + int f)" "rc_status a = Queued" "rc_status b = Queued"
  shows "queue_order [a, b] = [b, a]"
  using whole_second_last [OF assms(1-4)] assms(5-8)
  by (auto simp: queue_order_def queue_key_def less_eq_prod_def insort_key_def)

lemma fifo_inverted_within_second_witness:
  "queue_order [queued_at sample_id 3000000, queued_at other_id 3500000] = [queued_at other_id 3500000, queued_at sample_id 3000000]"
  by (rule fifo_inverted_within_second [of 3000000 500000]) (simp_all add: second_us_def)

section \<open>Rotation\<close>

lemma index_of_nth: "distinct gs \<Longrightarrow> i < length gs \<Longrightarrow> index_of (gs ! i) gs = i"
proof (induction gs arbitrary: i)
  case (Cons g gs)
  then show ?case by (cases i) (auto simp: nth_mem)
qed simp

fun rotated :: "nat \<Rightarrow> string list \<Rightarrow> string option \<Rightarrow> exn + string option" where
  "rotated 0 gs c = Inr c"
| "rotated (Suc k) gs c = (case next_rotation_game gs c of Inl x \<Rightarrow> Inl x | Inr g \<Rightarrow> rotated k gs (Some g))"

text \<open>Rotation visits every game in turn: k steps from the game at position i lead to the game at
  position i + k modulo their number, a game which is not in the list (or none) is followed by the
  first, and only an empty list fails.\<close>

theorem rotation_cycles:
  assumes "distinct gs" "i < length gs"
  shows "rotated k gs (Some (gs ! i)) = Inr (Some (gs ! ((i + k) mod length gs))) \<and>
    next_rotation_game gs None = Inr (gs ! 0) \<and>
    (\<forall>c. c \<notin> set gs \<longrightarrow> next_rotation_game gs (Some c) = Inr (gs ! 0)) \<and>
    (\<forall>c. \<exists>x. next_rotation_game [] c = Inl (ValueError x))"
proof -
  have "rotated k gs (Some (gs ! i)) = Inr (Some (gs ! ((i + k) mod length gs)))"
    using assms(2)
  proof (induction k arbitrary: i)
    case (Suc k)
    have "next_rotation_game gs (Some (gs ! i)) = Inr (gs ! ((i + 1) mod length gs))"
      using Suc.prems assms(1) by (auto simp: next_rotation_game_def index_of_nth)
    moreover have "(i + 1) mod length gs < length gs" using Suc.prems by (intro mod_less_divisor) linarith
    moreover have "((i + 1) mod length gs + k) mod length gs = (i + Suc k) mod length gs"
      by (simp add: mod_add_left_eq)
    ultimately show ?case using Suc.IH by simp
  qed simp
  with assms(2) show ?thesis by (auto simp: next_rotation_game_def)
qed

lemma rotation_cycles_witness:
  "rotated 4 [''a'', ''b'', ''c''] (Some ''c'') = Inr (Some ''a'')"
  using rotation_cycles [of "[''a'', ''b'', ''c'']" 2 4] by simp

end
