(* ===== verification/CallProperties.thy ===== *)
theory CallProperties
  imports Sessions
begin

text \<open>
  Time and evidence: an adapter call stays within its time, polling loops end by their deadline
  whatever the fuel, a runtime counts as stopped only when a probe said so, and the writer lock is
  free again after every public operation.
\<close>

section \<open>Bounded calls\<close>

definition clock :: "env \<Rightarrow> machine \<Rightarrow> int" where
  "clock E s = m_now s + int (e_tick E (m_ticks s))"

lemma clock_ge: "m_now s \<le> clock E s"
  by (simp add: clock_def)

lemma monotonic_run: "monotonic E s = (Inr (clock E s), s\<lparr>m_now := clock E s, m_ticks := m_ticks s + 1\<rparr>)"
  by (simp add: monotonic_def clock_def Let_def)

text \<open>What one adapter call of the given step and limit did to the clock and the trace.\<close>

definition in_time :: "env \<Rightarrow> int \<Rightarrow> int \<Rightarrow> machine \<Rightarrow> machine \<Rightarrow> bool" where
  "in_time E deadline timeout s t \<longleftrightarrow>
     m_now s \<le> m_now t \<and> m_now t \<le> max (clock E s) (min deadline (clock E s + timeout) + max 0 (e_cancel_grace E))"

lemma bounded_call_run:
  assumes "bounded_call E ask log deadline timeout s = (r, t)"
  shows "in_time E deadline timeout s t"
    "deadline \<le> clock E s \<or> timeout \<le> 0 \<Longrightarrow> r = Inl (DeadlineExceeded ''adapter deadline'') \<and> m_trace t = m_trace s \<and> m_calls t = m_calls s"
    "clock E s < deadline \<Longrightarrow> 0 < timeout \<Longrightarrow> m_trace t = log r @ m_trace s \<and> m_calls t = m_calls s + 1"
    "r = Inr v \<Longrightarrow> m_now t \<le> min deadline (clock E s + timeout) \<and> snd (ask (m_calls s)) = Inr v"
    "r = Inr v \<Longrightarrow> m_trace t = log (Inr v) @ m_trace s"
proof -
  obtain took answer where a: "ask (m_calls s) = (took, answer)" by fastforce
  note run = assms [unfolded bounded_apply clock_def [symmetric] Let_def a prod.case]
  show "in_time E deadline timeout s t"
    using run clock_ge [of s E] by (auto simp: in_time_def split: if_splits)
  show "deadline \<le> clock E s \<or> timeout \<le> 0 \<Longrightarrow> r = Inl (DeadlineExceeded ''adapter deadline'') \<and> m_trace t = m_trace s \<and> m_calls t = m_calls s"
    using run by (auto split: if_splits)
  show "clock E s < deadline \<Longrightarrow> 0 < timeout \<Longrightarrow> m_trace t = log r @ m_trace s \<and> m_calls t = m_calls s + 1"
    using run by (auto split: if_splits)
  show "r = Inr v \<Longrightarrow> m_now t \<le> min deadline (clock E s + timeout) \<and> snd (ask (m_calls s)) = Inr v"
    using run a by (auto split: if_splits)
  show "r = Inr v \<Longrightarrow> m_trace t = log (Inr v) @ m_trace s"
    using run by (auto split: if_splits)
qed

lemma call_span:
  assumes "call_adapter E st ad deadline timeout s = (r, t)"
  shows "m_now s \<le> m_now t \<and> m_now t \<le> max (clock E s) (min deadline (clock E s + timeout) + max 0 (e_cancel_grace E))"
  using bounded_call_run(1) [OF assms [unfolded call_adapter_def]] by (simp add: in_time_def)

text \<open>C20: an adapter call takes at most what is left of the request, capped by the limit of its step,
  and the grace period; an answer counts only when it came within that time, and after the deadline
  the adapter is not called at all.\<close>

theorem call_stays_in_time:
  assumes "call_adapter E st ad deadline timeout s = (r, t)"
  shows "m_now s \<le> m_now t \<and>
    m_now t \<le> max (clock E s) (min deadline (clock E s + timeout) + max 0 (e_cancel_grace E)) \<and>
    (deadline \<le> clock E s \<or> timeout \<le> 0 \<longrightarrow>
       r = Inl (DeadlineExceeded ''adapter deadline'') \<and> m_trace t = m_trace s \<and> m_calls t = m_calls s) \<and>
    (\<forall>v. r = Inr v \<longrightarrow> m_now t \<le> min deadline (clock E s + timeout) \<and> snd (e_call E (m_calls s) st ad) = Inr v)"
  using bounded_call_run [OF assms [unfolded call_adapter_def]] by (simp add: in_time_def)

lemma call_stays_in_time_witness:
  "m_now (snd (call_adapter sample_env SAlive sample_adapter 100 10 blank)) \<le> max 1 (min 100 (1 + 10) + 1000000) \<and>
   m_now blank \<le> m_now (snd (call_adapter sample_env SAlive sample_adapter 100 10 blank))"
  using call_stays_in_time [of sample_env SAlive sample_adapter 100 10 blank, OF prod.collapse [symmetric]]
  by (simp add: clock_def sample_env_def blank_def)

section \<open>The writer lock\<close>

definition same_lock :: "machine \<Rightarrow> machine \<Rightarrow> bool" where
  "same_lock s t \<longleftrightarrow> m_lock t = m_lock s"

interpretation lk: step_order same_lock
  by unfold_locales (simp_all add: same_lock_def)

lemma frame_lock: "steps store_frame m \<Longrightarrow> steps same_lock m"
  by (erule steps_weaken) (simp add: store_frame_def same_lock_def)

lemma run_others_lock: "\<not> m_lock s \<Longrightarrow> \<not> m_lock (run_others E s)"
proof -
  have "\<not> m_lock t \<Longrightarrow> \<not> m_lock (foldl (\<lambda>t o1. run_other E o1 t) t os)" for t os
    by (induction os arbitrary: t) (simp_all add: run_other_def)
  then show "\<not> m_lock s \<Longrightarrow> \<not> m_lock (run_others E s)" by (simp add: run_others_def)
qed

text \<open>A transaction gives the lock back on every exit, whatever its body does with it.\<close>

lemma transaction_lock: "steps same_lock (transaction E m)"
  unfolding steps_def
proof
  fix s
  show "same_lock s (snd (transaction E m s))"
    using run_others_lock [of s E]
    by (auto simp: same_lock_def transaction_def bnd_def acquire_lock_def releasing_def Let_def split: prod.splits sum.splits)
qed

lemma lock_clocks: "steps same_lock (monotonic E)" "steps same_lock (sleep d)" "steps same_lock (utc_after E d)"
  by (simp_all add: steps_def same_lock_def monotonic_def sleep_def utc_after_def wall_now_def bnd_def Let_def)

lemmas lock_rules = lk.so_rules transaction_lock lock_clocks frame_reads [THEN frame_lock]

lemma classify_lock: "steps same_lock (classify_request E rid op tg p)"
  unfolding classify_request_def by (intro lock_rules)

lemma so_ac_lock: "steps same_lock m1 \<Longrightarrow> steps same_lock m2 \<Longrightarrow> steps same_lock m3 \<Longrightarrow> (\<And>s. steps same_lock (f s)) \<Longrightarrow>
  steps same_lock (case x of AcAccepted \<Rightarrow> m1 | AcInProgress \<Rightarrow> m2 | AcQueued \<Rightarrow> m3 | AcDone s \<Rightarrow> f s)"
  by (cases x) auto

lemma entry_lock: "steps same_lock busy \<Longrightarrow> steps same_lock (with_entry_retry E d body busy)"
proof -
  assume b: "steps same_lock busy"
  have "steps same_lock (entry_loop E n u body busy)" for n u
  proof (induction n)
    case (Suc n)
    with b show ?case by (simp only: entry_loop.simps) (intro lock_rules)
  qed (simp only: entry_loop.simps lk.so_raise)
  then show ?thesis unfolding with_entry_retry_def by (intro lock_rules)
qed

lemma execute_lock: "steps same_lock (execute E op tg g rid t p al)"
  unfolding execute_def capped_payload_def classify_busy_def Let_def
  by (intro lock_rules entry_lock classify_lock so_ac_lock)

lemma api_lock:
  "steps same_lock (start E game rid t p al)" "steps same_lock (stop E rid t p)" "steps same_lock (switch E game rid t p al)"
  "steps same_lock (restart E rid t p)" "steps same_lock (rotate_games E games rid t p)"
  unfolding start_def stop_def switch_def restart_def rotate_games_def by (intro lock_rules execute_lock)+

lemma resume_lock: "steps same_lock (resume_queued E t)"
proof -
  have "steps same_lock (replay_head E t rc)" for rc
    unfolding replay_head_def Let_def
    by (cases "rc_operation rc"; cases "rc_target rc"; simp; intro lock_rules api_lock)
  then show ?thesis unfolding resume_queued_def by (intro lock_rules)
qed

lemma serve_lock: "steps same_lock (serve E c)"
  by (cases c; simp only: serve.simps forget_def accept_request_def enqueue_request_def finish_request_def recover_def
      maintain_fifo_def repair_active_agent_def store_initialize_def Let_def;
    intro lock_rules api_lock resume_lock entry_lock classify_lock)

text \<open>C18: every public operation leaves the writer lock as it found it, on every exit: when it could
  take the lock, the lock is free afterwards, although the wait for a match gives it away and takes
  it back in between.\<close>

theorem lock_given_back: "m_lock (snd (serve E c s)) = m_lock s"
  using stepsD [OF serve_lock] by (simp add: same_lock_def)

section \<open>Polling loops\<close>

lemma call_clock: "call_adapter E st ad d tm s = (r, t) \<Longrightarrow> m_now s \<le> m_now t"
  using bounded_call_run(1) [of E "\<lambda>i. e_call E i st ad" "\<lambda>r. [Event st (ad_runtime_id ad) r]" d tm s r t]
  by (simp add: call_adapter_def in_time_def)

lemma probe_clock: "probe_alive E ad d s = (r, t) \<Longrightarrow> m_now s \<le> m_now t"
  unfolding probe_alive_def
  by (auto simp: bnd_def attempt_def dest: call_clock split: prod.splits sum.splits if_splits)

abbreviation ticked :: "env \<Rightarrow> machine \<Rightarrow> machine" where
  "ticked E s \<equiv> s\<lparr>m_now := clock E s, m_ticks := m_ticks s + 1\<rparr>"

lemma wait_step: "wait_loop E (Suc n) ad limit d s =
  (if limit \<le> clock E s then bnd (probe_alive E ad d) (\<lambda>a. ret (a = Some False)) (ticked E s)
   else case probe_alive E ad d (ticked E s) of
     (Inl x, v) \<Rightarrow> (Inl x, v)
   | (Inr a, v) \<Rightarrow> if a = Some False then (Inr True, v)
       else wait_loop E n ad limit d (v\<lparr>m_now := m_now v + max 0 (e_poll E)\<rparr>))"
  by (auto simp: bnd_def monotonic_run sleep_def split: prod.splits sum.splits)

lemma wait_run: "0 < n \<Longrightarrow> wait_loop E n ad limit d s =
  (if limit \<le> clock E s then bnd (probe_alive E ad d) (\<lambda>a. ret (a = Some False)) (ticked E s)
   else case probe_alive E ad d (ticked E s) of
     (Inl x, v) \<Rightarrow> (Inl x, v)
   | (Inr a, v) \<Rightarrow> if a = Some False then (Inr True, v)
       else wait_loop E (n - 1) ad limit d (v\<lparr>m_now := m_now v + max 0 (e_poll E)\<rparr>))"
  using wait_step [of E "n - 1"] by simp

lemma wait_loop_fuel:
  assumes "1 \<le> e_poll E" "limit - m_now s \<le> int n * e_poll E"
  shows "wait_loop E (Suc (n + k)) ad limit d s = wait_loop E (Suc n) ad limit d s"
  using assms(2)
proof (induction n arbitrary: s)
  case 0
  then have "limit \<le> clock E s" using clock_ge [of s E] by simp
  then show ?case by (simp only: wait_step if_True)
next
  case (Suc n)
  have "wait_loop E (Suc (n + k)) ad limit d (v\<lparr>m_now := m_now v + max 0 (e_poll E)\<rparr>) =
      wait_loop E (Suc n) ad limit d (v\<lparr>m_now := m_now v + max 0 (e_poll E)\<rparr>)"
    if "probe_alive E ad d (ticked E s) = (r, v)" for r v
  proof (rule Suc.IH)
    have "m_now s + e_poll E \<le> m_now (v\<lparr>m_now := m_now v + max 0 (e_poll E)\<rparr>)"
      using probe_clock [OF that] clock_ge [of s E] by simp
    with Suc.prems show "limit - m_now (v\<lparr>m_now := m_now v + max 0 (e_poll E)\<rparr>) \<le> int n * e_poll E"
      by (simp add: algebra_simps)
  qed
  then show ?case
    by (simp only: wait_step [of _ "Suc n"] wait_step [of _ "Suc (n + k)"] add_Suc) (auto split: prod.splits sum.splits)
qed

lemma poll_rounds_enough: "1 \<le> e_poll E \<Longrightarrow> b \<le> int (nat (b div max 1 (e_poll E)) + 1) * e_poll E"
proof -
  assume p: "1 \<le> e_poll E"
  have "b < e_poll E * (b div e_poll E) + e_poll E"
    using mult_div_mod_eq [of "e_poll E" b] pos_mod_bound [of "e_poll E" b] p by linarith
  then have "b \<le> (b div e_poll E + 1) * e_poll E" by (simp add: algebra_simps)
  also have "\<dots> \<le> int (nat (b div max 1 (e_poll E)) + 1) * e_poll E"
    using p by (intro mult_right_mono) (simp_all add: max_def)
  finally show ?thesis .
qed

text \<open>What a probe can take when reading the clock takes at most \<open>\<delta>\<close>, and where the last round of a
  wait can end: the loop sleeps the whole interval, so it can oversleep its limit.\<close>

definition probe_span :: "env \<Rightarrow> int \<Rightarrow> int" where
  "probe_span E \<delta> = \<delta> + max 0 (e_t_probe E) + max 0 (e_cancel_grace E)"

lemma clock_span: "\<forall>i. int (e_tick E i) \<le> \<delta> \<Longrightarrow> clock E s \<le> m_now s + \<delta>"
  by (simp add: clock_def)

lemma probe_takes:
  assumes "\<forall>i. int (e_tick E i) \<le> \<delta>" "probe_alive E ad d s = (r, t)"
  shows "m_now t \<le> m_now s + probe_span E \<delta>"
proof -
  obtain q where "call_adapter E SAlive ad d (e_t_probe E) s = (q, t)"
    using assms(2) by (auto simp: probe_alive_def bnd_def attempt_def split: prod.splits sum.splits if_splits)
  then have "m_now t \<le> max (clock E s) (min d (clock E s + e_t_probe E) + max 0 (e_cancel_grace E))"
    by (rule call_span [THEN conjunct2])
  with clock_span [OF assms(1), of s] show ?thesis by (simp add: probe_span_def)
qed

lemma wait_loop_takes:
  assumes "\<forall>i. int (e_tick E i) \<le> \<delta>" "0 \<le> \<delta>"
  shows "wait_loop E n ad limit d s = (r, t) \<Longrightarrow>
    m_now t \<le> max (m_now s + \<delta>) (limit + (probe_span E \<delta> + max 0 (e_poll E) + \<delta>)) + probe_span E \<delta>"
proof (induction n arbitrary: s)
  case 0
  then show ?case using assms(2) by (simp add: probe_span_def)
next
  case (Suc n)
  have p: "0 \<le> probe_span E \<delta>" using assms(2) by (simp add: probe_span_def)
  have c: "clock E s \<le> m_now s + \<delta>" by (rule clock_span [OF assms(1)])
  show ?case
  proof (cases "limit \<le> clock E s")
    case True
    with Suc.prems have "bnd (probe_alive E ad d) (\<lambda>a. ret (a = Some False)) (ticked E s) = (r, t)" by (simp only: wait_step if_True)
    then obtain q where "probe_alive E ad d (ticked E s) = (q, t)" by (auto simp: bnd_def split: prod.splits sum.splits)
    from probe_takes [OF assms(1) this] c show ?thesis by simp
  next
    case False
    obtain q v where v: "probe_alive E ad d (ticked E s) = (q, v)" by fastforce
    have "m_now v \<le> limit + probe_span E \<delta>" using probe_takes [OF assms(1) v] False by simp
    moreover have "t = v \<or> wait_loop E n ad limit d (v\<lparr>m_now := m_now v + max 0 (e_poll E)\<rparr>) = (r, t)"
      using Suc.prems [unfolded wait_step] False v by (auto split: sum.splits if_splits)
    ultimately show ?thesis using Suc.IH [of "v\<lparr>m_now := m_now v + max 0 (e_poll E)\<rparr>"] p assms(2) by auto
  qed
qed

text \<open>C21: waiting for a runtime to stop ends in time: its limit is the verification time, or the
  deadline if that is earlier; when reading the clock takes at most \<open>\<delta>\<close>, the wait ends at most one
  poll interval and two probes after the limit (the loop does not shorten its last sleep).  The rounds
  \<open>wait_stopped\<close> starts with are enough: more of them change nothing.\<close>

theorem wait_ends:
  assumes "1 \<le> e_poll E" "\<forall>i. int (e_tick E i) \<le> \<delta>" "wait_stopped E ad d s = (r, t)"
  shows "m_now t \<le> max (clock E s + \<delta>)
      (min d (clock E s + e_quiesce_verify E) + (probe_span E \<delta> + e_poll E + \<delta>)) + probe_span E \<delta> \<and>
    (\<forall>k. wait_stopped E ad d s = bnd (monotonic E) (\<lambda>t.
      wait_loop E (poll_rounds E (e_quiesce_verify E) + k) ad (min d (t + e_quiesce_verify E)) d) s)"
proof -
  let ?u = "ticked E s" and ?l = "min d (clock E s + e_quiesce_verify E)"
  have "0 \<le> int (e_tick E 0)" by simp
  also have "\<dots> \<le> \<delta>" using assms(2) by blast
  finally have \<delta>: "0 \<le> \<delta>" .
  have w: "wait_loop E (poll_rounds E (e_quiesce_verify E)) ad ?l d ?u = (r, t)"
    using assms(3) by (simp add: wait_stopped_def bnd_def monotonic_run)
  have "?l - m_now ?u \<le> e_quiesce_verify E" by simp
  also have "\<dots> \<le> int (nat (e_quiesce_verify E div max 1 (e_poll E)) + 1) * e_poll E" by (rule poll_rounds_enough [OF assms(1)])
  also have "\<dots> \<le> int (nat (e_quiesce_verify E div max 1 (e_poll E)) + 2) * e_poll E"
    using assms(1) by (intro mult_right_mono) auto
  finally have "?l - m_now ?u \<le> int (nat (e_quiesce_verify E div max 1 (e_poll E)) + 2) * e_poll E" .
  note fuel = wait_loop_fuel [OF assms(1) this]
  show ?thesis
    using wait_loop_takes [OF assms(2) \<delta> w] assms(1) fuel
    by (simp add: wait_stopped_def bnd_def monotonic_run poll_rounds_def numeral_3_eq_3 del: wait_loop.simps)
qed

lemma wait_ends_witness:
  "\<exists>r t. wait_stopped sample_env sample_adapter 900 blank = (r, t) \<and> m_now t \<le> 900 + 2 * probe_span sample_env 1 + 100001"
proof -
  obtain r t where w: "wait_stopped sample_env sample_adapter 900 blank = (r, t)" by fastforce
  have "1 \<le> e_poll sample_env" "\<forall>i. int (e_tick sample_env i) \<le> 1" by (simp_all add: sample_env_def)
  from wait_ends [OF this w] w show ?thesis by (simp add: sample_env_def blank_def clock_def probe_span_def)
qed

lemma other_now: "m_now (run_other E o1 s) = m_now s"
proof -
  have "steps store_frame (other_body E o1)"
    by (cases o1) (simp_all add: forget_def transition_def, (intro frame_rules)+)
  then have "store_frame (s\<lparr>m_lock := True\<rparr>) (snd (other_body E o1 (s\<lparr>m_lock := True\<rparr>)))" by (rule stepsD)
  then show ?thesis by (simp add: run_other_def store_frame_def)
qed

lemma acquire_now: "acquire_lock E s = (r, t) \<Longrightarrow> m_now t = m_now s"
proof -
  have "m_now (foldl (\<lambda>t o1. run_other E o1 t) t os) = m_now t" for t os
    by (induction os arbitrary: t) (simp_all add: other_now)
  then have "m_now (run_others E s) = m_now s" by (simp add: run_others_def)
  then show "acquire_lock E s = (r, t) \<Longrightarrow> m_now t = m_now s"
    by (auto simp: acquire_lock_def Let_def split: if_splits)
qed

lemma reacquire_step: "reacquire_loop E (Suc n) d s =
  (if d \<le> clock E s then (Inl (DeadlineExceeded ''writer lock not reacquired''), ticked E s)
   else case acquire_lock E (ticked E s) of
     (Inr u, v) \<Rightarrow> (Inr (), v)
   | (Inl x, v) \<Rightarrow> if is_Busy x then reacquire_loop E n d
         ((ticked E v)\<lparr>m_now := clock E v + max 0 (min (e_poll E) (max (d - clock E v) 0))\<rparr>) else (Inl x, v))"
  by (auto simp: bnd_def attempt_def monotonic_run sleep_def split: prod.splits sum.splits)

lemma reacquire_fuel:
  assumes "1 \<le> e_poll E" "d - m_now s \<le> int n * e_poll E"
  shows "reacquire_loop E (Suc (n + k)) d s = reacquire_loop E (Suc n) d s"
  using assms(2)
proof (induction n arbitrary: s)
  case 0
  then have "d \<le> clock E s" using clock_ge [of s E] by simp
  then show ?case by (simp only: reacquire_step if_True)
next
  case (Suc n)
  have "reacquire_loop E (Suc (n + k)) d ((ticked E v)\<lparr>m_now := clock E v + max 0 (min (e_poll E) (max (d - clock E v) 0))\<rparr>) =
      reacquire_loop E (Suc n) d ((ticked E v)\<lparr>m_now := clock E v + max 0 (min (e_poll E) (max (d - clock E v) 0))\<rparr>)"
    if "acquire_lock E (ticked E s) = (r, v)" for r v
  proof (rule Suc.IH)
    have now: "m_now s \<le> clock E v" using acquire_now [OF that] clock_ge [of s E] clock_ge [of v E] by simp
    define pr where "pr = int n * e_poll E"
    have pr: "0 \<le> pr" "d - m_now s \<le> pr + e_poll E" using assms(1) Suc.prems by (simp_all add: pr_def algebra_simps)
    from now pr have "d - m_now ((ticked E v)\<lparr>m_now := clock E v + max 0 (min (e_poll E) (max (d - clock E v) 0))\<rparr>) \<le> pr"
      using assms(1) by (auto simp: min_def max_def)
    then show "d - m_now ((ticked E v)\<lparr>m_now := clock E v + max 0 (min (e_poll E) (max (d - clock E v) 0))\<rparr>) \<le> int n * e_poll E"
      by (simp only: pr_def)
  qed
  then show ?case
    by (simp only: reacquire_step [of _ "Suc n"] reacquire_step [of _ "Suc (n + k)"] add_Suc) (auto split: prod.splits sum.splits)
qed

lemma reacquire_takes:
  assumes "\<forall>i. int (e_tick E i) \<le> \<delta>" "0 \<le> \<delta>"
  shows "reacquire_loop E n d s = (r, t) \<Longrightarrow>
    m_now t \<le> max (m_now s + \<delta>) (d + 2 * \<delta>) \<and> (r = Inr () \<longrightarrow> m_now t < d \<and> m_lock t)"
proof (induction n arbitrary: s)
  case 0
  then show ?case using assms(2) by auto
next
  case (Suc n)
  have c: "clock E u \<le> m_now u + \<delta>" for u by (rule clock_span [OF assms(1)])
  show ?case
  proof (cases "d \<le> clock E s")
    case True
    with Suc.prems [unfolded reacquire_step] c [of s] show ?thesis by auto
  next
    case False
    obtain q v where v: "acquire_lock E (ticked E s) = (q, v)" by fastforce
    have now: "m_now v = clock E s" using acquire_now [OF v] by simp
    let ?w = "(ticked E v)\<lparr>m_now := clock E v + max 0 (min (e_poll E) (max (d - clock E v) 0))\<rparr>"
    have "m_now ?w \<le> d + \<delta>" using c [of v] now False assms(2) by (auto simp: min_def max_def)
    moreover have "q = Inr () \<Longrightarrow> m_lock v" using v by (auto simp: acquire_lock_def Let_def split: if_splits)
    moreover have "t = v \<and> (r = Inr () \<longrightarrow> q = Inr ()) \<or> reacquire_loop E n d ?w = (r, t)"
      using Suc.prems [unfolded reacquire_step] False v by (auto split: sum.splits if_splits)
    ultimately show ?thesis using Suc.IH [of ?w] now False assms(2) by auto
  qed
qed

text \<open>C22: taking the lock back after a wait ends by its deadline: when reading the clock takes at most
  \<open>\<delta>\<close>, it ends at most two such readings after the deadline (or at once, when the deadline has
  passed), and it returns normally only before the deadline and with the lock.  The rounds
  \<open>reacquire_for_wait\<close> starts with are enough: more of them change nothing.\<close>

theorem reacquire_ends:
  assumes "1 \<le> e_poll E" "\<forall>i. int (e_tick E i) \<le> \<delta>" "reacquire_for_wait E d s = (r, t)"
  shows "m_now t \<le> max (m_now s + \<delta>) (d + 2 * \<delta>) \<and> (r = Inr () \<longrightarrow> m_now t < d \<and> m_lock t) \<and>
    (\<forall>k. reacquire_for_wait E d s = reacquire_loop E (poll_rounds E (d - m_now s) + k) d s)"
proof -
  have "0 \<le> int (e_tick E 0)" by simp
  also have "\<dots> \<le> \<delta>" using assms(2) by blast
  finally have \<delta>: "0 \<le> \<delta>" .
  have w: "reacquire_loop E (poll_rounds E (d - m_now s)) d s = (r, t)"
    using assms(3) by (simp add: reacquire_for_wait_def bnd_def)
  have "d - m_now s \<le> int (nat ((d - m_now s) div max 1 (e_poll E)) + 1) * e_poll E" by (rule poll_rounds_enough [OF assms(1)])
  also have "\<dots> \<le> int (nat ((d - m_now s) div max 1 (e_poll E)) + 2) * e_poll E"
    using assms(1) by (intro mult_right_mono) auto
  finally have "d - m_now s \<le> int (nat ((d - m_now s) div max 1 (e_poll E)) + 2) * e_poll E" .
  note fuel = reacquire_fuel [OF assms(1) this]
  show ?thesis
    using reacquire_takes [OF assms(2) \<delta> w] fuel
    by (simp add: reacquire_for_wait_def bnd_def poll_rounds_def numeral_3_eq_3 del: reacquire_loop.simps)
qed

text \<open>Another process holds the lock: the wait gives up at its deadline.\<close>

definition held_env :: env where
  "held_env = sample_env\<lparr>e_lock_free := (\<lambda>_. False)\<rparr>"

lemma reacquire_ends_witness:
  "\<exists>r t. reacquire_for_wait held_env 700 blank = (r, t) \<and> m_now t \<le> 702 \<and> r = Inl (DeadlineExceeded ''writer lock not reacquired'')"
proof -
  have e: "1 \<le> e_poll held_env" "\<forall>i. int (e_tick held_env i) \<le> 1" by (simp_all add: held_env_def sample_env_def)
  obtain r t where w: "reacquire_for_wait held_env 700 blank = (r, t)" by fastforce
  have "m_now t \<le> 702" using reacquire_ends [OF e w] by (simp add: blank_def)
  moreover have "r = Inl (DeadlineExceeded ''writer lock not reacquired'')"
    using w by (simp add: reacquire_for_wait_def poll_rounds_def numeral_3_eq_3 run_basic held_env_def sample_env_def blank_def)
  ultimately show ?thesis using w by blast
qed

section \<open>Rounds of a request\<close>

lemma initialize_ready: "holds_state st s \<Longrightarrow> canon_initialize E s = (Inr st, s)"
  by (auto simp: canon_initialize_def canon_load_def bnd_def holds_state_def dest: valid_state_identity(1))

lemma settled_fuel:
  assumes "holds_state st s" "cs_phase st \<noteq> Draining"
  shows "execute_locked E (Suc n) q s = execute_locked E (Suc m) q s"
  using assms by (simp add: bnd_def initialize_ready split: prod.split sum.split)

lemma recover_then_cong:
  assumes "\<And>st s. holds_state st s \<Longrightarrow> cs_phase st = Ready \<Longrightarrow> a s = b s"
  shows "recover_then E st d a other s = recover_then E st d b other s"
proof -
  have "bnd (load_state E) (\<lambda>current. if cs_phase current = Ready then a else other) u =
    bnd (load_state E) (\<lambda>current. if cs_phase current = Ready then b else other) u" for u
  proof -
    obtain r t where l: "load_state E u = (r, t)" by fastforce
    have "a t = b t" if "r = Inr c" "cs_phase c = Ready" for c
    proof (rule assms [of c])
      from load_state_run(5) [OF l that(1)] that(2) have "holds_state c u" by (auto simp: fresh_state_def)
      then show "holds_state c t" using load_state_run(1) [OF l] by (simp add: holds_state_def)
    qed (rule that(2))
    with l show ?thesis by (cases r) (auto simp: bnd_def)
  qed
  then show ?thesis unfolding recover_then_def
    by (auto simp: bnd_def split: prod.split sum.split)
qed

text \<open>C23: a request is worked off in at most two rounds: only a drain that has expired sends it back to
  the start, and then the state is ready, so more rounds change nothing.\<close>

theorem two_rounds_suffice: "execute_locked E (Suc (Suc n)) q s = execute_locked E 2 q s"
proof -
  define ag where "ag = execute_locked E (Suc 0)"
  have e: "recover_then E st d (execute_locked E (Suc n) q') other = recover_then E st d (ag q') other" for st d q' other
    unfolding ag_def by (rule ext, rule recover_then_cong, rule settled_fuel) auto
  have "handle_draining E (execute_locked E (Suc n)) = handle_draining E ag"
    by (simp only: handle_draining_def e fun_eq_iff) simp
  then show ?thesis by (simp only: numeral_2_eq_2 execute_locked.simps(2) [of E "Suc n"] execute_locked.simps(2) [of E "Suc 0"] ag_def)
qed

section \<open>Evidence that a runtime stopped\<close>

text \<open>The newest call answered that the runtime is not alive.\<close>

definition seen_dead :: "adapter \<Rightarrow> machine \<Rightarrow> machine \<Rightarrow> bool" where
  "seen_dead ad s t \<longleftrightarrow> (\<exists>v more. m_trace t = Event SAlive (ad_runtime_id ad) (Inr v) # more @ m_trace s \<and> \<not> py_truth v)"

lemma probe_dead: "probe_alive E ad d s = (Inr (Some False), t) \<Longrightarrow> seen_dead ad s t"
  unfolding probe_alive_def seen_dead_def
  by (auto simp: bnd_def attempt_def call_adapter_def dest!: bounded_call_run(5) split: prod.splits sum.splits if_splits)

lemma seen_dead_earlier: "onward s u \<Longrightarrow> seen_dead ad u t \<Longrightarrow> seen_dead ad s t"
  unfolding onward_def seen_dead_def by (metis append_assoc)

lemma wait_loop_dead: "wait_loop E n ad limit d s = (Inr True, t) \<Longrightarrow> seen_dead ad s t"
proof (induction n arbitrary: s)
  case (Suc n)
  obtain r v where p: "probe_alive E ad d (ticked E s) = (r, v)" by fastforce
  have g: "onward s (ticked E s)" by (simp add: onward_def clock_ge)
  with steps_run [OF memory.probe_ok p] have v: "onward s v" by (blast intro: ow.R_trans)
  have d: "seen_dead ad s v" if "r = Inr (Some False)" using probe_dead [of E ad d _ v] p g that seen_dead_earlier by blast
  show ?case
  proof (cases "limit \<le> clock E s")
    case True
    with Suc.prems p d show ?thesis by (cases r) (auto simp: wait_step bnd_def simp del: wait_loop.simps)
  next
    case False
    with Suc.prems p d Suc.IH [of "v\<lparr>m_now := m_now v + max 0 (e_poll E)\<rparr>"] v show ?thesis
      by (cases r) (auto simp: wait_step onward_def simp del: wait_loop.simps split: if_splits
          intro: seen_dead_earlier [of s "v\<lparr>m_now := m_now v + max 0 (e_poll E)\<rparr>"])
  qed
qed simp

lemma wait_stopped_dead: "wait_stopped E ad d s = (Inr True, t) \<Longrightarrow> seen_dead ad s t"
proof -
  assume "wait_stopped E ad d s = (Inr True, t)"
  then have "seen_dead ad (ticked E s) t"
    by (auto simp: wait_stopped_def bnd_def monotonic_run dest: wait_loop_dead)
  then show ?thesis by (rule seen_dead_earlier [rotated]) (simp add: onward_def clock_ge)
qed

lemma next_part_cases:
  assumes "next_part m f s = (Inr (Inr v), t)"
  obtains w u where "m s = (Inr (Inr w), u)" "f w u = (Inr (Inr v), t)"
  using assms by (auto simp: next_part_def bnd_def split: prod.splits sum.splits)

text \<open>C11: a switch goes on past the old game only when a probe made after its cleanup reported it dead:
  the newest adapter call is that answer.\<close>

theorem switch_quiesces:
  assumes "quiesce_old E ac target ad deadline s = (Inr (Inr ()), t)"
  shows "seen_dead ad s t"
proof -
  from assms obtain u where u: "onward s u" "bnd (wait_stopped E ad deadline) (\<lambda>stopped.
      if stopped then ret (Inr ()) else bnd (rollback_locked E ac (Some target) ''quiesce_failed'' ''old runtime not stopped'')
        (\<lambda>res. ret (Inl res))) u = (Inr (Inr ()), t)"
    unfolding quiesce_old_def
    by (elim next_part_cases) (auto dest!: steps_run [OF memory.or_rollback_ok [OF memory.stop_and_clean_ok]])
  then have "wait_stopped E ad deadline u = (Inr True, t)"
    by (auto elim!: bnd_InrE split: if_splits)
  from seen_dead_earlier [OF u(1) wait_stopped_dead [OF this]] show ?thesis .
qed

lemma switch_quiesces_witness:
  "\<exists>t. quiesce_old sample_env sample_acceptance ''mario'' sample_adapter 90000000 ready_machine = (Inr (Inr ()), t) \<and>
     seen_dead sample_adapter ready_machine t"
proof -
  have "\<exists>t. quiesce_old sample_env sample_acceptance ''mario'' sample_adapter 90000000 ready_machine = (Inr (Inr ()), t)"
    by (simp add: run_all run_calls quiesce_old_def next_part_def or_rollback_def stop_and_clean_def wait_stopped_def poll_rounds_def
        wait_run clock_def ready_machine_def blank_def sample_adapter_def)
  with switch_quiesces show ?thesis by blast
qed

lemma adapter_for_run: "adapter_for E r d s = (Inr ad, t) \<Longrightarrow> ad_runtime_id ad = rt_runtime_id r \<and> ad_generation ad = rt_generation r"
  by (auto simp: adapter_for_def make_adapter_def spec_of_runtime_def validate_runtime_id_def
      elim!: bnd_InrE split: made.splits sum.splits if_splits)

text \<open>C12: a stop goes on to remove the game from the canonical state only when a probe made after its
  cleanup reported it dead.\<close>

theorem stop_quiesces:
  assumes "stop_active E ac active deadline deadline_at s = (Inr (Inr d), t)"
  shows "\<exists>ad. ad_runtime_id ad = rt_runtime_id active \<and> seen_dead ad s t"
proof -
  from assms obtain ad u where ad: "adapter_for E active deadline s = (Inr ad, u)"
    "next_part (stop_drain E ac active ad deadline deadline_at) (\<lambda>d.
         next_part (or_fail E ac d (call_adapter E SStopAgent ad d (e_t_stop_agent E))) (\<lambda>_.
         bnd (transition E [Quiescing] Stopping []) (\<lambda>_.
         next_part (or_fail E ac d (call_adapter E SCleanup ad d (e_t_cleanup E))) (\<lambda>_.
         bnd (wait_stopped E ad d) (\<lambda>stopped.
         if stopped then ret (Inr d)
         else bnd (fail_locked E ac d ''quiesce_failed'' ''old runtime not stopped'' [] False False True)
           (\<lambda>res. ret (Inl res))))))) u = (Inr (Inr d), t)"
    unfolding stop_active_def by (auto simp: attempt_def elim!: bnd_InrE split: sum.splits prod.splits if_splits)
  from ad(2) obtain v where v: "onward u v" "wait_stopped E ad d v = (Inr True, t)"
    by (elim next_part_cases bnd_InrE)
      (auto elim!: bnd_InrE split: if_splits dest!: steps_run [OF memory.stop_drain_ok]
        steps_run [OF memory.or_fail_ok [OF memory.call_ok]] steps_run [OF memory_store.tx_transition] intro: ow.R_trans)
  from steps_run [OF memory.adapter_for_ok ad(1)] v(1) have "onward s v" by (rule ow.R_trans)
  from seen_dead_earlier [OF this wait_stopped_dead [OF v(2)]] adapter_for_run [OF ad(1)] show ?thesis by blast
qed

lemma stop_quiesces_witness:
  "\<exists>d t ad. stop_active sample_env stop_acceptance sample_active 90000000 (iso_utc 9) stopping_machine = (Inr (Inr d), t) \<and>
     ad_runtime_id ad = ''g1-0123456789abcdef'' \<and> seen_dead ad stopping_machine t"
proof -
  have "\<exists>d t. stop_active sample_env stop_acceptance sample_active 90000000 (iso_utc 9) stopping_machine = (Inr (Inr d), t)"
    by (simp add: run_all run_calls stop_active_def stop_drain_def or_fail_def confirmed_dead_def next_part_def wait_stopped_def poll_rounds_def
        wait_run clock_def stopping_machine_def ready_machine_def blank_def sample_active_def fresh_state_def sample_adapter_def)
  with stop_quiesces show ?thesis by (fastforce simp: sample_active_def)
qed

section \<open>Retiring runtimes\<close>

text \<open>Somewhere in the new part of the trace a probe of the runtime answered that it is not alive.\<close>

definition found_dead :: "string \<Rightarrow> machine \<Rightarrow> machine \<Rightarrow> bool" where
  "found_dead i s t \<longleftrightarrow> (\<exists>new v. m_trace t = new @ m_trace s \<and> Event SAlive i (Inr v) \<in> set new \<and> \<not> py_truth v)"

lemma seen_found: "seen_dead ad s t \<Longrightarrow> found_dead (ad_runtime_id ad) s t"
  unfolding seen_dead_def found_dead_def
  by (elim exE conjE) (rule exI [of _ "Event SAlive _ (Inr _) # _"], auto)

lemma found_later: "found_dead i s t \<Longrightarrow> onward t u \<Longrightarrow> found_dead i s u"
  unfolding found_dead_def onward_def by force

lemma found_earlier: "onward s t \<Longrightarrow> found_dead i t u \<Longrightarrow> found_dead i s u"
  unfolding found_dead_def onward_def by force

lemma attempt_Inr: "attempt p m s = (Inr (Inr v), t) \<longleftrightarrow> m s = (Inr v, t)"
  by (auto simp: attempt_def split: prod.splits sum.splits if_splits)

lemma teardown_found:
  assumes "teardown_runtime E ad d s = (Inr True, t)"
  shows "found_dead (ad_runtime_id ad) s t"
proof -
  from assms obtain u where "stop_and_clean E ad d s = (Inr (), u)" "wait_stopped E ad d u = (Inr True, t)"
    unfolding teardown_runtime_def by (auto simp: attempt_Inr elim!: bnd_InrE split: sum.splits)
  then show ?thesis
    by (blast intro: seen_found seen_dead_earlier wait_stopped_dead steps_run [OF memory.stop_and_clean_ok])
qed

lemma retire_one_found:
  assumes "retire_one E d rt s = (Inr True, t)"
  shows "found_dead (rt_runtime_id rt) s t"
proof -
  from assms obtain u ad v where r: "settle_retirement E rt s = (Inr (), u)" "adapter_for E (as_runtime rt) d u = (Inr ad, v)"
      "teardown_runtime E ad d v = (Inr True, t)"
    unfolding retire_one_def by (auto simp: attempt_Inr elim!: bnd_InrE split: sum.splits)
  have "onward s v" by (rule ow.R_trans [OF steps_run [OF memory.settle_ok r(1)] steps_run [OF memory.adapter_for_ok r(2)]])
  with teardown_found [OF r(3)] adapter_for_run [OF r(2)] show ?thesis
    by (auto simp: as_runtime_def runtime.truncate_def intro: found_earlier)
qed

lemma retire_all_found:
  "retire_all E d rts w s = (Inr (rest, w'), t) \<Longrightarrow> rt \<in> set rts \<Longrightarrow> rt \<in> set rest \<or> found_dead (rt_runtime_id rt) s t"
proof (induction rts arbitrary: w s rest w' t)
  case (Cons r rts)
  from Cons.prems(1) obtain b u where one: "retire_one E d r s = (Inr b, u)"
    and next_run: "(if b then bnd (write_retire_marker E (rt_runtime_id r) w) (\<lambda>w. retire_all E d rts w)
      else bnd (retire_all E d rts (w @ [''retiring runtime not stopped''])) (\<lambda>(rest, w). ret (r # rest, w))) u = (Inr (rest, w'), t)"
    by (auto elim!: bnd_InrE)
  from steps_run [OF memory.retire_one_ok one] have su: "onward s u" .
  show ?case
  proof (cases b)
    case True
    with next_run obtain w2 v where m: "write_retire_marker E (rt_runtime_id r) w u = (Inr w2, v)"
      and a: "retire_all E d rts w2 v = (Inr (rest, w'), t)" by (auto elim!: bnd_InrE)
    have "onward u v" "onward v t" by (rule steps_run [OF memory.marker_ok m], rule steps_run [OF memory.retire_all_ok a])
    with Cons.IH [OF a] Cons.prems(2) retire_one_found [of E d r s u] one True su show ?thesis
      by (auto intro: found_earlier found_later ow.R_trans)
  next
    case False
    with next_run obtain rest2 where a: "retire_all E d rts (w @ [''retiring runtime not stopped'']) u = (Inr (rest2, w'), t)"
      "rest = r # rest2" by (auto elim!: bnd_InrE)
    with Cons.IH [OF a(1)] Cons.prems(2) su show ?thesis by (auto intro: found_earlier)
  qed
qed simp

end
