(* ===== verification/SwitchProperties.thy ===== *)
theory SwitchProperties
  imports CallProperties
begin

text \<open>
  What a switch publishes: the commit of a new game, the proof of that commit that its old runtime
  carries, and the retiring runtimes, which are kept until a probe found them dead.
\<close>

section \<open>Transitions taken apart\<close>

lemma transition_run:
  assumes "transition E ps p us s = (r, t)" "holds_state st s"
  shows "store_frame s t" "m_receipts t = m_receipts s"
    "m_canon t = m_canon s \<or> (cs_phase st \<in> set ps \<and>
       (\<exists>st' u. apply_updates us (st\<lparr>cs_phase := p\<rparr>) = Inr st' \<and> m_canon t = Some (Stored (stamped st' u))))"
    "r = Inr v \<Longrightarrow> cs_phase st \<in> set ps \<and> holds_state v t \<and>
       (\<exists>st' u. apply_updates us (st\<lparr>cs_phase := p\<rparr>) = Inr st' \<and> v = stamped st' u)"
proof -
  have "steps store_frame (transition E ps p us)" unfolding transition_def by (intro frame_rules)
  from steps_run [OF this assms(1)] show "store_frame s t" .
  have "steps receipts_kept (transition E ps p us)" unfolding transition_def by (intro rk.so_rules kept_rules)
  from steps_run [OF this assms(1)] show "m_receipts t = m_receipts s" by (simp add: receipts_kept_def)
  have l: "load_state E s = (Inr st, s)"
    using assms(2) by (auto simp: load_state_def canon_load_def bnd_def holds_state_def dest: valid_state_identity(1))
  have e: "transition E ps p us s = (if \<not> m_lock s then (Inl (PyRuntimeError ''exclusive lock required''), s)
      else if cs_phase st \<notin> set ps then (Inl (InvalidTransition (phase_str p)), s)
      else case apply_updates us (st\<lparr>cs_phase := p\<rparr>) of Inl x \<Rightarrow> (Inl x, s) | Inr st' \<Rightarrow> canon_save E st' s)"
    by (simp add: transition_def require_exclusive_lock_def canon_transition_def bnd_apply unless_def l split: sum.split)
  consider (refused) "t = s" "\<exists>x. r = Inl x"
    | (written) st' where "cs_phase st \<in> set ps" "apply_updates us (st\<lparr>cs_phase := p\<rparr>) = Inr st'" "canon_save E st' s = (r, t)"
    using assms(1) [unfolded e] by (cases "apply_updates us (st\<lparr>cs_phase := p\<rparr>)") (auto split: if_splits, metis)
  then have "(m_canon t = m_canon s \<or> (cs_phase st \<in> set ps \<and>
       (\<exists>st' u. apply_updates us (st\<lparr>cs_phase := p\<rparr>) = Inr st' \<and> m_canon t = Some (Stored (stamped st' u))))) \<and>
    (\<forall>v. r = Inr v \<longrightarrow> cs_phase st \<in> set ps \<and> holds_state v t \<and>
       (\<exists>st' u. apply_updates us (st\<lparr>cs_phase := p\<rparr>) = Inr st' \<and> v = stamped st' u))"
  proof cases
    case (written st')
    from written(3) show ?thesis
      by (cases rule: canon_save_cases) (use written(1,2) in \<open>auto simp: holds_state_def\<close>)
  qed auto
  then show "m_canon t = m_canon s \<or> (cs_phase st \<in> set ps \<and>
       (\<exists>st' u. apply_updates us (st\<lparr>cs_phase := p\<rparr>) = Inr st' \<and> m_canon t = Some (Stored (stamped st' u))))"
    "r = Inr v \<Longrightarrow> cs_phase st \<in> set ps \<and> holds_state v t \<and>
       (\<exists>st' u. apply_updates us (st\<lparr>cs_phase := p\<rparr>) = Inr st' \<and> v = stamped st' u)" by blast+
qed

section \<open>Work that leaves the canonical state alone\<close>

definition same_canon :: "machine \<Rightarrow> machine \<Rightarrow> bool" where
  "same_canon s t \<longleftrightarrow> m_canon t = m_canon s"

interpretation sc: step_order same_canon
  by unfold_locales (simp_all add: same_canon_def)

lemma kept_canon: "steps canon_kept m \<Longrightarrow> steps same_canon m"
  by (erule steps_weaken) (simp add: canon_kept_def same_canon_def)

lemma call_canon: "steps same_canon (bounded_call E ask log d tm)"
  by (rule steps_weaken [OF bounded_call_disk]) (simp add: disk_kept_def same_canon_def)

lemma clock_canon: "steps same_canon (monotonic E)" "steps same_canon (sleep d)"
  by (simp_all add: steps_def same_canon_def monotonic_def sleep_def Let_def)

lemma write_canon: "(\<And>s. m_canon (f s) = m_canon s) \<Longrightarrow> steps same_canon (atomic_write E f)"
  by (auto simp: steps_def same_canon_def atomic_write_def Let_def split: fault.splits)

lemma probe_canon: "steps same_canon (probe_alive E ad d)"
  unfolding probe_alive_def call_adapter_def by (intro sc.so_rules call_canon)

lemma teardown_canon: "steps same_canon (teardown_runtime E ad d)"
proof -
  have "steps same_canon (wait_loop E n ad l d)" for n l
    by (induction n) (simp only: wait_loop.simps; intro sc.so_rules clock_canon probe_canon)+
  then show ?thesis
    unfolding teardown_runtime_def stop_and_clean_def call_adapter_def wait_stopped_def
    by (intro sc.so_rules call_canon clock_canon)
qed

lemma adapter_canon: "steps same_canon (adapter_for E r d)"
  unfolding adapter_for_def make_adapter_def
  by (intro sc.so_rules call_canon) (auto intro: sc.so_rules split: made.split)

lemma marker_canon: "steps same_canon (write_retire_marker E i w)" "steps same_canon (mirror_or_warn E g w)"
  "steps same_canon (announce gm)"
  unfolding write_retire_marker_def mirror_or_warn_def write_mirror_def
  by (intro sc.so_rules write_canon, simp)+ (simp add: steps_def same_canon_def announce_def)

lemma retire_one_canon: "steps same_canon (retire_one E d rt)"
  unfolding retire_one_def settle_retirement_def
  by (intro sc.so_rules adapter_canon teardown_canon kept_canon kept_rules)

lemma retire_all_canon: "steps same_canon (retire_all E d rts w)"
  by (induction rts arbitrary: w)
    (simp_all only: retire_all.simps sc.so_ret, intro sc.so_rules retire_one_canon marker_canon)

section \<open>Finalizing\<close>

text \<open>Only the list of retiring runtimes may differ, and only by runtimes that were found dead.\<close>

definition settled_from :: "cstate \<Rightarrow> cstate \<Rightarrow> bool" where
  "settled_from st st' \<longleftrightarrow> cs_phase st' = cs_phase st \<and> cs_active st' = cs_active st \<and> cs_candidate st' = cs_candidate st \<and>
     cs_previous st' = cs_previous st \<and> cs_request_id st' = cs_request_id st \<and> cs_operation st' = cs_operation st \<and>
     cs_last_result st' = cs_last_result st"

lemma load_held_state: "holds_state st s \<Longrightarrow> load_state E s = (Inr st, s)"
  by (auto simp: load_state_def canon_load_def bnd_def holds_state_def dest: valid_state_identity(1))

lemma finalize_run:
  assumes "finalize_locked E d w s = (r, t)" "holds_state st s"
  shows "\<exists>st'. m_canon t = Some (Stored st') \<and> settled_from st st' \<and>
    (\<forall>rt\<in>set (cs_retiring st). rt \<in> set (cs_retiring st') \<or> found_dead (rt_runtime_id rt) s t)"
proof -
  have same: ?thesis if "m_canon t = m_canon s"
    using that assms(2) by (auto simp: holds_state_def settled_from_def)
  from assms have run: "bnd (mirror_or_warn E (game_of (cs_active st)) w) (\<lambda>w1.
     bnd (retire_all E d (cs_retiring st) w1) (\<lambda>(remaining, w2).
     bnd (if length remaining \<noteq> length (cs_retiring st)
          then bnd (transition E [cs_phase st] (cs_phase st) [SetRetiring remaining]) (\<lambda>_. ret ()) else ret ()) (\<lambda>_.
     ret (remaining \<noteq> [], w2)))) s = (r, t)"
    by (simp add: finalize_locked_def bnd_apply load_held_state)
  from run show ?thesis
  proof (cases rule: bnd_cases)
    case (raised x)
    with steps_run [OF marker_canon(2) raised(1)] same show ?thesis by (simp add: same_canon_def)
  next
    case (went w1 u)
    have su: "m_canon u = m_canon s" "onward s u"
      using steps_run [OF marker_canon(2) went(1)] steps_run [OF memory.mirror_ok(2) went(1)] by (simp_all add: same_canon_def)
    from went(2) show ?thesis
    proof (cases rule: bnd_cases)
      case (raised x)
      with steps_run [OF retire_all_canon raised(1)] same su show ?thesis by (simp add: same_canon_def)
    next
      case (went x v)
      then obtain remaining w2 where all: "retire_all E d (cs_retiring st) w1 u = (Inr (remaining, w2), v)"
        and rest: "bnd (if length remaining \<noteq> length (cs_retiring st)
          then bnd (transition E [cs_phase st] (cs_phase st) [SetRetiring remaining]) (\<lambda>_. ret ()) else ret ()) (\<lambda>_.
          ret (remaining \<noteq> [], w2)) v = (r, t)" by (cases x) auto
      have v: "m_canon v = m_canon s" using steps_run [OF retire_all_canon all] su by (simp add: same_canon_def)
      then have hv: "holds_state st v" using assms(2) by (simp add: holds_state_def)
      show ?thesis
      proof (cases "length remaining \<noteq> length (cs_retiring st)")
        case False
        with rest v same show ?thesis by simp
      next
        case True
        obtain r1 where tr: "transition E [cs_phase st] (cs_phase st) [SetRetiring remaining] v = (r1, t)"
          using rest True by (auto simp: bnd_apply split: prod.splits sum.splits)
        note run = transition_run [OF tr hv]
        have "found_dead i s t" if "found_dead i u v" for i
        proof (rule found_later [OF found_earlier [OF su(2) that]])
          show "onward v t" by (rule steps_run [OF memory_store.tx_transition tr])
        qed
        with retire_all_found [OF all] have f: "\<forall>rt\<in>set (cs_retiring st). rt \<in> set remaining \<or> found_dead (rt_runtime_id rt) s t"
          by blast
        show ?thesis
        proof (cases "m_canon t = m_canon s")
          case False
          with run(3) v obtain y where "m_canon t = Some (Stored (stamped (st\<lparr>cs_retiring := remaining\<rparr>) y))" by auto
          with f show ?thesis by (auto simp: settled_from_def stamped_def)
        qed (rule same)
      qed
    qed
  qed
qed

text \<open>C13: the cleanup after a commit forgets no runtime: on every exit, the death of the process
  included, a runtime which was waiting for its teardown is still recorded, or a probe has found it
  dead; the phase, the active game and the owner are as before.\<close>

theorem retiring_until_dead:
  assumes "finalize_locked E d w s = (r, t)" "holds_state st s"
  shows "\<exists>st'. m_canon t = Some (Stored st') \<and> cs_phase st' = cs_phase st \<and> cs_active st' = cs_active st \<and>
    cs_request_id st' = cs_request_id st \<and>
    (\<forall>rt\<in>set (cs_retiring st). rt \<in> set (cs_retiring st') \<or> found_dead (rt_runtime_id rt) s t)"
  using finalize_run [OF assms] by (auto simp: settled_from_def)

lemma retiring_until_dead_witness:
  "\<exists>st'. m_canon (snd (finalize_locked sample_env 100 [] retiring_machine)) = Some (Stored st') \<and> cs_phase st' = Idle \<and>
     (as_retired sample_active None None \<in> set (cs_retiring st') \<or>
      found_dead ''g1-0123456789abcdef'' retiring_machine (snd (finalize_locked sample_env 100 [] retiring_machine)))"
  using retiring_until_dead [OF prod.collapse [symmetric] retiring_held, of sample_env 100 "[]"]
  by (simp add: retiring_state_def fresh_state_def as_retired_def sample_active_def runtime.extend_def) blast

section \<open>The commit of a switch\<close>

definition committed :: "cstate \<Rightarrow> runtime \<Rightarrow> outcome \<Rightarrow> cstate \<Rightarrow> bool" where
  "committed st rd oc st' \<longleftrightarrow> cs_phase st' = Ready \<and> cs_active st' = Some rd \<and> cs_candidate st' = None \<and>
     cs_previous st' = None \<and> cs_request_id st' = None \<and> cs_last_result st' = Some oc"

lemma committed_settled: "committed st rd oc st' \<Longrightarrow> settled_from st' st'' \<Longrightarrow> committed st rd oc st''"
  by (simp add: committed_def settled_from_def)

text \<open>The tail of a commit: the receipt, the hook and the cleanup.\<close>

definition after_commit :: "env \<Rightarrow> acceptance \<Rightarrow> outcome \<Rightarrow> string \<Rightarrow> int \<Rightarrow> switch_result prog" where
  "after_commit E ac oc target deadline =
     bnd (finish_request_locked E (ac_request_id ac) Succeeded oc) (\<lambda>rc.
     bnd (announce target) (\<lambda>_.
     bnd (finalize_locked E deadline []) (\<lambda>(pending, w).
     ret (result_from_receipt rc w pending))))"

lemma after_commit_run:
  assumes "after_commit E ac oc target d s = (r, t)" "holds_state st s"
  shows "\<exists>st'. m_canon t = Some (Stored st') \<and> settled_from st st' \<and>
    (\<forall>rt\<in>set (cs_retiring st). rt \<in> set (cs_retiring st') \<or> found_dead (rt_runtime_id rt) s t)"
proof -
  have same: ?thesis if "m_canon t = m_canon s"
    using that assms(2) by (auto simp: holds_state_def settled_from_def)
  from assms(1) show ?thesis unfolding after_commit_def
  proof (cases rule: bnd_cases)
    case (raised x)
    with steps_run [OF kept_canon [OF finish_canon_kept] raised(1)] same show ?thesis by (simp add: same_canon_def)
  next
    case (went rc u)
    have u: "m_canon u = m_canon s" "onward s u"
      using steps_run [OF kept_canon [OF finish_canon_kept] went(1)] steps_run [OF memory_store.finish_ok went(1)]
      by (simp_all add: same_canon_def)
    define v where "v = u\<lparr>m_announced := target # m_announced u\<rparr>"
    have v: "m_canon v = m_canon s" "onward s v" "holds_state st v"
      using u assms(2) by (simp_all add: v_def onward_def holds_state_def)
    obtain r1 w where f: "finalize_locked E d [] v = (r1, w)" by fastforce
    with went(2) have "w = t"
      by (auto simp: announce_def bnd_apply v_def [symmetric] split: sum.splits prod.splits)
    with finalize_run [OF f v(3)] v(2) show ?thesis by (blast intro: found_earlier)
  qed
qed

text \<open>C10: the commit of a switch is one write.  On every exit, the death of the process at any write
  included, either the canonical state is untouched or it is ready with the new game active, nobody
  owning it, and the game that ran before is recorded as retiring or was found dead.\<close>

theorem commit_is_atomic:
  assumes "commit_switch E ac op target old_active rd deadline s = (r, t)" "holds_state st s"
  shows "m_canon t = m_canon s \<or>
    (\<exists>st'. m_canon t = Some (Stored st') \<and>
       committed st rd (commit_outcome ac op target old_active (cs_previous st) rd) st' \<and>
       (\<forall>p. cs_previous st = Some p \<longrightarrow> p \<in> as_runtime ` set (cs_retiring st') \<or> found_dead (rt_runtime_id p) s t))"
proof -
  define oc where "oc = commit_outcome ac op target old_active (cs_previous st) rd"
  define retiring where "retiring = (case cs_previous st of None \<Rightarrow> cs_retiring st | Some p \<Rightarrow> as_retired p (Some oc) None # cs_retiring st)"
  define us where "us = [SetActive (Some rd), SetCandidate None, SetPrevious None, SetRetiring retiring, SetOperation None,
           SetRequestId None, SetDeadline None, SetLastResult (Some oc), SetLastError None]"
  have p: "\<exists>rt\<in>set retiring. as_runtime rt = p \<and> rt_runtime_id rt = rt_runtime_id p" if "cs_previous st = Some p" for p
    using that by (auto simp: retiring_def as_retired_def as_runtime_def runtime.truncate_def runtime.extend_def)
  from assms(1) have "bnd (transition E [Probing] Ready us) (\<lambda>_. after_commit E ac oc target deadline) s = (r, t)"
    unfolding commit_switch_def bnd_Inr [of "load_state E" s, OF load_held_state [OF assms(2)]] Let_def
    by (simp only: oc_def retiring_def us_def after_commit_def)
  then show ?thesis
  proof (cases rule: bnd_cases)
    case (raised x)
    note run = transition_run [OF raised(1) assms(2)]
    from run(3) show ?thesis
    proof
      assume "cs_phase st \<in> set [Probing] \<and> (\<exists>st' u. apply_updates us (st\<lparr>cs_phase := Ready\<rparr>) = Inr st' \<and> m_canon t = Some (Stored (stamped st' u)))"
      then obtain y where "m_canon t = Some (Stored (stamped (st\<lparr>cs_phase := Ready, cs_active := Some rd, cs_candidate := None,
          cs_previous := None, cs_retiring := retiring, cs_operation := None, cs_request_id := None, cs_deadline_at := None,
          cs_last_result := Some oc, cs_last_error := None\<rparr>) y))" by (auto simp: us_def)
      with p show ?thesis by (fastforce simp: committed_def oc_def)
    qed simp
  next
    case (went v u)
    note run = transition_run [OF went(1) assms(2)]
    from run(4) [OF refl] obtain y where v: "holds_state v u" "committed st rd oc v" "cs_retiring v = retiring"
      by (auto simp: us_def committed_def)
    have su: "onward s u" by (rule steps_run [OF memory_store.tx_transition went(1)])
    from after_commit_run [OF went(2) v(1)] obtain st' where st': "m_canon t = Some (Stored st')" "settled_from v st'"
      "\<forall>rt\<in>set retiring. rt \<in> set (cs_retiring st') \<or> found_dead (rt_runtime_id rt) u t" unfolding v(3) by blast
    from committed_settled [OF v(2) st'(2)] st'(1,3) p su show ?thesis
      by (fastforce simp: oc_def intro: found_earlier)
  qed
qed

lemma commit_is_atomic_witness:
  "m_canon (snd (commit_switch sample_env switch_acceptance OpSwitch ''zelda'' (Some sample_active) sample_next 100 probing_machine)) =
     m_canon probing_machine \<or>
   (\<exists>st'. m_canon (snd (commit_switch sample_env switch_acceptance OpSwitch ''zelda'' (Some sample_active) sample_next 100 probing_machine)) =
       Some (Stored st') \<and> cs_phase st' = Ready \<and> cs_active st' = Some sample_next)"
  using commit_is_atomic [OF prod.collapse [symmetric] probing_held, of sample_env switch_acceptance OpSwitch "''zelda''"
      "Some sample_active" sample_next 100]
  by (auto simp: committed_def)

section \<open>The proof of a commit\<close>

text \<open>C17: what a commit writes, recovery accepts: the result a switch leaves on its retiring runtime is
  taken as the proof of that commit by \<open>committed_retirement_result\<close> while the receipt is still
  accepted, and after the receipt is finished with the same result, but not with any other.\<close>

theorem commit_proof_accepted:
  assumes "validate_runtime p = Inr ()" "validate_runtime rd = Inr ()" "rt_lease_id rd \<noteq> None"
    and "rt_generation p < rt_generation rd" "op \<in> {OpStart, OpSwitch, OpRestart, OpRotate}"
    and "validate_request_id (ac_request_id ac) = Inr (rc_request_id rc)" "rc_schema rc = 1" "rc_operation rc = op"
    and "rc_target rc = (if op = OpRotate then None else Some (rt_game rd))"
    and "rc_generation rc = rt_generation rd" "rc_runtime_id rc = rt_runtime_id rd" "ac_generation ac = rt_generation rd"
    and "oc = commit_outcome ac op (rt_game rd) (Some p) (Some p) rd"
  shows "(rc_status rc = Accepted \<and> rc_result rc = None \<longrightarrow>
      committed_retirement_result (as_retired p (Some oc) None) (Some rc) False = Inr (Some oc)) \<and>
    (rc_status rc = Succeeded \<longrightarrow> committed_retirement_result (as_retired p (Some oc) None) (Some rc) True =
      (if rc_result rc = Some oc then Inr (Some oc) else Inl (StateCorrupt ''terminal retirement receipt'')))"
proof -
  have lease: "rt_lease_id r = Some l \<Longrightarrow> \<exists>v. validate_request_id l = Inr v" if "validate_runtime r = Inr ()" for r l
    using that by (auto simp: validate_runtime_def split: sum.splits prod.splits)
  note n = validate_runtime_names [OF assms(1)] validate_runtime_names [OF assms(2)]
  have i: "retirement_identities (as_retired p (Some oc) None) oc"
    using assms by (simp add: retirement_identities_def commit_outcome_def new_outcome_def source_ident_of_def ident_of_def
        as_retired_def as_runtime_def runtime.truncate_def runtime.extend_def)
  have f: "identity_formats oc (source_ident_of p) (ident_of rd) = Inr ()"
    using assms n lease [OF assms(1)] lease [OF assms(2)]
    by (auto simp: identity_formats_def require_def commit_outcome_def new_outcome_def source_ident_of_def ident_of_def
        Let_def split: option.splits sum.splits)
  have m: "receipt_matches oc rc (source_ident_of p) (ident_of rd)"
    using assms by (auto simp: receipt_matches_def commit_outcome_def new_outcome_def source_ident_of_def ident_of_def game_of_def)
  have s: "oc_source_runtime oc = Some (source_ident_of p)" "oc_active_runtime oc = Some (ident_of rd)"
    using assms by (simp_all add: commit_outcome_def new_outcome_def)
  have d: "rd_retirement (as_retired p (Some oc) None) = Some oc" by (simp add: as_retired_def runtime.extend_def)
  show ?thesis using i f m s d assms(7) by (auto simp: committed_retirement_result_def)
qed

lemma commit_proof_accepted_witness:
  "committed_retirement_result
     (as_retired sample_active (Some (commit_outcome switch_acceptance OpSwitch ''zelda'' (Some sample_active) (Some sample_active) sample_next)) None)
     (Some switch_receipt) False =
   Inr (Some (commit_outcome switch_acceptance OpSwitch ''zelda'' (Some sample_active) (Some sample_active) sample_next))"
proof -
  have "rt_game sample_next = ''zelda''" by (simp add: sample_next_def)
  with commit_proof_accepted [OF sample_runtimes_valid, of OpSwitch switch_acceptance switch_receipt
      "commit_outcome switch_acceptance OpSwitch ''zelda'' (Some sample_active) (Some sample_active) sample_next"]
  show ?thesis by (simp add: sample_active_def sample_next_def switch_acceptance_def switch_receipt_def)
qed

section \<open>Gates\<close>

lemma restart_target_same: "restart_target E q st s = (r, t) \<Longrightarrow> t = s"
  unfolding restart_target_def
  by (auto simp: bnd_def split: if_splits prod.splits sum.splits option.splits dest: receipt_load_run(1))

text \<open>C19: while the canonical state has failed or needs recovery, no start, stop, switch, restart or
  rotation does anything: the request is answered with \<open>recovery_required\<close> and the machine is as
  before.\<close>

theorem recovery_comes_first:
  assumes "holds_state st s" "cs_phase st \<in> {FailedPhase, RecoveryRequired}" "execute_locked E 2 q s = (r, t)"
  shows "t = s \<and> (\<forall>res. r = Inr res \<longrightarrow> sr_status res = ''failed'' \<and> sr_error_code res = Some ''recovery_required'') \<and>
    (\<not> (ex_operation q = OpRestart \<and> ex_target q = None) \<longrightarrow> (\<exists>res. r = Inr res))"
proof -
  obtain r1 u where l: "restart_target E q st s = (r1, u)" by fastforce
  with restart_target_same have u: "u = s" by blast
  have "(\<exists>tg. r1 = Inr tg)" if "\<not> (ex_operation q = OpRestart \<and> ex_target q = None)"
    using l that by (auto simp: restart_target_def)
  with assms l u show ?thesis
    by (cases r1) (auto simp: numeral_2_eq_2 bnd_def initialize_ready plain_result_def)
qed

definition failed_machine :: machine where
  "failed_machine = ready_machine\<lparr>m_canon := Some (Stored ((fresh_state (iso_utc 0))\<lparr>cs_phase := FailedPhase\<rparr>))\<rparr>"

definition sample_request :: exec where
  "sample_request = \<lparr>ex_request_id = sample_id, ex_operation = OpStart, ex_target = Some ''mario'', ex_payload = None,
     ex_deadline = 60000000, ex_deadline_at = iso_utc 60000000, ex_games = None, ex_allow = True\<rparr>"

lemma recovery_comes_first_witness:
  "snd (execute_locked sample_env 2 sample_request failed_machine) = failed_machine \<and>
   (\<exists>res. fst (execute_locked sample_env 2 sample_request failed_machine) = Inr res)"
proof -
  have h: "holds_state ((fresh_state (iso_utc 0))\<lparr>cs_phase := FailedPhase\<rparr>) failed_machine"
    by (simp add: holds_state_def failed_machine_def fresh_state_def run_state ready_machine_def)
  show ?thesis
    using recovery_comes_first [OF h _ prod.collapse [symmetric], of sample_env sample_request]
    by (simp add: sample_request_def)
qed

text \<open>A drain that is still in its time is not disturbed: recovering it reports that the request
  waits, calls no adapter and leaves the state and the receipts as they are.\<close>

lemma drain_not_disturbed:
  assumes "holds_state st s" "cs_phase st = Draining" "cs_request_id st = Some rid" "holds_receipt E k rc s"
    and "validate_request_id rid = Inr k" "\<not> wall_deadline_expired (e_wall E (m_walls s)) (cs_deadline_at st)"
  shows "\<exists>res t. recover_draining E st deadline s = (Inr res, t) \<and> sr_status res = ''busy'' \<and> sr_error_code res = Some ''busy'' \<and>
    m_canon t = m_canon s \<and> m_receipts t = m_receipts s \<and> m_trace t = m_trace s"
proof -
  from valid_state_shape(4) assms(1,2) obtain a where a: "cs_active st = Some a" by (auto simp: holds_state_def)
  have "receipt_load E rid s = (Inr (Some rc), s)"
    using assms(4,5) by (simp add: receipt_load_def bnd_def holds_receipt_def valid_receipt_key)
  with assms a show ?thesis
    by (simp add: recover_draining_def bnd_apply wall_expired_def clocks_apply draining_result_def plain_result_def)
qed

definition draining_state :: cstate where
  "draining_state = (fresh_state (iso_utc 0))\<lparr>cs_phase := Draining, cs_operation := Some OpStop, cs_request_id := Some other_id,
     cs_next_generation := 2, cs_active := Some sample_active, cs_deadline_at := Some (iso_utc 900000000)\<rparr>"

definition draining_machine :: machine where
  "draining_machine = ready_machine\<lparr>m_canon := Some (Stored draining_state),
     m_receipts := [(other_id, Stored (sample_receipt other_id OpStop None Accepted None ''1'' ''2''))]\<rparr>"

lemma drain_not_disturbed_witness:
  "\<exists>res t. recover_draining sample_env draining_state 60000000 draining_machine = (Inr res, t) \<and> sr_status res = ''busy''"
proof -
  have h: "holds_state draining_state draining_machine"
    by (simp add: holds_state_def draining_machine_def draining_state_def sample_active_def fresh_state_def run_state run_chars
        validate_game_name_def ready_machine_def)
  have r: "holds_receipt sample_env other_id (sample_receipt other_id OpStop None Accepted None ''1'' ''2'') draining_machine"
    by (simp add: holds_receipt_def draining_machine_def sample_receipt_valid validate_request_def)
  have "\<not> wall_deadline_expired (e_wall sample_env (m_walls draining_machine)) (Some (iso_utc 900000000))"
    using parse_iso_utc [of 900000000]
    by (simp add: wall_deadline_expired_def max_us_def day_us_def second_us_def draining_machine_def ready_machine_def sample_env_def)
  with drain_not_disturbed [OF h _ _ r sample_ids(2), of 60000000] show ?thesis
    by (auto simp: draining_state_def fresh_state_def)
qed

end
