(* ===== verification/DefectProperties.thy ===== *)
theory DefectProperties
  imports CallProperties
begin

text \<open>
  Places where the code does not do what it means to, each stated as what the model of the code does.
\<close>

section \<open>A generation given away twice\<close>

text \<open>The process dies between the two writes of an enqueue: after the receipt, before the state.\<close>

definition crash_env :: env where
  "crash_env = sample_env\<lparr>e_fault := (\<lambda>i. if i = 1 then KilledBefore else NoFault)\<rparr>"

definition open_machine :: machine where
  "open_machine = ready_machine\<lparr>m_lock := False\<rparr>"

abbreviation crashed :: machine where
  "crashed \<equiv> snd (serve crash_env (CEnqueue sample_id OpStop None None True None) open_machine)"

abbreviation lost_receipt :: receipt where
  "lost_receipt \<equiv> (sample_receipt sample_id OpStop None Queued None (iso_utc 1) (iso_utc 3))\<lparr>rc_allow_extension := Some True\<rparr>"

lemma crashed_run: "entry crashed sample_id = Some (Stored lost_receipt) \<and> m_canon crashed = Some (Stored (fresh_state (iso_utc 0)))"
  by (simp add: run_all crash_env_def open_machine_def ready_machine_def blank_def fresh_state_def sample_receipt_def forget_def
      enqueue_request_def atomic_write_def)

text \<open>A crash in the middle of an enqueue leaves a queued receipt whose generation the canonical state
  still counts as free; the restore of a rollback takes the next generation from the canonical state
  alone, so its runtime gets the windows and the session of the queued request.\<close>

theorem crash_reuses_generation:
  "reached crash_env open_machine crashed \<and> on_file crashed lost_receipt \<and>
   (\<exists>st sp t. load_state crash_env crashed = (Inr st, crashed) \<and> cs_next_generation st = rc_generation lost_receipt \<and>
      rollback_spec crash_env sample_active (cs_next_generation st) crashed = (Inr sp, t) \<and>
      sp_generation sp = rc_generation lost_receipt \<and> sp_game_window sp = rc_game_window lost_receipt \<and>
      sp_adapter_session sp = rc_adapter_session lost_receipt)"
proof -
  have r: "reached crash_env open_machine crashed" by (rule reached_call [OF reached_refl refl])
  have f: "on_file crashed lost_receipt"
    unfolding on_file_def by (rule exI [of _ sample_id]) (simp add: crashed_run del: serve.simps)
  have h: "holds_state (fresh_state (iso_utc 0)) crashed"
    using crashed_run valid_fresh_state by (simp add: holds_state_def del: serve.simps)
  have l: "load_state crash_env crashed = (Inr (fresh_state (iso_utc 0)), crashed)"
    using h by (auto simp: load_state_def canon_load_def bnd_def holds_state_def dest: valid_state_identity(1) simp del: serve.simps)
  have "\<exists>sp t. rollback_spec crash_env sample_active 1 s = (Inr sp, t) \<and> sp_generation sp = 1 \<and>
      sp_game_window sp = ''game-g1'' \<and> sp_adapter_session sp = ''docich-game-g1''" for s
    by (simp add: rollback_spec_def new_runtime_id_def bnd_apply clocks_apply crash_env_def sample_env_def make_runtime_id_def
        gen_suffix_def dec.simps runtime_directory_def ensure_contained_def)
  with r f l show ?thesis by (simp add: fresh_state_def sample_receipt_def del: serve.simps)
qed

section \<open>A rotation that cannot be resumed\<close>

text \<open>A rotation that was queued behind a drain is run again without its list of games, once the
  expired drain is recovered; it then always ends in a \<open>ValueError\<close> before it is accepted.\<close>

theorem rotation_loses_games:
  "accept_and_run E (q\<lparr>ex_games := None\<rparr>) st OpRotate target s = (Inl (ValueError ''games list is empty''), s)"
  by (simp add: accept_and_run_def next_rotation_game_def bnd_apply)

section \<open>A teardown that is not confirmed\<close>

text \<open>When a finished match is to be released and its teardown is not confirmed, the code raises an
  undefined name instead of the adapter error it means: the outcome is a \<open>NameError\<close>.\<close>

theorem release_raises_undefined_name:
  assumes "adapter_for E previous deadline s = (Inr ad, u)" "ad_release_terminal ad = Callable"
    and "call_adapter E STerminalPrevious ad deadline (e_t_probe E) u = (Inr v, w)" "py_truth v"
    and "teardown_runtime E ad deadline w = (Inr False, t)"
  shows "release_terminal E previous deadline s = (Inl (PyNameError ''name AdapterError is not defined''), t)"
  using assms by (simp add: release_terminal_def bnd_apply)

definition stubborn_adapter :: adapter where
  "stubborn_adapter = sample_adapter\<lparr>ad_release_terminal := Callable\<rparr>"

definition stubborn_env :: env where
  "stubborn_env = sample_env\<lparr>e_quiesce_verify := 0, e_call := (\<lambda>i st ad. (1, Inr PyTrue)),
     e_make := (\<lambda>i sp. (1, Inr (Made stubborn_adapter)))\<rparr>"

lemma release_raises_undefined_name_witness:
  "\<exists>t. release_terminal stubborn_env sample_active 90000000 blank = (Inl (PyNameError ''name AdapterError is not defined''), t)"
proof -
  define ad where "ad = stubborn_adapter\<lparr>ad_runtime_id := ''g1-0123456789abcdef'', ad_generation := 1\<rparr>"
  have make: "\<exists>u. adapter_for stubborn_env sample_active 90000000 blank = (Inr ad, u) \<and> m_now u = 2"
    by (simp add: run_basic run_calls stubborn_env_def sample_env_def sample_active_def blank_def ad_def
        stubborn_adapter_def sample_adapter_def runtime_directory_def ensure_contained_def)
  then obtain u where u: "adapter_for stubborn_env sample_active 90000000 blank = (Inr ad, u)" "m_now u = 2" by blast
  have "\<exists>w. call_adapter stubborn_env STerminalPrevious ad 90000000 (e_t_probe stubborn_env) u = (Inr PyTrue, w) \<and> m_now w = 4"
    using u(2) by (simp add: run_basic run_calls stubborn_env_def sample_env_def)
  then obtain w where w: "call_adapter stubborn_env STerminalPrevious ad 90000000 (e_t_probe stubborn_env) u = (Inr PyTrue, w)"
    "m_now w = 4" by blast
  have "\<exists>t. teardown_runtime stubborn_env ad 90000000 w = (Inr False, t)"
    using w(2) by (simp add: run_basic run_calls stubborn_env_def sample_env_def wait_run clock_def)
  then obtain t where t: "teardown_runtime stubborn_env ad 90000000 w = (Inr False, t)" by blast
  have "ad_release_terminal ad = Callable" by (simp add: ad_def stubborn_adapter_def)
  from release_raises_undefined_name [OF u(1) this w(1) _ t] show ?thesis by auto
qed

end
