(* ===== verification/AgentFence.thy ===== *)
theory AgentFence
  imports CanonicalState
begin

text \<open>
  The agent worker of a game: \<open>agent/fence.py\<close>, which compares the identity a worker was started with
  to the canonical state, and the loop of \<open>agent/loop.py\<close> that observes the game, asks the brain
  for actions and carries them out, each step inside a short section under the shared lock.

  The worker is a process of its own.  Its world counts the sections it has entered; the canonical
  file it reads in section \<open>n\<close> is \<open>ae_canonical n\<close>, constant within the section because writers need
  the exclusive lock.  The adapter, the brain, the lock and the clock are the environment.
  Telemetry, the publication of the observed logic generation and log lines decide nothing and are
  left out.
\<close>

section \<open>Fences\<close>

record agent_fence =
  af_game :: string
  af_runtime_id :: string
  af_generation :: int
  af_lease_id :: "string option"

text \<open>\<open>FenceLost\<close> is a \<open>SystemExit\<close>; \<open>AgentFailure\<close> stands for every \<open>Exception\<close>.\<close>

datatype agent_exn = FenceLost string | AgentFailure exn

definition fence_of :: "runtime \<Rightarrow> agent_fence" where
  "fence_of r = \<lparr>af_game = rt_game r, af_runtime_id = rt_runtime_id r, af_generation = rt_generation r,
     af_lease_id = rt_lease_id r\<rparr>"

definition check_fence :: "agent_fence \<Rightarrow> runtime option \<Rightarrow> agent_exn + unit" where
  "check_fence fence active = (case active of
       None \<Rightarrow> Inl (FenceLost ''no active runtime'')
     | Some r \<Rightarrow> if fence \<noteq> fence_of r then Inl (FenceLost ''fence mismatch'') else Inr ())"

definition identity_of :: "runtime option \<Rightarrow> agent_fence option" where
  "identity_of r = (case r of None \<Rightarrow> None
     | Some r \<Rightarrow> if rt_game r = '''' then None else Some (fence_of r))"

datatype verdict = Run | Await

definition resolve_fence :: "agent_fence \<Rightarrow> cstate \<Rightarrow> agent_exn + verdict" where
  "resolve_fence fence st =
     (if identity_of (cs_active st) = Some fence then Inr Run
      else if identity_of (cs_candidate st) = Some fence then Inr Await
      else if identity_of (cs_previous st) = Some fence then Inr Await
      else Inl (FenceLost ''no matching runtime''))"

section \<open>Actions and the worker's world\<close>

record agent_action =
  aa_type :: string
  aa_buttons :: "string list"
  aa_keys :: "string list"
  aa_text :: string
  aa_key :: string
  aa_x :: int
  aa_y :: int
  aa_button :: int
  aa_ms :: int
  aa_hold_ms :: int

datatype agent_event = Observed | Sent agent_action

text \<open>Each event is logged with the section it happened in; \<open>None\<close> is outside any.\<close>

record agent_world =
  aw_sections :: nat
  aw_calls :: nat
  aw_now :: int
  aw_log :: "(nat option \<times> agent_event) list"

record 'o agent_env =
  ae_canonical :: "nat \<Rightarrow> exn + cstate"
  ae_free :: "nat \<Rightarrow> bool"
  ae_pause :: "nat \<Rightarrow> nat"
  ae_observe :: "nat \<Rightarrow> exn + 'o"
  ae_act :: "nat \<Rightarrow> exn + unit"
  ae_decide :: "nat \<Rightarrow> 'o \<Rightarrow> exn + agent_action list"
  ae_guarded :: bool
  ae_validate :: "nat \<Rightarrow> agent_action \<Rightarrow> 'o \<Rightarrow> cstate option \<Rightarrow> bool"
  ae_interval :: "nat \<Rightarrow> int option"

type_synonym 'a agent_prog = "(agent_world, agent_exn, 'a) eff"

definition as_failure :: "exn + 'a \<Rightarrow> agent_exn + 'a" where
  "as_failure r = (case r of Inl x \<Rightarrow> Inl (AgentFailure x) | Inr v \<Rightarrow> Inr v)"

definition enter :: "nat agent_prog" where
  "enter = (\<lambda>w. (Inr (aw_sections w), w\<lparr>aw_sections := aw_sections w + 1\<rparr>))"

definition agent_sleep :: "int \<Rightarrow> unit agent_prog" where
  "agent_sleep d = alter (\<lambda>w. w\<lparr>aw_now := aw_now w + max d 0\<rparr>)"

section \<open>The shared section\<close>

text \<open>
  \<open>shared_section\<close>: the shared lock is tried until its deadline, 50 ms apart; a body that reports
  busy itself is tried again in the same way.  Each try is a section of its own.  Times are in
  microseconds; the wait after try \<open>n\<close> takes \<open>ae_pause n\<close> longer than asked.
\<close>

fun is_busy_failure :: "agent_exn \<Rightarrow> bool" where
  "is_busy_failure (AgentFailure x) = is_Busy x"
| "is_busy_failure (FenceLost m) = False"

fun shared_loop :: "'o agent_env \<Rightarrow> (nat \<Rightarrow> 'a agent_prog) \<Rightarrow> nat \<Rightarrow> int \<Rightarrow> 'a agent_prog" where
  "shared_loop E body 0 deadline = raise (AgentFailure (BaseExn ''out of fuel''))"
| "shared_loop E body (Suc fuel) deadline =
     bnd enter (\<lambda>n.
     bnd (attempt is_busy_failure (if ae_free E n then body n else raise (AgentFailure (Busy ''switch in progress'')))) (\<lambda>r.
     case r of
       Inr v \<Rightarrow> ret v
     | Inl x \<Rightarrow> bnd (asks aw_now) (\<lambda>t.
         if deadline \<le> t then raise x
         else thn (agent_sleep (50000 + int (ae_pause E n))) (shared_loop E body fuel deadline))))"

definition lock_rounds :: nat where
  "lock_rounds = 101"

definition shared_section :: "'o agent_env \<Rightarrow> (nat \<Rightarrow> 'a agent_prog) \<Rightarrow> 'a agent_prog" where
  "shared_section E body = bnd (asks aw_now) (\<lambda>t. shared_loop E body lock_rounds (t + 5000000))"

definition read_canonical :: "'o agent_env \<Rightarrow> nat \<Rightarrow> cstate agent_prog" where
  "read_canonical E n = lift (as_failure (ae_canonical E n))"

definition check_loop_fence :: "'o agent_env \<Rightarrow> agent_fence \<Rightarrow> nat \<Rightarrow> unit agent_prog" where
  "check_loop_fence E fence n = bnd (read_canonical E n) (\<lambda>st. lift (check_fence fence (cs_active st)))"

section \<open>One iteration\<close>

definition agent_observe :: "'o agent_env \<Rightarrow> nat option \<Rightarrow> 'o agent_prog" where
  "agent_observe E n = (\<lambda>w. (as_failure (ae_observe E (aw_calls w)),
     w\<lparr>aw_calls := aw_calls w + 1, aw_log := (n, Observed) # aw_log w\<rparr>))"

definition agent_send :: "'o agent_env \<Rightarrow> nat option \<Rightarrow> agent_action \<Rightarrow> unit agent_prog" where
  "agent_send E n a = (\<lambda>w. (as_failure (ae_act E (aw_calls w)),
     w\<lparr>aw_calls := aw_calls w + 1, aw_log := (n, Sent a) # aw_log w\<rparr>))"

definition check_if_fenced :: "'o agent_env \<Rightarrow> agent_fence option \<Rightarrow> nat \<Rightarrow> unit agent_prog" where
  "check_if_fenced E fence n = (case fence of None \<Rightarrow> ret () | Some f \<Rightarrow> check_loop_fence E f n)"

definition act_in_section :: "'o agent_env \<Rightarrow> agent_fence option \<Rightarrow> agent_action \<Rightarrow> nat \<Rightarrow> bool agent_prog" where
  "act_in_section E fence a n =
     thn (check_if_fenced E fence n)
     (bnd (if ae_guarded E then
             bnd (agent_observe E (Some n)) (\<lambda>fresh.
             thn (check_if_fenced E fence n)
             (bnd (read_canonical E n) (\<lambda>st. asks (\<lambda>w. ae_validate E (aw_calls w) a fresh (Some st)))))
           else ret True) (\<lambda>ok.
      if \<not> ok then ret False else thn (agent_send E (Some n) a) (ret True)))"

definition act_unlocked :: "'o agent_env \<Rightarrow> agent_action \<Rightarrow> bool agent_prog" where
  "act_unlocked E a = thn (agent_send E None a) (ret True)"

fun perform :: "'o agent_env \<Rightarrow> agent_fence option \<Rightarrow> agent_action list \<Rightarrow> nat agent_prog" where
  "perform E fence [] = ret 0"
| "perform E fence (a # as) =
     bnd (if aa_type a = ''wait'' then thn (agent_sleep (max (aa_ms a) 0 * 1000)) (ret True)
          else if fence \<noteq> None \<or> ae_guarded E then shared_section E (act_in_section E fence a)
          else act_unlocked E a) (\<lambda>ok.
     bnd (perform E fence as) (\<lambda>n. ret (if ok then n + 1 else n)))"

definition decide_and_act :: "'o agent_env \<Rightarrow> agent_fence option \<Rightarrow> 'o \<Rightarrow> nat agent_prog" where
  "decide_and_act E fence obs =
     bnd (asks aw_calls) (\<lambda>k. bnd (lift (as_failure (ae_decide E k obs))) (\<lambda>acts.
     thn (bnd enter (check_if_fenced E fence)) (perform E fence acts)))"

definition run_iteration :: "'o agent_env \<Rightarrow> agent_fence option \<Rightarrow> int \<Rightarrow> nat agent_prog" where
  "run_iteration E fence interval_ms =
     (case fence of
        None \<Rightarrow> bnd (agent_observe E None) (decide_and_act E fence)
      | Some f \<Rightarrow>
          bnd enter (\<lambda>n. bnd (read_canonical E n) (\<lambda>st. bnd (lift (resolve_fence f st)) (\<lambda>v.
          if v \<noteq> Run then thn (agent_sleep (max interval_ms 0 * 1000)) (ret 0)
          else bnd (shared_section E (\<lambda>n. thn (check_loop_fence E f n) (agent_observe E (Some n))))
                 (decide_and_act E fence)))))"

text \<open>\<open>run_agent\<close>: an iteration that fails is logged and the loop goes on; a lost fence ends it.  The
  loop has no other end, so it is modelled for any number of iterations.\<close>

fun is_failure :: "agent_exn \<Rightarrow> bool" where
  "is_failure (AgentFailure x) = is_Exception x"
| "is_failure (FenceLost m) = False"

definition next_interval :: "'o agent_env \<Rightarrow> int \<Rightarrow> nat \<Rightarrow> int" where
  "next_interval E interval_ms k = (case ae_interval E k of
       Some i \<Rightarrow> if i = 500 \<or> i = 1500 then i else interval_ms
     | None \<Rightarrow> interval_ms)"

fun run_agent :: "'o agent_env \<Rightarrow> agent_fence option \<Rightarrow> int \<Rightarrow> nat \<Rightarrow> unit agent_prog" where
  "run_agent E fence interval_ms 0 = ret ()"
| "run_agent E fence interval_ms (Suc k) =
     bnd (asks aw_now) (\<lambda>t0.
     bnd (attempt is_failure (run_iteration E fence interval_ms)) (\<lambda>r.
     bnd (asks (\<lambda>w. case r of Inl x \<Rightarrow> interval_ms | Inr n \<Rightarrow> next_interval E interval_ms (aw_calls w))) (\<lambda>i.
     bnd (asks aw_now) (\<lambda>t.
     thn (agent_sleep (max (i * 1000 - (t - t0)) 0)) (run_agent E fence interval_ms k)))))"

text \<open>The identity a worker is started with: all three parts or none.\<close>

definition worker_fence :: "string \<Rightarrow> string option \<Rightarrow> int option \<Rightarrow> string option \<Rightarrow> exn + agent_fence option" where
  "worker_fence game rid gen lease = (case (rid, gen, lease) of
       (None, None, None) \<Rightarrow> Inr None
     | (Some r, Some g, Some l) \<Rightarrow> Inr (Some \<lparr>af_game = game, af_runtime_id = r, af_generation = g, af_lease_id = Some l\<rparr>)
     | _ \<Rightarrow> Inl (ValueError ''runtime_id / generation / lease_id''))"

end
