(* ===== verification/AgentProperties.thy ===== *)
theory AgentProperties
  imports AgentFence SessionProperties
begin

text \<open>
  The property of the fence: a worker bound to a runtime touches the game only in sections in which
  that runtime is the active one of the canonical state; and the retry of the shared lock ends.
\<close>

section \<open>Taking the shared lock\<close>

definition time_passes :: "agent_world \<Rightarrow> agent_world \<Rightarrow> bool" where
  "time_passes w v \<longleftrightarrow> aw_now w \<le> aw_now v"

interpretation tp: step_order time_passes
  by unfold_locales (simp_all add: time_passes_def)

text \<open>The rounds \<open>shared_section\<close> starts with do not run out: more of them change nothing.\<close>

lemma shared_loop_step:
  "shared_loop E body (Suc fuel) d w =
     (case attempt is_busy_failure (if ae_free E (aw_sections w) then body (aw_sections w)
          else raise (AgentFailure (Busy ''switch in progress''))) (w\<lparr>aw_sections := aw_sections w + 1\<rparr>) of
        (Inl x, v) \<Rightarrow> (Inl x, v)
      | (Inr (Inr y), v) \<Rightarrow> (Inr y, v)
      | (Inr (Inl x), v) \<Rightarrow> if d \<le> aw_now v then (Inl x, v)
          else shared_loop E body fuel d (v\<lparr>aw_now := aw_now v + (50000 + int (ae_pause E (aw_sections w)))\<rparr>))"
  by (simp add: enter_def bnd_def thn_def agent_sleep_def split: prod.splits sum.splits)

lemma tried_time:
  assumes "\<And>n. steps time_passes (body n)"
    "attempt is_busy_failure (if ae_free E k then body k else raise x) (w\<lparr>aw_sections := i\<rparr>) = (r, v)"
  shows "aw_now w \<le> aw_now v"
proof -
  have "steps time_passes (attempt is_busy_failure (if ae_free E k then body k else raise x))"
    by (intro tp.so_rules assms(1))
  from steps_run [OF this assms(2)] show ?thesis by (simp add: time_passes_def)
qed

lemma shared_loop_enough:
  assumes body: "\<And>n. steps time_passes (body n)"
  shows "deadline - aw_now w \<le> int m * 50000 \<Longrightarrow>
    shared_loop E body (Suc m + j) deadline w = shared_loop E body (Suc m) deadline w"
proof (induction m arbitrary: w)
  case (0 w)
  obtain r v where t: "attempt is_busy_failure (if ae_free E (aw_sections w) then body (aw_sections w)
     else raise (AgentFailure (Busy ''switch in progress''))) (w\<lparr>aw_sections := aw_sections w + 1\<rparr>) = (r, v)" by fastforce
  from tried_time [where body = body, OF body t] 0 have "deadline \<le> aw_now v" by simp
  then show ?case by (simp only: add_Suc shared_loop_step t) (simp split: sum.splits)
next
  case (Suc m w)
  obtain r v where t: "attempt is_busy_failure (if ae_free E (aw_sections w) then body (aw_sections w)
     else raise (AgentFailure (Busy ''switch in progress''))) (w\<lparr>aw_sections := aw_sections w + 1\<rparr>) = (r, v)" by fastforce
  have "deadline - aw_now (v\<lparr>aw_now := aw_now v + (50000 + int (ae_pause E (aw_sections w)))\<rparr>) \<le> int m * 50000"
    using tried_time [where body = body, OF body t] Suc.prems by (simp add: algebra_simps)
  from Suc.IH [OF this] show ?case
    by (simp only: add_Suc shared_loop_step [of _ _ _ _ w] t) (simp split: sum.splits)
qed

lemma shared_section_enough:
  assumes "\<And>n. steps time_passes (body n)"
  shows "shared_section E body w = shared_loop E body (lock_rounds + j) (aw_now w + 5000000) w"
  using shared_loop_enough [where body = body and deadline = "aw_now w + 5000000" and m = 100 and j = j and E = E, OF assms, of w]
  by (simp add: shared_section_def bnd_def lock_rounds_def del: shared_loop.simps)

section \<open>Sections in which the fence holds\<close>

definition fence_holds :: "'o agent_env \<Rightarrow> agent_fence \<Rightarrow> nat \<Rightarrow> bool" where
  "fence_holds E f n \<longleftrightarrow> ae_free E n \<and>
     (\<exists>st r. ae_canonical E n = Inr st \<and> cs_active st = Some r \<and> fence_of r = f)"

definition fenced_log :: "'o agent_env \<Rightarrow> agent_fence \<Rightarrow> agent_world \<Rightarrow> agent_world \<Rightarrow> bool" where
  "fenced_log E f w v \<longleftrightarrow> (\<exists>new. aw_log v = new @ aw_log w \<and>
     (\<forall>(m, e)\<in>set new. \<exists>n. m = Some n \<and> fence_holds E f n))"

interpretation fl: step_order "fenced_log E f" for E f
proof
  show "fenced_log E f w w" for w by (simp add: fenced_log_def)
next
  fix w v u assume "fenced_log E f w v" "fenced_log E f v u"
  then obtain a b where "aw_log v = a @ aw_log w" "aw_log u = b @ aw_log v"
    "\<forall>(m, e)\<in>set a. \<exists>n. m = Some n \<and> fence_holds E f n" "\<forall>(m, e)\<in>set b. \<exists>n. m = Some n \<and> fence_holds E f n"
    by (auto simp: fenced_log_def)
  then show "fenced_log E f w u"
    unfolding fenced_log_def by (intro exI [of _ "b @ a"]) auto
qed

lemma same_log: "(\<And>w. aw_log (snd (m w)) = aw_log w) \<Longrightarrow> steps (fenced_log E f) m"
  by (simp add: steps_def fenced_log_def)

lemma enter_fenced: "steps (fenced_log E f) enter"
  by (rule same_log) (simp add: enter_def)

lemma sleep_fenced: "steps (fenced_log E f) (agent_sleep d)"
  by (rule same_log) (simp add: agent_sleep_def)

lemma observe_fenced: "fence_holds E f n \<Longrightarrow> steps (fenced_log E f) (agent_observe E (Some n))"
  by (auto simp: steps_def agent_observe_def fenced_log_def)

lemma send_fenced: "fence_holds E f n \<Longrightarrow> steps (fenced_log E f) (agent_send E (Some n) a)"
  by (auto simp: steps_def agent_send_def fenced_log_def)

text \<open>What follows a check in a section runs only when the fence holds there.\<close>

lemma check_then:
  assumes "ae_free E n" "fence_holds E f n \<Longrightarrow> steps (fenced_log E f) m"
  shows "steps (fenced_log E f) (thn (check_loop_fence E f n) m)"
proof (cases "fence_holds E f n")
  case True
  then show ?thesis
    by (intro fl.so_thn assms(2)) (auto simp: check_loop_fence_def read_canonical_def intro!: fl.so_bnd fl.so_lift)
next
  case False
  then have "\<exists>x. check_loop_fence E f n = raise x"
    using assms(1) by (auto simp: fence_holds_def check_loop_fence_def read_canonical_def check_fence_def as_failure_def
        bnd_def fun_eq_iff split: sum.splits option.splits)
  then show ?thesis by (auto simp: thn_def intro: fl.so_raise)
qed

lemma shared_fenced:
  assumes "\<And>n. ae_free E n \<Longrightarrow> steps (fenced_log E f) (body n)"
  shows "steps (fenced_log E f) (shared_section E body)"
proof -
  have tried: "steps (fenced_log E f) (if ae_free E n then body n else raise x)" for n x
    using assms fl.so_raise by (cases "ae_free E n") simp_all
  have "steps (fenced_log E f) (shared_loop E body k d)" for k d
  proof (induction k)
    case 0
    show ?case unfolding shared_loop.simps by (rule fl.so_raise)
  next
    case (Suc k)
    show ?case unfolding shared_loop.simps by (intro fl.so_bnd fl.so_attempt fl.so_sum fl.so_if fl.so_thn fl.so_ret
          fl.so_asks fl.so_raise enter_fenced sleep_fenced tried Suc)
  qed
  then show ?thesis unfolding shared_section_def by (intro fl.so_rules)
qed

lemma act_fenced: "ae_free E n \<Longrightarrow> steps (fenced_log E f) (act_in_section E (Some f) a n)"
  unfolding act_in_section_def check_if_fenced_def option.case read_canonical_def
  by (intro check_then fl.so_rules observe_fenced send_fenced)

lemma perform_fenced: "steps (fenced_log E f) (perform E (Some f) as)"
proof (induction as)
  case Nil
  show ?case unfolding perform.simps by (rule fl.so_ret)
next
  case (Cons a as)
  have "steps (fenced_log E f) (shared_section E (act_in_section E (Some f) a))"
    by (intro shared_fenced act_fenced)
  with Cons show ?case
    by (simp only: perform.simps option.distinct not_False_eq_True simp_thms if_True) (intro fl.so_rules sleep_fenced)
qed

lemma decide_fenced: "steps (fenced_log E f) (decide_and_act E (Some f) obs)"
  unfolding decide_and_act_def check_if_fenced_def option.case check_loop_fence_def read_canonical_def
  by (intro fl.so_rules enter_fenced perform_fenced)

lemma iteration_fenced: "steps (fenced_log E f) (run_iteration E (Some f) i)"
  unfolding run_iteration_def option.case read_canonical_def
  by (intro fl.so_rules enter_fenced sleep_fenced shared_fenced check_then observe_fenced decide_fenced)

lemma agent_fenced: "steps (fenced_log E f) (run_agent E (Some f) i k)"
proof (induction k)
  case 0
  show ?case unfolding run_agent.simps by (rule fl.so_ret)
next
  case (Suc k)
  then show ?case unfolding run_agent.simps by (intro fl.so_rules sleep_fenced iteration_fenced)
qed

section \<open>The worker and the coordinator\<close>

text \<open>What a reader of the canonical file gets on a machine the coordinator can leave.\<close>

lemma reached_load_valid:
  assumes "canon_loads (m_canon s0)" "reached F s0 s" "canon_load F s = (Inr (st, b), u)" "cs_active st = Some rt"
  shows "valid_state st"
  using assms(3)
proof (cases rule: canon_load_cases)
  case (missing v)
  with assms(4) show ?thesis by (simp add: fresh_state_def)
qed auto

text \<open>C24: whatever the game, the brain and the lock do and for however long the worker runs, it observes and
  acts only inside sections in which it holds the shared lock and the canonical state, as any calls of
  the coordinator left it, is valid and has the worker's own runtime (game, runtime id, generation and
  lease) as the active one; the windows and the session of that runtime are those of no candidate,
  previous or retiring runtime.\<close>

theorem fenced_worker_plays_active:
  assumes "run_agent E (Some f) interval_ms k w = (r, t)" "canon_loads (m_canon s0)"
    "\<forall>n st. ae_canonical E n = Inr st \<longrightarrow> (\<exists>s b u. reached F s0 s \<and> canon_load F s = (Inr (st, b), u))"
  shows "\<exists>new. aw_log t = new @ aw_log w \<and> (\<forall>(m, e)\<in>set new. \<exists>n st rt.
    m = Some n \<and> ae_free E n \<and> ae_canonical E n = Inr st \<and> validate_state st = Inr () \<and>
    cs_active st = Some rt \<and> fence_of rt = f \<and>
    (\<forall>other\<in>set (opt_list (cs_candidate st) @ opt_list (cs_previous st) @ List.map as_runtime (cs_retiring st)).
       rt_game_window other \<noteq> rt_game_window rt \<and> rt_agent_window other \<noteq> rt_agent_window rt \<and>
       rt_adapter_session other \<noteq> rt_adapter_session rt))"
proof -
  have play: "\<exists>st rt. ae_free E n \<and> ae_canonical E n = Inr st \<and> validate_state st = Inr () \<and>
      cs_active st = Some rt \<and> fence_of rt = f \<and>
      (\<forall>other\<in>set (opt_list (cs_candidate st) @ opt_list (cs_previous st) @ List.map as_runtime (cs_retiring st)).
         rt_game_window other \<noteq> rt_game_window rt \<and> rt_agent_window other \<noteq> rt_agent_window rt \<and>
         rt_adapter_session other \<noteq> rt_adapter_session rt)" if fence: "fence_holds E f n" for n
  proof -
    obtain st rt where h: "ae_free E n" "ae_canonical E n = Inr st" "cs_active st = Some rt" "fence_of rt = f"
      using fence unfolding fence_holds_def by blast
    obtain s b u where "reached F s0 s" "canon_load F s = (Inr (st, b), u)" using assms(3) h(2) by blast
    from reached_load_valid [OF assms(2) this h(3)] have v: "valid_state st" .
    from valid_state_names [OF v] h(3) have "\<forall>other\<in>set (opt_list (cs_candidate st) @ opt_list (cs_previous st) @ List.map as_runtime (cs_retiring st)).
         rt_game_window other \<noteq> rt_game_window rt \<and> rt_agent_window other \<noteq> rt_agent_window rt \<and>
         rt_adapter_session other \<noteq> rt_adapter_session rt"
      unfolding state_runtimes_def by (auto simp: opt_list_def image_iff)
    with h v show ?thesis by blast
  qed
  have "fenced_log E f w t" by (rule steps_run [OF agent_fenced assms(1)])
  with play show ?thesis unfolding fenced_log_def by fastforce
qed

definition playing_state :: cstate where
  "playing_state = (fresh_state (iso_utc 0))\<lparr>cs_phase := Ready, cs_next_generation := 2, cs_active := Some sample_active\<rparr>"

definition playing_machine :: machine where
  "playing_machine = ready_machine\<lparr>m_canon := Some (Stored playing_state)\<rparr>"

lemma playing_held: "holds_state playing_state playing_machine"
  by (simp add: holds_state_def playing_machine_def playing_state_def sample_active_def
      fresh_state_def run_state run_chars validate_game_name_def ready_machine_def)

definition press_a :: agent_action where
  "press_a = \<lparr>aa_type = ''press'', aa_buttons = [''a''], aa_keys = [], aa_text = '''', aa_key = '''', aa_x = 0,
     aa_y = 0, aa_button = 1, aa_ms = 0, aa_hold_ms = 50\<rparr>"

definition sample_agent :: "unit agent_env" where
  "sample_agent = \<lparr>ae_canonical = (\<lambda>_. Inr playing_state), ae_free = (\<lambda>n. n \<noteq> 1), ae_pause = (\<lambda>_. 0),
     ae_observe = (\<lambda>_. Inr ()), ae_act = (\<lambda>_. Inr ()), ae_decide = (\<lambda>_ _. Inr [press_a]), ae_guarded = False,
     ae_validate = (\<lambda>_ _ _ _. True), ae_interval = (\<lambda>_. None)\<rparr>"

definition sample_world :: agent_world where
  "sample_world = \<lparr>aw_sections = 0, aw_calls = 0, aw_now = 0, aw_log = []\<rparr>"

lemma sample_iteration:
  "aw_log (snd (run_agent sample_agent (Some (fence_of sample_active)) 500 1 sample_world)) =
   [(Some 4, Sent press_a), (Some 2, Observed)]"
  by (simp add: sample_agent_def sample_world_def run_iteration_def resolve_fence_def identity_of_def playing_state_def
      sample_active_def shared_section_def lock_rounds_def check_loop_fence_def check_fence_def read_canonical_def as_failure_def
      agent_observe_def agent_send_def decide_and_act_def check_if_fenced_def act_in_section_def press_a_def enter_def
      agent_sleep_def bnd_def thn_def attempt_def fence_of_def eval_nat_numeral)

lemma fenced_worker_plays_active_witness:
  "\<exists>st rt. ae_canonical sample_agent 4 = Inr st \<and> validate_state st = Inr () \<and> cs_active st = Some rt \<and>
    fence_of rt = fence_of sample_active \<and>
    aw_log (snd (run_agent sample_agent (Some (fence_of sample_active)) 500 1 sample_world)) =
      [(Some 4, Sent press_a), (Some 2, Observed)]"
proof -
  obtain r t where run: "run_agent sample_agent (Some (fence_of sample_active)) 500 1 sample_world = (r, t)" by fastforce
  have v: "valid_state playing_state" "m_canon playing_machine = Some (Stored playing_state)"
    using playing_held by (auto simp: holds_state_def)
  have load: "canon_load sample_env playing_machine = (Inr (playing_state, False), playing_machine)"
    using v by (simp add: canon_load_def bnd_def) (simp add: playing_state_def fresh_state_def)
  have "\<exists>new. aw_log t = new @ aw_log sample_world \<and> (\<forall>(m, e)\<in>set new. \<exists>n st rt.
    m = Some n \<and> ae_free sample_agent n \<and> ae_canonical sample_agent n = Inr st \<and> validate_state st = Inr () \<and>
    cs_active st = Some rt \<and> fence_of rt = fence_of sample_active \<and>
    (\<forall>other\<in>set (opt_list (cs_candidate st) @ opt_list (cs_previous st) @ List.map as_runtime (cs_retiring st)).
       rt_game_window other \<noteq> rt_game_window rt \<and> rt_agent_window other \<noteq> rt_agent_window rt \<and>
       rt_adapter_session other \<noteq> rt_adapter_session rt))"
  proof (rule fenced_worker_plays_active [OF run, of playing_machine sample_env])
    show "canon_loads (m_canon playing_machine)" using v by (simp add: canon_loads_def)
    show "\<forall>n st. ae_canonical sample_agent n = Inr st \<longrightarrow>
        (\<exists>s b u. reached sample_env playing_machine s \<and> canon_load sample_env s = (Inr (st, b), u))"
      using load reached_refl by (auto simp: sample_agent_def)
  qed
  with sample_iteration run show ?thesis by (fastforce simp: sample_world_def)
qed

end
