(* ===== verification/Results.thy ===== *)
theory Results
  imports Prelude
begin

text \<open>
  Code that can raise but changes nothing: a value of \<open>'e + 'a\<close>, an exception or a result, with
  sequencing (\<open>after\<close>), a guard (\<open>need\<close>) and a comprehension whose element may raise (\<open>each\<close>).
\<close>

definition after :: "'e + 'a \<Rightarrow> ('a \<Rightarrow> 'e + 'b) \<Rightarrow> 'e + 'b" where
  "after r f = (case r of Inl x \<Rightarrow> Inl x | Inr v \<Rightarrow> f v)"

definition need :: "bool \<Rightarrow> 'e \<Rightarrow> 'e + unit" where
  "need b x = (if b then Inr () else Inl x)"

fun each :: "('a \<Rightarrow> 'e + 'b) \<Rightarrow> 'a list \<Rightarrow> 'e + 'b list" where
  "each f [] = Inr []"
| "each f (x # xs) = after (f x) (\<lambda>y. after (each f xs) (\<lambda>ys. Inr (y # ys)))"

text \<open>\<open>str.isspace\<close> and \<open>str.strip\<close> on code points below 256.\<close>

definition py_space :: "char \<Rightarrow> bool" where
  "py_space c \<longleftrightarrow> (let n = (of_char c :: nat) in 9 \<le> n \<and> n \<le> 13 \<or> 28 \<le> n \<and> n \<le> 32 \<or> n = 133 \<or> n = 160)"

definition py_strip :: "string \<Rightarrow> string" where
  "py_strip s = rev (dropWhile py_space (rev (dropWhile py_space s)))"

text \<open>\<open>str.lower\<close> on code points below 256.\<close>

definition py_lower :: "char \<Rightarrow> char" where
  "py_lower c = (let n = (of_char c :: nat) in
     if 65 \<le> n \<and> n \<le> 90 \<or> 192 \<le> n \<and> n \<le> 222 \<and> n \<noteq> 215 then char_of (n + 32) else c)"

fun py_words :: "string \<Rightarrow> string \<Rightarrow> string list" where
  "py_words w [] = (if w = [] then [] else [rev w])"
| "py_words w (c # cs) = (if py_space c then (if w = [] then [] else [rev w]) @ py_words [] cs
     else py_words (c # w) cs)"

lemma after_simps [simp]: "after (Inl x) f = Inl x" "after (Inr v) f = f v"
  by (simp_all add: after_def)

lemma need_simps [simp]: "need True x = Inr ()" "need False x = Inl x"
  by (simp_all add: need_def)

lemma after_Inr: "after r f = Inr y \<longleftrightarrow> (\<exists>v. r = Inr v \<and> f v = Inr y)"
  by (cases r) auto

lemma after_InrE:
  assumes "after r f = Inr y"
  obtains v where "r = Inr v" "f v = Inr y"
  using assms by (auto simp: after_Inr)

lemma need_Inr [simp]: "need b x = Inr u \<longleftrightarrow> b"
  by (simp add: need_def)

lemma after_need: "after (need b x) f = (if b then f () else Inl x)"
  by simp

lemma each_Inr: "each f xs = Inr ys \<longleftrightarrow> length ys = length xs \<and> (\<forall>i<length xs. f (xs ! i) = Inr (ys ! i))"
proof (induction xs arbitrary: ys)
  case (Cons x xs)
  show ?case by (cases ys) (auto simp: after_Inr Cons.IH All_less_Suc2)
qed auto

lemma each_same: "(\<And>x. x \<in> set xs \<Longrightarrow> f x = Inr x) \<Longrightarrow> each f xs = Inr xs"
  by (induction xs) auto

lemma each_id:
  assumes "each f xs = Inr ys" "\<And>x y. f x = Inr y \<Longrightarrow> y = x"
  shows "ys = xs"
  using assms by (auto simp: each_Inr intro: nth_equalityI)

end
