(* ===== verification/CornerTypes.thy ===== *)
theory CornerTypes
  imports Results SwitchTypes "HOL-Library.AList" Complex_Main
begin

text \<open>
  The data of \<open>corner_rotation.py\<close>, the scheduler that decides which corner of the broadcast runs
  next: exceptions and their fixed categories, timestamps, the durable ledger and its rows, what
  an adapter shows of a corner, the published notice, and the machine the manager runs on.

  A decoded JSON document is a record; a document whose keys have other types is \<open>Unreadable\<close>.
  Floats are rationals, so rounding is not modelled.  Everything from outside is the record
  \<open>rot_env\<close>, indexed by the number of the request made to it: the clock, the locks, the fate of a
  durable write, what an adapter answers.  A dict is an association list in insertion order.
\<close>

section \<open>Exceptions\<close>

text \<open>
  \<open>RotationError\<close> carries its category and a reason code; \<open>CornerFailure\<close> is any exception of a
  class defined in \<open>docich.*\<close>, with its \<open>kind\<close> attribute if it has one; \<open>OtherFailure\<close> is any
  other \<open>Exception\<close>.  \<open>Died\<close> ends the process: no \<open>except\<close> clause sees it.
\<close>

datatype rot_exn = RotationError string "string option" | CornerFailure "string option"
  | OtherFailure "string option" | Died

definition error_kinds :: "string list" where
  "error_kinds = [''adapter-state'', ''adapter-timestamp'', ''catalog-mismatch'', ''execution-error'',
     ''execution-unverified'', ''invalid-state'', ''unexpected'']"

definition ledger_error_kinds :: "string list" where
  "ledger_error_kinds = [''adapter-state'', ''adapter-timestamp'', ''catalog-mismatch'', ''invalid-state'']"

definition rotation_error :: "string option \<Rightarrow> string option \<Rightarrow> rot_exn" where
  "rotation_error kind reason = RotationError
     (case kind of Some k \<Rightarrow> if k \<in> set error_kinds then k else ''invalid-state'' | None \<Rightarrow> ''invalid-state'')
     reason"

definition wrong :: rot_exn where
  "wrong = rotation_error None None"

definition refused :: "string \<Rightarrow> rot_exn" where
  "refused reason = rotation_error None (Some reason)"

definition of_kind :: "string \<Rightarrow> rot_exn" where
  "of_kind k = rotation_error (Some k) None"

fun kind_attribute :: "rot_exn \<Rightarrow> string option" where
  "kind_attribute (RotationError k r) = Some k"
| "kind_attribute (CornerFailure k) = k"
| "kind_attribute (OtherFailure k) = k"
| "kind_attribute Died = None"

fun defined_in_docich :: "rot_exn \<Rightarrow> bool" where
  "defined_in_docich (RotationError k r) = True"
| "defined_in_docich (CornerFailure k) = True"
| "defined_in_docich (OtherFailure k) = False"
| "defined_in_docich Died = False"

definition error_kind :: "rot_exn \<Rightarrow> string" where
  "error_kind x = (case kind_attribute x of
       Some k \<Rightarrow> if k \<in> set error_kinds then k
         else if defined_in_docich x then ''execution-error'' else ''unexpected''
     | None \<Rightarrow> if defined_in_docich x then ''execution-error'' else ''unexpected'')"

definition catchable :: "rot_exn \<Rightarrow> bool" where
  "catchable x \<longleftrightarrow> x \<noteq> Died"

section \<open>Timestamps\<close>

datatype instant = Secs rat | IsoText string | NotATime

definition unix_epoch :: int where
  "unix_epoch = int (day_of 1970 1 1 * day_us)"

definition timestamp :: "instant \<Rightarrow> rot_exn + rat" where
  "timestamp v = after
     (case v of
        Secs q \<Rightarrow> Inr q
      | IsoText s \<Rightarrow> (case parse_iso s of
            BadStamp \<Rightarrow> Inl (OtherFailure None)
          | Naive t \<Rightarrow> Inl wrong
          | Instant t \<Rightarrow> Inr (of_int (t - unix_epoch) / 1000000))
      | NotATime \<Rightarrow> Inl wrong)
     (\<lambda>q. if q < 0 then Inl wrong else Inr q)"

definition day :: rat where
  "day = 86400"

section \<open>The catalog and the ledger\<close>

record corner =
  cr_id :: string
  cr_adapter :: string
  cr_game :: string
  cr_enabled :: bool
  cr_paused :: bool
  cr_manual_only :: bool

record reservation =
  rv_corner :: string
  rv_request_id :: string
  rv_selected_at :: rat
  rv_phase :: "string option"
  rv_source :: "string option"
  rv_trigger_at :: "rat option"
  rv_resume_latest :: bool
  rv_new_game :: bool
  rv_state_file :: "string option"
  rv_capture_profile :: "string option"
  rv_capture_expires_at :: "rat option"

record use_row =
  us_corner :: string
  us_at :: rat
  us_source :: string

record known_corner =
  kc_id :: string
  kc_adapter :: string
  kc_game :: string

record failed_row =
  fr_corner :: string
  fr_request_id :: string
  fr_at :: rat
  fr_resolution :: string
  fr_reason :: string
  fr_kind :: string

record replay_budget =
  rb_request_id :: string
  rb_corner :: string
  rb_attempts :: int
  rb_next_at :: "rat option"
  rb_last_status :: "string option"
  rb_exhausted :: bool

record slot_result =
  sr_corner :: string
  sr_request_id :: string
  sr_status :: string
  sr_at :: rat

record ledger =
  lg_schema :: int
  lg_seed :: string
  lg_slot :: int
  lg_last_seen_at :: rat
  lg_next_due_at :: rat
  lg_last_slot_at :: "rat option"
  lg_history :: "use_row list"
  lg_pending :: "reservation option"
  lg_manual_pending :: "reservation option"
  lg_queued_manual :: "reservation option"
  lg_status :: string
  lg_reason :: "string option"
  lg_error_kind :: "string option"
  lg_last_result :: "slot_result option"
  lg_failed_corners :: "failed_row list"
  lg_auto_restore :: "replay_budget option"
  lg_released :: "(string \<times> (string \<times> rat)) list"
  lg_known :: "(string \<times> known_corner) list"
  lg_hold_until :: "rat option"
  lg_eligible :: "string list"
  lg_excluded :: "(string \<times> string) list"
  lg_interval :: "rat option"
  lg_notice_spoken_for :: "string option"

text \<open>What an adapter yields of one of its state files; \<open>ob_settle_pending\<close> is the request and the
  corner of a pinned release record.\<close>

record obs =
  ob_status :: string
  ob_request_id :: "string option"
  ob_game :: "string option"
  ob_end_reason :: "string option"
  ob_bot_runtime_id :: "string option"
  ob_started_at :: "instant option"
  ob_completed_at :: "instant option"
  ob_settle_pending :: "(string \<times> string) option"

definition busy_statuses :: "string list" where
  "busy_statuses = [''waiting'', ''starting'', ''active'', ''restoring'', ''preparing'',
     ''recovery_required'', ''failed'']"

definition terminal_statuses :: "string list" where
  "terminal_statuses = [''idle'', ''completed'', ''interrupted'', ''expired'']"

definition is_busy :: "obs \<Rightarrow> bool" where
  "is_busy raw \<longleftrightarrow> ob_status raw \<in> set busy_statuses"

definition is_over :: "obs \<Rightarrow> bool" where
  "is_over raw \<longleftrightarrow> ob_status raw \<in> set terminal_statuses"

section \<open>The other documents\<close>

record notice =
  nt_corner :: string
  nt_label :: "nat list"
  nt_due_at :: int
  nt_when :: "nat list"
  nt_source :: string
  nt_hold :: "string option"
  nt_decided_at :: int
  nt_updated_at :: rat

record heartbeat =
  hb_corner :: string
  hb_request_id :: string
  hb_at :: instant

text \<open>The parts of \<open>retro_corner.json\<close> that the first ledger imports.\<close>

record legacy_rotation =
  lr_schema :: int
  lr_status :: string
  lr_pending :: bool
  lr_selections :: "(string \<times> instant) list"
  lr_next_due :: "instant option"

text \<open>The answer of an adapter that is asked to retire a released owner: \<open>True\<close>, \<open>None\<close>, \<open>False\<close>.\<close>

datatype settle_answer = Retired | Deferred | Kept

text \<open>What a run inside the program slot ends with: the status, or a wait for the slot that expired.\<close>

datatype slot_run = Ran string | WaitExpired

text \<open>The shared read of the game switch: locked by a writer, failed, or the canonical state and whether
  its file was missing.\<close>

datatype plane = PlaneBusy | PlaneFailed rot_exn | Plane cstate bool

section \<open>The machine\<close>

record launch =
  la_request :: reservation
  la_at :: rat
  la_fresh :: bool
  la_disk :: "ledger doc option"

text \<open>
  \<open>cm_disk\<close>, \<open>cm_inbox\<close>, \<open>cm_notice\<close>, \<open>cm_heartbeat\<close> are files; \<open>cm_mem\<close>, \<open>cm_now\<close> and \<open>cm_unretired\<close>
  are the \<open>state\<close>, the \<open>now\<close> and the set of blocked state files of the running operation;
  \<open>cm_calls\<close> counts the requests to the environment and \<open>cm_launches\<close> the executions that have
  started, newest first, with the ledger that was on disk.
\<close>

record rot_machine =
  cm_disk :: "ledger doc option"
  cm_mem :: ledger
  cm_now :: rat
  cm_inbox :: "reservation doc option"
  cm_notice :: "notice option"
  cm_heartbeat :: "heartbeat option"
  cm_unretired :: "string list"
  cm_calls :: nat
  cm_launches :: "launch list"

type_synonym 'a rot = "(rot_machine, rot_exn, 'a) eff"

record rot_env =
  re_catalog :: "corner list"
  re_queue_mode :: bool
  re_cooldown :: rat
  re_configured_interval :: "rat option"
  re_seed :: string
  re_digest :: "string \<Rightarrow> string"
  re_uuid5 :: "string \<Rightarrow> string"
  re_uuid4 :: "nat \<Rightarrow> string"
  re_enabled :: "nat \<Rightarrow> rot_exn + bool"
  re_predictions :: "nat \<Rightarrow> rot_exn + unit"
  re_lock_free :: "nat \<Rightarrow> bool"
  re_clock :: "nat \<Rightarrow> instant"
  re_fate :: "nat \<Rightarrow> fault"
  re_pause_file :: "nat \<Rightarrow> string \<Rightarrow> bool"
  re_legacy :: "nat \<Rightarrow> legacy_rotation doc option"
  re_legacy_game :: "nat \<Rightarrow> string \<Rightarrow> string option doc option"
  re_beat :: "nat \<Rightarrow> instant"
  re_unlinks :: "nat \<Rightarrow> bool"
  re_active_game :: "nat \<Rightarrow> string option"
  re_prediction_hold :: "nat \<Rightarrow> bool"
  re_speech :: "nat \<Rightarrow> nat list \<Rightarrow> rot_exn + unit"
  ra_state_path :: "string \<Rightarrow> string option"
  ra_eligible :: "nat \<Rightarrow> string \<Rightarrow> rot_exn + bool"
  ra_observations :: "nat \<Rightarrow> string \<Rightarrow> rot_exn + obs list"
  ra_terminal_failures_ok :: "nat \<Rightarrow> string \<Rightarrow> rot_exn + bool"
  ra_released :: "nat \<Rightarrow> string \<Rightarrow> rot_exn + bool"
  ra_reconcile_start :: "string \<Rightarrow> (nat \<Rightarrow> string \<Rightarrow> string option \<Rightarrow> rot_exn + bool) option"
  ra_replay_restore :: "string \<Rightarrow> (nat \<Rightarrow> rot_exn + string option) option"
  ra_settle :: "nat \<Rightarrow> string \<Rightarrow> string \<Rightarrow> rot_exn + settle_answer"
  ra_release_owner :: "nat \<Rightarrow> string \<Rightarrow> rot_exn + bool"
  ra_has_store :: "string \<Rightarrow> bool"
  ra_plane :: "nat \<Rightarrow> string \<Rightarrow> plane"
  ra_receipt :: "nat \<Rightarrow> string \<Rightarrow> string \<Rightarrow> rot_exn + (status option \<times> string list)"
  ra_terminal_record :: "nat \<Rightarrow> string \<Rightarrow> rot_exn + string option"
  ra_last_write :: "nat \<Rightarrow> string \<Rightarrow> rat option"
  ra_enter_slot :: "nat \<Rightarrow> string \<Rightarrow> reservation \<Rightarrow> rot_exn + bool"
  ra_run :: "nat \<Rightarrow> string \<Rightarrow> reservation \<Rightarrow> rot_exn + slot_run"
  ra_guard :: "string \<Rightarrow> (nat \<Rightarrow> reservation \<Rightarrow> rot_exn + bool) option"
  ra_resumes_manual :: "string \<Rightarrow> bool"
  ra_manual_plane :: "nat \<Rightarrow> string \<Rightarrow> string \<Rightarrow> plane option"
  ra_prepare_resume :: "nat \<Rightarrow> reservation \<Rightarrow> rot_exn + unit"
  ra_recover_prepared :: "nat \<Rightarrow> string \<Rightarrow> rot_exn + reservation option"
  ra_publish_resume :: "nat \<Rightarrow> reservation \<Rightarrow> rot_exn + unit"

definition consult :: "(nat \<Rightarrow> rot_exn + 'a) \<Rightarrow> 'a rot" where
  "consult f = (\<lambda>m. (f (cm_calls m), m\<lparr>cm_calls := Suc (cm_calls m)\<rparr>))"

definition consider_it :: "(nat \<Rightarrow> 'a) \<Rightarrow> 'a rot" where
  "consider_it f = consult (\<lambda>n. Inr (f n))"

definition mem :: "(ledger \<Rightarrow> 'a) \<Rightarrow> 'a rot" where
  "mem f = asks (\<lambda>m. f (cm_mem m))"

definition edit :: "(ledger \<Rightarrow> ledger) \<Rightarrow> unit rot" where
  "edit f = alter (\<lambda>m. m\<lparr>cm_mem := f (cm_mem m)\<rparr>)"

text \<open>\<open>atomic_write_json\<close>.\<close>

definition durable :: "rot_env \<Rightarrow> (rot_machine \<Rightarrow> rot_machine) \<Rightarrow> unit rot" where
  "durable E f = bnd (consider_it (re_fate E)) (\<lambda>fate. case fate of
       NoFault \<Rightarrow> alter f
     | KilledBefore \<Rightarrow> raise Died
     | KilledAfter \<Rightarrow> thn (alter f) (raise Died)
     | ErrorBefore \<Rightarrow> raise (OtherFailure None)
     | ErrorAfter \<Rightarrow> thn (alter f) (raise (OtherFailure None)))"

definition save_ledger :: "rot_env \<Rightarrow> unit rot" where
  "save_ledger E = durable E (\<lambda>m. m\<lparr>cm_disk := Some (Stored (cm_mem m))\<rparr>)"

definition clock_now :: "rot_env \<Rightarrow> rat rot" where
  "clock_now E = bnd (consider_it (re_clock E)) (\<lambda>v. lift (timestamp v))"

text \<open>\<open>try: ... except Exception: d\<close>.\<close>

definition or_else :: "'a rot \<Rightarrow> 'a \<Rightarrow> 'a rot" where
  "or_else p d = bnd (attempt catchable p) (\<lambda>r. case r of Inl x \<Rightarrow> ret d | Inr v \<Rightarrow> ret v)"

end
