(* ===== verification/CornerNotice.thy ===== *)
theory CornerNotice
  imports CornerTypes
begin

text \<open>
  \<open>corner_notice.py\<close>: the published promise of the next corner.  Labels and times are texts with
  Japanese characters, so they are lists of code points.  The file is \<open>cm_notice\<close>; a file that is
  missing or not of the right types is \<open>None\<close>.
\<close>

section \<open>Labels and times\<close>

definition corner_labels :: "(string \<times> nat list) list" where
  "corner_labels =
    [(''ninvaders'', [12473, 12506, 12540, 12473, 12452, 12531, 12505, 12540, 12480, 12540]),
     (''nsnake'', [12473, 12493, 12540, 12463]),
     (''bastet'', [12496, 12473, 12486, 12488]),
     (''moon-buggy'', [12512, 12540, 12531, 12496, 12462, 12540]),
     (''pacman4console'', [12497, 12483, 12463, 12510, 12531]),
     (''nethack'', [78, 101, 116, 72, 97, 99, 107]),
     (''hanjuku-hero'', [21322, 29087, 33521, 38596]),
     (''paper'', [12506, 12540, 12497, 12540, 12488, 12524, 12540, 12489]),
     (''meriken'', [12477, 36899, 12466, 12540, 12512, 57, 49]),
     (''tsuitate'', [12388, 12356, 12383, 12390, 23558, 26827]),
     (''weather'', [22825, 27671, 20104, 22577]),
     (''yosou-oh'', [20104, 24819, 29579]),
     (''doushi-card'', [21516, 24535, 12459, 12540, 12489, 22823, 36062]),
     (''puyo-corner'', [12407, 12424, 12407, 12424]),
     (''trpg-corner'', [84, 82, 80, 71]),
     (''mystery'', [65, 73, 25506, 20597, 12511, 12473, 12486, 12522, 12540]),
     (''communist-law-simulator'', [20849, 29987, 20027, 32681, 27861, 24459, 12471, 12511, 12517, 12524, 12540, 12479, 12540])]"

definition codes :: "string \<Rightarrow> nat list" where
  "codes s = List.map of_char s"

definition corner_label :: "string \<Rightarrow> nat list" where
  "corner_label c = take 28 (case map_of corner_labels c of None \<Rightarrow> codes c | Some l \<Rightarrow> l)"

definition clean_text :: "nat list \<Rightarrow> nat \<Rightarrow> nat list" where
  "clean_text cs limit = (if \<exists>c\<in>set cs. c < 32 then [] else take limit cs)"

text \<open>The day number, hour and minute in Japan; \<open>fromtimestamp\<close> rounds to a microsecond, a half to even.\<close>

definition half_even :: "rat \<Rightarrow> int" where
  "half_even x = (let r = \<lfloor>x + 1 / 2\<rfloor> in if of_int r = x + 1 / 2 \<and> odd r then r - 1 else r)"

definition japan :: "rat \<Rightarrow> nat \<times> nat \<times> nat" where
  "japan q = (let s = half_even (q * 1000000) div 1000000 + 32400
     in (nat (s div 86400) + day_of 1970 1 1, nat (s mod 86400 div 3600), nat (s mod 3600 div 60)))"

definition format_when :: "rat \<Rightarrow> rat \<Rightarrow> nat list" where
  "format_when due now = (case (japan due, japan now) of ((d, h, m), (d', _)) \<Rightarrow>
     let hm = codes (pad 2 h @ '':'' @ pad 2 m)
     in if d = d' then hm
        else if d = d' + 1 then [26126, 26085] @ codes '' '' @ hm
        else (case civil_of d of (y, mo, dy) \<Rightarrow> codes (dec mo @ ''/'' @ dec dy @ '' '') @ hm))"

definition spoken_clock :: "rat \<Rightarrow> rat \<Rightarrow> nat list" where
  "spoken_clock due now = (case (japan due, japan now) of ((d, h, m), (d', _)) \<Rightarrow>
     let hm = codes (dec h) @ [26178] @ (if m = 0 then [] else codes (dec m) @ [20998])
     in if d = d' then hm
        else if d = d' + 1 then [26126, 26085] @ hm
        else (case civil_of d of (y, mo, dy) \<Rightarrow>
          codes (dec mo) @ [26376] @ codes (dec dy) @ [26085] @ hm))"

definition speech_text :: "notice \<Rightarrow> rat \<Rightarrow> nat list" where
  "speech_text n now =
     [27425, 12398, 12467, 12540, 12490, 12540, 12399]
     @ clean_text (if nt_label n = [] then codes (nt_corner n) else nt_label n) 28
     @ [12289] @ spoken_clock (of_int (nt_due_at n)) now
     @ [12363, 12425, 12398, 20104, 23450, 12391, 12377, 12290]"

section \<open>The published record\<close>

definition notice_max_age :: rat where "notice_max_age = 600"
definition notice_min_lead :: rat where "notice_min_lead = 120"
definition notice_refresh :: rat where "notice_refresh = 60"

definition read_notice :: "notice option \<Rightarrow> notice option" where
  "read_notice f = (case f of None \<Rightarrow> None | Some n \<Rightarrow>
     let l = clean_text (nt_label n) 28; w = clean_text (nt_when n) 16
     in if nt_corner n = '''' \<or> l = [] \<or> w = [] \<or> nt_source n \<notin> {''auto'', ''manual''}
           \<or> nt_hold n \<noteq> None \<and> nt_hold n \<noteq> Some ''prediction''
        then None
        else Some (n\<lparr>nt_corner := take 64 (nt_corner n), nt_label := l, nt_when := w\<rparr>))"

definition notice_now :: "notice option rot" where
  "notice_now = asks (\<lambda>m. read_notice (cm_notice m))"

text \<open>\<open>clear\<close>; an unlink that fails leaves the file.\<close>

definition clear_notice :: "rot_env \<Rightarrow> unit rot" where
  "clear_notice E = bnd (consider_it (re_unlinks E)) (\<lambda>ok. whenM ok (alter (\<lambda>m. m\<lparr>cm_notice := None\<rparr>)))"

definition new_notice :: "notice option \<Rightarrow> string \<Rightarrow> rat \<Rightarrow> string \<Rightarrow> string option \<Rightarrow> rat \<Rightarrow> notice" where
  "new_notice existing c due src hold now =
     (let src = (if src \<in> {''auto'', ''manual''} then src else ''auto'')
      in \<lparr>nt_corner = take 64 c, nt_label = corner_label c, nt_due_at = \<lfloor>due\<rfloor>,
          nt_when = format_when due now, nt_source = src,
          nt_hold = (if hold = Some ''prediction'' then hold else None),
          nt_decided_at = (case existing of
              Some n \<Rightarrow> if nt_corner n = take 64 c \<and> nt_due_at n = \<lfloor>due\<rfloor> \<and> nt_source n = src
                then nt_decided_at n else \<lfloor>now\<rfloor>
            | None \<Rightarrow> \<lfloor>now\<rfloor>),
          nt_updated_at = of_int \<lfloor>now\<rfloor>\<rparr>)"

definition publish_notice :: "rot_env \<Rightarrow> string \<Rightarrow> rat \<Rightarrow> string \<Rightarrow> string option \<Rightarrow> rat \<Rightarrow> notice rot" where
  "publish_notice E c due src hold now = bnd notice_now (\<lambda>existing.
     let n = new_notice existing c due src hold now
     in case existing of
          Some x \<Rightarrow> if x\<lparr>nt_updated_at := nt_updated_at n\<rparr> = n \<and> now - nt_updated_at x < notice_refresh
            then ret x
            else thn (durable E (\<lambda>m. m\<lparr>cm_notice := Some n\<rparr>)) (ret n)
        | None \<Rightarrow> thn (durable E (\<lambda>m. m\<lparr>cm_notice := Some n\<rparr>)) (ret n))"

end
