(* ===== verification/CornerLedger.thy ===== *)
theory CornerLedger
  imports CornerNotice
begin

text \<open>
  Reading the rotation ledger: the checks of \<open>load\<close>, the first ledger with its import from the files
  of the program before it, the memory of catalog entries, and the inbox that hands a manual
  request over to the ledger.
\<close>

section \<open>Request identifiers\<close>

text \<open>\<open>uuid.UUID(text)\<close> accepts a text; \<open>int(h, 16)\<close> allows spaces around, a sign, a prefix and
  single underscores.\<close>

fun erase :: "string \<Rightarrow> string \<Rightarrow> string" where
  "erase p [] = []"
| "erase p (c # s) = (if p \<noteq> [] \<and> take (length p) (c # s) = p then erase p (drop (length p - 1) s)
     else c # erase p s)"

definition hex_char :: "char \<Rightarrow> bool" where
  "hex_char c \<longleftrightarrow> is_digit c \<or> CHR ''a'' \<le> c \<and> c \<le> CHR ''f'' \<or> CHR ''A'' \<le> c \<and> c \<le> CHR ''F''"

fun hex_run :: "bool \<Rightarrow> string \<Rightarrow> bool" where
  "hex_run d [] = d"
| "hex_run d (c # s) = (if c = CHR ''_'' then d \<and> hex_run False s else hex_char c \<and> hex_run True s)"

definition hex_int :: "string \<Rightarrow> bool" where
  "hex_int s = (let t = py_strip s; t = (case t of [] \<Rightarrow> t | c # r \<Rightarrow> if c = CHR ''+'' then r else t)
     in case t of
          c # d # r \<Rightarrow> if c = CHR ''0'' \<and> d \<in> {CHR ''x'', CHR ''X''} then r \<noteq> [] \<and> hex_run True r else hex_run False t
        | _ \<Rightarrow> hex_run False t)"

definition strip_braces :: "string \<Rightarrow> string" where
  "strip_braces s = (let brace = (\<lambda>c. c \<in> {CHR 0x7B, CHR 0x7D}) in rev (dropWhile brace (rev (dropWhile brace s))))"

definition uuid_ok :: "string \<Rightarrow> bool" where
  "uuid_ok s = (let h = filter (\<lambda>c. c \<noteq> CHR ''-'') (strip_braces (erase ''uuid:'' (erase ''urn:'' s)))
     in length h = 32 \<and> hex_int h)"

section \<open>Checks\<close>

definition checks :: "('e + unit) list \<Rightarrow> 'e + unit" where
  "checks cs = after (each (\<lambda>c. c) cs) (\<lambda>_. Inr ())"

definition time_ok :: "rat \<Rightarrow> rot_exn + unit" where
  "time_ok q = need (0 \<le> q) wrong"

definition opt_ok :: "('a \<Rightarrow> 'e + unit) \<Rightarrow> 'a option \<Rightarrow> 'e + unit" where
  "opt_ok f x = (case x of None \<Rightarrow> Inr () | Some v \<Rightarrow> f v)"

definition id_ok :: "reservation \<Rightarrow> rot_exn + unit" where
  "id_ok r = checks [need (uuid_ok (rv_request_id r)) (OtherFailure None), time_ok (rv_selected_at r)]"

text \<open>\<open>Path(s).name == s\<close>: true of the empty string, whose name is empty too.\<close>

definition plain_name :: "string \<Rightarrow> bool" where
  "plain_name s \<longleftrightarrow> s \<noteq> ''.'' \<and> CHR ''/'' \<notin> set s"

definition pending_ok :: "reservation \<Rightarrow> rot_exn + unit" where
  "pending_ok r = checks [need (rv_phase r \<in> {Some ''selected'', Some ''dispatched''}) wrong, id_ok r]"

definition profile_ok :: "reservation \<Rightarrow> rot_exn + unit" where
  "profile_ok r = (case rv_capture_profile r of None \<Rightarrow> Inr ()
     | Some p \<Rightarrow> if p \<noteq> ''rejected_png_v1'' then Inl wrong
         else (case rv_capture_expires_at r of None \<Rightarrow> Inl wrong | Some q \<Rightarrow> time_ok q))"

definition manual_ok :: "reservation \<Rightarrow> rot_exn + unit" where
  "manual_ok r = checks
     [need (case rv_state_file r of None \<Rightarrow> False | Some f \<Rightarrow> plain_name f) wrong, id_ok r, profile_ok r]"

definition queued_ok :: "reservation \<Rightarrow> rot_exn + unit" where
  "queued_ok r = checks [id_ok r, opt_ok time_ok (rv_trigger_at r)]"

definition state_files :: "(string \<times> string) list" where
  "state_files = [(''game'', ''retro_corner.json''), (''paper'', ''paper_corner.json''),
     (''weather'', ''weather_corner.json''), (''tsuitate'', ''tsuitate_corner.json''),
     (''yoso'', ''yoso_corner.json''), (''doushi'', ''doushi_corner.json''), (''puyo'', ''puyo_program.json''),
     (''mystery'', ''mystery_corner.json''), (''lawsim'', ''lawsim_corner.json''),
     (''trpg'', ''trpg_corner_state.json''), (''meriken'', ''soren91_corner.json''),
     (''nethack'', ''nethack_corner.json'')]"

definition known_ok :: "known_corner \<Rightarrow> rot_exn + unit" where
  "known_ok k = need (kc_adapter k \<in> fst ` set state_files) wrong"

definition check_ledger :: "ledger \<Rightarrow> rot_exn + unit" where
  "check_ledger L = checks
     [need (lg_schema L = 1) wrong,
      need (lg_seed L \<noteq> [] \<and> 0 \<le> lg_slot L
        \<and> lg_status L \<in> {''ready'', ''waiting'', ''running'', ''recovery_required''}) wrong,
      checks (List.map (\<lambda>(_, k). known_ok k) (lg_known L)),
      need (\<not> (lg_status L = ''running'' \<and> lg_pending L = None \<and> lg_manual_pending L = None)) wrong,
      time_ok (lg_next_due_at L), time_ok (lg_last_seen_at L), opt_ok time_ok (lg_last_slot_at L),
      checks (List.map (\<lambda>r. time_ok (us_at r)) (lg_history L)),
      opt_ok pending_ok (lg_pending L), opt_ok manual_ok (lg_manual_pending L),
      opt_ok queued_ok (lg_queued_manual L)]"

section \<open>The first ledger\<close>

definition set_default :: "'k \<Rightarrow> 'v \<Rightarrow> ('k \<times> 'v) list \<Rightarrow> ('k \<times> 'v) list" where
  "set_default k v al = (if k \<in> fst ` set al then al else al @ [(k, v)])"

definition known_of :: "corner \<Rightarrow> known_corner" where
  "known_of c = \<lparr>kc_id = cr_id c, kc_adapter = cr_adapter c, kc_game = cr_game c\<rparr>"

definition legacy_files :: "(string \<times> string \<times> (string \<times> string) option) list" where
  "legacy_files = [(''retro_corner.json'', ''game'', None),
     (''paper_corner.json'', ''paper'', Some (''paper'', ''paper-view'')),
     (''paper_corner_manual.json'', ''paper'', Some (''paper'', ''paper-view'')),
     (''soren91_corner.json'', ''meriken'', Some (''meriken'', ''soren91'')),
     (''nethack_corner.json'', ''nethack'', Some (''nethack'', ''nethack''))]"

definition adopt_legacy :: "corner list \<Rightarrow> string \<Rightarrow> (string \<times> string) option \<Rightarrow> string option \<Rightarrow>
    (string \<times> known_corner) list \<Rightarrow> (string \<times> known_corner) list" where
  "adopt_legacy cat ad fixed game kn = (case fixed of
       Some (c, g) \<Rightarrow> set_default c \<lparr>kc_id = c, kc_adapter = ad, kc_game = g\<rparr> kn
     | None \<Rightarrow> (case game of None \<Rightarrow> kn | Some g \<Rightarrow>
         if g = [] then kn
         else (case find (\<lambda>c. cr_game c = g) cat of
                 Some c \<Rightarrow> set_default (cr_id c) (known_of c) kn
               | None \<Rightarrow> set_default g \<lparr>kc_id = g, kc_adapter = ad, kc_game = g\<rparr> kn)))"

fun initial_known :: "rot_env \<Rightarrow> (string \<times> string \<times> (string \<times> string) option) list \<Rightarrow>
    (string \<times> known_corner) list \<Rightarrow> (string \<times> known_corner) list rot" where
  "initial_known E [] kn = ret kn"
| "initial_known E ((file, ad, fixed) # fs) kn =
     bnd (consider_it (\<lambda>n. re_legacy_game E n file)) (\<lambda>d. case d of
       None \<Rightarrow> initial_known E fs kn
     | Some Unreadable \<Rightarrow> raise wrong
     | Some (Stored game) \<Rightarrow> initial_known E fs (adopt_legacy (re_catalog E) ad fixed game kn))"

fun any_owned :: "rot_env \<Rightarrow> string list \<Rightarrow> bool rot" where
  "any_owned E [] = ret False"
| "any_owned E (k # ks) = bnd (consult (\<lambda>n. ra_observations E n k)) (\<lambda>raws.
     if \<exists>raw\<in>set raws. ob_request_id raw \<noteq> None \<and> ob_request_id raw \<noteq> Some [] then ret True
     else any_owned E ks)"

definition corner_ids :: "rot_env \<Rightarrow> string list" where
  "corner_ids E = List.map cr_id (re_catalog E)"

definition blank_ledger :: "rot_env \<Rightarrow> rat \<Rightarrow> (string \<times> known_corner) list \<Rightarrow> ledger" where
  "blank_ledger E now kn = \<lparr>lg_schema = 1, lg_seed = re_seed E, lg_slot = 0, lg_last_seen_at = now,
     lg_next_due_at = now, lg_last_slot_at = None, lg_history = [], lg_pending = None,
     lg_manual_pending = None, lg_queued_manual = None, lg_status = ''ready'', lg_reason = None,
     lg_error_kind = None, lg_last_result = None, lg_failed_corners = [], lg_auto_restore = None,
     lg_released = [], lg_known = kn, lg_hold_until = None, lg_eligible = [], lg_excluded = [],
     lg_interval = None, lg_notice_spoken_for = None\<rparr>"

definition legacy_use :: "corner list \<Rightarrow> string \<times> instant \<Rightarrow> rot_exn + use_row" where
  "legacy_use cat s = after (timestamp (snd s)) (\<lambda>t. Inr
     \<lparr>us_corner = (case find (\<lambda>c. cr_game c = fst s) cat of Some c \<Rightarrow> cr_id c | None \<Rightarrow> fst s),
      us_at = t, us_source = ''legacy''\<rparr>)"

definition import_legacy :: "rot_env \<Rightarrow> rat \<Rightarrow> legacy_rotation \<Rightarrow> ledger \<Rightarrow> rot_exn + ledger" where
  "import_legacy E now r L =
     (if lr_schema r \<noteq> 1 \<or> lr_pending r \<or> lr_status r \<in> set busy_statuses then Inl wrong
      else after (each (legacy_use (re_catalog E)) (lr_selections r)) (\<lambda>rows.
           after (case lr_next_due r of None \<Rightarrow> Inr (lg_next_due_at L)
                  | Some v \<Rightarrow> after (timestamp v) (\<lambda>t. Inr (max now t))) (\<lambda>due.
           Inr (L\<lparr>lg_history := rows, lg_next_due_at := due\<rparr>))))"

definition first_ledger :: "rot_env \<Rightarrow> rat \<Rightarrow> ledger rot" where
  "first_ledger E now =
     bnd (any_owned E (corner_ids E)) (\<lambda>owned.
     if owned then raise wrong
     else bnd (initial_known E legacy_files (List.map (\<lambda>c. (cr_id c, known_of c)) (re_catalog E))) (\<lambda>kn.
     bnd (consider_it (re_legacy E)) (\<lambda>d. case d of
       None \<Rightarrow> ret (blank_ledger E now kn)
     | Some Unreadable \<Rightarrow> raise wrong
     | Some (Stored r) \<Rightarrow> lift (import_legacy E now r (blank_ledger E now kn)))))"

definition load_ledger :: "rot_env \<Rightarrow> rat \<Rightarrow> unit rot" where
  "load_ledger E now = bnd (asks cm_disk) (\<lambda>d. bnd
     (case d of
        None \<Rightarrow> first_ledger E now
      | Some Unreadable \<Rightarrow> raise wrong
      | Some (Stored L) \<Rightarrow> bnd (lift (check_ledger L)) (\<lambda>_. ret L))
     (\<lambda>L. edit (\<lambda>_. L)))"

section \<open>The memory of the catalog\<close>

definition retire_known :: "corner \<Rightarrow> (string \<times> known_corner) list \<Rightarrow> (string \<times> known_corner) list" where
  "retire_known c kn = (case map_of kn (cr_id c) of
       Some p \<Rightarrow> if (kc_adapter p, kc_game p) \<noteq> (cr_adapter c, cr_game c)
         then set_default (''retired:'' @ cr_id c @ '':'' @ kc_game p) p kn else kn
     | None \<Rightarrow> kn)"

fun remember_catalog :: "corner list \<Rightarrow> (string \<times> known_corner) list \<Rightarrow> (string \<times> known_corner) list" where
  "remember_catalog [] kn = kn"
| "remember_catalog (c # cs) kn = remember_catalog cs (AList.update (cr_id c) (known_of c) (retire_known c kn))"

section \<open>The inbox of manual requests\<close>

definition read_inbox :: "reservation option rot" where
  "read_inbox = bnd (asks cm_inbox) (\<lambda>d. case d of
       None \<Rightarrow> ret None
     | Some Unreadable \<Rightarrow> raise (refused ''state_unavailable'')
     | Some (Stored r) \<Rightarrow> bnd (lift (queued_ok r)) (\<lambda>_. ret (Some r)))"

definition unlink_inbox :: "rot_env \<Rightarrow> unit rot" where
  "unlink_inbox E = bnd (consider_it (re_unlinks E)) (\<lambda>ok.
     if ok then alter (\<lambda>m. m\<lparr>cm_inbox := None\<rparr>) else raise (OtherFailure None))"

text \<open>\<open>_import_manual_queue\<close>; a request that is not due yet stays in the inbox and is returned.\<close>

definition import_manual :: "rot_env \<Rightarrow> rat \<Rightarrow> reservation option rot" where
  "import_manual E now = bnd read_inbox (\<lambda>d. case d of
       None \<Rightarrow> ret None
     | Some r \<Rightarrow>
         if (case rv_trigger_at r of None \<Rightarrow> False | Some t \<Rightarrow> now < t) then ret (Some r)
         else bnd (mem lg_queued_manual) (\<lambda>cur.
           if cur \<noteq> None \<and> cur \<noteq> Some r then raise (refused ''manual_queue_conflict'')
           else thn (edit (\<lambda>L. L\<lparr>lg_queued_manual := Some r\<rparr>))
                (thn (save_ledger E) (thn (unlink_inbox E) (ret None)))))"

end
