(* ===== verification/CornerSelection.thy ===== *)
theory CornerSelection
  imports CornerLedger
begin

text \<open>
  Which corner comes next: the corners that can run, the rolling cooldown, the seeded ranking, and
  the notice that promises the next corner ahead of its time.
\<close>

section \<open>Corners that can run\<close>

definition state_path_blocked :: "rot_env \<Rightarrow> string \<Rightarrow> bool rot" where
  "state_path_blocked E c = asks (\<lambda>m. case ra_state_path E c of
       None \<Rightarrow> False | Some p \<Rightarrow> c \<in> set (corner_ids E) \<and> p \<in> set (cm_unretired m))"

definition paused :: "rot_env \<Rightarrow> corner \<Rightarrow> bool rot" where
  "paused E c = (if \<not> cr_enabled c \<or> cr_paused c then ret True
     else consider_it (\<lambda>n. re_pause_file E n (cr_id c)))"

definition why_excluded :: "rot_env \<Rightarrow> bool \<Rightarrow> corner \<Rightarrow> string option rot" where
  "why_excluded E include_manual c =
     bnd (paused E c) (\<lambda>off. if off then ret (Some ''disabled-or-paused'') else
     bnd (state_path_blocked E (cr_id c)) (\<lambda>blocked. if blocked then ret (Some ''released-owner-unretired'')
     else if cr_manual_only c \<and> \<not> include_manual then ret (Some ''manual-only'')
     else bnd (or_else (consult (\<lambda>n. ra_eligible E n (cr_id c))) False) (\<lambda>ok.
       ret (if ok then None else Some ''adapter-unavailable''))))"

fun split_eligible :: "rot_env \<Rightarrow> bool \<Rightarrow> corner list \<Rightarrow> (string list \<times> (string \<times> string) list) rot" where
  "split_eligible E im [] = ret ([], [])"
| "split_eligible E im (c # cs) = bnd (why_excluded E im c) (\<lambda>why.
     bnd (split_eligible E im cs) (\<lambda>(ok, no). ret (case why of
       None \<Rightarrow> (cr_id c # ok, no) | Some w \<Rightarrow> (ok, (cr_id c, w) # no))))"

definition eligible_corners :: "rot_env \<Rightarrow> bool \<Rightarrow> (string list \<times> (string \<times> string) list) rot" where
  "eligible_corners E include_manual = split_eligible E include_manual (sort_key cr_id (re_catalog E))"

definition target_interval :: "rot_env \<Rightarrow> string list \<Rightarrow> rat option" where
  "target_interval E eligible = (case re_configured_interval E of
       Some q \<Rightarrow> Some q
     | None \<Rightarrow> if eligible = [] then None else Some (day / of_nat (length eligible)))"

section \<open>The rolling cooldown\<close>

definition cooling :: "rat \<Rightarrow> use_row list \<Rightarrow> rat \<Rightarrow> string \<Rightarrow> bool" where
  "cooling cd history t c \<longleftrightarrow> (\<exists>r\<in>set history. us_corner r = c \<and> t - cd < us_at r)"

definition auto_candidates :: "rat \<Rightarrow> use_row list \<Rightarrow> string list \<Rightarrow> rat \<Rightarrow> string option \<Rightarrow> string list" where
  "auto_candidates cd history eligible t reserved =
     filter (\<lambda>c. \<not> cooling cd history t c \<and> Some c \<noteq> reserved) eligible"

definition least :: "rat list \<Rightarrow> rat option" where
  "least qs = (case qs of [] \<Rightarrow> None | q # r \<Rightarrow> Some (fold min r q))"

definition cooldown_due_at :: "rat \<Rightarrow> use_row list \<Rightarrow> string list \<Rightarrow> rat \<Rightarrow> rat option" where
  "cooldown_due_at cd history eligible now =
     least (List.map (\<lambda>r. us_at r + cd) (filter (\<lambda>r. us_corner r \<in> set eligible \<and> now - cd < us_at r) history))"

section \<open>The ranking\<close>

definition rank_of :: "rot_env \<Rightarrow> ledger \<Rightarrow> string \<Rightarrow> string" where
  "rank_of E L c = re_digest E (lg_seed L @ '':'' @ json_int (lg_slot L) @ '':'' @ c)"

text \<open>\<open>min(xs, key=f)\<close>: the first of the least.\<close>

fun first_least :: "('a \<Rightarrow> 'b::linorder) \<Rightarrow> 'a list \<Rightarrow> 'a option" where
  "first_least f [] = None"
| "first_least f (x # xs) = (case first_least f xs of
     None \<Rightarrow> Some x | Some y \<Rightarrow> Some (if f y < f x then y else x))"

definition pick :: "rot_env \<Rightarrow> ledger \<Rightarrow> string list \<Rightarrow> string option" where
  "pick E L candidates = first_least (rank_of E L) candidates"

section \<open>The advance notice\<close>

definition planned_notice :: "rot_env \<Rightarrow> ledger \<Rightarrow> notice option \<Rightarrow> rat \<Rightarrow> string list \<Rightarrow>
    rot_exn + (string \<times> rat \<times> string) option" where
  "planned_notice E L current now eligible = (case current of None \<Rightarrow> Inr None | Some n \<Rightarrow>
     if nt_source n \<noteq> ''auto'' \<or> notice_max_age < now - nt_updated_at n then Inr None
     else after (timestamp (Secs (of_int (nt_due_at n)))) (\<lambda>due.
       if nt_corner n \<in> set (auto_candidates (re_cooldown E) (lg_history L) eligible (max due now) None)
       then Inr (Some (nt_corner n, due, ''auto'')) else Inr None))"

definition drawn_notice :: "rot_env \<Rightarrow> ledger \<Rightarrow> rat \<Rightarrow> string list \<Rightarrow> rot_exn + (string \<times> rat \<times> string) option" where
  "drawn_notice E L now eligible =
     after (timestamp (Secs (lg_next_due_at L))) (\<lambda>stored.
     after (case lg_last_slot_at L of None \<Rightarrow> Inr stored
            | Some q \<Rightarrow> after (timestamp (Secs q)) (\<lambda>t. Inr (t + (case target_interval E eligible of Some i \<Rightarrow> i | None \<Rightarrow> 0)))) (\<lambda>due.
     let here = auto_candidates (re_cooldown E) (lg_history L) eligible (max due now) None
     in if here \<noteq> [] then Inr (map_option (\<lambda>c. (c, due, ''auto'')) (pick E L here))
        else (case cooldown_due_at (re_cooldown E) (lg_history L) eligible now of
            None \<Rightarrow> Inr None
          | Some later \<Rightarrow> Inr (map_option (\<lambda>c. (c, later, ''auto''))
              (pick E L (auto_candidates (re_cooldown E) (lg_history L) eligible later None))))))"

definition next_corner_notice :: "rot_env \<Rightarrow> ledger \<Rightarrow> notice option \<Rightarrow> rat \<Rightarrow> string list \<Rightarrow>
    reservation option \<Rightarrow> rot_exn + (string \<times> rat \<times> string) option" where
  "next_corner_notice E L current now eligible future =
     after (case (case future of Some r \<Rightarrow> Some r | None \<Rightarrow> lg_queued_manual L) of
         None \<Rightarrow> Inr None
       | Some r \<Rightarrow> (case rv_trigger_at r of None \<Rightarrow> Inr None
           | Some t \<Rightarrow> after (timestamp (Secs t)) (\<lambda>t. Inr (Some (rv_corner r, t, ''manual''))))) (\<lambda>manual.
     after (if re_queue_mode E \<or> eligible = [] then Inr None
         else after (planned_notice E L current now eligible) (\<lambda>p. case p of
             Some d \<Rightarrow> Inr (Some d) | None \<Rightarrow> drawn_notice E L now eligible)) (\<lambda>auto.
     Inr (case (manual, auto) of
         (Some (c, t, s), Some (c', t', s')) \<Rightarrow> if t \<le> t' then manual else auto
       | (Some d, None) \<Rightarrow> manual
       | (None, x) \<Rightarrow> auto)))"

definition background_game :: string where
  "background_game = ''sorengame''"

definition sorengame_on_air :: "rot_env \<Rightarrow> bool rot" where
  "sorengame_on_air E = bnd (consider_it (re_active_game E)) (\<lambda>g. ret (case g of
       None \<Rightarrow> True | Some g \<Rightarrow> g = [] \<or> g = background_game))"

definition withdrawn :: "rot_env \<Rightarrow> notice option rot" where
  "withdrawn E = thn (clear_notice E) (ret None)"

definition decide_notice :: "rot_env \<Rightarrow> rat \<Rightarrow> string list \<Rightarrow> reservation option \<Rightarrow> notice option rot" where
  "decide_notice E now eligible future = bnd (mem (\<lambda>L. L)) (\<lambda>L.
     if lg_pending L \<noteq> None \<or> lg_manual_pending L \<noteq> None then withdrawn E else
     bnd (sorengame_on_air E) (\<lambda>on_air. if \<not> on_air then withdrawn E else
     bnd notice_now (\<lambda>current.
     bnd (lift (next_corner_notice E L current now eligible future)) (\<lambda>d. case d of
       None \<Rightarrow> withdrawn E
     | Some (c, due, src) \<Rightarrow> bnd (lift (timestamp (Secs due))) (\<lambda>t.
         if t - now < notice_min_lead \<and> map_option nt_corner current \<noteq> Some c then withdrawn E
         else bnd (consider_it (re_prediction_hold E)) (\<lambda>hold.
           bnd (publish_notice E c due src (if hold then Some ''prediction'' else None) now) (\<lambda>n. ret (Some n))))))))"

definition speak_window :: rat where "speak_window = 1800"

definition speak_due :: "ledger \<Rightarrow> notice \<Rightarrow> rat \<Rightarrow> string option" where
  "speak_due L n now = (case lg_last_result L of None \<Rightarrow> None | Some r \<Rightarrow>
     if nt_hold n \<noteq> None \<or> sr_status r \<notin> {''completed'', ''interrupted'', ''expired''}
        \<or> sr_request_id r = [] \<or> lg_notice_spoken_for L = Some (sr_request_id r) then None
     else (case (timestamp (Secs (sr_at r)), timestamp (Secs (of_int (nt_due_at n)))) of
         (Inr ended, Inr due) \<Rightarrow>
           if 0 \<le> now - ended \<and> now - ended \<le> speak_window \<and> notice_min_lead \<le> due - now
           then Some (sr_request_id r) else None
       | _ \<Rightarrow> None))"

definition speak_notice_once :: "rot_env \<Rightarrow> notice \<Rightarrow> rat \<Rightarrow> unit rot" where
  "speak_notice_once E n now = bnd (mem (\<lambda>L. speak_due L n now)) (\<lambda>d. case d of
       None \<Rightarrow> ret ()
     | Some rid \<Rightarrow> thn (edit (\<lambda>L. L\<lparr>lg_notice_spoken_for := Some rid\<rparr>))
         (or_else (consult (\<lambda>k. re_speech E k (speech_text n now))) ()))"

definition sync_notice :: "rot_env \<Rightarrow> rat \<Rightarrow> string list \<Rightarrow> reservation option \<Rightarrow> unit rot" where
  "sync_notice E now eligible future = bnd (or_else (decide_notice E now eligible future) None) (\<lambda>r. case r of
       None \<Rightarrow> ret ()
     | Some n \<Rightarrow> or_else (speak_notice_once E n now) ())"

end
