(* ===== verification/CornerRelease.thy ===== *)
theory CornerRelease
  imports CornerSelection
begin

text \<open>
  What the manager proves about a corner before it lets the next one run: the end of a run
  (\<open>finished_owner\<close>), the free program slot (\<open>slot_reusable\<close>), the observation of all corners
  (\<open>observe_corners\<close>), the terminal commit of a reservation, and the release of a failed corner
  with its bounded records.
\<close>

section \<open>Bounded records\<close>

definition failed_corner_limit :: nat where "failed_corner_limit = 16"
definition released_corner_limit :: nat where "released_corner_limit = 32"

definition released_reason :: string where "released_reason = ''failed-corner-slot-released''"

definition failed_resolutions :: "string list" where
  "failed_resolutions = [''released-unverified'', ''recovery-required'']"

definition failed_reasons :: "string list" where
  "failed_reasons = [released_reason, ''execution-or-state-unverified'', ''base-game-unrestored'',
     ''restore-recovery-exhausted'', ''terminal-owner-absent'', ''stale-owner-admin-released'']"

definition keep_last :: "nat \<Rightarrow> 'a list \<Rightarrow> 'a list" where
  "keep_last n xs = drop (length xs - n) xs"

definition failed_row_of :: "string \<Rightarrow> string \<Rightarrow> string \<Rightarrow> string \<Rightarrow> rat \<Rightarrow> string option \<Rightarrow> failed_row" where
  "failed_row_of c rid resolution kind now reason =
     \<lparr>fr_corner = c, fr_request_id = rid, fr_at = now,
      fr_resolution = (if resolution \<in> set failed_resolutions then resolution else ''recovery-required''),
      fr_reason = (case reason of
          Some r \<Rightarrow> if r \<in> set failed_reasons then r
            else if resolution = ''released-unverified'' then released_reason else ''execution-or-state-unverified''
        | None \<Rightarrow> if resolution = ''released-unverified'' then released_reason else ''execution-or-state-unverified''),
      fr_kind = (if kind \<in> set error_kinds then kind else ''unexpected'')\<rparr>"

definition record_failed :: "string \<Rightarrow> string \<Rightarrow> string \<Rightarrow> string \<Rightarrow> rat \<Rightarrow> string option \<Rightarrow> ledger \<Rightarrow> ledger" where
  "record_failed c rid resolution kind now reason L = L\<lparr>lg_failed_corners :=
     keep_last failed_corner_limit (lg_failed_corners L @ [failed_row_of c rid resolution kind now reason])\<rparr>"

definition record_failed_once :: "string \<Rightarrow> string \<Rightarrow> string \<Rightarrow> string \<Rightarrow> rat \<Rightarrow> string option \<Rightarrow> ledger \<Rightarrow> ledger" where
  "record_failed_once c rid resolution kind now reason L =
     (if \<exists>r\<in>set (lg_failed_corners L). fr_request_id r = rid then L
      else record_failed c rid resolution kind now reason L)"

definition oldest_released :: "(string \<times> (string \<times> rat)) list \<Rightarrow> string list" where
  "oldest_released al = take (length al - released_corner_limit) (List.map fst (sort_key (\<lambda>(k, r, t). t) al))"

definition mark_released :: "rot_env \<Rightarrow> string \<Rightarrow> string \<Rightarrow> rat \<Rightarrow> ledger \<Rightarrow> ledger" where
  "mark_released E c rid now L =
     (let allowed = corner_ids E @ List.map fst (lg_known L);
          al = AList.update c (rid, now) (filter (\<lambda>(k, v). k \<in> set allowed) (lg_released L));
          old = oldest_released al
      in L\<lparr>lg_released := filter (\<lambda>(k, v). k \<notin> set old) al\<rparr>)"

section \<open>The end of a run and the shared slot\<close>

fun ended_run :: "string \<Rightarrow> obs list \<Rightarrow> bool" where
  "ended_run rid [] = False"
| "ended_run rid (raw # raws) =
     (if ob_request_id raw \<noteq> Some rid then ended_run rid raws
      else if ob_status raw \<in> {''completed'', ''interrupted'', ''expired'', ''idle''} then True
      else if ob_status raw = ''failed'' then ob_started_at raw \<noteq> None
      else ended_run rid raws)"

definition finished_owner :: "rot_env \<Rightarrow> string \<Rightarrow> string \<Rightarrow> bool rot" where
  "finished_owner E c rid = (if rid = [] then ret False
     else bnd (or_else (consult (\<lambda>n. ra_observations E n c)) []) (\<lambda>raws. ret (ended_run rid raws)))"

text \<open>The game of the adapter's corner; a retired observer has none.\<close>

definition corner_game :: "rot_env \<Rightarrow> string \<Rightarrow> string option" where
  "corner_game E c = (case find (\<lambda>r. cr_id r = c) (re_catalog E) of
       None \<Rightarrow> None | Some r \<Rightarrow> if cr_game r = [] then None else Some (cr_game r))"

definition read_plane :: "(nat \<Rightarrow> plane) \<Rightarrow> (cstate \<times> bool) rot" where
  "read_plane f = consult (\<lambda>n. case f n of
       PlaneBusy \<Rightarrow> Inl (CornerFailure None) | PlaneFailed x \<Rightarrow> Inl x | Plane st missing \<Rightarrow> Inr (st, missing))"

definition leftover_game :: "rot_env \<Rightarrow> string \<Rightarrow> string \<Rightarrow> bool rot" where
  "leftover_game E c rid = (case corner_game E c of
       None \<Rightarrow> ret False
     | Some game \<Rightarrow> if rid = [] \<or> \<not> ra_has_store E c then ret False else
         bnd (or_else (bnd (read_plane (\<lambda>n. ra_plane E n c)) (\<lambda>p. ret (Some p))) None) (\<lambda>p. case p of
           None \<Rightarrow> ret False
         | Some (st, missing) \<Rightarrow>
             if missing \<or> map_option rt_game (cs_active st) \<noteq> Some game then ret False
             else finished_owner E c rid))"

text \<open>The canonical state is stable on a complete runtime and nothing is in flight.\<close>

definition plane_settled :: "cstate \<Rightarrow> bool" where
  "plane_settled st \<longleftrightarrow> cs_phase st \<in> {Idle, Ready} \<and> cs_operation st = None \<and> cs_request_id st = None \<and>
     cs_deadline_at st = None \<and> cs_candidate st = None \<and> cs_previous st = None \<and> cs_retiring st = [] \<and>
     (case cs_active st of None \<Rightarrow> False
      | Some r \<Rightarrow> rt_game r \<noteq> [] \<and> rt_runtime_id r \<noteq> [] \<and> rt_lease_id r \<noteq> None \<and> rt_lease_id r \<noteq> Some []
          \<and> 1 \<le> rt_generation r)"

definition resources_free :: "rot_env \<Rightarrow> string \<Rightarrow> bool rot" where
  "resources_free E c = consult (\<lambda>n. ra_released E n c)"

definition slot_reusable :: "rot_env \<Rightarrow> string \<Rightarrow> string \<Rightarrow> bool rot" where
  "slot_reusable E c rid =
     (if rid = [] \<or> \<not> ra_has_store E c then ret False else
      bnd (or_else (bnd (read_plane (\<lambda>n. ra_plane E n c)) (\<lambda>p.
             bnd (consult (\<lambda>n. ra_receipt E n c rid)) (\<lambda>r. ret (Some (p, r))))) None) (\<lambda>v. case v of
        None \<Rightarrow> ret False
      | Some ((st, missing), (receipt, queued)) \<Rightarrow>
          if missing \<or> \<not> plane_settled st then ret False else
          bnd (if corner_game E c \<noteq> None \<and> map_option rt_game (cs_active st) = corner_game E c
               then finished_owner E c rid else ret True) (\<lambda>reclaimable.
          if \<not> reclaimable \<or> (case receipt of None \<Rightarrow> False | Some s \<Rightarrow> \<not> terminal s) \<or> rid \<in> set queued
          then ret False
          else or_else (resources_free E c) False)))"

section \<open>Observation\<close>

definition observers :: "rot_env \<Rightarrow> ledger \<Rightarrow> (string \<times> string) list" where
  "observers E L = List.map (\<lambda>c. (c, c)) (corner_ids E) @
     List.map (\<lambda>(k, r). (k, kc_id r)) (filter (\<lambda>(k, r). k \<notin> set (corner_ids E)) (lg_known L))"

definition terminal_reasons :: "string list" where
  "terminal_reasons = [''game_over'', ''screen_stalled'', ''input_stalled'']"

definition owner_stale :: rat where "owner_stale = 300"

definition run_reason :: "rot_env \<Rightarrow> obs \<Rightarrow> string option rot" where
  "run_reason E raw = (case ob_end_reason raw of
       Some r \<Rightarrow> if r \<in> set terminal_reasons then ret (Some r) else
         (case ob_bot_runtime_id raw of None \<Rightarrow> ret None | Some rid \<Rightarrow>
            if rid = [] then ret None else or_else (consult (\<lambda>n. ra_terminal_record E n rid)) None)
     | None \<Rightarrow> (case ob_bot_runtime_id raw of None \<Rightarrow> ret None | Some rid \<Rightarrow>
            if rid = [] then ret None else or_else (consult (\<lambda>n. ra_terminal_record E n rid)) None))"

definition truthy_or :: "string option \<Rightarrow> string \<Rightarrow> string" where
  "truthy_or x d = (case x of None \<Rightarrow> d | Some s \<Rightarrow> if s = [] then d else s)"

definition notice_unowned :: "rot_env \<Rightarrow> string \<Rightarrow> obs \<Rightarrow> rat \<Rightarrow> unit rot" where
  "notice_unowned E c raw now =
     (if ob_status raw \<noteq> ''active'' \<or> ob_game raw \<noteq> Some ''hanjuku-hero'' then ret () else
      bnd (run_reason E raw) (\<lambda>reason.
      if (case reason of None \<Rightarrow> True | Some r \<Rightarrow> r \<notin> set terminal_reasons) \<or> ra_state_path E c = None then ret () else
      bnd (consider_it (\<lambda>n. ra_last_write E n c)) (\<lambda>newest. case newest of
        None \<Rightarrow> ret ()
      | Some t \<Rightarrow> if now - t < owner_stale then ret ()
          else edit (record_failed_once c (truthy_or (ob_request_id raw) (truthy_or (ob_bot_runtime_id raw) ''unknown''))
                 ''recovery-required'' ''execution-unverified'' now (Some ''terminal-owner-absent'')))))"

definition release_audited :: "ledger \<Rightarrow> string \<Rightarrow> string \<Rightarrow> obs \<Rightarrow> bool" where
  "release_audited L c rid raw \<longleftrightarrow>
     map_option fst (map_of (lg_released L) c) = Some rid \<or>
     (\<exists>r\<in>set (lg_failed_corners L). fr_corner r = c \<and> fr_request_id r = rid \<and> fr_resolution r = ''released-unverified'') \<or>
     ob_settle_pending raw = Some (rid, c)"

definition settle_released :: "rot_env \<Rightarrow> string \<Rightarrow> string \<Rightarrow> settle_answer rot" where
  "settle_released E c rid = or_else (consult (\<lambda>n. ra_settle E n c rid)) Kept"

definition release_owner :: "rot_env \<Rightarrow> string \<Rightarrow> unit rot" where
  "release_owner E c = (if ra_state_path E c = None then ret ()
     else bnd (or_else (consult (\<lambda>n. ra_release_owner E n c)) False) (\<lambda>_. ret ()))"

definition block_path :: "rot_env \<Rightarrow> string \<Rightarrow> unit rot" where
  "block_path E c = (case ra_state_path E c of None \<Rightarrow> ret ()
     | Some p \<Rightarrow> alter (\<lambda>m. m\<lparr>cm_unretired := List.insert p (cm_unretired m)\<rparr>))"

definition foreign_busy :: "rot_env \<Rightarrow> string \<Rightarrow> obs \<Rightarrow> bool rot" where
  "foreign_busy E c raw = (case ob_request_id raw of None \<Rightarrow> ret True | Some rid \<Rightarrow>
     bnd (mem (\<lambda>L. release_audited L c rid raw)) (\<lambda>audited.
     if \<not> audited then ret True else
     bnd (slot_reusable E c rid) (\<lambda>free.
     if \<not> free then ret True else
     bnd (settle_released E c rid) (\<lambda>answer.
     thn (whenM (answer \<noteq> Retired \<and> c \<in> set (corner_ids E)) (block_path E c))
     (thn (whenM (answer \<noteq> Deferred) (release_owner E c)) (ret False))))))"

definition latest_stamp :: "obs \<Rightarrow> rot_exn + rat option" where
  "latest_stamp raw = after (each timestamp (List.map the (filter (\<lambda>v. v \<noteq> None) [ob_started_at raw, ob_completed_at raw])))
     (\<lambda>ts. Inr (case ts of [] \<Rightarrow> None | t # r \<Rightarrow> Some (fold max r t)))"

definition last_use :: "string \<Rightarrow> use_row list \<Rightarrow> rat" where
  "last_use c history = (case List.map us_at (filter (\<lambda>r. us_corner r = c) history) of
       [] \<Rightarrow> - 1 | t # r \<Rightarrow> fold max r t)"

definition add_use :: "string \<Rightarrow> rat \<Rightarrow> string \<Rightarrow> ledger \<Rightarrow> ledger" where
  "add_use c t src L = L\<lparr>lg_history := lg_history L @ [\<lparr>us_corner = c, us_at = t, us_source = src\<rparr>]\<rparr>"

definition import_use :: "string \<Rightarrow> rat \<Rightarrow> rat option \<Rightarrow> ledger \<Rightarrow> ledger" where
  "import_use c now latest L = (case latest of None \<Rightarrow> L | Some t \<Rightarrow>
     if last_use c (lg_history L) < min t now then add_use c (min t now) ''execution'' L else L)"

fun observe_raws :: "rot_env \<Rightarrow> rat \<Rightarrow> string \<Rightarrow> string \<Rightarrow> obs list \<Rightarrow> bool rot" where
  "observe_raws E now c hid [] = ret False"
| "observe_raws E now c hid (raw # raws) =
     thn (unless (is_busy raw \<or> is_over raw) (of_kind ''adapter-state''))
     (thn (or_else (notice_unowned E c raw now) ())
     (bnd (mem (\<lambda>L. case lg_pending L of None \<Rightarrow> False | Some p \<Rightarrow> ob_request_id raw = Some (rv_request_id p))) (\<lambda>own.
      bnd (if is_busy raw \<and> \<not> own then foreign_busy E c raw else ret False) (\<lambda>busy.
      bnd (lift (latest_stamp raw)) (\<lambda>latest.
      thn (edit (import_use hid now latest))
      (bnd (observe_raws E now c hid raws) (\<lambda>more. ret (busy \<or> more))))))))"

fun observe_from :: "rot_env \<Rightarrow> rat \<Rightarrow> (string \<times> string) list \<Rightarrow> bool rot" where
  "observe_from E now [] = ret False"
| "observe_from E now ((c, hid) # os) =
     bnd (consult (\<lambda>n. ra_terminal_failures_ok E n c)) (\<lambda>ok.
     bnd (resources_free E c) (\<lambda>free.
     bnd (consult (\<lambda>n. ra_observations E n c)) (\<lambda>raws.
     bnd (observe_raws E now c hid raws) (\<lambda>busy.
     bnd (observe_from E now os) (\<lambda>more. ret (\<not> ok \<or> \<not> free \<or> busy \<or> more))))))"

definition observe_corners :: "rot_env \<Rightarrow> rat \<Rightarrow> bool rot" where
  "observe_corners E now = thn (alter (\<lambda>m. m\<lparr>cm_unretired := []\<rparr>))
     (bnd (mem (observers E)) (observe_from E now))"

end
