(* ===== verification/CornerOutcome.thy ===== *)
theory CornerOutcome
  imports CornerRelease
begin

text \<open>
  The ends of a reservation: the terminal commit from what the adapter observes, the proof that a
  failed start was rolled back, the release of a failed corner whose slot is free, and the bounded
  replay of a restore.  Each leaves the ledger in memory; the callers write it.
\<close>

record tick_outcome =
  tk_status :: string
  tk_corner :: "string option"
  tk_reason :: "string option"
  tk_result :: "string option"
  tk_resumed :: bool
  tk_recovered :: bool

definition outcome_at :: "string \<Rightarrow> tick_outcome" where
  "outcome_at s = \<lparr>tk_status = s, tk_corner = None, tk_reason = None, tk_result = None,
     tk_resumed = False, tk_recovered = False\<rparr>"

definition waits_for :: "string \<Rightarrow> tick_outcome" where
  "waits_for reason = outcome_at ''waiting'' \<lparr>tk_reason := Some reason\<rparr>"

definition mark_waiting :: "string \<Rightarrow> ledger \<Rightarrow> ledger" where
  "mark_waiting reason L = L\<lparr>lg_status := ''waiting'', lg_reason := Some reason\<rparr>"

definition wait_with :: "rot_env \<Rightarrow> string \<Rightarrow> tick_outcome rot" where
  "wait_with E reason = thn (edit (mark_waiting reason)) (thn (save_ledger E) (ret (waits_for reason)))"

section \<open>The terminal commit\<close>

definition observed_of :: "rot_env \<Rightarrow> string \<Rightarrow> string \<Rightarrow> obs list rot" where
  "observed_of E c rid = bnd (consult (\<lambda>n. ra_observations E n c)) (\<lambda>raws.
     ret (filter (\<lambda>raw. ob_request_id raw = Some rid) raws))"

text \<open>\<open>max(owned, key=stamp)\<close>: the first of the latest.\<close>

fun latest_obs :: "(rat \<times> obs) list \<Rightarrow> (rat \<times> obs) option" where
  "latest_obs [] = None"
| "latest_obs (x # xs) = (case latest_obs xs of
     None \<Rightarrow> Some x | Some y \<Rightarrow> Some (if fst x < fst y then y else x))"

definition stamped_obs :: "obs \<Rightarrow> rot_exn + rat \<times> obs" where
  "stamped_obs raw = after (latest_stamp raw) (\<lambda>t. Inr (case t of None \<Rightarrow> - 1 | Some t \<Rightarrow> t, raw))"

definition commit_terminal :: "reservation \<Rightarrow> bool \<Rightarrow> obs \<Rightarrow> rat \<Rightarrow> rat option \<Rightarrow> rat \<Rightarrow> ledger \<Rightarrow> ledger" where
  "commit_terminal r manual raw finished started now L =
     (let L = (case started of None \<Rightarrow> L | Some t \<Rightarrow>
            L\<lparr>lg_last_slot_at := Some (max (max (case lg_last_slot_at L of None \<Rightarrow> t | Some p \<Rightarrow> p) t) finished)\<rparr>);
          L = (if manual
            then (let L = L\<lparr>lg_manual_pending := None\<rparr>
                  in if ob_status raw = ''completed'' then add_use (rv_corner r) (max now finished) ''manual-completion'' L else L)
            else add_use (rv_corner r) (max now finished) ''completion'' (L\<lparr>lg_pending := None\<rparr>))
      in L\<lparr>lg_last_seen_at := now, lg_status := ''ready'', lg_reason := None,
           lg_last_result := Some \<lparr>sr_corner = rv_corner r, sr_request_id = rv_request_id r,
             sr_status = ob_status raw, sr_at = finished\<rparr>\<rparr>)"

definition unobserved :: "rot_env \<Rightarrow> reservation \<Rightarrow> rat \<Rightarrow> bool \<Rightarrow> tick_outcome rot" where
  "unobserved E r now manual =
     (let park = (\<lambda>reason L. mark_waiting reason (L\<lparr>lg_last_seen_at := now\<rparr>)) in
      if manual then
        thn (edit (park ''manual-request-needs-resume-or-recovery''))
        (ret ((waits_for ''manual-request-needs-resume-or-recovery'')\<lparr>tk_corner := Some (rv_corner r)\<rparr>))
      else bnd (observe_corners E now) (\<lambda>busy.
        if busy then thn (edit (park ''other-corner-needs-finish-or-recovery''))
          (ret (waits_for ''other-corner-needs-finish-or-recovery''))
        else thn (edit (park ''execution-pending''))
          (ret ((waits_for ''execution-pending'')\<lparr>tk_corner := Some (rv_corner r), tk_resumed := True\<rparr>))))"

definition resolve_reservation :: "rot_env \<Rightarrow> reservation \<Rightarrow> rat \<Rightarrow> bool \<Rightarrow> tick_outcome rot" where
  "resolve_reservation E r now manual =
     bnd (observed_of E (rv_corner r) (rv_request_id r)) (\<lambda>owned.
     if list_ex is_busy owned then raise (of_kind ''execution-unverified'')
     else bnd (lift (each stamped_obs owned)) (\<lambda>stamped. case latest_obs stamped of
       None \<Rightarrow> unobserved E r now manual
     | Some (_, raw) \<Rightarrow>
         thn (unless (is_over raw) (of_kind ''adapter-state''))
         (bnd (lift (case ob_completed_at raw of None \<Rightarrow> Inr now | Some v \<Rightarrow> timestamp v)) (\<lambda>done_at.
          bnd (lift (case ob_started_at raw of None \<Rightarrow> Inr None | Some v \<Rightarrow> after (timestamp v) (\<lambda>t. Inr (Some t)))) (\<lambda>started.
          thn (edit (commit_terminal r manual raw (min done_at now) started now))
          (ret ((outcome_at ''ready'')\<lparr>tk_corner := Some (rv_corner r), tk_result := Some (ob_status raw),
             tk_recovered := True\<rparr>)))))))"

section \<open>A failed start that was rolled back\<close>

definition reconcile_failed_start :: "rot_env \<Rightarrow> reservation \<Rightarrow> bool \<Rightarrow> rat \<Rightarrow> rat option rot" where
  "reconcile_failed_start E r manual now =
     (if rv_corner r \<notin> set (corner_ids E) then ret None else
      case ra_reconcile_start E (rv_corner r) of
        None \<Rightarrow> ret None
      | Some f \<Rightarrow> if manual \<and> rv_state_file r = None then ret None else
          bnd (consult (\<lambda>n. f n (rv_request_id r) (if manual then rv_state_file r else None))) (\<lambda>proved.
          if \<not> proved then ret None else
          bnd (clock_now E) (\<lambda>t. let settled = min t now in
          thn (unless (now \<le> settled) (of_kind ''invalid-state''))
          (bnd (resources_free E (rv_corner r)) (\<lambda>free.
           thn (unless free (of_kind ''execution-unverified'')) (ret (Some settled)))))))"

definition commit_failed_start :: "rot_env \<Rightarrow> reservation \<Rightarrow> bool \<Rightarrow> rat \<Rightarrow> tick_outcome option rot" where
  "commit_failed_start E r manual now = bnd (reconcile_failed_start E r manual now) (\<lambda>s. case s of
       None \<Rightarrow> ret None
     | Some settled \<Rightarrow> thn (edit (\<lambda>L. L\<lparr>lg_last_seen_at := settled\<rparr>))
         (bnd (resolve_reservation E r settled manual) (\<lambda>v. ret (Some v))))"

section \<open>Releasing a failed corner\<close>

definition close_failed :: "reservation \<Rightarrow> rat \<Rightarrow> ledger \<Rightarrow> ledger" where
  "close_failed r now L =
     (let L = add_use (rv_corner r) now ''failure'' L
      in L\<lparr>lg_pending := None, lg_last_seen_at := now, lg_status := ''waiting'', lg_reason := Some released_reason,
           lg_last_result := Some \<lparr>sr_corner = rv_corner r, sr_request_id = rv_request_id r,
             sr_status = ''unverified'', sr_at = now\<rparr>\<rparr>)"

definition release_failed :: "rot_env \<Rightarrow> reservation \<Rightarrow> string \<Rightarrow> rat \<Rightarrow> bool \<Rightarrow> tick_outcome rot" where
  "release_failed E r kind now base_unrestored =
     thn (edit (record_failed (rv_corner r) (rv_request_id r) ''released-unverified'' kind now
       (if base_unrestored then Some ''base-game-unrestored'' else None)))
     (thn (edit (mark_released E (rv_corner r) (rv_request_id r) now))
     (bnd (settle_released E (rv_corner r) (rv_request_id r)) (\<lambda>_.
     thn (release_owner E (rv_corner r))
     (thn (edit (close_failed r now))
     (ret ((waits_for released_reason)\<lparr>tk_corner := Some (rv_corner r), tk_result := Some ''unverified''\<rparr>))))))"

section \<open>The bounded replay of a restore\<close>

definition replay_limit :: int where "replay_limit = 3"

definition replay_backoff :: "int \<Rightarrow> rat" where
  "replay_backoff attempts = [300, 900, 2700] ! nat (min attempts 3 - 1)"

definition replay_statuses :: "string list" where
  "replay_statuses = [''succeeded'', ''queued'', ''failed'', ''noop'', ''interrupted'', ''completed'', ''unknown'', ''none'']"

definition budget_for :: "reservation \<Rightarrow> rat \<Rightarrow> ledger \<Rightarrow> replay_budget" where
  "budget_for r now L =
     (let fresh = \<lparr>rb_request_id = rv_request_id r, rb_corner = rv_corner r, rb_attempts = 0,
            rb_next_at = Some now, rb_last_status = None, rb_exhausted = False\<rparr>;
          b = (case lg_auto_restore L of None \<Rightarrow> fresh
               | Some b \<Rightarrow> if rb_request_id b \<noteq> rv_request_id r then fresh else b)
      in if rb_attempts b < 0 then b\<lparr>rb_attempts := 0\<rparr> else b)"

definition replay_allowed :: "replay_budget \<Rightarrow> rat \<Rightarrow> bool" where
  "replay_allowed b now \<longleftrightarrow> rb_attempts b < replay_limit \<and>
     (case rb_next_at b of None \<Rightarrow> True | Some t \<Rightarrow> t \<le> now)"

definition spend_replay :: "replay_budget \<Rightarrow> string option \<Rightarrow> rat \<Rightarrow> replay_budget" where
  "spend_replay b status now =
     (let n = rb_attempts b + 1
      in b\<lparr>rb_attempts := n,
           rb_last_status := Some (case status of None \<Rightarrow> ''none''
             | Some s \<Rightarrow> if s \<in> set replay_statuses then s else ''unknown''),
           rb_next_at := Some (now + replay_backoff n)\<rparr>)"

definition kind_or :: "ledger \<Rightarrow> string" where
  "kind_or L = truthy_or (lg_error_kind L) ''execution-unverified''"

definition exhaust_replay :: "reservation \<Rightarrow> rat \<Rightarrow> ledger \<Rightarrow> ledger" where
  "exhaust_replay r now L = (case lg_auto_restore L of None \<Rightarrow> L | Some b \<Rightarrow>
     if replay_limit \<le> rb_attempts b \<and> \<not> rb_exhausted b then
       record_failed (rv_corner r) (rv_request_id r) ''recovery-required'' (kind_or L) now (Some ''restore-recovery-exhausted'')
         (L\<lparr>lg_auto_restore := Some (b\<lparr>rb_exhausted := True\<rparr>)\<rparr>)
     else L)"

definition replay_restore :: "rot_env \<Rightarrow> reservation \<Rightarrow> rat \<Rightarrow> tick_outcome option rot" where
  "replay_restore E r now = (case ra_replay_restore E (rv_corner r) of
       None \<Rightarrow> ret None
     | Some run \<Rightarrow>
         thn (edit (\<lambda>L. L\<lparr>lg_auto_restore := Some (budget_for r now L)\<rparr>))
         (bnd (mem (\<lambda>L. budget_for r now L)) (\<lambda>b.
          if \<not> replay_allowed b now then thn (edit (exhaust_replay r now)) (ret None)
          else bnd (or_else (consult run) None) (\<lambda>status.
            thn (edit (\<lambda>L. L\<lparr>lg_auto_restore := Some (spend_replay b status now)\<rparr>))
            (or_else (commit_failed_start E r False now) None)))))"

section \<open>Clearing a latch\<close>

definition auto_release_latch :: "rot_env \<Rightarrow> rat \<Rightarrow> tick_outcome option rot" where
  "auto_release_latch E now = bnd (mem (\<lambda>L. (lg_pending L, lg_manual_pending L))) (\<lambda>(pending, manual).
     case (pending, manual) of
       (Some r, None) \<Rightarrow>
         if rv_corner r \<notin> set (corner_ids E) then ret None else
         bnd (or_else (commit_failed_start E r False now) None) (\<lambda>v. case v of
           Some tk \<Rightarrow> ret (Some tk)
         | None \<Rightarrow>
             bnd (mem kind_or) (\<lambda>kind.
             bnd (leftover_game E (rv_corner r) (rv_request_id r)) (\<lambda>leftover.
             bnd (if leftover then replay_restore E r now else ret None) (\<lambda>replayed. case replayed of
               Some tk \<Rightarrow> ret (Some tk)
             | None \<Rightarrow>
                 bnd (slot_reusable E (rv_corner r) (rv_request_id r)) (\<lambda>free.
                 if free then bnd (release_failed E r kind now leftover) (\<lambda>tk. ret (Some tk))
                 else thn (edit (record_failed_once (rv_corner r) (rv_request_id r) ''recovery-required'' kind now None))
                   (ret None))))))
     | _ \<Rightarrow> ret None)"

end
