(* ===== verification/CornerTick.thy ===== *)
theory CornerTick
  imports CornerOutcome
begin

text \<open>
  \<open>CornerRotationManager.tick\<close>: one step of the scheduler.  The local variable \<open>now\<close>, which the
  handler of the exceptions reads, is \<open>cm_now\<close>; the early returns of the \<open>try\<close> block are the left
  side of a sum.
\<close>

definition now_is :: "rat rot" where
  "now_is = asks cm_now"

definition set_now :: "rat \<Rightarrow> unit rot" where
  "set_now t = alter (\<lambda>m. m\<lparr>cm_now := t\<rparr>)"

definition returning :: "('a + 'b) rot \<Rightarrow> ('b \<Rightarrow> 'a rot) \<Rightarrow> 'a rot" where
  "returning p f = bnd p (\<lambda>r. case r of Inl v \<Rightarrow> ret v | Inr x \<Rightarrow> f x)"

definition early :: "'a rot \<Rightarrow> ('a + 'b) rot" where
  "early p = bnd p (\<lambda>v. ret (Inl v))"

section \<open>The heartbeat of a running slot\<close>

definition heartbeat_fresh :: rat where "heartbeat_fresh = 180"

definition write_heartbeat :: "rot_env \<Rightarrow> reservation \<Rightarrow> unit rot" where
  "write_heartbeat E r = or_else (bnd (consider_it (re_clock E)) (\<lambda>v.
     durable E (\<lambda>m. m\<lparr>cm_heartbeat := Some \<lparr>hb_corner = rv_corner r, hb_request_id = rv_request_id r, hb_at = v\<rparr>\<rparr>))) ()"

definition drop_heartbeat :: "rot_env \<Rightarrow> unit rot" where
  "drop_heartbeat E = bnd (consider_it (re_unlinks E)) (\<lambda>ok. whenM ok (alter (\<lambda>m. m\<lparr>cm_heartbeat := None\<rparr>)))"

text \<open>The heartbeat thread rewrites the record until the process ends; \<open>re_beat\<close> is its last clock.\<close>

definition slot_heartbeat :: "rot_env \<Rightarrow> reservation \<Rightarrow> 'a rot \<Rightarrow> 'a rot" where
  "slot_heartbeat E r p = thn (write_heartbeat E r) (bnd (attempt (\<lambda>_. True) p) (\<lambda>v.
     if v = Inl Died then bnd (consider_it (re_beat E)) (\<lambda>t.
       thn (alter (\<lambda>m. m\<lparr>cm_heartbeat := map_option (\<lambda>h. h\<lparr>hb_at := t\<rparr>) (cm_heartbeat m)\<rparr>)) (raise Died))
     else thn (drop_heartbeat E) (lift v)))"

definition heartbeat_proves :: "ledger \<Rightarrow> heartbeat option \<Rightarrow> rat \<Rightarrow> bool" where
  "heartbeat_proves L hb now \<longleftrightarrow> lg_status L = ''running'' \<and>
     (case (lg_pending L, hb) of
        (Some p, Some h) \<Rightarrow> hb_corner h = rv_corner p \<and> hb_request_id h = rv_request_id p \<and>
          (case hb_at h of Secs t \<Rightarrow> 0 \<le> now - t \<and> now - t \<le> heartbeat_fresh | _ \<Rightarrow> False)
      | _ \<Rightarrow> False)"

section \<open>Execution in the program slot\<close>

definition log_launch :: "reservation \<Rightarrow> bool \<Rightarrow> unit rot" where
  "log_launch r fresh = alter (\<lambda>m. m\<lparr>cm_launches := \<lparr>la_request = r, la_at = cm_now m,
     la_fresh = fresh, la_disk = cm_disk m\<rparr> # cm_launches m\<rparr>)"

definition adapter_run :: "rot_env \<Rightarrow> reservation \<Rightarrow> bool \<Rightarrow> string rot" where
  "adapter_run E r fresh = thn (log_launch r fresh) (bnd (consult (\<lambda>n. ra_run E n (rv_corner r) r)) (\<lambda>v. case v of
     Ran s \<Rightarrow> ret s | WaitExpired \<Rightarrow> ret ''queued''))"

definition execute_in_slot :: "rot_env \<Rightarrow> reservation \<Rightarrow> string rot \<Rightarrow> string rot" where
  "execute_in_slot E r run =
     bnd (consider_it (\<lambda>n. ra_plane E n (rv_corner r))) (\<lambda>p. case p of
       PlaneBusy \<Rightarrow> ret ''queued''
     | PlaneFailed x \<Rightarrow> raise x
     | Plane st missing \<Rightarrow>
         thn (unless (cs_phase st \<in> {Idle, Ready, Draining}) (CornerFailure None))
         (bnd (consult (\<lambda>n. ra_enter_slot E n (rv_corner r) r)) (\<lambda>entered.
          if \<not> entered then ret ''queued'' else run)))"

definition run_slot :: "rot_env \<Rightarrow> reservation \<Rightarrow> bool \<Rightarrow> string rot" where
  "run_slot E r fresh = slot_heartbeat E r (execute_in_slot E r (adapter_run E r fresh))"

definition unfinished :: "string list" where
  "unfinished = [''queued'', ''waiting'', ''already-running'']"

section \<open>The manual reservation\<close>

fun any_started :: "rat \<Rightarrow> obs list \<Rightarrow> rot_exn + bool" where
  "any_started limit [] = Inr False"
| "any_started limit (raw # raws) = (case (if is_busy raw then ob_started_at raw else None) of
     None \<Rightarrow> any_started limit raws
   | Some v \<Rightarrow> after (timestamp v) (\<lambda>t. if t \<le> limit then Inr True else any_started limit raws))"

text \<open>The clause catches Python's own \<open>OSError\<close>, \<open>ValueError\<close>, \<open>KeyError\<close>, \<open>TypeError\<close>.\<close>

definition no_live_owner :: "rot_env \<Rightarrow> reservation \<Rightarrow> bool rot" where
  "no_live_owner E r =
     (if rv_corner r \<notin> set (corner_ids E) then ret False else
      case rv_state_file r of None \<Rightarrow> ret False | Some file \<Rightarrow>
      bnd (consider_it (\<lambda>n. ra_manual_plane E n (rv_corner r) file)) (\<lambda>p. case p of
        None \<Rightarrow> ret False
      | Some PlaneBusy \<Rightarrow> ret False
      | Some (PlaneFailed (OtherFailure k)) \<Rightarrow> ret False
      | Some (PlaneFailed x) \<Rightarrow> raise x
      | Some (Plane st missing) \<Rightarrow> ret (cs_phase st \<in> {Idle, Ready})))"

definition drop_expired :: "reservation \<Rightarrow> rat \<Rightarrow> ledger \<Rightarrow> ledger" where
  "drop_expired r now L = L\<lparr>lg_manual_pending := None, lg_status := ''ready'', lg_reason := None,
     lg_last_result := Some \<lparr>sr_corner = rv_corner r, sr_request_id = rv_request_id r,
       sr_status = ''expired'', sr_at = now\<rparr>\<rparr>"

definition observed_if_known :: "rot_env \<Rightarrow> reservation \<Rightarrow> obs list rot" where
  "observed_if_known E r = (if rv_corner r \<in> set (corner_ids E)
     then observed_of E (rv_corner r) (rv_request_id r) else ret [])"

definition expire_capture :: "rot_env \<Rightarrow> reservation option \<Rightarrow> (tick_outcome + reservation option) rot" where
  "expire_capture E manual = (case manual of None \<Rightarrow> ret (Inr None) | Some r \<Rightarrow>
     (case (rv_capture_profile r, rv_capture_expires_at r) of
        (Some p, Some limit) \<Rightarrow> bnd now_is (\<lambda>now.
          if p \<noteq> ''rejected_png_v1'' \<or> now \<le> limit then ret (Inr (Some r)) else
          bnd (commit_failed_start E r True now) (\<lambda>v. case v of
            Some tk \<Rightarrow> thn (save_ledger E) (ret (Inl tk))
          | None \<Rightarrow>
              bnd (observed_if_known E r) (\<lambda>owned.
              bnd (lift (any_started limit owned)) (\<lambda>in_window.
              if list_ex is_over owned \<or> in_window then ret (Inr (Some r)) else
              bnd (if owned \<noteq> [] then ret True else observe_corners E now) (\<lambda>busy.
              bnd (if busy then ret False else no_live_owner E r) (\<lambda>gone.
              if \<not> gone then early (wait_with E ''manual-capture-profile-expired'')
              else thn (edit (drop_expired r now)) (ret (Inr None))))))))
      | _ \<Rightarrow> ret (Inr (Some r))))"

definition base_name :: "string \<Rightarrow> string" where
  "base_name s = rev (takeWhile (\<lambda>c. c \<noteq> CHR ''/'') (rev s))"

definition resumable_manual :: "rot_env \<Rightarrow> reservation \<Rightarrow> bool" where
  "resumable_manual E r \<longleftrightarrow> rv_corner r \<in> set (corner_ids E) \<and> ra_resumes_manual E (rv_corner r) \<and>
     (case (ra_state_path E (rv_corner r), rv_state_file r) of
        (Some p, Some f) \<Rightarrow> base_name p = f | _ \<Rightarrow> False)"

definition replay_manual :: "rot_env \<Rightarrow> reservation \<Rightarrow> tick_outcome rot" where
  "replay_manual E r = bnd (run_slot E r False) (\<lambda>status.
     if status = ''completed'' \<or> status = ''interrupted'' then
       bnd now_is (\<lambda>now. bnd (clock_now E) (\<lambda>t.
         thn (unless (now \<le> t) (of_kind ''invalid-state''))
         (thn (set_now t) (bnd (resolve_reservation E r t True) (\<lambda>tk. thn (save_ledger E) (ret tk))))))
     else if status \<in> set unfinished then wait_with E ''manual-execution-pending''
     else raise (of_kind ''execution-unverified''))"

definition resume_manual :: "rot_env \<Rightarrow> reservation option \<Rightarrow> (tick_outcome + reservation option) rot" where
  "resume_manual E manual = (case manual of None \<Rightarrow> ret (Inr None) | Some r \<Rightarrow>
     bnd (if resumable_manual E r then observed_of E (rv_corner r) (rv_request_id r) else ret []) (\<lambda>owned.
     thn (unless (length owned \<le> 1) (of_kind ''execution-unverified''))
     (if owned \<noteq> [] \<and> ob_status (hd owned) = ''restoring'' then early (replay_manual E r)
      else bnd now_is (\<lambda>now. bnd (commit_failed_start E r True now) (\<lambda>v. case v of
        None \<Rightarrow> ret (Inr (Some r))
      | Some tk \<Rightarrow> bnd (mem lg_last_seen_at) (\<lambda>t. thn (set_now t) (thn (save_ledger E) (ret (Inr None)))))))))"

definition finish_manual :: "rot_env \<Rightarrow> reservation \<Rightarrow> tick_outcome rot" where
  "finish_manual E r = bnd (observed_if_known E r) (\<lambda>owned.
     if \<not> list_ex (\<lambda>raw. ob_status raw = ''completed'') owned
     then wait_with E ''manual-request-needs-resume-or-recovery''
     else bnd now_is (\<lambda>now. bnd (resolve_reservation E r now True) (\<lambda>tk. thn (save_ledger E) (ret tk))))"

section \<open>Choosing the next reservation\<close>

definition write_ahead :: "rot_env \<Rightarrow> reservation \<Rightarrow> unit rot" where
  "write_ahead E r = thn (edit (\<lambda>L. L\<lparr>lg_pending := Some r, lg_slot := lg_slot L + 1\<rparr>))
     (thn (save_ledger E) (clear_notice E))"

definition due_queued :: "ledger \<Rightarrow> rat \<Rightarrow> reservation option" where
  "due_queued L now = (case (lg_pending L, lg_queued_manual L) of
       (None, Some q) \<Rightarrow> (case rv_trigger_at q of
           None \<Rightarrow> Some q | Some t \<Rightarrow> if t \<le> now then Some q else None)
     | _ \<Rightarrow> None)"

definition adopt_queued :: "rot_env \<Rightarrow> string list \<Rightarrow> (tick_outcome + reservation option) rot" where
  "adopt_queued E manual_eligible = bnd now_is (\<lambda>now. bnd (mem (\<lambda>L. (lg_pending L, due_queued L now))) (\<lambda>(pending, due).
     case due of
       None \<Rightarrow> ret (Inr pending)
     | Some q \<Rightarrow>
         thn (unless (rv_corner q \<in> set (corner_ids E)) (of_kind ''catalog-mismatch''))
         (if rv_corner q \<notin> set manual_eligible then early (wait_with E ''queued-manual-disabled-or-paused'')
          else let r = q\<lparr>rv_phase := Some ''selected'', rv_source := Some ''manual''\<rparr> in
            thn (edit (\<lambda>L. L\<lparr>lg_queued_manual := None\<rparr>)) (thn (write_ahead E r) (ret (Inr (Some r)))))))"

definition new_reservation :: "rot_env \<Rightarrow> ledger \<Rightarrow> string \<Rightarrow> rat \<Rightarrow> reservation" where
  "new_reservation E L c now = \<lparr>rv_corner = c,
     rv_request_id = re_uuid5 E (''corner:'' @ lg_seed L @ '':'' @ json_int (lg_slot L) @ '':'' @ c),
     rv_selected_at = now, rv_phase = Some ''selected'', rv_source = None, rv_trigger_at = None,
     rv_resume_latest = False, rv_new_game = False, rv_state_file = None, rv_capture_profile = None,
     rv_capture_expires_at = None\<rparr>"

definition anchor_due :: "rot_env \<Rightarrow> rat \<Rightarrow> ledger \<Rightarrow> ledger" where
  "anchor_due E now L = (if re_queue_mode E then L\<lparr>lg_next_due_at := now\<rparr>
     else (case (lg_last_slot_at L, lg_interval L) of
         (Some t, Some i) \<Rightarrow> L\<lparr>lg_next_due_at := t + i\<rparr> | _ \<Rightarrow> L))"

definition chosen_corner :: "rot_env \<Rightarrow> ledger \<Rightarrow> notice option \<Rightarrow> string list \<Rightarrow> string option" where
  "chosen_corner E L announced candidates = (case announced of
       Some n \<Rightarrow> if nt_source n = ''auto'' \<and> nt_corner n \<in> set candidates then Some (nt_corner n)
         else pick E L candidates
     | None \<Rightarrow> pick E L candidates)"

definition no_candidate :: "rot_env \<Rightarrow> rat \<Rightarrow> string list \<Rightarrow> reservation option \<Rightarrow> tick_outcome rot" where
  "no_candidate E now eligible future = bnd (mem (\<lambda>L. cooldown_due_at (re_cooldown E) (lg_history L)
       (filter (\<lambda>c. Some c \<noteq> map_option rv_corner future) eligible) now)) (\<lambda>cooldown_due.
     bnd (lift (case future of None \<Rightarrow> Inr None | Some q \<Rightarrow> (case rv_trigger_at q of
         None \<Rightarrow> Inl wrong | Some t \<Rightarrow> after (timestamp (Secs t)) (\<lambda>t. Inr (Some t))))) (\<lambda>trigger_due.
     thn (case least (List.map the (filter (\<lambda>d. d \<noteq> None) [cooldown_due, trigger_due])) of
            None \<Rightarrow> ret () | Some d \<Rightarrow> edit (\<lambda>L. L\<lparr>lg_next_due_at := d\<rparr>))
     (if trigger_due \<noteq> None \<and> (cooldown_due = None \<or> the trigger_due \<le> the cooldown_due)
      then wait_with E ''scheduled-manual-not-due'' else wait_with E ''all-corners-cooling-down'')))"

definition draw_corner :: "rot_env \<Rightarrow> string list \<Rightarrow> reservation option \<Rightarrow> (tick_outcome + reservation) rot" where
  "draw_corner E eligible future = bnd now_is (\<lambda>now.
     if eligible = [] then early (wait_with E ''no-enabled-corner'') else
     thn (edit (anchor_due E now))
     (bnd (mem (\<lambda>L. L)) (\<lambda>L.
      if \<not> re_queue_mode E \<and> now < lg_next_due_at L then early (wait_with E ''not-due'') else
      let candidates = auto_candidates (re_cooldown E) (lg_history L) eligible now (map_option rv_corner future) in
      bnd notice_now (\<lambda>announced. case chosen_corner E L announced candidates of
        None \<Rightarrow> early (no_candidate E now eligible future)
      | Some c \<Rightarrow> let r = new_reservation E L c now in
          thn (write_ahead E r) (ret (Inr r))))))"

section \<open>Running the reservation\<close>

definition mark_dispatched :: "rot_env \<Rightarrow> reservation \<Rightarrow> rat \<Rightarrow> reservation rot" where
  "mark_dispatched E r now = (let d = r\<lparr>rv_phase := Some ''dispatched''\<rparr> in
     thn (edit (\<lambda>L. L\<lparr>lg_pending := Some d, lg_last_slot_at := Some now\<rparr>))
     (bnd (mem lg_interval) (\<lambda>i.
      thn (if re_queue_mode E then edit (\<lambda>L. L\<lparr>lg_next_due_at := now\<rparr>)
           else (case i of None \<Rightarrow> raise (OtherFailure None) | Some q \<Rightarrow> edit (\<lambda>L. L\<lparr>lg_next_due_at := now + q\<rparr>)))
      (thn (edit (add_use (rv_corner r) now (if rv_source r = Some ''manual'' then ''manual-reservation'' else ''reservation'')))
      (ret d)))))"

fun import_starts :: "obs list \<Rightarrow> unit rot" where
  "import_starts [] = ret ()"
| "import_starts (raw # raws) = (case ob_started_at raw of
     None \<Rightarrow> import_starts raws
   | Some v \<Rightarrow> bnd (lift (timestamp v)) (\<lambda>t. bnd (mem lg_last_slot_at) (\<lambda>p. case p of
       None \<Rightarrow> raise (OtherFailure None)
     | Some q \<Rightarrow> thn (edit (\<lambda>L. L\<lparr>lg_last_slot_at := Some (max q t),
           lg_next_due_at := (case lg_interval L of None \<Rightarrow> lg_next_due_at L | Some i \<Rightarrow> max q t + i)\<rparr>))
         (import_starts raws))))"

definition keep_latest :: "(string \<times> use_row) list \<Rightarrow> use_row \<Rightarrow> (string \<times> use_row) list" where
  "keep_latest acc r =
     (if (case map_of acc (us_corner r) of None \<Rightarrow> - 1 | Some p \<Rightarrow> us_at p) \<le> us_at r
      then AList.update (us_corner r) r acc else acc)"

definition latest_uses :: "use_row list \<Rightarrow> use_row list" where
  "latest_uses rows = List.map snd (foldl keep_latest [] rows)"

definition close_completed :: "reservation \<Rightarrow> rat \<Rightarrow> rat \<Rightarrow> ledger \<Rightarrow> ledger" where
  "close_completed r now finished L =
     (let L = add_use (rv_corner r) (max now finished) ''completion'' L
      in L\<lparr>lg_pending := None, lg_status := ''ready'',
           lg_last_result := Some \<lparr>sr_corner = rv_corner r, sr_request_id = rv_request_id r,
             sr_status = ''completed'', sr_at = finished\<rparr>,
           lg_history := latest_uses (lg_history L)\<rparr>)"

definition release_if_free :: "rot_env \<Rightarrow> reservation \<Rightarrow> string \<Rightarrow> rat \<Rightarrow> tick_outcome option rot" where
  "release_if_free E r kind now =
     (if rv_corner r \<notin> set (corner_ids E) then ret None else
      bnd (slot_reusable E (rv_corner r) (rv_request_id r)) (\<lambda>free.
      bnd (if free then leftover_game E (rv_corner r) (rv_request_id r) else ret True) (\<lambda>held.
      if held then ret None
      else bnd (release_failed E r kind now False) (\<lambda>tk. thn (save_ledger E) (ret (Some tk))))))"

definition after_run :: "rot_env \<Rightarrow> reservation \<Rightarrow> rat \<Rightarrow> string \<Rightarrow> tick_outcome rot" where
  "after_run E r now status =
     (let settle = (\<lambda>p. thn p (thn (save_ledger E) (bnd (mem lg_status) (\<lambda>s.
        ret ((outcome_at s)\<lparr>tk_corner := Some (rv_corner r), tk_result := Some status\<rparr>))))) in
      if status = ''completed'' then
        settle (bnd (clock_now E) (\<lambda>t. edit (close_completed r now t)))
      else if status \<in> set unfinished then settle (edit (mark_waiting ''execution-pending''))
      else bnd (release_if_free E r ''execution-unverified'' now) (\<lambda>v. case v of
        Some tk \<Rightarrow> ret tk | None \<Rightarrow> raise (of_kind ''execution-unverified'')))"

definition start_pending :: "rot_env \<Rightarrow> reservation \<Rightarrow> rat \<Rightarrow> bool \<Rightarrow> tick_outcome rot" where
  "start_pending E r now fresh =
     thn (edit (\<lambda>L. L\<lparr>lg_status := ''running'', lg_reason := None\<rparr>))
     (thn (save_ledger E)
     (bnd (run_slot E r fresh) (\<lambda>status.
      bnd (observed_of E (rv_corner r) (rv_request_id r)) (\<lambda>owned.
      thn (import_starts owned) (after_run E r now status)))))"

definition run_pending :: "rot_env \<Rightarrow> reservation \<Rightarrow> string list \<Rightarrow> string list \<Rightarrow> tick_outcome rot" where
  "run_pending E r eligible manual_eligible =
     thn (unless (rv_corner r \<in> set (corner_ids E)) (of_kind ''catalog-mismatch''))
     (bnd (observed_of E (rv_corner r) (rv_request_id r)) (\<lambda>owned.
      let can = rv_corner r \<in> set (if rv_source r = Some ''manual'' then manual_eligible else eligible) in
      if \<not> can \<and> (owned = [] \<or> rv_phase r = Some ''selected'') then wait_with E ''selected-corner-disabled-or-paused'' else
      bnd now_is (\<lambda>now.
      if rv_phase r \<noteq> Some ''selected'' then start_pending E r now False else
      bnd (mem (\<lambda>L. cooling (re_cooldown E) (lg_history L) now (rv_corner r))) (\<lambda>hot.
      if rv_source r \<noteq> Some ''manual'' \<and> hot then wait_with E ''selected-corner-cooling-down''
      else bnd (mark_dispatched E r now) (\<lambda>d. start_pending E d now True)))))"

definition dispatch_next :: "rot_env \<Rightarrow> reservation option \<Rightarrow> bool \<Rightarrow> tick_outcome rot" where
  "dispatch_next E future busy =
     bnd (eligible_corners E False) (\<lambda>(eligible, excluded).
     bnd (eligible_corners E True) (\<lambda>(manual_eligible, _).
     thn (edit (\<lambda>L. L\<lparr>lg_eligible := eligible, lg_excluded := excluded,
       lg_interval := (if re_queue_mode E then None else target_interval E eligible)\<rparr>))
     (bnd now_is (\<lambda>now.
      thn (sync_notice E now eligible future)
      (if busy then wait_with E ''other-corner-needs-finish-or-recovery'' else
       returning (adopt_queued E manual_eligible) (\<lambda>pending.
       returning (case pending of Some r \<Rightarrow> ret (Inr r) | None \<Rightarrow> draw_corner E eligible future) (\<lambda>r.
       run_pending E r eligible manual_eligible)))))))"

definition tick_body :: "rot_env \<Rightarrow> reservation option \<Rightarrow> tick_outcome rot" where
  "tick_body E future =
     bnd (mem lg_manual_pending) (\<lambda>manual.
     returning (expire_capture E manual) (\<lambda>manual.
     returning (resume_manual E manual) (\<lambda>manual.
     bnd now_is (\<lambda>now. bnd (observe_corners E now) (\<lambda>busy.
     case manual of Some r \<Rightarrow> finish_manual E r | None \<Rightarrow> dispatch_next E future busy)))))"

end
