(* ===== verification/CornerManager.thy ===== *)
theory CornerManager
  imports CornerTick
begin

text \<open>
  The public operations of \<open>corner_rotation.py\<close>: the timer's \<open>tick\<close>, the operator's \<open>recover\<close>, a
  manual run (\<open>run_manual\<close>), and the queue of manual requests.
\<close>

section \<open>The tick\<close>

definition handle_failure :: "rot_env \<Rightarrow> rot_exn \<Rightarrow> tick_outcome rot" where
  "handle_failure E x = bnd now_is (\<lambda>now. bnd (mem (\<lambda>L. (lg_pending L, lg_manual_pending L))) (\<lambda>(pending, manual).
     let r = (case (pending, manual) of
         (Some p, Some q) \<Rightarrow> None | (Some p, None) \<Rightarrow> Some p | (None, q) \<Rightarrow> q) in
     bnd (case r of None \<Rightarrow> ret (Inr None)
          | Some r \<Rightarrow> attempt catchable (commit_failed_start E r (manual \<noteq> None) now)) (\<lambda>tried. case tried of
       Inr (Some tk) \<Rightarrow> thn (save_ledger E) (ret tk)
     | _ \<Rightarrow>
         let kind = error_kind (case tried of Inl y \<Rightarrow> y | Inr v \<Rightarrow> x) in
         bnd (case (pending, manual) of
               (Some p, None) \<Rightarrow> if kind \<in> set ledger_error_kinds then ret None else release_if_free E p kind now
             | _ \<Rightarrow> ret None) (\<lambda>released. case released of
           Some tk \<Rightarrow> ret tk
         | None \<Rightarrow>
             thn (case r of None \<Rightarrow> ret ()
               | Some r \<Rightarrow> edit (record_failed_once (rv_corner r) (rv_request_id r) ''recovery-required'' kind now None))
             (thn (edit (\<lambda>L. L\<lparr>lg_status := ''recovery_required'', lg_reason := Some ''execution-or-state-unverified'',
               lg_error_kind := Some kind\<rparr>))
             (thn (save_ledger E) (raise x)))))))"

definition guarded_tick :: "rot_env \<Rightarrow> reservation option \<Rightarrow> tick_outcome rot" where
  "guarded_tick E future = bnd (attempt catchable (tick_body E future)) (\<lambda>r. case r of
       Inr tk \<Rightarrow> ret tk | Inl x \<Rightarrow> handle_failure E x)"

definition clear_latch :: "rot_env \<Rightarrow> rat \<Rightarrow> (tick_outcome + unit) rot" where
  "clear_latch E now = bnd (mem lg_status) (\<lambda>s. if s \<noteq> ''recovery_required'' then ret (Inr ()) else
     bnd (auto_release_latch E now) (\<lambda>v.
     thn (save_ledger E) (case v of
         Some tk \<Rightarrow> ret (Inr ())
       | None \<Rightarrow> thn (clear_notice E) (bnd (mem lg_reason) (\<lambda>why.
           ret (Inl (outcome_at ''recovery_required'' \<lparr>tk_reason := why\<rparr>)))))))"

definition note_gap :: "rot_env \<Rightarrow> rat \<Rightarrow> unit rot" where
  "note_gap E now = bnd (asks cm_heartbeat) (\<lambda>hb. edit (\<lambda>L.
     (if day < now - lg_last_seen_at L \<and> \<not> heartbeat_proves L hb now then L\<lparr>lg_hold_until := Some (now + day)\<rparr> else L)
       \<lparr>lg_last_seen_at := now\<rparr>))"

definition quarantined :: "ledger \<Rightarrow> rat \<Rightarrow> bool" where
  "quarantined L now \<longleftrightarrow> (case lg_hold_until L of None \<Rightarrow> False | Some t \<Rightarrow> now < t)"

definition in_time_tick :: "rot_env \<Rightarrow> rat \<Rightarrow> reservation option \<Rightarrow> tick_outcome rot" where
  "in_time_tick E now future = bnd (mem (\<lambda>L. now < lg_last_seen_at L)) (\<lambda>regressed.
     if regressed then thn (clear_notice E) (wait_with E ''clock-regressed'') else
     thn (note_gap E now)
     (bnd (mem (\<lambda>L. quarantined L now)) (\<lambda>held.
      if held then thn (clear_notice E) (wait_with E ''clock-gap-quarantine'')
      else thn (set_now now) (guarded_tick E future))))"

definition locked_tick :: "rot_env \<Rightarrow> tick_outcome rot" where
  "locked_tick E = bnd (clock_now E) (\<lambda>now.
     thn (load_ledger E now)
     (thn (edit (\<lambda>L. L\<lparr>lg_known := remember_catalog (re_catalog E) (lg_known L)\<rparr>))
     (returning (clear_latch E now) (\<lambda>_.
      bnd (import_manual E now) (\<lambda>future. in_time_tick E now future)))))"

definition when_enabled :: "rot_env \<Rightarrow> 'a \<Rightarrow> 'a \<Rightarrow> 'a rot \<Rightarrow> 'a rot" where
  "when_enabled E disabled locked_out p = bnd (consult (re_enabled E)) (\<lambda>on.
     if \<not> on then ret disabled
     else bnd (consider_it (re_lock_free E)) (\<lambda>free. if free then p else ret locked_out))"

definition tick :: "rot_env \<Rightarrow> tick_outcome rot" where
  "tick E = thn (consult (re_predictions E))
     (when_enabled E (outcome_at ''disabled'') (waits_for ''already-running'') (locked_tick E))"

section \<open>Recovery by the operator\<close>

definition refuse_recovery :: "rot_env \<Rightarrow> ledger \<Rightarrow> rot_exn \<Rightarrow> 'a rot" where
  "refuse_recovery E snapshot_of x = thn (edit (\<lambda>_. snapshot_of\<lparr>lg_status := ''recovery_required'',
       lg_reason := Some ''execution-or-state-unverified'',
       lg_error_kind := (case lg_error_kind snapshot_of of None \<Rightarrow> Some (error_kind x) | Some k \<Rightarrow> Some k)\<rparr>))
     (thn (save_ledger E) (raise x))"

definition recover_reservation :: "rot_env \<Rightarrow> ledger \<Rightarrow> reservation \<Rightarrow> bool \<Rightarrow> rat \<Rightarrow> tick_outcome rot" where
  "recover_reservation E before r manual now =
     bnd (case (if manual then None else ra_guard E (rv_corner r)) of
            None \<Rightarrow> ret False | Some guard \<Rightarrow> consult (\<lambda>n. guard n r)) (\<lambda>verified.
     bnd (attempt catchable (bnd (if verified then ret None else commit_failed_start E r manual now) (\<lambda>v. case v of
            Some tk \<Rightarrow> ret tk | None \<Rightarrow> resolve_reservation E r now manual))) (\<lambda>tried. case tried of
       Inr tk \<Rightarrow> thn (save_ledger E) (ret tk)
     | Inl x \<Rightarrow> if verified then raise x else refuse_recovery E before x))"

definition locked_recover :: "rot_env \<Rightarrow> tick_outcome rot" where
  "locked_recover E = bnd (clock_now E) (\<lambda>now.
     thn (load_ledger E now)
     (bnd (mem (\<lambda>L. L)) (\<lambda>before.
      thn (edit (\<lambda>L. L\<lparr>lg_known := remember_catalog (re_catalog E) (lg_known L)\<rparr>))
      (thn (unless (lg_status before = ''recovery_required'') (of_kind ''invalid-state''))
      (thn (unless (lg_last_seen_at before \<le> now) (of_kind ''invalid-state''))
      (thn (unless (lg_pending before = None \<or> lg_manual_pending before = None) (of_kind ''invalid-state''))
      (case (case lg_pending before of Some r \<Rightarrow> Some r | None \<Rightarrow> lg_manual_pending before) of
         None \<Rightarrow> thn (edit (\<lambda>L. mark_waiting ''recovery-retry'' (L\<lparr>lg_last_seen_at := now\<rparr>)))
           (thn (save_ledger E) (ret (waits_for ''recovery-retry'')))
       | Some r \<Rightarrow>
           thn (unless (rv_corner r \<in> set (corner_ids E)) (of_kind ''catalog-mismatch''))
           (recover_reservation E before r (lg_manual_pending before \<noteq> None) now))))))))"

definition recover_rotation :: "rot_env \<Rightarrow> tick_outcome rot" where
  "recover_rotation E = when_enabled E (outcome_at ''disabled'') (waits_for ''already-running'') (locked_recover E)"

section \<open>A manual run\<close>

record manual_runner =
  mn_games :: "string list"
  mn_file :: string
  mn_has_state_path :: bool
  mn_profile :: "string option"

definition runner_ok :: "manual_runner \<Rightarrow> bool" where
  "runner_ok g \<longleftrightarrow> (case mn_profile g of None \<Rightarrow> True
     | Some p \<Rightarrow> p = ''rejected_png_v1'' \<and> mn_games g = [''soren91''] \<and> mn_has_state_path g
         \<and> mn_file g = ''soren91_corner_manual.json'')"

definition profile_current :: "reservation \<Rightarrow> rat \<Rightarrow> bool" where
  "profile_current r now \<longleftrightarrow> (case (rv_capture_profile r, rv_capture_expires_at r) of
     (Some p, Some t) \<Rightarrow> p = ''rejected_png_v1'' \<longrightarrow> now \<le> t | _ \<Rightarrow> True)"

definition resumed_run :: "rot_env \<Rightarrow> manual_runner \<Rightarrow> reservation \<Rightarrow> rat \<Rightarrow> string list \<Rightarrow> reservation rot" where
  "resumed_run E g r now eligible =
     thn (unless (\<exists>c\<in>set (re_catalog E). cr_id c = rv_corner r \<and> cr_game c \<in> set (mn_games g)) wrong)
     (thn (unless (rv_state_file r = Some (mn_file g)) wrong)
     (thn (unless (rv_capture_profile r \<in> {None, Some ''rejected_png_v1''}) wrong)
     (thn (unless (profile_current r now) wrong)
     (thn (unless (mn_profile g = None \<or> rv_capture_profile r = mn_profile g) wrong)
     (thn (if rv_corner r \<in> set eligible then ret ()
           else bnd (observed_of E (rv_corner r) (rv_request_id r)) (\<lambda>owned. unless (owned \<noteq> []) wrong))
     (ret r))))))"

definition manual_ttl :: rat where "manual_ttl = 60"

definition run_reservation :: "manual_runner \<Rightarrow> string \<Rightarrow> rat \<Rightarrow> string \<Rightarrow> reservation" where
  "run_reservation g c now rid = \<lparr>rv_corner = c, rv_request_id = rid, rv_selected_at = now, rv_phase = None,
     rv_source = None, rv_trigger_at = None, rv_resume_latest = False, rv_new_game = False,
     rv_state_file = Some (mn_file g), rv_capture_profile = mn_profile g,
     rv_capture_expires_at = (if mn_profile g = None then None else Some (now + manual_ttl))\<rparr>"

definition next_due_after :: "rot_env \<Rightarrow> rat \<Rightarrow> rat \<Rightarrow> unit rot" where
  "next_due_after E t otherwise = (if re_queue_mode E then edit (\<lambda>L. L\<lparr>lg_next_due_at := otherwise\<rparr>)
     else bnd (mem lg_interval) (\<lambda>i. case i of
         None \<Rightarrow> raise (OtherFailure None) | Some q \<Rightarrow> edit (\<lambda>L. L\<lparr>lg_next_due_at := t + q\<rparr>)))"

definition fresh_run :: "rot_env \<Rightarrow> manual_runner \<Rightarrow> rat \<Rightarrow> string list \<Rightarrow> reservation rot" where
  "fresh_run E g now eligible = bnd (observe_corners E now) (\<lambda>busy.
     thn (unless (\<not> busy) wrong)
     (bnd (gather (\<lambda>c. bnd (state_path_blocked E (cr_id c)) (\<lambda>b. ret (c, b))) (re_catalog E)) (\<lambda>cbs.
      bnd (mem (\<lambda>L. first_least (rank_of E L) (List.map (\<lambda>(c, b). cr_id c)
        (filter (\<lambda>(c, b). cr_game c \<in> set (mn_games g) \<and> cr_id c \<in> set eligible \<and> \<not> b) cbs)))) (\<lambda>chosen. case chosen of
        None \<Rightarrow> raise wrong
      | Some c \<Rightarrow> bnd (consider_it (re_uuid4 E)) (\<lambda>rid. let r = run_reservation g c now rid in
          thn (edit (\<lambda>L. (add_use c now ''manual-reservation'' L)\<lparr>lg_manual_pending := Some r, lg_slot := lg_slot L + 1,
            lg_last_slot_at := Some now\<rparr>))
          (thn (next_due_after E now now) (ret r)))))))"

definition run_reserved :: "rot_env \<Rightarrow> reservation \<Rightarrow> bool \<Rightarrow> string rot" where
  "run_reserved E r fresh = (case (rv_capture_profile r, rv_capture_expires_at r) of
       (Some p, Some limit) \<Rightarrow> if p \<noteq> ''rejected_png_v1'' then adapter_run E r fresh else
         bnd (clock_now E) (\<lambda>t. if limit < t then ret ''capture-profile-expired'' else adapter_run E r fresh)
     | _ \<Rightarrow> adapter_run E r fresh)"

definition expired_run :: "rot_env \<Rightarrow> reservation \<Rightarrow> string rot" where
  "expired_run E r = bnd (observed_of E (rv_corner r) (rv_request_id r)) (\<lambda>owned.
     bnd (if owned \<noteq> [] then ret True else bnd (clock_now E) (observe_corners E)) (\<lambda>busy.
     bnd (if busy then ret False else no_live_owner E r) (\<lambda>gone.
     thn (unless gone (of_kind ''execution-unverified''))
     (bnd (clock_now E) (\<lambda>t.
      thn (edit (\<lambda>L. (drop_expired r t L)\<lparr>lg_last_seen_at := t\<rparr>))
      (thn (save_ledger E) (ret ''expired'')))))))"

definition latch_manual :: "string \<Rightarrow> ledger \<Rightarrow> ledger" where
  "latch_manual kind L = L\<lparr>lg_status := ''recovery_required'', lg_reason := Some ''manual-execution-unverified'',
     lg_error_kind := Some kind\<rparr>"

definition completed_run :: "rot_env \<Rightarrow> reservation \<Rightarrow> rat \<Rightarrow> string list \<Rightarrow> unit rot" where
  "completed_run E r now eligible = bnd (clock_now E) (\<lambda>t.
     thn (edit (\<lambda>L. (add_use (rv_corner r) t ''manual-completion'' L)\<lparr>lg_last_slot_at := Some (max now t)\<rparr>))
     (thn (whenM (eligible \<noteq> []) (next_due_after E (max now t) t))
     (edit (\<lambda>L. L\<lparr>lg_status := ''ready'', lg_reason := None, lg_manual_pending := None\<rparr>))))"

definition settle_run :: "rot_env \<Rightarrow> reservation \<Rightarrow> rat \<Rightarrow> string list \<Rightarrow> string \<Rightarrow> string rot" where
  "settle_run E r now eligible status =
     (if status = ''capture-profile-expired'' then expired_run E r else
      thn (edit (mark_waiting ''manual-execution-pending''))
      (thn (if status = ''completed'' then completed_run E r now eligible
            else if status \<in> set unfinished then ret ()
            else bnd (attempt catchable (commit_failed_start E r True now)) (\<lambda>v. case v of
              Inr (Some tk) \<Rightarrow> ret ()
            | Inr None \<Rightarrow> edit (latch_manual ''execution-unverified'')
            | Inl y \<Rightarrow> edit (latch_manual (error_kind y))))
      (thn (save_ledger E) (ret status))))"

definition fail_run :: "rot_env \<Rightarrow> reservation \<Rightarrow> rat \<Rightarrow> rot_exn \<Rightarrow> string rot" where
  "fail_run E r now x = bnd (attempt catchable (commit_failed_start E r True now)) (\<lambda>v.
     thn (case v of Inr (Some tk) \<Rightarrow> ret ()
          | Inr None \<Rightarrow> edit (latch_manual (error_kind x))
          | Inl y \<Rightarrow> edit (latch_manual (error_kind y)))
     (thn (save_ledger E) (raise x)))"

definition locked_run :: "rot_env \<Rightarrow> manual_runner \<Rightarrow> string rot" where
  "locked_run E g = bnd (clock_now E) (\<lambda>now.
     thn (load_ledger E now)
     (thn (edit (\<lambda>L. L\<lparr>lg_known := remember_catalog (re_catalog E) (lg_known L)\<rparr>))
     (bnd (mem (\<lambda>L. L)) (\<lambda>L.
      thn (unless (lg_status L \<noteq> ''recovery_required'' \<and> lg_pending L = None) wrong)
      (thn (unless (lg_last_seen_at L \<le> now) wrong)
      (bnd (eligible_corners E False) (\<lambda>(eligible, _).
       thn (edit (\<lambda>L. L\<lparr>lg_eligible := eligible,
         lg_interval := (if re_queue_mode E then None else target_interval E eligible)\<rparr>))
       (bnd (case lg_manual_pending L of
            Some r \<Rightarrow> resumed_run E g r now eligible | None \<Rightarrow> fresh_run E g now eligible) (\<lambda>r.
        thn (edit (\<lambda>L. L\<lparr>lg_last_seen_at := now, lg_status := ''running''\<rparr>))
        (thn (save_ledger E)
        (thn (set_now now)
        (bnd (attempt catchable (bnd (slot_heartbeat E r (execute_in_slot E r (run_reserved E r (lg_manual_pending L = None))))
            (settle_run E r now eligible))) (\<lambda>v. case v of
          Inr status \<Rightarrow> ret status | Inl x \<Rightarrow> fail_run E r now x)))))))))))))"

definition run_manual :: "rot_env \<Rightarrow> manual_runner \<Rightarrow> string rot" where
  "run_manual E g = thn (unless (runner_ok g) wrong)
     (bnd (consider_it (re_lock_free E)) (\<lambda>free. if free then locked_run E g else raise wrong))"

section \<open>The queue of manual requests\<close>

record queue_answer =
  qa_status :: string
  qa_corner :: string
  qa_request_id :: "string option"
  qa_trigger_at :: "rat option"

record queue_request =
  qr_game :: string
  qr_trigger_at :: "instant option"
  qr_resume_latest :: bool
  qr_new_game :: bool

definition request_valid :: "queue_request \<Rightarrow> bool" where
  "request_valid q \<longleftrightarrow>
     (qr_resume_latest q \<longrightarrow> qr_game q = ''hanjuku-hero'' \<and> qr_trigger_at q = None) \<and>
     (qr_new_game q \<longrightarrow> qr_game q = ''hanjuku-hero'' \<and> \<not> qr_resume_latest q \<and> qr_trigger_at q = None)"

text \<open>Only \<open>RotationError\<close> is turned into the reason code.\<close>

definition requested_trigger :: "queue_request \<Rightarrow> rot_exn + rat option" where
  "requested_trigger q = (case qr_trigger_at q of None \<Rightarrow> Inr None
     | Some v \<Rightarrow> (case timestamp v of
         Inr t \<Rightarrow> Inr (Some t)
       | Inl (RotationError k r) \<Rightarrow> Inl (refused ''invalid_scheduled_time'')
       | Inl x \<Rightarrow> Inl x))"

definition corners_of_game :: "rot_env \<Rightarrow> string \<Rightarrow> string list" where
  "corners_of_game E game = List.map cr_id (filter (\<lambda>c. cr_game c = game) (re_catalog E))"

definition first_of :: "'a option \<Rightarrow> 'a option \<Rightarrow> 'a option" where
  "first_of x y = (case x of None \<Rightarrow> y | Some v \<Rightarrow> Some v)"

definition already_scheduled :: "rot_env \<Rightarrow> ledger \<Rightarrow> reservation option \<Rightarrow> string \<Rightarrow> rat option \<Rightarrow> queue_answer option" where
  "already_scheduled E L inbox game trigger = (case (trigger, corners_of_game E game) of
       (Some t, [c]) \<Rightarrow>
         (case first_of (first_of inbox (lg_queued_manual L)) (case lg_pending L of
              Some p \<Rightarrow> if rv_source p = Some ''manual'' then Some p else None | None \<Rightarrow> None) of
            Some r \<Rightarrow> if rv_corner r = c \<and> rv_trigger_at r = Some t
              then Some \<lparr>qa_status = ''scheduled'', qa_corner = c, qa_request_id = Some (rv_request_id r), qa_trigger_at = Some t\<rparr>
              else None
          | None \<Rightarrow> None)
     | _ \<Rightarrow> None)"

definition queue_holder :: "ledger \<Rightarrow> reservation option \<Rightarrow> rat option \<Rightarrow> string \<Rightarrow> reservation option" where
  "queue_holder L inbox trigger chosen = (case first_of inbox (lg_queued_manual L) of
       Some r \<Rightarrow> Some r
     | None \<Rightarrow> if trigger \<noteq> None then None
         else (case first_of (lg_manual_pending L) (lg_pending L) of
             Some p \<Rightarrow> if rv_source p = Some ''manual'' \<or> rv_corner p = chosen then Some p else None
           | None \<Rightarrow> None))"

definition manual_request :: "queue_request \<Rightarrow> string \<Rightarrow> rat \<Rightarrow> rat option \<Rightarrow> string \<Rightarrow> reservation" where
  "manual_request q c now trigger rid = \<lparr>rv_corner = c, rv_request_id = rid, rv_selected_at = now,
     rv_phase = None, rv_source = None, rv_trigger_at = trigger, rv_resume_latest = False,
     rv_new_game = qr_new_game q, rv_state_file = None, rv_capture_profile = None, rv_capture_expires_at = None\<rparr>"

definition put_inbox :: "rot_env \<Rightarrow> reservation \<Rightarrow> unit rot" where
  "put_inbox E r = durable E (\<lambda>m. m\<lparr>cm_inbox := Some (Stored r)\<rparr>)"

definition enqueue_manual :: "rot_env \<Rightarrow> queue_request \<Rightarrow> string \<Rightarrow> rat \<Rightarrow> rat option \<Rightarrow> reservation rot" where
  "enqueue_manual E q c now trigger =
     bnd (consider_it (re_uuid4 E)) (\<lambda>rid. let r = manual_request q c now trigger rid in
     bnd (if qr_resume_latest q
          then bnd (consult (\<lambda>n. ra_recover_prepared E n c)) (\<lambda>old.
            let r = (case old of Some p \<Rightarrow> p | None \<Rightarrow> r\<lparr>rv_resume_latest := True\<rparr>) in
            thn (consult (\<lambda>n. ra_prepare_resume E n r)) (ret r))
          else ret r) (\<lambda>r. thn (put_inbox E r) (ret r)))"

definition reserve_manual :: "rot_env \<Rightarrow> queue_request \<Rightarrow> rat \<Rightarrow> rat option \<Rightarrow> queue_answer rot" where
  "reserve_manual E q now trigger = bnd (mem (\<lambda>L. L)) (\<lambda>L.
     thn (unless (case trigger of None \<Rightarrow> True | Some t \<Rightarrow> now \<le> t) (refused ''scheduled_time_past''))
     (thn (unless (lg_status L \<noteq> ''recovery_required'') (refused ''recovery_required''))
     (thn (unless (lg_last_seen_at L \<le> now) (refused ''clock_regressed''))
     (bnd (eligible_corners E True) (\<lambda>(eligible, _).
      case filter (\<lambda>c. c \<in> set eligible) (corners_of_game E (qr_game q)) of
        [c] \<Rightarrow> bnd read_inbox (\<lambda>inbox.
          bnd (case queue_holder L inbox trigger c of
              Some r \<Rightarrow> if rv_corner r \<noteq> c \<or> rv_trigger_at r \<noteq> trigger \<or> rv_resume_latest r \<noteq> qr_resume_latest q
                  \<or> rv_new_game r \<noteq> qr_new_game q
                then raise (refused ''manual_queue_conflict'') else ret r
            | None \<Rightarrow> enqueue_manual E q c now trigger) (\<lambda>r.
          thn (if qr_resume_latest q then consult (\<lambda>n. ra_publish_resume E n r) else ret ())
          (ret \<lparr>qa_status = (case trigger of Some t \<Rightarrow> if now < t then ''scheduled'' else ''queued'' | None \<Rightarrow> ''queued''),
             qa_corner = c, qa_request_id = Some (rv_request_id r), qa_trigger_at = trigger\<rparr>)))
      | _ \<Rightarrow> raise (refused ''hanjuku_not_eligible''))))))"

definition queue_manual :: "rot_env \<Rightarrow> queue_request \<Rightarrow> queue_answer rot" where
  "queue_manual E q =
     thn (unless (request_valid q) (refused ''invalid_value''))
     (bnd (consult (re_enabled E)) (\<lambda>on.
      thn (unless on (refused ''rotation_disabled''))
      (bnd (clock_now E) (\<lambda>now.
       bnd (lift (requested_trigger q)) (\<lambda>trigger.
       thn (load_ledger E now)
       (bnd (if trigger \<noteq> None \<and> length (corners_of_game E (qr_game q)) = 1 then read_inbox else ret None) (\<lambda>inbox.
        bnd (mem (\<lambda>L. already_scheduled E L inbox (qr_game q) trigger)) (\<lambda>known. case known of
          Some answer \<Rightarrow> ret answer
        | None \<Rightarrow> reserve_manual E q now trigger))))))))"

definition cancel_scheduled :: "rot_env \<Rightarrow> string \<Rightarrow> queue_answer rot" where
  "cancel_scheduled E game =
     bnd (consult (re_enabled E)) (\<lambda>on.
     thn (unless on (refused ''rotation_disabled''))
     (bnd (clock_now E) (\<lambda>now.
      thn (load_ledger E now)
      (case corners_of_game E game of
         [c] \<Rightarrow> bnd read_inbox (\<lambda>inbox. case inbox of
             None \<Rightarrow> bnd (mem lg_queued_manual) (\<lambda>q. raise (refused
               (if (case q of None \<Rightarrow> False | Some r \<Rightarrow> rv_corner r = c \<and> rv_trigger_at r \<noteq> None)
                then ''scheduled_request_imported'' else ''scheduled_request_missing'')))
           | Some r \<Rightarrow> (case rv_trigger_at r of
               None \<Rightarrow> raise (refused ''scheduled_request_missing'')
             | Some t \<Rightarrow> if rv_corner r \<noteq> c then raise (refused ''scheduled_request_missing'')
                 else thn (unlink_inbox E) (ret \<lparr>qa_status = ''cancelled'', qa_corner = c,
                   qa_request_id = None, qa_trigger_at = Some t\<rparr>)))
       | _ \<Rightarrow> raise (refused ''scheduled_request_missing'')))))"

definition clear_quarantine :: "rot_env \<Rightarrow> string \<Rightarrow> string rot" where
  "clear_quarantine E game =
     thn (unless (game = ''hanjuku-hero'') (refused ''invalid_value''))
     (bnd (consider_it (re_lock_free E)) (\<lambda>free. if \<not> free then ret ''busy'' else
      bnd (clock_now E) (\<lambda>now.
      thn (load_ledger E now)
      (bnd (mem (\<lambda>L. L)) (\<lambda>L.
       if now < lg_last_seen_at L then ret ''clock_regressed''
       else if lg_status L = ''recovery_required'' then ret ''recovery_required''
       else if lg_status L = ''running'' \<or> lg_pending L \<noteq> None \<or> lg_manual_pending L \<noteq> None then ret ''busy''
       else if lg_reason L \<noteq> Some ''clock-gap-quarantine'' then ret ''not_quarantined''
       else if \<not> quarantined L now then ret ''not_held''
       else if map_option rv_corner (lg_queued_manual L) \<noteq> Some game then ret ''not_queued''
       else thn (edit (\<lambda>L. mark_waiting ''manual-clock-hold-cleared'' (L\<lparr>lg_hold_until := None\<rparr>)))
         (thn (save_ledger E) (ret ''cleared'')))))))"

end
