(* ===== verification/CornerFacts.thy ===== *)
theory CornerFacts
  imports CornerManager
begin

text \<open>
  The contract between the ledger and the scheduler.  The locale \<open>ledger_steps\<close> names a preorder on
  machines that every primitive change respects: a call to the environment, a file beside the
  ledger, a write of the ledger, and the few kinds of edits of the ledger in memory.  Inside it
  the parts of the scheduler that leave both reservations alone are shown, once, to respect the
  preorder on each of their exits; \<open>rotation_steps\<close> adds the reservation of the timer,
  \<open>manual_ledger\<close> the manual one and \<open>manual_steps\<close> both.
\<close>

section \<open>Kinds of edits\<close>

text \<open>An edit that leaves alone the history, the manual reservation and the bounded records.\<close>

definition lesser :: "(ledger \<Rightarrow> ledger) \<Rightarrow> bool" where
  "lesser f \<longleftrightarrow> (\<forall>L. lg_history (f L) = lg_history L \<and> lg_manual_pending (f L) = lg_manual_pending L \<and>
     lg_failed_corners (f L) = lg_failed_corners L \<and> lg_released (f L) = lg_released L \<and>
     lg_auto_restore (f L) = lg_auto_restore L)"

text \<open>A lesser edit that leaves alone the reservation of the timer, too.\<close>

definition minor :: "(ledger \<Rightarrow> ledger) \<Rightarrow> bool" where
  "minor f \<longleftrightarrow> lesser f \<and> (\<forall>L. lg_pending (f L) = lg_pending L)"

lemmas minor_defs = minor_def lesser_def

lemma minor_lesser: "minor f \<Longrightarrow> lesser f"
  by (simp add: minor_def)

lemma edit_steps: "(\<And>m. R m (m\<lparr>cm_mem := f (cm_mem m)\<rparr>)) \<Longrightarrow> steps R (edit f)"
  by (simp add: steps_def edit_def)

lemma minor_status: "minor (mark_waiting why)"
  by (simp add: minor_defs mark_waiting_def)

lemma lesser_status: "lesser (mark_waiting why)"
  using minor_status by (simp add: minor_def)

locale ledger_steps = step_order R for R :: "rot_machine \<Rightarrow> rot_machine \<Rightarrow> bool" +
  assumes r_calls: "R m (m\<lparr>cm_calls := Suc (cm_calls m)\<rparr>)"
    and r_unretired: "R m (m\<lparr>cm_unretired := ps\<rparr>)"
    and r_notice: "R m (m\<lparr>cm_notice := nt\<rparr>)"
    and r_heartbeat: "R m (m\<lparr>cm_heartbeat := hb\<rparr>)"
    and r_inbox: "R m (m\<lparr>cm_inbox := ib\<rparr>)"
    and r_save: "R m (m\<lparr>cm_disk := Some (Stored (cm_mem m))\<rparr>)"
    and r_minor: "minor f \<Longrightarrow> R m (m\<lparr>cm_mem := f (cm_mem m)\<rparr>)"
    and r_use: "R m (m\<lparr>cm_mem := add_use c t src (cm_mem m)\<rparr>)"
    and r_failed: "R m (m\<lparr>cm_mem := record_failed c rid res k t why (cm_mem m)\<rparr>)"
    and r_released: "R m (m\<lparr>cm_mem := mark_released E c rid t (cm_mem m)\<rparr>)"
    and r_budget: "R m (m\<lparr>cm_mem := (cm_mem m)\<lparr>lg_auto_restore := Some (budget_for r t (cm_mem m))\<rparr>\<rparr>)"
    and r_spend: "replay_allowed b t \<Longrightarrow>
      R m (m\<lparr>cm_mem := (cm_mem m)\<lparr>lg_auto_restore := Some (spend_replay b st t)\<rparr>\<rparr>)"
    and r_exhaust: "lg_auto_restore (cm_mem m) = Some b \<Longrightarrow>
      R m (m\<lparr>cm_mem := (cm_mem m)\<lparr>lg_auto_restore := Some (b\<lparr>rb_exhausted := True\<rparr>)\<rparr>\<rparr>)"
begin

subsection \<open>Primitives\<close>

lemma rs_consult: "steps R (consult f)"
  by (simp add: steps_def consult_def r_calls)

lemma rs_consider: "steps R (consider_it f)"
  unfolding consider_it_def by (rule rs_consult)

lemma rs_mem: "steps R (mem f)"
  unfolding mem_def by (rule so_asks)

lemma rs_alter: "(\<And>m. R m (f m)) \<Longrightarrow> steps R (alter f)"
  by (simp add: steps_def)

lemma rs_minor: "minor f \<Longrightarrow> steps R (edit f)"
  by (rule edit_steps) (rule r_minor)

lemma rs_edit_trans:
  assumes "\<And>m. R m (m\<lparr>cm_mem := f (cm_mem m)\<rparr>)" "\<And>m. R m (m\<lparr>cm_mem := g (cm_mem m)\<rparr>)"
  shows "R m (m\<lparr>cm_mem := g (f (cm_mem m))\<rparr>)"
  using R_trans [OF assms(1) [of m] assms(2) [of "m\<lparr>cm_mem := f (cm_mem m)\<rparr>"]] by simp

lemma rs_durable: "(\<And>m. R m (f m)) \<Longrightarrow> steps R (durable E f)"
  unfolding durable_def
  by (intro so_bnd rs_consider) (auto split: fault.split intro: rs_alter so_raise so_thn)

lemma rs_save: "steps R (save_ledger E)"
  unfolding save_ledger_def by (intro rs_durable r_save)

lemma rs_clock: "steps R (clock_now E)"
  unfolding clock_now_def by (intro so_rules rs_consider)

lemma rs_or_else: "steps R p \<Longrightarrow> steps R (or_else p d)"
  unfolding or_else_def by (intro so_rules) auto

lemma rs_returning: "steps R p \<Longrightarrow> (\<And>x. steps R (f x)) \<Longrightarrow> steps R (returning p f)"
  unfolding returning_def by (intro so_rules)

lemma rs_early: "steps R p \<Longrightarrow> steps R (early p)"
  unfolding early_def by (intro so_rules)

lemma rs_now_is: "steps R now_is"
  unfolding now_is_def by (rule so_asks)

lemmas rs_flow = so_rules rs_consult rs_consider rs_mem rs_save rs_clock rs_or_else rs_returning
  rs_early rs_now_is

lemmas rs_parts = rs_flow rs_minor

subsection \<open>Selection and notices\<close>

lemma rs_plane: "steps R p \<Longrightarrow> (\<And>x. steps R (f x)) \<Longrightarrow> (\<And>st b. steps R (g st b)) \<Longrightarrow>
    steps R (case pl of PlaneBusy \<Rightarrow> p | PlaneFailed x \<Rightarrow> f x | Plane st b \<Rightarrow> g st b)"
  by (cases pl) auto

lemma rs_doc: "steps R p \<Longrightarrow> (\<And>v. steps R (f v)) \<Longrightarrow>
    steps R (case d of Unreadable \<Rightarrow> p | Stored v \<Rightarrow> f v)"
  by (cases d) auto

lemma rs_state_path_blocked: "steps R (state_path_blocked E c)"
  unfolding state_path_blocked_def by (rule so_asks)

lemma rs_why_excluded: "steps R (why_excluded E im c)"
  unfolding why_excluded_def paused_def by (intro rs_parts rs_state_path_blocked)

lemma rs_split_eligible: "steps R (split_eligible E im cs)"
proof (induction cs)
  case Nil
  show ?case unfolding split_eligible.simps by (rule so_ret)
next
  case (Cons c cs)
  show ?case unfolding split_eligible.simps by (intro rs_parts rs_why_excluded Cons)
qed

lemma rs_eligible: "steps R (eligible_corners E im)"
  unfolding eligible_corners_def by (rule rs_split_eligible)

lemma rs_notice_now: "steps R notice_now"
  unfolding notice_now_def by (rule so_asks)

lemma rs_clear_notice: "steps R (clear_notice E)"
  unfolding clear_notice_def by (intro rs_parts rs_alter r_notice)

lemma rs_publish: "steps R (publish_notice E c due src hold now)"
  unfolding publish_notice_def by (intro rs_parts rs_notice_now rs_durable r_notice)

lemma rs_sync_notice: "steps R (sync_notice E now el future)"
  unfolding sync_notice_def decide_notice_def speak_notice_once_def withdrawn_def sorengame_on_air_def
  by (intro rs_parts rs_clear_notice rs_publish rs_notice_now) (simp add: minor_defs)

subsection \<open>Observation\<close>

lemma rs_read_plane: "steps R (read_plane f)"
  unfolding read_plane_def by (rule rs_consult)

lemma rs_finished_owner: "steps R (finished_owner E c rid)"
  unfolding finished_owner_def by (intro rs_parts)

lemma rs_leftover: "steps R (leftover_game E c rid)"
  unfolding leftover_game_def by (intro rs_parts rs_read_plane rs_finished_owner)

lemma rs_resources: "steps R (resources_free E c)"
  unfolding resources_free_def by (rule rs_consult)

lemma rs_slot_reusable: "steps R (slot_reusable E c rid)"
  unfolding slot_reusable_def by (intro rs_parts rs_read_plane rs_finished_owner rs_resources)

lemma rs_record_once: "steps R (edit (record_failed_once c rid res k t why))"
  by (rule edit_steps) (simp add: record_failed_once_def r_failed R_refl)

lemma rs_notice_unowned: "steps R (notice_unowned E c raw now)"
  unfolding notice_unowned_def run_reason_def by (intro rs_parts rs_record_once)

lemma rs_settle_released: "steps R (settle_released E c rid)"
  unfolding settle_released_def by (intro rs_parts)

lemma rs_release_owner: "steps R (release_owner E c)"
  unfolding release_owner_def by (intro rs_parts)

lemma rs_block_path: "steps R (block_path E c)"
  unfolding block_path_def by (intro rs_parts rs_alter r_unretired)

lemma rs_foreign_busy: "steps R (foreign_busy E c raw)"
  unfolding foreign_busy_def
  by (intro rs_parts rs_slot_reusable rs_settle_released rs_block_path rs_release_owner)

lemma rs_import_use: "steps R (edit (import_use c now latest))"
  by (rule edit_steps) (auto simp: import_use_def r_use R_refl split: option.splits)

lemma rs_observe_raws: "steps R (observe_raws E now c hid raws)"
proof (induction raws)
  case Nil
  show ?case unfolding observe_raws.simps by (rule so_ret)
next
  case (Cons raw raws)
  show ?case unfolding observe_raws.simps
    by (intro so_thn so_unless rs_or_else rs_notice_unowned so_bnd rs_mem so_if rs_foreign_busy so_ret
        so_lift rs_import_use Cons)
qed

lemma rs_observe_from: "steps R (observe_from E now os)"
proof (induction E now os rule: observe_from.induct)
  case (1 E now)
  show ?case unfolding observe_from.simps by (rule so_ret)
next
  case (2 E now c hid os)
  then show ?case unfolding observe_from.simps
    by (intro so_bnd so_ret rs_consult rs_resources rs_observe_raws)
qed

lemma rs_observe: "steps R (observe_corners E now)"
  unfolding observe_corners_def by (intro so_thn so_bnd rs_alter r_unretired rs_mem rs_observe_from)

lemma rs_observed_of: "steps R (observed_of E c rid)"
  unfolding observed_of_def by (intro rs_parts)

subsection \<open>Outcomes\<close>

lemma rs_wait: "steps R (wait_with E why)"
  unfolding wait_with_def by (intro rs_parts minor_status)

lemma rs_unobserved: "steps R (unobserved E r now man)"
  unfolding unobserved_def Let_def
  by (intro rs_parts rs_observe) (simp_all add: minor_defs mark_waiting_def)

lemma rs_reconcile: "steps R (reconcile_failed_start E r man now)"
  unfolding reconcile_failed_start_def Let_def by (intro rs_parts rs_resources)

lemma rs_record_failed: "steps R (edit (record_failed c rid res k t why))"
  by (rule edit_steps) (rule r_failed)

lemma rs_mark_released: "steps R (edit (mark_released E c rid t))"
  by (rule edit_steps) (rule r_released)

lemma rs_exhaust: "steps R (edit (exhaust_replay r now))"
proof (rule edit_steps)
  fix m
  show "R m (m\<lparr>cm_mem := exhaust_replay r now (cm_mem m)\<rparr>)"
  proof (cases "lg_auto_restore (cm_mem m)")
    case None
    then show ?thesis by (simp add: exhaust_replay_def R_refl)
  next
    case (Some b)
    from R_trans [OF r_exhaust [OF Some] r_failed] show ?thesis
      using Some by (auto simp: exhaust_replay_def R_refl)
  qed
qed

lemma rs_unlink_inbox: "steps R (unlink_inbox E)"
  unfolding unlink_inbox_def by (intro rs_parts rs_alter r_inbox)

lemma rs_read_inbox: "steps R read_inbox"
  unfolding read_inbox_def by (intro rs_parts rs_doc)

lemma rs_import_manual: "steps R (import_manual E now)"
  unfolding import_manual_def
  by (intro rs_parts rs_read_inbox rs_unlink_inbox) (simp add: minor_defs)

lemma rs_note_gap: "steps R (note_gap E now)"
  unfolding note_gap_def by (intro rs_parts) (simp add: minor_defs)

lemma rs_no_candidate: "steps R (no_candidate E now el future)"
  unfolding no_candidate_def by (intro rs_parts rs_wait) (simp add: minor_defs)

lemma minor_anchor: "minor (anchor_due E now)"
  by (auto simp: minor_defs anchor_due_def split: option.splits)

lemma rs_import_starts: "steps R (import_starts raws)"
proof (induction raws)
  case Nil
  show ?case unfolding import_starts.simps by (rule so_ret)
next
  case (Cons raw raws)
  show ?case unfolding import_starts.simps
    by (intro so_option so_bnd so_lift rs_mem so_raise so_thn rs_minor Cons) (simp add: minor_defs)
qed

lemma rs_no_live_owner: "steps R (no_live_owner E r)"
  unfolding no_live_owner_def
  by (intro rs_parts) (auto split: plane.split rot_exn.split intro: so_ret so_raise)

lemma rs_observed_if_known: "steps R (observed_if_known E r)"
  unfolding observed_if_known_def by (intro rs_parts rs_observed_of)

end

section \<open>The reservation of the timer\<close>

locale rotation_steps = ledger_steps +
  assumes r_lesser: "lesser f \<Longrightarrow> R m (m\<lparr>cm_mem := f (cm_mem m)\<rparr>)"
    and r_compact: "R m (m\<lparr>cm_mem := (cm_mem m)\<lparr>lg_history := latest_uses (lg_history (cm_mem m))\<rparr>\<rparr>)"
begin

lemma rs_lesser: "lesser f \<Longrightarrow> steps R (edit f)"
  by (rule edit_steps) (rule r_lesser)

lemmas rs_prims = rs_flow rs_lesser

lemma rs_commit_terminal: "steps R (edit (commit_terminal r False raw fin st now))"
proof (rule edit_steps)
  fix m
  let ?tail = "\<lambda>L. L\<lparr>lg_last_seen_at := now, lg_status := ''ready'', lg_reason := None,
      lg_last_result := Some \<lparr>sr_corner = rv_corner r, sr_request_id = rv_request_id r,
      sr_status = ob_status raw, sr_at = fin\<rparr>, lg_pending := None,
      lg_last_slot_at := (case st of None \<Rightarrow> lg_last_slot_at L | Some t \<Rightarrow>
        Some (max (max (case lg_last_slot_at L of None \<Rightarrow> t | Some p \<Rightarrow> p) t) fin))\<rparr>"
  have tail: "lesser ?tail" by (simp add: lesser_def)
  have split: "commit_terminal r False raw fin st now L =
      ?tail (add_use (rv_corner r) (max now fin) ''completion'' L)" for L
    by (rule ledger.equality) (simp_all add: commit_terminal_def add_use_def Let_def split: option.splits)
  show "R m (m\<lparr>cm_mem := commit_terminal r False raw fin st now (cm_mem m)\<rparr>)"
    unfolding split by (rule rs_edit_trans [OF r_use r_lesser [OF tail]])
qed

lemma rs_resolve_auto: "steps R (resolve_reservation E r now False)"
  unfolding resolve_reservation_def by (intro rs_prims rs_observed_of rs_unobserved rs_commit_terminal)

lemma rs_commit_failed_auto: "steps R (commit_failed_start E r False now)"
  unfolding commit_failed_start_def
  by (intro rs_prims rs_reconcile rs_resolve_auto) (simp add: lesser_def)

lemma rs_close_failed: "steps R (edit (close_failed r now))"
proof (rule edit_steps)
  fix m
  let ?tail = "\<lambda>L. L\<lparr>lg_pending := None, lg_last_seen_at := now, lg_status := ''waiting'',
      lg_reason := Some released_reason,
      lg_last_result := Some \<lparr>sr_corner = rv_corner r, sr_request_id = rv_request_id r,
        sr_status = ''unverified'', sr_at = now\<rparr>\<rparr>"
  have "lesser ?tail" by (simp add: lesser_def)
  from rs_edit_trans [OF r_use [of _ "rv_corner r" now "''failure''"] r_lesser [OF this], of m]
  show "R m (m\<lparr>cm_mem := close_failed r now (cm_mem m)\<rparr>)" by (simp add: close_failed_def)
qed

lemma rs_release_failed: "steps R (release_failed E r k now base)"
  unfolding release_failed_def
  by (intro so_thn so_bnd so_ret rs_record_failed rs_mark_released rs_settle_released rs_release_owner rs_close_failed)

lemma rs_replay: "steps R (replay_restore E r now)"
proof -
  have spend: "steps R (if \<not> replay_allowed b now then thn (edit (exhaust_replay r now)) (ret None)
      else bnd (or_else (consult run) None) (\<lambda>status.
        thn (edit (\<lambda>L. L\<lparr>lg_auto_restore := Some (spend_replay b status now)\<rparr>))
        (or_else (commit_failed_start E r False now) None)))" for b run
    by (cases "replay_allowed b now")
      (auto intro!: so_thn so_bnd so_ret rs_exhaust rs_or_else rs_consult rs_commit_failed_auto edit_steps r_spend)
  show ?thesis
    unfolding replay_restore_def
    by (intro so_option so_ret so_thn so_bnd rs_mem spend edit_steps r_budget)
qed

lemma rs_auto_release: "steps R (auto_release_latch E now)"
  unfolding auto_release_latch_def
  by (intro rs_prims rs_commit_failed_auto rs_leftover rs_replay rs_slot_reusable rs_release_failed rs_record_once)

lemma rs_clear_latch: "steps R (clear_latch E now)"
  unfolding clear_latch_def by (intro rs_prims rs_auto_release rs_clear_notice)

lemma rs_pending: "(\<And>L. lesser (f L)) \<Longrightarrow> steps R (bnd (mem g) (\<lambda>x. edit (f x)))"
  by (intro rs_prims)

lemma rs_write_ahead: "steps R (write_ahead E r)"
  unfolding write_ahead_def by (intro rs_prims rs_clear_notice) (simp add: lesser_def)

lemma rs_adopt: "steps R (adopt_queued E el)"
  unfolding adopt_queued_def Let_def by (intro rs_prims rs_wait rs_write_ahead) (simp add: lesser_def)

lemma rs_draw: "steps R (draw_corner E el future)"
  unfolding draw_corner_def Let_def
  by (intro rs_prims rs_wait rs_write_ahead rs_no_candidate rs_notice_now minor_lesser [OF minor_anchor])

lemma rs_mark_dispatched: "steps R (mark_dispatched E r now)"
  unfolding mark_dispatched_def Let_def
  by (intro so_thn so_bnd so_if so_option so_raise so_ret rs_mem rs_lesser edit_steps r_use) (simp_all add: lesser_def)

lemma rs_close_completed: "steps R (edit (close_completed r now t))"
proof (rule edit_steps)
  fix m
  let ?rest = "\<lambda>L. L\<lparr>lg_pending := None, lg_status := ''ready'',
      lg_last_result := Some \<lparr>sr_corner = rv_corner r, sr_request_id = rv_request_id r,
        sr_status = ''completed'', sr_at = t\<rparr>\<rparr>"
  let ?use = "add_use (rv_corner r) (max now t) ''completion''"
  have rest: "lesser ?rest" by (simp add: lesser_def)
  have split: "close_completed r now t L =
      (?rest (?use L))\<lparr>lg_history := latest_uses (lg_history (?rest (?use L)))\<rparr>" for L
    by (rule ledger.equality) (simp_all add: close_completed_def add_use_def Let_def)
  show "R m (m\<lparr>cm_mem := close_completed r now t (cm_mem m)\<rparr>)"
    unfolding split
    by (rule rs_edit_trans [where g = "\<lambda>L. L\<lparr>lg_history := latest_uses (lg_history L)\<rparr>",
        OF rs_edit_trans [OF r_use r_lesser [OF rest]] r_compact])
qed

lemma rs_release_if_free: "steps R (release_if_free E r k now)"
  unfolding release_if_free_def by (intro rs_prims rs_slot_reusable rs_leftover rs_release_failed)

lemma rs_after_run: "steps R (after_run E r now status)"
  unfolding after_run_def Let_def
  by (intro rs_prims rs_close_completed rs_release_if_free lesser_status)

end

section \<open>The manual reservation\<close>

locale manual_ledger = ledger_steps +
  assumes r_manual: "R m (m\<lparr>cm_mem := (cm_mem m)\<lparr>lg_manual_pending := p\<rparr>\<rparr>)"
begin

lemma rs_minor_then: "minor f \<Longrightarrow> R m (m\<lparr>cm_mem := f ((cm_mem m)\<lparr>lg_manual_pending := p\<rparr>)\<rparr>)"
  by (rule rs_edit_trans [where f = "\<lambda>L. L\<lparr>lg_manual_pending := p\<rparr>", OF r_manual r_minor])

lemma rs_commit_manual: "steps R (edit (commit_terminal r True raw fin st now))"
proof (rule edit_steps)
  fix m
  let ?tail = "\<lambda>L. L\<lparr>lg_last_seen_at := now, lg_status := ''ready'', lg_reason := None,
      lg_last_result := Some \<lparr>sr_corner = rv_corner r, sr_request_id = rv_request_id r,
      sr_status = ob_status raw, sr_at = fin\<rparr>,
      lg_last_slot_at := (case st of None \<Rightarrow> lg_last_slot_at L | Some t \<Rightarrow>
        Some (max (max (case lg_last_slot_at L of None \<Rightarrow> t | Some p \<Rightarrow> p) t) fin))\<rparr>"
  let ?clear = "\<lambda>L. L\<lparr>lg_manual_pending := None\<rparr>"
  let ?use = "add_use (rv_corner r) (max now fin) ''manual-completion''"
  have tail: "minor ?tail" by (simp add: minor_defs)
  show "R m (m\<lparr>cm_mem := commit_terminal r True raw fin st now (cm_mem m)\<rparr>)"
  proof (cases "ob_status raw = ''completed''")
    case over: True
    have split: "commit_terminal r True raw fin st now L = ?tail (?use (?clear L))" for L
      by (rule ledger.equality) (simp_all add: commit_terminal_def add_use_def Let_def over split: option.splits)
    show ?thesis
      unfolding split
      by (rule rs_edit_trans [where g = ?tail, OF rs_edit_trans [where f = ?clear, OF r_manual r_use] r_minor [OF tail]])
  next
    case open_run: False
    have split: "commit_terminal r True raw fin st now L = ?tail (?clear L)" for L
      by (rule ledger.equality) (simp_all add: commit_terminal_def Let_def open_run split: option.splits)
    show ?thesis
      unfolding split by (rule rs_minor_then [where f = ?tail, OF tail])
  qed
qed

lemma rs_resolve_manual: "steps R (resolve_reservation E r now True)"
  unfolding resolve_reservation_def by (intro rs_parts rs_observed_of rs_unobserved rs_commit_manual)

lemma rs_commit_failed_manual: "steps R (commit_failed_start E r True now)"
  unfolding commit_failed_start_def
  by (intro rs_parts rs_reconcile rs_resolve_manual) (simp add: minor_defs)

lemma rs_drop_expired: "steps R (edit (drop_expired r now))"
proof (rule edit_steps)
  fix m
  let ?rest = "\<lambda>L. L\<lparr>lg_status := ''ready'', lg_reason := None,
      lg_last_result := Some \<lparr>sr_corner = rv_corner r, sr_request_id = rv_request_id r,
        sr_status = ''expired'', sr_at = now\<rparr>\<rparr>"
  have "minor ?rest" by (simp add: minor_defs)
  from rs_minor_then [where f = ?rest, OF this]
  show "R m (m\<lparr>cm_mem := drop_expired r now (cm_mem m)\<rparr>)" by (simp add: drop_expired_def)
qed

lemma rs_expire_capture: "steps R (expire_capture E manual)"
  unfolding expire_capture_def
  by (intro rs_parts rs_commit_failed_manual rs_observed_if_known rs_observe rs_no_live_owner rs_wait rs_drop_expired)

lemma rs_finish_manual: "steps R (finish_manual E r)"
  unfolding finish_manual_def by (intro rs_parts rs_observed_if_known rs_wait rs_resolve_manual)

end

locale manual_steps = rotation_steps + manual_ledger
begin

lemma rs_manual_then: "lesser f \<Longrightarrow> R m (m\<lparr>cm_mem := f ((cm_mem m)\<lparr>lg_manual_pending := p\<rparr>)\<rparr>)"
  by (rule rs_edit_trans [where f = "\<lambda>L. L\<lparr>lg_manual_pending := p\<rparr>", OF r_manual r_lesser])

lemma rs_resolve: "steps R (resolve_reservation E r now man)"
  by (cases man) (simp_all add: rs_resolve_auto rs_resolve_manual)

lemma rs_commit_failed: "steps R (commit_failed_start E r man now)"
  by (cases man) (simp_all add: rs_commit_failed_auto rs_commit_failed_manual)

lemma rs_handle_failure: "steps R (handle_failure E x)"
  unfolding handle_failure_def Let_def
  by (intro rs_flow rs_commit_failed rs_release_if_free rs_record_once) ((rule rs_lesser, simp add: lesser_def)+)

lemma rs_expired_run: "steps R (expired_run E r)"
proof -
  have "steps R (edit (\<lambda>L. (drop_expired r t L)\<lparr>lg_last_seen_at := t\<rparr>))" for t
  proof (rule edit_steps)
    fix m
    have later: "lesser (\<lambda>L. L\<lparr>lg_last_seen_at := t\<rparr>)" by (simp add: lesser_def)
    have "R m (m\<lparr>cm_mem := drop_expired r t (cm_mem m)\<rparr>)" for m
      using stepsD [OF rs_drop_expired [of r t], of m] by (simp add: edit_def)
    from rs_edit_trans [OF this r_lesser [OF later]]
    show "R m (m\<lparr>cm_mem := (drop_expired r t (cm_mem m))\<lparr>lg_last_seen_at := t\<rparr>\<rparr>)" .
  qed
  then show ?thesis
    unfolding expired_run_def by (intro rs_flow rs_observed_of rs_observe rs_no_live_owner)
qed

lemma rs_next_due: "steps R (next_due_after E t d)"
  unfolding next_due_after_def by (intro rs_prims) (simp_all add: lesser_def)

lemma rs_use_then: "lesser f \<Longrightarrow> steps R (edit (\<lambda>L. f (add_use c t src L)))"
  by (rule edit_steps) (rule rs_edit_trans [OF r_use r_lesser])

lemma rs_manual_edit: "lesser f \<Longrightarrow> steps R (edit (\<lambda>L. f (L\<lparr>lg_manual_pending := p\<rparr>)))"
  by (rule edit_steps) (rule rs_manual_then)

lemma rs_completed_run: "steps R (completed_run E r now el)"
proof -
  have 1: "steps R (edit (\<lambda>L. (add_use c t src L)\<lparr>lg_last_slot_at := x\<rparr>))" for c t src x
    by (rule rs_use_then [where f = "\<lambda>L. L\<lparr>lg_last_slot_at := x\<rparr>"]) (simp add: lesser_def)
  have 2: "steps R (edit (\<lambda>L. L\<lparr>lg_status := s, lg_reason := w, lg_manual_pending := None\<rparr>))" for s w
  proof (rule edit_steps)
    fix m
    have "lesser (\<lambda>L. L\<lparr>lg_status := s, lg_reason := w\<rparr>)" by (simp add: lesser_def)
    from rs_edit_trans [OF r_lesser [OF this] r_manual]
    show "R m (m\<lparr>cm_mem := (cm_mem m)\<lparr>lg_status := s, lg_reason := w, lg_manual_pending := None\<rparr>\<rparr>)" .
  qed
  show ?thesis unfolding completed_run_def by (intro rs_prims 1 2 rs_next_due)
qed

lemma lesser_latch_manual: "lesser (latch_manual k)"
  by (simp add: lesser_def latch_manual_def)

lemma rs_settle_run: "steps R (settle_run E r now el status)"
  unfolding settle_run_def
  by (intro rs_prims rs_expired_run rs_completed_run rs_commit_failed lesser_latch_manual lesser_status)

lemma rs_fail_run: "steps R (fail_run E r now x)"
  unfolding fail_run_def by (intro rs_prims rs_commit_failed lesser_latch_manual)

lemma rs_resumed_run: "steps R (resumed_run E g r now el)"
  unfolding resumed_run_def by (intro rs_prims rs_observed_of)

lemma rs_fresh_run: "steps R (fresh_run E g now el)"
proof -
  have book: "steps R (edit (\<lambda>L. (add_use c now ''manual-reservation'' L)\<lparr>lg_manual_pending := Some r,
      lg_slot := lg_slot L + 1, lg_last_slot_at := Some now\<rparr>))" for c r
  proof (rule edit_steps)
    fix m
    let ?f = "\<lambda>L. L\<lparr>lg_slot := lg_slot L + 1, lg_last_slot_at := Some now\<rparr>"
    have "lesser ?f" by (simp add: lesser_def)
    from rs_edit_trans [OF r_use [of _ c now "''manual-reservation''"] rs_manual_then [where f = ?f and p = "Some r", OF this], of m]
    show "R m (m\<lparr>cm_mem := (add_use c now ''manual-reservation'' (cm_mem m))\<lparr>lg_manual_pending := Some r,
        lg_slot := lg_slot (cm_mem m) + 1, lg_last_slot_at := Some now\<rparr>\<rparr>)"
      by (simp add: add_use_def)
  qed
  show ?thesis
    unfolding fresh_run_def Let_def
    by (intro rs_prims rs_observe rs_state_path_blocked book rs_next_due)
qed

end

end
