(* ===== verification/CornerInvariant.thy ===== *)
theory CornerInvariant
  imports CornerFacts
begin

text \<open>
  The invariant of the corner scheduler: a corner the timer starts was reserved on disk before, has
  rested for the cooldown since its last start, and the records kept about failures stay bounded.
  Every public operation keeps it on each of its exits, whatever the durable writes, the adapters
  and the clock do.
\<close>

section \<open>Uses of a corner\<close>

definition covers :: "use_row list \<Rightarrow> string \<Rightarrow> rat \<Rightarrow> bool" where
  "covers h c t \<longleftrightarrow> (\<exists>r\<in>set h. us_corner r = c \<and> t \<le> us_at r)"

lemma covers_add [simp]: "covers (h @ [r]) c t \<longleftrightarrow> covers h c t \<or> us_corner r = c \<and> t \<le> us_at r"
  by (auto simp: covers_def)

lemma covers_cooling: "covers h c t \<Longrightarrow> \<not> cooling cd h now c \<Longrightarrow> t + cd \<le> now"
  by (fastforce simp: covers_def cooling_def)

text \<open>Compaction keeps the newest row of each corner.\<close>

definition newest :: "(string \<times> use_row) list \<Rightarrow> use_row list \<Rightarrow> bool" where
  "newest acc h \<longleftrightarrow> distinct (List.map fst acc) \<and>
     (\<forall>(c, r)\<in>set acc. us_corner r = c \<and> r \<in> set h) \<and>
     (\<forall>r\<in>set h. - 1 \<le> us_at r \<longrightarrow> (\<exists>p. map_of acc (us_corner r) = Some p \<and> us_at r \<le> us_at p))"

lemma update_subset: "set (AList.update k v al) \<subseteq> insert (k, v) (set al)"
proof (induction al)
  case (Cons p al)
  then show ?case by (cases p) auto
qed simp

lemma newest_step:
  assumes "newest acc h"
  shows "newest (keep_latest acc r) (h @ [r])"
proof -
  let ?c = "us_corner r"
  let ?acc = "AList.update ?c r acc"
  from assms have dis: "distinct (List.map fst acc)"
    and own: "\<And>c q. (c, q) \<in> set acc \<Longrightarrow> us_corner q = c \<and> q \<in> set h"
    and top: "\<And>q. q \<in> set h \<Longrightarrow> - 1 \<le> us_at q \<Longrightarrow> \<exists>p. map_of acc (us_corner q) = Some p \<and> us_at q \<le> us_at p"
    by (auto simp: newest_def)
  have look: "map_of ?acc c = (if c = ?c then Some r else map_of acc c)" for c
    by (simp add: update_conv)
  show ?thesis
  proof (cases "(case map_of acc ?c of None \<Rightarrow> - 1 | Some p \<Rightarrow> us_at p) \<le> us_at r")
    case True
    have "\<exists>p. map_of ?acc (us_corner q) = Some p \<and> us_at q \<le> us_at p"
      if "q \<in> set (h @ [r])" "- 1 \<le> us_at q" for q
    proof (cases "us_corner q = ?c")
      case True
      show ?thesis
      proof (cases "q = r")
        case False
        with that have "q \<in> set h" by auto
        from top [OF this that(2)] \<open>us_corner q = ?c\<close> \<open>(case map_of acc ?c of None \<Rightarrow> - 1 | Some p \<Rightarrow> us_at p) \<le> us_at r\<close>
        show ?thesis by (auto simp: look)
      qed (simp add: look)
    next
      case False
      with that have "q \<in> set h" by auto
      from top [OF this that(2)] False show ?thesis by (simp add: look)
    qed
    moreover have "us_corner q = c \<and> q \<in> set (h @ [r])" if "(c, q) \<in> set ?acc" for c q
      using that update_subset [of ?c r acc] own [of c q] by auto
    ultimately show ?thesis
      using True dis by (auto simp: newest_def keep_latest_def distinct_update)
  next
    case False
    have "\<exists>p. map_of acc ?c = Some p \<and> us_at r \<le> us_at p" if "- 1 \<le> us_at r"
      using False that by (auto split: option.splits)
    with False dis own top show ?thesis
      by (auto simp: newest_def keep_latest_def)
  qed
qed

lemma newest_rows: "newest (foldl keep_latest [] h) h"
proof (induction h rule: rev_induct)
  case Nil
  show ?case by (simp add: newest_def)
next
  case (snoc r h)
  then show ?case by (simp add: newest_step)
qed

lemma latest_uses_covers:
  assumes "covers h c t" "- 1 \<le> t"
  shows "covers (latest_uses h) c t"
proof -
  from assms(1) obtain r where r: "r \<in> set h" "us_corner r = c" "t \<le> us_at r" by (auto simp: covers_def)
  with newest_rows [of h] assms(2) obtain p where "map_of (foldl keep_latest [] h) c = Some p" "us_at r \<le> us_at p"
    unfolding newest_def by fastforce
  then have "(c, p) \<in> set (foldl keep_latest [] h)" "us_at r \<le> us_at p" by (auto dest: map_of_SomeD)
  with r newest_rows [of h] show ?thesis
    unfolding newest_def covers_def latest_uses_def by (intro bexI [of _ p]) (auto intro: image_eqI [of _ snd "(c, p)"])
qed

lemma latest_uses_sub: "set (latest_uses h) \<subseteq> set h"
  using newest_rows [of h] by (auto simp: newest_def latest_uses_def)

lemma latest_uses_distinct: "distinct (List.map us_corner (latest_uses h))"
proof -
  have "List.map us_corner (latest_uses h) = List.map fst (foldl keep_latest [] h)"
    using newest_rows [of h] by (auto simp: newest_def latest_uses_def)
  then show ?thesis using newest_rows [of h] by (simp add: newest_def)
qed

lemma cooling_compact:
  assumes "\<forall>r\<in>set h. - 1 \<le> us_at r"
  shows "cooling cd (latest_uses h) t c \<longleftrightarrow> cooling cd h t c"
proof
  assume "cooling cd (latest_uses h) t c"
  then show "cooling cd h t c" using latest_uses_sub [of h] by (auto simp: cooling_def)
next
  assume "cooling cd h t c"
  then obtain r where r: "r \<in> set h" "us_corner r = c" "t - cd < us_at r" by (auto simp: cooling_def)
  then have "covers h c (us_at r)" by (auto simp: covers_def)
  with assms r have "covers (latest_uses h) c (us_at r)" by (blast intro: latest_uses_covers)
  with r show "cooling cd (latest_uses h) t c" by (force simp: covers_def cooling_def)
qed

section \<open>The invariant\<close>

definition automatic :: "reservation \<Rightarrow> bool" where
  "automatic r \<longleftrightarrow> rv_source r \<noteq> Some ''manual'' \<and> rv_state_file r = None"

text \<open>A start was written ahead: the ledger on disk held the reservation.\<close>

definition recorded :: "launch \<Rightarrow> bool" where
  "recorded l \<longleftrightarrow> (\<exists>L. la_disk l = Some (Stored L) \<and>
     (lg_pending L = Some (la_request l) \<and> lg_status L = ''running'' \<and> rv_phase (la_request l) \<noteq> Some ''selected''
      \<or> lg_manual_pending L = Some (la_request l)))"

definition rested :: "rat \<Rightarrow> launch \<Rightarrow> launch \<Rightarrow> bool" where
  "rested cd new old \<longleftrightarrow> (la_fresh new \<and> automatic (la_request new) \<and> la_fresh old \<and>
     rv_corner (la_request old) = rv_corner (la_request new) \<longrightarrow> la_at old + cd \<le> la_at new)"

definition bounded :: "ledger \<Rightarrow> bool" where
  "bounded L \<longleftrightarrow> length (lg_failed_corners L) \<le> 16 \<and> length (lg_released L) \<le> 32 \<and>
     (case lg_auto_restore L of None \<Rightarrow> True | Some b \<Rightarrow> rb_attempts b \<le> 3)"

definition remembers :: "launch list \<Rightarrow> use_row list \<Rightarrow> bool" where
  "remembers ls h \<longleftrightarrow> (\<forall>l\<in>set ls. la_fresh l \<longrightarrow> covers h (rv_corner (la_request l)) (la_at l))"

definition ledger_good :: "launch list \<Rightarrow> ledger \<Rightarrow> bool" where
  "ledger_good ls L \<longleftrightarrow> remembers ls (lg_history L) \<and> bounded L"

definition starts_good :: "rat \<Rightarrow> launch list \<Rightarrow> bool" where
  "starts_good cd ls \<longleftrightarrow> (\<forall>l\<in>set ls. recorded l \<and> 0 \<le> la_at l) \<and> sorted_wrt (rested cd) ls"

definition disk_good :: "rot_env \<Rightarrow> rot_machine \<Rightarrow> bool" where
  "disk_good E m \<longleftrightarrow> starts_good (re_cooldown E) (cm_launches m) \<and>
     (case cm_disk m of None \<Rightarrow> cm_launches m = [] | Some Unreadable \<Rightarrow> True
      | Some (Stored L) \<Rightarrow> ledger_good (cm_launches m) L)"

definition rot_inv :: "rot_env \<Rightarrow> rot_machine \<Rightarrow> bool" where
  "rot_inv E m \<longleftrightarrow> disk_good E m \<and> ledger_good (cm_launches m) (cm_mem m)"

definition keeps_inv :: "rot_env \<Rightarrow> rot_machine \<Rightarrow> rot_machine \<Rightarrow> bool" where
  "keeps_inv E m m' \<longleftrightarrow> (rot_inv E m \<longrightarrow> rot_inv E m')"

definition keeps_files :: "rot_machine \<Rightarrow> rot_machine \<Rightarrow> bool" where
  "keeps_files m m' \<longleftrightarrow> cm_disk m' = cm_disk m \<and> cm_launches m' = cm_launches m \<and> cm_mem m' = cm_mem m
     \<and> cm_now m' = cm_now m"

lemma keeps_same:
  assumes "cm_disk m' = cm_disk m" "cm_launches m' = cm_launches m" "cm_mem m' = cm_mem m"
  shows "keeps_inv E m m'"
  unfolding keeps_inv_def rot_inv_def disk_good_def assms by blast

text \<open>An edit that loses no use and keeps the bounds keeps the invariant.\<close>

lemma keeps_edit:
  assumes "\<And>c t. 0 \<le> t \<Longrightarrow> covers (lg_history (cm_mem m)) c t \<Longrightarrow> covers (lg_history L) c t"
    and "bounded (cm_mem m) \<Longrightarrow> bounded L"
  shows "keeps_inv E m (m\<lparr>cm_mem := L\<rparr>)"
  using assms by (auto simp: keeps_inv_def rot_inv_def disk_good_def ledger_good_def remembers_def starts_good_def
      split: option.splits doc.splits)

lemma length_filter_notin:
  "length (filter (\<lambda>p. fst p \<notin> set ks) al) + length (filter (\<lambda>p. fst p \<in> set ks) al) = length al"
  by (induction al) auto

lemma released_bound: "length (lg_released (mark_released E c rid t L)) \<le> 32"
proof -
  let ?allowed = "corner_ids E @ List.map fst (lg_known L)"
  let ?al = "AList.update c (rid, t) (filter (\<lambda>(k, v). k \<in> set ?allowed) (lg_released L))"
  let ?n = "length ?al - 32"
  let ?srt = "sort_key (\<lambda>(k, r, t). t) ?al"
  let ?old = "take ?n (List.map fst ?srt)"
  have "filter (\<lambda>p. fst p \<in> set ?old) (take ?n ?srt) = take ?n ?srt"
    by (intro filter_True) (auto simp: take_map)
  then have "?n \<le> length (filter (\<lambda>p. fst p \<in> set ?old) (take ?n ?srt @ drop ?n ?srt))"
    by (simp only: filter_append length_append) simp
  then have "?n \<le> length (filter (\<lambda>p. fst p \<in> set ?old) ?srt)" by simp
  moreover have "length (filter (\<lambda>p. fst p \<in> set ?old) ?srt) = length (filter (\<lambda>p. fst p \<in> set ?old) ?al)"
    by (simp only: filter_sort length_sort)
  ultimately have "length (filter (\<lambda>p. fst p \<notin> set ?old) ?al) \<le> 32"
    using length_filter_notin [of ?old ?al] by linarith
  moreover have "lg_released (mark_released E c rid t L) = filter (\<lambda>p. fst p \<notin> set ?old) ?al"
    by (simp add: mark_released_def oldest_released_def released_corner_limit_def Let_def case_prod_unfold)
  ultimately show ?thesis by simp
qed


lemma failed_bound: "length (lg_failed_corners (record_failed c rid res k t why L)) \<le> 16"
  by (simp add: record_failed_def keep_last_def failed_corner_limit_def)

text \<open>The invariant is a contract of the scheduler: every primitive keeps it.\<close>

interpretation kept: manual_steps "keeps_inv E" for E
proof unfold_locales
  fix E m
  show "keeps_inv E m m" by (simp add: keeps_inv_def)
next
  fix E and m :: rot_machine and m' m'' assume "keeps_inv E m m'" "keeps_inv E m' m''"
  then show "keeps_inv E m m''" by (simp add: keeps_inv_def)
next
  fix E and m :: rot_machine and n show "keeps_inv E m (m\<lparr>cm_calls := n\<rparr>)" by (rule keeps_same) simp_all
next
  fix E and m :: rot_machine and ps show "keeps_inv E m (m\<lparr>cm_unretired := ps\<rparr>)" by (rule keeps_same) simp_all
next
  fix E and m :: rot_machine and nt show "keeps_inv E m (m\<lparr>cm_notice := nt\<rparr>)" by (rule keeps_same) simp_all
next
  fix E and m :: rot_machine and hb show "keeps_inv E m (m\<lparr>cm_heartbeat := hb\<rparr>)" by (rule keeps_same) simp_all
next
  fix E and m :: rot_machine and ib show "keeps_inv E m (m\<lparr>cm_inbox := ib\<rparr>)" by (rule keeps_same) simp_all
next
  fix E and m :: rot_machine show "keeps_inv E m (m\<lparr>cm_disk := Some (Stored (cm_mem m))\<rparr>)"
    by (simp add: keeps_inv_def rot_inv_def disk_good_def)
next
  fix E and m :: rot_machine and f :: "ledger \<Rightarrow> ledger" assume "minor f"
  then show "keeps_inv E m (m\<lparr>cm_mem := f (cm_mem m)\<rparr>)"
    by (intro keeps_edit) (simp_all add: minor_defs bounded_def)
next
  fix E and m :: rot_machine and f :: "ledger \<Rightarrow> ledger" assume "lesser f"
  then show "keeps_inv E m (m\<lparr>cm_mem := f (cm_mem m)\<rparr>)"
    by (intro keeps_edit) (simp_all add: lesser_def bounded_def)
next
  fix E and m :: rot_machine and c t src show "keeps_inv E m (m\<lparr>cm_mem := add_use c t src (cm_mem m)\<rparr>)"
    by (intro keeps_edit) (simp_all add: add_use_def bounded_def)
next
  fix E and m :: rot_machine show "keeps_inv E m (m\<lparr>cm_mem := (cm_mem m)\<lparr>lg_history := latest_uses (lg_history (cm_mem m))\<rparr>\<rparr>)"
    by (intro keeps_edit) (simp_all add: latest_uses_covers bounded_def)
next
  fix E and m :: rot_machine and c rid res k t why
  show "keeps_inv E m (m\<lparr>cm_mem := record_failed c rid res k t why (cm_mem m)\<rparr>)"
    using failed_bound [of c rid res k t why "cm_mem m"]
    by (intro keeps_edit) (simp_all add: record_failed_def bounded_def)
next
  fix E and m :: rot_machine and E' c rid t
  show "keeps_inv E m (m\<lparr>cm_mem := mark_released E' c rid t (cm_mem m)\<rparr>)"
    using released_bound [of E' c rid t "cm_mem m"]
    by (intro keeps_edit) (simp_all add: mark_released_def bounded_def Let_def)
next
  fix E and m :: rot_machine and r t
  show "keeps_inv E m (m\<lparr>cm_mem := (cm_mem m)\<lparr>lg_auto_restore := Some (budget_for r t (cm_mem m))\<rparr>\<rparr>)"
    by (intro keeps_edit) (auto simp: bounded_def budget_for_def Let_def split: option.splits)
next
  fix E and m :: rot_machine and b t st assume "replay_allowed b t"
  then show "keeps_inv E m (m\<lparr>cm_mem := (cm_mem m)\<lparr>lg_auto_restore := Some (spend_replay b st t)\<rparr>\<rparr>)"
    by (intro keeps_edit) (auto simp: bounded_def spend_replay_def replay_allowed_def replay_limit_def Let_def)
next
  fix E and m :: rot_machine and b assume "lg_auto_restore (cm_mem m) = Some b"
  then show "keeps_inv E m (m\<lparr>cm_mem := (cm_mem m)\<lparr>lg_auto_restore := Some (b\<lparr>rb_exhausted := True\<rparr>)\<rparr>\<rparr>)"
    by (intro keeps_edit) (simp_all add: bounded_def)
next
  fix E and m :: rot_machine and p
  show "keeps_inv E m (m\<lparr>cm_mem := (cm_mem m)\<lparr>lg_manual_pending := p\<rparr>\<rparr>)"
    by (intro keeps_edit) (simp_all add: bounded_def)
qed


interpretation timed: manual_steps "\<lambda>m m'. cm_now m' = cm_now m"
  by unfold_locales simp_all

text \<open>A manual reservation in memory is also on disk.\<close>

definition link :: "rot_machine \<Rightarrow> bool" where
  "link m \<longleftrightarrow> (\<forall>r. lg_manual_pending (cm_mem m) = Some r \<longrightarrow>
     (\<exists>L. cm_disk m = Some (Stored L) \<and> lg_manual_pending L = Some r))"

interpretation linked: rotation_steps "\<lambda>m m'. link m \<longrightarrow> link m'"
  by unfold_locales (auto simp: link_def minor_defs add_use_def record_failed_def mark_released_def Let_def)

interpretation filed: step_order keeps_files
  by unfold_locales (auto simp: keeps_files_def)

lemma files_consult: "steps keeps_files (consult f)" "steps keeps_files (consider_it g)"
  by (simp_all add: steps_def consult_def consider_it_def keeps_files_def)

lemma files_alter: "(\<And>m. keeps_files m (f m)) \<Longrightarrow> steps keeps_files (alter f)"
  by (simp add: steps_def)

lemma files_durable: "(\<And>m. keeps_files m (f m)) \<Longrightarrow> steps keeps_files (durable E f)"
  unfolding durable_def
  by (intro filed.so_bnd files_consult) (auto split: fault.split intro: files_alter filed.so_raise filed.so_thn)

lemma files_or_else: "steps keeps_files p \<Longrightarrow> steps keeps_files (or_else p d)"
  unfolding or_else_def by (intro filed.so_rules) auto

lemma files_write_heartbeat: "steps keeps_files (write_heartbeat E r)"
  unfolding write_heartbeat_def
  by (intro files_or_else filed.so_bnd files_consult files_durable) (simp add: keeps_files_def)

lemma files_clear_notice: "steps keeps_files (clear_notice E)"
  unfolding clear_notice_def by (intro filed.so_rules files_consult files_alter) (simp add: keeps_files_def)

lemma files_observed: "steps keeps_files (observed_of E c rid)"
  unfolding observed_of_def by (intro filed.so_rules files_consult)

lemma files_clock: "steps keeps_files (clock_now E)"
  unfolding clock_now_def by (intro filed.so_rules files_consult)

section \<open>Starting a corner\<close>

definition ready_to_start :: "rot_env \<Rightarrow> reservation \<Rightarrow> bool \<Rightarrow> rot_machine \<Rightarrow> bool" where
  "ready_to_start E r fresh m \<longleftrightarrow> rot_inv E m \<and> 0 \<le> cm_now m \<and>
     recorded \<lparr>la_request = r, la_at = cm_now m, la_fresh = fresh, la_disk = cm_disk m\<rparr> \<and>
     (fresh \<longrightarrow> covers (lg_history (cm_mem m)) (rv_corner r) (cm_now m) \<and>
        (\<forall>L. cm_disk m = Some (Stored L) \<longrightarrow> covers (lg_history L) (rv_corner r) (cm_now m))) \<and>
     (fresh \<and> automatic r \<longrightarrow> (\<forall>k\<in>set (cm_launches m). la_fresh k \<and> rv_corner (la_request k) = rv_corner r \<longrightarrow>
        la_at k + re_cooldown E \<le> cm_now m))"

lemma ready_frame: "keeps_files m m' \<Longrightarrow> ready_to_start E r fresh m \<Longrightarrow> ready_to_start E r fresh m'"
  unfolding keeps_files_def ready_to_start_def rot_inv_def disk_good_def by metis

lemma files_keep: "keeps_files m m' \<Longrightarrow> keeps_inv E m m'"
  by (rule keeps_same) (simp_all add: keeps_files_def)

lemma g_files:
  assumes "steps keeps_files p" "\<And>m m'. keeps_files m m' \<Longrightarrow> P m \<Longrightarrow> P m'"
  shows "guar (keeps_inv E) P p (\<lambda>_. P) (\<lambda>_. P)"
  using assms by (intro guarI) (blast dest: steps_run intro: files_keep)+

lemma log_launch_keeps: "guar (keeps_inv E) (ready_to_start E r fresh) (log_launch r fresh) (\<lambda>_ _. True) (\<lambda>_ _. True)"
proof (rule guarI, safe)
  fix m v m'
  assume ready: "ready_to_start E r fresh m" and run: "log_launch r fresh m = (Inr v, m')"
  let ?l = "\<lparr>la_request = r, la_at = cm_now m, la_fresh = fresh, la_disk = cm_disk m\<rparr>"
  from run have m': "cm_launches m' = ?l # cm_launches m" "cm_disk m' = cm_disk m" "cm_mem m' = cm_mem m"
    by (auto simp: log_launch_def)
  have rec: "recorded ?l" using ready by (simp add: ready_to_start_def)
  then obtain L where L: "cm_disk m = Some (Stored L)" by (auto simp: recorded_def)
  have "starts_good (re_cooldown E) (cm_launches m')"
    using ready rec by (auto simp: m' ready_to_start_def rot_inv_def disk_good_def starts_good_def rested_def)
  moreover have "ledger_good (cm_launches m') (cm_mem m')" "ledger_good (cm_launches m') L"
    using ready L by (auto simp: m' ready_to_start_def rot_inv_def disk_good_def ledger_good_def remembers_def)
  ultimately show "keeps_inv E m m'"
    using L by (simp add: keeps_inv_def rot_inv_def disk_good_def m')
next
  fix m x m' assume "log_launch r fresh m = (Inl x, m')"
  then show "keeps_inv E m m'" by (simp add: log_launch_def)
qed

lemma adapter_run_keeps: "guar (keeps_inv E) (ready_to_start E r fresh) (adapter_run E r fresh) (\<lambda>_ _. True) (\<lambda>_ _. True)"
  unfolding adapter_run_def
  by (intro kept.g_thn [OF log_launch_keeps] kept.g_steps kept.rs_flow) (auto split: slot_run.split intro: kept.so_ret)

lemma execute_keeps:
  assumes "guar (keeps_inv E) (ready_to_start E r fresh) run (\<lambda>_ _. True) (\<lambda>_ _. True)"
  shows "guar (keeps_inv E) (ready_to_start E r fresh) (execute_in_slot E r run) (\<lambda>_ _. True) (\<lambda>_ _. True)"
proof -
  note files = g_files [OF _ ready_frame]
  have weak: "guar (keeps_inv E) (ready_to_start E r fresh) p (\<lambda>_. ready_to_start E r fresh) (\<lambda>_ _. True)"
    if "steps keeps_files p" for p :: "'b rot"
    using files [OF that] by (rule guar_conseq) auto
  show ?thesis
    unfolding execute_in_slot_def
    by (intro kept.g_bnd [OF weak] files_consult)
      (auto split: plane.split intro!: kept.g_ret kept.g_raise kept.g_thn [OF weak] kept.g_bnd [OF weak]
        filed.so_unless files_consult assms)
qed

lemma slot_keeps:
  assumes "guar (keeps_inv E) (ready_to_start E r fresh) p (\<lambda>_ _. True) (\<lambda>_ _. True)"
  shows "guar (keeps_inv E) (ready_to_start E r fresh) (slot_heartbeat E r p) (\<lambda>_ _. True) (\<lambda>_ _. True)"
proof -
  have 1: "guar (keeps_inv E) (ready_to_start E r fresh) (write_heartbeat E r)
      (\<lambda>_. ready_to_start E r fresh) (\<lambda>_ _. True)"
    using g_files [OF files_write_heartbeat ready_frame] by (rule guar_conseq) auto
  have 2: "guar (keeps_inv E) (ready_to_start E r fresh) (attempt (\<lambda>_. True) p) (\<lambda>_ _. True) (\<lambda>_ _. True)"
    using assms by (intro kept.g_attempt) (erule guar_conseq; simp)
  show ?thesis
    unfolding slot_heartbeat_def drop_heartbeat_def
    by (intro kept.g_thn [OF 1] kept.g_bnd [OF 2] kept.g_steps kept.rs_flow kept.rs_alter kept.r_heartbeat)
      simp_all
qed


definition live :: "rot_env \<Rightarrow> rot_machine \<Rightarrow> bool" where
  "live E m \<longleftrightarrow> rot_inv E m \<and> 0 \<le> cm_now m"

lemma g_live:
  assumes "steps (keeps_inv E) p" "steps (\<lambda>m m'. cm_now m' = cm_now m) p"
  shows "guar (keeps_inv E) (live E) p (\<lambda>_. live E) (\<lambda>_. live E)"
proof -
  have "keeps_inv E m m' \<and> live E m'" if "live E m" "p m = (v, m')" for m v m'
    using steps_run [OF assms(1) that(2)] steps_run [OF assms(2) that(2)] that(1)
    by (simp add: live_def keeps_inv_def)
  then show ?thesis by (intro guarI) auto
qed

lemma save_run:
  assumes "save_ledger E m = (v, m')"
  shows "cm_mem m' = cm_mem m" "cm_launches m' = cm_launches m" "cm_now m' = cm_now m"
    "v = Inr u \<Longrightarrow> cm_disk m' = Some (Stored (cm_mem m))"
  using assms
  by (auto simp: save_ledger_def durable_def bnd_def thn_def consider_it_def consult_def split: fault.splits)

definition starting :: "rot_env \<Rightarrow> reservation \<Rightarrow> bool \<Rightarrow> rot_machine \<Rightarrow> bool" where
  "starting E r fresh m \<longleftrightarrow> live E m \<and> lg_pending (cm_mem m) = Some r \<and> rv_phase r \<noteq> Some ''selected'' \<and>
     (fresh \<longrightarrow> covers (lg_history (cm_mem m)) (rv_corner r) (cm_now m)) \<and>
     (fresh \<and> automatic r \<longrightarrow> (\<forall>k\<in>set (cm_launches m). la_fresh k \<and> rv_corner (la_request k) = rv_corner r \<longrightarrow>
        la_at k + re_cooldown E \<le> cm_now m))"

lemma save_ready:
  assumes "\<And>m. P m \<Longrightarrow> live E m \<and> (lg_pending (cm_mem m) = Some r \<and> lg_status (cm_mem m) = ''running''
        \<and> rv_phase r \<noteq> Some ''selected'' \<or> lg_manual_pending (cm_mem m) = Some r) \<and>
      (fresh \<longrightarrow> covers (lg_history (cm_mem m)) (rv_corner r) (cm_now m)) \<and>
      (fresh \<and> automatic r \<longrightarrow> (\<forall>k\<in>set (cm_launches m). la_fresh k \<and> rv_corner (la_request k) = rv_corner r \<longrightarrow>
        la_at k + re_cooldown E \<le> cm_now m))"
  shows "guar (keeps_inv E) P (save_ledger E) (\<lambda>_. ready_to_start E r fresh) (\<lambda>_ _. True)"
proof (rule guarI)
  fix m v m' assume P: "P m" and run: "save_ledger E m = (Inr v, m')"
  note same = save_run [OF run] and disk = save_run(4) [OF run refl]
  have keep: "keeps_inv E m m'" using kept.rs_save run by (rule steps_run)
  moreover have "ready_to_start E r fresh m'"
    using assms [OF P] keep same disk by (auto simp: ready_to_start_def live_def keeps_inv_def recorded_def)
  ultimately show "keeps_inv E m m' \<and> ready_to_start E r fresh m'" ..
next
  fix m x m' assume "save_ledger E m = (Inl x, m')"
  then show "keeps_inv E m m' \<and> True" using kept.rs_save by (blast dest: steps_run)
qed

lemma run_slot_keeps: "guar (keeps_inv E) (ready_to_start E r fresh) (run_slot E r fresh) (\<lambda>_ _. True) (\<lambda>_ _. True)"
  unfolding run_slot_def by (intro slot_keeps execute_keeps adapter_run_keeps)

lemma start_pending_keeps: "guar (keeps_inv E) (starting E r fresh) (start_pending E r now fresh) (\<lambda>_ _. True) (\<lambda>_ _. True)"
proof -
  let ?f = "\<lambda>L. L\<lparr>lg_status := ''running'', lg_reason := None\<rparr>"
  let ?P = "\<lambda>m. starting E r fresh m \<and> lg_status (cm_mem m) = ''running''"
  have mark: "guar (keeps_inv E) (starting E r fresh) (edit ?f) (\<lambda>_. ?P) (\<lambda>_ _. True)"
  proof (rule guarI)
    fix m v m' assume m: "starting E r fresh m" and run: "edit ?f m = (Inr v, m')"
    have "lesser ?f" by (simp add: lesser_def)
    from steps_run [OF kept.rs_lesser [OF this] run] m run show "keeps_inv E m m' \<and> ?P m'"
      by (auto simp: starting_def live_def keeps_inv_def edit_def)
  next
    fix m x m' assume "edit ?f m = (Inl x, m')"
    then show "keeps_inv E m m' \<and> True" by (simp add: edit_def)
  qed
  have save: "guar (keeps_inv E) ?P (save_ledger E) (\<lambda>_. ready_to_start E r fresh) (\<lambda>_ _. True)"
    by (rule save_ready) (simp add: starting_def)
  show ?thesis
    unfolding start_pending_def
    by (intro kept.g_thn [OF mark] kept.g_thn [OF save] kept.g_bnd [OF run_slot_keeps] kept.g_steps
        kept.rs_flow kept.rs_observed_of kept.rs_import_starts kept.rs_after_run) simp_all
qed

text \<open>Marking the reservation dispatched books the use of the corner.\<close>

lemma mark_dispatched_starts:
  "guar (keeps_inv E) (\<lambda>m. live E m \<and> cm_now m = now \<and> (rv_source r \<noteq> Some ''manual'' \<longrightarrow>
       \<not> cooling (re_cooldown E) (lg_history (cm_mem m)) now (rv_corner r)))
     (mark_dispatched E r now) (\<lambda>d. starting E d True) (\<lambda>_ _. True)"
proof (rule guarI)
  fix m d m' assume m: "live E m \<and> cm_now m = now \<and> (rv_source r \<noteq> Some ''manual'' \<longrightarrow>
       \<not> cooling (re_cooldown E) (lg_history (cm_mem m)) now (rv_corner r))"
    and run: "mark_dispatched E r now m = (Inr d, m')"
  from run have d: "d = r\<lparr>rv_phase := Some ''dispatched''\<rparr>" and l: "cm_launches m' = cm_launches m"
    and n: "cm_now m' = cm_now m" and p: "lg_pending (cm_mem m') = Some d"
    and h: "\<exists>src. lg_history (cm_mem m') = lg_history (cm_mem m) @ [\<lparr>us_corner = rv_corner r, us_at = now, us_source = src\<rparr>]"
    by (auto simp: mark_dispatched_def Let_def bnd_def thn_def edit_def mem_def add_use_def
        split: if_splits option.splits)
  have keep: "keeps_inv E m m'" using kept.rs_mark_dispatched run by (rule steps_run)
  have "la_at k + re_cooldown E \<le> now"
    if "automatic d" "k \<in> set (cm_launches m)" "la_fresh k" "rv_corner (la_request k) = rv_corner d" for k
    using that m d unfolding live_def rot_inv_def ledger_good_def remembers_def automatic_def
    by (auto intro: covers_cooling)
  with keep m l n p h show "keeps_inv E m m' \<and> starting E d True m'"
    by (auto simp: starting_def live_def keeps_inv_def d)
next
  fix m x m' assume "mark_dispatched E r now m = (Inl x, m')"
  then show "keeps_inv E m m' \<and> True" using kept.rs_mark_dispatched by (blast dest: steps_run)
qed

definition chosen :: "rot_env \<Rightarrow> reservation \<Rightarrow> rot_machine \<Rightarrow> bool" where
  "chosen E r m \<longleftrightarrow> live E m \<and> lg_pending (cm_mem m) = Some r"

lemma chosen_frame: "keeps_files m m' \<Longrightarrow> chosen E r m \<Longrightarrow> chosen E r m'"
  unfolding keeps_files_def chosen_def live_def rot_inv_def disk_good_def by metis

lemma chosen_files: "steps keeps_files p \<Longrightarrow> guar (keeps_inv E) (chosen E r) p (\<lambda>_. chosen E r) (\<lambda>_ _. True)"
  by (rule guar_conseq [OF g_files [OF _ chosen_frame]]) auto

lemma run_pending_keeps: "guar (keeps_inv E) (chosen E r) (run_pending E r el mel) (\<lambda>_ _. True) (\<lambda>_ _. True)"
proof -
  have now: "guar (keeps_inv E) (chosen E r) now_is (\<lambda>t m. chosen E r m \<and> cm_now m = t) (\<lambda>_ _. True)"
    unfolding now_is_def by (rule kept.g_asks) simp
  have hot: "guar (keeps_inv E) (\<lambda>m. chosen E r m \<and> cm_now m = t)
      (mem (\<lambda>L. cooling (re_cooldown E) (lg_history L) t (rv_corner r)))
      (\<lambda>b m. chosen E r m \<and> cm_now m = t \<and> b = cooling (re_cooldown E) (lg_history (cm_mem m)) t (rv_corner r))
      (\<lambda>_ _. True)" for t
    unfolding mem_def by (rule kept.g_asks) simp
  have wait: "guar (keeps_inv E) P (wait_with E why) (\<lambda>_ _. True) (\<lambda>_ _. True)" for P why
    by (intro kept.g_steps kept.rs_wait) simp_all
  have mark: "guar (keeps_inv E) (\<lambda>m. chosen E r m \<and> cm_now m = t \<and> b = cooling (re_cooldown E) (lg_history (cm_mem m)) t (rv_corner r))
      (mark_dispatched E r t) (\<lambda>d. starting E d True) (\<lambda>_ _. True)"
    if "\<not> (rv_source r \<noteq> Some ''manual'' \<and> b)" for t b
    using mark_dispatched_starts [of E t r] by (rule guar_conseq) (use that in \<open>auto simp: chosen_def\<close>)
  have go: "guar (keeps_inv E) (\<lambda>m. chosen E r m \<and> cm_now m = t) (start_pending E r t False) (\<lambda>_ _. True) (\<lambda>_ _. True)"
    if "rv_phase r \<noteq> Some ''selected''" for t
    using start_pending_keeps [of E r False t] by (rule guar_conseq) (use that in \<open>auto simp: chosen_def starting_def\<close>)
  show ?thesis
    unfolding run_pending_def Let_def
    by (intro kept.g_thn [OF chosen_files] filed.so_unless kept.g_bnd [OF chosen_files] files_observed kept.g_if wait
        kept.g_bnd [OF now] go kept.g_bnd [OF hot] kept.g_bnd [OF mark] start_pending_keeps)
qed


section \<open>One tick\<close>

lemma g_live_steps:
  assumes "steps (keeps_inv E) p" "steps (\<lambda>m m'. cm_now m' = cm_now m) p"
  shows "guar (keeps_inv E) (live E) p (\<lambda>_. live E) (\<lambda>_ _. True)"
  using g_live [OF assms] by (rule guar_conseq) auto

lemma edit_run: "edit f m = (Inr (), m\<lparr>cm_mem := f (cm_mem m)\<rparr>)"
  by (simp add: edit_def)

lemma thn_InrE:
  assumes "thn p q m = (Inr y, m')"
  obtains v u where "p m = (Inr v, u)" "q u = (Inr y, m')"
  using assms unfolding thn_def by (rule bnd_InrE)

lemma write_ahead_run:
  assumes "write_ahead E r m = (Inr u, m')"
  shows "lg_pending (cm_mem m') = Some r"
proof -
  from assms obtain v a w b where "edit (\<lambda>L. L\<lparr>lg_pending := Some r, lg_slot := lg_slot L + 1\<rparr>) m = (Inr v, a)"
      "save_ledger E a = (Inr w, b)" "clear_notice E b = (Inr u, m')"
    unfolding write_ahead_def by (elim thn_InrE)
  with save_run(1) [of E a "Inr w" b] steps_run [OF files_clear_notice, of E b "Inr u" m'] show ?thesis
    by (auto simp: edit_run keeps_files_def)
qed

lemma early_run: "early p m = (Inr (Inr x), m') \<Longrightarrow> False"
  by (auto simp: early_def bnd_def split: prod.splits sum.splits)

lemma adopt_run:
  assumes "adopt_queued E mel m = (Inr (Inr p), m')"
  shows "lg_pending (cm_mem m') = p"
proof (cases "due_queued (cm_mem m) (cm_now m)")
  case None
  with assms show ?thesis by (auto simp: adopt_queued_def now_is_def mem_def bnd_def)
next
  case (Some q)
  let ?r = "q\<lparr>rv_phase := Some ''selected'', rv_source := Some ''manual''\<rparr>"
  let ?drop = "\<lambda>L. L\<lparr>lg_queued_manual := None\<rparr>"
  let ?fin = "ret (Inr (Some ?r)) :: (tick_outcome + reservation option) rot"
  from assms Some have "(if rv_corner q \<notin> set mel then early (wait_with E ''queued-manual-disabled-or-paused'')
      else thn (edit ?drop) (thn (write_ahead E ?r) ?fin)) m = (Inr (Inr p), m')"
    by (auto simp: adopt_queued_def now_is_def mem_def bnd_def thn_def unless_def Let_def split: if_splits)
  then have "thn (edit ?drop) (thn (write_ahead E ?r) ?fin) m = (Inr (Inr p), m')"
    by (auto split: if_splits dest: early_run)
  then obtain u v w where "write_ahead E ?r u = (Inr v, w)" "?fin w = (Inr (Inr p), m')"
    by (elim thn_InrE)
  with write_ahead_run [of E ?r u v w] show ?thesis by auto
qed

lemma draw_run:
  assumes "draw_corner E el future m = (Inr (Inr r), m')"
  shows "lg_pending (cm_mem m') = Some r"
proof -
  let ?L = "anchor_due E (cm_now m) (cm_mem m)"
  let ?m = "m\<lparr>cm_mem := ?L\<rparr>"
  let ?c = "chosen_corner E ?L (read_notice (cm_notice m))
      (auto_candidates (re_cooldown E) (lg_history ?L) el (cm_now m) (map_option rv_corner future))"
  note run = assms [unfolded draw_corner_def now_is_def bnd_def thn_def edit_def mem_def notice_now_def Let_def]
  have el: "el \<noteq> []" using run by (auto dest: early_run)
  have due: "\<not> (\<not> re_queue_mode E \<and> cm_now m < lg_next_due_at ?L)" using run el by (auto dest: early_run)
  show ?thesis
  proof (cases ?c)
    case None
    with run el due have False by (auto dest: early_run)
    then show ?thesis ..
  next
    case (Some c)
    let ?r = "new_reservation E ?L c (cm_now m)"
    let ?fin = "ret (Inr ?r) :: (tick_outcome + reservation) rot"
    from Some assms el due have "thn (write_ahead E ?r) ?fin ?m = (Inr (Inr r), m')"
      by (simp add: draw_corner_def now_is_def bnd_def thn_def edit_def mem_def notice_now_def Let_def)
    then obtain v u where "write_ahead E ?r ?m = (Inr v, u)" "?fin u = (Inr (Inr r), m')"
      by (elim thn_InrE)
    with write_ahead_run [of E ?r ?m v u] show ?thesis by auto
  qed
qed

lemma g_run:
  assumes "steps (keeps_inv E) p" "steps (\<lambda>m m'. cm_now m' = cm_now m) p"
    and "\<And>m v m'. p m = (Inr v, m') \<Longrightarrow> live E m' \<Longrightarrow> Q v m'"
  shows "guar (keeps_inv E) (live E) p Q (\<lambda>_ _. True)"
proof (rule guarI)
  fix m v m' assume "live E m" "p m = (Inr v, m')"
  with guarD [OF g_live [OF assms(1,2)]] assms(3) show "keeps_inv E m m' \<and> Q v m'" by blast
next
  fix m x m' assume "live E m" "p m = (Inl x, m')"
  with guarD_exn [OF g_live [OF assms(1,2)]] show "keeps_inv E m m' \<and> True" by blast
qed

lemma g_returning:
  assumes "guar (keeps_inv E) P p (\<lambda>v m. case v of Inl _ \<Rightarrow> True | Inr x \<Rightarrow> M x m) X"
    and "\<And>x. guar (keeps_inv E) (M x) (f x) Q X" "\<And>v m. Q v m"
  shows "guar (keeps_inv E) P (returning p f) Q X"
  unfolding returning_def using assms by (intro kept.g_bnd [OF assms(1)]) (auto split: sum.split intro: kept.g_ret)

lemma dispatch_keeps: "guar (keeps_inv E) (live E) (dispatch_next E future busy) (\<lambda>_ _. True) (\<lambda>_ _. True)"
proof -
  have adopt: "guar (keeps_inv E) (live E) (adopt_queued E mel)
      (\<lambda>v m. case v of Inl _ \<Rightarrow> True | Inr p \<Rightarrow> live E m \<and> lg_pending (cm_mem m) = p) (\<lambda>_ _. True)" for mel
    by (rule g_run [OF kept.rs_adopt timed.rs_adopt]) (auto dest: adopt_run split: sum.split)
  have draw: "guar (keeps_inv E) (live E) (draw_corner E el future)
      (\<lambda>v m. case v of Inl _ \<Rightarrow> True | Inr r \<Rightarrow> chosen E r m) (\<lambda>_ _. True)" for el
    by (rule g_run [OF kept.rs_draw timed.rs_draw]) (auto dest: draw_run simp: chosen_def split: sum.split)
  have choose: "guar (keeps_inv E) (\<lambda>m. live E m \<and> lg_pending (cm_mem m) = p)
      (case p of Some r \<Rightarrow> ret (Inr r) | None \<Rightarrow> draw_corner E el future)
      (\<lambda>v m. case v of Inl _ \<Rightarrow> True | Inr r \<Rightarrow> chosen E r m) (\<lambda>_ _. True)" for p el
    by (cases p) (auto simp: chosen_def intro: kept.g_ret guar_conseq [OF draw])
  have book: "guar (keeps_inv E) (live E) (edit (\<lambda>L. L\<lparr>lg_eligible := el, lg_excluded := ex, lg_interval := i\<rparr>))
      (\<lambda>_. live E) (\<lambda>_ _. True)" for el ex i
    by (intro g_live_steps kept.rs_lesser timed.rs_lesser) (simp_all add: lesser_def)
  have now: "guar (keeps_inv E) (live E) now_is (\<lambda>_. live E) (\<lambda>_ _. True)"
    by (intro g_live_steps kept.rs_now_is timed.rs_now_is)
  have sync: "guar (keeps_inv E) (live E) (sync_notice E t el future) (\<lambda>_. live E) (\<lambda>_ _. True)" for t el
    by (intro g_live_steps kept.rs_sync_notice timed.rs_sync_notice)
  have wait: "guar (keeps_inv E) (live E) (wait_with E why) (\<lambda>_ _. True) (\<lambda>_ _. True)" for why
    by (intro kept.g_steps kept.rs_wait) simp_all
  have el: "guar (keeps_inv E) (live E) (eligible_corners E im) (\<lambda>_. live E) (\<lambda>_ _. True)" for im
    by (intro g_live_steps kept.rs_eligible timed.rs_eligible)
  show ?thesis
    unfolding dispatch_next_def
    by (intro kept.g_bnd [OF el] kept.g_prod kept.g_thn [OF book] kept.g_bnd [OF now] kept.g_thn [OF sync] kept.g_if wait
        g_returning [OF adopt] g_returning [OF choose] run_pending_keeps) simp_all
qed


text \<open>The manual reservation, from the ledger read at the start of the tick to its replay.\<close>

definition held_on_disk :: "rot_env \<Rightarrow> reservation \<Rightarrow> rot_machine \<Rightarrow> bool" where
  "held_on_disk E r m \<longleftrightarrow> live E m \<and> (\<exists>L. cm_disk m = Some (Stored L) \<and> lg_manual_pending L = Some r)"

lemma held_frame: "keeps_files m m' \<Longrightarrow> held_on_disk E r m \<Longrightarrow> held_on_disk E r m'"
  unfolding keeps_files_def held_on_disk_def live_def rot_inv_def disk_good_def by metis

lemma held_files: "steps keeps_files p \<Longrightarrow> guar (keeps_inv E) (held_on_disk E r) p (\<lambda>_. held_on_disk E r) (\<lambda>_ _. True)"
  by (rule guar_conseq [OF g_files [OF _ held_frame]]) auto

lemma files_reconcile: "steps keeps_files (reconcile_failed_start E r man now)"
  unfolding reconcile_failed_start_def resources_free_def Let_def
  by (intro filed.so_rules files_consult files_clock)

lemma files_observed_if_known: "steps keeps_files (observed_if_known E r)"
  unfolding observed_if_known_def by (intro filed.so_rules files_observed)

lemma commit_none_files:
  assumes "commit_failed_start E r man now m = (Inr None, m')"
  shows "keeps_files m m'"
proof -
  obtain v u where r: "reconcile_failed_start E r man now m = (v, u)" by fastforce
  with assms have "u = m'"
    by (auto simp: commit_failed_start_def bnd_def thn_def split: sum.splits option.splits prod.splits)
  with r steps_run [OF files_reconcile] show ?thesis by blast
qed

lemma triple_any: "triple P p (\<lambda>_ _. True) (\<lambda>_ _. True)"
  by (rule tripleI) auto

lemma triple_edit: "(\<And>m. Q () (m\<lparr>cm_mem := f (cm_mem m)\<rparr>)) \<Longrightarrow> triple P (edit f) Q X"
  unfolding edit_def by (rule triple_alter)

lemma triple_skip: "triple (\<lambda>_. True) q Q (\<lambda>_ _. True) \<Longrightarrow> triple P (thn p q) Q (\<lambda>_ _. True)"
  by (rule triple_thn [OF triple_any])

lemma triple_then: "(\<And>v. triple (\<lambda>_. True) (f v) Q (\<lambda>_ _. True)) \<Longrightarrow> triple P (bnd p f) Q (\<lambda>_ _. True)"
  by (rule triple_bnd [OF triple_any])

lemma triple_option: "(x = None \<Longrightarrow> triple P p Q X) \<Longrightarrow> (\<And>v. x = Some v \<Longrightarrow> triple P (f v) Q X) \<Longrightarrow>
    triple P (case x of None \<Rightarrow> p | Some v \<Rightarrow> f v) Q X"
  by (cases x) auto

lemma parked: "triple P (thn (edit f) (ret v)) (\<lambda>_. Q) (\<lambda>_ _. True)" if "\<And>m. Q (m\<lparr>cm_mem := f (cm_mem m)\<rparr>)"
  by (rule triple_thn [OF triple_edit [where Q = "\<lambda>_. Q"] triple_ret]) (simp_all add: that)

lemma resolve_seen: "triple P (resolve_reservation E r now man) (\<lambda>_ m. lg_last_seen_at (cm_mem m) = now) (\<lambda>_ _. True)"
proof -
  have open_end: "triple P (unobserved E r now man) (\<lambda>_ m. lg_last_seen_at (cm_mem m) = now) (\<lambda>_ _. True)" for P
    unfolding unobserved_def Let_def
    by (intro triple_if parked triple_then) (simp_all add: mark_waiting_def)
  have commit: "triple P (thn (edit (commit_terminal r man raw fin st now)) (ret tk))
      (\<lambda>_ m. lg_last_seen_at (cm_mem m) = now) (\<lambda>_ _. True)" for P raw fin st and tk :: tick_outcome
    by (rule parked) (simp add: commit_terminal_def Let_def)
  have "triple P (thn q (bnd p1 (\<lambda>d. bnd p2 (\<lambda>st. thn (edit (commit_terminal r man raw (f d) st now)) (ret tk)))))
      (\<lambda>_ m. lg_last_seen_at (cm_mem m) = now) (\<lambda>_ _. True)"
    for P raw f and tk :: tick_outcome and q :: "unit rot" and p1 :: "rat rot" and p2
    by (rule triple_skip, rule triple_then, rule triple_then, rule commit)
  then show ?thesis
    unfolding resolve_reservation_def
    by (intro triple_then triple_if triple_raise triple_option open_end) (simp_all add: case_prod_unfold)
qed

lemma reconcile_now: "triple P (reconcile_failed_start E r man now) (\<lambda>v _. v = None \<or> v = Some now) (\<lambda>_ _. True)"
proof -
  have settle: "triple P (thn (unless (now \<le> min t now) x) (bnd p (\<lambda>b. thn (unless b y) (ret (Some (min t now))))))
      (\<lambda>v _. v = None \<or> v = Some now) (\<lambda>_ _. True)" for P t x y and p :: "bool rot"
  proof (cases "now \<le> t")
    case True
    then show ?thesis by (intro triple_skip triple_then) (simp add: triple_ret)
  next
    case False
    then show ?thesis by (simp add: unless_def thn_def triple_raise)
  qed
  show ?thesis
    unfolding reconcile_failed_start_def Let_def
    by (intro triple_if triple_option triple_then settle) (simp_all add: triple_ret)
qed

lemma commit_seen:
  assumes "commit_failed_start E r man now m = (Inr (Some tk), m')"
  shows "lg_last_seen_at (cm_mem m') = now"
proof -
  have "triple (\<lambda>_. True) (commit_failed_start E r man now)
      (\<lambda>v m. v \<noteq> None \<longrightarrow> lg_last_seen_at (cm_mem m) = now) (\<lambda>_ _. True)"
    unfolding commit_failed_start_def
  proof (rule triple_bnd [OF reconcile_now])
    fix s
    show "triple (\<lambda>_. s = None \<or> s = Some now)
        (case s of None \<Rightarrow> ret None
         | Some settled \<Rightarrow> thn (edit (\<lambda>L. L\<lparr>lg_last_seen_at := settled\<rparr>))
             (bnd (resolve_reservation E r settled man) (\<lambda>v. ret (Some v))))
        (\<lambda>v m. v \<noteq> None \<longrightarrow> lg_last_seen_at (cm_mem m) = now) (\<lambda>_ _. True)"
    proof (cases s)
      case None
      then show ?thesis by (simp add: triple_ret)
    next
      case (Some t)
      have "triple (\<lambda>_. True) (thn (edit (\<lambda>L. L\<lparr>lg_last_seen_at := t\<rparr>))
          (bnd (resolve_reservation E r t man) (\<lambda>v. ret (Some v))))
          (\<lambda>v m. lg_last_seen_at (cm_mem m) = t) (\<lambda>_ _. True)"
        by (intro triple_skip triple_bnd [OF resolve_seen] triple_ret)
      with Some show ?thesis by (cases "t = now") (auto simp: triple_def split: prod.splits sum.splits)
    qed
  qed
  from tripleD [OF this _ assms] show ?thesis by simp
qed


definition manual_left :: "rot_env \<Rightarrow> tick_outcome + reservation option \<Rightarrow> rot_machine \<Rightarrow> bool" where
  "manual_left E v m \<longleftrightarrow> (case v of Inl _ \<Rightarrow> True | Inr None \<Rightarrow> live E m | Inr (Some r) \<Rightarrow> held_on_disk E r m)"

lemma g_weaken: "guar (keeps_inv E) P p Q X \<Longrightarrow> (\<And>v m. Q v m \<Longrightarrow> Q' v m) \<Longrightarrow> guar (keeps_inv E) P p Q' (\<lambda>_ _. True)"
  by (erule guar_conseq) auto

lemma commit_failed_held:
  "guar (keeps_inv E) (held_on_disk E r) (commit_failed_start E r True t)
     (\<lambda>v m. if v = None then held_on_disk E r m else live E m) (\<lambda>_ _. True)"
proof (rule guarI)
  fix m v m' assume m: "held_on_disk E r m" and run: "commit_failed_start E r True t m = (Inr v, m')"
  have keep: "keeps_inv E m m'" using kept.rs_commit_failed run by (rule steps_run)
  moreover have "cm_now m' = cm_now m" using timed.rs_commit_failed run by (rule steps_run)
  moreover have "held_on_disk E r m'" if "v = None"
    using held_frame [OF commit_none_files m] run that by blast
  ultimately show "keeps_inv E m m' \<and> (if v = None then held_on_disk E r m' else live E m')"
    using m by (auto simp: held_on_disk_def live_def keeps_inv_def)
next
  fix m x m' assume "commit_failed_start E r True t m = (Inl x, m')"
  then show "keeps_inv E m m' \<and> True" using kept.rs_commit_failed by (blast dest: steps_run)
qed

lemma early_keeps: "steps (keeps_inv E) p \<Longrightarrow> guar (keeps_inv E) P (early p) (manual_left E) (\<lambda>_ _. True)"
  by (intro guarI) (auto simp: manual_left_def split: sum.split dest: steps_run [OF kept.rs_early] early_run)

lemma expire_keeps: "guar (keeps_inv E) (held_on_disk E r) (expire_capture E (Some r)) (manual_left E) (\<lambda>_ _. True)"
proof -
  have stay: "guar (keeps_inv E) (held_on_disk E r) (ret (Inr (Some r))) (manual_left E) (\<lambda>_ _. True)"
    by (rule kept.g_ret) (simp add: manual_left_def)
  have now: "guar (keeps_inv E) (held_on_disk E r) now_is (\<lambda>_. held_on_disk E r) (\<lambda>_ _. True)"
    unfolding now_is_def by (rule kept.g_asks)
  have kept_live: "guar (keeps_inv E) (held_on_disk E r) p (\<lambda>_. live E) (\<lambda>_ _. True)"
    if "steps (keeps_inv E) p" "steps (\<lambda>m m'. cm_now m' = cm_now m) p" for p :: "'x rot"
    using g_live_steps [OF that] by (rule guar_conseq) (auto simp: held_on_disk_def)
  have drop: "guar (keeps_inv E) (live E) (thn (edit (drop_expired r t)) (ret (Inr None))) (manual_left E) (\<lambda>_ _. True)" for t
    by (intro kept.g_thn [OF g_live_steps [OF kept.rs_drop_expired timed.rs_drop_expired]] kept.g_ret)
      (simp add: manual_left_def)
  have gone: "guar (keeps_inv E) (live E) (if busy then ret False else no_live_owner E r) (\<lambda>_. live E) (\<lambda>_ _. True)" for busy
    by (intro g_live_steps kept.so_if timed.so_if kept.so_ret timed.so_ret kept.rs_no_live_owner timed.rs_no_live_owner)
  have busy: "guar (keeps_inv E) (held_on_disk E r) (if owned \<noteq> [] then ret True else observe_corners E t)
      (\<lambda>_. live E) (\<lambda>_ _. True)" for owned :: "obs list" and t
    by (intro kept_live kept.so_if timed.so_if kept.so_ret timed.so_ret kept.rs_observe timed.rs_observe)
  have wait: "guar (keeps_inv E) P (early (wait_with E why)) (manual_left E) (\<lambda>_ _. True)" for P why
    by (intro early_keeps kept.rs_wait)
  have none: "guar (keeps_inv E) (\<lambda>m. if v = None then held_on_disk E r m else live E m)
      (case v of Some tk \<Rightarrow> thn (save_ledger E) (ret (Inl tk)) | None \<Rightarrow> p) (manual_left E) (\<lambda>_ _. True)"
    if "guar (keeps_inv E) (held_on_disk E r) p (manual_left E) (\<lambda>_ _. True)" for v p
  proof (cases v)
    case (Some tk)
    have "guar (keeps_inv E) (live E) (thn (save_ledger E) (ret (Inl tk))) (manual_left E) (\<lambda>_ _. True)"
      by (intro kept.g_thn [OF g_live_steps [OF kept.rs_save timed.rs_save]] kept.g_ret) (simp add: manual_left_def)
    with Some show ?thesis by simp
  qed (simp add: that)
  show ?thesis
    unfolding expire_capture_def option.case
    by (intro kept.g_prod)
      (auto split: option.split intro!: stay kept.g_bnd [OF now] kept.g_if kept.g_bnd [OF commit_failed_held] none
        kept.g_bnd [OF held_files [OF files_observed_if_known]] kept.g_bnd [OF held_files [OF filed.so_lift]]
        kept.g_bnd [OF busy] kept.g_bnd [OF gone] wait drop)
qed

lemma replay_manual_keeps: "guar (keeps_inv E) (held_on_disk E r) (replay_manual E r) (\<lambda>_ _. True) (\<lambda>_ _. True)"
proof -
  have slot: "guar (keeps_inv E) (held_on_disk E r) (run_slot E r False) (\<lambda>_ _. True) (\<lambda>_ _. True)"
    using run_slot_keeps [of E r False]
    by (rule guar_conseq) (auto simp: held_on_disk_def live_def ready_to_start_def recorded_def)
  have set: "steps (keeps_inv E) (set_now t)" for t
    unfolding set_now_def by (intro kept.rs_alter keeps_same) simp_all
  show ?thesis
    unfolding replay_manual_def
    by (intro kept.g_bnd [OF slot] kept.g_steps kept.rs_flow set kept.rs_resolve kept.rs_wait) simp_all
qed

lemma resume_keeps: "guar (keeps_inv E) (held_on_disk E r) (resume_manual E (Some r)) (manual_left E) (\<lambda>_ _. True)"
proof -
  have replay: "guar (keeps_inv E) (held_on_disk E r) (early (replay_manual E r)) (manual_left E) (\<lambda>_ _. True)"
    unfolding early_def
    by (intro kept.g_bnd [OF replay_manual_keeps] kept.g_ret) (simp add: manual_left_def)
  have now: "guar (keeps_inv E) (held_on_disk E r) now_is (\<lambda>t m. held_on_disk E r m \<and> 0 \<le> t) (\<lambda>_ _. True)"
    unfolding now_is_def by (rule kept.g_asks) (simp add: held_on_disk_def live_def)
  have commit: "guar (keeps_inv E) (\<lambda>m. held_on_disk E r m \<and> 0 \<le> t) (commit_failed_start E r True t)
      (\<lambda>v m. if v = None then held_on_disk E r m else live E m \<and> 0 \<le> lg_last_seen_at (cm_mem m)) (\<lambda>_ _. True)" for t
  proof (rule guarI)
    fix m v m' assume m: "held_on_disk E r m \<and> 0 \<le> t" and run: "commit_failed_start E r True t m = (Inr v, m')"
    from guarD [OF commit_failed_held _ run] m have
      "keeps_inv E m m' \<and> (if v = None then held_on_disk E r m' else live E m')" by blast
    then show "keeps_inv E m m' \<and> (if v = None then held_on_disk E r m' else live E m' \<and> 0 \<le> lg_last_seen_at (cm_mem m'))"
      using m commit_seen [of E r True t m _ m'] run by (cases v) auto
  next
    fix m x m' assume "commit_failed_start E r True t m = (Inl x, m')"
    then show "keeps_inv E m m' \<and> True" using kept.rs_commit_failed by (blast dest: steps_run)
  qed
  have seen: "guar (keeps_inv E) (\<lambda>m. live E m \<and> 0 \<le> lg_last_seen_at (cm_mem m)) (mem lg_last_seen_at)
      (\<lambda>t m. rot_inv E m \<and> 0 \<le> t) (\<lambda>_ _. True)"
    unfolding mem_def by (rule kept.g_asks) (simp add: live_def)
  have set: "guar (keeps_inv E) (\<lambda>m. rot_inv E m \<and> 0 \<le> t) (set_now t) (\<lambda>_. live E) (\<lambda>_ _. True)" for t
  proof (rule guarI)
    fix m v m' assume m: "rot_inv E m \<and> 0 \<le> t" and run: "set_now t m = (Inr v, m')"
    then have "keeps_inv E m m'" by (auto simp: set_now_def intro: keeps_same)
    with m run show "keeps_inv E m m' \<and> live E m'" by (auto simp: set_now_def live_def keeps_inv_def)
  qed (simp add: set_now_def)
  have done_with: "guar (keeps_inv E) (\<lambda>m. if v = None then held_on_disk E r m else live E m \<and> 0 \<le> lg_last_seen_at (cm_mem m))
      (case v of None \<Rightarrow> ret (Inr (Some r))
       | Some tk \<Rightarrow> bnd (mem lg_last_seen_at) (\<lambda>t. thn (set_now t) (thn (save_ledger E) (ret (Inr None)))))
      (manual_left E) (\<lambda>_ _. True)" for v :: "tick_outcome option"
  proof (cases v)
    case None
    then show ?thesis by (auto intro!: kept.g_ret simp: manual_left_def)
  next
    case (Some tk)
    have "guar (keeps_inv E) (\<lambda>m. live E m \<and> 0 \<le> lg_last_seen_at (cm_mem m))
        (bnd (mem lg_last_seen_at) (\<lambda>t. thn (set_now t) (thn (save_ledger E) (ret (Inr None))))) (manual_left E) (\<lambda>_ _. True)"
      by (intro kept.g_bnd [OF seen] kept.g_thn [OF set] kept.g_thn [OF g_live_steps [OF kept.rs_save timed.rs_save]] kept.g_ret)
        (simp add: manual_left_def)
    with Some show ?thesis by simp
  qed
  have look: "steps keeps_files (if resumable_manual E r then observed_of E (rv_corner r) (rv_request_id r) else ret [])"
    by (intro filed.so_if files_observed filed.so_ret)
  show ?thesis
    unfolding resume_manual_def option.case
    by (intro kept.g_bnd [OF held_files [OF look]] kept.g_thn [OF held_files [OF filed.so_unless]] kept.g_if replay
        kept.g_bnd [OF now] kept.g_bnd [OF commit] done_with)
qed


lemma observe_live: "guar (keeps_inv E) (live E) (observe_corners E t) (\<lambda>_. live E) (\<lambda>_ _. True)"
  by (intro g_live_steps kept.rs_observe timed.rs_observe)

lemma tick_body_keeps:
  "guar (keeps_inv E) (\<lambda>m. live E m \<and> link m) (tick_body E future) (\<lambda>_ _. True) (\<lambda>_ _. True)"
proof -
  have mem: "guar (keeps_inv E) (\<lambda>m. live E m \<and> link m) (mem lg_manual_pending)
      (\<lambda>v m. case v of None \<Rightarrow> live E m | Some r \<Rightarrow> held_on_disk E r m) (\<lambda>_ _. True)"
    unfolding mem_def by (rule kept.g_asks) (auto simp: link_def held_on_disk_def split: option.split)
  have ret_none: "guar (keeps_inv E) (live E) (ret (Inr None)) (manual_left E) (\<lambda>_ _. True)"
    by (rule kept.g_ret) (simp add: manual_left_def)
  have none: "expire_capture E None = ret (Inr None)" "resume_manual E None = ret (Inr None)"
    by (simp_all add: expire_capture_def resume_manual_def)
  have expire: "guar (keeps_inv E) (\<lambda>m. case v of None \<Rightarrow> live E m | Some r \<Rightarrow> held_on_disk E r m)
      (expire_capture E v) (\<lambda>v m. case v of Inl _ \<Rightarrow> True | Inr x \<Rightarrow>
        (case x of None \<Rightarrow> live E m | Some r \<Rightarrow> held_on_disk E r m)) (\<lambda>_ _. True)" for v
    using expire_keeps [of E] ret_none
    by (cases v) (auto simp: none manual_left_def [abs_def])
  have resume: "guar (keeps_inv E) (\<lambda>m. case v of None \<Rightarrow> live E m | Some r \<Rightarrow> held_on_disk E r m)
      (resume_manual E v) (\<lambda>v m. case v of Inl _ \<Rightarrow> True | Inr x \<Rightarrow> live E m) (\<lambda>_ _. True)" for v
  proof (cases v)
    case None
    show ?thesis unfolding None none option.case
      by (rule g_weaken [OF ret_none]) (auto simp: manual_left_def held_on_disk_def split: sum.splits option.splits)
  next
    case (Some r)
    show ?thesis unfolding Some option.case
      by (rule g_weaken [OF resume_keeps]) (auto simp: manual_left_def held_on_disk_def split: sum.splits option.splits)
  qed
  have now: "guar (keeps_inv E) (live E) now_is (\<lambda>_. live E) (\<lambda>_ _. True)"
    by (intro g_live_steps kept.rs_now_is timed.rs_now_is)
  have rest: "guar (keeps_inv E) (live E) (case v of Some r \<Rightarrow> finish_manual E r | None \<Rightarrow> dispatch_next E future busy)
      (\<lambda>_ _. True) (\<lambda>_ _. True)" for v busy
    by (intro kept.g_option dispatch_keeps kept.g_steps kept.rs_finish_manual) simp_all
  show ?thesis
    unfolding tick_body_def
    by (intro kept.g_bnd [OF mem] g_returning [OF expire] g_returning [OF resume] kept.g_bnd [OF now]
        kept.g_bnd [OF observe_live] rest) simp_all
qed

lemma guarded_keeps:
  "guar (keeps_inv E) (\<lambda>m. live E m \<and> link m) (guarded_tick E future) (\<lambda>_ _. True) (\<lambda>_ _. True)"
proof -
  have "guar (keeps_inv E) (\<lambda>m. live E m \<and> link m) (attempt catchable (tick_body E future)) (\<lambda>_ _. True) (\<lambda>_ _. True)"
    using tick_body_keeps [of E future] by (intro kept.g_attempt) (erule guar_conseq; simp)
  then show ?thesis
    unfolding guarded_tick_def
    by (rule kept.g_bnd) (auto split: sum.split intro!: kept.g_ret kept.g_steps kept.rs_handle_failure)
qed

definition loaded :: "rot_env \<Rightarrow> rot_machine \<Rightarrow> bool" where
  "loaded E m \<longleftrightarrow> rot_inv E m \<and> link m"

lemma loaded_steps:
  assumes "steps (keeps_inv E) p" "steps (\<lambda>m m'. link m \<longrightarrow> link m') p"
  shows "guar (keeps_inv E) (loaded E) p (\<lambda>_. loaded E) (\<lambda>_ _. True)"
proof -
  have "keeps_inv E m m' \<and> loaded E m'" if "loaded E m" "p m = (v, m')" for m v m'
    using steps_run [OF assms(1) that(2)] steps_run [OF assms(2) that(2)] that(1)
    by (simp add: loaded_def keeps_inv_def)
  then show ?thesis by (intro guarI) auto
qed

lemma in_time_keeps:
  assumes "0 \<le> now"
  shows "guar (keeps_inv E) (loaded E) (in_time_tick E now future) (\<lambda>_ _. True) (\<lambda>_ _. True)"
proof -
  have reg: "guar (keeps_inv E) (loaded E) (mem f) (\<lambda>_. loaded E) (\<lambda>_ _. True)" for f :: "ledger \<Rightarrow> bool"
    by (intro loaded_steps kept.rs_mem linked.rs_mem)
  have gap: "guar (keeps_inv E) (loaded E) (note_gap E now) (\<lambda>_. loaded E) (\<lambda>_ _. True)"
    by (intro loaded_steps kept.rs_note_gap linked.rs_note_gap)
  have wait: "guar (keeps_inv E) (loaded E) (thn (clear_notice E) (wait_with E why)) (\<lambda>_ _. True) (\<lambda>_ _. True)" for why
    by (intro kept.g_steps kept.so_thn kept.rs_clear_notice kept.rs_wait) simp_all
  have set: "guar (keeps_inv E) (loaded E) (set_now now) (\<lambda>_ m. live E m \<and> link m) (\<lambda>_ _. True)"
  proof (rule guarI)
    fix m v m' assume m: "loaded E m" and run: "set_now now m = (Inr v, m')"
    then have "keeps_inv E m m'" by (auto simp: set_now_def intro: keeps_same)
    with m run assms show "keeps_inv E m m' \<and> live E m' \<and> link m'"
      by (auto simp: set_now_def live_def keeps_inv_def loaded_def link_def)
  qed (simp add: set_now_def)
  show ?thesis
    unfolding in_time_tick_def
    by (intro kept.g_bnd [OF reg] kept.g_if wait kept.g_thn [OF gap] kept.g_thn [OF set] guarded_keeps)
qed

section \<open>The public operations\<close>

definition keeps_disk :: "rot_env \<Rightarrow> rot_machine \<Rightarrow> rot_machine \<Rightarrow> bool" where
  "keeps_disk E m m' \<longleftrightarrow> (disk_good E m \<longrightarrow> disk_good E m')"

interpretation disk: step_order "keeps_disk E" for E
  by unfold_locales (auto simp: keeps_disk_def)

lemma disk_same: "cm_disk m' = cm_disk m \<Longrightarrow> cm_launches m' = cm_launches m \<Longrightarrow> keeps_disk E m m'"
  unfolding keeps_disk_def disk_good_def by metis

lemma disk_good_mem: "disk_good E m \<Longrightarrow> disk_good E (m\<lparr>cm_mem := L\<rparr>)"
  using disk_same [of "m\<lparr>cm_mem := L\<rparr>" m E] by (simp add: keeps_disk_def)

lemma files_disk: "steps keeps_files p \<Longrightarrow> steps (keeps_disk E) p"
  by (simp add: steps_def keeps_files_def disk_same)

lemma from_loaded:
  assumes "guar (keeps_inv E) P p Q X" "\<And>m. P m \<Longrightarrow> rot_inv E m"
  shows "guar (keeps_disk E) P p Q X"
  using assms by (fastforce simp: guar_def keeps_inv_def keeps_disk_def rot_inv_def split: prod.splits sum.splits)

lemma files_initial_known: "steps keeps_files (initial_known E fs kn)"
proof (induction fs arbitrary: kn)
  case Nil
  show ?case unfolding initial_known.simps by (rule filed.so_ret)
next
  case (Cons f fs)
  obtain doc ad fixed where "f = (doc, ad, fixed)" by (cases f)
  then show ?case
    by (auto intro!: filed.so_bnd files_consult filed.so_raise filed.so_ret Cons split: option.split doc.split)
qed

lemma files_any_owned: "steps keeps_files (any_owned E ks)"
proof (induction ks)
  case Nil
  show ?case unfolding any_owned.simps by (rule filed.so_ret)
next
  case (Cons k ks)
  show ?case unfolding any_owned.simps by (intro filed.so_bnd filed.so_if filed.so_ret files_consult Cons)
qed

lemma blank_new: "bounded (blank_ledger E now kn) \<and> lg_manual_pending (blank_ledger E now kn) = None"
  by (simp add: blank_ledger_def bounded_def)

lemma import_legacy_new: "import_legacy E now r (blank_ledger E now kn) = Inr L \<Longrightarrow>
    bounded L \<and> lg_manual_pending L = None"
  by (auto simp: import_legacy_def blank_ledger_def bounded_def after_Inr split: if_splits)

lemma files_first: "steps keeps_files (first_ledger E now)"
  unfolding first_ledger_def
  by (intro filed.so_bnd filed.so_if filed.so_raise files_any_owned files_initial_known files_consult)
    (auto split: option.split doc.split intro: filed.so_ret filed.so_raise filed.so_lift)

lemma first_ledger_new: "triple P (first_ledger E now) (\<lambda>L _. bounded L \<and> lg_manual_pending L = None) (\<lambda>_ _. True)"
  unfolding first_ledger_def
  by (intro triple_then triple_if triple_raise)
    (auto split: option.split doc.split intro!: triple_raise triple_ret tripleI simp: blank_new dest: import_legacy_new)


text \<open>Reading the ledger establishes the invariant in memory.\<close>

lemma load_run:
  assumes "disk_good E m" "load_ledger E now m = (Inr v, m')"
  shows "loaded E m'" "cm_disk m' = cm_disk m"
    "cm_disk m = Some (Stored L) \<Longrightarrow> cm_mem m' = L"
proof -
  from assms(2) obtain M u where read: "(case cm_disk m of
        None \<Rightarrow> first_ledger E now | Some Unreadable \<Rightarrow> raise wrong
      | Some (Stored L) \<Rightarrow> bnd (lift (check_ledger L)) (\<lambda>_. ret L)) m = (Inr M, u)"
      and m': "m' = u\<lparr>cm_mem := M\<rparr>"
    by (auto simp: load_ledger_def edit_def elim!: bnd_InrE)
  have "loaded E m' \<and> cm_disk m' = cm_disk m \<and> (\<forall>L. cm_disk m = Some (Stored L) \<longrightarrow> cm_mem m' = L)"
  proof (cases "cm_disk m")
    case None
    with read have first: "first_ledger E now m = (Inr M, u)" by simp
    then have same: "keeps_files m u" using files_first by (blast dest: steps_run)
    have "bounded M \<and> lg_manual_pending M = None" using tripleD [OF first_ledger_new _ first] by simp
    moreover have "cm_launches m = []" using assms(1) None by (simp add: disk_good_def)
    ultimately show ?thesis
      using same None assms(1)
      by (simp add: m' loaded_def rot_inv_def disk_good_def keeps_files_def ledger_good_def remembers_def link_def)
  next
    case (Some d)
    show ?thesis
    proof (cases d)
      case Unreadable
      with Some read show ?thesis by simp
    next
      case (Stored L)
      with Some read have "M = L" "u = m" by (auto elim!: bnd_InrE)
      with Some Stored assms(1) show ?thesis
        by (simp add: m' loaded_def rot_inv_def disk_good_def link_def)
    qed
  qed
  then show "loaded E m'" "cm_disk m' = cm_disk m" "cm_disk m = Some (Stored L) \<Longrightarrow> cm_mem m' = L" by auto
qed

lemma load_steps: "steps (keeps_disk E) (load_ledger E now)"
proof -
  have "steps keeps_files (case d of None \<Rightarrow> first_ledger E now | Some Unreadable \<Rightarrow> raise wrong
      | Some (Stored L) \<Rightarrow> bnd (lift (check_ledger L)) (\<lambda>_. ret L))" for d
    by (auto split: option.split doc.split intro: files_first filed.so_raise filed.so_bnd filed.so_lift filed.so_ret)
  then have "steps (keeps_disk E) (case d of None \<Rightarrow> first_ledger E now | Some Unreadable \<Rightarrow> raise wrong
      | Some (Stored L) \<Rightarrow> bnd (lift (check_ledger L)) (\<lambda>_. ret L))" for d
    by (rule files_disk)
  moreover have "steps (keeps_disk E) (edit f)" for f
    by (simp add: steps_def edit_def disk_same)
  ultimately show ?thesis
    unfolding load_ledger_def by (intro disk.so_bnd disk.so_asks)
qed

lemma load_loaded: "guar (keeps_disk E) (disk_good E) (load_ledger E now) (\<lambda>_. loaded E) (\<lambda>_ _. True)"
  using load_steps [of E now] by (intro guarI) (auto dest: steps_run load_run(1))

lemma clock_positive: "guar (keeps_disk E) (disk_good E) (clock_now E) (\<lambda>t m. disk_good E m \<and> 0 \<le> t) (\<lambda>_ _. True)"
proof (rule guarI)
  fix m t m' assume m: "disk_good E m" and run: "clock_now E m = (Inr t, m')"
  have "keeps_disk E m m'" using files_disk [OF files_clock] run by (rule steps_run)
  moreover have "0 \<le> t" using run
    by (auto simp: clock_now_def consider_it_def consult_def bnd_def timestamp_def after_Inr split: if_splits)
  ultimately show "keeps_disk E m m' \<and> disk_good E m' \<and> 0 \<le> t" using m by (simp add: keeps_disk_def)
next
  fix m x m' assume "clock_now E m = (Inl x, m')"
  then show "keeps_disk E m m' \<and> True" using files_disk [OF files_clock] by (blast dest: steps_run)
qed

lemma lesser_known: "lesser (\<lambda>L. L\<lparr>lg_known := f (lg_known L)\<rparr>)"
  by (simp add: lesser_def)

lemma with_ledger:
  assumes p: "\<And>t. 0 \<le> t \<Longrightarrow> guar (keeps_disk E) (loaded E) (p t) (\<lambda>_ _. True) (\<lambda>_ _. True)"
  shows "steps (keeps_disk E) (bnd (clock_now E) (\<lambda>t. thn (load_ledger E t) (p t)))"
proof -
  have body: "guar (keeps_disk E) (\<lambda>m. disk_good E m \<and> 0 \<le> t) (thn (load_ledger E t) (p t)) (\<lambda>_ _. True) (\<lambda>_ _. True)" for t
  proof (cases "0 \<le> t")
    case True
    show ?thesis
      by (rule guar_conseq [OF disk.g_thn [OF load_loaded p [OF True]]]) auto
  qed (simp add: guar_def)
  have all: "guar (keeps_disk E) (disk_good E) (bnd (clock_now E) (\<lambda>t. thn (load_ledger E t) (p t))) (\<lambda>_ _. True) (\<lambda>_ _. True)"
    by (rule disk.g_bnd [OF clock_positive body])
  show ?thesis
    unfolding steps_def
  proof
    fix m
    obtain r m' where run: "bnd (clock_now E) (\<lambda>t. thn (load_ledger E t) (p t)) m = (r, m')" by fastforce
    show "keeps_disk E m (snd (bnd (clock_now E) (\<lambda>t. thn (load_ledger E t) (p t)) m))"
    proof (cases "disk_good E m")
      case True
      with guarD [OF all True] guarD_exn [OF all True] run show ?thesis by (cases r) auto
    qed (simp add: keeps_disk_def)
  qed
qed

lemma known_loaded: "guar (keeps_inv E) (loaded E) (edit (\<lambda>L. L\<lparr>lg_known := f (lg_known L)\<rparr>)) (\<lambda>_. loaded E) (\<lambda>_ _. True)"
  by (intro loaded_steps kept.rs_lesser linked.rs_lesser lesser_known)

lemma locked_tick_keeps: "steps (keeps_disk E) (locked_tick E)"
proof -
  have clear: "guar (keeps_inv E) (loaded E) (clear_latch E t)
      (\<lambda>v m. case v of Inl _ \<Rightarrow> True | Inr x \<Rightarrow> loaded E m) (\<lambda>_ _. True)" for t
    using loaded_steps [OF kept.rs_clear_latch linked.rs_clear_latch] by (rule guar_conseq) (auto split: sum.split)
  have import_it: "guar (keeps_inv E) (loaded E) (import_manual E t) (\<lambda>_. loaded E) (\<lambda>_ _. True)" for t
    by (intro loaded_steps kept.rs_import_manual linked.rs_import_manual)
  show ?thesis
    unfolding locked_tick_def
    by (intro with_ledger from_loaded kept.g_thn [OF known_loaded] g_returning [OF clear] kept.g_bnd [OF import_it]
        in_time_keeps) (simp_all add: loaded_def)
qed

lemma disk_consult: "steps (keeps_disk E) (consult f)" "steps (keeps_disk E) (consider_it g)"
  by (intro files_disk files_consult)+

lemma enabled_keeps: "steps (keeps_disk E) p \<Longrightarrow> steps (keeps_disk E) (when_enabled E a b p)"
  unfolding when_enabled_def by (intro disk.so_rules disk_consult)

lemma tick_keeps: "steps (keeps_disk E) (tick E)"
  unfolding tick_def by (intro disk.so_thn disk_consult enabled_keeps locked_tick_keeps)


interpretation quiet: manual_steps "\<lambda>m m'. cm_launches m' = cm_launches m"
  by unfold_locales simp_all

definition recovering :: "rot_env \<Rightarrow> ledger \<Rightarrow> rot_machine \<Rightarrow> bool" where
  "recovering E L m \<longleftrightarrow> rot_inv E m \<and> ledger_good (cm_launches m) L"

lemma recovering_steps:
  assumes "steps (keeps_inv E) p" "steps (\<lambda>m m'. cm_launches m' = cm_launches m) p"
  shows "guar (keeps_disk E) (recovering E L) p (\<lambda>_. recovering E L) (\<lambda>_ _. True)"
proof -
  have "keeps_disk E m m' \<and> recovering E L m'" if "recovering E L m" "p m = (v, m')" for m v m'
    using steps_run [OF assms(1) that(2)] steps_run [OF assms(2) that(2)] that(1)
    by (auto simp: recovering_def keeps_inv_def keeps_disk_def rot_inv_def)
  then show ?thesis by (intro guarI) auto
qed

lemma refuse_keeps: "guar (keeps_disk E) (recovering E L) (refuse_recovery E L x) (\<lambda>_ _. True) (\<lambda>_ _. True)"
proof -
  let ?L = "L\<lparr>lg_status := ''recovery_required'', lg_reason := Some ''execution-or-state-unverified'',
    lg_error_kind := (case lg_error_kind L of None \<Rightarrow> Some (error_kind x) | Some k \<Rightarrow> Some k)\<rparr>"
  have good: "ledger_good ls ?L = ledger_good ls L" for ls
    by (simp add: ledger_good_def bounded_def)
  have put: "guar (keeps_disk E) (recovering E L) (edit (\<lambda>_. ?L)) (\<lambda>_. rot_inv E) (\<lambda>_ _. True)"
    by (rule guarI) (auto simp: edit_def recovering_def rot_inv_def good disk_same intro: disk_good_mem)
  have save: "guar (keeps_disk E) (rot_inv E) (thn (save_ledger E) (raise x)) (\<lambda>_ _. True) (\<lambda>_ _. True)"
    by (rule from_loaded [OF kept.g_steps]) (auto intro: kept.so_thn kept.rs_save kept.so_raise)
  show ?thesis unfolding refuse_recovery_def by (rule disk.g_thn [OF put save])
qed

lemma recover_keeps: "steps (keeps_disk E) (recover_rotation E)"
proof -
  have ends: "guar (keeps_disk E) (recovering E L) p (\<lambda>_ _. True) (\<lambda>_ _. True)"
    if "steps (keeps_inv E) p" for p :: "tick_outcome rot" and L
    using from_loaded [OF kept.g_steps [OF that, where P = "recovering E L"]] by (simp add: recovering_def)
  have tried: "steps (keeps_inv E) (attempt catchable (bnd (if b then ret None else commit_failed_start E r man t)
        (\<lambda>v. case v of Some tk \<Rightarrow> ret tk | None \<Rightarrow> resolve_reservation E r t man)))"
      "steps (\<lambda>m m'. cm_launches m' = cm_launches m) (attempt catchable (bnd (if b then ret None else commit_failed_start E r man t)
        (\<lambda>v. case v of Some tk \<Rightarrow> ret tk | None \<Rightarrow> resolve_reservation E r t man)))" for b r man t
    by (intro kept.rs_flow kept.rs_commit_failed kept.rs_resolve)
      (intro quiet.rs_flow quiet.rs_commit_failed quiet.rs_resolve)
  have guard: "guar (keeps_disk E) (recovering E L) (case g of None \<Rightarrow> ret False | Some f \<Rightarrow> consult (\<lambda>n. f n r))
      (\<lambda>_. recovering E L) (\<lambda>_ _. True)" for g L and r :: reservation
    by (intro recovering_steps kept.so_option quiet.so_option kept.so_ret quiet.so_ret kept.rs_consult quiet.rs_consult)
  have one: "guar (keeps_disk E) (recovering E L) (recover_reservation E L r man t) (\<lambda>_ _. True) (\<lambda>_ _. True)" for L r man t
    unfolding recover_reservation_def
    by (intro disk.g_bnd [OF guard] disk.g_bnd [OF recovering_steps [OF tried]] disk.g_sum disk.g_if disk.g_raise
        refuse_keeps ends kept.so_thn kept.rs_save kept.so_ret) simp_all
  have look: "guar (keeps_disk E) (loaded E) (mem (\<lambda>L. L)) (\<lambda>L m. recovering E L m) (\<lambda>_ _. True)"
    unfolding mem_def by (rule disk.g_asks) (simp add: loaded_def recovering_def rot_inv_def)
  have known: "guar (keeps_disk E) (recovering E L) (edit (\<lambda>L. L\<lparr>lg_known := f (lg_known L)\<rparr>)) (\<lambda>_. recovering E L) (\<lambda>_ _. True)" for f L
    by (intro recovering_steps kept.rs_lesser quiet.rs_lesser lesser_known)
  have check: "guar (keeps_disk E) (recovering E L) (unless b x) (\<lambda>_. recovering E L) (\<lambda>_ _. True)" for b x L
    by (intro recovering_steps kept.so_unless quiet.so_unless)
  have retry: "steps (keeps_inv E) (thn (edit (\<lambda>L. mark_waiting why (L\<lparr>lg_last_seen_at := t\<rparr>))) (thn (save_ledger E) (ret tk)))"
    for why t and tk :: tick_outcome
    by (intro kept.so_thn kept.rs_lesser kept.rs_save kept.so_ret) (simp add: lesser_def mark_waiting_def)
  show ?thesis
    unfolding recover_rotation_def locked_recover_def
    by (intro enabled_keeps with_ledger disk.g_bnd [OF look] disk.g_thn [OF known] disk.g_thn [OF check] disk.g_option
        one ends retry)
qed


text \<open>A manual run holds its reservation in memory, then on disk, then starts.\<close>

definition booked :: "reservation \<Rightarrow> bool \<Rightarrow> rat \<Rightarrow> rot_machine \<Rightarrow> bool" where
  "booked r fresh now m \<longleftrightarrow> lg_manual_pending (cm_mem m) = Some r \<and>
     (fresh \<longrightarrow> \<not> automatic r \<and> covers (lg_history (cm_mem m)) (rv_corner r) now)"

lemma triple_edit_pre: "(\<And>m. P m \<Longrightarrow> Q () (m\<lparr>cm_mem := f (cm_mem m)\<rparr>)) \<Longrightarrow> triple P (edit f) Q X"
  unfolding edit_def by (rule triple_alter)

lemma fresh_run_booked: "triple P (fresh_run E g now el) (\<lambda>r. booked r True now) (\<lambda>_ _. True)"
proof -
  have due: "triple (booked r True now) (next_due_after E t d) (\<lambda>_. booked r True now) (\<lambda>_ _. True)" for r t d
    unfolding next_due_after_def mem_def
    by (intro triple_if triple_edit_pre triple_bnd [OF triple_asks [where Q = "\<lambda>_. booked r True now"]] triple_option triple_raise)
      (simp_all add: booked_def)
  have book: "triple P (thn (edit (\<lambda>L. (add_use c now ''manual-reservation'' L)\<lparr>lg_manual_pending := Some (run_reservation g c now rid),
        lg_slot := lg_slot L + 1, lg_last_slot_at := Some now\<rparr>))
      (thn (next_due_after E now now) (ret (run_reservation g c now rid)))) (\<lambda>r. booked r True now) (\<lambda>_ _. True)" for P c rid
  proof (rule triple_thn [OF triple_edit [where Q = "\<lambda>_. booked (run_reservation g c now rid) True now"]
          triple_thn [OF due triple_ret]])
    show "booked (run_reservation g c now rid) True now (m\<lparr>cm_mem := (add_use c now ''manual-reservation'' (cm_mem m))
        \<lparr>lg_manual_pending := Some (run_reservation g c now rid), lg_slot := lg_slot (cm_mem m) + 1,
         lg_last_slot_at := Some now\<rparr>\<rparr>)" for m
      by (simp add: booked_def add_use_def run_reservation_def automatic_def)
  qed (simp_all add: add_use_def)
  show ?thesis
    unfolding fresh_run_def Let_def
    by (rule triple_then, rule triple_skip, rule triple_then, rule triple_then, rule triple_option, rule triple_raise, simp,
        rule triple_then, rule book)
qed

lemma files_resumed: "steps keeps_files (resumed_run E g r now el)"
  unfolding resumed_run_def by (intro filed.so_rules files_observed)

lemma resumed_same: "triple P (resumed_run E g r now el) (\<lambda>v _. v = r) (\<lambda>_ _. True)"
  unfolding resumed_run_def by (intro triple_skip triple_ret) simp

definition reserved_run :: "rot_env \<Rightarrow> bool \<Rightarrow> rat \<Rightarrow> reservation \<Rightarrow> rot_machine \<Rightarrow> bool" where
  "reserved_run E fresh now r m \<longleftrightarrow> rot_inv E m \<and> booked r fresh now m"

lemma reserve_keeps:
  "guar (keeps_inv E) (\<lambda>m. loaded E m \<and> lg_manual_pending (cm_mem m) = p)
     (case p of Some r \<Rightarrow> resumed_run E g r now el | None \<Rightarrow> fresh_run E g now el)
     (reserved_run E (p = None) now) (\<lambda>_ _. True)"
proof (cases p)
  case None
  have "guar (keeps_inv E) (loaded E) (fresh_run E g now el) (reserved_run E True now) (\<lambda>_ _. True)"
  proof (rule guarI)
    fix m r m' assume m: "loaded E m" and run: "fresh_run E g now el m = (Inr r, m')"
    have "keeps_inv E m m'" using kept.rs_fresh_run run by (rule steps_run)
    moreover have "booked r True now m'" using tripleD [OF fresh_run_booked _ run, where P = "\<lambda>_. True"] by simp
    ultimately show "keeps_inv E m m' \<and> reserved_run E True now r m'"
      using m by (simp add: loaded_def keeps_inv_def reserved_run_def)
  next
    fix m x m' assume "fresh_run E g now el m = (Inl x, m')"
    then show "keeps_inv E m m' \<and> True" using kept.rs_fresh_run by (blast dest: steps_run)
  qed
  then show ?thesis using None by (auto elim: guar_conseq)
next
  case (Some r)
  have "guar (keeps_inv E) (\<lambda>m. loaded E m \<and> lg_manual_pending (cm_mem m) = Some r) (resumed_run E g r now el)
      (reserved_run E False now) (\<lambda>_ _. True)"
  proof (rule guarI)
    fix m v m' assume m: "loaded E m \<and> lg_manual_pending (cm_mem m) = Some r" and run: "resumed_run E g r now el m = (Inr v, m')"
    have same: "keeps_files m m'" using files_resumed run by (rule steps_run)
    have "v = r" using tripleD [OF resumed_same _ run, where P = "\<lambda>_. True"] by simp
    with same m files_keep [OF same, of E] show "keeps_inv E m m' \<and> reserved_run E False now v m'"
      by (auto simp: loaded_def keeps_inv_def reserved_run_def booked_def keeps_files_def)
  next
    fix m x m' assume "resumed_run E g r now el m = (Inl x, m')"
    then show "keeps_inv E m m' \<and> True" using files_keep [OF steps_run [OF files_resumed]] by blast
  qed
  then show ?thesis using Some by simp
qed

lemma run_reserved_keeps:
  "guar (keeps_inv E) (ready_to_start E r fresh) (run_reserved E r fresh) (\<lambda>_ _. True) (\<lambda>_ _. True)"
proof -
  have clock: "guar (keeps_inv E) (ready_to_start E r fresh) (clock_now E) (\<lambda>_. ready_to_start E r fresh) (\<lambda>_ _. True)"
    using g_files [OF files_clock ready_frame] by (rule guar_conseq) auto
  show ?thesis
    unfolding run_reserved_def
    by (auto split: option.split intro!: adapter_run_keeps kept.g_bnd [OF clock] kept.g_ret)
qed

lemma start_run_keeps:
  fixes p :: "'x rot"
  assumes run: "guar (keeps_inv E) (ready_to_start E r fresh) p (\<lambda>_ _. True) (\<lambda>_ _. True)" and now: "0 \<le> now"
  shows "guar (keeps_inv E) (reserved_run E fresh now r)
     (thn (edit (\<lambda>L. L\<lparr>lg_last_seen_at := now, lg_status := ''running''\<rparr>))
       (thn (save_ledger E) (thn (set_now now) p))) (\<lambda>_ _. True) (\<lambda>_ _. True)"
proof -
  let ?f = "\<lambda>L. L\<lparr>lg_last_seen_at := now, lg_status := ''running''\<rparr>"
  have mark: "guar (keeps_inv E) (reserved_run E fresh now r) (edit ?f) (\<lambda>_. reserved_run E fresh now r) (\<lambda>_ _. True)"
  proof (rule guarI)
    fix m v m' assume m: "reserved_run E fresh now r m" and run: "edit ?f m = (Inr v, m')"
    have "lesser ?f" by (simp add: lesser_def)
    from steps_run [OF kept.rs_lesser [OF this] run] m run show "keeps_inv E m m' \<and> reserved_run E fresh now r m'"
      by (auto simp: reserved_run_def booked_def keeps_inv_def edit_def)
  qed (simp add: edit_def)
  let ?W = "\<lambda>m. reserved_run E fresh now r m \<and> cm_disk m = Some (Stored (cm_mem m))"
  have save: "guar (keeps_inv E) (reserved_run E fresh now r) (save_ledger E) (\<lambda>_. ?W) (\<lambda>_ _. True)"
  proof (rule guarI)
    fix m v m' assume m: "reserved_run E fresh now r m" and run: "save_ledger E m = (Inr v, m')"
    from steps_run [OF kept.rs_save run] save_run(1) [OF run] save_run(4) [OF run refl] m
    show "keeps_inv E m m' \<and> ?W m'" by (auto simp: reserved_run_def booked_def keeps_inv_def)
  next
    fix m x m' assume "save_ledger E m = (Inl x, m')"
    then show "keeps_inv E m m' \<and> True" using kept.rs_save by (blast dest: steps_run)
  qed
  have set: "guar (keeps_inv E) ?W (set_now now) (\<lambda>_. ready_to_start E r fresh) (\<lambda>_ _. True)"
  proof (rule guarI)
    fix m v m' assume m: "?W m" and run: "set_now now m = (Inr v, m')"
    then have same: "keeps_inv E m m'" by (auto simp: set_now_def intro: keeps_same)
    with m run now show "keeps_inv E m m' \<and> ready_to_start E r fresh m'"
      by (auto simp: set_now_def reserved_run_def booked_def keeps_inv_def ready_to_start_def recorded_def)
  qed (simp add: set_now_def)
  show ?thesis by (intro kept.g_thn [OF mark] kept.g_thn [OF save] kept.g_thn [OF set] assms(1))
qed

lemma run_manual_keeps: "steps (keeps_disk E) (run_manual E g)"
proof -
  have look: "guar (keeps_inv E) (loaded E) (mem (\<lambda>L. L)) (\<lambda>L m. loaded E m \<and> lg_manual_pending (cm_mem m) = lg_manual_pending L) (\<lambda>_ _. True)"
    unfolding mem_def by (rule kept.g_asks) simp
  have same: "guar (keeps_inv E) (\<lambda>m. loaded E m \<and> lg_manual_pending (cm_mem m) = p) q
      (\<lambda>_ m. loaded E m \<and> lg_manual_pending (cm_mem m) = p) (\<lambda>_ _. True)"
    if "steps keeps_files q" for p and q :: "'x rot"
  proof -
    have "guar (keeps_inv E) (\<lambda>m. loaded E m \<and> lg_manual_pending (cm_mem m) = p) q
        (\<lambda>_ m. loaded E m \<and> lg_manual_pending (cm_mem m) = p) (\<lambda>_ m. loaded E m \<and> lg_manual_pending (cm_mem m) = p)"
    proof (rule g_files [OF that])
      fix m m' assume f: "keeps_files m m'" "loaded E m \<and> lg_manual_pending (cm_mem m) = p"
      with files_keep [OF f(1), of E] show "loaded E m' \<and> lg_manual_pending (cm_mem m') = p"
        by (simp add: loaded_def link_def keeps_files_def keeps_inv_def)
    qed
    then show ?thesis by (rule guar_conseq) auto
  qed
  have el: "steps keeps_files (eligible_corners E im)" for im
  proof -
    have why: "steps keeps_files (why_excluded E im c)" for c
      unfolding why_excluded_def paused_def state_path_blocked_def
      by (intro filed.so_rules files_consult files_or_else)
    have "steps keeps_files (split_eligible E im cs)" for cs
    proof (induction cs)
      case Nil
      show ?case unfolding split_eligible.simps by (rule filed.so_ret)
    next
      case (Cons c cs)
      show ?case unfolding split_eligible.simps by (intro filed.so_rules why Cons)
    qed
    then show ?thesis unfolding eligible_corners_def .
  qed
  have note_it: "guar (keeps_inv E) (\<lambda>m. loaded E m \<and> lg_manual_pending (cm_mem m) = p)
      (edit (\<lambda>L. L\<lparr>lg_eligible := e, lg_interval := i\<rparr>)) (\<lambda>_ m. loaded E m \<and> lg_manual_pending (cm_mem m) = p) (\<lambda>_ _. True)" for p e i
  proof (rule guarI)
    let ?f = "\<lambda>L. L\<lparr>lg_eligible := e, lg_interval := i\<rparr>"
    fix m v m' assume m: "loaded E m \<and> lg_manual_pending (cm_mem m) = p" and run: "edit ?f m = (Inr v, m')"
    have "lesser ?f" by (simp add: lesser_def)
    from steps_run [OF kept.rs_lesser [OF this] run] m run
    show "keeps_inv E m m' \<and> loaded E m' \<and> lg_manual_pending (cm_mem m') = p"
      by (auto simp: loaded_def link_def keeps_inv_def edit_def)
  qed (simp add: edit_def)
  have slot: "guar (keeps_inv E) (ready_to_start E r fresh)
      (bnd (attempt catchable (bnd (slot_heartbeat E r (execute_in_slot E r (run_reserved E r fresh))) (settle_run E r now e)))
        (\<lambda>v. case v of Inr status \<Rightarrow> ret status | Inl x \<Rightarrow> fail_run E r now x)) (\<lambda>_ _. True) (\<lambda>_ _. True)" for r fresh now e
  proof -
    have run: "guar (keeps_inv E) (ready_to_start E r fresh)
        (bnd (slot_heartbeat E r (execute_in_slot E r (run_reserved E r fresh))) (settle_run E r now e)) (\<lambda>_ _. True) (\<lambda>_ _. True)"
      by (intro kept.g_bnd [OF slot_keeps [OF execute_keeps [OF run_reserved_keeps]]] kept.g_steps kept.rs_settle_run) simp_all
    have "guar (keeps_inv E) (ready_to_start E r fresh) (attempt catchable
        (bnd (slot_heartbeat E r (execute_in_slot E r (run_reserved E r fresh))) (settle_run E r now e))) (\<lambda>_ _. True) (\<lambda>_ _. True)"
      by (intro kept.g_attempt guar_conseq [OF run]) simp_all
    then show ?thesis
      by (rule kept.g_bnd) (auto split: sum.split intro!: kept.g_ret kept.g_steps kept.rs_fail_run)
  qed
  have "steps (keeps_disk E) (locked_run E g)"
    unfolding locked_run_def
    by (intro with_ledger from_loaded kept.g_thn [OF known_loaded] kept.g_bnd [OF look] kept.g_thn [OF same [OF filed.so_unless]]
        kept.g_bnd [OF same [OF el]] kept.g_prod kept.g_thn [OF note_it] kept.g_bnd [OF reserve_keeps] start_run_keeps slot)
      (simp_all add: loaded_def)
  then show ?thesis
    unfolding run_manual_def by (intro disk.so_thn disk.so_unless disk.so_bnd disk_consult disk.so_if disk.so_raise)
qed

end
