(* ===== verification/CornerCustody.thy ===== *)
theory CornerCustody
  imports CornerInvariant
begin

text \<open>
  A reservation of the timer is in custody: it stays in the ledger, in memory and on disk, until the
  tick that drops it was shown that its run completed, that its failed start was rolled back, or
  that the shared slot holds nothing of it.
\<close>

section \<open>Custody\<close>

definition names :: "string \<Rightarrow> string \<Rightarrow> reservation option \<Rightarrow> bool" where
  "names c rid p \<longleftrightarrow> (\<exists>r. p = Some r \<and> rv_corner r = c \<and> rv_request_id r = rid)"

definition shelved :: "string \<Rightarrow> string \<Rightarrow> nat \<Rightarrow> rot_machine \<Rightarrow> bool" where
  "shelved c rid n m \<longleftrightarrow> n \<le> cm_calls m \<and> (\<exists>L. cm_disk m = Some (Stored L) \<and> names c rid (lg_pending L))"

definition on_hold :: "string \<Rightarrow> string \<Rightarrow> nat \<Rightarrow> rot_machine \<Rightarrow> bool" where
  "on_hold c rid n m \<longleftrightarrow> shelved c rid n m \<and> names c rid (lg_pending (cm_mem m))"

definition keeps_hold :: "string \<Rightarrow> string \<Rightarrow> nat \<Rightarrow> rot_machine \<Rightarrow> rot_machine \<Rightarrow> bool" where
  "keeps_hold c rid n m m' \<longleftrightarrow> (on_hold c rid n m \<longrightarrow> on_hold c rid n m')"

lemmas hold_defs = on_hold_def shelved_def keeps_hold_def

interpretation held: manual_ledger "keeps_hold c rid n" for c rid n
  by unfold_locales
    (auto simp: hold_defs minor_def add_use_def record_failed_def mark_released_def Let_def)

section \<open>What the environment can prove\<close>

text \<open>The canonical state was settled and the receipt of the request, read next, was not in flight.\<close>

definition slot_proof :: "rot_env \<Rightarrow> string \<Rightarrow> string \<Rightarrow> nat \<Rightarrow> bool" where
  "slot_proof E c rid n \<longleftrightarrow> (\<exists>k\<ge>n. \<exists>st s q. ra_plane E k c = Plane st False \<and> plane_settled st \<and>
     ra_receipt E (Suc k) c rid = Inr (s, q) \<and> (\<forall>x. s = Some x \<longrightarrow> terminal x) \<and> rid \<notin> set q)"

definition start_proof :: "rot_env \<Rightarrow> string \<Rightarrow> string \<Rightarrow> nat \<Rightarrow> bool" where
  "start_proof E c rid n \<longleftrightarrow> (\<exists>k\<ge>n. \<exists>f. ra_reconcile_start E c = Some f \<and> f k rid None = Inr True)"

definition run_proof :: "rot_env \<Rightarrow> string \<Rightarrow> string \<Rightarrow> nat \<Rightarrow> bool" where
  "run_proof E c rid n \<longleftrightarrow> (\<exists>k\<ge>n. \<exists>r. rv_corner r = c \<and> rv_request_id r = rid \<and>
     ra_run E k c r = Inr (Ran ''completed''))"

definition unproved :: "rot_env \<Rightarrow> string \<Rightarrow> string \<Rightarrow> nat \<Rightarrow> bool" where
  "unproved E c rid n \<longleftrightarrow> \<not> slot_proof E c rid n \<and> \<not> start_proof E c rid n \<and> \<not> run_proof E c rid n"

section \<open>Programs that keep custody\<close>

definition holds :: "string \<Rightarrow> string \<Rightarrow> nat \<Rightarrow> 'a rot \<Rightarrow> ('a \<Rightarrow> bool) \<Rightarrow> bool" where
  "holds c rid n p Q \<longleftrightarrow> triple (on_hold c rid n) p (\<lambda>v m. on_hold c rid n m \<and> Q v) (\<lambda>_. on_hold c rid n)"

lemma holds_steps: "steps (keeps_hold c rid n) p \<Longrightarrow> holds c rid n p (\<lambda>_. True)"
  unfolding holds_def by (rule tripleI) (auto dest: steps_run simp: keeps_hold_def)

lemma holds_weak: "holds c rid n p Q \<Longrightarrow> (\<And>v. Q v \<Longrightarrow> Q' v) \<Longrightarrow> holds c rid n p Q'"
  unfolding holds_def by (erule triple_conseq) auto

lemma holds_ret: "Q x \<Longrightarrow> holds c rid n (ret x) Q"
  unfolding holds_def by (rule triple_ret) simp

lemma holds_raise: "holds c rid n (raise x) Q"
  unfolding holds_def by (rule triple_raise)

lemma holds_lift: "(\<And>x. v = Inr x \<Longrightarrow> Q x) \<Longrightarrow> holds c rid n (lift v) Q"
  by (auto simp: holds_def triple_def lift_def split: sum.split)

lemma holds_bnd:
  assumes "holds c rid n p M" "\<And>v. M v \<Longrightarrow> holds c rid n (f v) Q"
  shows "holds c rid n (bnd p f) Q"
  using assms(1) unfolding holds_def
proof (rule triple_bnd)
  show "triple (\<lambda>m. on_hold c rid n m \<and> M v) (f v) (\<lambda>v m. on_hold c rid n m \<and> Q v) (\<lambda>_. on_hold c rid n)" for v
  proof (cases "M v")
    case True
    from assms(2) [OF this] show ?thesis unfolding holds_def by (rule triple_pre) simp
  qed (simp add: triple_def)
qed

lemma holds_then: "holds c rid n p (\<lambda>_. True) \<Longrightarrow> holds c rid n q Q \<Longrightarrow> holds c rid n (thn p q) Q"
  unfolding thn_def by (rule holds_bnd)

lemma holds_if: "(b \<Longrightarrow> holds c rid n p Q) \<Longrightarrow> (\<not> b \<Longrightarrow> holds c rid n q Q) \<Longrightarrow> holds c rid n (if b then p else q) Q"
  by simp

lemma holds_option: "(v = None \<Longrightarrow> holds c rid n p Q) \<Longrightarrow> (\<And>x. v = Some x \<Longrightarrow> holds c rid n (f x) Q) \<Longrightarrow>
    holds c rid n (case v of None \<Rightarrow> p | Some x \<Rightarrow> f x) Q"
  by (cases v) auto

lemma holds_prod: "(\<And>a b. v = (a, b) \<Longrightarrow> holds c rid n (f a b) Q) \<Longrightarrow> holds c rid n (case v of (a, b) \<Rightarrow> f a b) Q"
  by (cases v) auto

lemma holds_or_else: "holds c rid n p Q \<Longrightarrow> Q d \<Longrightarrow> holds c rid n (or_else p d) Q"
  unfolding holds_def or_else_def
  by (rule triple_bnd [where M = "\<lambda>r m. on_hold c rid n m \<and> (\<forall>v. r = Inr v \<longrightarrow> Q v)"])
    (auto intro!: triple_attempt triple_ret elim: triple_conseq split: sum.split)

lemma holds_attempt: "holds c rid n p Q \<Longrightarrow> holds c rid n (attempt q p) (\<lambda>r. \<forall>v. r = Inr v \<longrightarrow> Q v)"
  unfolding holds_def by (rule triple_attempt) (auto elim: triple_conseq)

lemma holds_mem: "(\<And>L. names c rid (lg_pending L) \<Longrightarrow> Q (f L)) \<Longrightarrow> holds c rid n (mem f) Q"
  unfolding holds_def mem_def by (rule triple_asks) (simp add: on_hold_def)

lemma holds_edit: "(\<And>L. names c rid (lg_pending L) \<Longrightarrow> names c rid (lg_pending (f L))) \<Longrightarrow> holds c rid n (edit f) (\<lambda>_. True)"
  unfolding holds_def edit_def by (rule triple_alter) (simp add: hold_defs)

lemma holds_consult:
  assumes "\<And>k v. n \<le> k \<Longrightarrow> f k = Inr v \<Longrightarrow> Q v"
  shows "holds c rid n (consult f) Q"
  unfolding holds_def using assms
  by (intro tripleI) (auto simp: consult_def hold_defs)

lemma holds_save: "holds c rid n (save_ledger E) (\<lambda>_. True)"
  by (rule holds_steps) (rule held.rs_save)

lemma holds_flow:
  "holds c rid n now_is (\<lambda>_. True)" "holds c rid n (lift x) (\<lambda>_. True)" "holds c rid n (unless b y) (\<lambda>_. True)"
  "holds c rid n (clock_now E) (\<lambda>_. True)"
  by (intro holds_steps held.rs_flow)+

section \<open>The proofs a tick asks for\<close>

lemma slot_reusable_proves: "slot_reusable E c rid m = (Inr True, m') \<Longrightarrow> slot_proof E c rid (cm_calls m)"
proof -
  assume run: "slot_reusable E c rid m = (Inr True, m')"
  then have "ra_has_store E c" "rid \<noteq> []" by (auto simp: slot_reusable_def ret_def split: if_splits)
  with run obtain st miss s q where p: "ra_plane E (cm_calls m) c = Plane st miss"
      and r: "ra_receipt E (Suc (cm_calls m)) c rid = Inr (s, q)"
    by (auto simp: slot_reusable_def bnd_def or_else_def attempt_def read_plane_def consult_def catchable_def ret_def
        split: prod.splits sum.splits option.splits plane.splits if_splits)
  with run \<open>ra_has_store E c\<close> \<open>rid \<noteq> []\<close> have "\<not> miss" "plane_settled st" "\<forall>x. s = Some x \<longrightarrow> terminal x" "rid \<notin> set q"
    by (auto simp: slot_reusable_def bnd_def or_else_def attempt_def read_plane_def consult_def catchable_def ret_def
        split: prod.splits sum.splits option.splits plane.splits if_splits)
  with p r show ?thesis unfolding slot_proof_def by (intro exI [of _ "cm_calls m"]) auto
qed

lemma holds_slot:
  assumes "unproved E c rid n"
  shows "holds c rid n (slot_reusable E c rid) (\<lambda>free. \<not> free)"
  unfolding holds_def
proof (rule tripleI)
  fix m v m' assume m: "on_hold c rid n m" and run: "slot_reusable E c rid m = (Inr v, m')"
  have "\<not> v"
  proof
    assume v
    with slot_reusable_proves [of E c rid m m'] run have "slot_proof E c rid (cm_calls m)" by simp
    with m have "slot_proof E c rid n" unfolding slot_proof_def hold_defs by (meson le_trans)
    with assms show False by (simp add: unproved_def)
  qed
  moreover from steps_run [OF held.rs_slot_reusable run] m have "on_hold c rid n m'" by (simp add: keeps_hold_def)
  ultimately show "on_hold c rid n m' \<and> \<not> v" by simp
next
  fix m x m' assume "on_hold c rid n m" "slot_reusable E c rid m = (Inl x, m')"
  then show "on_hold c rid n m'" using steps_run [OF held.rs_slot_reusable] by (auto simp: keeps_hold_def)
qed

lemma holds_reconcile:
  assumes u: "unproved E (rv_corner r) (rv_request_id r) n"
  shows "holds (rv_corner r) (rv_request_id r) n (reconcile_failed_start E r False now) (\<lambda>v. v = None)"
proof (cases "ra_reconcile_start E (rv_corner r)")
  case None
  then show ?thesis by (simp add: reconcile_failed_start_def holds_ret)
next
  case (Some f)
  have ask: "holds (rv_corner r) (rv_request_id r) n (consult (\<lambda>k. f k (rv_request_id r) None)) (\<lambda>proved. \<not> proved)"
    using u Some by (intro holds_consult) (auto simp: unproved_def start_proof_def)
  show ?thesis
    unfolding reconcile_failed_start_def Some
    by (intro holds_if holds_ret refl, simp only: option.case if_False simp_thms, rule holds_bnd [OF ask])
      (simp only: if_True not_False_eq_True, rule holds_ret, rule refl)
qed

lemma holds_commit_failed:
  assumes "unproved E (rv_corner r) (rv_request_id r) n"
  shows "holds (rv_corner r) (rv_request_id r) n (commit_failed_start E r False now) (\<lambda>v. v = None)"
  unfolding commit_failed_start_def by (rule holds_bnd [OF holds_reconcile [OF assms]]) (simp add: holds_ret)

lemma holds_release_if_free:
  assumes "unproved E (rv_corner r) (rv_request_id r) n"
  shows "holds (rv_corner r) (rv_request_id r) n (release_if_free E r kind now) (\<lambda>v. v = None)"
  unfolding release_if_free_def
proof (intro holds_if holds_ret refl holds_bnd [OF holds_slot [OF assms]])
  fix free assume "\<not> free"
  then show "holds (rv_corner r) (rv_request_id r) n
      (bnd (if free then leftover_game E (rv_corner r) (rv_request_id r) else ret True) (\<lambda>held.
        if held then ret None
        else bnd (release_failed E r kind now False) (\<lambda>tk. thn (save_ledger E) (ret (Some tk))))) (\<lambda>v. v = None)"
    by (intro holds_bnd [where M = "\<lambda>v. v"] holds_if holds_ret) simp_all
qed

lemma holds_replay:
  assumes "unproved E (rv_corner r) (rv_request_id r) n"
  shows "holds (rv_corner r) (rv_request_id r) n (replay_restore E r now) (\<lambda>v. v = None)"
proof (cases "ra_replay_restore E (rv_corner r)")
  case None
  then show ?thesis by (simp add: replay_restore_def holds_ret)
next
  case (Some run)
  have edits: "holds c rid n (edit (exhaust_replay r now)) (\<lambda>_. True)"
    "holds c rid n (edit (\<lambda>L. L\<lparr>lg_auto_restore := b L\<rparr>)) (\<lambda>_. True)" for b c rid
    by (rule holds_steps, rule held.rs_exhaust) (rule holds_edit, simp)
  show ?thesis
    unfolding replay_restore_def Some option.case
    by (intro holds_then edits holds_bnd holds_mem holds_if holds_ret holds_or_else holds_consult holds_commit_failed assms)
      simp_all
qed

lemma holds_latch:
  assumes u: "unproved E c rid n"
  shows "holds c rid n (auto_release_latch E now) (\<lambda>v. v = None)"
proof -
  have left: "holds c rid n (leftover_game E a b) (\<lambda>_. True)" for a b
    by (rule holds_steps) (rule held.rs_leftover)
  have once: "holds c rid n (edit (record_failed_once a b res k t why)) (\<lambda>_. True)" for a b res k t why
    by (rule holds_steps) (rule held.rs_record_once)
  have look: "holds c rid n (mem (\<lambda>L. (lg_pending L, lg_manual_pending L))) (\<lambda>v. names c rid (fst v))"
    by (rule holds_mem) simp
  have free: "holds c rid n (bnd (slot_reusable E c rid) (\<lambda>free.
        if free then f free else thn (edit (record_failed_once a b res k t why)) (ret None))) (\<lambda>v. v = None)"
    for f :: "bool \<Rightarrow> 'x option rot" and a b res k t why
    by (rule holds_bnd [OF holds_slot [OF u]]) (simp, intro holds_then once holds_ret refl)
  have replay: "holds c rid n (if b then replay_restore E r now else ret None) (\<lambda>v. v = None)"
    if "rv_corner r = c" "rv_request_id r = rid" for r b
    using holds_replay [of E r n now] u that by (intro holds_if holds_ret) simp_all
  have tried: "holds c rid n (or_else (commit_failed_start E r False now) None) (\<lambda>v. v = None)"
    if "rv_corner r = c" "rv_request_id r = rid" for r
    using holds_commit_failed [of E r n now] u that by (intro holds_or_else) simp_all
  show ?thesis
    unfolding auto_release_latch_def
  proof (rule holds_bnd [OF look], rule holds_prod, simp only: prod.case fst_conv, rule holds_option, goal_cases)
    case 1
    then show ?case by (simp add: names_def)
  next
    case (2 v pending man r)
    then have r: "rv_corner r = c" "rv_request_id r = rid" by (simp_all add: names_def)
    show ?case
    proof (rule holds_option, goal_cases)
      case 1
      show ?case
        unfolding r
        by (rule holds_if, rule holds_ret, rule refl, rule holds_bnd [OF tried [OF r]], simp only: option.case,
            rule holds_bnd [OF holds_mem [where Q = "\<lambda>_. True"]], rule TrueI, rule holds_bnd [OF left],
            rule holds_bnd [OF replay [OF r]], simp only: option.case, rule free)
    next
      case 2
      show ?case by (rule holds_ret) (rule refl)
    qed
  qed
qed

section \<open>The parts of a tick\<close>

lemma held_alters:
  "steps (keeps_hold c rid n) (log_launch r fresh)" "steps (keeps_hold c rid n) (set_now t)"
  "steps (keeps_hold c rid n) (write_heartbeat E r)" "steps (keeps_hold c rid n) (drop_heartbeat E)"
  unfolding log_launch_def set_now_def write_heartbeat_def drop_heartbeat_def
  by (intro held.rs_parts held.rs_alter held.rs_durable; simp add: hold_defs)+

lemma held_slot: "steps (keeps_hold c rid n) p \<Longrightarrow> steps (keeps_hold c rid n) (slot_heartbeat E r p)"
  unfolding slot_heartbeat_def
  by (intro held.rs_parts held_alters held.rs_alter) (simp_all add: hold_defs)

lemma held_execute: "steps (keeps_hold c rid n) p \<Longrightarrow> steps (keeps_hold c rid n) (execute_in_slot E r p)"
  unfolding execute_in_slot_def by (intro held.rs_parts held.rs_plane)

lemma held_adapter_run: "steps (keeps_hold c rid n) (adapter_run E r fresh)"
  unfolding adapter_run_def by (intro held.rs_parts held_alters) (auto split: slot_run.split intro: held.so_ret)

lemma held_run_slot: "steps (keeps_hold c rid n) (run_slot E r fresh)"
  unfolding run_slot_def by (intro held_slot held_execute held_adapter_run)

lemma held_resume: "steps (keeps_hold c rid n) (resume_manual E manual)"
  unfolding resume_manual_def replay_manual_def
  by (intro held.rs_parts held.rs_observed_of held_run_slot held.rs_wait held.rs_resolve_manual
      held.rs_commit_failed_manual held_alters)

lemma holds_slot_heartbeat: "holds c rid n p Q \<Longrightarrow> holds c rid n (slot_heartbeat E r p) Q"
proof -
  assume p: "holds c rid n p Q"
  have beat: "holds c rid n (alter (\<lambda>m. m\<lparr>cm_heartbeat := f (cm_heartbeat m)\<rparr>)) (\<lambda>_. True)" for f
    by (rule holds_steps) (rule held.rs_alter, simp add: hold_defs)
  show ?thesis
    unfolding slot_heartbeat_def
    by (intro holds_then [OF holds_steps [OF held_alters(3)]] holds_bnd [OF holds_attempt [OF p]] holds_if holds_lift
        holds_then [OF holds_steps [OF held_alters(4)]] holds_bnd [OF holds_steps [OF held.rs_consider]]
        holds_then [OF beat] holds_raise) blast
qed

lemma holds_run_slot:
  assumes "unproved E c rid n" and r: "rv_corner r = c" "rv_request_id r = rid"
  shows "holds c rid n (run_slot E r fresh) (\<lambda>status. status \<noteq> ''completed'')"
proof -
  have "holds c rid n (adapter_run E r fresh) (\<lambda>status. status \<noteq> ''completed'')"
    unfolding adapter_run_def
  proof (rule holds_then [OF holds_steps [OF held_alters(1)]], rule holds_bnd)
    show "holds c rid n (consult (\<lambda>k. ra_run E k (rv_corner r) r)) (\<lambda>v. v \<noteq> Ran ''completed'')"
      using assms by (intro holds_consult) (auto simp: unproved_def run_proof_def)
    show "holds c rid n (case v of Ran s \<Rightarrow> ret s | WaitExpired \<Rightarrow> ret ''queued'') (\<lambda>status. status \<noteq> ''completed'')"
      if "v \<noteq> Ran ''completed''" for v
      using that by (cases v) (simp_all add: holds_ret)
  qed
  moreover have "holds c rid n (execute_in_slot E r p) Q" if "holds c rid n p Q" "Q ''queued''" for p Q
    unfolding execute_in_slot_def
    by (rule holds_bnd [OF holds_steps [OF held.rs_consider]])
      (auto split: plane.split intro!: holds_ret holds_raise holds_then [OF holds_flow(3)] that
        holds_bnd [OF holds_steps [OF held.rs_consult]])
  ultimately show ?thesis unfolding run_slot_def by (intro holds_slot_heartbeat) simp
qed

lemma holds_after_run:
  assumes "unproved E c rid n" and r: "rv_corner r = c" "rv_request_id r = rid" and s: "status \<noteq> ''completed''"
  shows "holds c rid n (after_run E r now status) (\<lambda>_. True)"
proof -
  have release: "holds c rid n (release_if_free E r kind t) (\<lambda>v. v = None)" for kind t
    using holds_release_if_free [of E r n] assms by simp
  have settle: "holds c rid n (thn (edit (mark_waiting why)) (thn (save_ledger E) (bnd (mem lg_status) f))) (\<lambda>_. True)"
    if "\<And>s. holds c rid n (f s) (\<lambda>_. True)" for f :: "string \<Rightarrow> tick_outcome rot" and why
    by (intro holds_then [OF holds_edit] holds_then [OF holds_save] holds_bnd [OF holds_mem [where Q = "\<lambda>_. True"]] that)
      (simp_all add: mark_waiting_def)
  show ?thesis
    unfolding after_run_def Let_def if_not_P [OF s]
    by (intro holds_if settle holds_ret TrueI holds_bnd [OF release]) (simp only: option.case, rule holds_raise)
qed

lemma holds_start_pending:
  assumes "unproved E c rid n" "rv_corner r = c" "rv_request_id r = rid"
  shows "holds c rid n (start_pending E r now fresh) (\<lambda>_. True)"
  unfolding start_pending_def
  by (rule holds_then [OF holds_edit], simp, rule holds_then [OF holds_save], rule holds_bnd [OF holds_run_slot [OF assms]],
      rule holds_bnd [OF holds_steps [OF held.rs_observed_of]], rule holds_then [OF holds_steps [OF held.rs_import_starts]],
      rule holds_after_run [OF assms])

lemma holds_mark_dispatched:
  assumes "rv_corner r = c" "rv_request_id r = rid"
  shows "holds c rid n (mark_dispatched E r now) (\<lambda>d. rv_corner d = c \<and> rv_request_id d = rid)"
  using assms unfolding mark_dispatched_def Let_def
  by (intro holds_then holds_bnd [OF holds_mem [where Q = "\<lambda>_. True"]] holds_edit holds_if holds_option holds_raise holds_ret)
    (simp_all add: names_def add_use_def)

lemma holds_run_pending:
  assumes "unproved E c rid n" "rv_corner r = c" "rv_request_id r = rid"
  shows "holds c rid n (run_pending E r el man) (\<lambda>_. True)"
  unfolding run_pending_def Let_def
  by (intro holds_then [OF holds_flow(3)] holds_bnd [OF holds_steps [OF held.rs_observed_of]] holds_if
      holds_steps [OF held.rs_wait] holds_bnd [OF holds_flow(1)] holds_start_pending assms
      holds_bnd [OF holds_mem [where Q = "\<lambda>_. True"]] holds_bnd [OF holds_mark_dispatched [OF assms(2,3)]])
    simp_all

lemma holds_returning:
  assumes "holds c rid n p (\<lambda>v. \<forall>x. v = Inr x \<longrightarrow> M x)" "\<And>x. M x \<Longrightarrow> holds c rid n (f x) (\<lambda>_. True)"
  shows "holds c rid n (returning p f) (\<lambda>_. True)"
  unfolding returning_def
  by (rule holds_bnd [OF assms(1)]) (auto split: sum.split intro: holds_ret assms(2))

lemma holds_adopt: "holds c rid n (adopt_queued E el) (\<lambda>v. \<forall>p. v = Inr p \<longrightarrow> names c rid p)"
proof -
  have look: "holds c rid n (mem (\<lambda>L. (lg_pending L, due_queued L now))) (\<lambda>v. names c rid (fst v) \<and> snd v = None)" for now
    by (rule holds_mem) (auto simp: names_def due_queued_def)
  show ?thesis
    unfolding adopt_queued_def
    by (rule holds_bnd [OF holds_flow(1)], rule holds_bnd [OF look], rule holds_prod, simp, rule holds_ret, simp)
qed

lemma holds_dispatch_next:
  assumes u: "unproved E c rid n"
  shows "holds c rid n (dispatch_next E future busy) (\<lambda>_. True)"
proof -
  have draw: "holds c rid n (case p of Some r \<Rightarrow> ret (Inr r) | None \<Rightarrow> draw_corner E el future)
      (\<lambda>v. \<forall>r. v = Inr r \<longrightarrow> rv_corner r = c \<and> rv_request_id r = rid)" if "names c rid p" for p el
    using that by (auto simp: names_def intro!: holds_ret)
  show ?thesis
    unfolding dispatch_next_def
    by (intro holds_bnd [OF holds_steps [OF held.rs_eligible]] holds_prod holds_then [OF holds_edit]
        holds_bnd [OF holds_flow(1)] holds_then [OF holds_steps [OF held.rs_sync_notice]] holds_if
        holds_steps [OF held.rs_wait] holds_returning [OF holds_adopt] holds_returning [OF draw] holds_run_pending u)
      simp_all
qed

lemma holds_tick_body:
  assumes u: "unproved E c rid n"
  shows "holds c rid n (tick_body E future) (\<lambda>_. True)"
proof -
  have any: "holds c rid n p (\<lambda>v. \<forall>x. v = Inr x \<longrightarrow> True)" if "steps (keeps_hold c rid n) p" for p :: "('a + 'b) rot"
    using holds_steps [OF that] by simp
  show ?thesis
    unfolding tick_body_def
    by (intro holds_bnd [OF holds_mem [where Q = "\<lambda>_. True"]] holds_returning [OF any [OF held.rs_expire_capture]]
        holds_returning [OF any [OF held_resume]] holds_bnd [OF holds_flow(1)] holds_bnd [OF holds_steps [OF held.rs_observe]]
        holds_option holds_steps [OF held.rs_finish_manual] holds_dispatch_next u) simp_all
qed

lemma holds_handle_failure:
  assumes u: "unproved E c rid n"
  shows "holds c rid n (handle_failure E x) (\<lambda>_. True)"
proof -
  have look: "holds c rid n (mem (\<lambda>L. (lg_pending L, lg_manual_pending L))) (\<lambda>v. names c rid (fst v))"
    by (rule holds_mem) simp
  have once: "holds c rid n (edit (record_failed_once a b res k t why)) (\<lambda>_. True)" for a b res k t why
    by (rule holds_steps) (rule held.rs_record_once)
  have tried: "holds c rid n (case f of None \<Rightarrow> ret (Inr None) | Some r \<Rightarrow> attempt catchable (commit_failed_start E r b now))
      (\<lambda>v. \<forall>tk. v \<noteq> Inr (Some tk))" if "\<And>r. f = Some r \<Longrightarrow> \<not> b \<and> rv_corner r = c \<and> rv_request_id r = rid" for f b now
  proof (cases f)
    case None
    then show ?thesis by (simp add: holds_ret)
  next
    case (Some r)
    with that [OF Some] u have "holds c rid n (commit_failed_start E r b now) (\<lambda>v. v = None)"
      using holds_commit_failed [of E r n now] by auto
    then show ?thesis unfolding Some option.case by (rule holds_weak [OF holds_attempt]) auto
  qed
  have released: "holds c rid n (case pm of (Some p, None) \<Rightarrow> if kind \<in> set ledger_error_kinds then ret None
        else release_if_free E p kind now | _ \<Rightarrow> ret None) (\<lambda>v. v = None)" if "names c rid (fst pm)" for pm :: "reservation option \<times> reservation option" and kind now
    using that u holds_release_if_free [where E = E and n = n]
    by (auto simp: names_def split: prod.split option.split intro!: holds_ret)
  have latch: "holds c rid n (thn (case r of None \<Rightarrow> ret ()
         | Some r \<Rightarrow> edit (record_failed_once (rv_corner r) (rv_request_id r) ''recovery-required'' kind now None))
       (thn (edit (\<lambda>L. L\<lparr>lg_status := s, lg_reason := w, lg_error_kind := k\<rparr>)) (thn (save_ledger E) (raise x)))) (\<lambda>_. True)"
    for r :: "reservation option" and kind now s w k and x :: rot_exn
    by (intro holds_then holds_option holds_ret once holds_edit holds_save holds_raise) simp_all
  show ?thesis
    unfolding handle_failure_def Let_def
  proof (rule holds_bnd [OF holds_flow(1)], rule holds_bnd [OF look], rule holds_prod, rule holds_bnd [OF tried], goal_cases)
    case (1 now v pending manual r)
    then show ?case by (auto simp: names_def split: option.splits)
  next
    case (2 now v pending manual tried)
    then have "names c rid (fst (pending, manual))" by simp
    note out = holds_bnd [OF released [OF this]]
    from 2 consider y where "tried = Inl y" | "tried = Inr None" by (cases tried) auto
    then show ?case
    proof cases
      case 1
      show ?thesis unfolding 1 sum.case by (rule out) (simp only: option.case, rule latch)
    next
      case 2
      show ?thesis unfolding 2 sum.case option.case by (rule out) (simp only: option.case, rule latch)
    qed
  qed
qed

lemma holds_locked:
  assumes u: "unproved E c rid n"
  shows "holds c rid n (in_time_tick E now future) (\<lambda>_. True)" "holds c rid n (clear_latch E now) (\<lambda>_. True)"
proof -
  have guarded: "holds c rid n (guarded_tick E future) (\<lambda>_. True)"
    unfolding guarded_tick_def
    by (rule holds_bnd [OF holds_attempt [OF holds_tick_body [OF u]]])
      (auto split: sum.split intro: holds_ret holds_handle_failure u)
  show "holds c rid n (in_time_tick E now future) (\<lambda>_. True)"
    unfolding in_time_tick_def
    by (intro holds_bnd [OF holds_mem [where Q = "\<lambda>_. True"]] holds_if guarded holds_steps [OF held.rs_wait]
        holds_then [OF holds_steps [OF held.rs_clear_notice]] holds_then [OF holds_steps [OF held.rs_note_gap]]
        holds_then [OF holds_steps [OF held_alters(2)]]) simp_all
  show "holds c rid n (clear_latch E now) (\<lambda>_. True)"
    unfolding clear_latch_def
    by (intro holds_bnd [OF holds_mem [where Q = "\<lambda>_. True"]] holds_if holds_ret holds_bnd [OF holds_latch [OF u]]
        holds_then [OF holds_save] holds_option holds_then [OF holds_steps [OF held.rs_clear_notice]]) simp_all
qed

text \<open>The ledger on disk is read before anything else can change it.\<close>

lemma load_holds: "triple (shelved c rid n) (load_ledger E now) (\<lambda>_. on_hold c rid n) (\<lambda>_. shelved c rid n)"
  by (rule tripleI)
    (auto simp: load_ledger_def bnd_def thn_def hold_defs edit_def lift_def names_def
      split: prod.splits sum.splits option.splits doc.splits)

lemma tick_holds:
  assumes u: "unproved E c rid n"
  shows "triple (shelved c rid n) (tick E) (\<lambda>_. shelved c rid n) (\<lambda>_. shelved c rid n)"
proof -
  let ?T = "\<lambda>p. triple (shelved c rid n) p (\<lambda>_. shelved c rid n) (\<lambda>_. shelved c rid n)"
  have ask: "?T (consult f)" "?T (consider_it g)" for f :: "nat \<Rightarrow> rot_exn + 'a" and g :: "nat \<Rightarrow> 'b"
    by (rule tripleI; auto simp: consult_def consider_it_def shelved_def)+
  have clock: "?T (clock_now E)"
    unfolding clock_now_def by (rule triple_bnd [OF ask(2)]) (auto simp: lift_def triple_def split: sum.split)
  have rest: "holds c rid n (thn (edit (\<lambda>L. L\<lparr>lg_known := remember_catalog (re_catalog E) (lg_known L)\<rparr>))
     (returning (clear_latch E now) (\<lambda>_.
      bnd (import_manual E now) (\<lambda>future. in_time_tick E now future)))) (\<lambda>_. True)" for now
    by (intro holds_then [OF holds_edit] holds_returning [where M = "\<lambda>_. True"] holds_bnd [OF holds_steps [OF held.rs_import_manual]]
        holds_locked u) (simp_all add: holds_locked u)
  have after: "triple (on_hold c rid n) p (\<lambda>_. shelved c rid n) (\<lambda>_. shelved c rid n)"
    if "holds c rid n p (\<lambda>_. True)" for p :: "tick_outcome rot"
    using that unfolding holds_def by (rule triple_conseq) (auto simp: on_hold_def)
  have "?T (locked_tick E)"
    unfolding locked_tick_def
    by (rule triple_bnd [OF clock], rule triple_thn [OF load_holds], rule after, rule rest)
  then show ?thesis
    unfolding tick_def when_enabled_def
    by (intro triple_thn [OF ask(1)] triple_bnd [OF ask(1)] triple_bnd [OF ask(2)] triple_if triple_ret)
qed

end
