(* ===== verification/CornerProperties.thy ===== *)
theory CornerProperties
  imports CornerCustody
begin

text \<open>
  The properties of the corner scheduler, over any sequence of its public operations.
\<close>

section \<open>Any sequence of operations\<close>

datatype rot_call = Tick | Recover | RunManual manual_runner | QueueManual queue_request
  | CancelScheduled string | ClearQuarantine string

fun serve_rotation :: "rot_env \<Rightarrow> rot_call \<Rightarrow> rot_machine \<Rightarrow> rot_machine" where
  "serve_rotation E Tick m = snd (tick E m)"
| "serve_rotation E Recover m = snd (recover_rotation E m)"
| "serve_rotation E (RunManual g) m = snd (run_manual E g m)"
| "serve_rotation E (QueueManual q) m = snd (queue_manual E q m)"
| "serve_rotation E (CancelScheduled game) m = snd (cancel_scheduled E game m)"
| "serve_rotation E (ClearQuarantine game) m = snd (clear_quarantine E game m)"

text \<open>
  The machines any sequence of operations reaches from an empty state directory.  Between two
  operations the catalog, the cadence and every answer of the environment may change, only the
  configured cooldown stays.
\<close>

inductive scheduled :: "rat \<Rightarrow> rot_machine \<Rightarrow> bool" for cd where
  scheduled_start: "cm_disk m = None \<Longrightarrow> cm_launches m = [] \<Longrightarrow> scheduled cd m"
| scheduled_step: "scheduled cd m \<Longrightarrow> re_cooldown E = cd \<Longrightarrow> scheduled cd (serve_rotation E c m)"

definition keeps_store :: "rot_machine \<Rightarrow> rot_machine \<Rightarrow> bool" where
  "keeps_store m m' \<longleftrightarrow> cm_disk m' = cm_disk m \<and> cm_launches m' = cm_launches m"

interpretation store: step_order keeps_store
  by unfold_locales (simp_all add: keeps_store_def)

lemma store_disk: "steps keeps_store p \<Longrightarrow> steps (keeps_disk E) p"
  by (simp add: steps_def keeps_store_def disk_same)

lemma store_files: "steps keeps_files p \<Longrightarrow> steps keeps_store p"
  by (simp add: steps_def keeps_store_def keeps_files_def)

lemma store_alter: "(\<And>m. keeps_store m (f m)) \<Longrightarrow> steps keeps_store (alter f)"
  by (simp add: steps_def)

lemma store_edit: "steps keeps_store (edit f)"
  unfolding edit_def by (rule store_alter) (simp add: keeps_store_def)

lemma store_consult: "steps keeps_store (consult f)" "steps keeps_store (consider_it g)"
  by (intro store_files files_consult)+

lemma store_put: "steps keeps_store (put_inbox E r)"
  unfolding put_inbox_def durable_def
  by (intro store.so_bnd store_consult)
    (auto split: fault.split intro!: store_alter store.so_raise store.so_thn simp: keeps_store_def)

lemma store_unlink: "steps keeps_store (unlink_inbox E)"
  unfolding unlink_inbox_def by (intro store.so_rules store_consult store_alter) (simp add: keeps_store_def)

lemma store_read_inbox: "steps keeps_store read_inbox"
  unfolding read_inbox_def
  by (intro store.so_bnd store.so_asks)
    (auto split: option.split doc.split intro: store.so_ret store.so_raise store.so_bnd store.so_lift)

lemma store_load: "steps keeps_store (load_ledger E t)"
proof -
  have "steps keeps_store (case d of None \<Rightarrow> first_ledger E t | Some Unreadable \<Rightarrow> raise wrong
      | Some (Stored L) \<Rightarrow> bnd (lift (check_ledger L)) (\<lambda>_. ret L))" for d
    by (auto split: option.split doc.split
        intro: store_files files_first store.so_raise store.so_bnd store.so_lift store.so_ret)
  then show ?thesis
    unfolding load_ledger_def by (intro store.so_bnd store.so_asks store_edit)
qed

lemma store_eligible: "steps keeps_store (eligible_corners E im)"
proof -
  have why: "steps keeps_files (why_excluded E im c)" for c
    unfolding why_excluded_def paused_def state_path_blocked_def
    by (intro filed.so_rules files_consult files_or_else)
  have "steps keeps_files (split_eligible E im cs)" for cs
  proof (induction cs)
    case Nil
    show ?case unfolding split_eligible.simps by (rule filed.so_ret)
  next
    case (Cons c cs)
    show ?case unfolding split_eligible.simps by (intro filed.so_rules why Cons)
  qed
  then show ?thesis unfolding eligible_corners_def by (rule store_files)
qed

lemma store_enqueue: "steps keeps_store (enqueue_manual E q c now trigger)"
  unfolding enqueue_manual_def Let_def by (intro store.so_rules store_consult store_put)

lemma store_reserve: "steps keeps_store (reserve_manual E q now trigger)"
  unfolding reserve_manual_def mem_def
  by (intro store.so_bnd store.so_thn store.so_asks store.so_unless store.so_prod store_eligible)
    (auto split: list.split option.split
      intro!: store.so_raise store.so_ret store.so_bnd store.so_thn store_read_inbox store_enqueue store_consult)

lemma store_queue: "steps keeps_store (queue_manual E q)"
  unfolding queue_manual_def mem_def clock_now_def
  by (intro store.so_rules store_consult store_load store_read_inbox store_reserve)

lemma store_cancel: "steps keeps_store (cancel_scheduled E game)"
  unfolding cancel_scheduled_def mem_def clock_now_def
  by (intro store.so_bnd store.so_thn store.so_unless store.so_lift store_consult store_load)
    (auto split: list.split option.split
      intro!: store.so_raise store.so_ret store.so_bnd store.so_thn store.so_asks store_read_inbox store_unlink)

lemma quarantine_keeps: "steps (keeps_disk E) (clear_quarantine E game)"
proof -
  have "steps (keeps_inv E) (bnd (mem (\<lambda>L. L)) (\<lambda>L.
       if now < lg_last_seen_at L then ret ''clock_regressed''
       else if lg_status L = ''recovery_required'' then ret ''recovery_required''
       else if lg_status L = ''running'' \<or> lg_pending L \<noteq> None \<or> lg_manual_pending L \<noteq> None then ret ''busy''
       else if lg_reason L \<noteq> Some ''clock-gap-quarantine'' then ret ''not_quarantined''
       else if \<not> quarantined L now then ret ''not_held''
       else if map_option rv_corner (lg_queued_manual L) \<noteq> Some game then ret ''not_queued''
       else thn (edit (\<lambda>L. mark_waiting ''manual-clock-hold-cleared'' (L\<lparr>lg_hold_until := None\<rparr>)))
         (thn (save_ledger E) (ret ''cleared''))))" for now
    by (intro kept.rs_prims) (simp add: lesser_def mark_waiting_def)
  then show ?thesis
    unfolding clear_quarantine_def
    by (intro disk.so_thn disk.so_unless disk.so_bnd disk_consult disk.so_if disk.so_ret with_ledger from_loaded kept.g_steps)
      (simp_all add: loaded_def)
qed

lemma serve_keeps: "disk_good E m \<Longrightarrow> disk_good E (serve_rotation E c m)"
proof -
  assume m: "disk_good E m"
  have "keeps_disk E m (serve_rotation E c m)"
    using stepsD [OF tick_keeps] stepsD [OF recover_keeps] stepsD [OF run_manual_keeps]
      stepsD [OF store_disk [OF store_queue]] stepsD [OF store_disk [OF store_cancel]] stepsD [OF quarantine_keeps]
    by (cases c) simp_all
  with m show ?thesis by (simp add: keeps_disk_def)
qed

lemma scheduled_good: "scheduled cd m \<Longrightarrow> re_cooldown E = cd \<Longrightarrow> disk_good E m"
proof (induction arbitrary: E rule: scheduled.induct)
  case (scheduled_start m)
  then show ?case by (simp add: disk_good_def starts_good_def)
next
  case (scheduled_step m F c)
  from scheduled_step.IH [OF scheduled_step.hyps(2)] have "disk_good F (serve_rotation F c m)" by (rule serve_keeps)
  with scheduled_step.hyps(2) scheduled_step.prems show ?case by (simp add: disk_good_def)
qed

lemma least_bound: "least qs = Some q \<Longrightarrow> q \<in> set qs \<and> (\<forall>x\<in>set qs. q \<le> x)"
proof -
  have fold: "fold min xs x \<in> insert x (set xs) \<and> (\<forall>y\<in>insert x (set xs). fold min xs x \<le> y)" for xs and x :: rat
  proof (induction xs arbitrary: x)
    case (Cons y xs)
    from Cons [of "min y x"] show ?case by (auto simp: min_def split: if_splits)
  qed simp
  assume "least qs = Some q"
  with fold show ?thesis by (auto simp: least_def split: list.splits)
qed

section \<open>A concrete scheduler\<close>

definition idle_plane :: cstate where
  "idle_plane = \<lparr>cs_schema = 2, cs_revision = 1, cs_phase = Idle, cs_operation = None, cs_request_id = None,
     cs_deadline_at = None, cs_next_generation = 1, cs_active = None, cs_candidate = None, cs_previous = None,
     cs_retiring = [], cs_last_result = None, cs_last_error = None, cs_updated_at = []\<rparr>"

definition sample_corner :: "string \<Rightarrow> corner" where
  "sample_corner c = \<lparr>cr_id = c, cr_adapter = ''game'', cr_game = c, cr_enabled = True, cr_paused = False,
     cr_manual_only = False\<rparr>"

definition sample_rotation :: rot_env where
  "sample_rotation = \<lparr>re_catalog = [sample_corner ''a''], re_queue_mode = True, re_cooldown = 4,
     re_configured_interval = None, re_seed = ''s'', re_digest = (\<lambda>s. s), re_uuid5 = (\<lambda>s. s), re_uuid4 = (\<lambda>n. ''u''),
     re_enabled = (\<lambda>n. Inr True), re_predictions = (\<lambda>n. Inr ()), re_lock_free = (\<lambda>n. True),
     re_clock = (\<lambda>n. Secs (of_nat n)), re_fate = (\<lambda>n. NoFault), re_pause_file = (\<lambda>n c. False),
     re_legacy = (\<lambda>n. None), re_legacy_game = (\<lambda>n f. None), re_beat = (\<lambda>n. NotATime),
     re_unlinks = (\<lambda>n. True), re_active_game = (\<lambda>n. None), re_prediction_hold = (\<lambda>n. False),
     re_speech = (\<lambda>n t. Inr ()), ra_state_path = (\<lambda>c. None), ra_eligible = (\<lambda>n c. Inr True),
     ra_observations = (\<lambda>n c. Inr []), ra_terminal_failures_ok = (\<lambda>n c. Inr True), ra_released = (\<lambda>n c. Inr True),
     ra_reconcile_start = (\<lambda>c. None), ra_replay_restore = (\<lambda>c. None), ra_settle = (\<lambda>n c r. Inr Retired),
     ra_release_owner = (\<lambda>n c. Inr True), ra_has_store = (\<lambda>c. True), ra_plane = (\<lambda>n c. Plane idle_plane False),
     ra_receipt = (\<lambda>n c r. Inr (None, [])), ra_terminal_record = (\<lambda>n r. Inr None), ra_last_write = (\<lambda>n c. None),
     ra_enter_slot = (\<lambda>n c r. Inr True), ra_run = (\<lambda>n c r. Inr (Ran ''completed'')), ra_guard = (\<lambda>c. None),
     ra_resumes_manual = (\<lambda>c. False), ra_manual_plane = (\<lambda>n c f. None), ra_prepare_resume = (\<lambda>n r. Inr ()),
     ra_recover_prepared = (\<lambda>n c. Inr None), ra_publish_resume = (\<lambda>n r. Inr ())\<rparr>"

definition empty_rotation :: rot_machine where
  "empty_rotation = \<lparr>cm_disk = None, cm_mem = blank_ledger sample_rotation 0 [], cm_now = 0, cm_inbox = None,
     cm_notice = None, cm_heartbeat = None, cm_unretired = [], cm_calls = 0, cm_launches = []\<rparr>"

definition two_ticks :: rot_machine where
  "two_ticks = serve_rotation sample_rotation Tick (serve_rotation sample_rotation Tick empty_rotation)"

section \<open>Evaluating a run\<close>

lemma rot_bnd_apply: "bnd p f m = (case p m of (Inl x, t) \<Rightarrow> (Inl x, t) | (Inr v, t) \<Rightarrow> f v t)"
  by (simp add: bnd_def)

lemma rot_attempt_apply: "attempt q p m = (case p m of (Inl x, t) \<Rightarrow> if q x then (Inr (Inl x), t) else (Inl x, t)
   | (Inr v, t) \<Rightarrow> (Inr (Inr v), t))"
  by (simp add: attempt_def)

lemmas run_basic = rot_bnd_apply thn_def rot_attempt_apply consult_def consider_it_def mem_def edit_def durable_def
  save_ledger_def clock_now_def or_else_def timestamp_def unless_def whenM_def after_def now_is_def set_now_def
  returning_def early_def catchable_def day_def dec.simps Let_def

lemmas run_load = load_ledger_def first_ledger_def corner_ids_def legacy_files_def blank_ledger_def check_ledger_def
  checks_def time_ok_def opt_ok_def need_def known_ok_def known_of_def state_files_def retire_known_def

lemmas run_tick = tick_def when_enabled_def locked_tick_def clear_latch_def import_manual_def read_inbox_def in_time_tick_def
  note_gap_def quarantined_def guarded_tick_def tick_body_def expire_capture_def resume_manual_def observe_corners_def
  observers_def resources_free_def dispatch_next_def eligible_corners_def why_excluded_def paused_def
  state_path_blocked_def target_interval_def sync_notice_def decide_notice_def sorengame_on_air_def notice_now_def
  read_notice_def next_corner_notice_def withdrawn_def clear_notice_def adopt_queued_def due_queued_def
  draw_corner_def anchor_due_def auto_candidates_def cooling_def chosen_corner_def pick_def new_reservation_def
  write_ahead_def run_pending_def observed_of_def mark_dispatched_def add_use_def start_pending_def run_slot_def
  slot_heartbeat_def write_heartbeat_def execute_in_slot_def adapter_run_def log_launch_def drop_heartbeat_def
  after_run_def close_completed_def latest_uses_def keep_latest_def

lemmas run_sample = sample_rotation_def sample_corner_def empty_rotation_def idle_plane_def

lemma two_ticks_run:
  "List.map (\<lambda>l. (rv_corner (la_request l), la_at l, la_fresh l, automatic (la_request l))) (cm_launches two_ticks)
     = [(''a'', 36, True, True), (''a'', 3, True, True)] \<and> (\<exists>L. cm_disk two_ticks = Some (Stored L))"
  by (simp add: two_ticks_def automatic_def run_basic run_load run_tick run_sample)

lemma two_ticks_scheduled: "scheduled 4 two_ticks"
  unfolding two_ticks_def
  by (intro scheduled_step scheduled_start) (simp_all add: empty_rotation_def sample_rotation_def)

section \<open>Properties\<close>

text \<open>C25: A corner the timer starts anew was last started anew at least the cooldown before, whoever
  started it then and whatever the clock, the disk and the adapters did between.  The start of a
  dispatched reservation that is run again is not a new start.
\<close>

theorem auto_starts_rested:
  assumes "scheduled cd m" "cm_launches m = later @ new # earlier" "old \<in> set earlier"
    "la_fresh new" "automatic (la_request new)" "la_fresh old"
    "rv_corner (la_request old) = rv_corner (la_request new)"
  shows "la_at old + cd \<le> la_at new"
proof -
  have "starts_good cd (cm_launches m)"
    using scheduled_good [OF assms(1), of "sample_rotation\<lparr>re_cooldown := cd\<rparr>"] by (simp add: disk_good_def)
  with assms show ?thesis by (auto simp: starts_good_def sorted_wrt_append rested_def)
qed

lemma auto_starts_rested_witness:
  "\<exists>old new. cm_launches two_ticks = [new, old] \<and> automatic (la_request new) \<and> la_at old + 4 \<le> la_at new"
proof -
  from two_ticks_run obtain new old where ls: "cm_launches two_ticks = [new, old]" "la_fresh new" "la_fresh old"
      "automatic (la_request new)" "rv_corner (la_request old) = rv_corner (la_request new)"
    by (auto simp: map_eq_Cons_conv)
  then have "la_at old + 4 \<le> la_at new"
    by (intro auto_starts_rested [OF two_ticks_scheduled, where later = "[]" and earlier = "[old]"]) simp_all
  with ls show ?thesis by blast
qed

text \<open>C27: Nothing starts that is not written ahead: when an execution starts, the ledger on disk holds
  its reservation, as the dispatched one of the timer while the scheduler runs or as the manual one.
\<close>

theorem starts_written_ahead:
  assumes "scheduled cd m" "l \<in> set (cm_launches m)"
  shows "\<exists>L. la_disk l = Some (Stored L) \<and>
     (lg_pending L = Some (la_request l) \<and> lg_status L = ''running'' \<and> rv_phase (la_request l) \<noteq> Some ''selected''
      \<or> lg_manual_pending L = Some (la_request l))"
  using scheduled_good [OF assms(1), of "sample_rotation\<lparr>re_cooldown := cd\<rparr>"] assms(2)
  by (simp add: disk_good_def starts_good_def recorded_def)

lemma starts_written_ahead_witness:
  "\<exists>l\<in>set (cm_launches two_ticks). \<exists>L. la_disk l = Some (Stored L)"
proof -
  from two_ticks_run obtain new old where "cm_launches two_ticks = [new, old]" by (auto simp: map_eq_Cons_conv)
  then have new: "new \<in> set (cm_launches two_ticks)" by simp
  from starts_written_ahead [OF two_ticks_scheduled new] new show ?thesis by blast
qed

text \<open>C29: The records of failures on disk stay bounded: at most 16 failed corners, 32 released requests
  and 3 attempts to replay a restore.
\<close>

theorem failure_records_bounded:
  assumes "scheduled cd m" "cm_disk m = Some (Stored L)"
  shows "length (lg_failed_corners L) \<le> 16 \<and> length (lg_released L) \<le> 32 \<and>
     (\<forall>b. lg_auto_restore L = Some b \<longrightarrow> rb_attempts b \<le> 3)"
  using scheduled_good [OF assms(1), of "sample_rotation\<lparr>re_cooldown := cd\<rparr>"] assms(2)
  by (simp add: disk_good_def ledger_good_def bounded_def split: option.splits)

lemma failure_records_bounded_witness:
  "\<exists>L. cm_disk two_ticks = Some (Stored L) \<and> length (lg_failed_corners L) \<le> 16"
proof -
  from two_ticks_run obtain L where L: "cm_disk two_ticks = Some (Stored L)" by blast
  from failure_records_bounded [OF two_ticks_scheduled L] L show ?thesis by blast
qed

text \<open>C30: Compacting the history after a completed run keeps one row of each corner and, for rows with
  valid times, changes no answer about which corner is cooling down.
\<close>

theorem compaction_keeps_cooldown:
  assumes "\<forall>r\<in>set h. 0 \<le> us_at r"
  shows "(cooling cd (latest_uses h) t c \<longleftrightarrow> cooling cd h t c) \<and> distinct (List.map us_corner (latest_uses h))"
  using assms by (auto intro!: cooling_compact latest_uses_distinct)

definition sample_uses :: "use_row list" where
  "sample_uses = [\<lparr>us_corner = ''a'', us_at = 0, us_source = ''manual-reservation''\<rparr>,
     \<lparr>us_corner = ''a'', us_at = 5, us_source = ''manual-completion''\<rparr>]"

lemma compaction_keeps_cooldown_witness:
  "cooling 10 (latest_uses sample_uses) 14 ''a'' \<and> length (latest_uses sample_uses) = 1"
proof
  show "cooling 10 (latest_uses sample_uses) 14 ''a''"
    using compaction_keeps_cooldown [of sample_uses 10 14 "''a''"] by (simp add: sample_uses_def cooling_def)
  show "length (latest_uses sample_uses) = 1" by (simp add: sample_uses_def latest_uses_def keep_latest_def)
qed

text \<open>
  The time the scheduler waits for when every corner is cooling down lies ahead, and until then
  none of them can run: each corner that is cooling down now still is just before.
\<close>

theorem cooldown_due_lower_bound:
  assumes "cooldown_due_at cd h el now = Some t"
  shows "now < t \<and> (\<forall>c\<in>set el. cooling cd h now c \<longrightarrow> (\<forall>u<t. cooling cd h u c))"
proof -
  let ?qs = "List.map (\<lambda>r. us_at r + cd) (filter (\<lambda>r. us_corner r \<in> set el \<and> now - cd < us_at r) h)"
  from assms have t: "least ?qs = Some t" by (simp add: cooldown_due_at_def)
  with least_bound [OF t] show ?thesis by (fastforce simp: cooling_def)
qed

lemma cooldown_due_lower_bound_witness:
  "cooldown_due_at 10 sample_uses [''a''] 8 = Some 10 \<and> cooling 10 sample_uses 9 ''a''"
proof -
  have due: "cooldown_due_at 10 sample_uses [''a''] 8 = Some 10"
    by (simp add: cooldown_due_at_def sample_uses_def least_def)
  moreover have "cooling 10 sample_uses 8 ''a''" by (simp add: cooling_def sample_uses_def)
  ultimately show ?thesis using cooldown_due_lower_bound [OF due] by simp
qed

text \<open>
  The time is not when a corner can recur, as its comment says: a corner with an older use that is
  still within the cooldown is cooling down at that time, and the scheduler waits again.
\<close>

lemma cooldown_due_too_early:
  "cooldown_due_at 10 sample_uses [''a''] 8 = Some 10 \<and> cooling 10 sample_uses 10 ''a''"
  by (simp add: cooldown_due_at_def sample_uses_def least_def cooling_def)

text \<open>C28: A manual request in the inbox is never lost by its import: on every exit, a failed or torn
  write and the death of the process included, it is still in the inbox or it is the queued request
  of the ledger on disk.
\<close>

theorem manual_request_kept:
  assumes "cm_inbox m = Some (Stored r)" "import_manual E now m = (v, m')"
  shows "cm_inbox m' = Some (Stored r) \<or>
     cm_inbox m' = None \<and> (\<exists>L. cm_disk m' = Some (Stored L) \<and> lg_queued_manual L = Some r)"
  using assms
  by (auto simp: import_manual_def read_inbox_def run_basic unlink_inbox_def
      split: prod.splits sum.splits option.splits if_splits fault.splits)

definition sample_request :: reservation where
  "sample_request = \<lparr>rv_corner = ''a'', rv_request_id = ''00000000-0000-4000-8000-00000000000a'', rv_selected_at = 1,
     rv_phase = None, rv_source = None, rv_trigger_at = None, rv_resume_latest = False, rv_new_game = False,
     rv_state_file = None, rv_capture_profile = None, rv_capture_expires_at = None\<rparr>"

lemma manual_request_kept_witness:
  "\<exists>v m'. import_manual sample_rotation 5 (empty_rotation\<lparr>cm_inbox := Some (Stored sample_request)\<rparr>) = (v, m') \<and>
     (cm_inbox m' = Some (Stored sample_request) \<or> (\<exists>L. cm_disk m' = Some (Stored L) \<and> lg_queued_manual L = Some sample_request))"
proof -
  let ?m = "empty_rotation\<lparr>cm_inbox := Some (Stored sample_request)\<rparr>"
  obtain v m' where run: "import_manual sample_rotation 5 ?m = (v, m')" by fastforce
  have "cm_inbox ?m = Some (Stored sample_request)" by simp
  from manual_request_kept [OF this run] run show ?thesis by blast
qed

text \<open>C26: A tick does not lose the reservation it finds: on every exit the ledger on disk still holds
  it, unless the tick was shown that the shared slot is settled and its request not in flight, that
  its failed start was rolled back, or that its run completed.
\<close>

theorem reservation_kept:
  assumes "cm_disk m = Some (Stored L)" "lg_pending L = Some r" "tick E m = (v, m')"
  shows "(\<exists>L' r'. cm_disk m' = Some (Stored L') \<and> lg_pending L' = Some r' \<and>
       rv_corner r' = rv_corner r \<and> rv_request_id r' = rv_request_id r) \<or>
     slot_proof E (rv_corner r) (rv_request_id r) (cm_calls m) \<or>
     start_proof E (rv_corner r) (rv_request_id r) (cm_calls m) \<or>
     run_proof E (rv_corner r) (rv_request_id r) (cm_calls m)"
proof (rule ccontr)
  assume no: "\<not> ?thesis"
  then have "unproved E (rv_corner r) (rv_request_id r) (cm_calls m)" by (simp add: unproved_def)
  note kept = tick_holds [OF this]
  have "shelved (rv_corner r) (rv_request_id r) (cm_calls m) m" using assms by (simp add: shelved_def names_def)
  then have "shelved (rv_corner r) (rv_request_id r) (cm_calls m) m'"
    using assms(3) kept by (cases v) (auto dest: tripleD tripleD_exn)
  with no show False by (auto simp: shelved_def names_def)
qed

definition parked_ledger :: ledger where
  "parked_ledger = (blank_ledger sample_rotation 1 [])\<lparr>lg_pending := Some (sample_request\<lparr>rv_phase := Some ''dispatched''\<rparr>),
     lg_status := ''running''\<rparr>"

definition unanswered :: rot_env where
  "unanswered = sample_rotation\<lparr>ra_plane := (\<lambda>n c. PlaneBusy), ra_run := (\<lambda>n c r. Inr WaitExpired)\<rparr>"

lemma reservation_kept_witness:
  "\<exists>L' r'. cm_disk (snd (tick unanswered (empty_rotation\<lparr>cm_disk := Some (Stored parked_ledger)\<rparr>))) = Some (Stored L') \<and>
     lg_pending L' = Some r' \<and> rv_corner r' = ''a''"
proof -
  let ?m = "empty_rotation\<lparr>cm_disk := Some (Stored parked_ledger)\<rparr>" and ?r = "sample_request\<lparr>rv_phase := Some ''dispatched''\<rparr>"
  obtain v m' where run: "tick unanswered ?m = (v, m')" by fastforce
  have p: "cm_disk ?m = Some (Stored parked_ledger)" "lg_pending parked_ledger = Some ?r" by (simp_all add: parked_ledger_def)
  have no: "\<not> slot_proof unanswered c rid n" "\<not> start_proof unanswered c rid n" "\<not> run_proof unanswered c rid n" for c rid n
    by (simp_all add: slot_proof_def start_proof_def run_proof_def unanswered_def sample_rotation_def)
  have "rv_corner ?r = ''a''" by (simp add: sample_request_def)
  with reservation_kept [OF p run] no run show ?thesis by auto
qed

section \<open>Where the scheduler is not what it means to be\<close>

text \<open>
  The attempts to replay a restore are counted after the replay: a process that dies in it leaves the
  ledger on disk as it was, and a restart tries again without end.
\<close>

lemma replay_death_uncounted:
  assumes "ra_replay_restore E (rv_corner r) = Some run" "run (cm_calls m) = Inl Died"
    "replay_allowed (budget_for r now (cm_mem m)) now"
  shows "\<exists>m'. replay_restore E r now m = (Inl Died, m') \<and> cm_disk m' = cm_disk m"
proof -
  have "budget_for r now ((cm_mem m)\<lparr>lg_auto_restore := Some (budget_for r now (cm_mem m))\<rparr>) = budget_for r now (cm_mem m)"
    by (simp add: budget_for_def Let_def split: option.splits)
  with assms show ?thesis
    by (simp add: replay_restore_def run_basic)
qed

definition sample_runtime :: runtime where
  "sample_runtime = \<lparr>rt_game = ''base'', rt_adapter = ''x'', rt_generation = 1, rt_runtime_id = ''g1'', rt_lease_id = Some ''l'',
     rt_game_window = [], rt_agent_window = [], rt_adapter_session = [], rt_started_at = []\<rparr>"

definition settled_plane :: cstate where
  "settled_plane = idle_plane\<lparr>cs_phase := Ready, cs_active := Some sample_runtime\<rparr>"

definition manual_only_rotation :: rot_env where
  "manual_only_rotation = sample_rotation\<lparr>re_catalog := [(sample_corner ''a'')\<lparr>cr_manual_only := True\<rparr>], re_queue_mode := False,
     ra_plane := (\<lambda>n c. Plane settled_plane False)\<rparr>"

lemmas run_failure = handle_failure_def commit_failed_start_def reconcile_failed_start_def release_if_free_def
  slot_reusable_def leftover_game_def read_plane_def corner_game_def finished_owner_def release_failed_def
  record_failed_def keep_last_def failed_corner_limit_def mark_released_def oldest_released_def released_corner_limit_def
  settle_released_def release_owner_def close_failed_def plane_settled_def error_kind_def ledger_error_kinds_def error_kinds_def
  unlink_inbox_def mark_waiting_def wait_with_def truthy_or_def auto_release_latch_def kind_or_def
  no_candidate_def cooldown_due_at_def least_def

lemma sample_uuid: "uuid_ok ''00000000-0000-4000-8000-00000000000a''"
  by (simp add: uuid_ok_def hex_int_def strip_braces_def py_strip_def py_space_def hex_char_def is_digit_def less_eq_char_def Let_def)

text \<open>
  In interval mode a queued request for a corner that only runs by hand is lost when no other corner
  is eligible: there is no interval, the sum with it raises, and the failure releases the request
  although it never ran.
\<close>

lemma manual_only_request_lost:
  "let m = snd (tick manual_only_rotation (empty_rotation\<lparr>cm_inbox := Some (Stored sample_request)\<rparr>)) in
   cm_launches m = [] \<and> cm_inbox m = None \<and> (\<exists>L. cm_disk m = Some (Stored L) \<and> lg_pending L = None \<and> lg_queued_manual L = None)"
  by (simp add: sample_uuid sample_request_def manual_only_rotation_def settled_plane_def sample_runtime_def
    run_basic run_load run_tick run_sample run_failure queued_ok_def id_ok_def)

text \<open>
  A latch is cleared before the clock is compared with the last one seen: a clock set back moves
  that watermark back, which the recovery by the operator refuses.
\<close>

definition latched_rotation :: rot_env where
  "latched_rotation = sample_rotation\<lparr>ra_plane := (\<lambda>n c. Plane settled_plane False)\<rparr>"

definition latched_ledger :: ledger where
  "latched_ledger = parked_ledger\<lparr>lg_status := ''recovery_required'', lg_last_seen_at := 1000, lg_known := []\<rparr>"

lemma latch_moves_clock_back:
  "\<exists>L. cm_disk (snd (tick latched_rotation (empty_rotation\<lparr>cm_disk := Some (Stored latched_ledger)\<rparr>))) = Some (Stored L)
     \<and> lg_last_seen_at L < lg_last_seen_at latched_ledger"
  by (simp add: latched_ledger_def parked_ledger_def latched_rotation_def sample_uuid sample_request_def settled_plane_def sample_runtime_def
    run_basic run_load run_tick run_sample run_failure pending_ok_def id_ok_def)

end
