(* ===== verification/CornerCatalog.thy ===== *)
theory CornerCatalog
  imports CornerLedger
begin

text \<open>
  \<open>corner_catalog.py\<close>: the configuration of the corner rotation and the catalog of its corners.  A
  value of the decoded TOML document is a \<open>toml\<close>; a table is an association list, and a float that
  is infinite or not a number is \<open>TFloat None\<close>.  Integers are unbounded, so \<open>float(i)\<close> can overflow.
\<close>

section \<open>Values\<close>

datatype toml = TBool bool | TInt int | TFloat "rat option" | TStr string | TArr "toml list"
  | TTab "(string \<times> toml) list" | TDate string

text \<open>\<open>CornerCatalogError\<close>, an unreadable file, and the exceptions of Python that no clause catches.\<close>

datatype catalog_error = CornerCatalogError string | ConfigUnreadable | PyOverflow | PyTypeError

type_synonym table = "(string \<times> toml) list"

definition toml_get :: "string \<Rightarrow> toml \<Rightarrow> table \<Rightarrow> toml" where
  "toml_get k d t = (case map_of t k of None \<Rightarrow> d | Some v \<Rightarrow> v)"

definition is_bool :: "toml \<Rightarrow> bool" where
  "is_bool v = (case v of TBool b \<Rightarrow> True | _ \<Rightarrow> False)"

definition truthy :: "toml \<Rightarrow> bool" where
  "truthy v = (case v of TBool b \<Rightarrow> b | TInt i \<Rightarrow> i \<noteq> 0 | TFloat (Some q) \<Rightarrow> q \<noteq> 0 | TFloat None \<Rightarrow> True
     | TStr s \<Rightarrow> s \<noteq> [] | TArr vs \<Rightarrow> vs \<noteq> [] | TTab t \<Rightarrow> t \<noteq> [] | TDate s \<Rightarrow> True)"

text \<open>\<open>type(v) is int and lo <= v <= hi\<close>.\<close>

definition int_in :: "int \<Rightarrow> int \<Rightarrow> toml \<Rightarrow> bool" where
  "int_in lo hi v = (case v of TInt i \<Rightarrow> lo \<le> i \<and> i \<le> hi | _ \<Rightarrow> False)"

text \<open>\<open>float(v)\<close> of an int or a float; the least integers that raise are half way to the next power.\<close>

definition float_limit :: int where
  "float_limit = 2 ^ 1024 - 2 ^ 970"

definition as_float :: "toml \<Rightarrow> catalog_error + rat option" where
  "as_float v = (case v of
       TInt i \<Rightarrow> if float_limit \<le> \<bar>i\<bar> then Inl PyOverflow else Inr (Some (of_int i))
     | TFloat q \<Rightarrow> Inr q
     | _ \<Rightarrow> Inl PyTypeError)"

definition is_number :: "toml \<Rightarrow> bool" where
  "is_number v = (case v of TInt i \<Rightarrow> True | TFloat q \<Rightarrow> True | _ \<Rightarrow> False)"

section \<open>The configuration\<close>

definition schedule_modes :: "string list" where
  "schedule_modes = [''interval'', ''queue'']"

definition default_cooldown_hours :: rat where "default_cooldown_hours = 24"
definition max_cooldown_hours :: rat where "max_cooldown_hours = 720"
definition min_interval_minutes :: rat where "min_interval_minutes = 1"
definition max_interval_minutes :: rat where "max_interval_minutes = 1440"

definition number_where :: "(rat \<Rightarrow> bool) \<Rightarrow> string \<Rightarrow> toml \<Rightarrow> catalog_error + unit" where
  "number_where ok name v = after (need (is_number v) (CornerCatalogError name)) (\<lambda>_.
     after (as_float v) (\<lambda>q. need (case q of None \<Rightarrow> False | Some q \<Rightarrow> ok q) (CornerCatalogError name)))"

text \<open>The file is absent, does not read as TOML, or is a document.\<close>

definition rotation_config :: "(unit + table) option \<Rightarrow> catalog_error + table" where
  "rotation_config document = (case document of
       None \<Rightarrow> Inr []
     | Some (Inl _) \<Rightarrow> Inl ConfigUnreadable
     | Some (Inr t) \<Rightarrow> (case toml_get ''corner_rotation'' (TTab []) t of
         TTab raw \<Rightarrow> after (checks [
             need (is_bool (toml_get ''enabled'' (TBool False) raw)) (CornerCatalogError ''configuration''),
             need (toml_get ''schedule_mode'' (TStr ''interval'') raw \<in> TStr ` set schedule_modes) (CornerCatalogError ''schedule_mode''),
             number_where (\<lambda>q. 0 < q \<and> q \<le> max_cooldown_hours) ''cooldown_hours''
               (toml_get ''cooldown_hours'' (TFloat (Some default_cooldown_hours)) raw),
             (case map_of raw ''interval_minutes'' of None \<Rightarrow> Inr ()
              | Some v \<Rightarrow> number_where (\<lambda>q. min_interval_minutes \<le> q \<and> q \<le> max_interval_minutes) ''interval_minutes'' v)]) (\<lambda>_. Inr raw)
       | _ \<Rightarrow> Inl (CornerCatalogError ''configuration'')))"

definition rotation_enabled :: "(unit + table) option \<Rightarrow> catalog_error + bool" where
  "rotation_enabled document = after (rotation_config document) (\<lambda>raw.
     Inr (toml_get ''enabled'' (TBool False) raw = TBool True))"

definition schedule_mode :: "(unit + table) option \<Rightarrow> catalog_error + toml" where
  "schedule_mode document = after (rotation_config document) (\<lambda>raw.
     Inr (toml_get ''schedule_mode'' (TStr ''interval'') raw))"

definition cooldown_seconds :: "(unit + table) option \<Rightarrow> catalog_error + rat option" where
  "cooldown_seconds document = after (rotation_config document) (\<lambda>raw.
     after (as_float (toml_get ''cooldown_hours'' (TFloat (Some default_cooldown_hours)) raw)) (\<lambda>q.
     Inr (map_option (\<lambda>q. q * 3600) q)))"

definition configured_interval_seconds :: "(unit + table) option \<Rightarrow> catalog_error + rat option option" where
  "configured_interval_seconds document = after (rotation_config document) (\<lambda>raw.
     case map_of raw ''interval_minutes'' of None \<Rightarrow> Inr None
     | Some v \<Rightarrow> after (as_float v) (\<lambda>q. Inr (Some (map_option (\<lambda>q. q * 60) q))))"

section \<open>The catalog\<close>

definition adapters :: "string list" where
  "adapters = [''game'', ''meriken'', ''paper'', ''nethack'', ''weather'', ''tsuitate'', ''yoso'', ''doushi'',
     ''puyo'', ''trpg'', ''mystery'', ''lawsim'']"

definition row_keys :: "string list" where
  "row_keys = [''id'', ''adapter'', ''game'', ''enabled'', ''paused'', ''live_eligible'', ''target_matches'',
     ''duration_minutes'', ''audio_enabled'', ''fetch_on_start'', ''manual_only'']"

text \<open>\<open>Corner(**row)\<close> checks no types; a missing optional number is None.\<close>

record entry =
  en_id :: toml
  en_adapter :: toml
  en_game :: toml
  en_enabled :: toml
  en_paused :: toml
  en_live :: toml
  en_target :: "toml option"
  en_duration :: "toml option"
  en_audio :: toml
  en_fetch :: toml
  en_manual :: toml

text \<open>A checked row of the catalog.  The settings keep the value the document gave them, of whatever type;
  the fields of \<open>corner\<close> are what the rotation sees of them, which only asks whether they are true.\<close>

record catalog_corner = corner +
  cc_enabled :: toml
  cc_paused :: toml
  cc_manual_only :: toml
  cc_live_eligible :: toml
  cc_target_matches :: "int option"
  cc_duration_minutes :: "int option"
  cc_audio_enabled :: toml
  cc_fetch_on_start :: toml

definition with_defaults :: "table \<Rightarrow> table" where
  "with_defaults row = (if map_of row ''adapter'' = Some (TStr ''weather'')
     then set_default ''audio_enabled'' (TBool False) (set_default ''enabled'' (TBool False) row) else row)"

definition entry_of :: "table \<Rightarrow> catalog_error + entry" where
  "entry_of row = (case (map_of row ''id'', map_of row ''adapter'', map_of row ''game'') of
       (Some i, Some a, Some g) \<Rightarrow> Inr \<lparr>en_id = i, en_adapter = a, en_game = g,
         en_enabled = toml_get ''enabled'' (TBool True) row, en_paused = toml_get ''paused'' (TBool False) row,
         en_live = toml_get ''live_eligible'' (TBool False) row, en_target = map_of row ''target_matches'',
         en_duration = map_of row ''duration_minutes'', en_audio = toml_get ''audio_enabled'' (TBool False) row,
         en_fetch = toml_get ''fetch_on_start'' (TBool False) row, en_manual = toml_get ''manual_only'' (TBool False) row\<rparr>
     | _ \<Rightarrow> Inl (CornerCatalogError ''identity''))"

definition name_of :: "toml \<Rightarrow> catalog_error + string" where
  "name_of v = (case v of
       TStr s \<Rightarrow> (case validate_game_name s of Inr n \<Rightarrow> Inr n | Inl x \<Rightarrow> Inl (CornerCatalogError ''identity''))
     | _ \<Rightarrow> Inl (CornerCatalogError ''identity''))"

text \<open>Membership in the dict of adapters hashes the value, which an array or a table does not allow.\<close>

definition adapter_of :: "toml \<Rightarrow> catalog_error + string" where
  "adapter_of v = (case v of
       TStr a \<Rightarrow> if a \<in> set adapters then Inr a else Inl (CornerCatalogError ''adapter'')
     | TArr vs \<Rightarrow> Inl PyTypeError
     | TTab t \<Rightarrow> Inl PyTypeError
     | _ \<Rightarrow> Inl (CornerCatalogError ''adapter''))"

definition minutes_ok :: "int \<Rightarrow> entry \<Rightarrow> bool" where
  "minutes_ok hi e = (case en_duration e of None \<Rightarrow> True | Some v \<Rightarrow> int_in 1 hi v)"

definition fixed_view :: "string \<Rightarrow> string \<Rightarrow> int \<Rightarrow> string \<Rightarrow> string \<Rightarrow> entry \<Rightarrow> (catalog_error + unit) list" where
  "fixed_view name view hi i g e =
     [need (i = name \<and> g = view) (CornerCatalogError (name @ '' identity'')),
      need (\<not> truthy (en_fetch e) \<and> is_bool (en_audio e)) (CornerCatalogError (name @ '' audio'')),
      need (minutes_ok hi e) (CornerCatalogError (name @ '' duration''))]"

text \<open>Views that run by hand only.\<close>

definition manual_view :: "string \<Rightarrow> string \<Rightarrow> string \<Rightarrow> string \<Rightarrow> entry \<Rightarrow> (catalog_error + unit) list" where
  "manual_view name view i g e =
     [need (i = name \<and> g = view) (CornerCatalogError (name @ '' identity'')),
      need (\<not> truthy (en_fetch e) \<and> is_bool (en_audio e)) (CornerCatalogError (name @ '' audio'')),
      need (en_manual e = TBool True) (CornerCatalogError (name @ '' manual'')),
      need (en_live e = TBool False) (CornerCatalogError (name @ '' live'')),
      need (minutes_ok 14 e) (CornerCatalogError (name @ '' duration''))]"

definition fits_adapter :: "string \<Rightarrow> string \<Rightarrow> string \<Rightarrow> entry \<Rightarrow> catalog_error + unit" where
  "fits_adapter a i g e = checks (
     if a = ''weather'' then
       [need (i = ''weather'' \<and> g = ''weather-view'' \<and> minutes_ok 14 e \<and> is_bool (en_audio e) \<and> is_bool (en_fetch e)
         \<and> \<not> (truthy (en_enabled e) \<and> en_duration e = None)) (CornerCatalogError ''weather'')]
     else if a = ''tsuitate'' then
       [need (i = ''tsuitate'' \<and> g = ''tsuitate-view'') (CornerCatalogError ''tsuitate identity''),
        need (is_bool (en_audio e)) (CornerCatalogError ''tsuitate audio''),
        need (en_duration e = None \<and> \<not> truthy (en_fetch e)) (CornerCatalogError ''tsuitate settings'')]
     else if a = ''yoso'' then fixed_view ''yosou-oh'' ''yosou-view'' 14 i g e
     else if a = ''doushi'' then fixed_view ''doushi-card'' ''doushi-view'' 14 i g e
     else if a = ''puyo'' then manual_view ''puyo-corner'' ''puyo-view'' i g e
     else if a = ''trpg'' then manual_view ''trpg-corner'' ''trpg-view'' i g e
     else if a = ''mystery'' then fixed_view ''mystery'' ''mystery-view'' 45 i g e
     else if a = ''lawsim'' then fixed_view ''communist-law-simulator'' ''lawsim-view'' 14 i g e
     else [need (en_duration e = None \<and> \<not> truthy (en_audio e) \<and> \<not> truthy (en_fetch e))
       (CornerCatalogError ''weather only'')])"

definition int_of_toml :: "toml \<Rightarrow> int" where
  "int_of_toml v = (case v of TInt i \<Rightarrow> i | _ \<Rightarrow> 0)"

definition catalog_row :: "toml \<Rightarrow> catalog_error + catalog_corner" where
  "catalog_row v = (case v of
       TTab row \<Rightarrow> after (need (set (List.map fst row) \<subseteq> set row_keys) (CornerCatalogError ''entry'')) (\<lambda>_.
         after (entry_of (with_defaults row)) (\<lambda>e.
         after (name_of (en_id e)) (\<lambda>i.
         after (name_of (en_game e)) (\<lambda>g.
         after (adapter_of (en_adapter e)) (\<lambda>a.
         after (checks [fits_adapter a i g e,
             need (case en_target e of None \<Rightarrow> True | Some v \<Rightarrow> a = ''game'' \<and> int_in 1 100 v) (CornerCatalogError ''target_matches''),
             need (is_bool (en_enabled e) \<and> is_bool (en_paused e) \<and> is_bool (en_live e) \<and> is_bool (en_manual e)
               \<and> \<not> truthy (en_live e)) (CornerCatalogError ''live_eligible'')]) (\<lambda>_.
         Inr \<lparr>cr_id = i, cr_adapter = a, cr_game = g, cr_enabled = truthy (en_enabled e),
           cr_paused = truthy (en_paused e), cr_manual_only = truthy (en_manual e),
           cc_enabled = en_enabled e, cc_paused = en_paused e, cc_manual_only = en_manual e, cc_live_eligible = en_live e,
           cc_target_matches = map_option int_of_toml (en_target e),
           cc_duration_minutes = map_option int_of_toml (en_duration e),
           cc_audio_enabled = en_audio e, cc_fetch_on_start = en_fetch e\<rparr>))))))
     | _ \<Rightarrow> Inl (CornerCatalogError ''entry''))"

definition load_catalog :: "(unit + table) option \<Rightarrow> catalog_error + catalog_corner list" where
  "load_catalog document = after (rotation_config document) (\<lambda>raw. case toml_get ''corners'' (TArr []) raw of
       TArr rows \<Rightarrow> after (each catalog_row rows) (\<lambda>cs.
         after (need (distinct (List.map cr_id cs) \<and> distinct (List.map cr_game cs)) (CornerCatalogError ''duplicate'')) (\<lambda>_.
         Inr cs))
     | _ \<Rightarrow> Inl (CornerCatalogError ''corners''))"

end
