(* ===== verification/CatalogProperties.thy ===== *)
theory CatalogProperties
  imports CornerCatalog
begin

text \<open>
  What a catalog that loads promises: the type of every corner, read as the rows the rest of the
  rotation relies on, the bounds of the configured numbers, and the exceptions of documents that do
  not load.
\<close>

section \<open>The type of a loaded corner\<close>

definition manual_adapters :: "string set" where
  "manual_adapters = {''puyo'', ''trpg''}"

definition view_adapters :: "string set" where
  "view_adapters = {''weather'', ''tsuitate'', ''yoso'', ''doushi'', ''puyo'', ''trpg'', ''mystery'', ''lawsim''}"

text \<open>The one identifier and game a view may have.\<close>

definition view_identities :: "(string \<times> string \<times> string) list" where
  "view_identities = [(''weather'', ''weather'', ''weather-view''), (''tsuitate'', ''tsuitate'', ''tsuitate-view''),
     (''yoso'', ''yosou-oh'', ''yosou-view''), (''doushi'', ''doushi-card'', ''doushi-view''),
     (''puyo'', ''puyo-corner'', ''puyo-view''), (''trpg'', ''trpg-corner'', ''trpg-view''),
     (''mystery'', ''mystery'', ''mystery-view''), (''lawsim'', ''communist-law-simulator'', ''lawsim-view'')]"

definition well_typed :: "catalog_corner \<Rightarrow> bool" where
  "well_typed c \<longleftrightarrow> matches_name 63 (cr_id c) \<and> matches_name 63 (cr_game c)
     \<and> known_ok (known_of (corner.truncate c)) = Inr ()
     \<and> cc_enabled c = TBool (cr_enabled c) \<and> cc_paused c = TBool (cr_paused c)
     \<and> cc_manual_only c = TBool (cr_manual_only c) \<and> cc_live_eligible c = TBool False
     \<and> (case cc_target_matches c of None \<Rightarrow> True | Some n \<Rightarrow> cr_adapter c = ''game'' \<and> 1 \<le> n \<and> n \<le> 100)
     \<and> (case cc_duration_minutes c of None \<Rightarrow> True | Some n \<Rightarrow> cr_adapter c \<in> view_adapters - {''tsuitate''}
          \<and> 1 \<le> n \<and> n \<le> (if cr_adapter c = ''mystery'' then 45 else 14))
     \<and> (if cr_adapter c \<in> view_adapters then is_bool (cc_audio_enabled c) else \<not> truthy (cc_audio_enabled c))
     \<and> (if cr_adapter c = ''weather'' then is_bool (cc_fetch_on_start c) else \<not> truthy (cc_fetch_on_start c))
     \<and> (cr_adapter c \<in> view_adapters \<longrightarrow> map_of view_identities (cr_adapter c) = Some (cr_id c, cr_game c))
     \<and> (cr_adapter c \<in> manual_adapters \<longrightarrow> cr_manual_only c)
     \<and> (cr_adapter c = ''weather'' \<and> cr_enabled c \<longrightarrow> cc_duration_minutes c \<noteq> None)"

lemma checks_Inr: "checks cs = Inr u \<longleftrightarrow> (\<forall>c\<in>set cs. c = Inr ())"
  by (induction cs) (auto simp: checks_def after_Inr)

lemma minutes_okD:
  assumes "minutes_ok hi e" "en_duration e = Some v"
  shows "1 \<le> int_of_toml v \<and> int_of_toml v \<le> hi"
  using assms by (auto simp: minutes_ok_def int_in_def int_of_toml_def split: toml.splits)

lemma target_okD:
  assumes "int_in 1 100 v"
  shows "1 \<le> int_of_toml v \<and> int_of_toml v \<le> 100"
  using assms by (auto simp: int_in_def int_of_toml_def split: toml.splits)

text \<open>What the branch of each adapter leaves.\<close>

lemma every_adapter:
  assumes "a \<in> set adapters" "list_all P adapters"
  shows "P a"
  using assms by (simp add: list_all_iff)

definition settings_fit :: "string \<Rightarrow> string \<Rightarrow> string \<Rightarrow> entry \<Rightarrow> bool" where
  "settings_fit a i g e \<longleftrightarrow> (a \<in> view_adapters \<longrightarrow> map_of view_identities a = Some (i, g))
     \<and> (if a \<in> view_adapters then is_bool (en_audio e) else \<not> truthy (en_audio e))
     \<and> (if a = ''weather'' then is_bool (en_fetch e) else \<not> truthy (en_fetch e))
     \<and> (a = ''weather'' \<and> truthy (en_enabled e) \<longrightarrow> en_duration e \<noteq> None)
     \<and> (a \<in> manual_adapters \<longrightarrow> en_manual e = TBool True)
     \<and> (if a \<in> view_adapters - {''tsuitate''} then minutes_ok (if a = ''mystery'' then 45 else 14) e
        else en_duration e = None)"

lemma fits_adapterD:
  assumes "a \<in> set adapters" "fits_adapter a i g e = Inr ()"
  shows "settings_fit a i g e"
proof -
  have "fits_adapter a i g e = Inr () \<longrightarrow> settings_fit a i g e"
  proof (rule every_adapter [OF assms(1)])
    show "list_all (\<lambda>a. fits_adapter a i g e = Inr () \<longrightarrow> settings_fit a i g e) adapters"
      unfolding adapters_def list.pred_inject
      by (intro conjI TrueI impI; simp add: fits_adapter_def checks_Inr settings_fit_def view_adapters_def view_identities_def
          manual_adapters_def fixed_view_def manual_view_def)
  qed
  then show ?thesis using assms(2) by (rule mp)
qed

lemma adapter_known: "a \<in> set adapters \<longleftrightarrow> a \<in> fst ` set state_files"
  by (auto simp: adapters_def state_files_def)

lemma name_ofD: "name_of v = Inr s \<Longrightarrow> matches_name 63 s \<and> v = TStr s"
  by (auto simp: name_of_def validate_game_name_def split: toml.splits if_splits)

lemma adapter_ofD: "adapter_of v = Inr a \<Longrightarrow> a \<in> set adapters \<and> v = TStr a"
  by (auto simp: adapter_of_def split: toml.splits if_splits)

lemma bool_value: "is_bool v \<Longrightarrow> v = TBool (truthy v)"
  by (auto simp: is_bool_def truthy_def split: toml.splits)

lemma catalog_row_well_typed:
  assumes "catalog_row v = Inr c"
  shows "well_typed c"
proof -
  obtain e i g a where c: "name_of (en_id e) = Inr i" "name_of (en_game e) = Inr g"
      "adapter_of (en_adapter e) = Inr a" "fits_adapter a i g e = Inr ()"
      "case en_target e of None \<Rightarrow> True | Some v \<Rightarrow> a = ''game'' \<and> int_in 1 100 v"
      "is_bool (en_enabled e)" "is_bool (en_paused e)" "is_bool (en_live e)" "is_bool (en_manual e)" "\<not> truthy (en_live e)"
    and def: "c = \<lparr>cr_id = i, cr_adapter = a, cr_game = g, cr_enabled = truthy (en_enabled e),
           cr_paused = truthy (en_paused e), cr_manual_only = truthy (en_manual e),
           cc_enabled = en_enabled e, cc_paused = en_paused e, cc_manual_only = en_manual e, cc_live_eligible = en_live e,
           cc_target_matches = map_option int_of_toml (en_target e),
           cc_duration_minutes = map_option int_of_toml (en_duration e),
           cc_audio_enabled = en_audio e, cc_fetch_on_start = en_fetch e\<rparr>"
    using assms by (auto simp: catalog_row_def after_Inr checks_Inr split: toml.splits)
  have a: "a \<in> set adapters" using c adapter_ofD by blast
  have fits: "settings_fit a i g e" using a c(4) by (rule fits_adapterD)
  have "cc_enabled c = TBool (cr_enabled c)" "cc_paused c = TBool (cr_paused c)"
      "cc_manual_only c = TBool (cr_manual_only c)" "cc_live_eligible c = TBool False"
    using c(10) bool_value [OF c(6)] bool_value [OF c(7)] bool_value [OF c(8)] bool_value [OF c(9)] by (simp_all add: def)
  moreover have "matches_name 63 (cr_id c)" "matches_name 63 (cr_game c)"
    using c(1,2) name_ofD by (simp_all add: def)
  moreover have "known_ok (known_of (corner.truncate c)) = Inr ()"
    using a by (simp add: def corner.defs known_ok_def known_of_def adapter_known)
  moreover have "case cc_target_matches c of None \<Rightarrow> True | Some n \<Rightarrow> cr_adapter c = ''game'' \<and> 1 \<le> n \<and> n \<le> 100"
    using c(5) target_okD by (cases "en_target e") (simp_all add: def)
  moreover have "case cc_duration_minutes c of None \<Rightarrow> True | Some n \<Rightarrow> cr_adapter c \<in> view_adapters - {''tsuitate''}
      \<and> 1 \<le> n \<and> n \<le> (if cr_adapter c = ''mystery'' then 45 else 14)"
    using fits minutes_okD unfolding settings_fit_def by (cases "en_duration e") (auto simp: def split: if_splits)
  moreover have "if cr_adapter c \<in> view_adapters then is_bool (cc_audio_enabled c) else \<not> truthy (cc_audio_enabled c)"
    using fits by (simp add: def settings_fit_def)
  moreover have "if cr_adapter c = ''weather'' then is_bool (cc_fetch_on_start c) else \<not> truthy (cc_fetch_on_start c)"
    using fits by (simp add: def settings_fit_def)
  moreover have "cr_adapter c \<in> view_adapters \<longrightarrow> map_of view_identities (cr_adapter c) = Some (cr_id c, cr_game c)"
    using fits by (simp add: def settings_fit_def)
  moreover have "cr_adapter c \<in> manual_adapters \<longrightarrow> cr_manual_only c"
    using fits by (simp add: def settings_fit_def truthy_def)
  moreover have "cr_adapter c = ''weather'' \<and> cr_enabled c \<longrightarrow> cc_duration_minutes c \<noteq> None"
    using fits by (simp add: def settings_fit_def)
  ultimately show ?thesis unfolding well_typed_def by (intro conjI)
qed

section \<open>A document\<close>

definition sample_row :: "string \<Rightarrow> string \<Rightarrow> string \<Rightarrow> table \<Rightarrow> toml" where
  "sample_row i a g extra = TTab ([(''id'', TStr i), (''adapter'', TStr a), (''game'', TStr g)] @ extra)"

definition sample_document :: "toml list \<Rightarrow> table \<Rightarrow> (unit + table) option" where
  "sample_document rows extra = Some (Inr [(''corner_rotation'', TTab ([(''enabled'', TBool True), (''corners'', TArr rows)] @ extra))])"

definition three_corners :: "toml list" where
  "three_corners = [sample_row ''nsnake'' ''game'' ''nsnake'' [(''target_matches'', TInt 3)],
     sample_row ''weather'' ''weather'' ''weather-view'' [(''enabled'', TBool True), (''duration_minutes'', TInt 10), (''fetch_on_start'', TBool True)],
     sample_row ''puyo-corner'' ''puyo'' ''puyo-view'' [(''manual_only'', TBool True), (''audio_enabled'', TBool True)]]"

definition three_document :: "(unit + table) option" where
  "three_document = sample_document three_corners [(''cooldown_hours'', TInt 12), (''interval_minutes'', TFloat (Some (15/2)))]"

lemmas document_simps = three_document_def sample_document_def sample_row_def rotation_config_def checks_def toml_get_def
  schedule_modes_def number_where_def is_bool_def is_number_def as_float_def float_limit_def
  default_cooldown_hours_def max_cooldown_hours_def min_interval_minutes_def max_interval_minutes_def

lemmas row_simps = catalog_row_def row_keys_def with_defaults_def set_default_def entry_of_def name_of_def
  validate_game_name_def name_start_def name_char_def is_lower_def is_digit_def adapter_of_def adapters_def fits_adapter_def fixed_view_def manual_view_def
  minutes_ok_def int_in_def truthy_def int_of_toml_def

lemma three_corners_load:
  "\<exists>cs. load_catalog three_document = Inr cs
     \<and> List.map cr_id cs = [''nsnake'', ''weather'', ''puyo-corner''] \<and> List.map cr_manual_only cs = [False, False, True]
     \<and> List.map cc_live_eligible cs = [TBool False, TBool False, TBool False]"
  by (simp add: load_catalog_def three_corners_def document_simps row_simps)

section \<open>Numbers and exceptions\<close>

lemma number_whereD:
  assumes "number_where ok k v = Inr u"
  shows "\<exists>q. as_float v = Inr (Some q) \<and> ok q"
  using assms by (auto simp: number_where_def after_Inr split: option.splits)

lemma rotation_configD:
  assumes "rotation_config document = Inr raw"
  shows "\<exists>q. as_float (toml_get ''cooldown_hours'' (TFloat (Some default_cooldown_hours)) raw) = Inr (Some q)
      \<and> 0 < q \<and> q \<le> max_cooldown_hours"
    and "map_of raw ''interval_minutes'' = Some v \<Longrightarrow>
      \<exists>q. as_float v = Inr (Some q) \<and> min_interval_minutes \<le> q \<and> q \<le> max_interval_minutes"
proof -
  have default: "as_float (TFloat (Some default_cooldown_hours)) = Inr (Some 24)"
    by (simp add: as_float_def default_cooldown_hours_def)
  consider "document = None" "raw = []"
    | "number_where (\<lambda>q. 0 < q \<and> q \<le> max_cooldown_hours) ''cooldown_hours''
         (toml_get ''cooldown_hours'' (TFloat (Some default_cooldown_hours)) raw) = Inr ()"
      "(case map_of raw ''interval_minutes'' of None \<Rightarrow> Inr ()
        | Some v \<Rightarrow> number_where (\<lambda>q. min_interval_minutes \<le> q \<and> q \<le> max_interval_minutes) ''interval_minutes'' v) = Inr ()"
    using assms by (auto simp: rotation_config_def after_Inr checks_Inr split: option.splits sum.splits toml.splits)
  note cases = this
  show "\<exists>q. as_float (toml_get ''cooldown_hours'' (TFloat (Some default_cooldown_hours)) raw) = Inr (Some q)
      \<and> 0 < q \<and> q \<le> max_cooldown_hours"
    using cases default by cases (auto simp: toml_get_def max_cooldown_hours_def dest: number_whereD)
  show "\<exists>q. as_float v = Inr (Some q) \<and> min_interval_minutes \<le> q \<and> q \<le> max_interval_minutes"
    if "map_of raw ''interval_minutes'' = Some v"
    using cases that by cases (auto dest: number_whereD)
qed

definition unhashable :: "toml \<Rightarrow> bool" where
  "unhashable v = (case v of TArr vs \<Rightarrow> True | TTab t \<Rightarrow> True | _ \<Rightarrow> False)"

definition huge :: "toml \<Rightarrow> bool" where
  "huge v = (case v of TInt i \<Rightarrow> float_limit \<le> \<bar>i\<bar> | _ \<Rightarrow> False)"

abbreviation uncaught :: "catalog_error \<Rightarrow> bool" where
  "uncaught x \<equiv> x = PyOverflow \<or> x = PyTypeError \<or> x = ConfigUnreadable"

lemma after_Inl: "after r f = Inl x \<longleftrightarrow> r = Inl x \<or> (\<exists>v. r = Inr v \<and> f v = Inl x)"
  by (cases r) auto

lemma checks_Inl:
  assumes "checks cs = Inl x"
  shows "Inl x \<in> set cs"
  using assms by (induction cs) (auto simp: checks_def after_Inl)

lemma need_Inl [simp]: "need b y = Inl x \<longleftrightarrow> \<not> b \<and> x = y" "Inl x = need b y \<longleftrightarrow> \<not> b \<and> x = y"
  by (auto simp: need_def)

lemma each_Inl:
  assumes "each f xs = Inl x"
  shows "\<exists>v\<in>set xs. f v = Inl x"
  using assms by (induction xs) (auto simp: after_Inl)

lemma number_where_uncaught:
  assumes "number_where ok k v = Inl x" "uncaught x"
  shows "x = PyOverflow \<and> huge v"
  using assms by (auto simp: number_where_def after_Inl is_number_def as_float_def huge_def split: toml.splits if_splits)

lemma fits_adapter_caught:
  assumes "fits_adapter a i g e = Inl x"
  shows "\<not> uncaught x"
  using checks_Inl [OF assms [unfolded fits_adapter_def]]
  by (auto simp: fixed_view_def manual_view_def eq_commute [of "Inl x"] split: if_splits)

lemma with_defaults_adapter: "map_of (with_defaults row) ''adapter'' = map_of row ''adapter''"
  by (auto simp: with_defaults_def set_default_def map_add_def split: option.splits)

lemma entry_of_cases:
  "entry_of row = Inl x \<Longrightarrow> \<not> uncaught x"
  "entry_of row = Inr e \<Longrightarrow> map_of row ''adapter'' = Some (en_adapter e)"
  by (auto simp: entry_of_def split: option.splits)

lemma name_of_caught: "name_of v = Inl x \<Longrightarrow> \<not> uncaught x"
  by (auto simp: name_of_def split: toml.splits sum.splits)

lemma adapter_of_uncaught: "adapter_of v = Inl x \<Longrightarrow> uncaught x \<Longrightarrow> x = PyTypeError \<and> unhashable v"
  by (auto simp: adapter_of_def unhashable_def split: toml.splits if_splits)

lemma catalog_row_uncaught:
  assumes "catalog_row r = Inl x" "uncaught x"
  shows "x = PyTypeError \<and> (\<exists>row v. r = TTab row \<and> map_of row ''adapter'' = Some v \<and> unhashable v)"
proof -
  obtain row where row: "r = TTab row"
    using assms by (auto simp: catalog_row_def split: toml.splits)
  have rest: "\<not> uncaught y" if "checks [fits_adapter a i g e, need p (CornerCatalogError s), need q (CornerCatalogError t)] = Inl y" for y a i g e p q s t
    using checks_Inl [OF that] fits_adapter_caught [of a i g e y] by (auto simp: eq_commute [of "Inl y"])
  consider "entry_of (with_defaults row) = Inl x"
    | e where "entry_of (with_defaults row) = Inr e" "name_of (en_id e) = Inl x \<or> name_of (en_game e) = Inl x"
    | e where "entry_of (with_defaults row) = Inr e" "adapter_of (en_adapter e) = Inl x"
    using assms unfolding catalog_row_def row by (auto simp: after_Inl dest: rest)
  then show ?thesis
    using assms(2) row entry_of_cases name_of_caught adapter_of_uncaught with_defaults_adapter
    by cases (auto, metis+)
qed

lemma rotation_config_table:
  assumes "rotation_config document = Inr raw" "raw \<noteq> []"
  shows "\<exists>t. document = Some (Inr t) \<and> map_of t ''corner_rotation'' = Some (TTab raw)"
proof -
  obtain t where t: "document = Some (Inr t)"
    using assms by (cases document rule: option.exhaust; cases "the document") (auto simp: rotation_config_def)
  have "toml_get ''corner_rotation'' (TTab []) t = TTab raw"
    using assms(1) t by (cases "toml_get ''corner_rotation'' (TTab []) t") (auto simp: rotation_config_def after_Inr)
  then show ?thesis using t assms(2) by (auto simp: toml_get_def split: option.splits)
qed

lemma load_catalog_rows:
  assumes "load_catalog document = Inr cs"
  obtains rows where "each catalog_row rows = Inr cs" "distinct (List.map cr_id cs)" "distinct (List.map cr_game cs)"
proof -
  obtain raw where "(case toml_get ''corners'' (TArr []) raw of
       TArr rows \<Rightarrow> after (each catalog_row rows) (\<lambda>cs.
         after (need (distinct (List.map cr_id cs) \<and> distinct (List.map cr_game cs)) (CornerCatalogError ''duplicate'')) (\<lambda>_.
         Inr cs))
     | _ \<Rightarrow> Inl (CornerCatalogError ''corners'')) = Inr cs"
    using assms by (auto simp: load_catalog_def after_Inr)
  then show ?thesis
    using that by (cases "toml_get ''corners'' (TArr []) raw") (auto simp: after_Inr)
qed

lemma config_uncaught:
  assumes "rotation_config document = Inl x" "uncaught x"
  shows "x = ConfigUnreadable \<and> document = Some (Inl ())
    \<or> (\<exists>t raw. document = Some (Inr t) \<and> map_of t ''corner_rotation'' = Some (TTab raw) \<and> x = PyOverflow
         \<and> (\<exists>k\<in>{''cooldown_hours'', ''interval_minutes''}. \<exists>v. map_of raw k = Some v \<and> huge v))"
proof (cases "\<exists>t. document = Some (Inr t)")
  case False
  then show ?thesis using assms by (auto simp: rotation_config_def split: option.splits sum.splits)
next
  case True
  then obtain t where t: "document = Some (Inr t)" by blast
  then obtain raw where raw: "toml_get ''corner_rotation'' (TTab []) t = TTab raw"
      and c: "after (checks [
             need (is_bool (toml_get ''enabled'' (TBool False) raw)) (CornerCatalogError ''configuration''),
             need (toml_get ''schedule_mode'' (TStr ''interval'') raw \<in> TStr ` set schedule_modes) (CornerCatalogError ''schedule_mode''),
             number_where (\<lambda>q. 0 < q \<and> q \<le> max_cooldown_hours) ''cooldown_hours''
               (toml_get ''cooldown_hours'' (TFloat (Some default_cooldown_hours)) raw),
             (case map_of raw ''interval_minutes'' of None \<Rightarrow> Inr ()
              | Some v \<Rightarrow> number_where (\<lambda>q. min_interval_minutes \<le> q \<and> q \<le> max_interval_minutes) ''interval_minutes'' v)]) (\<lambda>_. Inr raw) = Inl x"
    using assms by (cases "toml_get ''corner_rotation'' (TTab []) t") (auto simp: rotation_config_def)
  have "number_where (\<lambda>q. 0 < q \<and> q \<le> max_cooldown_hours) ''cooldown_hours''
               (toml_get ''cooldown_hours'' (TFloat (Some default_cooldown_hours)) raw) = Inl x
      \<or> (\<exists>v. map_of raw ''interval_minutes'' = Some v
           \<and> number_where (\<lambda>q. min_interval_minutes \<le> q \<and> q \<le> max_interval_minutes) ''interval_minutes'' v = Inl x)"
    using c assms(2) by (auto simp: after_Inl dest!: checks_Inl split: option.splits)
  then have "x = PyOverflow \<and> (huge (toml_get ''cooldown_hours'' (TFloat (Some default_cooldown_hours)) raw)
      \<or> (\<exists>v. map_of raw ''interval_minutes'' = Some v \<and> huge v))"
    using number_where_uncaught assms(2) by blast
  then have "x = PyOverflow \<and> (\<exists>k\<in>{''cooldown_hours'', ''interval_minutes''}. \<exists>v. map_of raw k = Some v \<and> huge v)"
    by (auto simp: toml_get_def huge_def split: option.splits)
  moreover from this have "map_of t ''corner_rotation'' = Some (TTab raw)"
    using raw by (auto simp: toml_get_def split: option.splits)
  ultimately show ?thesis using t by blast
qed

section \<open>Properties\<close>

text \<open>C31: A catalog that loads is well typed: no two corners share an identifier or a game, both are
  valid names, every adapter is one whose state file the ledger knows; \<open>enabled\<close>, \<open>paused\<close> and
  \<open>manual_only\<close> are the booleans the rotation reads, \<open>live_eligible\<close> is false, and the other settings
  are of their type, in their range and on an adapter that accepts them (\<open>well_typed\<close>); a view has its own
  identifier and game, a puyo or trpg corner runs by hand only, and
  an enabled weather corner has a duration.\<close>

theorem catalog_well_typed:
  assumes "load_catalog document = Inr cs"
  shows "distinct (List.map cr_id cs) \<and> distinct (List.map cr_game cs) \<and> (\<forall>c\<in>set cs. well_typed c)"
proof -
  obtain rows where "each catalog_row rows = Inr cs" "distinct (List.map cr_id cs)" "distinct (List.map cr_game cs)"
    using assms by (rule load_catalog_rows)
  then show ?thesis
    using catalog_row_well_typed by (fastforce simp: each_Inr in_set_conv_nth)
qed

lemma catalog_well_typed_witness:
  "\<exists>cs. load_catalog three_document = Inr cs
     \<and> List.map cr_id cs = [''nsnake'', ''weather'', ''puyo-corner''] \<and> (\<forall>c\<in>set cs. well_typed c)"
proof -
  obtain cs where cs: "load_catalog three_document = Inr cs"
      "List.map cr_id cs = [''nsnake'', ''weather'', ''puyo-corner'']"
    using three_corners_load by (elim exE conjE)
  have "\<forall>c\<in>set cs. well_typed c" using catalog_well_typed [OF cs(1)] by (elim conjE)
  with cs show ?thesis by (intro exI conjI)
qed

text \<open>The scheduler's times are in range whatever the document says, as long as it loads: the
  cooldown is positive and at most thirty days, and a configured interval is between a minute and a
  day.\<close>

lemma config_times_bounded:
  assumes "cooldown_seconds document = Inr q" "configured_interval_seconds document = Inr w"
  shows "\<exists>c. q = Some c \<and> 0 < c \<and> c \<le> 30 * 86400 \<and> w \<in> insert None {Some (Some i) |i. 60 \<le> i \<and> i \<le> 86400}"
proof -
  obtain raw where raw: "rotation_config document = Inr raw"
    using assms(1) by (auto simp: cooldown_seconds_def after_Inr)
  have c: "\<exists>c. q = Some c \<and> 0 < c \<and> c \<le> 30 * 86400"
    using rotation_configD(1) [OF raw] assms(1) raw
    by (auto simp: cooldown_seconds_def max_cooldown_hours_def)
  have i: "w \<in> insert None {Some (Some i) |i. 60 \<le> i \<and> i \<le> 86400}"
    using rotation_configD(2) [OF raw] assms(2) raw
    by (fastforce simp: configured_interval_seconds_def min_interval_minutes_def max_interval_minutes_def split: option.splits)
  show ?thesis using c i by blast
qed

lemma config_times_bounded_witness:
  "cooldown_seconds three_document = Inr (Some 43200)
     \<and> configured_interval_seconds three_document = Inr (Some (Some 450))
     \<and> (0::rat) < 43200"
proof -
  have c: "cooldown_seconds three_document = Inr (Some 43200)" by (simp add: cooldown_seconds_def document_simps)
  have i: "configured_interval_seconds three_document = Inr (Some (Some 450))" by (simp add: configured_interval_seconds_def document_simps)
  have "(0::rat) < 43200" using config_times_bounded [OF c i] by auto
  then show ?thesis using c i by blast
qed

text \<open>Every refusal of a catalog is the catalog's own error, with three exceptions: the file does
  not read as TOML, a cooldown or an interval is an integer no float can hold, or an adapter is an
  array or a table, which the membership test cannot hash.\<close>

lemma catalog_errors_named:
  assumes "load_catalog document = Inl x" "\<And>s. x \<noteq> CornerCatalogError s"
  shows "x = ConfigUnreadable \<and> document = Some (Inl ())
    \<or> (\<exists>t raw. document = Some (Inr t) \<and> map_of t ''corner_rotation'' = Some (TTab raw)
         \<and> (x = PyOverflow \<and> (\<exists>k\<in>{''cooldown_hours'', ''interval_minutes''}. \<exists>v. map_of raw k = Some v \<and> huge v)
           \<or> x = PyTypeError \<and> (\<exists>rows row v. map_of raw ''corners'' = Some (TArr rows) \<and> TTab row \<in> set rows
                \<and> map_of row ''adapter'' = Some v \<and> unhashable v)))"
proof -
  have x: "uncaught x" using assms(2) by (cases x) auto
  consider "rotation_config document = Inl x"
    | raw rows where "rotation_config document = Inr raw" "toml_get ''corners'' (TArr []) raw = TArr rows"
        "each catalog_row rows = Inl x"
  proof -
    assume config: "rotation_config document = Inl x \<Longrightarrow> thesis"
      and rows: "\<And>raw rows. rotation_config document = Inr raw \<Longrightarrow> toml_get ''corners'' (TArr []) raw = TArr rows \<Longrightarrow>
        each catalog_row rows = Inl x \<Longrightarrow> thesis"
    show thesis
    proof (cases "rotation_config document")
      case (Inl y)
      then show ?thesis using config assms(1) by (simp add: load_catalog_def)
    next
      case (Inr raw)
      then show ?thesis using rows [OF Inr] assms(1) x
        by (cases "toml_get ''corners'' (TArr []) raw") (auto simp: load_catalog_def after_Inl)
    qed
  qed
  then show ?thesis
  proof cases
    case 1
    then show ?thesis using config_uncaught x by blast
  next
    case 2
    obtain r where r: "r \<in> set rows" "catalog_row r = Inl x" using each_Inl [OF 2(3)] by (elim bexE)
    obtain row v where bad: "TTab row \<in> set rows" "map_of row ''adapter'' = Some v" "unhashable v" and t: "x = PyTypeError"
      using catalog_row_uncaught [OF r(2) x] r(1) by (elim conjE exE) simp
    have corners: "map_of raw ''corners'' = Some (TArr rows)"
      using 2(2) bad(1) by (auto simp: toml_get_def split: option.splits)
    have "\<exists>t. document = Some (Inr t) \<and> map_of t ''corner_rotation'' = Some (TTab raw)"
      using 2(1) corners by (intro rotation_config_table) auto
    then show ?thesis using bad t corners by blast
  qed
qed

lemma catalog_errors_named_witness:
  "load_catalog (sample_document [TTab [(''id'', TStr ''ab''), (''adapter'', TArr []), (''game'', TStr ''ab'')]] []) = Inl PyTypeError
    \<and> PyTypeError \<noteq> ConfigUnreadable
    \<and> unhashable (TArr [])"
proof -
  let ?d = "sample_document [TTab [(''id'', TStr ''ab''), (''adapter'', TArr []), (''game'', TStr ''ab'')]] []"
  have e: "load_catalog ?d = Inl PyTypeError"
    by (simp add: load_catalog_def document_simps row_simps)
  have "unhashable (TArr [])"
    using catalog_errors_named [OF e] by (auto simp: sample_document_def)
  then show ?thesis using e by simp
qed

lemma huge_cooldown_overflows:
  "load_catalog (sample_document [] [(''cooldown_hours'', TInt float_limit)]) = Inl PyOverflow"
  by (simp add: load_catalog_def document_simps)

end
