(* ===== verification/Tsuitate.thy ===== *)
theory Tsuitate
  imports Results Complex_Main
begin

text \<open>
  \<open>tsuitate_protocol.py\<close>: the checks on a player's view of a blind shogi game and the gate that lets
  one move intent out at a time.  A decoded JSON value is a \<open>jval\<close>; an object is a list of its
  key-value pairs, each key once.  A float is a rational, or \<open>None\<close> for an infinity or NaN.
\<close>

section \<open>Values\<close>

datatype jval = VNull | VBool bool | VInt int | VFloat "rat option" | VStr string
  | VArr "jval list" | VObj "(string \<times> jval) list"

datatype protocol_error = ProtocolError string

definition vget :: "(string \<times> jval) list \<Rightarrow> string \<Rightarrow> jval" where
  "vget ob k = (case map_of ob k of None \<Rightarrow> VNull | Some v \<Rightarrow> v)"

definition max_safe_integer :: int where
  "max_safe_integer = 2 ^ 53 - 1"

definition integer_arg :: "jval \<Rightarrow> string \<Rightarrow> int \<Rightarrow> int \<Rightarrow> protocol_error + int" where
  "integer_arg v code lo hi =
     (case v of VInt i \<Rightarrow> if lo \<le> i \<and> i \<le> hi then Inr i else Inl (ProtocolError code)
      | _ \<Rightarrow> Inl (ProtocolError code))"

definition color_arg :: "jval \<Rightarrow> protocol_error + string" where
  "color_arg v = (case v of VStr s \<Rightarrow> if s = ''sente'' \<or> s = ''gote'' then Inr s
       else Inl (ProtocolError ''invalid_color'')
     | _ \<Rightarrow> Inl (ProtocolError ''invalid_color''))"

datatype clock_reading = ClockInt int | ClockFloat rat

definition clock_number :: "jval \<Rightarrow> protocol_error + clock_reading" where
  "clock_number v = (case v of
       VInt i \<Rightarrow> if 0 \<le> i \<and> i \<le> max_safe_integer then Inr (ClockInt i)
         else Inl (ProtocolError ''invalid_clocks'')
     | VFloat (Some q) \<Rightarrow> if 0 \<le> q \<and> q \<le> of_int max_safe_integer then Inr (ClockFloat q)
         else Inl (ProtocolError ''invalid_clocks'')
     | _ \<Rightarrow> Inl (ProtocolError ''invalid_clocks''))"

text \<open>\<open>str.isprintable\<close> on code points below 256.\<close>

definition py_printable :: "char \<Rightarrow> bool" where
  "py_printable c \<longleftrightarrow> (let n = (of_char c :: nat) in 32 \<le> n \<and> n \<le> 126 \<or> 161 \<le> n \<and> n \<noteq> 173)"

definition game_id_arg :: "jval \<Rightarrow> protocol_error + string" where
  "game_id_arg v = (case v of
       VStr s \<Rightarrow> if 1 \<le> length s \<and> length s \<le> 128 \<and> list_all py_printable s
           \<and> \<not> py_space (hd s) \<and> \<not> py_space (last s) then Inr s
         else Inl (ProtocolError ''invalid_game_id'')
     | _ \<Rightarrow> Inl (ProtocolError ''invalid_game_id''))"

definition file_char :: "char \<Rightarrow> bool" where
  "file_char c \<longleftrightarrow> CHR ''1'' \<le> c \<and> c \<le> CHR ''9''"

definition rank_char :: "char \<Rightarrow> bool" where
  "rank_char c \<longleftrightarrow> CHR ''a'' \<le> c \<and> c \<le> CHR ''i''"

definition is_square :: "string \<Rightarrow> bool" where
  "is_square s = (case s of [x, y] \<Rightarrow> file_char x \<and> rank_char y | _ \<Rightarrow> False)"

text \<open>The pattern \<open>(?:[1-9][a-i][1-9][a-i]\+?|[PLNSGBR]\*[1-9][a-i])\<close>.\<close>

definition is_usi :: "string \<Rightarrow> bool" where
  "is_usi s = (case s of
       [a, b, c, d] \<Rightarrow> file_char a \<and> rank_char b \<and> file_char c \<and> rank_char d
         \<or> a \<in> set ''PLNSGBR'' \<and> b = CHR ''*'' \<and> file_char c \<and> rank_char d
     | [a, b, c, d, e] \<Rightarrow> file_char a \<and> rank_char b \<and> file_char c \<and> rank_char d \<and> e = CHR ''+''
     | _ \<Rightarrow> False)"

definition hand_roles :: "string list" where
  "hand_roles = [''pawn'', ''lance'', ''knight'', ''silver'', ''gold'', ''bishop'', ''rook'']"

definition piece_roles :: "string list" where
  "piece_roles = hand_roles @ [''king'', ''tokin'', ''promotedlance'', ''promotedknight'',
     ''promotedsilver'', ''horse'', ''dragon'']"

section \<open>The view\<close>

record player_view =
  pv_game_id :: string
  pv_color :: string
  pv_pieces :: "(string \<times> string) list"
  pv_hand :: "(string \<times> int) list"
  pv_turn :: string
  pv_move_number :: int
  pv_clocks :: "clock_reading \<times> clock_reading \<times> string option \<times> clock_reading"
  pv_fouls :: "int \<times> int"
  pv_checks :: "bool \<times> bool"
  pv_status :: string

fun parse_pieces :: "string list \<Rightarrow> jval list \<Rightarrow> protocol_error + (string \<times> string) list" where
  "parse_pieces seen [] = Inr []"
| "parse_pieces seen (p # ps) =
     (case p of VObj ob \<Rightarrow>
        (case (vget ob ''square'', vget ob ''role'') of
           (VStr sq, VStr role) \<Rightarrow>
             if is_square sq \<and> role \<in> set piece_roles \<and> sq \<notin> set seen
             then after (parse_pieces (sq # seen) ps) (\<lambda>r. Inr ((sq, role) # r))
             else Inl (ProtocolError ''invalid_piece'')
         | _ \<Rightarrow> Inl (ProtocolError ''invalid_piece''))
      | _ \<Rightarrow> Inl (ProtocolError ''invalid_piece''))"

definition parse_hand :: "(string \<times> jval) list \<Rightarrow> protocol_error + (string \<times> int) list" where
  "parse_hand h =
     (if \<not> list_all (\<lambda>(k, _). k \<in> set hand_roles) h then Inl (ProtocolError ''invalid_hand'')
      else after (each (\<lambda>(k, v). after (integer_arg v ''invalid_hand'' 0 40) (\<lambda>n. Inr (k, n))) h)
        (\<lambda>kvs. Inr (sort kvs)))"

text \<open>The running clock of a checked view: the side to move while playing, none at the end.\<close>

definition running_clock :: "string \<Rightarrow> string \<Rightarrow> jval \<Rightarrow> protocol_error + string option" where
  "running_clock status turn running =
     (if status = ''playing'' \<and> running \<noteq> VStr turn \<or> status = ''ended'' \<and> running \<noteq> VNull
      then Inl (ProtocolError ''invalid_running_clock'')
      else Inr (case running of VStr s \<Rightarrow> Some s | _ \<Rightarrow> None))"

definition as_list :: "jval \<Rightarrow> protocol_error \<Rightarrow> protocol_error + jval list" where
  "as_list v x = (case v of VArr vs \<Rightarrow> Inr vs | _ \<Rightarrow> Inl x)"

definition as_dict :: "jval \<Rightarrow> protocol_error \<Rightarrow> protocol_error + (string \<times> jval) list" where
  "as_dict v x = (case v of VObj ob \<Rightarrow> Inr ob | _ \<Rightarrow> Inl x)"

definition as_bool :: "jval \<Rightarrow> protocol_error \<Rightarrow> protocol_error + bool" where
  "as_bool v x = (case v of VBool b \<Rightarrow> Inr b | _ \<Rightarrow> Inl x)"

definition parse_view :: "jval \<Rightarrow> protocol_error + player_view" where
  "parse_view raw =
     after (as_dict raw (ProtocolError ''invalid_view'')) (\<lambda>ob.
     after (game_id_arg (vget ob ''gameId'')) (\<lambda>game_id.
     after (color_arg (vget ob ''yourColor'')) (\<lambda>color.
     after (color_arg (vget ob ''turn'')) (\<lambda>turn.
     after (integer_arg (vget ob ''moveNumber'') ''invalid_move_number'' 1 max_safe_integer) (\<lambda>move_number.
     after (case vget ob ''status'' of VStr s \<Rightarrow>
              if s = ''playing'' \<or> s = ''ended'' then Inr s else Inl (ProtocolError ''invalid_status'')
            | _ \<Rightarrow> Inl (ProtocolError ''invalid_status'')) (\<lambda>status.
     after (as_list (vget ob ''yourPieces'') (ProtocolError ''invalid_pieces'')) (\<lambda>pieces.
     after (need (length pieces \<le> 40) (ProtocolError ''invalid_pieces'')) (\<lambda>_.
     after (parse_pieces [] pieces) (\<lambda>parsed_pieces.
     after (as_dict (vget ob ''yourHand'') (ProtocolError ''invalid_hand'')) (\<lambda>hand.
     after (parse_hand hand) (\<lambda>parsed_hand.
     after (need (int (length parsed_pieces) + (\<Sum>(_, n)\<leftarrow>parsed_hand. n) \<le> 40)
              (ProtocolError ''invalid_piece_total'')) (\<lambda>_.
     after (as_dict (vget ob ''clocks'') (ProtocolError ''invalid_clocks'')) (\<lambda>clock.
     after (running_clock status turn (vget clock ''running'')) (\<lambda>running.
     after (clock_number (vget clock ''senteMs'')) (\<lambda>sente.
     after (clock_number (vget clock ''goteMs'')) (\<lambda>gote.
     after (clock_number (vget clock ''serverTime'')) (\<lambda>server.
     after (as_dict (vget ob ''fouls'') (ProtocolError ''invalid_fouls'')) (\<lambda>fouls.
     after (integer_arg (vget fouls ''you'') ''invalid_fouls'' 0 10) (\<lambda>you.
     after (integer_arg (vget fouls ''opponent'') ''invalid_fouls'' 0 10) (\<lambda>opp.
     after (as_bool (vget ob ''youInCheck'') (ProtocolError ''invalid_checks'')) (\<lambda>c1.
     after (as_bool (vget ob ''opponentInCheck'') (ProtocolError ''invalid_checks'')) (\<lambda>c2.
     Inr \<lparr>pv_game_id = game_id, pv_color = color, pv_pieces = sort parsed_pieces,
          pv_hand = parsed_hand, pv_turn = turn, pv_move_number = move_number,
          pv_clocks = (sente, gote, running, server), pv_fouls = (you, opp), pv_checks = (c1, c2),
          pv_status = status\<rparr>))))))))))))))))))))))"

definition view_key :: "player_view \<Rightarrow> string \<times> string \<times> int" where
  "view_key v = (pv_game_id v, pv_color v, pv_move_number v)"

definition clock_value :: "clock_reading \<Rightarrow> jval" where
  "clock_value c = (case c of ClockInt i \<Rightarrow> VInt i | ClockFloat q \<Rightarrow> VFloat (Some q))"

definition public_dict :: "player_view \<Rightarrow> jval" where
  "public_dict v = (case (pv_clocks v, pv_fouls v, pv_checks v) of ((a, b, running, t), (f, g), (c, d)) \<Rightarrow>
     VObj [(''gameId'', VStr (pv_game_id v)), (''yourColor'', VStr (pv_color v)),
       (''yourPieces'', VArr (List.map (\<lambda>(s, r). VObj [(''square'', VStr s), (''role'', VStr r)]) (pv_pieces v))),
       (''yourHand'', VObj (List.map (\<lambda>(k, n). (k, VInt n)) (pv_hand v))),
       (''turn'', VStr (pv_turn v)), (''moveNumber'', VInt (pv_move_number v)),
       (''clocks'', VObj [(''senteMs'', clock_value a), (''goteMs'', clock_value b),
          (''running'', case running of None \<Rightarrow> VNull | Some s \<Rightarrow> VStr s), (''serverTime'', clock_value t)]),
       (''fouls'', VObj [(''you'', VInt f), (''opponent'', VInt g)]),
       (''youInCheck'', VBool c), (''opponentInCheck'', VBool d), (''status'', VStr (pv_status v))])"

section \<open>The gate\<close>

record move_intent =
  mi_sequence :: int
  mi_generation :: int
  mi_position :: "string \<times> string \<times> int"
  mi_usi :: string

record gate =
  mg_generation :: int
  mg_connected :: bool
  mg_needs_sync :: bool
  mg_quiescing :: bool
  mg_view :: "player_view option"
  mg_pending :: "move_intent option"
  mg_sequence :: int
  mg_acked :: int
  mg_attempted :: "string set"
  mg_foul_floor :: int

type_synonym 'a gate_prog = "(gate, protocol_error, 'a) eff"

definition new_gate :: gate where
  "new_gate = \<lparr>mg_generation = 0, mg_connected = False, mg_needs_sync = True, mg_quiescing = False,
     mg_view = None, mg_pending = None, mg_sequence = 0, mg_acked = 0, mg_attempted = {},
     mg_foul_floor = 0\<rparr>"

definition new_connection :: "int gate_prog" where
  "new_connection =
     thn (alter (\<lambda>g. g\<lparr>mg_generation := mg_generation g + 1, mg_connected := True, mg_needs_sync := True\<rparr>))
       (asks mg_generation)"

definition disconnect :: "int \<Rightarrow> unit gate_prog" where
  "disconnect generation = bnd (asks mg_generation) (\<lambda>g.
     whenM (generation = g) (alter (\<lambda>g. g\<lparr>mg_connected := False, mg_needs_sync := True\<rparr>)))"

definition resync :: "unit gate_prog" where
  "resync = alter (\<lambda>g. g\<lparr>mg_needs_sync := True\<rparr>)"

definition is_playing :: "player_view option \<Rightarrow> bool" where
  "is_playing v = (case v of None \<Rightarrow> False | Some v \<Rightarrow> pv_status v = ''playing'')"

definition same_game :: "player_view option \<Rightarrow> player_view \<Rightarrow> bool" where
  "same_game old v = (case old of None \<Rightarrow> False | Some ob \<Rightarrow> pv_game_id ob = pv_game_id v)"

definition advanced :: "player_view option \<Rightarrow> player_view \<Rightarrow> bool" where
  "advanced old v = (case old of None \<Rightarrow> True
     | Some ob \<Rightarrow> pv_game_id ob \<noteq> pv_game_id v \<or> pv_move_number ob < pv_move_number v)"

text \<open>The checks of a view against the one before it: an error, \<open>False\<close> for a stale view, \<open>True\<close>.\<close>

definition compare_views :: "player_view option \<Rightarrow> player_view \<Rightarrow> protocol_error + bool" where
  "compare_views old v = (case old of None \<Rightarrow> Inr True | Some ob \<Rightarrow>
     if pv_game_id ob \<noteq> pv_game_id v then
       (if pv_status ob = ''playing'' then Inl (ProtocolError ''unexpected_game'') else Inr True)
     else if pv_color v \<noteq> pv_color ob then Inl (ProtocolError ''changed_color'')
     else if pv_move_number v < pv_move_number ob \<or> fst (pv_fouls v) < fst (pv_fouls ob)
       \<or> snd (pv_fouls v) < snd (pv_fouls ob) then Inr False
     else if pv_status ob = ''ended'' \<and> pv_status v \<noteq> ''ended'' then Inr False
     else if pv_status v = ''playing'' \<and> pv_move_number v = pv_move_number ob
       \<and> (pv_pieces v, pv_hand v, pv_turn v) \<noteq> (pv_pieces ob, pv_hand ob, pv_turn ob)
     then Inl (ProtocolError ''conflicting_position'')
     else Inr True)"

definition install_view :: "player_view \<Rightarrow> gate \<Rightarrow> gate" where
  "install_view v g =
     (let adv = advanced (mg_view g) v;
          foul = (case mg_view g of None \<Rightarrow> False | Some ob \<Rightarrow>
            pv_game_id ob = pv_game_id v \<and> fst (pv_fouls ob) < fst (pv_fouls v));
          g' = (if adv then g\<lparr>mg_pending := None, mg_attempted := {}, mg_foul_floor := fst (pv_fouls v)\<rparr>
                else if foul \<or> pv_status v = ''ended'' then g\<lparr>mg_pending := None\<rparr> else g)
      in g'\<lparr>mg_view := Some v, mg_needs_sync := False\<rparr>)"

definition accept_current_view :: "jval \<Rightarrow> bool \<Rightarrow> bool gate_prog" where
  "accept_current_view raw synchronized = (\<lambda>g.
     if raw = VNull then
       (if \<not> synchronized \<or> is_playing (mg_view g) \<or> mg_pending g \<noteq> None
        then (Inr False, g\<lparr>mg_needs_sync := True\<rparr>)
        else (Inr True, g\<lparr>mg_needs_sync := False\<rparr>))
     else (case parse_view raw of Inl x \<Rightarrow> (Inl x, g) | Inr v \<Rightarrow>
       (case compare_views (mg_view g) v of
          Inl x \<Rightarrow> (Inl x, g)
        | Inr False \<Rightarrow> (Inr False, g)
        | Inr True \<Rightarrow>
            if mg_needs_sync g \<and> \<not> synchronized \<and> \<not> (same_game (mg_view g) v \<and> advanced (mg_view g) v)
            then (Inr False, g)
            else if same_game (mg_view g) v \<and> fst (pv_fouls v) < mg_foul_floor g then (Inr False, g)
            else (Inr True, install_view v g))))"

definition accept_view :: "jval \<Rightarrow> int \<Rightarrow> bool \<Rightarrow> bool gate_prog" where
  "accept_view raw generation synchronized = (\<lambda>g.
     if generation \<noteq> mg_generation g \<or> \<not> mg_connected g then (Inr False, g)
     else (case accept_current_view raw synchronized g of
         (Inl x, h) \<Rightarrow> (Inl x, h\<lparr>mg_needs_sync := True\<rparr>)
       | (Inr b, h) \<Rightarrow> (Inr b, h)))"

definition move_ready :: "gate \<Rightarrow> bool" where
  "move_ready g = (case mg_view g of None \<Rightarrow> False | Some v \<Rightarrow>
     mg_connected g \<and> \<not> mg_needs_sync g \<and> pv_status v = ''playing'' \<and> pv_turn v = pv_color v
     \<and> mg_pending g = None \<and> fst (pv_fouls v) < 10)"

definition usi_problem :: "string \<Rightarrow> bool" where
  "usi_problem usi \<longleftrightarrow> \<not> is_usi usi \<or> CHR ''*'' \<notin> set usi \<and> take 2 usi = take 2 (drop 2 usi)"

definition prepare_move :: "string \<Rightarrow> move_intent gate_prog" where
  "prepare_move usi = (\<lambda>g.
     if \<not> move_ready g then (Inl (ProtocolError ''move_not_ready''), g)
     else if usi_problem usi then (Inl (ProtocolError ''invalid_usi''), g)
     else if usi \<in> mg_attempted g then (Inl (ProtocolError ''already_attempted''), g)
     else (case mg_view g of None \<Rightarrow> (Inl (ProtocolError ''move_not_ready''), g) | Some v \<Rightarrow>
       let n = mg_sequence g + 1;
           intent = \<lparr>mi_sequence = n, mi_generation = mg_generation g, mi_position = view_key v, mi_usi = usi\<rparr>
       in (Inr intent, g\<lparr>mg_sequence := n, mg_attempted := insert usi (mg_attempted g), mg_pending := Some intent\<rparr>)))"

definition acknowledge :: "move_intent \<Rightarrow> jval \<Rightarrow> bool gate_prog" where
  "acknowledge intent raw = (\<lambda>g.
     if \<not> mg_connected g \<or> mi_generation intent \<noteq> mg_generation g
       \<or> Some intent \<noteq> mg_pending g \<or> mi_sequence intent = mg_acked g then (Inr False, g)
     else
       let bad = (Inl (ProtocolError ''invalid_ack''), g);
           done = (\<lambda>h. (Inr True, h\<lparr>mg_acked := mi_sequence intent, mg_needs_sync := True\<rparr>))
       in case raw of VObj ob \<Rightarrow>
         (case vget ob ''ok'' of
            VBool True \<Rightarrow> done g
          | VBool False \<Rightarrow>
              if vget ob ''reason'' = VStr ''foul'' then
                (case integer_arg (vget ob ''foulCount'') ''invalid_ack'' 1 10 of Inl x \<Rightarrow> (Inl x, g)
                 | Inr count \<Rightarrow> (case mg_view g of None \<Rightarrow> bad | Some v \<Rightarrow>
                     if count \<le> fst (pv_fouls v) then bad
                     else done (g\<lparr>mg_foul_floor := count, mg_pending := None\<rparr>)))
              else if vget ob ''reason'' = VStr ''error'' then done (g\<lparr>mg_pending := None\<rparr>)
              else bad
          | _ \<Rightarrow> bad)
       | _ \<Rightarrow> bad)"

definition intent_timeout :: "move_intent \<Rightarrow> unit gate_prog" where
  "intent_timeout intent = bnd (asks mg_pending) (\<lambda>p. whenM (Some intent = p) resync)"

definition request_quiesce :: "unit gate_prog" where
  "request_quiesce = alter (\<lambda>g. g\<lparr>mg_quiescing := True\<rparr>)"

definition can_join_queue :: "gate \<Rightarrow> bool" where
  "can_join_queue g \<longleftrightarrow> mg_connected g \<and> \<not> mg_needs_sync g \<and> \<not> mg_quiescing g
     \<and> mg_pending g = None \<and> (case mg_view g of None \<Rightarrow> True | Some v \<Rightarrow> pv_status v = ''ended'')"

end
