(* ===== verification/Ballots.thy ===== *)
theory Ballots
  imports Results "HOL-Library.AList"
begin

text \<open>
  Ballots: the code that \<open>trpg_corner.py\<close> and \<open>mystery_participation.py\<close> share, letter by letter.  A
  ballot keeps the buckets (choice to the list of its users) and the order (user to the choice of the
  last vote), both dicts, as association lists.  The locale \<open>ballot\<close> is what the corners rely on: a
  vote replaces the user's choice, and a bucket counts the users of that choice.
\<close>

section \<open>The buckets\<close>

type_synonym buckets = "(string \<times> string list) list"

definition take_vote :: "string \<Rightarrow> string option \<Rightarrow> buckets \<Rightarrow> buckets" where
  "take_vote u prev votes = (case prev of None \<Rightarrow> votes
     | Some k \<Rightarrow> (case map_of votes k of None \<Rightarrow> votes
         | Some us \<Rightarrow> (let us = filter (\<lambda>v. v \<noteq> u) us in if us = [] then AList.delete k votes else AList.update k us votes)))"

definition put_vote :: "string \<Rightarrow> string \<Rightarrow> buckets \<Rightarrow> buckets" where
  "put_vote u k votes = (let us = (case map_of votes k of None \<Rightarrow> [] | Some us \<Rightarrow> us)
     in AList.update k (if u \<in> set us then us else us @ [u]) votes)"

definition cast_vote :: "string \<Rightarrow> string \<Rightarrow> buckets \<times> (string \<times> string) list \<Rightarrow>
    buckets \<times> (string \<times> string) list" where
  "cast_vote u k b = (case b of (votes, order) \<Rightarrow> (put_vote u k (take_vote u (map_of order u) votes), AList.update u k order))"

definition votes_for :: "(string \<times> string list) list \<Rightarrow> string \<Rightarrow> nat" where
  "votes_for votes k = (case map_of votes k of None \<Rightarrow> 0 | Some us \<Rightarrow> length us)"

section \<open>The contract\<close>

locale ballot =
  fixes tidy :: "'s \<Rightarrow> bool"
    and choice :: "'s \<Rightarrow> 'u \<Rightarrow> 'k option"
    and tally :: "'s \<Rightarrow> 'k \<Rightarrow> nat"
    and cast :: "'u \<Rightarrow> 'k \<Rightarrow> 's \<Rightarrow> 's"
  assumes tidy_cast: "tidy s \<Longrightarrow> tidy (cast u k s)"
    and choice_cast: "choice (cast u k s) = (choice s)(u \<mapsto> k)"
    and tally_choice: "tidy s \<Longrightarrow> tally s k = card {u. choice s u = Some k}"
begin

lemma choice_poll: "choice (fold (\<lambda>(u, k). cast u k) vs s) = choice s ++ map_of (rev vs)"
  by (induction vs arbitrary: s) (auto simp: choice_cast map_add_def fun_eq_iff split: option.splits)

lemma tidy_poll: "tidy s \<Longrightarrow> tidy (fold (\<lambda>(u, k). cast u k) vs s)"
  by (induction vs arbitrary: s) (auto simp: tidy_cast)

text \<open>Only the last vote of each user counts, whatever the order between users.\<close>

lemma tally_poll:
  assumes "tidy s" "choice s = Map.empty"
  shows "tally (fold (\<lambda>(u, k). cast u k) vs s) k = card {u. map_of (rev vs) u = Some k}"
  using assms by (simp add: tally_choice tidy_poll choice_poll)

lemma tally_recast:
  assumes "tidy s" "choice s u = Some k"
  shows "tally (cast u k s) j = tally s j"
proof -
  have "choice (cast u k s) = choice s" using assms(2) by (simp add: choice_cast fun_upd_idem)
  then show ?thesis using assms(1) by (simp add: tally_choice tidy_cast)
qed

lemma tally_swap:
  assumes "tidy s" "u \<noteq> v"
  shows "tally (cast u k (cast v l s)) j = tally (cast v l (cast u k s)) j"
proof -
  have "choice (cast u k (cast v l s)) = choice (cast v l (cast u k s))"
    using assms(2) by (simp add: choice_cast fun_upd_twist)
  then show ?thesis using assms(1) by (simp add: tally_choice tidy_cast)
qed

end

section \<open>The buckets keep it\<close>

definition tidy_ballot :: "buckets \<times> (string \<times> string) list \<Rightarrow> bool" where
  "tidy_ballot b = (case b of (votes, order) \<Rightarrow> distinct (List.map fst votes) \<and> distinct (List.map fst order)
     \<and> (\<forall>k us. map_of votes k = Some us \<longrightarrow> us \<noteq> [] \<and> distinct us)
     \<and> (\<forall>u k. map_of order u = Some k \<longleftrightarrow> (\<exists>us. map_of votes k = Some us \<and> u \<in> set us)))"

lemma tidy_ballotD:
  assumes "tidy_ballot (votes, order)"
  shows "map_of votes k = Some us \<Longrightarrow> us \<noteq> []"
    and "map_of votes k = Some us \<Longrightarrow> distinct us"
    and "map_of order u = Some k \<longleftrightarrow> (\<exists>us. map_of votes k = Some us \<and> u \<in> set us)"
  using assms by (auto simp: tidy_ballot_def)

lemma tidy_take:
  assumes "tidy_ballot (votes, order)"
  shows "distinct (List.map fst (take_vote u (map_of order u) votes))"
    and "map_of (take_vote u (map_of order u) votes) k = Some us \<longleftrightarrow>
      us \<noteq> [] \<and> (\<exists>vs. map_of votes k = Some vs \<and> us = filter (\<lambda>v. v \<noteq> u) vs)"
proof -
  show "distinct (List.map fst (take_vote u (map_of order u) votes))"
    using assms by (auto simp: tidy_ballot_def take_vote_def Let_def distinct_update distinct_delete split: option.splits)
  show "map_of (take_vote u (map_of order u) votes) k = Some us \<longleftrightarrow>
      us \<noteq> [] \<and> (\<exists>vs. map_of votes k = Some vs \<and> us = filter (\<lambda>v. v \<noteq> u) vs)"
  proof (cases "map_of order u")
    case None
    then have "u \<notin> set vs" if "map_of votes k = Some vs" for vs
      using tidy_ballotD(3) [OF assms, of u k] that None by auto
    then have "filter (\<lambda>v. v \<noteq> u) vs = vs" if "map_of votes k = Some vs" for vs
      using that by (auto simp: filter_id_conv)
    then show ?thesis
      using None tidy_ballotD(1) [OF assms] by (auto simp: take_vote_def)
  next
    case (Some j)
    then obtain js where js: "map_of votes j = Some js" "u \<in> set js"
      using tidy_ballotD(3) [OF assms] by blast
    have other: "filter (\<lambda>v. v \<noteq> u) vs = vs" if "map_of votes k = Some vs" "k \<noteq> j" for vs
    proof -
      have "u \<notin> set vs" using tidy_ballotD(3) [OF assms, of u k] that Some by auto
      then show ?thesis by (auto simp: filter_id_conv)
    qed
    show ?thesis
      using Some js other tidy_ballotD(1) [OF assms]
      by (cases "k = j") (auto simp: take_vote_def Let_def map_of_delete update_conv' delete_conv')
  qed
qed

lemma map_of_put:
  "map_of (put_vote u k votes) = (map_of votes)(k \<mapsto>
     (let us = (case map_of votes k of None \<Rightarrow> [] | Some us \<Rightarrow> us) in if u \<in> set us then us else us @ [u]))"
  by (simp add: put_vote_def Let_def update_conv')

lemma tidy_cast_vote:
  assumes "tidy_ballot b"
  shows "tidy_ballot (cast_vote u k b)"
proof -
  obtain votes order where b: "b = (votes, order)" by (cases b)
  note tidy = assms [unfolded b]
  let ?t = "take_vote u (map_of order u) votes"
  have t: "map_of ?t j = Some us \<longleftrightarrow> us \<noteq> [] \<and> (\<exists>vs. map_of votes j = Some vs \<and> us = filter (\<lambda>v. v \<noteq> u) vs)" for j us
    using tidy by (rule tidy_take(2))
  have fresh: "u \<notin> set us" if "map_of ?t j = Some us" for j us using that t by auto
  have put: "map_of (put_vote u k ?t) = (map_of ?t)(k \<mapsto> (case map_of ?t k of None \<Rightarrow> [] | Some us \<Rightarrow> us) @ [u])"
    using fresh by (simp add: map_of_put Let_def split: option.splits)
  have rest: "(\<exists>us. map_of ?t j = Some us \<and> v \<in> set us) \<longleftrightarrow> map_of order v = Some j \<and> v \<noteq> u" for v j
    using tidy_ballotD(3) [OF tidy, of v j] t by (fastforce simp: filter_empty_conv)
  have one: "(\<exists>us. map_of (put_vote u k ?t) j = Some us \<and> v \<in> set us) \<longleftrightarrow> map_of (AList.update u k order) v = Some j" for v j
    using rest [of j v] by (cases "j = k") (auto simp: put update_conv' split: option.splits)
  have shape: "us \<noteq> [] \<and> distinct us" if "map_of (put_vote u k ?t) j = Some us" for j us
  proof (cases "j = k")
    case True
    then have us: "us = (case map_of ?t k of None \<Rightarrow> [] | Some us \<Rightarrow> us) @ [u]" using that by (simp add: put)
    have "distinct vs \<and> u \<notin> set vs" if "map_of ?t k = Some vs" for vs
    proof -
      obtain ws where "map_of votes k = Some ws" "vs = filter (\<lambda>v. v \<noteq> u) ws" using \<open>map_of ?t k = Some vs\<close> t by blast
      then show ?thesis using tidy_ballotD(2) [OF tidy, of k ws] by simp
    qed
    then show ?thesis by (cases "map_of ?t k") (auto simp: us)
  next
    case False
    then have "map_of ?t j = Some us" using that by (simp add: put)
    then obtain ws where "us \<noteq> []" "map_of votes j = Some ws" "us = filter (\<lambda>v. v \<noteq> u) ws" using t by blast
    then show ?thesis using tidy_ballotD(2) [OF tidy, of j ws] by simp
  qed
  have "distinct (List.map fst (put_vote u k ?t))"
    using tidy_take(1) [OF tidy] by (simp add: put_vote_def Let_def distinct_update)
  moreover have "distinct (List.map fst (AList.update u k order))"
    using tidy by (simp add: tidy_ballot_def distinct_update)
  moreover have "\<forall>j us. map_of (put_vote u k ?t) j = Some us \<longrightarrow> us \<noteq> [] \<and> distinct us"
    by (intro allI impI) (rule shape)
  moreover have "\<forall>v j. map_of (AList.update u k order) v = Some j \<longleftrightarrow> (\<exists>us. map_of (put_vote u k ?t) j = Some us \<and> v \<in> set us)"
    by (intro allI) (rule one [symmetric])
  ultimately show ?thesis
    unfolding b cast_vote_def tidy_ballot_def prod.case by (intro conjI)
qed

lemma votes_for_tidy:
  assumes "tidy_ballot (votes, order)"
  shows "votes_for votes k = card {u. map_of order u = Some k}"
proof (cases "map_of votes k")
  case None
  then have none: "{u. map_of order u = Some k} = {}" using tidy_ballotD(3) [OF assms] by auto
  show ?thesis unfolding none using None by (simp add: votes_for_def)
next
  case (Some us)
  then have all: "{u. map_of order u = Some k} = set us" using tidy_ballotD(3) [OF assms] by auto
  have "distinct us" using tidy_ballotD(2) [OF assms Some] .
  then show ?thesis unfolding all using Some by (simp add: votes_for_def distinct_card)
qed

interpretation box: ballot tidy_ballot "\<lambda>b. map_of (snd b)" "\<lambda>b. votes_for (fst b)" cast_vote
proof
  show "tidy_ballot s \<Longrightarrow> tidy_ballot (cast_vote u k s)" for s u k by (rule tidy_cast_vote)
  show "map_of (snd (cast_vote u k s)) = (map_of (snd s))(u \<mapsto> k)" for u k s
    by (cases s) (simp add: cast_vote_def update_conv')
  show "tidy_ballot s \<Longrightarrow> votes_for (fst s) k = card {u. map_of (snd s) u = Some k}" for s k
    by (cases s) (simp add: votes_for_tidy)
qed

end
