(* ===== verification/TrpgStory.thy ===== *)
theory TrpgStory
  imports Tsuitate Ballots
begin

text \<open>
  \<open>trpg_corner.py\<close>: the story of the role-playing corner.  A scenario is checked once and told scene by
  scene; viewers vote for a choice, at the climax they accuse a suspect.  A dict is an association
  list in the order of its insertions.  Every operation is an effect on the state, so what it has
  changed before it raises stays changed.  User identifiers are strings and choices integers, as the
  chat delivers them.  Times are texts; the clock behind \<open>_now()\<close> is the argument \<open>clk\<close>.
\<close>

section \<open>Limits and phases\<close>

definition max_text :: nat where "max_text = 256"
definition max_title :: nat where "max_title = 128"
definition max_scenario_id :: nat where "max_scenario_id = 64"
definition max_scenes :: nat where "max_scenes = 64"
definition max_scene_text :: nat where "max_scene_text = 4096"
definition max_choices :: nat where "max_choices = 4"
definition min_choices :: nat where "min_choices = 2"
definition max_choice_text :: nat where "max_choice_text = 512"
definition max_trick_text :: nat where "max_trick_text = 512"
definition max_suspects :: nat where "max_suspects = 16"
definition max_participants :: nat where "max_participants = 100000"
definition max_window :: int where "max_window = 600"
definition max_minutes :: int where "max_minutes = 10"
definition max_history :: nat where "max_history = 500"
definition max_ledger_bytes :: nat where "max_ledger_bytes = 262144"
definition max_user_id :: nat where "max_user_id = 64"
definition vote_window_default :: int where "vote_window_default = 60"
definition accuse_window_default :: int where "accuse_window_default = 120"

datatype story_phase = PIdle | PScene | PChoice | PResolve | PClimax | PReveal | PEnd | PFailed | PTimeout

fun targets :: "story_phase \<Rightarrow> story_phase list" where
  "targets PIdle = [PScene]"
| "targets PScene = [PChoice, PFailed, PTimeout]"
| "targets PChoice = [PResolve, PFailed, PTimeout]"
| "targets PResolve = [PScene, PClimax, PEnd, PFailed, PTimeout]"
| "targets PClimax = [PReveal, PFailed, PTimeout]"
| "targets PReveal = [PEnd, PFailed, PTimeout]"
| "targets PEnd = [PIdle]"
| "targets PFailed = [PIdle]"
| "targets PTimeout = [PIdle, PFailed]"

definition genres :: "string list" where
  "genres = [''trpg'', ''murder_mystery'', ''both'']"

definition run_outcomes :: "string list" where
  "run_outcomes = [''completed'', ''failed'', ''timeout'', ''aborted'']"

text \<open>\<open>TrpgCornerError\<close>; a value of a wrong type and a search that finds nothing raise Python's own.\<close>

datatype trpg_error = TrpgError string | TrpgTypeError | TrpgStopIteration

section \<open>Scenarios\<close>

record climax =
  cx_suspects :: "string list"
  cx_answer :: string
  cx_trick :: string
  cx_window :: int

record scene =
  sn_id :: string
  sn_words :: string
  sn_choices :: "string list"
  sn_next :: "(string \<times> string option) list"

record scenario =
  sc_id :: string
  sc_title :: string
  sc_genre :: string
  sc_minutes :: int
  sc_scenes :: "scene list"
  sc_climax :: "climax option"
  sc_first :: string

definition text_of :: "string \<Rightarrow> nat \<Rightarrow> jval \<Rightarrow> trpg_error + string" where
  "text_of what limit v = (case v of
       VStr s \<Rightarrow> if 1 \<le> length s \<and> length s \<le> limit then Inr s else Inl (TrpgError what)
     | _ \<Rightarrow> Inl (TrpgError what))"

definition int_of :: "string \<Rightarrow> int \<Rightarrow> int \<Rightarrow> jval \<Rightarrow> trpg_error + int" where
  "int_of what lo hi v = (case v of
       VInt i \<Rightarrow> if lo \<le> i \<and> i \<le> hi then Inr i else Inl (TrpgError what)
     | _ \<Rightarrow> Inl (TrpgError what))"

definition dict_of :: "string \<Rightarrow> jval \<Rightarrow> trpg_error + (string \<times> jval) list" where
  "dict_of what v = (case v of VObj ob \<Rightarrow> Inr ob | _ \<Rightarrow> Inl (TrpgError what))"

definition list_of :: "string \<Rightarrow> nat \<Rightarrow> nat \<Rightarrow> jval \<Rightarrow> trpg_error + jval list" where
  "list_of what lo hi v = (case v of
       VArr xs \<Rightarrow> if lo \<le> length xs \<and> length xs \<le> hi then Inr xs else Inl (TrpgError what)
     | _ \<Rightarrow> Inl (TrpgError what))"

definition vget_or :: "jval \<Rightarrow> (string \<times> jval) list \<Rightarrow> string \<Rightarrow> jval" where
  "vget_or d ob k = (case map_of ob k of None \<Rightarrow> d | Some v \<Rightarrow> v)"

definition trick_of :: "jval \<Rightarrow> trpg_error + string" where
  "trick_of v = (if v = VNull \<or> v = VStr [] then Inr [] else text_of ''climax trick'' max_trick_text v)"

definition validate_climax :: "jval \<Rightarrow> trpg_error + climax" where
  "validate_climax raw = after (dict_of ''climax'' raw) (\<lambda>ob.
     after (list_of ''suspects'' 1 max_suspects (vget ob ''suspects'')) (\<lambda>raws.
     after (each (text_of ''suspect'' max_text) raws) (\<lambda>suspects.
     after (need (distinct suspects) (TrpgError ''duplicate suspect'')) (\<lambda>_.
     after (text_of ''climax answer'' max_text (vget ob ''answer'')) (\<lambda>answer.
     after (need (answer \<in> set suspects) (TrpgError ''climax answer'')) (\<lambda>_.
     after (trick_of (vget_or (VStr []) ob ''trick'')) (\<lambda>trick.
     after (int_of ''climax window'' 1 max_window (vget_or (VInt accuse_window_default) ob ''window_seconds'')) (\<lambda>window.
     Inr \<lparr>cx_suspects = suspects, cx_answer = answer, cx_trick = trick, cx_window = window\<rparr>))))))))"

definition next_of :: "nat \<Rightarrow> string \<times> jval \<Rightarrow> trpg_error + string \<times> string option" where
  "next_of n kv = (case kv of (k, v) \<Rightarrow>
     after (need (k \<in> dec ` {1..n}) (TrpgError ''next key'')) (\<lambda>_.
     if v = VNull then Inr (k, None)
     else after (text_of ''next scene id'' max_scenario_id v) (\<lambda>s. Inr (k, Some s))))"

fun scenes_of :: "string list \<Rightarrow> jval list \<Rightarrow> trpg_error + scene list" where
  "scenes_of seen [] = Inr []"
| "scenes_of seen (raw # raws) =
     after (dict_of ''scene'' raw) (\<lambda>ob.
     after (text_of ''scene id'' max_scenario_id (vget ob ''id'')) (\<lambda>i.
     after (need (i \<notin> set seen) (TrpgError ''duplicate scene id'')) (\<lambda>_.
     after (text_of ''scene text'' max_scene_text (vget ob ''text'')) (\<lambda>words.
     after (list_of ''scene choices'' min_choices max_choices (vget ob ''choices'')) (\<lambda>cs.
     after (each (text_of ''choice text'' max_choice_text) cs) (\<lambda>choices.
     after (dict_of ''scene next'' (vget_or (VObj []) ob ''next'')) (\<lambda>nx.
     after (each (next_of (length choices)) nx) (\<lambda>nxt.
     after (scenes_of (i # seen) raws) (\<lambda>scenes.
     Inr (\<lparr>sn_id = i, sn_words = words, sn_choices = choices, sn_next = nxt\<rparr> # scenes))))))))))"

definition genre_of :: "jval \<Rightarrow> trpg_error + string" where
  "genre_of v = (case v of
       VStr s \<Rightarrow> if s \<in> set genres then Inr s else Inl (TrpgError ''genre'')
     | VArr xs \<Rightarrow> Inl TrpgTypeError
     | VObj ob \<Rightarrow> Inl TrpgTypeError
     | _ \<Rightarrow> Inl (TrpgError ''genre''))"

definition next_known :: "scene list \<Rightarrow> bool" where
  "next_known scenes \<longleftrightarrow> list_all (\<lambda>s. list_all (\<lambda>(k, v). v = None \<or> v \<in> Some ` sn_id ` set scenes) (sn_next s)) scenes"

definition validate_scenario :: "jval \<Rightarrow> trpg_error + scenario" where
  "validate_scenario raw = after (dict_of ''scenario'' raw) (\<lambda>ob.
     after (text_of ''scenario id'' max_scenario_id (vget ob ''id'')) (\<lambda>i.
     after (text_of ''scenario title'' max_title (vget ob ''title'')) (\<lambda>title.
     after (genre_of (vget_or (VStr ''both'') ob ''genre'')) (\<lambda>genre.
     after (int_of ''duration_minutes'' 1 max_minutes (vget_or (VInt 8) ob ''duration_minutes'')) (\<lambda>minutes.
     after (list_of ''scenes'' 1 max_scenes (vget ob ''scenes'')) (\<lambda>raws.
     after (scenes_of [] raws) (\<lambda>scenes.
     after (need (next_known scenes) (TrpgError ''unknown next scene'')) (\<lambda>_.
     after (if vget ob ''climax'' = VNull then Inr None
       else after (validate_climax (vget ob ''climax'')) (\<lambda>c. Inr (Some c))) (\<lambda>climax.
     Inr \<lparr>sc_id = i, sc_title = title, sc_genre = genre, sc_minutes = minutes, sc_scenes = scenes,
       sc_climax = climax, sc_first = sn_id (hd scenes)\<rparr>)))))))))"

text \<open>The checked scenario as the dict it is stored as.\<close>

definition climax_json :: "climax \<Rightarrow> jval" where
  "climax_json c = VObj [(''suspects'', VArr (List.map VStr (cx_suspects c))), (''answer'', VStr (cx_answer c)),
     (''trick'', VStr (cx_trick c)), (''window_seconds'', VInt (cx_window c))]"

definition scene_json :: "scene \<Rightarrow> jval" where
  "scene_json s = VObj [(''id'', VStr (sn_id s)), (''text'', VStr (sn_words s)),
     (''choices'', VArr (List.map VStr (sn_choices s))),
     (''next'', VObj (List.map (\<lambda>(k, v). (k, case v of None \<Rightarrow> VNull | Some i \<Rightarrow> VStr i)) (sn_next s)))]"

definition scenario_json :: "scenario \<Rightarrow> jval" where
  "scenario_json s = VObj [(''id'', VStr (sc_id s)), (''title'', VStr (sc_title s)), (''genre'', VStr (sc_genre s)),
     (''duration_minutes'', VInt (sc_minutes s)), (''scenes'', VArr (List.map scene_json (sc_scenes s))),
     (''climax'', case sc_climax s of None \<Rightarrow> VNull | Some c \<Rightarrow> climax_json c), (''first_scene'', VStr (sc_first s))]"

section \<open>The state\<close>

record accusation =
  ac_suspect :: string
  ac_trick :: string
  ac_at :: string

record climax_result =
  cl_answer :: string
  cl_trick :: string
  cl_total :: nat
  cl_correct :: nat
  cl_users :: "string list"

record story =
  st_phase :: story_phase
  st_scenario :: "scenario option"
  st_scenario_id :: "string option"
  st_scene_id :: "string option"
  st_started_at :: "string option"
  st_phase_started_at :: "string option"
  st_vote_window :: "int option"
  st_choice_opened_at :: "string option"
  st_climax_window :: "int option"
  st_climax_opened_at :: "string option"
  st_votes :: "(string \<times> string list) list"
  st_vote_order :: "(string \<times> string) list"
  st_accusations :: "(string \<times> accusation) list"
  st_tally :: "(string \<times> nat) list option"
  st_climax_result :: "climax_result option"
  st_scores :: "(string \<times> int) list"
  st_failure_reason :: "string option"
  st_ended_at :: "string option"
  st_outcome :: "string option"

definition new_story :: story where
  "new_story = \<lparr>st_phase = PIdle, st_scenario = None, st_scenario_id = None, st_scene_id = None,
     st_started_at = None, st_phase_started_at = None, st_vote_window = None, st_choice_opened_at = None,
     st_climax_window = None, st_climax_opened_at = None, st_votes = [], st_vote_order = [],
     st_accusations = [], st_tally = None, st_climax_result = None, st_scores = [],
     st_failure_reason = None, st_ended_at = None, st_outcome = None\<rparr>"

type_synonym 'a telling = "(story, trpg_error, 'a) eff"

text \<open>\<open>now or _now()\<close>.\<close>

definition stamp_or :: "string option \<Rightarrow> string \<Rightarrow> string" where
  "stamp_or now clk = (case now of None \<Rightarrow> clk | Some t \<Rightarrow> if t = [] then clk else t)"

definition current_scene :: "story \<Rightarrow> trpg_error + scene" where
  "current_scene s = (case st_scenario s of
       None \<Rightarrow> Inl (TrpgError ''state has no scenario'')
     | Some sc \<Rightarrow> (case find (\<lambda>x. Some (sn_id x) = st_scene_id s) (sc_scenes sc) of
           None \<Rightarrow> Inl (TrpgError ''unknown current scene'')
         | Some x \<Rightarrow> Inr x))"

definition current_climax :: "story \<Rightarrow> trpg_error + climax" where
  "current_climax s = (case st_scenario s of
       None \<Rightarrow> Inl (TrpgError ''scenario has no climax'')
     | Some sc \<Rightarrow> (case sc_climax sc of None \<Rightarrow> Inl (TrpgError ''scenario has no climax'') | Some c \<Rightarrow> Inr c))"

definition at_phase :: "story_phase \<Rightarrow> string \<Rightarrow> unit telling" where
  "at_phase p what = bnd (asks st_phase) (\<lambda>q. unless (q = p) (TrpgError what))"

definition reading :: "(story \<Rightarrow> trpg_error + 'a) \<Rightarrow> 'a telling" where
  "reading f = bnd (asks f) lift"

definition transition_to :: "string \<Rightarrow> story_phase \<Rightarrow> unit telling" where
  "transition_to clk p = bnd (asks st_phase) (\<lambda>q. thn (unless (p \<in> set (targets q)) (TrpgError ''invalid transition''))
     (alter (\<lambda>s. s\<lparr>st_phase := p, st_phase_started_at := Some clk\<rparr>)))"

section \<open>Operations\<close>

definition start_story :: "jval \<Rightarrow> string option \<Rightarrow> string \<Rightarrow> unit telling" where
  "start_story raw now clk = thn (at_phase PIdle ''start'') (bnd (lift (validate_scenario raw)) (\<lambda>sc.
     alter (\<lambda>s. s\<lparr>st_scenario := Some sc, st_scenario_id := Some (sc_id sc), st_scene_id := Some (sc_first sc),
       st_started_at := Some (stamp_or now clk), st_phase := PScene, st_phase_started_at := Some (stamp_or now clk),
       st_vote_window := None, st_choice_opened_at := None, st_climax_window := None, st_climax_opened_at := None,
       st_votes := [], st_vote_order := [], st_accusations := [], st_tally := None, st_climax_result := None,
       st_scores := [], st_failure_reason := None, st_ended_at := None, st_outcome := None\<rparr>)))"

definition open_choice :: "int \<Rightarrow> string option \<Rightarrow> string \<Rightarrow> unit telling" where
  "open_choice window now clk = thn (at_phase PScene ''open_choice'')
     (thn (unless (1 \<le> window \<and> window \<le> max_window) (TrpgError ''window_seconds''))
     (thn (alter (\<lambda>s. s\<lparr>st_vote_window := Some window, st_choice_opened_at := Some (stamp_or now clk),
        st_votes := [], st_vote_order := [], st_tally := None\<rparr>))
     (transition_to clk PChoice)))"

definition user_of :: "string \<Rightarrow> trpg_error + unit" where
  "user_of u = need (1 \<le> length u \<and> length u \<le> max_user_id) (TrpgError ''user id'')"

definition has_room :: "string \<Rightarrow> (string \<times> 'a) list \<Rightarrow> bool" where
  "has_room u d \<longleftrightarrow> u \<in> fst ` set d \<or> length d < max_participants"

definition record_vote :: "string \<Rightarrow> int \<Rightarrow> unit telling" where
  "record_vote u choice = thn (at_phase PChoice ''record_vote'')
     (thn (lift (user_of u))
     (bnd (reading current_scene) (\<lambda>sc.
      thn (unless (1 \<le> choice \<and> choice \<le> int (length (sn_choices sc))) (TrpgError ''invalid choice''))
     (bnd (asks st_vote_order) (\<lambda>order.
      thn (unless (has_room u order) (TrpgError ''too many participants''))
     (alter (\<lambda>s. case cast_vote u (dec (nat choice)) (st_votes s, st_vote_order s) of (votes, order) \<Rightarrow>
        s\<lparr>st_votes := votes, st_vote_order := order\<rparr>)))))))"

definition choice_keys :: "scene \<Rightarrow> string list" where
  "choice_keys sc = List.map dec [1..<Suc (length (sn_choices sc))]"

definition tally_of :: "scene \<Rightarrow> (string \<times> string list) list \<Rightarrow> (string \<times> nat) list" where
  "tally_of sc votes = List.map (\<lambda>k. (k, votes_for votes k)) (choice_keys sc)"

definition close_choice :: "string \<Rightarrow> unit telling" where
  "close_choice clk = thn (at_phase PChoice ''close_choice'')
     (bnd (reading current_scene) (\<lambda>sc.
      thn (alter (\<lambda>s. s\<lparr>st_tally := Some (tally_of sc (st_votes s))\<rparr>))
     (transition_to clk PResolve)))"

text \<open>The scan of \<open>winning_choice\<close>: the first index with more votes than every index before it.\<close>

fun best_of :: "(nat \<Rightarrow> nat) \<Rightarrow> nat list \<Rightarrow> (nat \<times> nat) option \<Rightarrow> (nat \<times> nat) option" where
  "best_of f [] b = b"
| "best_of f (i # js) b = best_of f js (case b of None \<Rightarrow> Some (i, f i) | Some (j, n) \<Rightarrow> if n < f i then Some (i, f i) else Some (j, n))"

definition winning_choice :: "story \<Rightarrow> trpg_error + nat option" where
  "winning_choice s = after (current_scene s) (\<lambda>sc.
     Inr (let tally = (case st_tally s of None \<Rightarrow> [] | Some t \<Rightarrow> t);
              votes = (\<lambda>i. case map_of tally (dec i) of None \<Rightarrow> 0 | Some n \<Rightarrow> n)
          in case best_of votes [1..<Suc (length (sn_choices sc))] None of
               None \<Rightarrow> None | Some (i, n) \<Rightarrow> if n = 0 then None else Some i))"

definition next_scene :: "story \<Rightarrow> trpg_error + string option" where
  "next_scene s = after (current_scene s) (\<lambda>sc. after (winning_choice s) (\<lambda>w.
     Inr (case w of None \<Rightarrow> None | Some i \<Rightarrow> (case map_of (sn_next sc) (dec i) of None \<Rightarrow> None | Some t \<Rightarrow> t))))"

definition advance_scene :: "string option \<Rightarrow> string \<Rightarrow> unit telling" where
  "advance_scene given clk = thn (at_phase PResolve ''advance_scene'')
     (bnd (asks st_scenario) (\<lambda>scen. case scen of
       None \<Rightarrow> raise (TrpgError ''state has no scenario'')
     | Some sc \<Rightarrow> bnd (case given of Some i \<Rightarrow> ret (Some i) | None \<Rightarrow> reading next_scene) (\<lambda>target. case target of
           None \<Rightarrow> transition_to clk (if sc_climax sc = None then PEnd else PClimax)
         | Some i \<Rightarrow> thn (unless (i \<in> sn_id ` set (sc_scenes sc)) (TrpgError ''unknown scene''))
             (thn (alter (\<lambda>s. s\<lparr>st_scene_id := Some i, st_votes := [], st_vote_order := [], st_tally := None\<rparr>))
             (transition_to clk PScene)))))"

definition open_climax :: "int \<Rightarrow> string option \<Rightarrow> string \<Rightarrow> unit telling" where
  "open_climax window now clk = thn (at_phase PResolve ''open_climax'')
     (bnd (reading current_climax) (\<lambda>_.
      thn (unless (1 \<le> window \<and> window \<le> max_window) (TrpgError ''window_seconds''))
     (thn (alter (\<lambda>s. s\<lparr>st_climax_window := Some window, st_climax_opened_at := Some (stamp_or now clk), st_accusations := []\<rparr>))
     (transition_to clk PClimax))))"

definition record_accusation :: "string \<Rightarrow> string \<Rightarrow> string \<Rightarrow> string option \<Rightarrow> string \<Rightarrow> unit telling" where
  "record_accusation u suspect trick now clk = thn (at_phase PClimax ''record_accusation'')
     (thn (lift (user_of u))
     (bnd (reading current_climax) (\<lambda>c.
      thn (unless (1 \<le> length suspect \<and> length suspect \<le> max_text) (TrpgError ''suspect''))
     (thn (unless (suspect \<in> set (cx_suspects c)) (TrpgError ''invalid suspect''))
     (thn (unless (length trick \<le> max_trick_text) (TrpgError ''trick''))
     (bnd (asks st_accusations) (\<lambda>acs.
      thn (unless (has_room u acs) (TrpgError ''too many participants''))
     (alter (\<lambda>s. s\<lparr>st_accusations := AList.update u \<lparr>ac_suspect = suspect, ac_trick = trick, ac_at = stamp_or now clk\<rparr>
        (st_accusations s)\<rparr>)))))))))"

definition correct_users :: "string \<Rightarrow> (string \<times> accusation) list \<Rightarrow> string list" where
  "correct_users answer acs = List.map fst (filter (\<lambda>(u, a). ac_suspect a = answer) acs)"

definition add_points :: "string list \<Rightarrow> (string \<times> int) list \<Rightarrow> (string \<times> int) list" where
  "add_points us scores = fold (\<lambda>u d. AList.update u ((case map_of d u of None \<Rightarrow> 0 | Some n \<Rightarrow> n) + 10) d) us scores"

definition close_climax :: "string \<Rightarrow> unit telling" where
  "close_climax clk = thn (at_phase PClimax ''close_climax'')
     (bnd (reading current_climax) (\<lambda>c.
      thn (alter (\<lambda>s. let us = correct_users (cx_answer c) (st_accusations s) in
        s\<lparr>st_climax_result := Some \<lparr>cl_answer = cx_answer c, cl_trick = cx_trick c,
            cl_total = length (st_accusations s), cl_correct = length us, cl_users = us\<rparr>,
          st_scores := add_points us (st_scores s)\<rparr>))
     (transition_to clk PReveal)))"

text \<open>\<open>finish\<close> moves to the end before it looks at the outcome.\<close>

definition finish_story :: "string \<Rightarrow> string option \<Rightarrow> string \<Rightarrow> unit telling" where
  "finish_story outcome now clk = bnd (asks st_phase) (\<lambda>p.
     thn (if p = PReveal then transition_to clk PEnd else unless (p = PEnd) (TrpgError ''finish''))
    (thn (unless (outcome \<in> set run_outcomes) (TrpgError ''outcome''))
    (alter (\<lambda>s. s\<lparr>st_outcome := Some outcome, st_ended_at := Some (stamp_or now clk)\<rparr>))))"

definition is_live :: "story_phase \<Rightarrow> bool" where
  "is_live p \<longleftrightarrow> p \<notin> {PIdle, PEnd, PFailed, PTimeout}"

definition fail_story :: "string \<Rightarrow> string option \<Rightarrow> string \<Rightarrow> unit telling" where
  "fail_story reason now clk = bnd (asks st_phase) (\<lambda>p.
     thn (unless (is_live p \<and> PFailed \<in> set (targets p)) (TrpgError ''fail''))
    (thn (unless (1 \<le> length reason \<and> length reason \<le> max_text) (TrpgError ''failure reason''))
    (thn (alter (\<lambda>s. s\<lparr>st_failure_reason := Some reason, st_outcome := Some ''failed'', st_ended_at := Some (stamp_or now clk)\<rparr>))
    (transition_to clk PFailed))))"

definition timeout_story :: "string option \<Rightarrow> string \<Rightarrow> unit telling" where
  "timeout_story now clk = bnd (asks st_phase) (\<lambda>p.
     thn (unless (is_live p \<and> PTimeout \<in> set (targets p)) (TrpgError ''timeout''))
    (thn (alter (\<lambda>s. s\<lparr>st_outcome := Some ''timeout'', st_ended_at := Some (stamp_or now clk)\<rparr>))
    (transition_to clk PTimeout)))"

definition reset_story :: "unit telling" where
  "reset_story = bnd (asks st_phase) (\<lambda>p.
     thn (unless (p \<in> {PFailed, PTimeout, PEnd}) (TrpgError ''reset'')) (alter (\<lambda>_. new_story)))"

section \<open>Chat\<close>

text \<open>\<open>str.isdigit\<close> on code points below 256 holds of the three superscripts, which \<open>int\<close> does not read.\<close>

definition parse_vote :: "string \<Rightarrow> int option" where
  "parse_vote words = (let t = List.map py_lower (py_strip words);
       t = (case t of c # r \<Rightarrow> if c = CHR ''!'' then py_strip r else t | [] \<Rightarrow> t);
       number = (\<lambda>t. if t \<noteq> [] \<and> list_all is_digit t \<and> length t \<le> 4300 \<and> 1 \<le> undec t \<and> undec t \<le> max_choices
         then Some (int (undec t)) else None)
     in case py_words [] t of
          [w, n] \<Rightarrow> if w = ''vote'' \<or> w = ''v'' then number n else None
        | _ # _ # _ \<Rightarrow> None
        | _ \<Rightarrow> number t)"

definition accuse_word :: string where "accuse_word = ''!accuse''"

definition parse_accusation :: "string \<Rightarrow> (string \<times> string) option" where
  "parse_accusation words = (let t = py_strip words in
     if List.map py_lower (take (length accuse_word) t) \<noteq> accuse_word then None
     else let rest = py_strip (drop (length accuse_word) t) in
       if rest = [] then None
       else let suspect = takeWhile (\<lambda>c. \<not> py_space c) rest;
                trick = py_strip (dropWhile (\<lambda>c. \<not> py_space c) rest)
         in if 1 \<le> length suspect \<and> length suspect \<le> max_text \<and> length trick \<le> max_trick_text
            then Some (suspect, trick) else None)"

datatype heard = Voted | Accused | Ignored

definition corner_error :: "trpg_error \<Rightarrow> bool" where
  "corner_error x = (case x of TrpgError s \<Rightarrow> True | _ \<Rightarrow> False)"

definition or_ignore :: "heard \<Rightarrow> unit telling \<Rightarrow> heard telling" where
  "or_ignore h m = bnd (attempt corner_error m) (\<lambda>r. ret (case r of Inl _ \<Rightarrow> Ignored | Inr _ \<Rightarrow> h))"

definition observe_chat :: "string \<Rightarrow> string \<Rightarrow> string option \<Rightarrow> string \<Rightarrow> heard telling" where
  "observe_chat u words now clk = thn (lift (user_of u)) (bnd (asks st_phase) (\<lambda>p.
     case parse_vote words of
       Some v \<Rightarrow> if p = PChoice then or_ignore Voted (record_vote u v) else ret Ignored
     | None \<Rightarrow> (case parse_accusation words of
           Some (suspect, trick) \<Rightarrow> if p = PClimax then or_ignore Accused (record_accusation u suspect trick now clk) else ret Ignored
         | None \<Rightarrow> ret Ignored)))"

section \<open>The ledger of runs\<close>

record run_entry =
  ru_scenario_id :: "string option"
  ru_title :: "string option"
  ru_started_at :: "string option"
  ru_ended_at :: string
  ru_outcome :: string
  ru_phase :: story_phase
  ru_participants :: nat
  ru_votes_total :: nat
  ru_accusations :: nat
  ru_climax_result :: "climax_result option"
  ru_scores :: "(string \<times> int) list"
  ru_failure :: "string option"

text \<open>The argument \<open>dumped\<close> is the length of the bytes \<open>json.dumps\<close> makes of a ledger with these entries.\<close>

fun fit_bytes :: "('a list \<Rightarrow> nat) \<Rightarrow> nat \<Rightarrow> 'a list \<Rightarrow> 'a list" where
  "fit_bytes dumped limit [] = []"
| "fit_bytes dumped limit (x # xs) = (if dumped (x # xs) \<le> limit then x # xs else fit_bytes dumped limit xs)"

definition trim_entries :: "('a list \<Rightarrow> nat) \<Rightarrow> 'a list \<Rightarrow> 'a list" where
  "trim_entries dumped es = fit_bytes dumped max_ledger_bytes (drop (length es - max_history) es)"

definition default_outcome :: "story \<Rightarrow> string" where
  "default_outcome s = (let d = (if st_phase s = PEnd then ''completed'' else if st_phase s = PFailed then ''failed'' else ''timeout'')
     in case st_outcome s of None \<Rightarrow> d | Some t \<Rightarrow> if t = [] then d else t)"

definition participants :: "story \<Rightarrow> nat" where
  "participants s = length (remdups (List.map fst (st_vote_order s) @ List.map fst (st_accusations s)))"

definition entry_for :: "string \<Rightarrow> string option \<Rightarrow> string \<Rightarrow> story \<Rightarrow> run_entry" where
  "entry_for outcome now clk s = \<lparr>ru_scenario_id = st_scenario_id s, ru_title = map_option sc_title (st_scenario s),
     ru_started_at = st_started_at s,
     ru_ended_at = (case now of Some t \<Rightarrow> if t = [] then stamp_or (st_ended_at s) clk else t | None \<Rightarrow> stamp_or (st_ended_at s) clk),
     ru_outcome = outcome, ru_phase = st_phase s, ru_participants = participants s,
     ru_votes_total = sum_list (List.map (\<lambda>(_, us). length us) (st_votes s)),
     ru_accusations = length (st_accusations s), ru_climax_result = st_climax_result s, ru_scores = st_scores s,
     ru_failure = st_failure_reason s\<rparr>"

definition record_run :: "(run_entry list \<Rightarrow> nat) \<Rightarrow> string option \<Rightarrow> string option \<Rightarrow> string \<Rightarrow> story \<Rightarrow> run_entry list \<Rightarrow>
    trpg_error + bool \<times> run_entry list" where
  "record_run dumped outcome now clk s es =
     (if st_phase s \<notin> {PEnd, PFailed, PTimeout} then Inr (False, es)
      else let oc = (case outcome of None \<Rightarrow> default_outcome s | Some t \<Rightarrow> t)
        in after (need (oc \<in> set run_outcomes) (TrpgError ''outcome'')) (\<lambda>_.
           Inr (True, trim_entries dumped (es @ [entry_for oc now clk s]))))"

end
