(* ===== verification/TrpgSession.thy ===== *)
theory TrpgSession
  imports TrpgStory
begin

text \<open>
  \<open>trpg_session.py\<close>: one session of the story on the air.  A session is a file; a tick loads it, reads
  the chat log from a cursor, moves the story on when its time is over, speaks what has begun, and
  writes the file.  A tick is the list of its effects on the disk and the air, in order: the process
  can die after any of them.  The chat log is a list of bytes; what is read of it at each point of a
  tick is an argument, because the chat grows meanwhile.
\<close>

section \<open>Data\<close>

definition read_bytes :: nat where "read_bytes = 65536"
definition max_session_bytes :: nat where "max_session_bytes = 2097152"
definition max_lines :: nat where "max_lines = 128"

fun hold_seconds :: "story_phase \<Rightarrow> rat" where
  "hold_seconds PScene = 3"
| "hold_seconds PResolve = 3"
| "hold_seconds PReveal = 10"
| "hold_seconds _ = 0"

definition story_over :: "story_phase \<Rightarrow> bool" where
  "story_over p \<longleftrightarrow> p \<in> {PEnd, PFailed, PTimeout}"

record run_identity =
  ix_game :: string
  ix_runtime :: string
  ix_generation :: int
  ix_lease :: string

record chat_cursor =
  cu_inode :: "nat option"
  cu_offset :: nat
  cu_discard :: bool

record chat_log =
  lo_inode :: nat
  lo_bytes :: string

type_synonym mark = "story_phase \<times> string option \<times> rat option"

record session =
  se_identity :: run_identity
  se_story :: story
  se_scenario :: scenario
  se_meta :: jval
  se_phase_at :: "rat option"
  se_activated_at :: "rat option"
  se_cursor :: chat_cursor
  se_closing :: "chat_cursor option"
  se_announced :: "mark option"
  se_intro_sent :: bool
  se_recorded :: bool
  se_view :: run_identity
  se_owners :: "run_identity list"
  se_owner_request :: "string option"

text \<open>The text of an instant, the decoder of the log and \<open>json.loads\<close> on a line of it, the length of a dump
  of the ledger, and the size of the file of a session.\<close>

record session_env =
  tv_iso :: "rat \<Rightarrow> string"
  tv_decode :: "string \<Rightarrow> string"
  tv_loads :: "string \<Rightarrow> jval option"
  tv_dumped :: "run_entry list \<Rightarrow> nat"
  tv_size :: "session \<Rightarrow> nat"

definition newline :: char where "newline = CHR 0x0A"

definition cursor_at_end :: "chat_log option \<Rightarrow> chat_cursor" where
  "cursor_at_end l = (case l of
       None \<Rightarrow> \<lparr>cu_inode = None, cu_offset = 0, cu_discard = False\<rparr>
     | Some l \<Rightarrow> \<lparr>cu_inode = Some (lo_inode l), cu_offset = length (lo_bytes l),
         cu_discard = (lo_bytes l \<noteq> [] \<and> last (lo_bytes l) \<noteq> newline)\<rparr>)"

definition prepare_session :: "run_identity \<Rightarrow> scenario \<Rightarrow> jval \<Rightarrow> chat_log option \<Rightarrow> session" where
  "prepare_session bound sc meta l = \<lparr>se_identity = bound, se_story = new_story, se_scenario = sc, se_meta = meta,
     se_phase_at = None, se_activated_at = None, se_cursor = cursor_at_end l, se_closing = None, se_announced = None,
     se_intro_sent = False, se_recorded = False, se_view = bound, se_owners = [bound], se_owner_request = None\<rparr>"

text \<open>\<open>load\<close>: the session of the expected identity, of the view bound to it, or of one of its owners.\<close>

definition same_runtime :: "run_identity \<Rightarrow> run_identity \<Rightarrow> bool" where
  "same_runtime a b \<longleftrightarrow> ix_game a = ix_game b \<and> ix_runtime a = ix_runtime b \<and> ix_generation a = ix_generation b"

definition load_session :: "session_env \<Rightarrow> bool \<Rightarrow> bool \<Rightarrow> run_identity \<Rightarrow> session option \<Rightarrow> trpg_error + session" where
  "load_session E view related expected stored = (case stored of
       None \<Rightarrow> Inl (TrpgError ''session'')
     | Some d \<Rightarrow> if max_session_bytes < tv_size E d then Inl (TrpgError ''session size'') else
         let same = same_runtime (se_identity d) expected;
             binding = (if related \<and> same \<and> expected \<in> set (se_owners d) then expected
               else if view then se_view d else se_identity d)
         in if binding \<noteq> expected \<or> view \<and> (\<not> same \<or> se_identity d \<notin> set (se_owners d))
            then Inl (TrpgError ''session identity'') else Inr d)"

definition restore_session :: "session_env \<Rightarrow> run_identity \<Rightarrow> run_identity \<Rightarrow> bool \<Rightarrow> session option \<Rightarrow> trpg_error + session" where
  "restore_session E bound source live stored = after (load_session E False True source stored) (\<lambda>d.
     let d = d\<lparr>se_identity := bound\<rparr>;
         d = (if bound \<in> set (se_owners d) then d
              else let os = se_owners d @ [bound] in d\<lparr>se_owners := drop (length os - 32) os\<rparr>)
     in Inr (if live then d else d\<lparr>se_view := bound\<rparr>))"

section \<open>Chat lines\<close>

fun split_max :: "char \<Rightarrow> nat \<Rightarrow> string \<Rightarrow> string list" where
  "split_max c 0 s = [s]"
| "split_max c (Suc n) s = (if c \<in> set s then takeWhile (\<lambda>d. d \<noteq> c) s # split_max c n (tl (dropWhile (\<lambda>d. d \<noteq> c) s)) else [s])"

fun after_colon :: "string \<Rightarrow> string option" where
  "after_colon (c # d # s) = (if c = CHR '':'' \<and> d = CHR '' '' then Some s else after_colon (d # s))"
| "after_colon _ = None"

definition drop_prefix :: "string \<Rightarrow> string \<Rightarrow> string" where
  "drop_prefix p s = (if take (length p) s = p then drop (length p) s else s)"

definition chat_line :: "string \<Rightarrow> (jval \<times> jval) option" where
  "chat_line line = (case split_max (CHR 0x09) 5 line of
       [f0, f1, f2, f3, f4, f5] \<Rightarrow>
         let user = drop 8 f1 in
         if take 8 f1 \<noteq> ''user-id='' \<or> user = [] \<or> \<not> list_all is_digit user
           \<or> ''self'' \<in> set (let flags = drop_prefix ''flags='' f4 in split_max (CHR '','') (length flags) flags) then None
         else map_option (\<lambda>t. (VStr user, VStr t)) (after_colon f5)
     | _ \<Rightarrow> None)"

definition parse_chat :: "(string \<Rightarrow> jval option) \<Rightarrow> string \<Rightarrow> (string \<times> string) option" where
  "parse_chat loads line =
     (if 4096 < length line then None
      else case (if take 1 line = [CHR 0x7B]
          then (case loads line of Some (VObj row) \<Rightarrow> Some (vget row ''user_id'', vget row ''text'') | _ \<Rightarrow> None)
          else chat_line line) of
        Some (VStr u, VStr t) \<Rightarrow> if 1 \<le> length u \<and> length u \<le> max_user_id \<and> length t \<le> 1024 then Some (u, t) else None
      | _ \<Rightarrow> None)"

section \<open>Reading the chat\<close>

text \<open>The complete lines of some bytes: \<open>raw.split(b"\n")[:-1]\<close>.\<close>

fun whole_lines :: "string \<Rightarrow> string \<Rightarrow> string list" where
  "whole_lines w [] = []"
| "whole_lines w (c # cs) = (if c = newline then rev w # whole_lines [] cs else whole_lines (c # w) cs)"

definition hear :: "session_env \<Rightarrow> rat \<Rightarrow> string \<Rightarrow> string \<Rightarrow> story \<Rightarrow> story" where
  "hear E now clk line s = (case parse_chat (tv_loads E) (tv_decode E line) of
       None \<Rightarrow> s
     | Some (u, words) \<Rightarrow> snd (observe_chat u words (Some (tv_iso E now)) clk s))"

definition bytes_of :: "string list \<Rightarrow> nat" where
  "bytes_of ls = sum_list (List.map (\<lambda>l. length l + 1) ls)"

text \<open>One read from the cursor: what is heard, the cursor after it, and whether the limit is reached.\<close>

definition read_from :: "chat_log \<Rightarrow> nat \<Rightarrow> bool \<Rightarrow> chat_cursor \<Rightarrow> string list \<times> chat_cursor" where
  "read_from l limit closes cu = (let raw = take (min read_bytes (limit - cu_offset cu)) (drop (cu_offset cu) (lo_bytes l)) in
     if cu_discard cu then
       (if newline \<in> set raw
        then ([], cu\<lparr>cu_offset := cu_offset cu + length (takeWhile (\<lambda>c. c \<noteq> newline) raw) + 1, cu_discard := False\<rparr>)
        else ([], cu\<lparr>cu_offset := cu_offset cu + length raw\<rparr>))
     else let ls = take max_lines (whole_lines [] raw) in
       if ls = [] \<and> length raw = read_bytes
       then ([], cu\<lparr>cu_offset := cu_offset cu + length raw, cu_discard := True\<rparr>)
       else (ls, cu\<lparr>cu_offset := if closes \<and> cu_offset cu + length raw = limit \<and> length ls < max_lines then limit
           else cu_offset cu + bytes_of ls\<rparr>))"

definition consume :: "session_env \<Rightarrow> rat \<Rightarrow> string \<Rightarrow> chat_log option \<Rightarrow> chat_cursor option \<Rightarrow> session \<Rightarrow> bool \<times> session" where
  "consume E now clk l through d = (case l of
       None \<Rightarrow> (True, d)
     | Some l \<Rightarrow>
         let cu = se_cursor d in
         if cu_inode cu \<noteq> None \<and> (cu_inode cu \<noteq> Some (lo_inode l) \<or> length (lo_bytes l) < cu_offset cu)
         then (True, d\<lparr>se_cursor := cursor_at_end (Some l)\<rparr>)
         else let cu = (if cu_inode cu = None then \<lparr>cu_inode = Some (lo_inode l), cu_offset = 0, cu_discard = False\<rparr> else cu) in
           if through \<noteq> None \<and> map_option cu_inode through \<noteq> Some (Some (lo_inode l)) then (True, d\<lparr>se_cursor := cu\<rparr>)
           else let limit = (case through of None \<Rightarrow> length (lo_bytes l) | Some t \<Rightarrow> cu_offset t) in
             case read_from l limit (through \<noteq> None) cu of (ls, cu) \<Rightarrow>
               (limit \<le> cu_offset cu, d\<lparr>se_cursor := cu, se_story := fold (hear E now clk) ls (se_story d)\<rparr>))"

section \<open>The public view\<close>

record view_page =
  vp_identity :: run_identity
  vp_phase :: story_phase
  vp_title :: string
  vp_words :: string
  vp_choices :: "string list"
  vp_votes :: "(string \<times> nat) list"
  vp_suspects :: "string list"
  vp_participants :: nat
  vp_accusations :: nat
  vp_remaining :: int
  vp_answer :: "(string \<times> string \<times> nat) option"

definition shown_story :: "session \<Rightarrow> scenario" where
  "shown_story d = (case st_scenario (se_story d) of None \<Rightarrow> se_scenario d | Some sc \<Rightarrow> sc)"

definition page_window :: "session \<Rightarrow> trpg_error + int" where
  "page_window d = (case st_phase (se_story d) of
       PChoice \<Rightarrow> Inr (case st_vote_window (se_story d) of None \<Rightarrow> 0 | Some w \<Rightarrow> w)
     | PClimax \<Rightarrow> (case sc_climax (shown_story d) of None \<Rightarrow> Inl TrpgTypeError | Some c \<Rightarrow> Inr (cx_window c))
     | _ \<Rightarrow> Inr 0)"

definition public_page :: "rat \<Rightarrow> session \<Rightarrow> trpg_error + view_page" where
  "public_page now d = (let s = se_story d; sc = shown_story d;
       i = (case st_scene_id s of None \<Rightarrow> sc_first sc | Some i \<Rightarrow> if i = [] then sc_first sc else i) in
     case find (\<lambda>x. sn_id x = i) (sc_scenes sc) of
       None \<Rightarrow> Inl TrpgStopIteration
     | Some x \<Rightarrow> after (page_window d) (\<lambda>w.
         Inr \<lparr>vp_identity = se_identity d, vp_phase = st_phase s, vp_title = sc_title sc,
           vp_words = (if st_phase s = PIdle then [] else sn_words x), vp_choices = sn_choices x,
           vp_votes = tally_of x (st_votes s),
           vp_suspects = (case sc_climax sc of None \<Rightarrow> [] | Some c \<Rightarrow> cx_suspects c),
           vp_participants = participants s, vp_accusations = length (st_accusations s),
           vp_remaining = max 0 \<lfloor>(case se_phase_at d of None \<Rightarrow> 0 | Some t \<Rightarrow> t) + of_int w - now\<rfloor>,
           vp_answer = (if st_phase s \<in> {PReveal, PEnd}
             then Some (case st_climax_result s of None \<Rightarrow> ([], [], 0) | Some r \<Rightarrow> (cl_answer r, cl_trick r, cl_correct r))
             else None)\<rparr>))"

section \<open>Ticks\<close>

text \<open>The lines spoken; their Japanese texts are formatted from these.\<close>

datatype line = IntroLine | SceneLine "string option" string | ChoiceLine | AccusationLine | RevealLine string string

datatype effect = Saved session | Spoke mark line bool | Recorded "run_entry list"

record tick_args =
  tk_now :: rat
  tk_clock :: string
  tk_wall :: rat
  tk_audio :: bool
  tk_stop :: "string option"
  tk_request :: "string option"
  tk_at_start :: "chat_log option"
  tk_at_close :: "chat_log option"
  tk_chat :: "chat_log option"
  tk_at_open :: "chat_log option"

definition run_story :: "'a telling \<Rightarrow> session \<Rightarrow> trpg_error + session" where
  "run_story m d = (case m (se_story d) of (Inl x, s) \<Rightarrow> Inl x | (Inr _, s) \<Rightarrow> Inr (d\<lparr>se_story := s\<rparr>))"

definition claim_request :: "string option \<Rightarrow> session \<Rightarrow> trpg_error + session" where
  "claim_request r d = (case r of None \<Rightarrow> Inr d
     | Some q \<Rightarrow> if se_owner_request d \<in> {None, Some q} then Inr (d\<lparr>se_owner_request := Some q\<rparr>)
         else Inl (TrpgError ''request owner''))"

definition activate :: "session_env \<Rightarrow> tick_args \<Rightarrow> session \<Rightarrow> trpg_error + session" where
  "activate E a d = after (run_story (start_story (scenario_json (se_scenario d)) (Some (tv_iso E (tk_now a))) (tk_clock a)) d) (\<lambda>d.
     Inr (d\<lparr>se_activated_at := Some (tk_now a), se_phase_at := Some (tk_now a), se_cursor := cursor_at_end (tk_at_start a)\<rparr>))"

definition phase_delay :: "session \<Rightarrow> trpg_error + rat" where
  "phase_delay d = (let s = se_story d in
     if st_phase s = PChoice then (case st_vote_window s of None \<Rightarrow> Inl TrpgTypeError | Some w \<Rightarrow> Inr (of_int w))
     else if st_phase s = PClimax then (case current_climax s of Inl _ \<Rightarrow> Inl TrpgTypeError | Inr c \<Rightarrow> Inr (of_int (cx_window c)))
     else Inr (hold_seconds (st_phase s)))"

definition is_due :: "rat \<Rightarrow> session \<Rightarrow> trpg_error + bool" where
  "is_due now d = after (phase_delay d) (\<lambda>w. case se_phase_at d of None \<Rightarrow> Inl TrpgTypeError | Some t \<Rightarrow> Inr (w \<le> now - t))"

definition move_on :: "story_phase \<Rightarrow> string \<Rightarrow> string \<Rightarrow> unit telling" where
  "move_on p now clk = (case p of
       PScene \<Rightarrow> open_choice vote_window_default (Some now) clk
     | PChoice \<Rightarrow> close_choice clk
     | PResolve \<Rightarrow> thn (advance_scene None clk)
         (bnd (asks st_phase) (\<lambda>q. whenM (q = PEnd) (finish_story ''completed'' (Some now) clk)))
     | PClimax \<Rightarrow> close_climax clk
     | PReveal \<Rightarrow> finish_story ''completed'' (Some now) clk
     | _ \<Rightarrow> ret ())"

definition listens :: "story_phase \<Rightarrow> bool" where
  "listens p \<longleftrightarrow> p = PChoice \<or> p = PClimax"

definition listen :: "session_env \<Rightarrow> tick_args \<Rightarrow> bool \<Rightarrow> session \<Rightarrow> bool \<times> session" where
  "listen E a due d = (if \<not> listens (st_phase (se_story d)) then (True, d)
     else let d = (if due \<and> se_closing d = None then d\<lparr>se_closing := Some (cursor_at_end (tk_at_close a))\<rparr> else d)
       in consume E (tk_now a) (tk_clock a) (tk_chat a) (se_closing d) d)"

definition proceed :: "session_env \<Rightarrow> tick_args \<Rightarrow> session \<Rightarrow> trpg_error + session" where
  "proceed E a d = after (is_due (tk_now a) d) (\<lambda>due. case listen E a due d of (drained, d) \<Rightarrow>
     if \<not> (due \<and> drained) then Inr d
     else after (run_story (move_on (st_phase (se_story d)) (tv_iso E (tk_now a)) (tk_clock a)) d) (\<lambda>d.
       let d = d\<lparr>se_phase_at := Some (tk_now a), se_closing := None\<rparr>
       in Inr (if listens (st_phase (se_story d)) then d\<lparr>se_cursor := cursor_at_end (tk_at_open a)\<rparr> else d)))"

definition stop_story :: "session_env \<Rightarrow> tick_args \<Rightarrow> string \<Rightarrow> unit telling" where
  "stop_story E a reason = (if reason = ''duration'' then timeout_story (Some (tv_iso E (tk_now a))) (tk_clock a)
     else fail_story ''manual-stop'' (Some (tv_iso E (tk_now a))) (tk_clock a))"

definition progress :: "session_env \<Rightarrow> tick_args \<Rightarrow> session \<Rightarrow> trpg_error + session" where
  "progress E a d = (let fresh = (st_phase (se_story d) = PIdle) in
     after (if fresh then activate E a d else Inr d) (\<lambda>d.
     if story_over (st_phase (se_story d)) then Inr d
     else case tk_stop a of
       Some r \<Rightarrow> if r = [] then (if fresh then Inr d else proceed E a d) else run_story (stop_story E a r) d
     | None \<Rightarrow> if fresh then Inr d else proceed E a d))"

definition current_mark :: "session \<Rightarrow> mark" where
  "current_mark d = (st_phase (se_story d), st_scene_id (se_story d), se_phase_at d)"

definition lines_for :: "session \<Rightarrow> view_page \<Rightarrow> line list" where
  "lines_for d v = (case st_phase (se_story d) of
       PScene \<Rightarrow> [SceneLine (st_scene_id (se_story d)) (vp_words v)]
     | PChoice \<Rightarrow> [ChoiceLine]
     | PClimax \<Rightarrow> [AccusationLine]
     | PReveal \<Rightarrow> (case vp_answer v of None \<Rightarrow> [RevealLine [] []] | Some (x, t, _) \<Rightarrow> [RevealLine x t])
     | _ \<Rightarrow> [])"

text \<open>The mark is on disk before anything is spoken.\<close>

definition announce_mark :: "tick_args \<Rightarrow> session \<Rightarrow> effect list \<times> (trpg_error + session)" where
  "announce_mark a d = (if story_over (st_phase (se_story d)) \<or> se_announced d = Some (current_mark d) then ([], Inr d)
     else let intro = (if se_intro_sent d then [] else [IntroLine]);
              d = d\<lparr>se_announced := Some (current_mark d), se_intro_sent := True\<rparr>
       in case public_page (tk_wall a) d of
            Inl x \<Rightarrow> ([Saved d], Inl x)
          | Inr v \<Rightarrow> (Saved d # List.map (\<lambda>l. Spoke (current_mark d) l (tk_audio a)) (intro @ lines_for d v), Inr d))"

definition close_book :: "session_env \<Rightarrow> tick_args \<Rightarrow> run_entry list \<Rightarrow> session \<Rightarrow> effect list \<times> (trpg_error + session)" where
  "close_book E a ledger d = (if \<not> story_over (st_phase (se_story d)) \<or> se_recorded d then ([], Inr d)
     else case record_run (tv_dumped E) (if tk_stop a = Some ''manual'' then Some ''aborted'' else None) None (tk_clock a) (se_story d) ledger of
         Inl x \<Rightarrow> ([], Inl x)
       | Inr (_, es) \<Rightarrow> ([Recorded es], Inr (d\<lparr>se_recorded := True\<rparr>)))"

definition tick_session :: "session_env \<Rightarrow> tick_args \<Rightarrow> run_identity \<Rightarrow> session option \<Rightarrow> run_entry list \<Rightarrow> effect list \<times> (trpg_error + bool)" where
  "tick_session E a expected stored ledger =
     (case after (load_session E False False expected stored) (\<lambda>d. after (claim_request (tk_request a) d) (progress E a)) of
        Inl x \<Rightarrow> ([], Inl x)
      | Inr d \<Rightarrow> (case announce_mark a d of
            (es, Inl x) \<Rightarrow> (es, Inl x)
          | (es, Inr d) \<Rightarrow> (case close_book E a ledger d of
                (fs, Inl x) \<Rightarrow> (es @ fs, Inl x)
              | (fs, Inr d) \<Rightarrow> (es @ fs @ [Saved d], Inr (story_over (st_phase (se_story d)))))))"

end
