(* ===== verification/TrpgFacts.thy ===== *)
theory TrpgFacts
  imports TrpgStory
begin

text \<open>
  Facts of the story: reading a checked scenario again, the winner of a vote, the invariant of the
  state and that every operation keeps it on every exit.
\<close>

section \<open>Checked scenarios\<close>

lemma text_ofD: "text_of what n v = Inr t \<Longrightarrow> v = VStr t \<and> 1 \<le> length t \<and> length t \<le> n"
  by (auto simp: text_of_def split: jval.splits if_splits)

lemma text_of_VStr: "1 \<le> length t \<Longrightarrow> length t \<le> n \<Longrightarrow> text_of what n (VStr t) = Inr t"
  by (simp add: text_of_def)

lemma texts_again: "each (text_of what n) vs = Inr ts \<Longrightarrow> each (text_of what n) (List.map VStr ts) = Inr ts"
  by (induction vs arbitrary: ts) (auto simp: after_Inr text_of_VStr dest!: text_ofD)

lemma each_length: "each f xs = Inr ys \<Longrightarrow> length ys = length xs"
  by (simp add: each_Inr)

lemma int_ofD: "int_of what lo hi v = Inr i \<Longrightarrow> v = VInt i \<and> lo \<le> i \<and> i \<le> hi"
  by (auto simp: int_of_def split: jval.splits if_splits)

lemma list_ofD: "list_of what lo hi v = Inr xs \<Longrightarrow> v = VArr xs \<and> lo \<le> length xs \<and> length xs \<le> hi"
  by (auto simp: list_of_def split: jval.splits if_splits)

lemma dict_ofD: "dict_of what v = Inr ob \<Longrightarrow> v = VObj ob"
  by (auto simp: dict_of_def split: jval.splits)

lemma trick_ofD: "trick_of v = Inr t \<Longrightarrow> length t \<le> max_trick_text \<and> trick_of (VStr t) = Inr t"
  by (auto simp: trick_of_def text_of_VStr dest: text_ofD split: if_splits)

lemmas json_simps = dict_of_def list_of_def int_of_def vget_def vget_or_def

lemma climax_again:
  assumes "validate_climax raw = Inr c"
  shows "validate_climax (climax_json c) = Inr c"
proof -
  obtain ob raws v where "dict_of ''climax'' raw = Inr ob" and raws: "list_of ''suspects'' 1 max_suspects (vget ob ''suspects'') = Inr raws"
      and su: "each (text_of ''suspect'' max_text) raws = Inr (cx_suspects c)" "distinct (cx_suspects c)"
      and an: "text_of ''climax answer'' max_text (vget ob ''answer'') = Inr (cx_answer c)" "cx_answer c \<in> set (cx_suspects c)"
      and tr: "trick_of (vget_or (VStr []) ob ''trick'') = Inr (cx_trick c)"
      and w: "int_of ''climax window'' 1 max_window v = Inr (cx_window c)"
    using assms by (auto simp: validate_climax_def after_Inr)
  have len: "length (cx_suspects c) = length raws" using su(1) by (rule each_length)
  show ?thesis
    using texts_again [OF su(1)] su(2) an(2) trick_ofD [OF tr] text_ofD [OF an(1)] int_ofD [OF w] list_ofD [OF raws] len
    by (simp add: validate_climax_def climax_json_def json_simps text_of_VStr)
qed

definition next_json :: "string \<times> string option \<Rightarrow> string \<times> jval" where
  "next_json kv = (case kv of (k, v) \<Rightarrow> (k, case v of None \<Rightarrow> VNull | Some i \<Rightarrow> VStr i))"

lemma next_again: "next_of n kv = Inr r \<Longrightarrow> next_of n (next_json r) = Inr r"
  by (cases kv) (auto simp: next_of_def next_json_def after_Inr text_of_VStr dest!: text_ofD split: if_splits)

lemma nexts_again: "each (next_of n) kvs = Inr rs \<Longrightarrow> each (next_of n) (List.map next_json rs) = Inr rs"
  by (induction kvs arbitrary: rs) (auto simp: after_Inr next_again)

lemma scene_json_next: "scene_json s = VObj [(''id'', VStr (sn_id s)), (''text'', VStr (sn_words s)),
     (''choices'', VArr (List.map VStr (sn_choices s))), (''next'', VObj (List.map next_json (sn_next s)))]"
  by (simp add: scene_json_def next_json_def)

lemma scenes_again:
  assumes "scenes_of seen raws = Inr ss"
  shows "scenes_of seen (List.map scene_json ss) = Inr ss"
  using assms
proof (induction raws arbitrary: seen ss)
  case (Cons raw raws)
  obtain ob i words cs choices nx nxt ss' where
      "dict_of ''scene'' raw = Inr ob" and i: "text_of ''scene id'' max_scenario_id (vget ob ''id'') = Inr i" "i \<notin> set seen"
      and words: "text_of ''scene text'' max_scene_text (vget ob ''text'') = Inr words"
      and cs: "list_of ''scene choices'' min_choices max_choices (vget ob ''choices'') = Inr cs"
        "each (text_of ''choice text'' max_choice_text) cs = Inr choices"
      and nxt: "each (next_of (length choices)) nx = Inr nxt"
      and rest: "scenes_of (i # seen) raws = Inr ss'"
      and ss: "ss = \<lparr>sn_id = i, sn_words = words, sn_choices = choices, sn_next = nxt\<rparr> # ss'"
    using Cons.prems by (auto simp: after_Inr)
  have len: "length choices = length cs" using cs(2) by (rule each_length)
  show ?case
    using Cons.IH [OF rest] text_ofD [OF i(1)] i(2) text_ofD [OF words] list_ofD [OF cs(1)] len texts_again [OF cs(2)] nexts_again [OF nxt]
    by (simp add: ss scene_json_next json_simps text_of_VStr)
qed simp

lemma scenes_length: "scenes_of seen raws = Inr ss \<Longrightarrow> length ss = length raws"
  by (induction raws arbitrary: seen ss) (auto simp: after_Inr)

lemma genre_ofD: "genre_of v = Inr g \<Longrightarrow> genre_of (VStr g) = Inr g"
  by (auto simp: genre_of_def split: jval.splits if_splits)

lemma scenario_again:
  assumes "validate_scenario raw = Inr sc"
  shows "validate_scenario (scenario_json sc) = Inr sc"
proof -
  obtain ob raws v w where "dict_of ''scenario'' raw = Inr ob"
      and i: "text_of ''scenario id'' max_scenario_id (vget ob ''id'') = Inr (sc_id sc)"
      and t: "text_of ''scenario title'' max_title (vget ob ''title'') = Inr (sc_title sc)"
      and g: "genre_of v = Inr (sc_genre sc)"
      and m: "int_of ''duration_minutes'' 1 max_minutes w = Inr (sc_minutes sc)"
      and s: "list_of ''scenes'' 1 max_scenes (vget ob ''scenes'') = Inr raws" "scenes_of [] raws = Inr (sc_scenes sc)"
        "next_known (sc_scenes sc)"
      and c: "(if vget ob ''climax'' = VNull then Inr None
        else after (validate_climax (vget ob ''climax'')) (\<lambda>c. Inr (Some c))) = Inr (sc_climax sc)"
      and f: "sc_first sc = sn_id (hd (sc_scenes sc))"
    using assms by (auto simp: validate_scenario_def after_Inr)
  have climax: "(case sc_climax sc of None \<Rightarrow> True | Some c \<Rightarrow> validate_climax (climax_json c) = Inr c)"
    using c climax_again by (auto simp: after_Inr split: if_splits option.splits)
  have len: "length (sc_scenes sc) = length raws" using s(2) by (rule scenes_length)
  show ?thesis
    using text_ofD [OF i] text_ofD [OF t] genre_ofD [OF g] int_ofD [OF m] list_ofD [OF s(1)] scenes_again [OF s(2)] s(3) climax f len
    by (cases "sc_climax sc")
      (simp_all add: validate_scenario_def scenario_json_def json_simps text_of_VStr climax_json_def)
qed

section \<open>The winner\<close>

lemma best_of_scan:
  "best_of f js (Some (i, f i)) = Some (w, n) \<Longrightarrow>
     n = f w \<and> w \<in> set (i # js) \<and> (\<forall>j\<in>set (i # js). f j \<le> n) \<and> (\<forall>j\<in>set (takeWhile (\<lambda>j. j \<noteq> w) (i # js)). f j < n)"
proof (induction js arbitrary: i)
  case (Cons j js)
  show ?case
  proof (cases "f i < f j")
    case True
    then have "best_of f js (Some (j, f j)) = Some (w, n)" using Cons.prems by simp
    from Cons.IH [OF this] True show ?thesis by (auto split: if_splits)
  next
    case False
    then have "best_of f js (Some (i, f i)) = Some (w, n)" using Cons.prems by simp
    from Cons.IH [OF this] False show ?thesis by (auto split: if_splits)
  qed
qed simp

lemma best_of_some: "\<exists>w n. best_of f js (Some b) = Some (w, n)"
  by (induction js arbitrary: b) (auto split: prod.splits)

lemma best_of_least:
  assumes "best_of f [1..<Suc m] None = Some (w, n)"
  shows "n = f w \<and> 1 \<le> w \<and> w \<le> m \<and> (\<forall>j. 1 \<le> j \<and> j \<le> m \<longrightarrow> f j \<le> f w) \<and> (\<forall>j. 1 \<le> j \<and> j < w \<longrightarrow> f j < f w)"
proof (cases m)
  case (Suc k)
  then have js: "[1..<Suc m] = 1 # [2..<Suc m]" by (simp add: upt_rec numeral_2_eq_2)
  then have "best_of f [2..<Suc m] (Some (1, f 1)) = Some (w, n)" using assms by simp
  from best_of_scan [OF this] have facts: "n = f w" "w \<in> set [1..<Suc m]" "\<forall>j\<in>set [1..<Suc m]. f j \<le> n"
      "\<forall>j\<in>set (takeWhile (\<lambda>j. j \<noteq> w) [1..<Suc m]). f j < n"
    unfolding js by auto
  have w: "1 \<le> w" "w \<le> Suc m" "w < Suc m" using facts(2) by auto
  obtain k where k: "Suc m = w + k" using w(2) by (auto simp: le_iff_add)
  have "[1..<Suc m] = [1..<w] @ [w..<Suc m]"
    unfolding k by (rule upt_add_eq_append [OF w(1)])
  then have "[1..<Suc m] = [1..<w] @ w # [Suc w..<Suc m]" unfolding upt_conv_Cons [OF w(3)] .
  moreover have "takeWhile (\<lambda>j. j \<noteq> w) ([1..<w] @ w # rest) = [1..<w]" for rest
    by (subst takeWhile_append2) auto
  ultimately have "takeWhile (\<lambda>j. j \<noteq> w) [1..<Suc m] = [1..<w]" by (simp only:)
  then show ?thesis using facts by auto
qed (use assms in simp)

section \<open>The invariant\<close>

definition legal_scenario :: "scenario \<Rightarrow> bool" where
  "legal_scenario sc \<longleftrightarrow> validate_scenario (scenario_json sc) = Inr sc"

lemma legalI: "validate_scenario raw = Inr sc \<Longrightarrow> legal_scenario sc"
  unfolding legal_scenario_def by (rule scenario_again)

lemma legal_first:
  assumes "legal_scenario sc"
  shows "sc_first sc \<in> sn_id ` set (sc_scenes sc)"
proof -
  obtain raws v where "scenes_of [] raws = Inr (sc_scenes sc)" "list_of ''scenes'' 1 max_scenes v = Inr raws"
      and f: "sc_first sc = sn_id (hd (sc_scenes sc))"
    using assms unfolding legal_scenario_def validate_scenario_def by (auto simp: after_Inr)
  then have "sc_scenes sc \<noteq> []" using scenes_length list_ofD by fastforce
  then show ?thesis using f by simp
qed

definition result_of :: "climax \<Rightarrow> (string \<times> accusation) list \<Rightarrow> climax_result" where
  "result_of c acs = (let us = correct_users (cx_answer c) acs in
     \<lparr>cl_answer = cx_answer c, cl_trick = cx_trick c, cl_total = length acs, cl_correct = length us, cl_users = us\<rparr>)"

text \<open>The ballot of the scene on show, the accusations of the climax, and what the reveal made of them.\<close>

definition ballot_ok :: "scene \<Rightarrow> story \<Rightarrow> bool" where
  "ballot_ok x s \<longleftrightarrow> tidy_ballot (st_votes s, st_vote_order s) \<and> fst ` set (st_votes s) \<subseteq> set (choice_keys x)
     \<and> length (st_vote_order s) \<le> max_participants
     \<and> (case st_tally s of None \<Rightarrow> st_phase s \<noteq> PResolve | Some t \<Rightarrow> t = tally_of x (st_votes s) \<and> st_phase s \<noteq> PChoice)"

definition accusations_ok :: "scenario \<Rightarrow> story \<Rightarrow> bool" where
  "accusations_ok sc s \<longleftrightarrow> distinct (List.map fst (st_accusations s)) \<and> length (st_accusations s) \<le> max_participants
     \<and> (\<forall>a\<in>snd ` set (st_accusations s). \<exists>c. sc_climax sc = Some c \<and> ac_suspect a \<in> set (cx_suspects c))
     \<and> (st_phase s \<in> {PClimax, PReveal} \<longrightarrow> sc_climax sc \<noteq> None)"

definition reveal_ok :: "scenario \<Rightarrow> story \<Rightarrow> bool" where
  "reveal_ok sc s \<longleftrightarrow> (case st_climax_result s of
       None \<Rightarrow> st_scores s = [] \<and> st_phase s \<noteq> PReveal
     | Some r \<Rightarrow> st_phase s \<notin> {PScene, PChoice, PResolve, PClimax}
         \<and> (\<exists>c. sc_climax sc = Some c \<and> r = result_of c (st_accusations s)
         \<and> st_scores s = List.map (\<lambda>u. (u, 10)) (correct_users (cx_answer c) (st_accusations s))))"

definition told :: "scenario \<Rightarrow> scene \<Rightarrow> story \<Rightarrow> bool" where
  "told sc x s \<longleftrightarrow> st_phase s \<noteq> PIdle \<and> st_scenario s = Some sc \<and> legal_scenario sc \<and> x \<in> set (sc_scenes sc)
     \<and> current_scene s = Inr x \<and> ballot_ok x s \<and> accusations_ok sc s \<and> reveal_ok sc s"

definition story_ok :: "story \<Rightarrow> bool" where
  "story_ok s \<longleftrightarrow> st_phase s = PIdle \<or> (\<exists>sc x. told sc x s)"

section \<open>Every operation keeps it\<close>

definition keeps :: "'a telling \<Rightarrow> bool" where
  "keeps m \<longleftrightarrow> (\<forall>s. story_ok s \<longrightarrow> story_ok (snd (m s)))"

lemmas run_simps = at_phase_def reading_def transition_to_def bnd_def thn_def unless_def

lemma keepsI:
  assumes "\<And>s :: story. st_phase s = PIdle \<Longrightarrow> story_ok (snd (m s))" "\<And>s sc x. told sc x s \<Longrightarrow> story_ok (snd (m s))"
  shows "keeps m"
  using assms by (auto simp: keeps_def story_ok_def)

text \<open>What a state shows of itself while it is told.\<close>

lemma current_scene_frame [simp]:
  "current_scene (s\<lparr>st_phase := p\<rparr>) = current_scene s"
  "current_scene (s\<lparr>st_phase_started_at := t\<rparr>) = current_scene s"
  "current_scene (s\<lparr>st_vote_window := w\<rparr>) = current_scene s"
  "current_scene (s\<lparr>st_choice_opened_at := t\<rparr>) = current_scene s"
  "current_scene (s\<lparr>st_climax_window := w\<rparr>) = current_scene s"
  "current_scene (s\<lparr>st_climax_opened_at := t\<rparr>) = current_scene s"
  "current_scene (s\<lparr>st_votes := vs\<rparr>) = current_scene s"
  "current_scene (s\<lparr>st_vote_order := os\<rparr>) = current_scene s"
  "current_scene (s\<lparr>st_accusations := acs\<rparr>) = current_scene s"
  "current_scene (s\<lparr>st_tally := y\<rparr>) = current_scene s"
  "current_scene (s\<lparr>st_climax_result := r\<rparr>) = current_scene s"
  "current_scene (s\<lparr>st_scores := d\<rparr>) = current_scene s"
  "current_scene (s\<lparr>st_failure_reason := t\<rparr>) = current_scene s"
  "current_scene (s\<lparr>st_ended_at := t\<rparr>) = current_scene s"
  "current_scene (s\<lparr>st_outcome := t\<rparr>) = current_scene s"
  unfolding current_scene_def by (simp_all split: option.split)

lemma story_okI: "told sc x s \<Longrightarrow> story_ok s"
  by (auto simp: story_ok_def)

lemma tidy_empty: "tidy_ballot ([], [])"
  by (simp add: tidy_ballot_def)

lemma scene_found:
  assumes "i \<in> sn_id ` set (sc_scenes sc)" "st_scenario s = Some sc" "st_scene_id s = Some i"
  shows "\<exists>x\<in>set (sc_scenes sc). current_scene s = Inr x"
proof -
  obtain x where "find (\<lambda>x. Some (sn_id x) = Some i) (sc_scenes sc) = Some x"
    using assms(1) by (cases "find (\<lambda>x. Some (sn_id x) = Some i) (sc_scenes sc)") (auto simp: find_None_iff)
  moreover from this have "x \<in> set (sc_scenes sc)" by (auto simp: find_Some_iff)
  ultimately show ?thesis using assms(2,3) by (auto simp: current_scene_def)
qed

lemma keeps_start: "keeps (start_story raw now clk)"
proof (rule keepsI)
  fix s :: story assume p: "st_phase s = PIdle"
  show "story_ok (snd (start_story raw now clk s))"
  proof (cases "validate_scenario raw")
    case (Inl e)
    then show ?thesis using p by (simp add: start_story_def run_simps story_ok_def)
  next
    case (Inr sc)
    let ?t = "snd (start_story raw now clk s)"
    have t: "st_scenario ?t = Some sc" "st_scene_id ?t = Some (sc_first sc)" "st_phase ?t = PScene" "st_votes ?t = []"
        "st_vote_order ?t = []" "st_tally ?t = None" "st_accusations ?t = []" "st_climax_result ?t = None" "st_scores ?t = []"
      using p Inr by (simp_all add: start_story_def run_simps)
    obtain x where "x \<in> set (sc_scenes sc)" "current_scene ?t = Inr x"
      using scene_found [OF legal_first [OF legalI [OF Inr]] t(1,2)] by blast
    then have "told sc x ?t"
      using t legalI [OF Inr] by (simp add: told_def ballot_ok_def accusations_ok_def reveal_ok_def tidy_empty)
    then show ?thesis by (rule story_okI)
  qed
next
  fix s :: story and sc x assume "told sc x s"
  then show "story_ok (snd (start_story raw now clk s))"
    by (auto simp: start_story_def run_simps told_def story_ok_def)
qed

text \<open>An operation that stays in its scene.\<close>

lemma keeps_scene:
  assumes "\<And>s :: story. st_phase s = PIdle \<Longrightarrow> snd (m s) = s" "\<And>s sc x. told sc x s \<Longrightarrow> told sc x (snd (m s))"
  shows "keeps m"
proof (rule keepsI)
  show "story_ok (snd (m s))" if "st_phase s = PIdle" for s :: story
    using assms(1) [OF that] that by (simp add: story_ok_def)
  show "story_ok (snd (m s))" if "told sc x s" for s sc x
    using assms(2) [OF that] by (rule story_okI)
qed

lemmas told_defs = told_def ballot_ok_def accusations_ok_def reveal_ok_def

lemma keeps_open_choice: "keeps (open_choice window now clk)"
proof (rule keeps_scene)
  fix s sc x assume "told sc x s"
  then show "told sc x (snd (open_choice window now clk s))"
    by (cases "st_phase s = PScene") (simp_all add: open_choice_def run_simps told_defs tidy_empty split: option.splits)
qed (simp add: open_choice_def run_simps)

lemma keeps_close_choice: "keeps (close_choice clk)"
proof (rule keeps_scene)
  fix s sc x assume "told sc x s"
  then show "told sc x (snd (close_choice clk s))"
    by (cases "st_phase s = PChoice") (simp_all add: close_choice_def run_simps told_defs split: option.splits)
qed (simp add: close_choice_def run_simps)

lemma keys_take: "fst ` set (take_vote u p votes) \<subseteq> fst ` set votes"
proof -
  have "fst ` set (AList.update k us votes) = fst ` set votes" if "map_of votes k = Some vs" for k us vs
    using that by (force simp: dom_update dest: map_of_SomeD)
  then show ?thesis
    by (auto simp: take_vote_def Let_def AList.delete_eq split: option.splits)
qed

lemma keys_put: "fst ` set (put_vote u k votes) = insert k (fst ` set votes)"
  by (simp add: put_vote_def Let_def dom_update)

lemma length_update: "length (AList.update k v al) = (if k \<in> fst ` set al then length al else Suc (length al))"
  by (induction al) auto

lemma keeps_record_vote: "keeps (record_vote u n)"
proof (rule keeps_scene)
  fix s sc x assume told: "told sc x s"
  show "told sc x (snd (record_vote u n s))"
  proof (cases "st_phase s = PChoice \<and> user_of u = Inr () \<and> 1 \<le> n \<and> n \<le> int (length (sn_choices x)) \<and> has_room u (st_vote_order s)")
    case False
    then show ?thesis
      using told by (auto simp: record_vote_def run_simps told_def split: sum.splits)
  next
    case True
    let ?k = "dec (nat n)"
    obtain votes order where new: "cast_vote u ?k (st_votes s, st_vote_order s) = (votes, order)"
      by (cases "cast_vote u ?k (st_votes s, st_vote_order s)")
    have run: "snd (record_vote u n s) = s\<lparr>st_votes := votes, st_vote_order := order\<rparr>"
      using True told new by (simp add: record_vote_def run_simps told_def)
    have parts: "votes = put_vote u ?k (take_vote u (map_of (st_vote_order s) u) (st_votes s))"
        "order = AList.update u ?k (st_vote_order s)"
      using new by (simp_all add: cast_vote_def)
    have "nat n \<in> {1..<Suc (length (sn_choices x))}" using True by auto
    then have "?k \<in> set (choice_keys x)" unfolding choice_keys_def set_map set_upt by (rule imageI)
    moreover have "fst ` set (st_votes s) \<subseteq> set (choice_keys x)" using told by (simp add: told_def ballot_ok_def)
    ultimately have keys: "fst ` set votes \<subseteq> set (choice_keys x)"
      using subset_trans [OF keys_take] unfolding parts keys_put by simp
    have room: "length order \<le> max_participants"
      using True told by (auto simp: parts length_update has_room_def told_def ballot_ok_def)
    have tidy: "tidy_ballot (votes, order)"
      using tidy_cast_vote [of "(st_votes s, st_vote_order s)" u ?k] told by (simp add: new told_def ballot_ok_def)
    show ?thesis
      using told True keys room tidy by (simp add: run told_defs split: option.splits)
  qed
qed (simp add: record_vote_def run_simps)

lemma keeps_finish: "keeps (finish_story outcome now clk)"
proof (rule keeps_scene)
  fix s sc x assume "told sc x s"
  then show "told sc x (snd (finish_story outcome now clk s))"
    by (cases "st_phase s") (simp_all add: finish_story_def run_simps told_defs split: option.splits)
qed (simp add: finish_story_def run_simps)

lemma keeps_fail: "keeps (fail_story reason now clk)"
proof (rule keeps_scene)
  fix s sc x assume "told sc x s"
  then show "told sc x (snd (fail_story reason now clk s))"
    by (cases "is_live (st_phase s)") (simp_all add: fail_story_def run_simps told_defs split: option.splits)
qed (simp add: fail_story_def run_simps is_live_def)

lemma keeps_timeout: "keeps (timeout_story now clk)"
proof (rule keeps_scene)
  fix s sc x assume "told sc x s"
  then show "told sc x (snd (timeout_story now clk s))"
    by (cases "is_live (st_phase s)") (simp_all add: timeout_story_def run_simps told_defs split: option.splits)
qed (simp add: timeout_story_def run_simps is_live_def)

lemma keeps_reset: "keeps reset_story"
  by (rule keepsI) (auto simp: reset_story_def run_simps story_ok_def new_story_def)

lemma keeps_open_climax: "keeps (open_climax window now clk)"
proof (rule keeps_scene)
  fix s sc x assume told: "told sc x s"
  then show "told sc x (snd (open_climax window now clk s))"
    by (cases "st_phase s = PResolve"; cases "sc_climax sc")
      (simp_all add: open_climax_def run_simps told_defs current_climax_def split: option.splits)
qed (simp add: open_climax_def run_simps)

lemma keeps_record_accusation: "keeps (record_accusation u suspect trick now clk)"
proof (rule keeps_scene)
  fix s sc x assume told: "told sc x s"
  show "told sc x (snd (record_accusation u suspect trick now clk s))"
  proof (cases "\<exists>c. st_phase s = PClimax \<and> user_of u = Inr () \<and> sc_climax sc = Some c \<and> 1 \<le> length suspect \<and> length suspect \<le> max_text
      \<and> suspect \<in> set (cx_suspects c) \<and> length trick \<le> max_trick_text \<and> has_room u (st_accusations s)")
    case False
    then show ?thesis
      using told by (cases "sc_climax sc") (auto simp: record_accusation_def run_simps told_def current_climax_def split: sum.splits)
  next
    case True
    then obtain c where c: "st_phase s = PClimax" "sc_climax sc = Some c" "suspect \<in> set (cx_suspects c)" "has_room u (st_accusations s)" by blast
    let ?a = "\<lparr>ac_suspect = suspect, ac_trick = trick, ac_at = stamp_or now clk\<rparr>"
    have run: "snd (record_accusation u suspect trick now clk s) = s\<lparr>st_accusations := AList.update u ?a (st_accusations s)\<rparr>"
      using True c told by (auto simp: record_accusation_def run_simps told_def current_climax_def)
    have "set (AList.update u ?a acs) \<subseteq> insert (u, ?a) (set acs)" for acs by (induction acs) auto
    then have "snd ` set (AList.update u ?a (st_accusations s)) \<subseteq> insert ?a (snd ` set (st_accusations s))" by force
    moreover have "\<exists>c. sc_climax sc = Some c \<and> ac_suspect a \<in> set (cx_suspects c)" if "a \<in> insert ?a (snd ` set (st_accusations s))" for a
      using that told c(2,3) by (auto simp: told_def accusations_ok_def)
    ultimately have "\<forall>a\<in>snd ` set (AList.update u ?a (st_accusations s)). \<exists>c. sc_climax sc = Some c \<and> ac_suspect a \<in> set (cx_suspects c)"
      by blast
    moreover have "length (AList.update u ?a (st_accusations s)) \<le> max_participants"
      using told c(4) by (auto simp: length_update has_room_def told_def accusations_ok_def)
    ultimately show ?thesis
      using told c by (simp add: run told_defs distinct_update split: option.splits)
  qed
qed (simp add: record_accusation_def run_simps)

lemma add_points_fresh:
  assumes "distinct us" "set us \<inter> fst ` set d = {}"
  shows "add_points us d = d @ List.map (\<lambda>u. (u, 10)) us"
  using assms
proof (induction us arbitrary: d)
  case (Cons u us)
  have new: "AList.update u v d = d @ [(u, v)]" if "u \<notin> fst ` set d" for v and d :: "(string \<times> int) list"
    using that by (induction d) auto
  have "map_of d u = None" using Cons.prems by (auto simp: map_of_eq_None_iff)
  then have "add_points (u # us) d = add_points us (d @ [(u, 10)])"
    using Cons.prems by (simp add: add_points_def new)
  also have "\<dots> = d @ List.map (\<lambda>u. (u, 10)) (u # us)"
    using Cons.IH [of "d @ [(u, 10)]"] Cons.prems by auto
  finally show ?case .
qed (simp add: add_points_def)

lemma distinct_correct: "distinct (List.map fst acs) \<Longrightarrow> distinct (correct_users answer acs)"
  by (induction acs) (auto simp: correct_users_def)

lemma keeps_close_climax: "keeps (close_climax clk)"
proof (rule keeps_scene)
  fix s sc x assume told: "told sc x s"
  show "told sc x (snd (close_climax clk s))"
  proof (cases "st_phase s = PClimax")
    case False
    then show ?thesis using told by (simp add: close_climax_def run_simps)
  next
    case True
    then obtain c where c: "sc_climax sc = Some c" using told by (auto simp: told_def accusations_ok_def)
    have fresh: "st_climax_result s = None" "st_scores s = []"
      using told True by (auto simp: told_def reveal_ok_def split: option.splits)
    have "distinct (correct_users (cx_answer c) (st_accusations s))"
      using told by (intro distinct_correct) (simp add: told_def accusations_ok_def)
    then have points: "add_points (correct_users (cx_answer c) (st_accusations s)) [] =
        List.map (\<lambda>u. (u, 10)) (correct_users (cx_answer c) (st_accusations s))"
      by (simp add: add_points_fresh)
    show ?thesis
      using told True c fresh points
      by (simp add: close_climax_def run_simps told_defs current_climax_def result_of_def Let_def split: option.splits)
  qed
qed (simp add: close_climax_def run_simps)

text \<open>The next scene is one of the scenario, so an automatic advance never raises.\<close>

lemma next_scene_known:
  assumes "told sc x s" "next_scene s = Inr (Some i)"
  shows "i \<in> sn_id ` set (sc_scenes sc)"
proof -
  obtain k where "map_of (sn_next x) k = Some (Some i)"
    using assms by (auto simp: next_scene_def told_def after_Inr split: option.splits)
  moreover have "next_known (sc_scenes sc)"
    using assms(1) by (auto simp: told_def legal_scenario_def validate_scenario_def after_Inr)
  ultimately show ?thesis
    using assms(1) by (fastforce simp: next_known_def told_def list_all_iff dest: map_of_SomeD)
qed

lemma keeps_advance: "keeps (advance_scene given clk)"
proof (rule keepsI)
  fix s :: story assume "st_phase s = PIdle"
  then show "story_ok (snd (advance_scene given clk s))" by (simp add: advance_scene_def run_simps story_ok_def)
next
  fix s sc x assume told: "told sc x s"
  show "story_ok (snd (advance_scene given clk s))"
  proof (cases "st_phase s = PResolve")
    case False
    then show ?thesis using told story_okI [OF told] by (simp add: advance_scene_def run_simps)
  next
    case True
    have sc: "st_scenario s = Some sc" using told by (simp add: told_def)
    obtain w where w: "next_scene s = Inr w"
      using told by (auto simp: next_scene_def winning_choice_def told_def)
    let ?t = "case given of Some i \<Rightarrow> Some i | None \<Rightarrow> w"
    have run: "advance_scene given clk s = (case ?t of
        None \<Rightarrow> transition_to clk (if sc_climax sc = None then PEnd else PClimax)
      | Some i \<Rightarrow> thn (unless (i \<in> sn_id ` set (sc_scenes sc)) (TrpgError ''unknown scene''))
             (thn (alter (\<lambda>s. s\<lparr>st_scene_id := Some i, st_votes := [], st_vote_order := [], st_tally := None\<rparr>))
             (transition_to clk PScene))) s"
      using True sc w by (cases given; cases w) (simp_all add: advance_scene_def run_simps)
    show ?thesis
    proof (cases ?t)
      case None
      then have "told sc x (snd (advance_scene given clk s))"
        using told True unfolding run by (simp add: run_simps told_defs split: option.splits)
      then show ?thesis by (rule story_okI)
    next
      case (Some i)
      show ?thesis
      proof (cases "i \<in> sn_id ` set (sc_scenes sc)")
        case False
        then show ?thesis using Some story_okI [OF told] unfolding run by (simp add: run_simps)
      next
        case in_scenes: True
        let ?u = "snd (advance_scene given clk s)"
        have u: "?u = s\<lparr>st_scene_id := Some i, st_votes := [], st_vote_order := [], st_tally := None,
            st_phase := PScene, st_phase_started_at := Some clk\<rparr>"
          using Some in_scenes True unfolding run by (simp add: run_simps)
        obtain y where "y \<in> set (sc_scenes sc)" "current_scene ?u = Inr y"
          using scene_found [OF in_scenes, of ?u] sc by (auto simp: u)
        then have "told sc y ?u" using told True by (simp add: u told_defs tidy_empty split: option.splits)
        then show ?thesis by (rule story_okI)
      qed
    qed
  qed
qed

end
