(* ===== verification/TrpgReading.thy ===== *)
theory TrpgReading
  imports TrpgSession TrpgFacts
begin

text \<open>
  Reading the chat log: one read hears exactly the complete lines of the bytes it passes over, reads
  compose, and a window that closes is drained after finitely many of them.
\<close>

section \<open>Lines\<close>

lemma whole_lines_none: "newline \<notin> set xs \<Longrightarrow> whole_lines w xs = []"
  by (induction xs arbitrary: w) auto

lemma whole_lines_first: "newline \<notin> set xs \<Longrightarrow> whole_lines w (xs @ newline # ys) = (rev w @ xs) # whole_lines [] ys"
  by (induction xs arbitrary: w) auto

lemma whole_lines_append:
  assumes "xs = [] \<or> last xs = newline"
  shows "whole_lines [] (xs @ ys) = whole_lines [] xs @ whole_lines [] ys"
  using assms
proof (induction "length xs" arbitrary: xs rule: less_induct)
  case less
  show ?case
  proof (cases "xs = []")
    case False
    then have "newline \<in> set xs" using less.prems last_in_set by metis
    then obtain us vs where split: "xs = us @ newline # vs" "newline \<notin> set us" by (metis split_list_first)
    have "vs = [] \<or> last vs = newline" using less.prems split by (auto split: if_splits)
    then have "whole_lines [] (vs @ ys) = whole_lines [] vs @ whole_lines [] ys"
      using less.hyps [of vs] split by simp
    then show ?thesis using split by (simp add: whole_lines_first)
  qed simp
qed

text \<open>Taking some complete lines off the front.\<close>

lemma whole_lines_take:
  "bytes_of (take n (whole_lines [] xs)) \<le> length xs"
  "whole_lines [] (take (bytes_of (take n (whole_lines [] xs))) xs) = take n (whole_lines [] xs)"
  "take (bytes_of (take n (whole_lines [] xs))) xs = [] \<or> last (take (bytes_of (take n (whole_lines [] xs))) xs) = newline"
proof (induction n arbitrary: xs)
  case (Suc n)
  { case 1 show ?case
    proof (cases "newline \<in> set xs")
      case True
      then obtain us vs where "xs = us @ newline # vs" "newline \<notin> set us" by (metis split_list_first)
      then show ?thesis using Suc.IH(1) [of vs] by (simp add: whole_lines_first bytes_of_def)
    qed (simp add: whole_lines_none bytes_of_def) }
  { case 2 show ?case
    proof (cases "newline \<in> set xs")
      case True
      then obtain us vs where "xs = us @ newline # vs" "newline \<notin> set us" by (metis split_list_first)
      then show ?thesis using Suc.IH(2) [of vs] by (simp add: whole_lines_first bytes_of_def)
    qed (simp add: whole_lines_none bytes_of_def) }
  { case 3 show ?case
    proof (cases "newline \<in> set xs")
      case True
      then obtain us vs where "xs = us @ newline # vs" "newline \<notin> set us" by (metis split_list_first)
      then show ?thesis using Suc.IH(3) [of vs] by (auto simp: whole_lines_first bytes_of_def)
    qed (simp add: whole_lines_none bytes_of_def) }
qed (simp_all add: bytes_of_def)

definition short :: "string \<Rightarrow> bool" where
  "short l \<longleftrightarrow> length l < read_bytes"

definition after_line :: "string \<Rightarrow> string" where
  "after_line bs = tl (dropWhile (\<lambda>c. c \<noteq> newline) bs)"

text \<open>What a reader hears of some bytes: the complete lines, the rest of a line given up apart, and none too
  long for one read.\<close>

definition heard_lines :: "bool \<Rightarrow> string \<Rightarrow> string list" where
  "heard_lines discard bs = filter short (whole_lines [] (if discard then after_line bs else bs))"

lemma heard_empty [simp]: "heard_lines d [] = []"
  by (simp add: heard_lines_def after_line_def)

lemma after_line_simps [simp]:
  "after_line [] = []"
  "after_line (c # cs) = (if c = newline then cs else after_line cs)"
  by (simp_all add: after_line_def)

lemma after_line_none: "newline \<notin> set xs \<Longrightarrow> after_line (xs @ ys) = after_line ys"
  by (induction xs) auto

lemma after_line_first: "newline \<notin> set xs \<Longrightarrow> after_line (xs @ newline # ys) = ys"
  by (simp add: after_line_none)

lemma heard_append:
  assumes "xs = [] \<or> last xs = newline"
  shows "heard_lines False (xs @ ys) = heard_lines False xs @ heard_lines False ys"
  using assms by (simp add: heard_lines_def whole_lines_append)

lemma heard_long:
  assumes "newline \<notin> set xs" "length xs = read_bytes"
  shows "heard_lines False (xs @ ys) = heard_lines True ys"
proof (cases "newline \<in> set ys")
  case True
  then obtain us vs where ys: "ys = us @ newline # vs" "newline \<notin> set us" by (metis split_list_first)
  have "whole_lines [] ((xs @ us) @ newline # vs) = (xs @ us) # whole_lines [] vs"
    using assms ys by (subst whole_lines_first) auto
  then show ?thesis using assms ys by (simp add: heard_lines_def after_line_first short_def)
next
  case False
  then have "after_line ys = []" using after_line_none [of ys "[]"] by simp
  then show ?thesis using False assms by (simp add: heard_lines_def whole_lines_none)
qed

lemma heard_skip: "newline \<notin> set xs \<Longrightarrow> heard_lines True (xs @ ys) = heard_lines True ys"
  by (simp add: heard_lines_def after_line_none)

lemma heard_resume: "newline \<notin> set xs \<Longrightarrow> heard_lines True (xs @ newline # ys) = heard_lines False ys"
  by (simp add: heard_lines_def after_line_first)

lemma heard_none: "newline \<notin> set xs \<Longrightarrow> heard_lines d xs = []"
  using after_line_none [of xs "[]"] by (cases d) (simp_all add: heard_lines_def whole_lines_none)

section \<open>One read\<close>

definition seg :: "nat \<Rightarrow> nat \<Rightarrow> string \<Rightarrow> string" where
  "seg x y bs = take (y - x) (drop x bs)"

lemma seg_append:
  assumes "x \<le> y" "y \<le> z"
  shows "seg x z bs = seg x y bs @ seg y z bs"
proof -
  have "z - x = (y - x) + (z - y)" "drop (y - x) (drop x bs) = drop y bs" using assms by simp_all
  then show ?thesis by (simp add: seg_def take_add)
qed

lemma length_seg: "y \<le> length bs \<Longrightarrow> length (seg x y bs) = y - x"
  by (simp add: seg_def)

lemma seg_take: "y \<le> n \<Longrightarrow> seg x y (take n bs) = seg x y bs"
  by (simp add: seg_def drop_take min_def)

lemma bytes_pos: "ls \<noteq> [] \<Longrightarrow> 0 < bytes_of ls"
  by (cases ls) (simp_all add: bytes_of_def)

lemma whole_lines_shorter: "l \<in> set (whole_lines w raw) \<Longrightarrow> length l < length w + length raw"
  by (induction raw arbitrary: w) (fastforce split: if_splits)+

lemma whole_lines_Nil: "whole_lines [] raw = [] \<Longrightarrow> newline \<notin> set raw"
  by (metis list.discI split_list_first whole_lines_first)

lemma heard_whole:
  assumes "length raw \<le> read_bytes"
  shows "heard_lines False raw = whole_lines [] raw"
proof -
  have "length l < read_bytes" if "l \<in> set (whole_lines [] raw)" for l
    using whole_lines_shorter [OF that] assms by simp
  then show ?thesis by (simp add: heard_lines_def short_def filter_id_conv)
qed

text \<open>A read ends where it heard all complete lines before, or at the limit of a closing window.\<close>

lemma read_step:
  assumes r: "read_from l limit closes cu = (ls, cu')"
    and c: "cu_offset cu \<le> limit" "limit \<le> length (lo_bytes l)"
  shows "cu_inode cu' = cu_inode cu" "cu_offset cu \<le> cu_offset cu'" "cu_offset cu' \<le> limit"
    and "ls = heard_lines (cu_discard cu) (seg (cu_offset cu) (cu_offset cu') (lo_bytes l))"
    and "closes \<Longrightarrow> cu_offset cu < limit \<Longrightarrow> cu_offset cu < cu_offset cu'"
    and "\<not> (closes \<and> cu_offset cu' = limit) \<Longrightarrow>
      heard_lines (cu_discard cu) (seg (cu_offset cu) (cu_offset cu') (lo_bytes l) @ ys) = ls @ heard_lines (cu_discard cu') ys"
proof -
  let ?o = "cu_offset cu" and ?bs = "lo_bytes l"
  define raw where "raw = take (min read_bytes (limit - ?o)) (drop ?o ?bs)"
  have len: "length raw = min read_bytes (limit - ?o)" using c by (simp add: raw_def)
  have pre: "seg ?o (?o + n) ?bs = take n raw" if "n \<le> length raw" for n
    using that len by (simp add: seg_def raw_def min_def)
  have "cu_inode cu' = cu_inode cu \<and> ?o \<le> cu_offset cu' \<and> cu_offset cu' \<le> limit
      \<and> ls = heard_lines (cu_discard cu) (seg ?o (cu_offset cu') ?bs)
      \<and> (closes \<longrightarrow> ?o < limit \<longrightarrow> ?o < cu_offset cu')
      \<and> (\<not> (closes \<and> cu_offset cu' = limit) \<longrightarrow>
           heard_lines (cu_discard cu) (seg ?o (cu_offset cu') ?bs @ ys) = ls @ heard_lines (cu_discard cu') ys)" for ys
  proof (cases "cu_discard cu")
    case True
    show ?thesis
    proof (cases "newline \<in> set raw")
      case nl: True
      then obtain us vs where raw_split: "raw = us @ newline # vs" "newline \<notin> set us" by (metis split_list_first)
      have tw: "takeWhile (\<lambda>c. c \<noteq> newline) raw = us" unfolding raw_split(1) using raw_split(2) by (subst takeWhile_append2) auto
      have new: "ls = []" "cu' = cu\<lparr>cu_offset := ?o + length us + 1, cu_discard := False\<rparr>"
        using r True nl by (simp_all add: read_from_def raw_def [symmetric] Let_def tw)
      have "seg ?o (?o + (length us + 1)) ?bs = us @ [newline]"
        using raw_split by (subst pre) simp_all
      moreover have "length us + 1 \<le> limit - ?o" using len raw_split by (simp add: min_def split: if_splits)
      ultimately show ?thesis
        using True new raw_split(2) c heard_resume [of us ys] heard_resume [of us "[]"] by simp
    next
      case False
      then have new: "ls = []" "cu' = cu\<lparr>cu_offset := ?o + length raw\<rparr>"
        using r True by (simp_all add: read_from_def raw_def [symmetric] Let_def)
      have "seg ?o (?o + length raw) ?bs = raw" by (subst pre) simp_all
      then show ?thesis
        using True new False c len heard_skip [of raw ys] heard_none [of raw] by (auto simp: read_bytes_def)
    qed
  next
    case False
    let ?ls = "take max_lines (whole_lines [] raw)"
    have bound: "length raw \<le> read_bytes" using len by simp
    show ?thesis
    proof (cases "?ls = [] \<and> length raw = read_bytes")
      case long: True
      have new: "ls = []" "cu' = cu\<lparr>cu_offset := ?o + length raw, cu_discard := True\<rparr>"
        using r False long by (simp_all add: read_from_def raw_def [symmetric] Let_def)
      have none: "newline \<notin> set raw" using long by (intro whole_lines_Nil) (simp add: max_lines_def)
      have "seg ?o (?o + length raw) ?bs = raw" by (subst pre) simp_all
      then show ?thesis
        using False new c len long heard_long [OF none] heard_none [OF none] by (auto simp: read_bytes_def)
    next
      case some: False
      have new: "ls = ?ls" "cu' = cu\<lparr>cu_offset := if closes \<and> ?o + length raw = limit \<and> length ?ls < max_lines then limit
           else ?o + bytes_of ?ls\<rparr>"
        using r False some by (auto simp: read_from_def raw_def [symmetric] Let_def)
      show ?thesis
      proof (cases "closes \<and> ?o + length raw = limit \<and> length ?ls < max_lines")
        case True
        then have all: "?ls = whole_lines [] raw" by (simp add: min_def split: if_splits)
        have "seg ?o limit ?bs = raw" using True pre [of "length raw"] by simp
        then show ?thesis
          using True False new c all heard_whole [OF bound] by auto
      next
        case inside: False
        have take: "bytes_of ?ls \<le> length raw" "whole_lines [] (take (bytes_of ?ls) raw) = ?ls"
            "take (bytes_of ?ls) raw = [] \<or> last (take (bytes_of ?ls) raw) = newline"
          by (rule whole_lines_take)+
        have part: "seg ?o (?o + bytes_of ?ls) ?bs = take (bytes_of ?ls) raw" using take(1) by (rule pre)
        have heard: "heard_lines False (take (bytes_of ?ls) raw) = ?ls"
          using bound take(2) by (subst heard_whole) auto
        have "?ls \<noteq> []" if "closes" "?o < limit"
        proof
          assume "?ls = []"
          then have "length raw \<noteq> read_bytes" "length ?ls < max_lines" using some by (auto simp: max_lines_def)
          then have "?o + length raw = limit" using len that by (simp add: min_def split: if_splits)
          then show False using inside that \<open>length ?ls < max_lines\<close> by blast
        qed
        then have moves: "closes \<longrightarrow> ?o < limit \<longrightarrow> 0 < bytes_of ?ls" using bytes_pos by blast
        have "cu' = cu\<lparr>cu_offset := ?o + bytes_of ?ls\<rparr>"
          unfolding new(2) if_not_P [OF inside] ..
        then have off: "cu_offset cu' = ?o + bytes_of ?ls" "cu_inode cu' = cu_inode cu" "\<not> cu_discard cu'"
          using False by simp_all
        have "bytes_of ?ls \<le> limit - ?o" using take(1) len by simp
        then have "?o + bytes_of ?ls \<le> limit" using c(1) by linarith
        then show ?thesis
          using False new(1) off moves heard_append [OF take(3), of ys] heard unfolding off(1) part by simp
      qed
    qed
  qed
  then show "cu_inode cu' = cu_inode cu" "cu_offset cu \<le> cu_offset cu'" "cu_offset cu' \<le> limit"
    "ls = heard_lines (cu_discard cu) (seg (cu_offset cu) (cu_offset cu') (lo_bytes l))"
    "closes \<Longrightarrow> cu_offset cu < limit \<Longrightarrow> cu_offset cu < cu_offset cu'"
    "\<not> (closes \<and> cu_offset cu' = limit) \<Longrightarrow>
      heard_lines (cu_discard cu) (seg (cu_offset cu) (cu_offset cu') (lo_bytes l) @ ys) = ls @ heard_lines (cu_discard cu') ys"
    by blast+
qed

section \<open>A window\<close>

text \<open>In an open ballot the time of a message plays no part, and the ballot stays open.\<close>

lemma hear_choice:
  assumes "st_phase s = PChoice"
  shows "hear E now clk x s = hear E now' clk' x s" "st_phase (hear E now clk x s) = PChoice"
proof -
  have vote: "st_phase (snd (record_vote u n s)) = PChoice" for u n
    using assms by (auto simp: record_vote_def run_simps split: sum.splits prod.splits)
  show "hear E now clk x s = hear E now' clk' x s"
    using assms by (auto simp: hear_def observe_chat_def run_simps split: option.splits sum.splits)
  show "st_phase (hear E now clk x s) = PChoice"
    using assms vote
    by (auto simp: hear_def observe_chat_def run_simps or_ignore_def attempt_def split: option.splits sum.splits prod.splits)
      (metis snd_conv)+
qed

lemma fold_hear_choice: "st_phase s = PChoice \<Longrightarrow> st_phase (fold (hear E now clk) xs s) = PChoice"
  by (induction xs arbitrary: s) (simp_all add: hear_choice(2))

lemma fold_hear_when: "st_phase s = PChoice \<Longrightarrow> fold (hear E now clk) xs s = fold (hear E now' clk') xs s"
proof (induction xs arbitrary: s)
  case (Cons x xs)
  show ?case
    using Cons.IH [OF hear_choice(2) [OF Cons.prems]] hear_choice(1) [OF Cons.prems, of E now clk x now' clk'] by simp
qed simp

text \<open>Visits while the window is open read the log as far as it has grown; visits once it has closed read
  up to the snapshot of the closing, whatever was written behind it.\<close>

fun open_visits :: "session_env \<Rightarrow> nat \<Rightarrow> string \<Rightarrow> (rat \<times> string \<times> nat) list \<Rightarrow> session \<Rightarrow> session" where
  "open_visits E i bs [] d = d"
| "open_visits E i bs ((now, clk, n) # vs) d =
     open_visits E i bs vs (snd (consume E now clk (Some \<lparr>lo_inode = i, lo_bytes = take n bs\<rparr>) None d))"

fun closing_visits :: "session_env \<Rightarrow> nat \<Rightarrow> string \<Rightarrow> (rat \<times> string \<times> string) list \<Rightarrow> session \<Rightarrow> bool \<times> session" where
  "closing_visits E i bs [] d = (False, d)"
| "closing_visits E i bs ((now, clk, later) # vs) d =
     (case consume E now clk (Some \<lparr>lo_inode = i, lo_bytes = bs @ later\<rparr>) (Some \<lparr>cu_inode = Some i, cu_offset = length bs, cu_discard = False\<rparr>) d of
        (True, d) \<Rightarrow> (True, d)
      | (False, d) \<Rightarrow> closing_visits E i bs vs d)"

text \<open>What is still to be heard, from the cursor to the end of the window.\<close>

definition due_lines :: "string \<Rightarrow> chat_cursor \<Rightarrow> string list" where
  "due_lines bs cu = heard_lines (cu_discard cu) (drop (cu_offset cu) bs)"

lemma drop_seg: "x \<le> y \<Longrightarrow> drop x bs = seg x y bs @ drop y bs"
  by (simp add: seg_def) (metis append_take_drop_id drop_drop le_add_diff_inverse2)

lemma consume_here:
  assumes cu: "cu_inode (se_cursor d) = Some (lo_inode l)" "cu_offset (se_cursor d) \<le> limit" "limit \<le> length (lo_bytes l)"
    and t: "t = None \<and> limit = length (lo_bytes l) \<or> t = Some \<lparr>cu_inode = Some (lo_inode l), cu_offset = limit, cu_discard = dc\<rparr>"
    and r: "read_from l limit (t \<noteq> None) (se_cursor d) = (ls, cu')"
  shows "consume E now clk (Some l) t d = (limit \<le> cu_offset cu', d\<lparr>se_cursor := cu', se_story := fold (hear E now clk) ls (se_story d)\<rparr>)"
proof -
  have off: "\<not> length (lo_bytes l) < cu_offset (se_cursor d)" using cu(2,3) by simp
  show ?thesis
    using t
  proof
    assume "t = None \<and> limit = length (lo_bytes l)"
    then show ?thesis using cu(1) off r by (simp add: consume_def)
  next
    assume "t = Some \<lparr>cu_inode = Some (lo_inode l), cu_offset = limit, cu_discard = dc\<rparr>"
    then show ?thesis using cu(1) off r by (simp add: consume_def)
  qed
qed

lemma open_visits_heard:
  assumes "st_phase (se_story d) = PChoice" "cu_inode (se_cursor d) = Some i"
    and "sorted (cu_offset (se_cursor d) # List.map (\<lambda>(_, _, n). n) vs)" "\<forall>(_, _, n)\<in>set vs. n \<le> length bs"
    and "cu_offset (se_cursor d) \<le> length bs"
  shows "let d' = open_visits E i bs vs d in st_phase (se_story d') = PChoice \<and> cu_inode (se_cursor d') = Some i
    \<and> cu_offset (se_cursor d') \<le> length bs
    \<and> fold (hear E now clk) (due_lines bs (se_cursor d')) (se_story d') = fold (hear E now clk) (due_lines bs (se_cursor d)) (se_story d)"
  using assms
proof (induction vs arbitrary: d)
  case (Cons v vs)
  obtain t c n where v: "v = (t, c, n)" by (cases v)
  let ?l = "\<lparr>lo_inode = i, lo_bytes = take n bs\<rparr>" and ?cu = "se_cursor d"
  obtain ls cu' where r: "read_from ?l n False ?cu = (ls, cu')" by (cases "read_from ?l n False ?cu")
  have n: "cu_offset ?cu \<le> n" "n \<le> length (lo_bytes ?l)" "n \<le> length bs" using Cons.prems by (auto simp: v)
  have e: "snd (consume E t c (Some ?l) None d) = d\<lparr>se_cursor := cu', se_story := fold (hear E t c) ls (se_story d)\<rparr>"
    using consume_here [of d ?l n None] Cons.prems(2) n r by simp
  note step = read_step [OF r n(1,2)]
  have due: "due_lines bs ?cu = ls @ due_lines bs cu'"
  proof -
    have "drop (cu_offset ?cu) bs = seg (cu_offset ?cu) (cu_offset cu') (take n bs) @ drop (cu_offset cu') bs"
      using drop_seg [OF step(2), of bs] seg_take [OF step(3)] by simp
    then show ?thesis using step(6) by (simp add: due_lines_def)
  qed
  let ?d = "d\<lparr>se_cursor := cu', se_story := fold (hear E t c) ls (se_story d)\<rparr>"
  have "sorted (cu_offset (se_cursor ?d) # List.map (\<lambda>(_, _, n). n) vs)" using Cons.prems(3) step(3) by (auto simp: v)
  then have ih: "let d' = open_visits E i bs vs ?d in st_phase (se_story d') = PChoice \<and> cu_inode (se_cursor d') = Some i
    \<and> cu_offset (se_cursor d') \<le> length bs
    \<and> fold (hear E now clk) (due_lines bs (se_cursor d')) (se_story d') = fold (hear E now clk) (due_lines bs (se_cursor ?d)) (se_story ?d)"
    using Cons.prems step n by (intro Cons.IH) (auto simp: fold_hear_choice)
  have "fold (hear E now clk) (due_lines bs cu') (fold (hear E t c) ls (se_story d)) = fold (hear E now clk) (due_lines bs ?cu) (se_story d)"
    using fold_hear_when [OF Cons.prems(1), of E t c ls now clk] by (simp add: due)
  then show ?case using ih by (simp add: v e)
qed simp

lemma closing_visits_heard:
  assumes "st_phase (se_story d) = PChoice" "cu_inode (se_cursor d) = Some i" "cu_offset (se_cursor d) \<le> length bs"
    and "length bs - cu_offset (se_cursor d) < length vs"
  shows "\<exists>d'. closing_visits E i bs vs d = (True, d') \<and> st_phase (se_story d') = PChoice
    \<and> se_story d' = fold (hear E now clk) (due_lines bs (se_cursor d)) (se_story d)"
  using assms
proof (induction vs arbitrary: d)
  case (Cons v vs)
  obtain t c x where v: "v = (t, c, x)" by (cases v)
  let ?l = "\<lparr>lo_inode = i, lo_bytes = bs @ x\<rparr>" and ?cu = "se_cursor d" and ?n = "length bs"
  let ?t = "Some \<lparr>cu_inode = Some i, cu_offset = ?n, cu_discard = False\<rparr>"
  obtain ls cu' where r: "read_from ?l ?n True ?cu = (ls, cu')" by (cases "read_from ?l ?n True ?cu")
  have n: "cu_offset ?cu \<le> ?n" "?n \<le> length (lo_bytes ?l)" using Cons.prems by auto
  let ?d = "d\<lparr>se_cursor := cu', se_story := fold (hear E t c) ls (se_story d)\<rparr>"
  have e: "consume E t c (Some ?l) ?t d = (?n \<le> cu_offset cu', ?d)"
    using consume_here [of d ?l ?n ?t False] Cons.prems(2) n r by simp
  note step = read_step [OF r n]
  have same: "seg a b (bs @ x) = seg a b bs" if "b \<le> ?n" for a b
    using seg_take [OF that, of a "bs @ x"] by simp
  have choice: "st_phase (se_story ?d) = PChoice" using Cons.prems(1) by (simp add: fold_hear_choice)
  show ?case
  proof (cases "cu_offset cu' = ?n")
    case True
    have "seg (cu_offset ?cu) ?n bs = drop (cu_offset ?cu) bs" by (simp add: seg_def)
    then have "ls = due_lines bs ?cu" using step(4) True same [of ?n] by (simp add: due_lines_def)
    then have "se_story ?d = fold (hear E now clk) (due_lines bs ?cu) (se_story d)"
      using fold_hear_when [OF Cons.prems(1)] by simp
    then show ?thesis using e True choice by (simp add: v)
  next
    case False
    have "drop (cu_offset ?cu) bs = seg (cu_offset ?cu) (cu_offset cu') (bs @ x) @ drop (cu_offset cu') bs"
      using drop_seg [OF step(2), of bs] same [OF step(3)] by simp
    then have due: "due_lines bs ?cu = ls @ due_lines bs cu'" using step(6) False by (simp add: due_lines_def)
    have "cu_offset ?cu < ?n" using step(2,3) False n by linarith
    then have "length bs - cu_offset cu' < length vs" using step(5) Cons.prems(4) False step(3) by simp
    then obtain d' where d': "closing_visits E i bs vs ?d = (True, d')" "st_phase (se_story d') = PChoice"
        "se_story d' = fold (hear E now clk) (due_lines bs cu') (se_story ?d)"
      using Cons.IH [of ?d] choice Cons.prems(2) step(1,3) by auto
    have "se_story d' = fold (hear E now clk) (due_lines bs ?cu) (se_story d)"
      using d'(3) fold_hear_when [OF Cons.prems(1), of E t c ls now clk] by (simp add: due)
    then show ?thesis using e False step(3) d'(1,2) by (simp add: v)
  qed
qed simp

end
