(* ===== verification/TrpgAir.thy ===== *)
theory TrpgAir
  imports TrpgReading
begin

text \<open>
  A session on the air: the worlds that ticks and restorations can reach when the process may die after
  any effect, and the invariant of what has been spoken.  A world has the one session file that is
  ticked.  A restoration writes the session into the directory of the new runtime, which is ticked from
  then on; the file of the old runtime stays where it is and is not ticked again, so it is left out.
\<close>

section \<open>Worlds\<close>

record trpg_world =
  tw_file :: "session option"
  tw_ledger :: "run_entry list"
  tw_spoken :: "(mark \<times> line) list"

fun take_effect :: "effect \<Rightarrow> trpg_world \<Rightarrow> trpg_world" where
  "take_effect (Saved d) w = w\<lparr>tw_file := Some d\<rparr>"
| "take_effect (Spoke m l b) w = w\<lparr>tw_spoken := tw_spoken w @ [(m, l)]\<rparr>"
| "take_effect (Recorded es) w = w\<lparr>tw_ledger := es\<rparr>"

definition tick_world :: "session_env \<Rightarrow> tick_args \<Rightarrow> run_identity \<Rightarrow> nat \<Rightarrow> trpg_world \<Rightarrow> trpg_world" where
  "tick_world E a expected n w = fold take_effect (take n (fst (tick_session E a expected (tw_file w) (tw_ledger w)))) w"

inductive aired :: "session_env \<Rightarrow> trpg_world \<Rightarrow> bool" for E where
  prepared: "legal_scenario sc \<Longrightarrow> aired E \<lparr>tw_file = Some (prepare_session b sc meta l), tw_ledger = es, tw_spoken = []\<rparr>"
| ticked: "aired E w \<Longrightarrow> aired E (tick_world E a expected n w)"
| restored: "aired E w \<Longrightarrow> restore_session E bound source live (tw_file w) = Inr d \<Longrightarrow> aired E (w\<lparr>tw_file := Some d\<rparr>)"

section \<open>The story in a session\<close>

lemma keeps_steps: "keeps m \<longleftrightarrow> steps (\<lambda>s t. story_ok s \<longrightarrow> story_ok t) m"
  by (simp add: keeps_def steps_def)

interpretation tale: step_order "\<lambda>s t. story_ok s \<longrightarrow> story_ok t"
  by unfold_locales auto

lemma keeps_observe: "keeps (observe_chat u words now clk)"
  unfolding observe_chat_def or_ignore_def keeps_steps
  by (intro tale.so_rules keeps_record_vote [unfolded keeps_steps] keeps_record_accusation [unfolded keeps_steps])

lemma keeps_move: "keeps (move_on p now clk)"
  unfolding move_on_def keeps_steps
  by (cases p; simp only: story_phase.case;
      intro tale.so_rules keeps_open_choice [unfolded keeps_steps] keeps_close_choice [unfolded keeps_steps]
        keeps_advance [unfolded keeps_steps] keeps_finish [unfolded keeps_steps] keeps_close_climax [unfolded keeps_steps])

lemma hear_ok: "story_ok s \<Longrightarrow> story_ok (hear E now clk x s)"
  using keeps_observe by (auto simp: hear_def keeps_def split: option.splits)

lemma hear_frame:
  "st_phase (hear E now clk x s) = st_phase s \<and> st_scene_id (hear E now clk x s) = st_scene_id s
     \<and> st_vote_window (hear E now clk x s) = st_vote_window s"
proof -
  have vote: "st_phase (snd (record_vote u n s)) = st_phase s \<and> st_scene_id (snd (record_vote u n s)) = st_scene_id s
      \<and> st_vote_window (snd (record_vote u n s)) = st_vote_window s" for u n
    by (auto simp: record_vote_def run_simps split: sum.splits prod.splits)
  have accuse: "st_phase (snd (record_accusation u x t now clk s)) = st_phase s
      \<and> st_scene_id (snd (record_accusation u x t now clk s)) = st_scene_id s
      \<and> st_vote_window (snd (record_accusation u x t now clk s)) = st_vote_window s" for u x t now clk
    by (auto simp: record_accusation_def run_simps split: sum.splits prod.splits)
  have ignore: "snd (or_ignore h m s) = snd (m s)" for h m
    by (auto simp: or_ignore_def attempt_def bnd_def split: prod.splits sum.splits)
  show ?thesis
    by (auto simp: hear_def observe_chat_def run_simps ignore vote accuse split: option.splits sum.splits)
qed

lemma fold_hear_frame:
  "story_ok s \<Longrightarrow> story_ok (fold (hear E now clk) xs s)"
  "st_phase (fold (hear E now clk) xs s) = st_phase s" "st_scene_id (fold (hear E now clk) xs s) = st_scene_id s"
  "st_vote_window (fold (hear E now clk) xs s) = st_vote_window s"
  by (induction xs arbitrary: s) (simp_all add: hear_ok hear_frame)

text \<open>A session whose story is sound and whose ballots have a window.\<close>

definition session_ok :: "session \<Rightarrow> bool" where
  "session_ok d \<longleftrightarrow> story_ok (se_story d) \<and> legal_scenario (se_scenario d)
     \<and> (st_phase (se_story d) = PIdle \<longleftrightarrow> se_phase_at d = None)
     \<and> (st_phase (se_story d) = PChoice \<longrightarrow> st_vote_window (se_story d) = Some vote_window_default)"

lemma consume_frame:
  assumes "consume E now clk l t d = (b, d')"
  shows "se_announced d' = se_announced d" "se_intro_sent d' = se_intro_sent d" "current_mark d' = current_mark d"
    "session_ok d \<Longrightarrow> session_ok d'" "st_phase (se_story d') = st_phase (se_story d)"
  using assms
  by (auto simp: consume_def Let_def current_mark_def session_ok_def fold_hear_frame split: option.splits if_splits prod.splits)

lemma run_storyD:
  assumes "run_story m d = Inr d'"
  obtains u s where "m (se_story d) = (Inr u, s)" "d' = d\<lparr>se_story := s\<rparr>"
  using assms by (auto simp: run_story_def split: prod.splits sum.splits)

lemma climax_window_pos:
  assumes "legal_scenario sc" "sc_climax sc = Some c"
  shows "1 \<le> cx_window c"
proof -
  obtain v where "validate_climax v = Inr c"
    using assms by (auto simp: legal_scenario_def validate_scenario_def after_Inr split: if_splits)
  then show ?thesis by (auto simp: validate_climax_def after_Inr dest!: int_ofD)
qed

lemma delay_pos:
  assumes "session_ok d" "phase_delay d = Inr w" "\<not> story_over (st_phase (se_story d))" "st_phase (se_story d) \<noteq> PIdle"
  shows "0 < w"
proof -
  obtain sc x where told: "told sc x (se_story d)" using assms(1,4) by (auto simp: session_ok_def story_ok_def)
  then have scen: "st_scenario (se_story d) = Some sc" "legal_scenario sc" by (simp_all add: told_def)
  have climax: "0 < w" if "st_phase (se_story d) = PClimax"
    using assms(2) that scen climax_window_pos [OF scen(2)]
    by (fastforce simp: phase_delay_def current_climax_def split: option.splits)
  have choice: "0 < w" if "st_phase (se_story d) = PChoice"
    using assms(1,2) that by (auto simp: phase_delay_def session_ok_def vote_window_default_def)
  show ?thesis
    using assms(2,3,4) climax choice
    by (cases "st_phase (se_story d)") (auto simp: phase_delay_def story_over_def)
qed

lemma move_on_phase:
  assumes "move_on (st_phase s) now clk s = (Inr u, t)" "\<not> story_over (st_phase s)" "st_phase s \<noteq> PIdle"
  shows "st_phase t \<noteq> PIdle" "st_phase t = PChoice \<longrightarrow> st_vote_window t = Some vote_window_default"
  using assms
  by (cases "st_phase s";
      auto simp: move_on_def story_over_def open_choice_def close_choice_def advance_scene_def close_climax_def finish_story_def
        whenM_def run_simps split: if_splits sum.splits option.splits prod.splits)+

section \<open>Progress\<close>

text \<open>A tick leaves what was announced; it stays at the mark, ends, or goes on to a later one.\<close>

definition moves :: "session \<Rightarrow> session \<Rightarrow> bool" where
  "moves d d' \<longleftrightarrow> se_announced d' = se_announced d \<and> se_intro_sent d' = se_intro_sent d \<and> session_ok d'
     \<and> st_phase (se_story d') \<noteq> PIdle
     \<and> (current_mark d' = current_mark d \<or> story_over (st_phase (se_story d')) \<and> se_phase_at d' = se_phase_at d
        \<or> (\<exists>p. se_phase_at d' = Some p \<and> (\<forall>q. se_phase_at d = Some q \<longrightarrow> q < p)))"

lemma keepsD: "keeps m \<Longrightarrow> m s = (r, t) \<Longrightarrow> story_ok s \<Longrightarrow> story_ok t"
  unfolding keeps_def by (metis snd_conv)

lemma activate_moves:
  assumes "session_ok d" "st_phase (se_story d) = PIdle" "activate E a d = Inr d'"
  shows "se_announced d' = se_announced d" "se_intro_sent d' = se_intro_sent d" "session_ok d'"
    "st_phase (se_story d') = PScene" "se_phase_at d' = Some (tk_now a)" "se_phase_at d = None"
proof -
  obtain d1 where d1: "run_story (start_story (scenario_json (se_scenario d)) (Some (tv_iso E (tk_now a))) (tk_clock a)) d = Inr d1"
      and d': "d' = d1\<lparr>se_activated_at := Some (tk_now a), se_phase_at := Some (tk_now a), se_cursor := cursor_at_end (tk_at_start a)\<rparr>"
    using assms(3) by (auto simp: activate_def after_Inr)
  from d1 obtain u s where s: "start_story (scenario_json (se_scenario d)) (Some (tv_iso E (tk_now a))) (tk_clock a) (se_story d) = (Inr u, s)"
      and d1s: "d1 = d\<lparr>se_story := s\<rparr>" by (rule run_storyD)
  have phase: "st_phase s = PScene"
    using s by (auto simp: start_story_def run_simps split: if_splits sum.splits prod.splits)
  have "story_ok s" using keepsD [OF keeps_start s] assms(1) by (simp add: session_ok_def)
  then show "se_announced d' = se_announced d" "se_intro_sent d' = se_intro_sent d" "session_ok d'"
    "st_phase (se_story d') = PScene" "se_phase_at d' = Some (tk_now a)" "se_phase_at d = None"
    using assms(1,2) phase by (auto simp: d' d1s session_ok_def)
qed

lemma proceed_moves:
  assumes "session_ok d" "\<not> story_over (st_phase (se_story d))" "st_phase (se_story d) \<noteq> PIdle" "proceed E a d = Inr d'"
  shows "moves d d'"
proof -
  obtain due where due: "is_due (tk_now a) d = Inr due"
    using assms(4) by (auto simp: proceed_def after_Inr)
  obtain b d1 where l: "listen E a due d = (b, d1)" by (cases "listen E a due d")
  have d1: "se_announced d1 = se_announced d" "se_intro_sent d1 = se_intro_sent d" "current_mark d1 = current_mark d" "session_ok d1"
  proof -
    have frame: "se_announced d1 = se_announced e \<and> se_intro_sent d1 = se_intro_sent e \<and> current_mark d1 = current_mark e \<and> (session_ok e \<longrightarrow> session_ok d1)"
      if "consume E (tk_now a) (tk_clock a) (tk_chat a) t e = (b, d1)" for t e
      using consume_frame [OF that] by blast
    have closing: "session_ok (d\<lparr>se_closing := t\<rparr>) = session_ok d" "current_mark (d\<lparr>se_closing := t\<rparr>) = current_mark d" for t
      by (simp_all add: session_ok_def current_mark_def)
    show "se_announced d1 = se_announced d" "se_intro_sent d1 = se_intro_sent d" "current_mark d1 = current_mark d" "session_ok d1"
      using l assms(1) closing by (auto simp: listen_def Let_def split: if_splits dest!: frame)
  qed
  have same: "st_phase (se_story d1) = st_phase (se_story d)" "se_phase_at d1 = se_phase_at d"
    using d1(3) by (simp_all add: current_mark_def)
  show ?thesis
  proof (cases "due \<and> b")
    case False
    then have "d' = d1" using assms(4) due l by (auto simp: proceed_def)
    then show ?thesis using d1 same assms(3) by (simp add: moves_def)
  next
    case True
    then obtain d2 where d2: "run_story (move_on (st_phase (se_story d1)) (tv_iso E (tk_now a)) (tk_clock a)) d1 = Inr d2"
        and d': "d' = (let e = d2\<lparr>se_phase_at := Some (tk_now a), se_closing := None\<rparr>
          in if listens (st_phase (se_story e)) then e\<lparr>se_cursor := cursor_at_end (tk_at_open a)\<rparr> else e)"
      using assms(4) due l by (auto simp: proceed_def after_Inr Let_def)
    from d2 obtain u s where s: "move_on (st_phase (se_story d1)) (tv_iso E (tk_now a)) (tk_clock a) (se_story d1) = (Inr u, s)"
        and d2s: "d2 = d1\<lparr>se_story := s\<rparr>" by (rule run_storyD)
    have ok: "story_ok s" using keepsD [OF keeps_move s] d1(4) by (simp add: session_ok_def)
    have phase: "st_phase s \<noteq> PIdle" "st_phase s = PChoice \<longrightarrow> st_vote_window s = Some vote_window_default"
      using move_on_phase [OF s] assms(2,3) same(1) by auto
    obtain w t where w: "phase_delay d = Inr w" "se_phase_at d = Some t" "w \<le> tk_now a - t"
      using due True by (auto simp: is_due_def after_Inr split: option.splits)
    have "0 < w" using delay_pos [OF assms(1) w(1) assms(2,3)] .
    then have later: "t < tk_now a" using w(3) by linarith
    show ?thesis
      using d1 ok phase later w(2) by (auto simp: d' d2s moves_def session_ok_def Let_def)
  qed
qed

lemma stop_moves:
  assumes "session_ok d" "st_phase (se_story d) \<noteq> PIdle" "run_story (stop_story E a r) d = Inr d'"
  shows "moves d d' \<and> story_over (st_phase (se_story d')) \<and> se_phase_at d' = se_phase_at d"
proof -
  from assms(3) obtain u s where s: "stop_story E a r (se_story d) = (Inr u, s)" "d' = d\<lparr>se_story := s\<rparr>" by (rule run_storyD)
  have "keeps (stop_story E a r)" by (simp add: stop_story_def keeps_timeout keeps_fail)
  then have ok: "story_ok s" using s(1) assms(1) by (auto simp: session_ok_def intro: keepsD)
  have "story_over (st_phase s)"
    using s(1) by (auto simp: stop_story_def timeout_story_def fail_story_def run_simps story_over_def split: if_splits prod.splits sum.splits)
  then show ?thesis
    using ok assms(1,2) s(2) by (auto simp: moves_def session_ok_def story_over_def)
qed

lemma progress_moves:
  assumes "session_ok d" "progress E a d = Inr d'"
  shows "moves d d'"
proof -
  have stay: "moves e e" if "session_ok e" "st_phase (se_story e) \<noteq> PIdle" for e
    using that by (simp add: moves_def)
  show ?thesis
  proof (cases "st_phase (se_story d) = PIdle")
    case True
    then obtain d1 where d1: "activate E a d = Inr d1"
        and rest: "(if story_over (st_phase (se_story d1)) then Inr d1
     else case tk_stop a of
       Some r \<Rightarrow> if r = [] then if True then Inr d1 else proceed E a d1 else run_story (stop_story E a r) d1
     | None \<Rightarrow> if True then Inr d1 else proceed E a d1) = Inr d'"
      using assms(2) by (auto simp: progress_def after_Inr)
    note act = activate_moves [OF assms(1) True d1]
    have "moves d1 d' \<and> se_phase_at d' = se_phase_at d1"
      using rest stay [of d1] act stop_moves [of d1 E a] by (auto split: option.splits if_splits)
    then show ?thesis using act by (auto simp: moves_def)
  next
    case False
    show ?thesis
    proof (cases "story_over (st_phase (se_story d))")
      case True
      then show ?thesis using False assms stay by (simp add: progress_def)
    next
      case live: False
      then show ?thesis
        using False assms proceed_moves [OF assms(1) live False] stop_moves [OF assms(1) False]
        by (auto simp: progress_def split: option.splits if_splits)
    qed
  qed
qed

section \<open>What has been spoken\<close>

definition intros :: "(mark \<times> line) list \<Rightarrow> nat" where
  "intros sp = length (filter (\<lambda>(m, l). l = IntroLine) sp)"

definition spoken_ok :: "session \<Rightarrow> (mark \<times> line) list \<Rightarrow> bool" where
  "spoken_ok d sp \<longleftrightarrow> distinct sp \<and> intros sp \<le> 1 \<and> (0 < intros sp \<longrightarrow> se_intro_sent d)
     \<and> (\<forall>(m, l)\<in>set sp. \<exists>q p. snd (snd m) = Some q \<and> se_phase_at d = Some p \<and> q \<le> p)
     \<and> (\<forall>(m, l)\<in>set sp. snd (snd m) = se_phase_at d \<longrightarrow> se_announced d = Some m)"

definition mark_ok :: "session \<Rightarrow> bool" where
  "mark_ok d \<longleftrightarrow> (\<forall>m. se_announced d = Some m \<longrightarrow> snd (snd m) = se_phase_at d \<longrightarrow> \<not> story_over (st_phase (se_story d)) \<longrightarrow> m = current_mark d)"

definition world_ok :: "trpg_world \<Rightarrow> bool" where
  "world_ok w \<longleftrightarrow> (\<exists>d. tw_file w = Some d \<and> session_ok d \<and> mark_ok d \<and> spoken_ok d (tw_spoken w))"

lemma spoken_ok_cong:
  "se_announced d' = se_announced d \<Longrightarrow> se_intro_sent d' = se_intro_sent d \<Longrightarrow> se_phase_at d' = se_phase_at d \<Longrightarrow>
   spoken_ok d' sp = spoken_ok d sp"
  by (simp add: spoken_ok_def)

lemma mark_at [simp]: "snd (snd (current_mark d)) = se_phase_at d"
  by (simp add: current_mark_def)

lemma spoken_okD:
  assumes "spoken_ok d sp" "(m, l) \<in> set sp"
  shows "\<exists>q p. snd (snd m) = Some q \<and> se_phase_at d = Some p \<and> q \<le> p"
    and "snd (snd m) = se_phase_at d \<Longrightarrow> se_announced d = Some m"
  using assms unfolding spoken_ok_def by blast+

text \<open>A tick that has nothing to announce, or ends the story.\<close>

lemma quiet_ok:
  assumes "moves d d'" "mark_ok d" "spoken_ok d sp"
    and q: "story_over (st_phase (se_story d')) \<or> se_announced d' = Some (current_mark d')"
  shows "mark_ok d'" "spoken_ok d' sp"
proof -
  show "mark_ok d'" using q by (auto simp: mark_ok_def)
  note same = assms(1) [unfolded moves_def]
  show "spoken_ok d' sp"
  proof (cases "se_phase_at d' = se_phase_at d")
    case True
    then show ?thesis using same assms(3) spoken_ok_cong [of d' d] by blast
  next
    case False
    then obtain p where p: "se_phase_at d' = Some p" "\<forall>q. se_phase_at d = Some q \<longrightarrow> q < p"
      using same by (auto simp: current_mark_def)
    have old: "\<exists>q. snd (snd m) = Some q \<and> q < p" if "(m, l) \<in> set sp" for m l
      using spoken_okD(1) [OF assms(3) that] p(2) by auto
    have "\<forall>(m, l)\<in>set sp. \<exists>q p. snd (snd m) = Some q \<and> se_phase_at d' = Some p \<and> q \<le> p"
      using old p(1) by fastforce
    moreover have "\<forall>(m, l)\<in>set sp. snd (snd m) = se_phase_at d' \<longrightarrow> se_announced d' = Some m"
      using old p(1) by fastforce
    ultimately show ?thesis
      using assms(3) same by (simp add: spoken_ok_def)
  qed
qed

text \<open>A tick that announces: nothing has been spoken at the mark.\<close>

lemma announce_mark_ok:
  assumes "moves d d'" "mark_ok d" "spoken_ok d sp"
    and q: "\<not> story_over (st_phase (se_story d'))" "se_announced d' \<noteq> Some (current_mark d')"
  shows "(m, l) \<in> set sp \<Longrightarrow> snd (snd m) \<noteq> se_phase_at d'"
    and "spoken_ok (d'\<lparr>se_announced := Some (current_mark d'), se_intro_sent := True\<rparr>) sp"
proof -
  note same = assms(1) [unfolded moves_def]
  have new: "snd (snd m) \<noteq> se_phase_at d' \<and> (\<exists>q p. snd (snd m) = Some q \<and> se_phase_at d' = Some p \<and> q \<le> p)" if said: "(m, l) \<in> set sp" for m l
  proof -
    obtain q p where qp: "snd (snd m) = Some q" "se_phase_at d = Some p" "q \<le> p"
      using spoken_okD(1) [OF assms(3) said] by blast
    have here: "snd (snd m) = se_phase_at d \<Longrightarrow> se_announced d = Some m"
      by (rule spoken_okD(2) [OF assms(3) said])
    from same q(1) consider "current_mark d' = current_mark d" | p' where "se_phase_at d' = Some p'" "p < p'"
      using qp(2) by auto
    then show ?thesis
    proof cases
      case 1
      then have phase: "se_phase_at d' = se_phase_at d" "st_phase (se_story d') = st_phase (se_story d)" by (simp_all add: current_mark_def)
      have "snd (snd m) \<noteq> se_phase_at d"
      proof
        assume "snd (snd m) = se_phase_at d"
        then have "se_announced d = Some m" "m = current_mark d"
          using here assms(2) q(1) phase(2) by (auto simp: mark_ok_def)
        then show False using q(2) same 1 by simp
      qed
      then show ?thesis using phase qp by simp
    next
      case 2
      then show ?thesis using qp by auto
    qed
  qed
  show "(m, l) \<in> set sp \<Longrightarrow> snd (snd m) \<noteq> se_phase_at d'" using new by blast
  show "spoken_ok (d'\<lparr>se_announced := Some (current_mark d'), se_intro_sent := True\<rparr>) sp"
  proof -
    have "\<forall>(m, l)\<in>set sp. \<exists>q p. snd (snd m) = Some q \<and> se_phase_at d' = Some p \<and> q \<le> p" using new by blast
    moreover have "\<forall>(m, l)\<in>set sp. snd (snd m) \<noteq> se_phase_at d'" using new by blast
    ultimately show ?thesis using assms(3) by (auto simp: spoken_ok_def)
  qed
qed

fun all_along :: "(trpg_world \<Rightarrow> bool) \<Rightarrow> effect list \<Rightarrow> trpg_world \<Rightarrow> bool" where
  "all_along P [] w = P w"
| "all_along P (e # es) w = (P w \<and> all_along P es (take_effect e w))"

lemma all_along_take: "all_along P es w \<Longrightarrow> P (fold take_effect (take n es) w)"
proof (induction es arbitrary: n w)
  case (Cons e es)
  then show ?case by (cases n) simp_all
qed simp

lemma all_along_append: "all_along P es w \<Longrightarrow> all_along P fs (fold take_effect es w) \<Longrightarrow> all_along P (es @ fs) w"
  by (induction es arbitrary: w) simp_all

text \<open>Speaking the lines of a mark one after the other.\<close>

lemma speak_ok:
  assumes "tw_file w = Some d" "session_ok d" "mark_ok d" "spoken_ok d (tw_spoken w)"
    and "se_announced d = Some m" "snd (snd m) = se_phase_at d" "se_phase_at d \<noteq> None" "se_intro_sent d"
    and "distinct ls" "\<forall>l\<in>set ls. (m, l) \<notin> set (tw_spoken w)" "IntroLine \<in> set ls \<longrightarrow> intros (tw_spoken w) = 0"
  shows "all_along world_ok (List.map (\<lambda>l. Spoke m l b) ls) w"
  using assms
proof (induction ls arbitrary: w)
  case Nil
  then show ?case by (auto simp: world_ok_def)
next
  case (Cons l ls)
  let ?w = "w\<lparr>tw_spoken := tw_spoken w @ [(m, l)]\<rparr>"
  have sp: "spoken_ok d (tw_spoken ?w)"
    using Cons.prems by (auto simp: spoken_ok_def intros_def split: prod.splits)
  have "intros (tw_spoken ?w) = 0" if "IntroLine \<in> set ls"
    using Cons.prems that by (auto simp: intros_def)
  then have "all_along world_ok (List.map (\<lambda>l. Spoke m l b) ls) ?w"
    using Cons.prems sp by (intro Cons.IH) auto
  moreover have "world_ok w" using Cons.prems(1-4) by (auto simp: world_ok_def)
  ultimately show ?case by simp
qed

lemma announce_world:
  assumes w: "tw_file w = Some d" "session_ok d" "mark_ok d" "spoken_ok d (tw_spoken w)"
    and m: "moves d d'" and r: "announce_mark a d' = (es, res)"
  shows "all_along world_ok es w \<and> (\<forall>d''. res = Inr d'' \<longrightarrow> session_ok d'' \<and> mark_ok d'' \<and> spoken_ok d'' (tw_spoken (fold take_effect es w))
    \<and> st_phase (se_story d'') = st_phase (se_story d'))"
proof (cases "story_over (st_phase (se_story d')) \<or> se_announced d' = Some (current_mark d')")
  case True
  then have "es = []" "res = Inr d'" using r by (auto simp: announce_mark_def)
  then show ?thesis using quiet_ok [OF m w(3,4) True] w m by (auto simp: world_ok_def moves_def)
next
  case False
  let ?m = "current_mark d'" and ?d = "d'\<lparr>se_announced := Some (current_mark d'), se_intro_sent := True\<rparr>"
  have live: "\<not> story_over (st_phase (se_story d'))" "se_announced d' \<noteq> Some ?m" using False by auto
  have new: "spoken_ok ?d (tw_spoken w)" using announce_mark_ok(2) [OF m w(3,4) live] .
  have unsaid: "(?m, l) \<notin> set (tw_spoken w)" for l
    using announce_mark_ok(1) [OF m w(3,4) live, of ?m l] by auto
  have cur: "current_mark ?d = ?m" by (simp add: current_mark_def)
  have ok: "session_ok ?d" "mark_ok ?d" "se_phase_at ?d \<noteq> None"
    using m cur by (auto simp: moves_def session_ok_def mark_ok_def)
  let ?w = "w\<lparr>tw_file := Some ?d\<rparr>"
  have now: "world_ok w" "world_ok ?w" using w new ok by (auto simp: world_ok_def)
  show ?thesis
  proof (cases "public_page (tk_wall a) ?d")
    case (Inl x)
    then have "es = [Saved ?d]" "res = Inl x" using r False by (auto simp: announce_mark_def Let_def)
    then show ?thesis using now by simp
  next
    case (Inr v)
    let ?ls = "(if se_intro_sent d' then [] else [IntroLine]) @ lines_for ?d v"
    have es: "es = Saved ?d # List.map (\<lambda>l. Spoke ?m l (tk_audio a)) ?ls" "res = Inr ?d"
      using r False Inr by (auto simp: announce_mark_def Let_def cur)
    have no_intro: "IntroLine \<notin> set (lines_for ?d v)" and one: "distinct (lines_for ?d v)"
      by (auto simp: lines_for_def split: story_phase.splits option.splits)
    have "intros (tw_spoken w) = 0" if "\<not> se_intro_sent d'"
      using that m w(4) by (auto simp: moves_def spoken_ok_def)
    then have along: "all_along world_ok (List.map (\<lambda>l. Spoke ?m l (tk_audio a)) ?ls) ?w"
      using new unsaid ok no_intro one by (intro speak_ok [of _ ?d]) auto
    have after: "tw_file (fold take_effect (List.map (\<lambda>l. Spoke ?m l (tk_audio a)) ls) u) = tw_file u" for ls u
      by (induction ls arbitrary: u) simp_all
    have "world_ok (fold take_effect (List.map (\<lambda>l. Spoke ?m l (tk_audio a)) ?ls) ?w)"
      using all_along_take [OF along, of "length ?ls"] by simp
    then have "spoken_ok ?d (tw_spoken (fold take_effect es w))"
      using after [of ?ls ?w] by (auto simp: world_ok_def es(1))
    then show ?thesis using along now ok es by simp
  qed
qed

lemma close_book_frame:
  assumes "close_book E a ledger d = (fs, res)"
  shows "fs = [] \<or> (\<exists>es. fs = [Recorded es])"
    and "res = Inr d' \<Longrightarrow> d' = d \<or> d' = d\<lparr>se_recorded := True\<rparr>"
  using assms by (auto simp: close_book_def split: if_splits sum.splits prod.splits)

lemma ledger_ok: "world_ok (w\<lparr>tw_ledger := es\<rparr>) = world_ok w"
  by (simp add: world_ok_def)

lemma tick_world_ok:
  assumes "world_ok w"
  shows "world_ok (tick_world E a expected n w)"
proof -
  obtain d where d: "tw_file w = Some d" "session_ok d" "mark_ok d" "spoken_ok d (tw_spoken w)"
    using assms by (auto simp: world_ok_def)
  let ?r = "after (load_session E False False expected (tw_file w)) (\<lambda>d. after (claim_request (tk_request a) d) (progress E a))"
  have "all_along world_ok (fst (tick_session E a expected (tw_file w) (tw_ledger w))) w"
  proof (cases ?r)
    case (Inl x)
    then show ?thesis using assms by (simp add: tick_session_def)
  next
    case (Inr d2)
    then obtain q where q: "claim_request (tk_request a) d = Inr q" "progress E a q = Inr d2"
      using d(1) by (auto simp: load_session_def after_Inr Let_def split: if_splits)
    have qd: "q = d \<or> (\<exists>r. q = d\<lparr>se_owner_request := r\<rparr>)" using q(1) by (auto simp: claim_request_def split: option.splits if_splits)
    then have "session_ok q" using d(2) by (auto simp: session_ok_def)
    from progress_moves [OF this q(2)] qd have m: "moves d d2" by (auto simp: moves_def current_mark_def)
    obtain es res where a: "announce_mark a d2 = (es, res)" by (cases "announce_mark a d2")
    note aw = announce_world [OF d m a]
    show ?thesis
    proof (cases res)
      case inl: (Inl x)
      then show ?thesis using aw Inr a by (simp add: tick_session_def)
    next
      case inr: (Inr d3)
      then have d3: "session_ok d3" "mark_ok d3" "spoken_ok d3 (tw_spoken (fold take_effect es w))" using aw by auto
      obtain fs res' where c: "close_book E a (tw_ledger w) d3 = (fs, res')" by (cases "close_book E a (tw_ledger w) d3")
      have mid: "world_ok (fold take_effect es w)" using all_along_take [of world_ok es w "length es"] aw by simp
      have fs: "all_along world_ok fs u \<and> world_ok (fold take_effect fs u)
          \<and> tw_spoken (fold take_effect fs u) = tw_spoken u" if "world_ok u" for u
        using close_book_frame(1) [OF c] that ledger_ok by auto
      have fin: "world_ok (u\<lparr>tw_file := Some d4\<rparr>)" if "res' = Inr d4" "tw_spoken u = tw_spoken (fold take_effect es w)" for u d4
      proof -
        have "d4 = d3 \<or> d4 = d3\<lparr>se_recorded := True\<rparr>" using close_book_frame(2) [OF c that(1)] .
        then have "session_ok d4 \<and> mark_ok d4 \<and> spoken_ok d4 (tw_spoken u)"
          using d3 that(2) by (auto simp: session_ok_def mark_ok_def spoken_ok_def current_mark_def)
        then show ?thesis by (simp add: world_ok_def)
      qed
      have t: "fst (tick_session E a expected (tw_file w) (tw_ledger w)) = (case res' of Inl x \<Rightarrow> es @ fs | Inr d4 \<Rightarrow> es @ fs @ [Saved d4])"
        using Inr a inr c by (simp add: tick_session_def split: sum.split)
      show ?thesis
      proof (cases res')
        case Inl
        then show ?thesis using aw fs [OF mid] unfolding t by (auto intro: all_along_append)
      next
        case (Inr d4)
        have "all_along world_ok [Saved d4] (fold take_effect fs (fold take_effect es w))"
          using fs [OF mid] fin [OF Inr] by simp
        then have "all_along world_ok (fs @ [Saved d4]) (fold take_effect es w)"
          using fs [OF mid] by (intro all_along_append) auto
        then show ?thesis using aw unfolding t Inr by (auto intro: all_along_append)
      qed
    qed
  qed
  then show ?thesis unfolding tick_world_def by (rule all_along_take)
qed

lemma restored_ok:
  assumes "world_ok w" "restore_session E bound source live (tw_file w) = Inr d"
  shows "world_ok (w\<lparr>tw_file := Some d\<rparr>)"
proof -
  obtain e where e: "tw_file w = Some e" "session_ok e" "mark_ok e" "spoken_ok e (tw_spoken w)"
    using assms(1) by (auto simp: world_ok_def)
  have "se_story d = se_story e \<and> se_scenario d = se_scenario e \<and> se_phase_at d = se_phase_at e
      \<and> se_announced d = se_announced e \<and> se_intro_sent d = se_intro_sent e"
    using assms(2) e(1) by (auto simp: restore_session_def load_session_def after_Inr Let_def split: if_splits)
  then show ?thesis
    using e(2-4) by (simp add: world_ok_def session_ok_def mark_ok_def spoken_ok_def current_mark_def)
qed

lemma aired_ok: "aired E w \<Longrightarrow> world_ok w"
proof (induction rule: aired.induct)
  case (prepared sc b meta l es)
  then show ?case
    by (simp add: world_ok_def session_ok_def mark_ok_def spoken_ok_def prepare_session_def new_story_def story_ok_def intros_def)
qed (simp_all add: tick_world_ok restored_ok)

end
