(* ===== verification/TrpgProperties.thy ===== *)
theory TrpgProperties
  imports TrpgAir
begin

text \<open>
  The properties of the role-playing corner: the invariant of the story over any calls, who decides a
  vote, the chat that reaches a ballot, what is spoken on the air; and runs that show where the code
  falls short.
\<close>

section \<open>A story\<close>

definition sample_scene :: "string \<Rightarrow> (string \<times> jval) list \<Rightarrow> jval" where
  "sample_scene i nx = VObj [(''id'', VStr i), (''text'', VStr ''A door.''), (''choices'', VArr [VStr ''open'', VStr ''leave'']), (''next'', VObj nx)]"

definition sample_raw :: jval where
  "sample_raw = VObj [(''id'', VStr ''manor''), (''title'', VStr ''The manor''),
     (''scenes'', VArr [sample_scene ''hall'' [(''1'', VStr ''attic'')], sample_scene ''attic'' []]),
     (''climax'', VObj [(''suspects'', VArr [VStr ''ann'', VStr ''bob ray'']), (''answer'', VStr ''bob ray'')])]"

definition sample_scenario :: scenario where
  "sample_scenario = \<lparr>sc_id = ''manor'', sc_title = ''The manor'', sc_genre = ''both'', sc_minutes = 8,
     sc_scenes = [\<lparr>sn_id = ''hall'', sn_words = ''A door.'', sn_choices = [''open'', ''leave''], sn_next = [(''1'', Some ''attic'')]\<rparr>,
       \<lparr>sn_id = ''attic'', sn_words = ''A door.'', sn_choices = [''open'', ''leave''], sn_next = []\<rparr>],
     sc_climax = Some \<lparr>cx_suspects = [''ann'', ''bob ray''], cx_answer = ''bob ray'', cx_trick = [], cx_window = 120\<rparr>,
     sc_first = ''hall''\<rparr>"

lemma dec_small: "dec (Suc 0) = ''1''" "dec 2 = ''2''"
  by (simp_all add: dec.simps digit_char_def char_of_def bit_simps)

lemma choice_numbers: "dec ` {Suc 0..Suc (Suc 0)} = {''1'', ''2''}"
proof -
  have "{Suc 0..Suc (Suc 0)} = {Suc 0, 2}" by auto
  then show ?thesis by (simp only: image_insert image_empty dec_small)
qed

lemmas scenario_simps = validate_scenario_def validate_climax_def text_of_def int_of_def dict_of_def list_of_def vget_def vget_or_def
  trick_of_def next_of_def genre_of_def genres_def next_known_def max_text_def max_title_def max_scenario_id_def max_scenes_def
  max_scene_text_def max_choices_def min_choices_def max_choice_text_def max_trick_text_def max_suspects_def max_window_def
  max_minutes_def accuse_window_default_def choice_numbers

lemma sample_checks: "validate_scenario sample_raw = Inr sample_scenario"
  by (simp add: sample_raw_def sample_scene_def sample_scenario_def scenario_simps)

definition sample_choice :: story where
  "sample_choice = snd (open_choice 60 None ''t'' (snd (start_story sample_raw None ''t'' new_story)))"

lemma sample_choice_ok: "story_ok sample_choice"
proof -
  have "story_ok new_story" by (simp add: story_ok_def new_story_def)
  then have "story_ok (snd (start_story sample_raw None ''t'' new_story))" using keeps_start unfolding keeps_def by blast
  then show ?thesis unfolding sample_choice_def using keeps_open_choice unfolding keeps_def by blast
qed

lemma sample_choice_parts:
  "st_phase sample_choice = PChoice" "current_scene sample_choice = Inr (hd (sc_scenes sample_scenario))"
  "st_votes sample_choice = []" "st_vote_order sample_choice = []"
  by (simp_all add: sample_choice_def start_story_def open_choice_def run_simps sample_checks new_story_def max_window_def
      current_scene_def sample_scenario_def)

section \<open>Calls\<close>

datatype story_call = CStart jval "string option" | COpen int "string option" | CVote string int | CClose
  | CAdvance "string option" | COpenClimax int "string option" | CAccuse string string string "string option"
  | CCloseClimax | CFinish string "string option" | CFail string "string option" | CTimeout "string option"
  | CReset | CHear string string "string option"

fun perform_call :: "string \<Rightarrow> story_call \<Rightarrow> unit telling" where
  "perform_call clk (CStart raw now) = start_story raw now clk"
| "perform_call clk (COpen w now) = open_choice w now clk"
| "perform_call clk (CVote u n) = record_vote u n"
| "perform_call clk CClose = close_choice clk"
| "perform_call clk (CAdvance i) = advance_scene i clk"
| "perform_call clk (COpenClimax w now) = open_climax w now clk"
| "perform_call clk (CAccuse u x t now) = record_accusation u x t now clk"
| "perform_call clk CCloseClimax = close_climax clk"
| "perform_call clk (CFinish oc now) = finish_story oc now clk"
| "perform_call clk (CFail r now) = fail_story r now clk"
| "perform_call clk (CTimeout now) = timeout_story now clk"
| "perform_call clk CReset = reset_story"
| "perform_call clk (CHear u words now) = thn (observe_chat u words now clk) (ret ())"

lemma keeps_call: "keeps (perform_call clk c)"
proof (cases c)
  case (CHear u words now)
  have "keeps (thn (observe_chat u words now clk) (ret ()))"
    unfolding keeps_steps by (intro tale.so_thn tale.so_ret keeps_observe [unfolded keeps_steps])
  then show ?thesis by (simp add: CHear)
qed (simp_all add: keeps_start keeps_open_choice keeps_record_vote keeps_close_choice keeps_advance keeps_open_climax
    keeps_record_accusation keeps_close_climax keeps_finish keeps_fail keeps_timeout keeps_reset)

text \<open>C34: Whatever calls are made, in any order and with any arguments, those that raise included, the story
  is idle or told soundly: its scenario checks again, the scene on show is one of it, every voter is in the
  one bucket of the last vote and no bucket is empty or of a choice the scene does not have, a tally counts
  the buckets, only suspects are accused, the limit on participants holds, and after the reveal exactly the
  users who named the answer have ten points.\<close>

theorem story_sound: "story_ok (fold (\<lambda>(clk, c) s. snd (perform_call clk c s)) calls new_story)"
proof -
  have "story_ok (fold (\<lambda>(clk, c) s. snd (perform_call clk c s)) calls s)" if "story_ok s" for s
    using that
  proof (induction calls arbitrary: s)
    case (Cons p calls)
    obtain clk c where p: "p = (clk, c)" by (cases p)
    have "story_ok (snd (perform_call clk c s))" using keeps_call Cons.prems by (auto simp: keeps_def)
    then show ?case using Cons.IH by (simp add: p)
  qed simp
  then show ?thesis by (simp add: story_ok_def new_story_def)
qed

section \<open>Votes\<close>

definition valid_votes :: "scene \<Rightarrow> (string \<times> int) list \<Rightarrow> bool" where
  "valid_votes x vs \<longleftrightarrow> list_all (\<lambda>(u, n). user_of u = Inr () \<and> 1 \<le> n \<and> n \<le> int (length (sn_choices x))) vs"

definition keyed :: "(string \<times> int) list \<Rightarrow> (string \<times> string) list" where
  "keyed vs = List.map (\<lambda>(u, n). (u, dec (nat n))) vs"

lemma record_vote_run:
  assumes "st_phase s = PChoice" "current_scene s = Inr x" "user_of u = Inr ()" "1 \<le> n" "n \<le> int (length (sn_choices x))"
    "has_room u (st_vote_order s)"
  shows "snd (record_vote u n s) = (case cast_vote u (dec (nat n)) (st_votes s, st_vote_order s) of (votes, order) \<Rightarrow>
    s\<lparr>st_votes := votes, st_vote_order := order\<rparr>)"
  using assms by (simp add: record_vote_def run_simps split: prod.split)

lemma votes_run:
  assumes "st_phase s = PChoice" "current_scene s = Inr x" "valid_votes x vs" "length (st_vote_order s) + length vs \<le> max_participants"
  shows "fold (\<lambda>(u, n) s. snd (record_vote u n s)) vs s =
    (case fold (\<lambda>(u, k). cast_vote u k) (keyed vs) (st_votes s, st_vote_order s) of (votes, order) \<Rightarrow> s\<lparr>st_votes := votes, st_vote_order := order\<rparr>)"
  using assms
proof (induction vs arbitrary: s)
  case (Cons v vs)
  obtain u n where v: "v = (u, n)" by (cases v)
  obtain votes order where c: "cast_vote u (dec (nat n)) (st_votes s, st_vote_order s) = (votes, order)"
    by (cases "cast_vote u (dec (nat n)) (st_votes s, st_vote_order s)")
  let ?t = "s\<lparr>st_votes := votes, st_vote_order := order\<rparr>"
  have "has_room u (st_vote_order s)" using Cons.prems(4) by (simp add: has_room_def)
  then have t: "snd (record_vote u n s) = ?t"
    using record_vote_run [of s x u n] Cons.prems c by (simp add: v valid_votes_def)
  have "length order \<le> Suc (length (st_vote_order s))" using c by (auto simp: cast_vote_def length_update)
  then have "fold (\<lambda>(u, n) s. snd (record_vote u n s)) vs ?t =
    (case fold (\<lambda>(u, k). cast_vote u k) (keyed vs) (st_votes ?t, st_vote_order ?t) of (votes, order) \<Rightarrow> ?t\<lparr>st_votes := votes, st_vote_order := order\<rparr>)"
    using Cons.prems by (intro Cons.IH) (auto simp: v valid_votes_def)
  then show ?case by (simp add: v t c keyed_def split: prod.split)
qed (simp add: keyed_def)

lemma dec_inject: "dec m = dec n \<longleftrightarrow> m = n"
  by (metis undec_dec)

definition supporters :: "(string \<times> int) list \<Rightarrow> nat \<Rightarrow> nat" where
  "supporters vs i = card {u. map_of (rev vs) u = Some (int i)}"

lemma map_of_keyed: "map_of (rev (keyed vs)) u = map_option (\<lambda>n. dec (nat n)) (map_of (rev vs) u)"
proof -
  have "rev (keyed vs) = List.map (\<lambda>(u, n). (u, dec (nat n))) (rev vs)" by (simp add: keyed_def rev_map)
  then show ?thesis by (simp add: map_of_map)
qed

lemma valid_last:
  assumes "valid_votes x vs" "map_of (rev vs) u = Some n"
  shows "1 \<le> n" "n \<le> int (length (sn_choices x))"
proof -
  have "(u, n) \<in> set vs" using map_of_SomeD [OF assms(2)] by simp
  then show "1 \<le> n" "n \<le> int (length (sn_choices x))" using assms(1) by (auto simp: valid_votes_def list_all_iff)
qed

lemma keyed_count:
  assumes "valid_votes x vs"
  shows "card {u. map_of (rev (keyed vs)) u = Some (dec i)} = supporters vs i"
proof -
  note pos = valid_last(1) [OF assms]
  have "map_of (rev (keyed vs)) u = Some (dec i) \<longleftrightarrow> map_of (rev vs) u = Some (int i)" for u
    using pos [of u] by (fastforce simp: map_of_keyed dec_inject)
  then show ?thesis by (simp add: supporters_def)
qed

lemma supporters_none:
  assumes "valid_votes x vs" "\<And>i. 1 \<le> i \<Longrightarrow> i \<le> length (sn_choices x) \<Longrightarrow> supporters vs i = 0"
  shows "vs = []"
proof (rule ccontr)
  assume "vs \<noteq> []"
  then obtain u where "u \<in> fst ` set vs" by (cases vs) auto
  then have "map_of (rev vs) u \<noteq> None" by (simp add: map_of_eq_None_iff)
  then obtain k where k: "map_of (rev vs) u = Some k" by blast
  then have "1 \<le> k" "k \<le> int (length (sn_choices x))" using valid_last [OF assms(1)] by blast+
  then have i: "1 \<le> nat k" "nat k \<le> length (sn_choices x)" "int (nat k) = k" by auto
  have "finite {u. map_of (rev vs) u = Some k}"
    by (rule finite_subset [of _ "dom (map_of (rev vs))"]) (auto simp: finite_dom_map_of)
  moreover have "u \<in> {u. map_of (rev vs) u = Some k}" using k by simp
  ultimately have "0 < supporters vs (nat k)" unfolding supporters_def i(3) by (auto simp: card_gt_0_iff)
  then show False using assms(2) [OF i(1,2)] by simp
qed

text \<open>C35: The crowd decides: after any valid votes in an open ballot and its closing the winner is the least
  choice that most users have as their last vote, each user counting once, and there is no winner only if
  nobody voted.\<close>

theorem crowd_decides:
  assumes "story_ok s" "st_phase s = PChoice" "current_scene s = Inr x" "st_votes s = []" "st_vote_order s = []"
    and "valid_votes x vs" "length vs \<le> max_participants"
  shows "\<exists>w. winning_choice (snd (close_choice clk (fold (\<lambda>(u, n) s. snd (record_vote u n s)) vs s))) = Inr w
    \<and> (case w of None \<Rightarrow> vs = []
       | Some i \<Rightarrow> 1 \<le> i \<and> i \<le> length (sn_choices x) \<and> 0 < supporters vs i
           \<and> (\<forall>j\<in>{1..length (sn_choices x)}. supporters vs j \<le> supporters vs i) \<and> (\<forall>j\<in>{1..<i}. supporters vs j < supporters vs i))"
proof -
  obtain votes order where b: "fold (\<lambda>(u, k). cast_vote u k) (keyed vs) ([], []) = (votes, order)"
    by (cases "fold (\<lambda>(u, k). cast_vote u k) (keyed vs) ([], [])")
  let ?v = "s\<lparr>st_votes := votes, st_vote_order := order\<rparr>"
  have run: "fold (\<lambda>(u, n) s. snd (record_vote u n s)) vs s = ?v"
    using votes_run [OF assms(2,3,6)] assms(4,5,7) b by simp
  let ?t = "snd (close_choice clk ?v)"
  have t: "st_tally ?t = Some (tally_of x votes)" "current_scene ?t = Inr x"
    using assms(2,3) by (simp_all add: close_choice_def run_simps)
  have count: "votes_for votes (dec i) = supporters vs i" for i
    using box.tally_poll [of "([], [])" "keyed vs" "dec i"] b keyed_count [OF assms(6)] by (simp add: tidy_empty)
  let ?f = "\<lambda>i. case map_of (tally_of x votes) (dec i) of None \<Rightarrow> 0 | Some n \<Rightarrow> n"
  let ?m = "length (sn_choices x)"
  have f: "?f i = supporters vs i" if "1 \<le> i" "i \<le> ?m" for i
  proof -
    have "map_of (List.map (\<lambda>k. (k, votes_for votes k)) ks) k = (if k \<in> set ks then Some (votes_for votes k) else None)" for ks k
      by (induction ks) auto
    moreover have "i \<in> {1..<Suc ?m}" using that by simp
    then have "dec i \<in> set (choice_keys x)" unfolding choice_keys_def set_map set_upt by (rule imageI)
    ultimately show ?thesis by (simp add: tally_of_def count)
  qed
  have win: "winning_choice ?t = Inr (case best_of ?f [1..<Suc ?m] None of None \<Rightarrow> None | Some (i, n) \<Rightarrow> if n = 0 then None else Some i)"
    by (simp add: winning_choice_def t)
  show ?thesis
  proof (cases "best_of ?f [1..<Suc ?m] None")
    case None
    then have "?m = 0" using best_of_some [of ?f "[2..<Suc ?m]" "(1, ?f 1)"]
      by (cases ?m) (auto simp: upt_rec numeral_2_eq_2)
    then have "vs = []" using supporters_none [OF assms(6)] by auto
    then show ?thesis unfolding run win None by simp
  next
    case (Some p)
    obtain i n where p: "p = (i, n)" by (cases p)
    note best = best_of_least [OF Some [unfolded p]]
    have i: "1 \<le> i" "i \<le> ?m" "n = supporters vs i" using best f [of i] by auto
    have most: "supporters vs j \<le> supporters vs i" if "1 \<le> j" "j \<le> ?m" for j
      using best f [OF that] f [OF i(1,2)] that by (metis (no_types, lifting))
    have less: "supporters vs j < supporters vs i" if "1 \<le> j" "j < i" for j
      using best f [of j] f [OF i(1,2)] that i(2) by (metis (no_types, lifting) le_trans less_imp_le)
    show ?thesis
    proof (cases "n = 0")
      case True
      then have "vs = []" using supporters_none [OF assms(6)] most i(3) by force
      then show ?thesis unfolding run win Some p using True by simp
    next
      case False
      then show ?thesis unfolding run win Some p using i most less by auto
    qed
  qed
qed

lemma crowd_decides_witness:
  "\<exists>w. winning_choice (snd (close_choice ''t'' (fold (\<lambda>(u, n) s. snd (record_vote u n s)) [(''u1'', 1), (''u2'', 2), (''u1'', 2)] sample_choice)))
      = Inr (Some w) \<and> 1 \<le> w \<and> w \<le> 2 \<and> 0 < supporters [(''u1'', 1), (''u2'', 2), (''u1'', 2)] w"
proof -
  let ?vs = "[(''u1'', 1), (''u2'', 2), (''u1'', 2)] :: (string \<times> int) list"
  have vs: "valid_votes (hd (sc_scenes sample_scenario)) ?vs" "length ?vs \<le> max_participants"
    by (simp_all add: valid_votes_def sample_scenario_def user_of_def max_user_id_def max_participants_def)
  have two: "length (sn_choices (hd (sc_scenes sample_scenario))) = 2" by (simp add: sample_scenario_def)
  obtain w where w: "winning_choice (snd (close_choice ''t'' (fold (\<lambda>(u, n) s. snd (record_vote u n s)) ?vs sample_choice))) = Inr w"
      "case w of None \<Rightarrow> ?vs = [] | Some i \<Rightarrow> 1 \<le> i \<and> i \<le> 2 \<and> 0 < supporters ?vs i
         \<and> (\<forall>j\<in>{1..2}. supporters ?vs j \<le> supporters ?vs i) \<and> (\<forall>j\<in>{1..<i}. supporters ?vs j < supporters ?vs i)"
    using crowd_decides [OF sample_choice_ok sample_choice_parts vs, of "''t''"] unfolding two by (elim exE conjE)
  then show ?thesis by (cases w) auto
qed

section \<open>Chat\<close>

definition trpg_sample_env :: session_env where
  "trpg_sample_env = \<lparr>tv_iso = (\<lambda>_. ''t''), tv_decode = (\<lambda>l. l), tv_loads = (\<lambda>_. None), tv_dumped = (\<lambda>_. 0), tv_size = (\<lambda>_. 0)\<rparr>"

lemma small_session [simp]: "tv_size trpg_sample_env d = 0"
  by (simp add: trpg_sample_env_def)

definition sample_identity :: run_identity where
  "sample_identity = \<lparr>ix_game = ''trpg-view'', ix_runtime = ''g1-aaaa'', ix_generation = 1, ix_lease = ''lease''\<rparr>"

definition sample_session :: session where
  "sample_session = prepare_session sample_identity sample_scenario VNull None"

definition sample_line :: string where
  "sample_line = join [CHR 0x09] [''12:00'', ''user-id=5'', ''x'', ''y'', ''flags='', ''bob: !2'']"

definition sample_log :: string where
  "sample_log = sample_line @ [newline] @ ''cut off''"

text \<open>C32: The ballot of a window is exactly the chat of the window: however its bytes are chopped into ticks,
  while the window is open and after it has closed, and whatever is written behind the closing, the story
  ends as if every complete line between the cursor of the opening and the snapshot of the closing was heard
  once, in order; and as many visits as the window has bytes left, and one more, drain it.\<close>

theorem window_heard:
  assumes "st_phase (se_story d) = PChoice" "cu_inode (se_cursor d) = Some i" "cu_offset (se_cursor d) \<le> length bs"
    and "sorted (cu_offset (se_cursor d) # List.map (\<lambda>(_, _, n). n) opens)" "list_all (\<lambda>(_, _, n). n \<le> length bs) opens"
    and "length bs < length closes"
  shows "\<exists>d'. closing_visits E i bs closes (open_visits E i bs opens d) = (True, d')
    \<and> se_story d' = fold (hear E now clk)
        (heard_lines (cu_discard (se_cursor d)) (drop (cu_offset (se_cursor d)) bs)) (se_story d)"
proof -
  let ?e = "open_visits E i bs opens d"
  have vs: "\<forall>(_, _, n)\<in>set opens. n \<le> length bs" using assms(5) by (simp add: list_all_iff)
  have e: "st_phase (se_story ?e) = PChoice" "cu_inode (se_cursor ?e) = Some i" "cu_offset (se_cursor ?e) \<le> length bs"
      "fold (hear E now clk) (due_lines bs (se_cursor ?e)) (se_story ?e) = fold (hear E now clk) (due_lines bs (se_cursor d)) (se_story d)"
    using open_visits_heard [OF assms(1,2,4) vs assms(3), of E now clk] by (simp_all add: Let_def)
  have "length bs - cu_offset (se_cursor ?e) < length closes" using assms(6) by simp
  from closing_visits_heard [OF e(1-3) this, of E now clk] show ?thesis
    using e(4) by (auto simp: due_lines_def)
qed

lemma window_heard_witness:
  "\<exists>d'. closing_visits trpg_sample_env 7 sample_log (replicate 60 (0, ''t'', ''later''))
      (open_visits trpg_sample_env 7 sample_log [(0, ''t'', 3)] (sample_session\<lparr>se_story := sample_choice, se_cursor := \<lparr>cu_inode = Some 7, cu_offset = 0, cu_discard = False\<rparr>\<rparr>)) = (True, d')
    \<and> st_vote_order (se_story d') = [(''5'', ''2'')]"
proof -
  let ?d = "sample_session\<lparr>se_story := sample_choice, se_cursor := \<lparr>cu_inode = Some 7, cu_offset = 0, cu_discard = False\<rparr>\<rparr>"
  have len: "length sample_log < 60" by (simp add: sample_log_def sample_line_def)
  have lines: "heard_lines False sample_log = [sample_line]"
    by (simp add: sample_log_def sample_line_def heard_lines_def newline_def short_def read_bytes_def)
  have parse: "parse_chat (tv_loads trpg_sample_env) (tv_decode trpg_sample_env sample_line) = Some (''5'', ''!2'')"
    by (simp add: trpg_sample_env_def sample_line_def parse_chat_def chat_line_def drop_prefix_def is_digit_def max_user_id_def numeral_eq_Suc)
  have vote: "parse_vote ''!2'' = Some 2"
    by (simp add: parse_vote_def py_strip_def py_space_def py_lower_def Let_def undec_def digit_val_def is_digit_def max_choices_def)
  have "st_vote_order (snd (record_vote ''5'' 2 sample_choice)) = [(''5'', ''2'')]"
    using record_vote_run [OF sample_choice_parts(1,2), of "''5''" 2]
    by (simp add: user_of_def max_user_id_def sample_scenario_def has_room_def sample_choice_parts max_participants_def
        cast_vote_def dec_small)
  moreover have "snd (or_ignore h m t) = snd (m t)" for h m t
    by (auto simp: or_ignore_def attempt_def bnd_def split: prod.splits sum.splits)
  ultimately have heard: "st_vote_order (hear trpg_sample_env 0 ''t'' sample_line sample_choice) = [(''5'', ''2'')]"
    by (simp add: hear_def parse observe_chat_def vote run_simps sample_choice_parts user_of_def max_user_id_def)
  have d: "st_phase (se_story ?d) = PChoice" "cu_inode (se_cursor ?d) = Some 7" "cu_offset (se_cursor ?d) \<le> length sample_log"
      "sorted (cu_offset (se_cursor ?d) # List.map (\<lambda>(_, _, n). n) [(0 :: rat, ''t'', 3)])"
      "list_all (\<lambda>(_, _, n). n \<le> length sample_log) [(0 :: rat, ''t'', 3)]"
      "length sample_log < length (replicate 60 (0 :: rat, ''t'', ''later''))"
    using len by (simp_all add: sample_choice_parts sample_log_def sample_line_def)
  obtain d' where d': "closing_visits trpg_sample_env 7 sample_log (replicate 60 (0, ''t'', ''later'')) (open_visits trpg_sample_env 7 sample_log [(0, ''t'', 3)] ?d) = (True, d')"
      "se_story d' = fold (hear trpg_sample_env 0 ''t'') (heard_lines (cu_discard (se_cursor ?d)) (drop (cu_offset (se_cursor ?d)) sample_log)) (se_story ?d)"
    using window_heard [OF d, of trpg_sample_env 0 "''t''"] by (elim exE conjE)
  have "se_story d' = hear trpg_sample_env 0 ''t'' sample_line sample_choice" using d'(2) by (simp add: lines)
  then have "st_vote_order (se_story d') = [(''5'', ''2'')]" using heard by (simp only:)
  with d'(1) show ?thesis by (intro exI conjI)
qed

section \<open>On the air\<close>

text \<open>C33: Over any ticks and restorations, with the process dying after any of their effects, no line is
  spoken twice at one mark of the story, and the corner is introduced at most once.\<close>

theorem spoken_once:
  assumes "aired E w"
  shows "distinct (tw_spoken w) \<and> length (filter (\<lambda>(m, l). l = IntroLine) (tw_spoken w)) \<le> 1"
  using aired_ok [OF assms] by (auto simp: world_ok_def spoken_ok_def intros_def)

definition sample_args :: "rat \<Rightarrow> tick_args" where
  "sample_args t = \<lparr>tk_now = t, tk_clock = ''t'', tk_wall = t, tk_audio = True, tk_stop = None, tk_request = None,
     tk_at_start = None, tk_at_close = None, tk_chat = None, tk_at_open = None\<rparr>"

definition fresh_world :: trpg_world where
  "fresh_world = \<lparr>tw_file = Some sample_session, tw_ledger = [], tw_spoken = []\<rparr>"

lemma sample_aired: "aired trpg_sample_env fresh_world"
  unfolding fresh_world_def sample_session_def by (rule prepared) (rule legalI [OF sample_checks])

lemma sample_checks_again: "validate_scenario (scenario_json sample_scenario) = Inr sample_scenario"
  by (rule scenario_again [OF sample_checks])

lemmas tick_simps = tick_world_def tick_session_def load_session_def claim_request_def progress_def activate_def run_story_def
  start_story_def run_simps announce_mark_def close_book_def public_page_def page_window_def shown_story_def current_mark_def lines_for_def
  story_over_def sample_args_def fresh_world_def sample_session_def prepare_session_def sample_identity_def Let_def

lemma first_tick_speaks:
  "List.map snd (tw_spoken (tick_world trpg_sample_env (sample_args 100) sample_identity 9 fresh_world)) = [IntroLine, SceneLine (Some ''hall'') ''A door.'']"
proof -
  have "sc_first sample_scenario = ''hall''" "find (\<lambda>x. sn_id x = ''hall'') (sc_scenes sample_scenario) = Some (hd (sc_scenes sample_scenario))"
      "sn_words (hd (sc_scenes sample_scenario)) = ''A door.''"
    by (simp_all add: sample_scenario_def)
  then show ?thesis by (simp add: tick_simps new_story_def sample_checks_again)
qed

lemma spoken_once_witness:
  "distinct (tw_spoken (tick_world trpg_sample_env (sample_args 100) sample_identity 9 fresh_world))
    \<and> List.map snd (tw_spoken (tick_world trpg_sample_env (sample_args 100) sample_identity 9 fresh_world)) = [IntroLine, SceneLine (Some ''hall'') ''A door.'']"
  using spoken_once [OF ticked [OF sample_aired]] first_tick_speaks by blast

text \<open>A checked scenario written into a session checks again as itself, so a prepared session starts with
  the story that was prepared.\<close>

lemma prepared_story_starts:
  assumes "validate_scenario raw = Inr sc"
  shows "validate_scenario (scenario_json sc) = Inr sc
    \<and> (\<exists>d. activate E a (prepare_session b sc meta l) = Inr d \<and> st_scenario (se_story d) = Some sc \<and> st_phase (se_story d) = PScene)"
  using scenario_again [OF assms]
  by (simp add: activate_def prepare_session_def run_story_def start_story_def run_simps new_story_def)

lemma prepared_story_starts_witness:
  "validate_scenario sample_raw = Inr sample_scenario \<and> validate_scenario (scenario_json sample_scenario) = Inr sample_scenario"
  using prepared_story_starts [OF sample_checks] sample_checks by blast

section \<open>Defects\<close>

text \<open>A suspect is read up to the first space of the message, but a scenario may name suspects with spaces:
  then no message accuses them, and nobody can name an answer with a space.\<close>

lemma accused_has_no_space:
  assumes "parse_accusation words = Some (x, t)"
  shows "list_all (\<lambda>c. \<not> py_space c) x"
  using assms by (auto simp: parse_accusation_def Let_def list_all_iff dest: set_takeWhileD split: if_splits)

lemma spaced_answer_unreachable:
  assumes "correct_users answer (st_accusations s) = []" "\<not> list_all (\<lambda>c. \<not> py_space c) answer"
  shows "correct_users answer (st_accusations (snd (observe_chat u words now clk s))) = []"
proof -
  have vote: "st_accusations (snd (record_vote u n s)) = st_accusations s" for n
    by (auto simp: record_vote_def run_simps split: sum.splits prod.splits)
  have ignore: "snd (or_ignore h m s) = snd (m s)" for h m
    by (auto simp: or_ignore_def attempt_def bnd_def split: prod.splits sum.splits)
  have upd: "correct_users answer (AList.update u \<lparr>ac_suspect = x, ac_trick = t, ac_at = i\<rparr> acs) = []"
    if "correct_users answer acs = []" "x \<noteq> answer" for x t i acs
    using that by (induction acs) (auto simp: correct_users_def split: if_splits)
  have accuse: "correct_users answer (st_accusations (snd (record_accusation u x t now clk s))) = []"
    if "parse_accusation words = Some (x, t)" for x t
  proof -
    have "x \<noteq> answer" using accused_has_no_space [OF that] assms(2) by auto
    then show ?thesis
      using assms(1) upd by (auto simp: record_accusation_def run_simps split: sum.splits prod.splits)
  qed
  show ?thesis
    using assms(1) vote accuse by (auto simp: observe_chat_def run_simps ignore split: option.splits sum.splits)
qed

text \<open>A run whose entry alone is too long erases the history and itself, and is reported as recorded.\<close>

lemma long_run_erases_history:
  assumes "st_phase s = PEnd" "st_outcome s = Some ''completed''" "\<And>es. max_ledger_bytes < dumped (es @ [entry_for ''completed'' None clk s])"
  shows "record_run dumped None None clk s es = Inr (True, [])"
proof -
  have fit: "fit_bytes dumped max_ledger_bytes (ds @ [entry_for ''completed'' None clk s]) = []" for ds
  proof (induction ds)
    case Nil
    then show ?case using assms(3) [of "[]"] by simp
  next
    case (Cons e ds)
    then show ?case using assms(3) [of "e # ds"] by simp
  qed
  have "\<exists>ds. drop (length (es @ [entry_for ''completed'' None clk s]) - max_history) (es @ [entry_for ''completed'' None clk s])
      = ds @ [entry_for ''completed'' None clk s]"
    by (auto simp: max_history_def)
  then show ?thesis
    using assms(1,2) fit by (auto simp: record_run_def default_outcome_def run_outcomes_def trim_entries_def)
qed

text \<open>The ledger is written before the session says so: a process that dies between the two records the run
  again.\<close>

lemma run_recorded_twice:
  "let stop = (sample_args 100)\<lparr>tk_stop := Some ''manual''\<rparr>;
       w = tick_world trpg_sample_env stop sample_identity 1 fresh_world;
       v = tick_world trpg_sample_env stop sample_identity 2 w
   in List.map ru_outcome (tw_ledger v) = [''aborted'', ''aborted'']"
  by (simp add: tick_simps new_story_def sample_checks_again stop_story_def fail_story_def is_live_def max_text_def record_run_def
      run_outcomes_def trim_entries_def max_history_def trpg_sample_env_def max_ledger_bytes_def entry_for_def)

end
