(* ===== verification/OthelloRules.thy ===== *)
theory OthelloRules
  imports Results
begin

text \<open>
  The rules of \<open>othello_corner.py\<close>: the board and its checks, the discs a move flips, legal moves,
  the move itself, the score and the choice of the built-in player.  A board is a list of eight rows
  of eight cells, 0 empty, 1 black, 2 white.
\<close>

section \<open>Boards\<close>

datatype othello_error = OthelloCornerError string | OthelloIndexError

type_synonym board = "int list list"

abbreviation black :: int where "black \<equiv> 1"
abbreviation white :: int where "white \<equiv> 2"

definition int_between :: "string \<Rightarrow> int \<Rightarrow> int \<Rightarrow> int \<Rightarrow> othello_error + int" where
  "int_between what lo hi v =
     (if v < lo then Inl (OthelloCornerError (''invalid '' @ what))
      else if hi < v then Inl (OthelloCornerError (''invalid '' @ what))
      else Inr v)"

definition check_cell :: "int \<Rightarrow> othello_error + int" where
  "check_cell v = (if v \<in> {0, black, white} then Inr v else Inl (OthelloCornerError ''invalid cell''))"

definition check_row :: "int list \<Rightarrow> othello_error + int list" where
  "check_row row =
     (if length row \<noteq> 8 then Inl (OthelloCornerError ''invalid board row'') else each check_cell row)"

definition check_board :: "board \<Rightarrow> othello_error + board" where
  "check_board raw = after (each check_row raw) (\<lambda>rows.
     if length rows \<noteq> 8 then Inl (OthelloCornerError ''invalid board height'') else Inr rows)"

definition cell_count :: "int \<Rightarrow> board \<Rightarrow> int" where
  "cell_count v b = (\<Sum>row\<leftarrow>b. int (count_list row v))"

definition validate_board_counts :: "board \<Rightarrow> othello_error + unit" where
  "validate_board_counts b =
     (if int (length b) * 8 - cell_count 0 b < 4
      then Inl (OthelloCornerError ''board lost its starting discs'') else Inr ())"

definition set_cell :: "board \<Rightarrow> int \<Rightarrow> int \<Rightarrow> int \<Rightarrow> board" where
  "set_cell b r c v = b[nat r := (b ! nat r)[nat c := v]]"

definition new_board :: board where
  "new_board = set_cell (set_cell (set_cell (set_cell (replicate 8 (replicate 8 0))
     3 3 white) 4 4 white) 3 4 black) 4 3 black"

section \<open>Flips\<close>

definition is_player :: "int \<Rightarrow> bool" where
  "is_player p \<longleftrightarrow> p = black \<or> p = white"

definition opponent :: "int \<Rightarrow> othello_error + int" where
  "opponent p = (if p = black then Inr white else if p = white then Inr black
     else Inl (OthelloCornerError ''invalid player''))"

definition on_board :: "int \<Rightarrow> int \<Rightarrow> bool" where
  "on_board r c \<longleftrightarrow> 0 \<le> r \<and> r < 8 \<and> 0 \<le> c \<and> c < 8"

definition cell_at :: "board \<Rightarrow> int \<Rightarrow> int \<Rightarrow> int" where
  "cell_at b r c = b ! nat r ! nat c"

definition directions :: "(int \<times> int) list" where
  "directions = [(-1, -1), (-1, 0), (-1, 1), (0, -1), (0, 1), (1, -1), (1, 0), (1, 1)]"

text \<open>The \<open>while\<close> loop of \<open>flips_for\<close>; a ray leaves the board within eight steps.\<close>

fun ray :: "board \<Rightarrow> int \<Rightarrow> int \<times> int \<Rightarrow> nat \<Rightarrow> int \<Rightarrow> int \<Rightarrow> (int \<times> int) list \<times> int \<times> int" where
  "ray b opp (dr, dc) 0 r c = ([], r, c)"
| "ray b opp (dr, dc) (Suc n) r c =
     (if on_board r c \<and> cell_at b r c = opp
      then (case ray b opp (dr, dc) n (r + dr) (c + dc) of (line, e) \<Rightarrow> ((r, c) # line, e))
      else ([], r, c))"

definition flips_along :: "board \<Rightarrow> int \<Rightarrow> int \<Rightarrow> int \<Rightarrow> int \<Rightarrow> int \<times> int \<Rightarrow> (int \<times> int) list" where
  "flips_along b me opp row col d =
     (case ray b opp d 8 (row + fst d) (col + snd d) of (line, r, c) \<Rightarrow>
        if line \<noteq> [] \<and> on_board r c \<and> cell_at b r c = me then line else [])"

definition flips_for :: "board \<Rightarrow> int \<Rightarrow> int \<Rightarrow> int \<Rightarrow> othello_error + (int \<times> int) list" where
  "flips_for b player row col =
     after (int_between ''move row'' 0 7 row) (\<lambda>row.
     after (int_between ''move col'' 0 7 col) (\<lambda>col.
     after (check_board b) (\<lambda>b.
     if cell_at b row col \<noteq> 0 then Inr []
     else after (if is_player player then Inr player else check_cell player) (\<lambda>me.
     if me = 0 then Inl (OthelloCornerError ''invalid player'')
     else after (opponent me) (\<lambda>opp.
     Inr (concat (List.map (flips_along b me opp row col) directions)))))))"

definition legal_moves :: "board \<Rightarrow> int \<Rightarrow> othello_error + (int \<times> int) list" where
  "legal_moves b player =
     after (check_board b) (\<lambda>b.
     if \<not> is_player player then Inl (OthelloCornerError ''invalid player'')
     else Inr (filter (\<lambda>(r, c). cell_at b r c = 0 \<and>
       (case flips_for b player r c of Inr (f # fs) \<Rightarrow> True | _ \<Rightarrow> False))
       (List.product (List.map int [0..<8]) (List.map int [0..<8]))))"

definition paint :: "int \<Rightarrow> (int \<times> int) list \<Rightarrow> board \<Rightarrow> board" where
  "paint v cells b = fold (\<lambda>(r, c) b. set_cell b r c v) cells b"

definition apply_move :: "board \<Rightarrow> int \<Rightarrow> int \<Rightarrow> int \<Rightarrow> othello_error + board" where
  "apply_move b player row col =
     after (flips_for b player row col) (\<lambda>flipped.
     if flipped = [] then Inl (OthelloCornerError ''illegal move'')
     else after (check_board b) (\<lambda>b.
     after (int_between ''move row'' 0 7 row) (\<lambda>row.
     after (int_between ''move col'' 0 7 col) (\<lambda>col.
     after (if is_player player then Inr player else check_cell player) (\<lambda>me.
     let new = paint me flipped (set_cell b row col me) in
     after (validate_board_counts new) (\<lambda>_. Inr new))))))"

section \<open>The score\<close>

definition score :: "board \<Rightarrow> othello_error + int \<times> int" where
  "score b = after (check_board b) (\<lambda>b. Inr (cell_count black b, cell_count white b))"

definition is_terminal :: "board \<Rightarrow> othello_error + bool" where
  "is_terminal b = after (check_board b) (\<lambda>b. after (legal_moves b black) (\<lambda>m.
     if m \<noteq> [] then Inr False else after (legal_moves b white) (\<lambda>n. Inr (n = []))))"

definition winner_of :: "board \<Rightarrow> othello_error + int option" where
  "winner_of b = after (score b) (\<lambda>(x, y).
     Inr (if y < x then Some black else if x < y then Some white else None))"

section \<open>The built-in player\<close>

definition positional_weights :: "int list list" where
  "positional_weights =
    [[120, -20, 20, 5, 5, 20, -20, 120],
     [-20, -40, -5, -5, -5, -5, -40, -20],
     [20, -5, 15, 3, 3, 15, -5, 20],
     [5, -5, 3, 3, 3, 3, -5, 5],
     [5, -5, 3, 3, 3, 3, -5, 5],
     [20, -5, 15, 3, 3, 15, -5, 20],
     [-20, -40, -5, -5, -5, -5, -40, -20],
     [120, -20, 20, 5, 5, 20, -20, 120]]"

text \<open>Indexing of a Python sequence: negative indices count from the end.\<close>

definition py_index :: "'a list \<Rightarrow> int \<Rightarrow> othello_error + 'a" where
  "py_index xs i =
     (if 0 \<le> i \<and> i < int (length xs) then Inr (xs ! nat i)
      else if - int (length xs) \<le> i \<and> i < 0 then Inr (xs ! nat (int (length xs) + i))
      else Inl OthelloIndexError)"

definition weight :: "int \<times> int \<Rightarrow> othello_error + int" where
  "weight m = after (py_index positional_weights (fst m)) (\<lambda>row. py_index row (snd m))"

fun best_move :: "((int \<times> int) \<times> int) option \<Rightarrow> (int \<times> int) list \<Rightarrow> othello_error + ((int \<times> int) \<times> int) option" where
  "best_move best [] = Inr best"
| "best_move best (m # ms) = after (weight m) (\<lambda>v.
     best_move (case best of None \<Rightarrow> Some (m, v) | Some (_, w) \<Rightarrow> if w < v then Some (m, v) else best) ms)"

definition ai_choose_move :: "board \<Rightarrow> int \<Rightarrow> (int \<times> int) list option \<Rightarrow> othello_error + int \<times> int" where
  "ai_choose_move b player moves =
     after (check_board b) (\<lambda>b.
     if \<not> is_player player then Inl (OthelloCornerError ''invalid player'')
     else after (case moves of None \<Rightarrow> legal_moves b player | Some ms \<Rightarrow> Inr (sort ms)) (\<lambda>cands.
     case cands of [] \<Rightarrow> Inl (OthelloCornerError ''no legal move'')
     | _ # _ \<Rightarrow> after (best_move None cands) (\<lambda>best.
         case best of None \<Rightarrow> Inl (OthelloCornerError ''no legal move'') | Some (m, _) \<Rightarrow> Inr m)))"

end
