(* ===== verification/OthelloFacts.thy ===== *)
theory OthelloFacts
  imports OthelloRules
begin

text \<open>
  Facts about the rules of \<open>othello_corner.py\<close>: when a board passes its checks, what a ray collects,
  the reference definition of the discs a move turns over, and what a move does to the board and to
  the numbers of discs.
\<close>

section \<open>Checked boards\<close>

definition board_ok :: "board \<Rightarrow> bool" where
  "board_ok b \<longleftrightarrow> length b = 8 \<and> (\<forall>row\<in>set b. length row = 8 \<and> set row \<subseteq> {0, black, white})"

lemma board_ok_nth: "board_ok b \<longleftrightarrow>
    length b = 8 \<and> (\<forall>i<8. length (b ! i) = 8 \<and> (\<forall>j<8. b ! i ! j \<in> {0, black, white}))"
  by (simp add: board_ok_def all_set_conv_all_nth subset_eq cong: conj_cong)

lemma check_cell_Inr: "check_cell v = Inr w \<longleftrightarrow> w = v \<and> v \<in> {0, black, white}"
  by (auto simp: check_cell_def)

lemma check_row_Inr: "check_row row = Inr row' \<longleftrightarrow> row' = row \<and> length row = 8 \<and> set row \<subseteq> {0, black, white}"
proof
  assume a: "check_row row = Inr row'"
  then have e: "each check_cell row = Inr row'" and l: "length row = 8"
    by (auto simp: check_row_def split: if_splits)
  then have "row' = row" by (rule_tac each_id) (auto simp: check_cell_Inr)
  with e l show "row' = row \<and> length row = 8 \<and> set row \<subseteq> {0, black, white}"
    by (auto simp: each_Inr check_cell_Inr in_set_conv_nth)
next
  assume "row' = row \<and> length row = 8 \<and> set row \<subseteq> {0, black, white}"
  then show "check_row row = Inr row'"
    by (auto simp: check_row_def check_cell_def intro!: each_same)
qed

lemma check_board_Inr: "check_board b = Inr b' \<longleftrightarrow> b' = b \<and> board_ok b"
proof
  assume "check_board b = Inr b'"
  then have e: "each check_row b = Inr b'" and l: "length b' = 8"
    by (auto simp: check_board_def after_Inr split: if_splits)
  then have "b' = b" by (rule_tac each_id) (auto simp: check_row_Inr)
  with e l show "b' = b \<and> board_ok b"
    by (simp add: board_ok_def each_Inr check_row_Inr all_set_conv_all_nth)
next
  assume "b' = b \<and> board_ok b"
  then show "check_board b = Inr b'"
    by (simp add: check_board_def board_ok_def each_same check_row_Inr)
qed

lemma check_board_ok [simp]: "board_ok b \<Longrightarrow> check_board b = Inr b"
  by (simp add: check_board_Inr)

lemma int_between_Inr: "int_between w lo hi v = Inr u \<longleftrightarrow> u = v \<and> lo \<le> v \<and> v \<le> hi"
  by (auto simp: int_between_def)

lemma on_board_nat: "on_board r c \<longleftrightarrow> (\<exists>i j. r = int i \<and> c = int j \<and> i < 8 \<and> j < 8)"
proof
  assume "on_board r c"
  then show "\<exists>i j. r = int i \<and> c = int j \<and> i < 8 \<and> j < 8"
    by (intro exI [of _ "nat r"] exI [of _ "nat c"]) (auto simp: on_board_def)
qed (auto simp: on_board_def)

lemma set_cell_ok:
  assumes "board_ok b" "v \<in> {0, black, white}"
  shows "board_ok (set_cell b r c v)"
  using assms
  by (cases "nat r < 8"; cases "nat c < 8") (simp_all add: board_ok_nth set_cell_def nth_list_update)

lemma cell_at_set_cell:
  assumes "board_ok b" "on_board r c" "on_board r' c'"
  shows "cell_at (set_cell b r c v) r' c' = (if r' = r \<and> c' = c then v else cell_at b r' c')"
  using assms by (auto simp: on_board_nat board_ok_def set_cell_def cell_at_def nth_list_update)

lemma board_ok_cell: "board_ok b \<Longrightarrow> on_board r c \<Longrightarrow> cell_at b r c \<in> {0, black, white}"
  unfolding on_board_nat board_ok_nth cell_at_def by (elim exE conjE) simp

lemma count_update: "i < length xs \<Longrightarrow>
    count_list (xs[i := w]) v + of_bool (xs ! i = v) = count_list xs v + of_bool (w = v)"
proof (induction xs arbitrary: i)
  case (Cons x xs)
  show ?case
  proof (cases i)
    case (Suc k)
    with Cons.prems Cons.IH [of k] show ?thesis by (simp add: of_bool_def split: if_splits)
  qed simp
qed simp

lemma count_update_int: "i < length xs \<Longrightarrow>
    int (count_list (xs[i := w]) v) = int (count_list xs v) - of_bool (xs ! i = v) + of_bool (w = v)"
  using count_update [of i xs w v] by (simp add: of_bool_def split: if_splits)

lemma sum_update: "i < length xs \<Longrightarrow> (\<Sum>x\<leftarrow>xs[i := y]. f x) = (\<Sum>x\<leftarrow>xs. f x) - f (xs ! i) + (f y :: int)"
proof (induction xs arbitrary: i)
  case (Cons x xs)
  then show ?case by (cases i) simp_all
qed simp

lemma cell_count_set_cell:
  assumes "board_ok b" "on_board r c"
  shows "cell_count v (set_cell b r c w) = cell_count v b - of_bool (cell_at b r c = v) + of_bool (w = v)"
proof -
  obtain i j where "r = int i" "c = int j" "i < 8" "j < 8" using assms(2) by (auto simp: on_board_nat)
  moreover have "length b = 8" "length (b ! i) = 8" using assms(1) \<open>i < 8\<close> by (auto simp: board_ok_def)
  ultimately show ?thesis
    by (simp add: cell_count_def set_cell_def cell_at_def sum_update count_update_int)
qed

lemma paint_simps [simp]: "paint v [] b = b" "paint v ((r, c) # xs) b = paint v xs (set_cell b r c v)"
  by (simp_all add: paint_def)

lemma paint_ok:
  "board_ok b \<Longrightarrow> v \<in> {0, black, white} \<Longrightarrow> board_ok (paint v xs b)"
proof (induction xs arbitrary: b)
  case (Cons x xs)
  then show ?case by (cases x) (simp only: paint_simps set_cell_ok)
qed simp

lemma cell_at_paint:
  assumes "board_ok b" "v \<in> {0, black, white}" "\<forall>(r, c)\<in>set xs. on_board r c" "on_board r c"
  shows "cell_at (paint v xs b) r c = (if (r, c) \<in> set xs then v else cell_at b r c)"
  using assms
proof (induction xs arbitrary: b)
  case (Cons x xs)
  obtain r' c' where x: "x = (r', c')" by fastforce
  with Cons.prems have o: "on_board r' c'" by auto
  have "cell_at (paint v xs (set_cell b r' c' v)) r c =
      (if (r, c) \<in> set xs then v else cell_at (set_cell b r' c' v) r c)"
    using Cons.prems by (intro Cons.IH set_cell_ok) auto
  then show ?case using cell_at_set_cell [OF Cons.prems(1) o Cons.prems(4)] by (auto simp: x)
qed simp

lemma cell_count_paint:
  assumes "board_ok b" "v \<in> {0, black, white}" "u \<noteq> v" "distinct xs"
    "\<forall>(r, c)\<in>set xs. on_board r c \<and> cell_at b r c = u"
  shows "cell_count w (paint v xs b) = cell_count w b
    - (if w = u then int (length xs) else 0) + (if w = v then int (length xs) else 0)"
  using assms
proof (induction xs arbitrary: b)
  case (Cons x xs)
  obtain r c where x: "x = (r, c)" by fastforce
  with Cons.prems have o: "on_board r c" "cell_at b r c = u" by auto
  have "\<forall>(r', c')\<in>set xs. on_board r' c' \<and> cell_at (set_cell b r c v) r' c' = u"
    using Cons.prems x by (auto simp: cell_at_set_cell [OF Cons.prems(1) o(1)])
  with Cons.prems have "cell_count w (paint v xs (set_cell b r c v)) = cell_count w (set_cell b r c v)
      - (if w = u then int (length xs) else 0) + (if w = v then int (length xs) else 0)"
    by (intro Cons.IH set_cell_ok) auto
  with Cons.prems(3) show ?case
    by (simp add: x cell_count_set_cell [OF Cons.prems(1) o(1)] o(2))
qed simp

lemma count_list_split:
  "set xs \<subseteq> {0, black, white} \<Longrightarrow> count_list xs 0 + count_list xs black + count_list xs white = length xs"
  by (induction xs) auto

lemma rows_cells:
  "(\<And>row. row \<in> set b \<Longrightarrow> length row = 8 \<and> set row \<subseteq> {0, black, white}) \<Longrightarrow>
   cell_count 0 b + cell_count black b + cell_count white b = 8 * int (length b)"
proof (induction b)
  case (Cons row b)
  have "count_list row 0 + count_list row black + count_list row white = 8"
    using Cons.prems [of row] count_list_split [of row] by simp
  moreover have "cell_count 0 b + cell_count black b + cell_count white b = 8 * int (length b)"
    using Cons by auto
  ultimately show ?case by (simp add: cell_count_def)
qed (simp add: cell_count_def)

lemma board_cells: "board_ok b \<Longrightarrow> cell_count 0 b + cell_count black b + cell_count white b = 64"
  using rows_cells [of b] by (simp add: board_ok_def)

lemma cell_count_nonneg [simp]: "0 \<le> cell_count v b"
  unfolding cell_count_def by (rule sum_list_nonneg) auto

section \<open>Rays\<close>

definition along :: "int \<Rightarrow> int \<Rightarrow> int \<times> int \<Rightarrow> nat \<Rightarrow> int \<times> int" where
  "along r c d k = (r + int k * fst d, c + int k * snd d)"

definition cell_is :: "board \<Rightarrow> int \<Rightarrow> int \<times> int \<Rightarrow> bool" where
  "cell_is b v x \<longleftrightarrow> on_board (fst x) (snd x) \<and> cell_at b (fst x) (snd x) = v"

lemma along_Suc: "along r c d (Suc k) = along (r + fst d) (c + snd d) d k"
  by (simp add: along_def algebra_simps)

lemma along_0 [simp]: "along r c d 0 = (r, c)"
  by (simp add: along_def)

text \<open>A ray collects the cells before the first that is not the opponent's.\<close>

lemma ray_collects:
  assumes "ray b opp d n r c = (line, e)"
  shows "\<exists>k\<le>n. line = List.map (along r c d) [0..<k] \<and> e = along r c d k \<and>
    (\<forall>j<k. cell_is b opp (along r c d j)) \<and> (k < n \<longrightarrow> \<not> cell_is b opp (along r c d k))"
  using assms
proof (induction n arbitrary: r c line e)
  case 0
  then show ?case by (cases d) auto
next
  case (Suc n)
  obtain dr dc where d: "d = (dr, dc)" by fastforce
  show ?case
  proof (cases "cell_is b opp (r, c)")
    case False
    with Suc.prems show ?thesis by (intro exI [of _ 0]) (auto simp: d cell_is_def)
  next
    case True
    obtain line' e' where ray: "ray b opp d n (r + dr) (c + dc) = (line', e')"
      by (cases "ray b opp d n (r + dr) (c + dc)")
    with True Suc.prems have le: "line = (r, c) # line'" "e = e'" by (auto simp: d cell_is_def)
    from Suc.IH [OF ray] obtain k where k: "k \<le> n" "line' = List.map (along (r + dr) (c + dc) d) [0..<k]"
      "e' = along (r + dr) (c + dc) d k" "\<forall>j<k. cell_is b opp (along (r + dr) (c + dc) d j)"
      "k < n \<longrightarrow> \<not> cell_is b opp (along (r + dr) (c + dc) d k)" by blast
    have s: "along (r + dr) (c + dc) d j = along r c d (Suc j)" for j by (simp add: along_Suc d)
    have "line = List.map (along r c d) [0..<Suc k]"
      unfolding le k(2) by (simp add: upt_conv_Cons s comp_def del: upt_Suc flip: map_Suc_upt)
    with k True show ?thesis
      by (intro exI [of _ "Suc k"]) (auto simp: le s less_Suc_eq_0_disj)
  qed
qed

lemma directions_bounds: "d \<in> set directions \<Longrightarrow> fst d \<in> {-1, 0, 1} \<and> snd d \<in> {-1, 0, 1} \<and> d \<noteq> (0, 0)"
  by (auto simp: directions_def)

lemma ray_leaves: "d \<in> set directions \<Longrightarrow> on_board r c \<Longrightarrow> 8 \<le> k \<Longrightarrow>
    \<not> on_board (fst (along r c d k)) (snd (along r c d k))"
  by (auto simp: directions_def on_board_def along_def)

lemma along_inj:
  assumes "d \<in> set directions" "d' \<in> set directions" "along r c d k = along r c d' k'" "0 < k" "0 < k'"
  shows "d = d' \<and> k = k'"
  using assms by (auto simp: directions_def along_def)

section \<open>The discs a move turns over\<close>

text \<open>
  The reference: a cell is turned over when, in one of the eight directions, it lies before a
  player's disc with only opposing discs between that disc and the square of the move.
\<close>

definition outflanks :: "board \<Rightarrow> int \<Rightarrow> int \<Rightarrow> int \<Rightarrow> int \<Rightarrow> int \<times> int \<Rightarrow> nat \<Rightarrow> bool" where
  "outflanks b me opp r c d n \<longleftrightarrow> cell_is b me (along r c d n) \<and> (\<forall>j<n. 0 < j \<longrightarrow> cell_is b opp (along r c d j))"

definition sandwiched :: "board \<Rightarrow> int \<Rightarrow> int \<Rightarrow> int \<Rightarrow> (int \<times> int) set" where
  "sandwiched b me r c =
     {along r c d k | d k. d \<in> set directions \<and> 0 < k \<and> (\<exists>n>k. outflanks b me (3 - me) r c d n)}"

lemma flips_along_set:
  assumes "d \<in> set directions" "on_board r c" "me \<noteq> opp"
  shows "distinct (flips_along b me opp r c d) \<and> set (flips_along b me opp r c d) =
    {along r c d k | k. 0 < k \<and> (\<exists>n>k. outflanks b me opp r c d n)}"
proof -
  obtain line e where ray: "ray b opp d 8 (r + fst d) (c + snd d) = (line, e)"
    by (cases "ray b opp d 8 (r + fst d) (c + snd d)")
  have s: "along (r + fst d) (c + snd d) d j = along r c d (Suc j)" for j by (simp add: along_Suc)
  obtain k where k: "k \<le> 8" "line = List.map (\<lambda>j. along r c d (Suc j)) [0..<k]" "e = along r c d (Suc k)"
    "\<And>j. j < k \<Longrightarrow> cell_is b opp (along r c d (Suc j))"
    "k < 8 \<Longrightarrow> \<not> cell_is b opp (along r c d (Suc k))"
    using ray_collects [OF ray] by (auto simp: s fun_eq_iff cong: map_cong)
  have k8: "k < 8"
  proof (rule ccontr)
    assume "\<not> k < 8"
    with k(4) [of 7] ray_leaves [OF assms(1,2), of 8] show False by (simp add: cell_is_def)
  qed
  have dist: "distinct line"
    using along_inj [OF assms(1) assms(1)] by (auto simp: k(2) distinct_map inj_on_def)
  have line: "set line = {along r c d j | j. 0 < j \<and> j < Suc k}"
    unfolding k(2) by (auto simp: gr0_conv_Suc image_iff)
  have end_: "n = Suc k" if n: "outflanks b me opp r c d n" "1 < n" for n
  proof (rule linorder_cases [of n "Suc k"])
    assume "n < Suc k"
    then have "n - 1 < k" using n(2) by arith
    with n k(4) [of "n - 1"] assms(3) show ?thesis by (auto simp: outflanks_def cell_is_def)
  next
    assume "Suc k < n"
    with n k(5) [OF k8] show ?thesis by (auto simp: outflanks_def)
  qed
  have flips: "flips_along b me opp r c d = (if k \<noteq> 0 \<and> cell_is b me (along r c d (Suc k)) then line else [])"
    by (auto simp: flips_along_def ray k(2,3) cell_is_def split_beta)
  show ?thesis
  proof (cases "k \<noteq> 0 \<and> cell_is b me (along r c d (Suc k))")
    case True
    then have o: "outflanks b me opp r c d (Suc k)"
      using k(4) by (auto simp: outflanks_def gr0_conv_Suc)
    have "j < Suc k \<longleftrightarrow> (\<exists>n>j. outflanks b me opp r c d n)" if j: "0 < j" for j
    proof
      assume "\<exists>n>j. outflanks b me opp r c d n"
      then obtain n where n: "j < n" "outflanks b me opp r c d n" by blast
      with j have "1 < n" by simp
      with n end_ show "j < Suc k" by simp
    qed (use o in blast)
    then have "{along r c d j | j. 0 < j \<and> j < Suc k} = {along r c d j | j. 0 < j \<and> (\<exists>n>j. outflanks b me opp r c d n)}"
      by blast
    then have "set line = {along r c d j | j. 0 < j \<and> (\<exists>n>j. outflanks b me opp r c d n)}"
      unfolding line .
    with True dist show ?thesis unfolding flips by simp
  next
    case False
    have none: "\<not> outflanks b me opp r c d n" if "0 < j" "j < n" for j n
    proof
      assume o: "outflanks b me opp r c d n"
      with that end_ have "n = Suc k" by simp
      with o that False show False by (simp add: outflanks_def)
    qed
    have "{along r c d j | j. 0 < j \<and> (\<exists>n>j. outflanks b me opp r c d n)} = {}" using none by blast
    moreover have "flips_along b me opp r c d = []" using False unfolding flips by auto
    ultimately show ?thesis by (simp only: distinct.simps set_simps)
  qed
qed

lemma is_player_cases: "is_player p \<Longrightarrow> p \<in> {0, black, white} \<and> p \<noteq> 0 \<and> 3 - p \<noteq> p \<and> opponent p = Inr (3 - p) \<and> is_player (3 - p)"
  by (auto simp: is_player_def opponent_def)

lemma distinct_concat_rays:
  assumes "set ds \<subseteq> set directions" "distinct ds" "on_board r c" "me \<noteq> opp"
  shows "distinct (concat (List.map (flips_along b me opp r c) ds))"
  using assms
proof (induction ds)
  case (Cons d ds)
  have "set (flips_along b me opp r c d) \<inter> set (flips_along b me opp r c d') = {}" if "d' \<in> set ds" for d'
  proof -
    have d: "d \<in> set directions" "d' \<in> set directions" "d \<noteq> d'" using Cons.prems that by auto
    note f = flips_along_set [OF d(1) Cons.prems(3,4), of b] flips_along_set [OF d(2) Cons.prems(3,4), of b]
    show ?thesis
    proof (rule ccontr)
      assume "\<not> ?thesis"
      then obtain x where "x \<in> set (flips_along b me opp r c d)" "x \<in> set (flips_along b me opp r c d')" by blast
      with f obtain k k' where "x = along r c d k" "0 < k" "x = along r c d' k'" "0 < k'" by blast
      with along_inj [OF d(1,2), of r c k k'] d(3) show False by simp
    qed
  qed
  moreover have "distinct (flips_along b me opp r c d)"
    using Cons.prems flips_along_set [of d r c me opp b] by simp
  ultimately show ?case using Cons by auto
qed simp

lemma flips_for_legal:
  assumes "board_ok b" "is_player me" "on_board r c" "cell_at b r c = 0"
  shows "\<exists>fs. flips_for b me r c = Inr fs \<and> distinct fs \<and> set fs = sandwiched b me r c"
proof -
  let ?fs = "concat (List.map (flips_along b me (3 - me) r c) directions)"
  note me = is_player_cases [OF assms(2)]
  have "flips_for b me r c = Inr ?fs"
    using assms me by (simp add: flips_for_def int_between_def on_board_def)
  moreover have "distinct ?fs"
    using me assms(3) by (intro distinct_concat_rays) (auto simp: directions_def)
  moreover have "set ?fs = (\<Union>d\<in>set directions. set (flips_along b me (3 - me) r c d))" by simp
  moreover have "\<dots> = sandwiched b me r c"
    using flips_along_set [OF _ assms(3), of _ me "3 - me" b] me unfolding sandwiched_def by fastforce
  ultimately show ?thesis by auto
qed

lemma flips_for_Inr:
  assumes "flips_for b me r c = Inr fs" "is_player me"
  shows "board_ok b \<and> on_board r c \<and> (if cell_at b r c = 0 then distinct fs \<and> set fs = sandwiched b me r c else fs = [])"
proof -
  have o: "on_board r c" and b: "board_ok b"
    using assms(1) by (auto simp: flips_for_def after_Inr int_between_Inr check_board_Inr on_board_def)
  with assms flips_for_legal [OF b assms(2) o] show ?thesis
    by (auto simp: flips_for_def after_Inr int_between_Inr check_board_Inr split: if_splits)
qed

lemma sandwiched_cells: "x \<in> sandwiched b me r c \<Longrightarrow> cell_is b (3 - me) x"
  by (auto simp: sandwiched_def outflanks_def)

lemma sandwiched_other: "cell_at b r c = 0 \<Longrightarrow> is_player me \<Longrightarrow> (r, c) \<notin> sandwiched b me r c"
  using sandwiched_cells [of "(r, c)" b me r c] is_player_cases [of me] by (auto simp: cell_is_def)

section \<open>Legal moves\<close>

definition can_move :: "board \<Rightarrow> int \<Rightarrow> int \<Rightarrow> int \<Rightarrow> bool" where
  "can_move b me r c \<longleftrightarrow> on_board r c \<and> cell_at b r c = 0 \<and> sandwiched b me r c \<noteq> {}"

lemma on_board_grid: "(r, c) \<in> set (List.product (List.map int [0..<8]) (List.map int [0..<8])) \<longleftrightarrow> on_board r c"
  by (auto simp: on_board_nat)

lemma legal_moves_Inr:
  assumes "board_ok b" "is_player me"
  shows "\<exists>ms. legal_moves b me = Inr ms \<and> set ms = {(r, c). can_move b me r c}"
proof -
  have "(case flips_for b me r c of Inr (f # fs) \<Rightarrow> True | _ \<Rightarrow> False) \<longleftrightarrow> sandwiched b me r c \<noteq> {}"
    if c: "on_board r c" "cell_at b r c = 0" for r c
  proof -
    obtain fs where "flips_for b me r c = Inr fs" "set fs = sandwiched b me r c"
      using flips_for_legal [OF assms c] by blast
    then show ?thesis by (cases fs) auto
  qed
  then show ?thesis
    using assms unfolding legal_moves_def can_move_def
    by (intro exI conjI) (simp add: check_board_ok, auto simp del: set_product simp: on_board_grid)
qed

section \<open>The move\<close>

lemma apply_move_runs:
  assumes "board_ok b" "is_player me" "can_move b me r c" "cell_count 0 b \<le> 61"
  shows "\<exists>fs b'. apply_move b me r c = Inr b' \<and> distinct fs \<and> set fs = sandwiched b me r c \<and>
    b' = paint me fs (set_cell b r c me) \<and> board_ok b' \<and>
    cell_count me b' = cell_count me b + 1 + int (length fs) \<and>
    cell_count (3 - me) b' = cell_count (3 - me) b - int (length fs) \<and>
    cell_count 0 b' = cell_count 0 b - 1"
proof -
  note c = assms(3) [unfolded can_move_def] and me = is_player_cases [OF assms(2)]
  obtain fs where fs: "flips_for b me r c = Inr fs" "distinct fs" "set fs = sandwiched b me r c"
    using flips_for_legal [OF assms(1,2)] c by blast
  let ?b = "set_cell b r c me" and ?b' = "paint me fs (set_cell b r c me)"
  have ok: "board_ok ?b" using assms(1) me by (intro set_cell_ok) auto
  have cells: "\<forall>(r', c')\<in>set fs. on_board r' c' \<and> cell_at ?b r' c' = 3 - me"
  proof safe
    fix r' c' assume in_: "(r', c') \<in> set fs"
    then show o: "on_board r' c'" using sandwiched_cells fs(3) by (fastforce simp: cell_is_def)
    have "cell_at b r' c' = 3 - me" using in_ sandwiched_cells fs(3) by (fastforce simp: cell_is_def)
    then show "cell_at ?b r' c' = 3 - me"
      using cell_at_set_cell [OF assms(1) _ o, of r c me] c me by auto
  qed
  have n: "cell_count w ?b' = cell_count w ?b - (if w = 3 - me then int (length fs) else 0)
      + (if w = me then int (length fs) else 0)" for w
    using ok me fs(2) cells by (intro cell_count_paint) auto
  have n0: "cell_count w ?b = cell_count w b - of_bool (w = 0) + of_bool (w = me)" for w
    using cell_count_set_cell [OF assms(1), of r c w me] c by auto
  have counts: "cell_count me ?b' = cell_count me b + 1 + int (length fs)"
    "cell_count (3 - me) ?b' = cell_count (3 - me) b - int (length fs)"
    "cell_count 0 ?b' = cell_count 0 b - 1"
    using n n0 me by auto
  have ok': "board_ok ?b'" using ok me by (intro paint_ok) auto
  have "board_ok b \<and> fs \<noteq> []" using assms(1) fs(3) c by auto
  moreover have "length ?b' = 8" using ok' by (simp add: board_ok_def)
  ultimately have "apply_move b me r c = Inr ?b'"
    using fs(1) c me counts(3) assms(2,4)
    by (simp add: apply_move_def int_between_def on_board_def validate_board_counts_def Let_def)
  with fs ok' counts show ?thesis by blast
qed

lemma apply_move_only:
  assumes "apply_move b me r c = Inr b'" "is_player me"
  shows "board_ok b \<and> can_move b me r c \<and> cell_count 0 b \<le> 61"
proof -
  obtain fs where fs: "flips_for b me r c = Inr fs" "fs \<noteq> []"
    using assms(1) by (auto simp: apply_move_def after_Inr split: if_splits)
  note f = flips_for_Inr [OF fs(1) assms(2)]
  then have m: "board_ok b" "can_move b me r c"
    using fs(2) by (auto simp: can_move_def split: if_splits)
  have o: "on_board r c" "cell_at b r c = 0" using m(2) by (auto simp: can_move_def)
  note me = is_player_cases [OF assms(2)]
  let ?b' = "paint me fs (set_cell b r c me)"
  have b': "validate_board_counts ?b' = Inr ()" 
    using assms fs m o by (auto simp: apply_move_def after_Inr int_between_Inr Let_def split: if_splits)
  have ok: "board_ok (set_cell b r c me)" using m(1) me by (intro set_cell_ok) auto
  have cells: "\<forall>(r', c')\<in>set fs. on_board r' c' \<and> cell_at (set_cell b r c me) r' c' = 3 - me"
    using f o sandwiched_cells [of _ b me r c] me
    by (fastforce simp: cell_is_def cell_at_set_cell [OF m(1) o(1)] split: if_splits)
  have "cell_count 0 ?b' = cell_count 0 (set_cell b r c me)"
    using cell_count_paint [of "set_cell b r c me" me "3 - me" fs 0] ok me cells f o by auto
  moreover have "cell_count 0 (set_cell b r c me) = cell_count 0 b - 1"
    using cell_count_set_cell [OF m(1) o(1), of 0 me] o me by auto
  moreover have "length ?b' = 8" using paint_ok [OF ok, of me fs] me by (auto simp: board_ok_def)
  ultimately show ?thesis using b' m by (simp add: validate_board_counts_def split: if_splits)
qed

end
