(* ===== verification/OthelloRoom.thy ===== *)
theory OthelloRoom
  imports OthelloFacts
begin

text \<open>
  The room of \<open>othello_corner.py\<close>: its state and phases, opening, starting, a move by either side,
  the turn of the built-in player, the ways it ends, what spectators see, the moves read from chat
  and the history of matches.  An operation changes the state in place, so it is a program over the
  state, and a call that raises leaves what it had already written.

  The clock is an argument: \<open>t1\<close> and \<open>t2\<close> are the first and the second reading an operation makes
  when the caller passes no \<open>now\<close>.
\<close>

section \<open>State\<close>

record game_result =
  gr_black :: int
  gr_white :: int
  gr_outcome :: string
  gr_ended_at :: string

record room =
  rm_phase :: string
  rm_room_id :: "string option"
  rm_viewer :: "string option"
  rm_board :: "board option"
  rm_turn :: "int option"
  rm_moves_played :: int
  rm_move_window :: "int option"
  rm_deadline :: "string option"
  rm_opened_at :: "string option"
  rm_started_at :: "string option"
  rm_ended_at :: "string option"
  rm_outcome :: "string option"
  rm_result :: "game_result option"
  rm_failure_reason :: "string option"

type_synonym 'a room_prog = "(room, othello_error, 'a) eff"

definition new_state :: room where
  "new_state = \<lparr>rm_phase = ''IDLE'', rm_room_id = None, rm_viewer = None, rm_board = None,
     rm_turn = None, rm_moves_played = 0, rm_move_window = None, rm_deadline = None,
     rm_opened_at = None, rm_started_at = None, rm_ended_at = None, rm_outcome = None,
     rm_result = None, rm_failure_reason = None\<rparr>"

definition room_phases :: "string list" where
  "room_phases = [''IDLE'', ''ROOM_OPEN'', ''PLAYING'', ''FINISHED'', ''FAILED'', ''TIMEOUT'']"

definition transitions :: "string \<Rightarrow> string list" where
  "transitions p =
     (if p = ''IDLE'' then [''ROOM_OPEN'']
      else if p = ''ROOM_OPEN'' then [''PLAYING'', ''FAILED'', ''TIMEOUT'']
      else if p = ''PLAYING'' then [''FINISHED'', ''FAILED'', ''TIMEOUT'']
      else if p = ''FINISHED'' \<or> p = ''FAILED'' \<or> p = ''TIMEOUT'' then [''IDLE'']
      else [])"

definition room_transition :: "string \<Rightarrow> unit room_prog" where
  "room_transition target = (\<lambda>s.
     if rm_phase s \<notin> set room_phases then (Inl (OthelloCornerError ''invalid state phase''), s)
     else if target \<notin> set (transitions (rm_phase s)) then
       (Inl (OthelloCornerError (''invalid transition '' @ rm_phase s @ '' -> '' @ target)), s)
     else (Inr (), s\<lparr>rm_phase := target\<rparr>))"

definition text_arg :: "string \<Rightarrow> nat \<Rightarrow> string \<Rightarrow> othello_error + string" where
  "text_arg what limit v =
     (if 1 \<le> length v \<and> length v \<le> limit then Inr v else Inl (OthelloCornerError (''invalid '' @ what)))"

text \<open>\<open>now or _now()\<close>.\<close>

definition now_or :: "string option \<Rightarrow> string \<Rightarrow> string" where
  "now_or now t = (case now of None \<Rightarrow> t | Some n \<Rightarrow> if n = '''' then t else n)"

definition in_phase :: "string list \<Rightarrow> string \<Rightarrow> unit room_prog" where
  "in_phase ps msg = bnd (asks rm_phase) (\<lambda>p. unless (p \<in> set ps) (OthelloCornerError msg))"

section \<open>Operations\<close>

definition open_room :: "string \<Rightarrow> string \<Rightarrow> int \<Rightarrow> string option \<Rightarrow> string \<Rightarrow> unit room_prog" where
  "open_room room_id viewer window now t1 =
     thn (in_phase [''IDLE''] ''open_room requires IDLE phase'')
     (bnd (lift (text_arg ''room id'' 64 room_id)) (\<lambda>rid.
      bnd (lift (text_arg ''viewer name'' 64 viewer)) (\<lambda>name.
      bnd (lift (int_between ''window_seconds'' 1 300 window)) (\<lambda>ws.
      thn (alter (\<lambda>s. s\<lparr>rm_room_id := Some rid, rm_viewer := Some name, rm_move_window := Some ws,
             rm_opened_at := Some (now_or now t1), rm_board := Some new_board, rm_turn := Some black,
             rm_moves_played := 0, rm_outcome := None, rm_result := None, rm_failure_reason := None,
             rm_ended_at := None\<rparr>))
          (room_transition ''ROOM_OPEN'')))))"

definition start_match :: "string option \<Rightarrow> string \<Rightarrow> unit room_prog" where
  "start_match now t1 =
     thn (in_phase [''ROOM_OPEN''] ''start_match requires ROOM_OPEN phase'')
     (thn (alter (\<lambda>s. s\<lparr>rm_board := Some new_board, rm_turn := Some black, rm_moves_played := 0,
            rm_started_at := Some (now_or now t1), rm_deadline := None\<rparr>))
          (room_transition ''PLAYING''))"

text \<open>\<open>_board(state["board"])\<close> and \<open>state.get("board") or new_board()\<close>.\<close>

definition room_board :: "board room_prog" where
  "room_board = bnd (asks rm_board) (\<lambda>b. lift (case b of
     None \<Rightarrow> Inl (OthelloCornerError ''invalid board'') | Some b \<Rightarrow> check_board b))"

definition board_or_new :: "room \<Rightarrow> board" where
  "board_or_new s = (case rm_board s of None \<Rightarrow> new_board | Some b \<Rightarrow> if b = [] then new_board else b)"

definition outcomes :: "string list" where
  "outcomes = [''viewer_win'', ''ai_win'', ''draw'', ''aborted'', ''timeout'']"

definition outcome_of :: "int option \<Rightarrow> string" where
  "outcome_of w = (case w of None \<Rightarrow> ''draw'' | Some p \<Rightarrow> if p = black then ''viewer_win'' else ''ai_win'')"

definition finish :: "string option \<Rightarrow> string option \<Rightarrow> string \<Rightarrow> string \<Rightarrow> unit room_prog" where
  "finish oc now t1 t2 =
     thn (in_phase [''PLAYING''] ''finish requires PLAYING phase'')
     (bnd (asks board_or_new) (\<lambda>b.
      bnd (lift (score b)) (\<lambda>(x, y).
      bnd (case oc of Some oc \<Rightarrow> ret oc
           | None \<Rightarrow> bnd room_board (\<lambda>b. bnd (lift (winner_of b)) (\<lambda>w. ret (outcome_of w)))) (\<lambda>oc.
      thn (unless (oc \<in> set outcomes) (OthelloCornerError ''invalid outcome''))
      (thn (alter (\<lambda>s. s\<lparr>rm_outcome := Some oc,
             rm_result := Some \<lparr>gr_black = x, gr_white = y, gr_outcome = oc, gr_ended_at = now_or now t1\<rparr>,
             rm_ended_at := Some (now_or now t2)\<rparr>))
           (room_transition ''FINISHED''))))))"

definition record_move :: "int \<Rightarrow> int \<Rightarrow> bool \<Rightarrow> string option \<Rightarrow> string \<Rightarrow> string \<Rightarrow> unit room_prog" where
  "record_move row col by_ai now t1 t2 =
     thn (in_phase [''PLAYING''] ''record_move requires PLAYING phase'')
     (bnd room_board (\<lambda>b.
      bnd (asks rm_turn) (\<lambda>turn.
      thn (unless (turn = Some black \<or> turn = Some white) (OthelloCornerError ''invalid turn''))
      (let mover = (if by_ai then white else black) in
       thn (unless (turn = Some mover) (OthelloCornerError ''not your turn''))
       (bnd (asks rm_moves_played) (\<lambda>n.
        if 80 \<le> n then finish None now t1 t2
        else
          bnd (lift (apply_move b mover row col)) (\<lambda>new.
          thn (alter (\<lambda>s. s\<lparr>rm_board := Some new, rm_moves_played := rm_moves_played s + 1, rm_deadline := None\<rparr>))
          (bnd (lift (opponent mover)) (\<lambda>opp.
           bnd room_board (\<lambda>nxt.
           bnd (lift (legal_moves nxt opp)) (\<lambda>replies.
           if replies \<noteq> [] then alter (\<lambda>s. s\<lparr>rm_turn := Some opp\<rparr>)
           else bnd (lift (legal_moves nxt mover)) (\<lambda>again.
             if again \<noteq> [] then alter (\<lambda>s. s\<lparr>rm_turn := Some mover\<rparr>)
             else finish None now t1 t2))))))))))))"

lemma record_move_counts:
  assumes "record_move r c ai now t1 t2 s = (Inr (), t)" "rm_moves_played s < 80"
  shows "rm_moves_played t = rm_moves_played s + 1"
proof -
  have fin: "finish None now t1 t2 u = (Inr (), v) \<Longrightarrow> rm_moves_played v = rm_moves_played u" for u v
    unfolding finish_def thn_def room_board_def in_phase_def room_transition_def unless_def
    by (auto elim!: bnd_InrE split: if_splits prod.splits)
  show ?thesis
    using assms unfolding record_move_def thn_def room_board_def in_phase_def unless_def Let_def
    by (auto elim!: bnd_InrE split: if_splits dest!: fin)
qed

section \<open>The built-in player's turn\<close>

function ai_loop :: "string option \<Rightarrow> string \<Rightarrow> string \<Rightarrow> unit room_prog" where
  "ai_loop now t1 t2 s =
     (if rm_turn s = Some white \<and> rm_phase s = ''PLAYING'' then
        if 80 \<le> rm_moves_played s then finish None now t1 t2 s
        else (case room_board s of (Inl x, _) \<Rightarrow> (Inl x, s) | (Inr b, _) \<Rightarrow>
          (case legal_moves b white of Inl x \<Rightarrow> (Inl x, s)
           | Inr [] \<Rightarrow> (case legal_moves b black of Inl x \<Rightarrow> (Inl x, s)
               | Inr (_ # _) \<Rightarrow> (Inr (), s\<lparr>rm_turn := Some black, rm_deadline := None\<rparr>)
               | Inr [] \<Rightarrow> finish None now t1 t2 s)
           | Inr (_ # _) \<Rightarrow> (case ai_choose_move b white None of Inl x \<Rightarrow> (Inl x, s)
               | Inr (r, c) \<Rightarrow> (case record_move r c True now t1 t2 s of
                   (Inl x, t) \<Rightarrow> (Inl x, t) | (Inr _, t) \<Rightarrow> ai_loop now t1 t2 t))))
      else (Inr (), s))"
  by pat_completeness auto

termination
  by (relation "measure (\<lambda>(now, t1, t2, s). nat (80 - rm_moves_played s))")
    (auto dest!: record_move_counts [OF sym])

declare ai_loop.simps [simp del]

definition ai_turn :: "string option \<Rightarrow> string \<Rightarrow> string \<Rightarrow> unit room_prog" where
  "ai_turn now t1 t2 =
     thn (in_phase [''PLAYING''] ''ai_turn requires PLAYING phase'')
     (bnd (asks rm_turn) (\<lambda>turn.
      thn (unless (turn = Some white) (OthelloCornerError ''not ai turn'')) (ai_loop now t1 t2)))"

section \<open>Other ends\<close>

definition room_fail :: "string \<Rightarrow> string option \<Rightarrow> string \<Rightarrow> unit room_prog" where
  "room_fail reason now t1 =
     thn (in_phase [''ROOM_OPEN'', ''PLAYING''] ''fail requires an open or playing room'')
     (bnd (lift (text_arg ''failure reason'' 256 reason)) (\<lambda>reason.
      thn (alter (\<lambda>s. s\<lparr>rm_failure_reason := Some reason, rm_outcome := Some ''aborted'',
             rm_ended_at := Some (now_or now t1)\<rparr>))
          (room_transition ''FAILED'')))"

definition room_timeout :: "string option \<Rightarrow> string \<Rightarrow> unit room_prog" where
  "room_timeout now t1 =
     thn (in_phase [''ROOM_OPEN'', ''PLAYING''] ''timeout requires an open or playing room'')
     (thn (alter (\<lambda>s. s\<lparr>rm_outcome := Some ''timeout'', rm_ended_at := Some (now_or now t1)\<rparr>))
          (room_transition ''TIMEOUT''))"

definition room_reset :: "unit room_prog" where
  "room_reset =
     thn (in_phase [''FINISHED'', ''FAILED'', ''TIMEOUT''] ''reset requires a terminal phase'')
     (alter (\<lambda>_. new_state))"

section \<open>Spectators\<close>

record spectator =
  sv_phase :: string
  sv_room_id :: "string option"
  sv_board :: "board option"
  sv_turn :: "string option"
  sv_scores :: "(int \<times> int) option"
  sv_moves_played :: int
  sv_outcome :: "string option"
  sv_result :: "game_result option"
  sv_your_turn :: "bool option"

definition player_label :: "int option \<Rightarrow> string option" where
  "player_label turn = (if turn = Some black then Some ''black'' else if turn = Some white then Some ''white'' else None)"

definition spectator_view :: "room \<Rightarrow> othello_error + spectator" where
  "spectator_view s =
     (if rm_phase s = ''IDLE'' then
        Inr \<lparr>sv_phase = ''IDLE'', sv_room_id = None, sv_board = None, sv_turn = None, sv_scores = None,
             sv_moves_played = 0, sv_outcome = None, sv_result = None, sv_your_turn = None\<rparr>
      else after (check_board (board_or_new s)) (\<lambda>b. after (score b) (\<lambda>sc.
        Inr \<lparr>sv_phase = rm_phase s, sv_room_id = rm_room_id s, sv_board = Some b,
             sv_turn = player_label (rm_turn s), sv_scores = Some sc,
             sv_moves_played = rm_moves_played s, sv_outcome = rm_outcome s, sv_result = rm_result s,
             sv_your_turn = (if rm_phase s = ''PLAYING'' then Some (rm_turn s = Some black) else None)\<rparr>)))"

section \<open>Moves in chat\<close>

definition square_of :: "string \<Rightarrow> (int \<times> int) option" where
  "square_of t = (case t of
     [x, y] \<Rightarrow> if x \<in> set ''abcdefgh'' \<and> y \<in> set ''12345678''
       then Some (int (of_char y) - 49, int (of_char x) - 97) else None
   | _ \<Rightarrow> None)"

definition parse_move :: "string \<Rightarrow> (int \<times> int) option" where
  "parse_move text =
     (let t = List.map py_lower (py_strip text);
          t = (case t of c # r \<Rightarrow> if c = CHR ''!'' then py_strip r else t | [] \<Rightarrow> t)
      in case py_words [] t of
           [w, m] \<Rightarrow> if w = ''move'' \<or> w = ''m'' then square_of m else None
         | _ # _ # _ \<Rightarrow> None
         | _ \<Rightarrow> square_of t)"

section \<open>History\<close>

record match_entry =
  me_room_id :: "string option"
  me_viewer :: "string option"
  me_started_at :: "string option"
  me_ended_at :: string
  me_moves :: int
  me_black :: int
  me_white :: int
  me_outcome :: "string option"
  me_failure_reason :: "string option"

text \<open>\<open>bytes es\<close> is the length of the JSON text of the entries.\<close>

fun trim_bytes :: "(match_entry list \<Rightarrow> nat) \<Rightarrow> match_entry list \<Rightarrow> match_entry list" where
  "trim_bytes bytes [] = []"
| "trim_bytes bytes (e # es) = (if bytes (e # es) \<le> 256 * 1024 then e # es else trim_bytes bytes es)"

definition trim_history :: "(match_entry list \<Rightarrow> nat) \<Rightarrow> match_entry list \<Rightarrow> match_entry list" where
  "trim_history bytes es = trim_bytes bytes (drop (length es - 500) es)"

definition record_match :: "(match_entry list \<Rightarrow> nat) \<Rightarrow> match_entry list \<Rightarrow> room \<Rightarrow> string option \<Rightarrow> string
    \<Rightarrow> othello_error + bool \<times> match_entry list" where
  "record_match bytes es s now t1 =
     (if rm_phase s \<notin> {''FINISHED'', ''FAILED'', ''TIMEOUT''} then Inr (False, es)
      else after (score (board_or_new s)) (\<lambda>(x, y).
        Inr (True, trim_history bytes (es @
          [\<lparr>me_room_id = rm_room_id s, me_viewer = rm_viewer s, me_started_at = rm_started_at s,
            me_ended_at = now_or now (case rm_ended_at s of None \<Rightarrow> t1 | Some e \<Rightarrow> if e = '''' then t1 else e),
            me_moves = rm_moves_played s, me_black = x, me_white = y, me_outcome = rm_outcome s,
            me_failure_reason = rm_failure_reason s\<rparr>]))))"

end
