(* ===== verification/OthelloProperties.thy ===== *)
theory OthelloProperties
  imports OthelloRoom
begin

text \<open>
  The properties of the Othello corner: what a move does to the board, and that a room which is
  playing always waits for a side that can move.
\<close>

section \<open>Moves\<close>

text \<open>C37: \<open>apply_move\<close> accepts a move exactly when the square is empty and some line of opposing discs
  lies between it and a disc of the player (and the board has at least three discs); the new board
  has the player's disc on that square and on exactly those lines, every other square as it was, and
  the numbers of discs change by what was turned over.\<close>

theorem move_turns_sandwiched:
  assumes "is_player p"
  shows "apply_move b p r c = Inr b' \<longleftrightarrow>
    board_ok b \<and> board_ok b' \<and> can_move b p r c \<and> cell_count 0 b \<le> 61 \<and>
    (\<forall>i<8. \<forall>j<8. b' ! i ! j =
      (if (int i, int j) = (r, c) \<or> (int i, int j) \<in> sandwiched b p r c then p else b ! i ! j)) \<and>
    cell_count p b' = cell_count p b + 1 + int (card (sandwiched b p r c)) \<and>
    cell_count (3 - p) b' = cell_count (3 - p) b - int (card (sandwiched b p r c))"
    (is "?L \<longleftrightarrow> ?R b'")
proof -
  have run: "\<exists>b'. apply_move b p r c = Inr b' \<and> ?R b'"
    if ok: "board_ok b" "can_move b p r c" "cell_count 0 b \<le> 61"
  proof -
    obtain fs b' where f: "apply_move b p r c = Inr b'" "distinct fs" "set fs = sandwiched b p r c"
      "b' = paint p fs (set_cell b r c p)" "board_ok b'"
      "cell_count p b' = cell_count p b + 1 + int (length fs)"
      "cell_count (3 - p) b' = cell_count (3 - p) b - int (length fs)"
      using apply_move_runs [OF ok(1) assms ok(2,3)] by blast
    have n: "length fs = card (sandwiched b p r c)" using f(2,3) distinct_card by fastforce
    have o: "on_board r c" and e: "cell_at b r c = 0" using ok(2) by (auto simp: can_move_def)
    have s: "board_ok (set_cell b r c p)" "p \<in> {0, black, white}"
      using ok(1) is_player_cases [OF assms] by (auto intro: set_cell_ok)
    have on: "\<forall>(r', c')\<in>set fs. on_board r' c'"
      using sandwiched_cells f(3) by (fastforce simp: cell_is_def)
    have "b' ! i ! j = (if (int i, int j) = (r, c) \<or> (int i, int j) \<in> sandwiched b p r c then p else b ! i ! j)"
      if "i < 8" "j < 8" for i j
    proof -
      have ij: "on_board (int i) (int j)" using that by (simp add: on_board_def)
      show ?thesis
        using cell_at_paint [OF s on ij] cell_at_set_cell [OF ok(1) o ij, of p]
        by (auto simp: f(3,4) cell_at_def)
    qed
    with f ok n show ?thesis by auto
  qed
  show ?thesis
  proof
    assume L: ?L
    with run apply_move_only [OF L assms] show "?R b'" by auto
  next
    assume R: "?R b'"
    then obtain b'' where b'': "apply_move b p r c = Inr b''" "?R b''" using run by blast
    have "b'' = b'"
      using R b''(2) by (intro nth_equalityI) (auto simp: board_ok_nth intro!: nth_equalityI)
    with b''(1) show ?L by simp
  qed
qed

lemma move_turns_sandwiched_witness:
  "\<exists>b'. apply_move new_board black 2 3 = Inr b' \<and>
    cell_count black b' = cell_count black new_board + 1 + int (card (sandwiched new_board black 2 3))"
proof -
  obtain b' where b': "apply_move new_board black 2 3 = Inr b'"
    by (cases "apply_move new_board black 2 3") (simp_all, code_simp)
  then show ?thesis
    using move_turns_sandwiched [of black new_board 2 3 b'] by (simp add: is_player_def)
qed

section \<open>The room\<close>

definition seated :: "room \<Rightarrow> bool" where
  "seated s \<longleftrightarrow> (\<exists>b p. rm_board s = Some b \<and> board_ok b \<and> rm_turn s = Some p \<and> is_player p \<and>
     (\<exists>r c. can_move b p r c) \<and> 0 \<le> rm_moves_played s \<and> cell_count 0 b + rm_moves_played s = 60)"

definition room_inv :: "room \<Rightarrow> bool" where
  "room_inv s \<longleftrightarrow> (rm_phase s = ''PLAYING'' \<longrightarrow> seated s)"

lemma in_phase_run: "in_phase ps msg s = (if rm_phase s \<in> set ps then (Inr (), s) else (Inl (OthelloCornerError msg), s))"
  by (simp add: in_phase_def bnd_def unless_def)

lemma thn_run: "thn m n s = (case m s of (Inl x, t) \<Rightarrow> (Inl x, t) | (Inr v, t) \<Rightarrow> n t)"
  by (simp add: thn_def bnd_def)

lemma unless_run: "unless b x s = (if b then (Inr (), s) else (Inl x, s))"
  by (simp add: unless_def)

lemmas run_room = in_phase_run thn_run unless_run bnd_def

lemma room_board_run: "rm_board s = Some b \<Longrightarrow> board_ok b \<Longrightarrow> room_board s = (Inr b, s)"
  by (simp add: room_board_def bnd_def)

lemma legal_moves_can_move:
  assumes "board_ok b" "is_player p"
  shows "\<exists>ms. legal_moves b p = Inr ms \<and> (ms \<noteq> [] \<longleftrightarrow> (\<exists>r c. can_move b p r c)) \<and>
    (\<forall>m\<in>set ms. can_move b p (fst m) (snd m))"
proof -
  obtain ms where ms: "legal_moves b p = Inr ms" "set ms = {(r, c). can_move b p r c}"
    using legal_moves_Inr [OF assms] by blast
  have "ms \<noteq> [] \<longleftrightarrow> set ms \<noteq> {}" by simp
  with ms show ?thesis by auto
qed

lemma finish_run:
  assumes "rm_phase s = ''PLAYING''" "rm_board s = Some b" "board_ok b"
  shows "\<exists>t. finish None now t1 t2 s = (Inr (), t) \<and> rm_phase t = ''FINISHED''"
proof -
  have "b \<noteq> []" using assms(3) by (auto simp: board_ok_def)
  with assms show ?thesis
    by (auto simp: finish_def run_room room_board_run board_or_new_def score_def winner_of_def
        outcomes_def outcome_of_def room_transition_def transitions_def room_phases_def)
qed

lemma record_move_run:
  assumes "rm_phase s = ''PLAYING''" "seated s"
  shows "case record_move r c ai now t1 t2 s of
      (Inl x, t) \<Rightarrow> t = s \<and> \<not> (rm_turn s = Some (if ai then white else black) \<and>
        (\<exists>b. rm_board s = Some b \<and> can_move b (if ai then white else black) r c))
    | (Inr _, t) \<Rightarrow> rm_phase t = ''FINISHED'' \<or> rm_phase t = ''PLAYING'' \<and> seated t"
proof -
  define m where "m = (if ai then white else black)"
  obtain b p where b: "rm_board s = Some b" "board_ok b" "rm_turn s = Some p" "is_player p"
    "cell_count 0 b + rm_moves_played s = 60" "0 \<le> rm_moves_played s"
    using assms(2) by (auto simp: seated_def)
  have n: "rm_moves_played s < 80" "cell_count 0 b \<le> 61"
    using b(5,6) cell_count_nonneg [of 0 b] by linarith+
  have m: "is_player m" by (auto simp: m_def is_player_def)
  have m': "is_player (3 - m)" using m by (auto simp: is_player_def)
  note start = record_move_def m_def [symmetric] Let_def run_room assms(1) room_board_run b(1-3) n(1) not_le [THEN iffD2, OF n(1)]
    is_player_cases [OF m]
  have turn: "p = black \<or> p = white" using b(4) by (simp add: is_player_def)
  show ?thesis
  proof (cases "p = m \<and> can_move b m r c")
    case False
    have "\<exists>y. record_move r c ai now t1 t2 s = (Inl y, s)"
    proof (cases "p = m")
      case True
      then obtain x where "apply_move b m r c = Inl x"
        using False apply_move_only [of b m r c] m by (cases "apply_move b m r c") auto
      with True turn show ?thesis by (auto simp: start)
    qed (use turn in \<open>auto simp: start\<close>)
    with False b show ?thesis by (auto simp: m_def split: prod.splits sum.splits)
  next
    case True
    then obtain b' where b': "apply_move b m r c = Inr b'" "board_ok b'" "cell_count 0 b' = cell_count 0 b - 1"
      using apply_move_runs [OF b(2) m _ n(2), of r c] by blast
    define u where "u = s\<lparr>rm_board := Some b', rm_moves_played := rm_moves_played s + 1, rm_deadline := None\<rparr>"
    have u: "room_board u = (Inr b', u)" "rm_phase u = ''PLAYING''" "rm_board u = Some b'"
      "cell_count 0 b' + rm_moves_played u = 60" "0 \<le> rm_moves_played u"
      using b'(2,3) b(5,6) assms(1) by (simp_all add: u_def room_board_run)
    obtain os where os: "legal_moves b' (3 - m) = Inr os" "os \<noteq> [] \<longleftrightarrow> (\<exists>r c. can_move b' (3 - m) r c)"
      using legal_moves_can_move [OF b'(2) m'] by blast
    obtain ms where ms: "legal_moves b' m = Inr ms" "ms \<noteq> [] \<longleftrightarrow> (\<exists>r c. can_move b' m r c)"
      using legal_moves_can_move [OF b'(2) m] by blast
    have "record_move r c ai now t1 t2 s =
        (if os \<noteq> [] then (Inr (), u\<lparr>rm_turn := Some (3 - m)\<rparr>)
         else if ms \<noteq> [] then (Inr (), u\<lparr>rm_turn := Some m\<rparr>) else finish None now t1 t2 u)"
      using True turn b' os(1) ms(1) u(1) by (auto simp: start u_def [symmetric])
    moreover have "seated (u\<lparr>rm_turn := Some (3 - m)\<rparr>)" if "os \<noteq> []"
      using that os(2) u b'(2) is_player_cases [OF m] by (simp add: seated_def)
    moreover have "seated (u\<lparr>rm_turn := Some m\<rparr>)" if "ms \<noteq> []"
      using that ms(2) u b'(2) m by (simp add: seated_def)
    ultimately show ?thesis
      using finish_run [OF u(2,3) b'(2), of now t1 t2] u(2) by (auto split: if_splits)
  qed
qed

lemma start_seated: "seated (s\<lparr>rm_board := Some new_board, rm_turn := Some black, rm_moves_played := 0\<rparr>)"
proof -
  have "check_board new_board = Inr new_board" by code_simp
  then have ok: "board_ok new_board" by (simp add: check_board_Inr)
  have m: "(2, 3) \<in> set (case legal_moves new_board black of Inr ms \<Rightarrow> ms | Inl x \<Rightarrow> [])" by code_simp
  have "is_player black" by (simp add: is_player_def)
  with ok obtain ms where "legal_moves new_board black = Inr ms"
    "\<forall>m\<in>set ms. can_move new_board black (fst m) (snd m)"
    using legal_moves_can_move [of new_board black] by blast
  with m have "can_move new_board black 2 3" by fastforce
  moreover have "cell_count 0 new_board = 60" by code_simp
  ultimately show ?thesis using ok by (auto simp: seated_def is_player_def)
qed

lemma weight_on_board: "on_board (fst m) (snd m) \<Longrightarrow> \<exists>v. weight m = Inr v"
proof -
  assume o: "on_board (fst m) (snd m)"
  have rows: "length positional_weights = 8" "\<forall>row\<in>set positional_weights. length row = 8"
    by (simp_all add: positional_weights_def)
  then have "length (positional_weights ! nat (fst m)) = 8" using o by (auto simp: on_board_def)
  with o rows(1) show ?thesis by (auto simp: weight_def py_index_def on_board_def)
qed

lemma best_move_in:
  assumes "\<forall>m\<in>set ms. on_board (fst m) (snd m)"
  shows "\<exists>r. best_move best ms = Inr r \<and>
    (case r of None \<Rightarrow> best = None \<and> ms = [] | Some (m, v) \<Rightarrow> m \<in> set ms \<or> best = Some (m, v))"
  using assms
proof (induction ms arbitrary: best)
  case Nil
  then show ?case by (cases best) auto
next
  case (Cons m ms)
  obtain v where v: "weight m = Inr v" using weight_on_board [of m] Cons.prems by auto
  define new where "new = (case best of None \<Rightarrow> Some (m, v) | Some (_, w) \<Rightarrow> if w < v then Some (m, v) else best)"
  obtain r where r: "best_move new ms = Inr r"
    "case r of None \<Rightarrow> new = None \<and> ms = [] | Some (m', v') \<Rightarrow> m' \<in> set ms \<or> new = Some (m', v')"
    using Cons.IH [of new] Cons.prems by auto
  have "new = Some (m, v) \<or> new = best \<and> best \<noteq> None"
    by (auto simp: new_def split: option.splits)
  with r v show ?case by (auto simp: new_def [symmetric] split: option.splits)
qed

lemma ai_chooses:
  assumes "board_ok b" "is_player p" "can_move b p r c"
  shows "\<exists>m. ai_choose_move b p None = Inr m \<and> can_move b p (fst m) (snd m)"
proof -
  obtain ms where ms: "legal_moves b p = Inr ms" "ms \<noteq> []" "\<forall>m\<in>set ms. can_move b p (fst m) (snd m)"
    using legal_moves_can_move [OF assms(1,2)] assms(3) by blast
  then have "\<forall>m\<in>set ms. on_board (fst m) (snd m)" by (auto simp: can_move_def)
  from best_move_in [OF this, of None] ms(2) obtain m v where "best_move None ms = Inr (Some (m, v))" "m \<in> set ms"
    by (auto split: option.splits)
  with ms assms(1,2) show ?thesis by (cases ms) (auto simp: ai_choose_move_def)
qed

text \<open>What the built-in player's turn leaves: the viewer to move, or a finished match.\<close>

lemma ai_loop_run:
  "rm_phase s = ''PLAYING'' \<Longrightarrow> seated s \<Longrightarrow> \<exists>t. ai_loop now t1 t2 s = (Inr (), t) \<and>
    (rm_phase t = ''FINISHED'' \<or> rm_phase t = ''PLAYING'' \<and> seated t \<and> rm_turn t = Some black)"
proof (induction now t1 t2 s rule: ai_loop.induct)
  case (1 now t1 t2 s)
  obtain b p r c where b: "rm_board s = Some b" "board_ok b" "rm_turn s = Some p" "is_player p"
    "can_move b p r c" "cell_count 0 b + rm_moves_played s = 60" "0 \<le> rm_moves_played s"
    using 1(3) by (auto simp: seated_def)
  show ?case
  proof (cases "p = white")
    case False
    with b(3,4) 1(2,3) show ?thesis by (simp add: ai_loop.simps [of now t1 t2 s] is_player_def)
  next
    case True
    have n: "\<not> 80 \<le> rm_moves_played s" using b(6) cell_count_nonneg [of 0 b] by linarith
    note rb = room_board_run [OF b(1,2)]
    obtain ms where ms: "legal_moves b white = Inr ms" "ms \<noteq> []"
      using legal_moves_can_move [OF b(2,4)] b(5) True by blast
    then obtain m0 ms0 where cons: "ms = m0 # ms0" by (cases ms) auto
    obtain x y where m: "ai_choose_move b white None = Inr (x, y)" "can_move b white x y"
      using ai_chooses [OF b(2,4,5)] True by auto
    obtain t where t: "record_move x y True now t1 t2 s = (Inr (), t)"
      "rm_phase t = ''FINISHED'' \<or> rm_phase t = ''PLAYING'' \<and> seated t"
      using record_move_run [OF 1(2,3), where r = x and c = y and ai = True and now = now and ?t1.0 = t1 and ?t2.0 = t2] m(2) b(1,3) True
      by (auto split: prod.splits sum.splits)
    have step: "ai_loop now t1 t2 s = ai_loop now t1 t2 t"
      using n rb ms cons m(1) t(1) b(3) True 1(2) by (simp add: ai_loop.simps [of now t1 t2 s])
    show ?thesis
    proof (cases "rm_phase t = ''PLAYING''")
      case True
      have "\<exists>v. ai_loop now t1 t2 t = (Inr (), v) \<and>
          (rm_phase v = ''FINISHED'' \<or> rm_phase v = ''PLAYING'' \<and> seated v \<and> rm_turn v = Some black)"
        using 1(1) [OF _ n _ _ ms(1) cons m(1) refl t(1) [symmetric]] b(3) \<open>p = white\<close> 1(2) rb t(2) True
        by simp
      with step show ?thesis by simp
    next
      case False
      with t(2) step show ?thesis by (simp add: ai_loop.simps [of now t1 t2 t])
    qed
  qed
qed

section \<open>Every room a program can produce\<close>

datatype room_call = ROpen string string int | RStart | RMove int int bool | RAi
  | RFinish "string option" | RFail string | RTimeout | RReset

fun room_serve :: "room_call \<Rightarrow> string option \<Rightarrow> string \<Rightarrow> string \<Rightarrow> unit room_prog" where
  "room_serve (ROpen rid v w) now t1 t2 = open_room rid v w now t1"
| "room_serve RStart now t1 t2 = start_match now t1"
| "room_serve (RMove r c ai) now t1 t2 = record_move r c ai now t1 t2"
| "room_serve RAi now t1 t2 = ai_turn now t1 t2"
| "room_serve (RFinish oc) now t1 t2 = finish oc now t1 t2"
| "room_serve (RFail reason) now t1 t2 = room_fail reason now t1"
| "room_serve RTimeout now t1 t2 = room_timeout now t1"
| "room_serve RReset now t1 t2 = room_reset"

inductive room_reached :: "room \<Rightarrow> bool" where
  room_new: "room_reached new_state"
| room_call: "room_reached s \<Longrightarrow> room_serve c now t1 t2 s = (r, t) \<Longrightarrow> room_reached t"

lemma finish_exits: "finish oc now t1 t2 s = (r, t) \<Longrightarrow> t = s \<or> rm_phase t = ''FINISHED''"
  by (auto simp: finish_def run_room room_board_def room_transition_def transitions_def room_phases_def
      split: if_splits prod.splits sum.splits option.splits)

lemma ends_exits:
  "open_room rid v w now t1 s = (r, t) \<Longrightarrow> t = s \<or> rm_phase t = ''ROOM_OPEN''"
  "room_fail reason now t1 s = (r, t) \<Longrightarrow> t = s \<or> rm_phase t = ''FAILED''"
  "room_timeout now t1 s = (r, t) \<Longrightarrow> t = s \<or> rm_phase t = ''TIMEOUT''"
  "room_reset s = (r, t) \<Longrightarrow> t = s \<or> rm_phase t = ''IDLE''"
  by (auto simp: open_room_def room_fail_def room_timeout_def room_reset_def run_room new_state_def
      room_transition_def transitions_def room_phases_def split: if_splits prod.splits sum.splits)

lemma start_exits: "start_match now t1 s = (r, t) \<Longrightarrow> t = s \<or> seated t"
  using start_seated by (auto simp: start_match_def run_room room_transition_def transitions_def
      room_phases_def seated_def split: if_splits)

lemma ai_turn_run:
  assumes "rm_phase s = ''PLAYING''" "seated s" "rm_turn s = Some white"
  shows "\<exists>t. ai_turn now t1 t2 s = (Inr (), t) \<and>
    (rm_phase t = ''FINISHED'' \<or> rm_phase t = ''PLAYING'' \<and> seated t \<and> rm_turn t = Some black)"
  using ai_loop_run [OF assms(1,2), of now t1 t2] assms by (simp add: ai_turn_def run_room)

lemma room_reached_inv: "room_reached s \<Longrightarrow> room_inv s"
proof (induction rule: room_reached.induct)
  case room_new
  show ?case by (simp add: room_inv_def new_state_def)
next
  case (room_call s c now t1 t2 r t)
  show ?case
  proof (cases c)
    case (RMove x y ai)
    show ?thesis
    proof (cases "rm_phase s = ''PLAYING''")
      case True
      with room_call.IH have "seated s" by (simp add: room_inv_def)
      from record_move_run [OF True this, where r = x and c = y and ai = ai and now = now and ?t1.0 = t1 and ?t2.0 = t2] room_call RMove show ?thesis
        by (auto simp: room_inv_def split: sum.splits)
    qed (use room_call RMove in \<open>auto simp: record_move_def run_room\<close>)
  next
    case RAi
    show ?thesis
    proof (cases "rm_phase s = ''PLAYING'' \<and> rm_turn s = Some white")
      case True
      with room_call.IH ai_turn_run [of s now t1 t2] room_call RAi show ?thesis
        by (auto simp: room_inv_def)
    qed (use room_call RAi in \<open>cases "rm_phase s = ''PLAYING''"; simp add: ai_turn_def run_room\<close>)
  qed (use room_call in \<open>auto simp: room_inv_def dest!: finish_exits ends_exits start_exits\<close>)
qed

text \<open>C36: whatever calls made the room, while it plays the side whose turn it is has a legal move, each
  of which \<open>record_move\<close> accepts; the number of moves is the number of discs beyond the first four, so
  it is at most 59 and the limit of 80 moves is never met.  When it is the built-in player's turn,
  \<open>ai_turn\<close> returns, with the viewer to move or the match finished: a pass cannot freeze the room.\<close>

theorem room_never_freezes:
  assumes "room_reached s" "rm_phase s = ''PLAYING''"
  shows "\<exists>b p ms. rm_board s = Some b \<and> rm_turn s = Some p \<and> legal_moves b p = Inr ms \<and> ms \<noteq> [] \<and>
    (\<forall>(r, c)\<in>set ms. fst (record_move r c (p = white) now t1 t2 s) = Inr ()) \<and>
    rm_moves_played s = cell_count black b + cell_count white b - 4 \<and>
    0 \<le> rm_moves_played s \<and> rm_moves_played s \<le> 59 \<and>
    (p = white \<longrightarrow> (\<exists>t. ai_turn now t1 t2 s = (Inr (), t) \<and>
      (rm_phase t = ''FINISHED'' \<or> rm_phase t = ''PLAYING'' \<and> rm_turn t = Some black)))"
proof -
  have s: "seated s" using room_reached_inv [OF assms(1)] assms(2) by (simp add: room_inv_def)
  then obtain b p r0 c0 where b: "rm_board s = Some b" "board_ok b" "rm_turn s = Some p" "is_player p"
    "can_move b p r0 c0" "0 \<le> rm_moves_played s" "cell_count 0 b + rm_moves_played s = 60"
    by (auto simp: seated_def)
  obtain ms where ms: "legal_moves b p = Inr ms" "ms \<noteq> []" "\<forall>m\<in>set ms. can_move b p (fst m) (snd m)"
    using legal_moves_can_move [OF b(2,4)] b(5) by blast
  have mover: "(if p = white then white else black) = p" using b(4) by (auto simp: is_player_def)
  have "fst (record_move r c (p = white) now t1 t2 s) = Inr ()" if "(r, c) \<in> set ms" for r c
    using record_move_run [OF assms(2) s, where r = r and c = c and ai = "p = white" and now = now
        and ?t1.0 = t1 and ?t2.0 = t2] ms(3) that b(1,3) mover
    by (auto split: prod.splits sum.splits)
  moreover have "rm_moves_played s \<le> 59"
  proof -
    have "cell_count 0 b \<le> 61" using b(6,7) by linarith
    then obtain b' where "board_ok b'" "cell_count 0 b' = cell_count 0 b - 1"
      using apply_move_runs [OF b(2,4,5)] by blast
    then show ?thesis using b(7) cell_count_nonneg [of 0 b'] by linarith
  qed
  moreover have "rm_moves_played s = cell_count black b + cell_count white b - 4"
    using board_cells [OF b(2)] b(7) by linarith
  moreover have "p = white \<longrightarrow> (\<exists>t. ai_turn now t1 t2 s = (Inr (), t) \<and>
      (rm_phase t = ''FINISHED'' \<or> rm_phase t = ''PLAYING'' \<and> rm_turn t = Some black))"
    using ai_turn_run [OF assms(2) s, of now t1 t2] b(3) by auto
  ultimately show ?thesis
    using b(1,3,6) ms(1,2) by (intro exI [of _ b] exI [of _ p] exI [of _ ms] conjI ballI) auto
qed

definition sample_room :: room where
  "sample_room = snd (start_match None ''t1'' (snd (open_room ''room'' ''viewer'' 45 None ''t0'' new_state)))"

lemma room_never_freezes_witness:
  "\<exists>b p ms. rm_board sample_room = Some b \<and> rm_turn sample_room = Some p \<and> legal_moves b p = Inr ms \<and> ms \<noteq> [] \<and>
    rm_moves_played sample_room = cell_count black b + cell_count white b - 4"
proof -
  have "room_reached (snd (open_room ''room'' ''viewer'' 45 None ''t0'' new_state))"
    by (rule room_call [OF room_new, of "ROpen ''room'' ''viewer'' 45" None "''t0''" "''t0''"])
      (simp add: prod_eq_iff)
  then have "room_reached sample_room"
    unfolding sample_room_def
    by (rule room_call [of _ RStart None "''t1''" "''t1''"]) (simp add: prod_eq_iff)
  moreover have "rm_phase sample_room = ''PLAYING''"
    by (simp add: sample_room_def open_room_def start_match_def run_room new_state_def text_arg_def
        int_between_def room_transition_def transitions_def room_phases_def)
  ultimately show ?thesis
    using room_never_freezes [of sample_room None "''a''" "''b''"] by blast
qed

section \<open>Moves in chat\<close>

definition square_text :: "int \<Rightarrow> int \<Rightarrow> string" where
  "square_text r c = [char_of (nat (97 + c)), char_of (nat (49 + r))]"

lemma parse_square_text: "on_board r c \<Longrightarrow> parse_move (''!move '' @ square_text r c) = Some (r, c)"
proof -
  assume "on_board r c"
  then have "r \<in> {0, 1, 2, 3, 4, 5, 6, 7}" "c \<in> {0, 1, 2, 3, 4, 5, 6, 7}" by (auto simp: on_board_def)
  then show ?thesis
    by (elim insertE emptyE; simp only:; code_simp)
qed

end
