(* ===== verification/TsuitateProperties.thy ===== *)
theory TsuitateProperties
  imports Tsuitate
begin

text \<open>
  The properties of the Tsuitate protocol: over any sequence of callbacks the gate hands out a move
  at most once for each position of a game while it stays in that game, and the public projection of a checked view is a
  view that parses back to it.
\<close>

section \<open>Runs of the gate\<close>

datatype gate_call = GConnect | GDisconnect int | GView jval int bool | GPrepare string
  | GAck move_intent jval | GTimeout move_intent | GQuiesce

fun gate_next :: "gate_call \<Rightarrow> gate \<Rightarrow> gate" where
  "gate_next GConnect g = snd (new_connection g)"
| "gate_next (GDisconnect n) g = snd (disconnect n g)"
| "gate_next (GView raw n sy) g = snd (accept_view raw n sy g)"
| "gate_next (GPrepare usi) g = snd (prepare_move usi g)"
| "gate_next (GAck i raw) g = snd (acknowledge i raw g)"
| "gate_next (GTimeout i) g = snd (intent_timeout i g)"
| "gate_next GQuiesce g = snd (request_quiesce g)"

definition gate_sent :: "gate_call \<Rightarrow> gate \<Rightarrow> move_intent list" where
  "gate_sent c g = (case c of
     GPrepare usi \<Rightarrow> (case fst (prepare_move usi g) of Inr i \<Rightarrow> [i] | Inl x \<Rightarrow> [])
   | _ \<Rightarrow> [])"

text \<open>
  A run counts the visits to games, without looking at how the gate judges a view: the number goes up
  when the view is of another game than before.  It logs every intent handed out, newest first, with
  the visit it was for.
\<close>

definition other_game :: "gate \<Rightarrow> gate \<Rightarrow> bool" where
  "other_game g h \<longleftrightarrow> map_option pv_game_id (mg_view h) \<noteq> map_option pv_game_id (mg_view g)"

inductive gate_run :: "gate \<Rightarrow> nat \<Rightarrow> (nat \<times> move_intent) list \<Rightarrow> bool" where
  run_new: "gate_run new_gate 0 []"
| run_step: "gate_run g n sent \<Longrightarrow> gate_next c g = h \<Longrightarrow>
    gate_run h (if other_game g h then n + 1 else n) (List.map (Pair n) (gate_sent c g) @ sent)"

text \<open>An intent is for the position of a view or for an earlier one of the same side of its game.\<close>

definition behind :: "move_intent \<Rightarrow> player_view \<Rightarrow> bool" where
  "behind i v \<longleftrightarrow> (case mi_position i of (game, color, number) \<Rightarrow>
     game = pv_game_id v \<and> color = pv_color v \<and> number \<le> pv_move_number v)"

definition gate_inv :: "gate \<Rightarrow> nat \<Rightarrow> (nat \<times> move_intent) list \<Rightarrow> bool" where
  "gate_inv g n sent \<longleftrightarrow>
     (\<forall>(m, i)\<in>set sent. m \<le> n \<and> mi_sequence i \<le> mg_sequence g) \<and>
     (\<forall>(m, i)\<in>set sent. m = n \<longrightarrow> (\<exists>v. mg_view g = Some v \<and> behind i v \<and>
        (mi_position i = view_key v \<longrightarrow> mi_usi i \<in> mg_attempted g))) \<and>
     distinct (List.map (\<lambda>(m, i). (m, mi_position i, mi_usi i)) sent) \<and>
     sorted_wrt (>) (List.map (mi_sequence \<circ> snd) sent) \<and>
     (\<forall>i. mg_pending g = Some i \<longrightarrow> sent \<noteq> [] \<and> hd sent = (n, i) \<and> map_option view_key (mg_view g) = Some (mi_position i))"

lemma behind_self: "mi_position i = view_key v \<Longrightarrow> behind i v"
  by (simp add: behind_def view_key_def)

lemma gate_inv_prepared:
  assumes "gate_inv g n sent" "mg_view g = Some v" "mi_usi i \<notin> mg_attempted g"
    "mi_sequence i = mg_sequence g + 1" "mi_position i = view_key v"
  shows "gate_inv (g\<lparr>mg_sequence := mg_sequence g + 1, mg_attempted := insert (mi_usi i) (mg_attempted g),
    mg_pending := Some i\<rparr>) n ((n, i) # sent)"
proof -
  have old: "\<And>m j. (m, j) \<in> set sent \<Longrightarrow> m \<le> n \<and> mi_sequence j \<le> mg_sequence g \<and>
      (m = n \<longrightarrow> behind j v \<and> (mi_position j = view_key v \<longrightarrow> mi_usi j \<in> mg_attempted g))"
    using assms(1,2) by (auto simp: gate_inv_def)
  then have "(n, mi_position i, mi_usi i) \<notin> set (List.map (\<lambda>(m, i). (m, mi_position i, mi_usi i)) sent)"
    using assms(3,5) by auto
  moreover have "\<forall>x\<in>set sent. mi_sequence (snd x) < mi_sequence i"
    using old assms(4) by fastforce
  ultimately show ?thesis
    using assms old behind_self [OF assms(5)] unfolding gate_inv_def by (auto dest!: old)
qed

text \<open>Everything but an accepted view and a prepared move leaves what the invariant reads, or only
  clears the pending intent.\<close>

definition gate_quiet :: "gate \<Rightarrow> gate \<Rightarrow> bool" where
  "gate_quiet g h \<longleftrightarrow> mg_view h = mg_view g \<and> mg_attempted h = mg_attempted g \<and> mg_sequence h = mg_sequence g
     \<and> (mg_pending h = mg_pending g \<or> mg_pending h = None)"

lemma quiet_same: "gate_quiet g h \<Longrightarrow> \<not> other_game g h"
  by (simp add: gate_quiet_def other_game_def)

lemma quiet_inv: "gate_quiet g h \<Longrightarrow> gate_inv g n sent \<Longrightarrow> gate_inv h n sent"
  by (auto simp: gate_quiet_def gate_inv_def)

lemma acknowledge_quiet: "gate_quiet g (snd (acknowledge i raw g))"
proof (cases raw)
  case (VObj ob)
  show ?thesis
  proof (cases "vget ob ''ok''")
    case (VBool b)
    show ?thesis
      by (cases b; cases "integer_arg (vget ob ''foulCount'') ''invalid_ack'' 1 10"; cases "mg_view g")
        (simp_all add: VObj VBool acknowledge_def gate_quiet_def Let_def)
  qed (simp_all add: VObj acknowledge_def gate_quiet_def Let_def)
qed (simp_all add: acknowledge_def gate_quiet_def Let_def)

lemma simple_quiet:
  "gate_quiet g (snd (new_connection g))" "gate_quiet g (snd (disconnect m g))"
  "gate_quiet g (snd (intent_timeout i g))" "gate_quiet g (snd (request_quiesce g))"
  by (auto simp: new_connection_def disconnect_def intent_timeout_def request_quiesce_def resync_def
      thn_def bnd_def whenM_def gate_quiet_def)

lemma accept_view_cases:
  "gate_quiet g (snd (accept_view raw m sy g)) \<or>
   (\<exists>v. parse_view raw = Inr v \<and> compare_views (mg_view g) v = Inr True \<and>
      snd (accept_view raw m sy g) = install_view v g)"
proof (cases "m \<noteq> mg_generation g \<or> \<not> mg_connected g")
  case True
  then show ?thesis by (simp add: accept_view_def gate_quiet_def)
next
  case False
  have "gate_quiet g (snd (accept_current_view raw sy g)) \<or>
     (\<exists>v. parse_view raw = Inr v \<and> compare_views (mg_view g) v = Inr True \<and>
       accept_current_view raw sy g = (Inr True, install_view v g))"
    by (auto simp: accept_current_view_def gate_quiet_def split: sum.splits bool.splits)
  then show ?thesis
    using False by (auto simp: accept_view_def gate_quiet_def split: prod.splits sum.splits)
qed

text \<open>An accepted view of the game on the board is of the same side and not of an earlier position; it
  is of a later one exactly when it advances, and then the attempts are forgotten.\<close>

lemma install_view_inv:
  assumes "gate_inv g n sent" "compare_views (mg_view g) v = Inr True"
  shows "gate_inv (install_view v g) (if map_option pv_game_id (mg_view g) = Some (pv_game_id v) then n else n + 1) sent"
proof (cases "map_option pv_game_id (mg_view g) = Some (pv_game_id v)")
  case False
  then have "advanced (mg_view g) v" by (auto simp: advanced_def split: option.splits)
  have "m \<noteq> n + 1" if "(m, i) \<in> set sent" for m i using that assms(1) by (auto simp: gate_inv_def)
  with \<open>advanced (mg_view g) v\<close> False assms(1) show ?thesis
    by (auto simp: gate_inv_def install_view_def Let_def simp del: map_option_eq_Some split: if_splits)
next
  case True
  then obtain w where w: "mg_view g = Some w" "pv_game_id w = pv_game_id v" by auto
  with assms(2) have v: "pv_color w = pv_color v" "pv_move_number w \<le> pv_move_number v"
    by (auto simp: compare_views_def split: if_splits)
  have old: "\<And>m i. (m, i) \<in> set sent \<Longrightarrow> m = n \<Longrightarrow> behind i w \<and> (mi_position i = view_key w \<longrightarrow> mi_usi i \<in> mg_attempted g)"
    using assms(1) w(1) by (auto simp: gate_inv_def)
  have later: "\<And>i. behind i w \<Longrightarrow> behind i v" using w v by (auto simp: behind_def)
  have "gate_inv (install_view v g) n sent"
  proof (cases "advanced (mg_view g) v")
    case True
    have "\<And>i. behind i w \<Longrightarrow> mi_position i \<noteq> view_key v"
      using True w by (auto simp: behind_def view_key_def advanced_def)
    with old later have "\<forall>(m, i)\<in>set sent. m = n \<longrightarrow> behind i v \<and> mi_position i \<noteq> view_key v" by blast
    with True assms(1) show ?thesis by (auto simp: gate_inv_def install_view_def Let_def)
  next
    case False
    then have k: "view_key w = view_key v" using w v by (simp add: view_key_def advanced_def)
    with old later have "\<forall>(m, i)\<in>set sent. m = n \<longrightarrow> behind i v \<and> (mi_position i = view_key v \<longrightarrow> mi_usi i \<in> mg_attempted g)"
      by auto
    with False assms(1) w(1) k show ?thesis by (auto simp: gate_inv_def install_view_def Let_def)
  qed
  with True show ?thesis by simp
qed

lemma prepare_move_cases:
  "snd (prepare_move usi g) = g \<and> gate_sent (GPrepare usi) g = [] \<or>
   (\<exists>v i. mg_view g = Some v \<and> usi \<notin> mg_attempted g \<and>
     mi_sequence i = mg_sequence g + 1 \<and> mi_position i = view_key v \<and> mi_usi i = usi \<and>
     gate_sent (GPrepare usi) g = [i] \<and>
     snd (prepare_move usi g) = g\<lparr>mg_sequence := mg_sequence g + 1, mg_attempted := insert usi (mg_attempted g),
       mg_pending := Some i\<rparr>)"
  by (auto simp: prepare_move_def gate_sent_def Let_def move_ready_def split: option.splits)

lemma gate_run_inv: "gate_run g n sent \<Longrightarrow> gate_inv g n sent"
proof (induction rule: gate_run.induct)
  case run_new
  show ?case by (simp add: gate_inv_def new_gate_def)
next
  case (run_step g n sent c h)
  have quiet: ?case if "gate_quiet g h" "gate_sent c g = []"
    using that run_step.IH quiet_inv quiet_same by simp
  show ?case
  proof (cases c)
    case (GView raw m sy)
    then have none: "gate_sent c g = []" by (simp add: gate_sent_def)
    have h: "h = snd (accept_view raw m sy g)" using run_step.hyps(2) GView by simp
    from accept_view_cases [of g raw m sy] show ?thesis
    proof
      assume "\<exists>v. parse_view raw = Inr v \<and> compare_views (mg_view g) v = Inr True \<and>
        snd (accept_view raw m sy g) = install_view v g"
      then obtain v where v: "compare_views (mg_view g) v = Inr True" "h = install_view v g" using h by auto
      have "other_game g h \<longleftrightarrow> map_option pv_game_id (mg_view g) \<noteq> Some (pv_game_id v)"
        by (simp add: v(2) other_game_def install_view_def Let_def eq_commute)
      then have n: "(if other_game g h then n + 1 else n) = (if map_option pv_game_id (mg_view g) = Some (pv_game_id v) then n else n + 1)"
        by (cases "map_option pv_game_id (mg_view g) = Some (pv_game_id v)") (simp_all only: simp_thms if_True if_False)
      show ?thesis unfolding n none using install_view_inv [OF run_step.IH v(1)] by (simp only: v(2) append.left_neutral list.map)
    qed (use quiet h none in simp)
  next
    case (GPrepare usi)
    then have h: "h = snd (prepare_move usi g)" using run_step.hyps(2) by simp
    from prepare_move_cases [of usi g] show ?thesis
    proof
      assume "snd (prepare_move usi g) = g \<and> gate_sent (GPrepare usi) g = []"
      with h GPrepare quiet show ?thesis by (simp add: gate_quiet_def)
    next
      assume "\<exists>v i. mg_view g = Some v \<and> usi \<notin> mg_attempted g \<and>
        mi_sequence i = mg_sequence g + 1 \<and> mi_position i = view_key v \<and> mi_usi i = usi \<and>
        gate_sent (GPrepare usi) g = [i] \<and>
        snd (prepare_move usi g) = g\<lparr>mg_sequence := mg_sequence g + 1, mg_attempted := insert usi (mg_attempted g),
          mg_pending := Some i\<rparr>"
      then obtain v i where p: "mg_view g = Some v" "usi \<notin> mg_attempted g"
        "mi_sequence i = mg_sequence g + 1" "mi_position i = view_key v" "mi_usi i = usi" "gate_sent c g = [i]"
        "h = g\<lparr>mg_sequence := mg_sequence g + 1, mg_attempted := insert usi (mg_attempted g), mg_pending := Some i\<rparr>"
        unfolding h GPrepare by blast
      have "\<not> other_game g h" by (simp add: other_game_def p(7))
      with gate_inv_prepared [OF run_step.IH p(1), of i] p(2-) show ?thesis by simp
    qed
  qed (use quiet run_step.hyps(2) simple_quiet acknowledge_quiet in \<open>auto simp: gate_sent_def\<close>)
qed

text \<open>C38: over any callbacks, the intents handed out have increasing sequence numbers, and during one
  visit to a game no move is handed out twice for one position (game, side and move number): not after
  a refused or lost answer, a foul, a reconnection or a view that comes again.  The pending intent is
  the last one handed out, for the position on the board.\<close>

theorem no_move_resent:
  assumes "gate_run g n sent"
  shows "sorted_wrt (>) (List.map (mi_sequence \<circ> snd) sent) \<and>
    distinct (List.map (\<lambda>(m, i). (m, mi_position i, mi_usi i)) sent) \<and>
    (\<forall>i. mg_pending g = Some i \<longrightarrow> sent \<noteq> [] \<and> hd sent = (n, i) \<and>
       map_option view_key (mg_view g) = Some (mi_position i))"
  using gate_run_inv [OF assms] by (simp add: gate_inv_def)

fun gate_runs :: "gate_call list \<Rightarrow> gate \<times> nat \<times> (nat \<times> move_intent) list \<Rightarrow> gate \<times> nat \<times> (nat \<times> move_intent) list" where
  "gate_runs [] x = x"
| "gate_runs (c # cs) (g, n, sent) = gate_runs cs
     (gate_next c g, if other_game g (gate_next c g) then n + 1 else n, List.map (Pair n) (gate_sent c g) @ sent)"

lemma gate_runs_run: "gate_run g n sent \<Longrightarrow> gate_runs cs (g, n, sent) = (h, m, t) \<Longrightarrow> gate_run h m t"
  by (induction cs arbitrary: g n sent) (auto intro: run_step)

definition sample_view :: player_view where
  "sample_view = \<lparr>pv_game_id = ''g1'', pv_color = ''sente'', pv_pieces = [(''5i'', ''king''), (''7g'', ''pawn'')],
     pv_hand = [(''pawn'', 1)], pv_turn = ''sente'', pv_move_number = 1,
     pv_clocks = (ClockInt 60000, ClockInt 60000, Some ''sente'', ClockInt 1), pv_fouls = (0, 0),
     pv_checks = (False, False), pv_status = ''playing''\<rparr>"

definition ended_view :: "string \<Rightarrow> player_view" where
  "ended_view g = sample_view\<lparr>pv_game_id := g, pv_clocks := (ClockInt 60000, ClockInt 60000, None, ClockInt 1), pv_status := ''ended''\<rparr>"

definition sample_intent :: move_intent where
  "sample_intent = \<lparr>mi_sequence = 1, mi_generation = 1, mi_position = (''g1'', ''sente'', 1), mi_usi = ''7g7f''\<rparr>"

definition second_intent :: move_intent where
  "second_intent = \<lparr>mi_sequence = 2, mi_generation = 1, mi_position = (''g1'', ''sente'', 1), mi_usi = ''5i5h''\<rparr>"

text \<open>The first move is a foul; the same move is refused afterwards, another one is handed out.\<close>

definition sample_calls :: "gate_call list" where
  "sample_calls = [GConnect, GView (public_dict sample_view) 1 True, GPrepare ''7g7f'', GPrepare ''7g7e'',
     GAck sample_intent (VObj [(''ok'', VBool False), (''reason'', VStr ''foul''), (''foulCount'', VInt 1)]),
     GView (public_dict (sample_view\<lparr>pv_fouls := (1, 0)\<rparr>)) 1 True, GPrepare ''7g7f'', GPrepare ''5i5h'']"

definition sample_gate :: gate where
  "sample_gate = fst (gate_runs sample_calls (new_gate, 0, []))"

lemma no_move_resent_witness:
  "snd (gate_runs sample_calls (new_gate, 0, [])) = (1, [(1, second_intent), (1, sample_intent)]) \<and>
   distinct (List.map (\<lambda>(m, i). (m, mi_position i, mi_usi i)) [(1::nat, second_intent), (1, sample_intent)]) \<and>
   mg_pending sample_gate = Some second_intent \<and>
   map_option view_key (mg_view sample_gate) = Some (mi_position second_intent)"
proof -
  have s: "snd (gate_runs sample_calls (new_gate, 0, [])) = (1, [(1, second_intent), (1, sample_intent)])" by code_simp
  have p: "mg_pending sample_gate = Some second_intent" by code_simp
  have "gate_run sample_gate 1 [(1, second_intent), (1, sample_intent)]"
    by (rule gate_runs_run [OF run_new, of sample_calls]) (simp add: prod_eq_iff s sample_gate_def)
  from no_move_resent [OF this] s p show ?thesis by blast
qed

text \<open>A game that has ended and comes back after another one is a new visit: the gate has forgotten what
  it sent and hands the same move out for the same position.\<close>

definition returning_calls :: "gate_call list" where
  "returning_calls = [GConnect, GView (public_dict sample_view) 1 True, GPrepare ''7g7f'',
     GView (public_dict (ended_view ''g1'')) 1 True, GView (public_dict (ended_view ''g2'')) 1 True,
     GView (public_dict sample_view) 1 True, GPrepare ''7g7f'']"

lemma returning_game_resends:
  "List.map (\<lambda>(m, i). (m, mi_position i, mi_usi i)) (snd (snd (gate_runs returning_calls (new_gate, 0, [])))) =
    [(3, (''g1'', ''sente'', 1), ''7g7f''), (1, (''g1'', ''sente'', 1), ''7g7f'')]"
  by code_simp

section \<open>The public projection\<close>

definition piece_ok :: "string \<times> string \<Rightarrow> bool" where
  "piece_ok p \<longleftrightarrow> is_square (fst p) \<and> snd p \<in> set piece_roles"

lemma parse_pieces_Cons:
  assumes "parse_pieces seen (p # ps) = Inr r"
  obtains sq role t where "parse_pieces (sq # seen) ps = Inr t" "r = (sq, role) # t"
    "piece_ok (sq, role)" "sq \<notin> set seen"
  using assms by (auto simp: after_Inr piece_ok_def split: jval.splits if_splits)

lemma parse_pieces_Inr:
  "parse_pieces seen ps = Inr r \<Longrightarrow>
   length r = length ps \<and> (\<forall>p\<in>set r. piece_ok p \<and> fst p \<notin> set seen) \<and> distinct (List.map fst r)"
proof (induction ps arbitrary: seen r)
  case (Cons p ps)
  obtain sq role t where t: "parse_pieces (sq # seen) ps = Inr t" "r = (sq, role) # t"
    "piece_ok (sq, role)" "sq \<notin> set seen"
    using parse_pieces_Cons [OF Cons.prems] by blast
  with Cons.IH [OF t(1)] show ?case by auto
qed simp

lemma parse_pieces_print:
  "\<forall>p\<in>set r. piece_ok p \<and> fst p \<notin> set seen \<Longrightarrow> distinct (List.map fst r) \<Longrightarrow>
   parse_pieces seen (List.map (\<lambda>(s, k). VObj [(''square'', VStr s), (''role'', VStr k)]) r) = Inr r"
proof (induction r arbitrary: seen)
  case (Cons p r)
  obtain s k where p: "p = (s, k)" by fastforce
  have "\<forall>q\<in>set r. piece_ok q \<and> fst q \<notin> set (s # seen)" using Cons.prems p by force
  with Cons show ?case by (simp add: p vget_def piece_ok_def)
qed simp

definition hand_ok :: "string \<times> int \<Rightarrow> bool" where
  "hand_ok p \<longleftrightarrow> fst p \<in> set hand_roles \<and> 0 \<le> snd p \<and> snd p \<le> 40"

lemma integer_arg_Inr: "integer_arg v code lo hi = Inr i \<longleftrightarrow> v = VInt i \<and> lo \<le> i \<and> i \<le> hi"
  by (auto simp: integer_arg_def split: jval.splits)

lemma parse_hand_Inr:
  assumes "parse_hand h = Inr r"
  shows "sorted r \<and> (\<forall>p\<in>set r. hand_ok p)"
proof -
  obtain kvs where h: "list_all (\<lambda>(k, _). k \<in> set hand_roles) h" "r = sort kvs"
    "each (\<lambda>(k, v). after (integer_arg v ''invalid_hand'' 0 40) (\<lambda>n. Inr (k, n))) h = Inr kvs"
    using assms by (auto simp: parse_hand_def after_Inr split: if_splits)
  have "hand_ok (kvs ! i)" if "i < length kvs" for i
    using h(1,3) that
    by (cases "h ! i"; cases "kvs ! i") (auto simp: each_Inr after_Inr integer_arg_Inr hand_ok_def list_all_length dest!: spec [of _ i])
  then have "\<forall>p\<in>set kvs. hand_ok p" by (metis in_set_conv_nth)
  with h(2) show ?thesis by simp
qed

lemma parse_hand_print:
  assumes "sorted r" "\<forall>p\<in>set r. hand_ok p"
  shows "parse_hand (List.map (\<lambda>(k, n). (k, VInt n)) r) = Inr r"
proof -
  have "each (\<lambda>(k, v). after (integer_arg v ''invalid_hand'' 0 40) (\<lambda>n. Inr (k, n)))
      (List.map (\<lambda>(k, n). (k, VInt n)) r) = Inr r"
    using assms(2) by (induction r) (auto simp: hand_ok_def integer_arg_def)
  moreover have "list_all (\<lambda>(k, _). k \<in> set hand_roles) (List.map (\<lambda>(k, n). (k, VInt n)) r)"
    using assms(2) by (auto simp: list_all_iff hand_ok_def)
  ultimately show ?thesis using assms(1) by (simp add: parse_hand_def sorted_sort_id)
qed

lemma clock_number_Inr: "clock_number v = Inr c \<Longrightarrow> v = clock_value c"
  by (auto simp: clock_number_def clock_value_def split: jval.splits if_splits option.splits)

lemma game_id_arg_Inr: "game_id_arg v = Inr s \<Longrightarrow> v = VStr s"
  by (auto simp: game_id_arg_def split: jval.splits if_splits)

lemma color_arg_Inr: "color_arg v = Inr s \<Longrightarrow> v = VStr s"
  by (auto simp: color_arg_def split: jval.splits if_splits)

lemma running_clock_print:
  "running_clock status turn v = Inr r \<Longrightarrow> status = ''playing'' \<or> status = ''ended'' \<Longrightarrow>
   running_clock status turn (case r of None \<Rightarrow> VNull | Some s \<Rightarrow> VStr s) = Inr r"
  by (auto simp: running_clock_def split: if_splits jval.splits)

text \<open>What a checked view satisfies, and that such a view prints and parses back.\<close>

definition view_ok :: "player_view \<Rightarrow> bool" where
  "view_ok v \<longleftrightarrow> game_id_arg (VStr (pv_game_id v)) = Inr (pv_game_id v) \<and>
     color_arg (VStr (pv_color v)) = Inr (pv_color v) \<and> color_arg (VStr (pv_turn v)) = Inr (pv_turn v) \<and>
     1 \<le> pv_move_number v \<and> pv_move_number v \<le> max_safe_integer \<and>
     (pv_status v = ''playing'' \<or> pv_status v = ''ended'') \<and>
     length (pv_pieces v) \<le> 40 \<and> sorted (pv_pieces v) \<and> distinct (List.map fst (pv_pieces v)) \<and>
     (\<forall>p\<in>set (pv_pieces v). piece_ok p) \<and> sorted (pv_hand v) \<and> (\<forall>p\<in>set (pv_hand v). hand_ok p) \<and>
     int (length (pv_pieces v)) + (\<Sum>(_, n)\<leftarrow>pv_hand v. n) \<le> 40 \<and>
     (case pv_clocks v of (a, b, r, t) \<Rightarrow> clock_number (clock_value a) = Inr a \<and>
        clock_number (clock_value b) = Inr b \<and> clock_number (clock_value t) = Inr t \<and>
        running_clock (pv_status v) (pv_turn v) (case r of None \<Rightarrow> VNull | Some s \<Rightarrow> VStr s) = Inr r) \<and>
     0 \<le> fst (pv_fouls v) \<and> fst (pv_fouls v) \<le> 10 \<and> 0 \<le> snd (pv_fouls v) \<and> snd (pv_fouls v) \<le> 10"

lemma parse_view_ok:
  assumes "parse_view raw = Inr v"
  shows "view_ok v"
proof -
  have sorted_pieces: "length (sort ps) = length ps \<and> distinct (List.map fst (sort ps)) \<and> (\<forall>p\<in>set (sort ps). piece_ok p)"
    if "parse_pieces [] raws = Inr ps" for ps :: "(string \<times> string) list" and raws
    using parse_pieces_Inr [OF that] by (simp add: distinct_map)
  have clock: "clock_number (clock_value c) = Inr c" if "clock_number u = Inr c" for c u
    using clock_number_Inr [OF that] that by simp
  show ?thesis
    using assms unfolding parse_view_def
  proof (elim after_InrE, goal_cases)
    case (1 ob game_id color turn n status pieces u parsed hand parsed_hand u' clock running sente gote server fouls you opp c1 c2)
    have v: "v = \<lparr>pv_game_id = game_id, pv_color = color, pv_pieces = sort parsed, pv_hand = parsed_hand,
        pv_turn = turn, pv_move_number = n, pv_clocks = (sente, gote, running, server),
        pv_fouls = (you, opp), pv_checks = (c1, c2), pv_status = status\<rparr>"
      using 1(23) by simp
    have st: "status = ''playing'' \<or> status = ''ended''"
      using 1(6) by (auto split: jval.splits if_splits)
    have ids: "game_id_arg (VStr game_id) = Inr game_id" "color_arg (VStr color) = Inr color"
      "color_arg (VStr turn) = Inr turn"
      using 1(2) game_id_arg_Inr [OF 1(2)] 1(3) color_arg_Inr [OF 1(3)] 1(4) color_arg_Inr [OF 1(4)] by simp_all
    have ints: "1 \<le> n \<and> n \<le> max_safe_integer" "0 \<le> you \<and> you \<le> 10" "0 \<le> opp \<and> opp \<le> 10"
      using 1(5,19,20) unfolding integer_arg_Inr by blast+
    have ps: "length (sort parsed) \<le> 40" "sorted (sort parsed)" "distinct (List.map fst (sort parsed))"
      "\<forall>p\<in>set (sort parsed). piece_ok p"
      using sorted_pieces [OF 1(9)] parse_pieces_Inr [OF 1(9)] 1(8) by simp_all
    have total: "int (length (sort parsed)) + (\<Sum>(_, n)\<leftarrow>parsed_hand. n) \<le> 40" using 1(12) by simp
    show ?case
      unfolding view_ok_def v
      using st ids ints ps total parse_hand_Inr [OF 1(11)] clock [OF 1(15)] clock [OF 1(16)] clock [OF 1(17)]
        running_clock_print [OF 1(14) st]
      by (simp only: player_view.simps prod.case fst_conv snd_conv) blast
  qed
qed

definition clocks_dict :: "player_view \<Rightarrow> (string \<times> jval) list" where
  "clocks_dict v = (case pv_clocks v of (a, b, r, t) \<Rightarrow> [(''senteMs'', clock_value a), (''goteMs'', clock_value b),
     (''running'', case r of None \<Rightarrow> VNull | Some s \<Rightarrow> VStr s), (''serverTime'', clock_value t)])"

lemma public_lookups:
  "\<exists>ob. public_dict v = VObj ob \<and> vget ob ''gameId'' = VStr (pv_game_id v) \<and>
    vget ob ''yourColor'' = VStr (pv_color v) \<and> vget ob ''turn'' = VStr (pv_turn v) \<and>
    vget ob ''moveNumber'' = VInt (pv_move_number v) \<and> vget ob ''status'' = VStr (pv_status v) \<and>
    vget ob ''yourPieces'' = VArr (List.map (\<lambda>(s, k). VObj [(''square'', VStr s), (''role'', VStr k)]) (pv_pieces v)) \<and>
    vget ob ''yourHand'' = VObj (List.map (\<lambda>(k, n). (k, VInt n)) (pv_hand v)) \<and>
    vget ob ''clocks'' = VObj (clocks_dict v) \<and>
    vget ob ''fouls'' = VObj [(''you'', VInt (fst (pv_fouls v))), (''opponent'', VInt (snd (pv_fouls v)))] \<and>
    vget ob ''youInCheck'' = VBool (fst (pv_checks v)) \<and> vget ob ''opponentInCheck'' = VBool (snd (pv_checks v))"
  by (cases "pv_clocks v"; cases "pv_fouls v"; cases "pv_checks v")
    (simp add: public_dict_def vget_def clocks_dict_def)

lemma view_ok_print:
  assumes "view_ok v"
  shows "parse_view (public_dict v) = Inr v"
proof -
  obtain a b r t where c: "pv_clocks v = (a, b, r, t)" by (cases "pv_clocks v") auto
  note ok = assms [unfolded view_ok_def c, simplified]
  obtain ob where ob: "public_dict v = VObj ob" "vget ob ''gameId'' = VStr (pv_game_id v)"
    "vget ob ''yourColor'' = VStr (pv_color v)" "vget ob ''turn'' = VStr (pv_turn v)"
    "vget ob ''moveNumber'' = VInt (pv_move_number v)" "vget ob ''status'' = VStr (pv_status v)"
    "vget ob ''yourPieces'' = VArr (List.map (\<lambda>(s, k). VObj [(''square'', VStr s), (''role'', VStr k)]) (pv_pieces v))"
    "vget ob ''yourHand'' = VObj (List.map (\<lambda>(k, n). (k, VInt n)) (pv_hand v))"
    "vget ob ''clocks'' = VObj (clocks_dict v)"
    "vget ob ''fouls'' = VObj [(''you'', VInt (fst (pv_fouls v))), (''opponent'', VInt (snd (pv_fouls v)))]"
    "vget ob ''youInCheck'' = VBool (fst (pv_checks v))" "vget ob ''opponentInCheck'' = VBool (snd (pv_checks v))"
    using public_lookups [of v] by blast
  have pieces: "parse_pieces [] (List.map (\<lambda>(s, k). VObj [(''square'', VStr s), (''role'', VStr k)]) (pv_pieces v)) = Inr (pv_pieces v)"
    using ok by (intro parse_pieces_print) auto
  have hand: "parse_hand (List.map (\<lambda>(k, n). (k, VInt n)) (pv_hand v)) = Inr (pv_hand v)"
    using ok by (intro parse_hand_print) auto
  have args: "game_id_arg (VStr (pv_game_id v)) = Inr (pv_game_id v)" "color_arg (VStr (pv_color v)) = Inr (pv_color v)"
    "color_arg (VStr (pv_turn v)) = Inr (pv_turn v)"
    "integer_arg (VInt (pv_move_number v)) ''invalid_move_number'' 1 max_safe_integer = Inr (pv_move_number v)"
    "integer_arg (VInt (fst (pv_fouls v))) ''invalid_fouls'' 0 10 = Inr (fst (pv_fouls v))"
    "integer_arg (VInt (snd (pv_fouls v))) ''invalid_fouls'' 0 10 = Inr (snd (pv_fouls v))"
    using ok by (simp_all add: integer_arg_Inr)
  have clocks: "running_clock (pv_status v) (pv_turn v) (vget (clocks_dict v) ''running'') = Inr r"
    "clock_number (vget (clocks_dict v) ''senteMs'') = Inr a" "clock_number (vget (clocks_dict v) ''goteMs'') = Inr b"
    "clock_number (vget (clocks_dict v) ''serverTime'') = Inr t"
    using ok by (simp_all add: clocks_dict_def c vget_def)
  have fouls: "vget [(''you'', VInt f), (''opponent'', VInt g)] ''you'' = VInt f"
    "vget [(''you'', VInt f), (''opponent'', VInt g)] ''opponent'' = VInt g" for f g
    by (simp_all add: vget_def)
  have needs: "need (length (pv_pieces v) \<le> 40) (ProtocolError ''invalid_pieces'') = Inr ()"
    "need (int (length (pv_pieces v)) + (\<Sum>(_, n)\<leftarrow>pv_hand v. n) \<le> 40) (ProtocolError ''invalid_piece_total'') = Inr ()"
    "(if pv_status v = ''playing'' \<or> pv_status v = ''ended'' then Inr (pv_status v)
      else Inl (ProtocolError ''invalid_status'')) = Inr (pv_status v)" "sort (pv_pieces v) = pv_pieces v"
    using ok by (simp_all add: sorted_sort_id)
  show ?thesis
    unfolding parse_view_def
    by (simp only: as_dict_def as_list_def as_bool_def ob jval.case after_simps pieces hand args clocks fouls
        length_map needs) (simp add: c [symmetric])
qed

text \<open>The public projection of a view that passed the checks passes them again and gives the same
  view: nothing of the view is lost or changed, and no extra of the server's payload is in it.\<close>

lemma view_roundtrip:
  assumes "parse_view raw = Inr v"
  shows "parse_view (public_dict v) = Inr v"
  by (rule view_ok_print [OF parse_view_ok [OF assms]])

lemma view_roundtrip_witness: "parse_view (public_dict sample_view) = Inr sample_view"
proof -
  have "parse_view (case public_dict sample_view of VObj ob \<Rightarrow> VObj ((''extra'', VInt 1) # ob) | w \<Rightarrow> w) = Inr sample_view"
    by code_simp
  then show ?thesis by (rule view_roundtrip)
qed

end
