(* ===== verification/ShogiBoard.thy ===== *)
theory ShogiBoard
  imports Tsuitate
begin

text \<open>
  \<open>shogi_board.py\<close>: reading and writing positions in SFEN, applying the moves of a finished game to
  a position, and the annotated record of a game.  A position is 81 squares, rank a first and file 9
  first, each empty or a piece code such as \<open>P\<close> or \<open>+r\<close>, and for each side the number of pieces
  of a role in hand; a role that is not a key of the Python dictionary counts 0.

  Texts on air are Japanese, so they are lists of code points.
\<close>

section \<open>Strings\<close>

datatype board_error = BoardError string | BoardIndexError

type_synonym utext = "nat list"

fun split_on :: "char \<Rightarrow> string \<Rightarrow> string list" where
  "split_on c [] = [[]]"
| "split_on c (x # xs) = (if x = c then [] # split_on c xs
     else (case split_on c xs of [] \<Rightarrow> [[x]] | w # ws \<Rightarrow> (x # w) # ws))"

definition upper_char :: "char \<Rightarrow> char" where
  "upper_char c = (if is_lower c then char_of (of_char c - (32::nat)) else c)"

definition sfen_char :: "char \<Rightarrow> bool" where
  "sfen_char c \<longleftrightarrow> is_upper c \<or> is_lower c \<or> is_digit c \<or> c \<in> set ''+/ -''"

definition is_sfen :: "string \<Rightarrow> bool" where
  "is_sfen s \<longleftrightarrow> 1 \<le> length s \<and> length s \<le> 200 \<and> list_all sfen_char s"

definition role_names :: "(char \<times> utext) list" where
  "role_names = [(CHR ''P'', [27497]), (CHR ''L'', [39321]), (CHR ''N'', [26690]), (CHR ''S'', [37504]),
     (CHR ''G'', [37329]), (CHR ''B'', [35282]), (CHR ''R'', [39131]), (CHR ''K'', [29577])]"

definition promoted_names :: "(char \<times> utext) list" where
  "promoted_names = [(CHR ''P'', [12392]), (CHR ''L'', [25104, 39321]), (CHR ''N'', [25104, 26690]),
     (CHR ''S'', [25104, 37504]), (CHR ''B'', [39340]), (CHR ''R'', [40845]), (CHR ''K'', [29577])]"

definition promotable :: "string" where
  "promotable = ''PLNSBR''"

section \<open>Positions\<close>

type_synonym squares = "string option list"
type_synonym hands = "string \<Rightarrow> string \<Rightarrow> int"

definition empty_board :: squares where
  "empty_board = replicate 81 None"

definition square_index :: "char \<Rightarrow> char \<Rightarrow> nat" where
  "square_index file rank = (of_char rank - 97) * 9 + (9 - digit_val file)"

definition add_hand :: "string \<Rightarrow> string \<Rightarrow> int \<Rightarrow> hands \<Rightarrow> hands" where
  "add_hand side role n h = h(side := (h side)(role := h side role + n))"

section \<open>Reading and writing a position\<close>

text \<open>The loop over one row; \<open>place\<close> is its body for a piece letter after an optional \<open>+\<close>.\<close>

definition place :: "nat \<Rightarrow> nat \<Rightarrow> string \<Rightarrow> char \<Rightarrow> squares \<Rightarrow> board_error + squares" where
  "place row slot prefix c sq =
     (if upper_char c \<notin> set (List.map fst role_names) then Inl (BoardError ''invalid sfen piece'')
      else if 8 < slot then Inl (BoardError ''invalid sfen row'')
      else Inr (sq[row * 9 + slot := Some (prefix @ [c])]))"

fun parse_row :: "nat \<Rightarrow> nat \<Rightarrow> string \<Rightarrow> squares \<Rightarrow> board_error + squares" where
  "parse_row row slot [] sq =
     (if 9 < slot then Inl (BoardError ''invalid sfen row width'') else Inr sq)"
| "parse_row row slot (c # cs) sq =
     (if is_digit c then parse_row row (slot + digit_val c) cs sq
      else if c = CHR ''+'' then
        (case cs of [] \<Rightarrow> Inl (BoardError ''invalid sfen promotion'')
         | d # ds \<Rightarrow> after (place row slot ''+'' d sq) (parse_row row (slot + 1) ds))
      else after (place row slot '''' c sq) (parse_row row (slot + 1) cs))"

fun parse_rows :: "nat \<Rightarrow> string list \<Rightarrow> squares \<Rightarrow> board_error + squares" where
  "parse_rows row [] sq = Inr sq"
| "parse_rows row (s # ss) sq = after (parse_row row 0 s sq) (parse_rows (row + 1) ss)"

fun parse_hands :: "nat \<Rightarrow> string \<Rightarrow> hands \<Rightarrow> board_error + hands" where
  "parse_hands n [] h = Inr h"
| "parse_hands n (c # cs) h =
     (if is_digit c then parse_hands (n * 10 + digit_val c) cs h
      else if upper_char c \<notin> set ''RBGSNLP'' then Inl (BoardError ''invalid sfen hand'')
      else parse_hands 0 cs (add_hand (if is_upper c then ''sente'' else ''gote'') [upper_char c]
             (if n = 0 then 1 else int n) h))"

definition parse_sfen :: "string \<Rightarrow> board_error + squares \<times> string \<times> hands" where
  "parse_sfen sfen =
     (if \<not> is_sfen sfen then Inl (BoardError ''invalid sfen'')
      else case split_on (CHR '' '') sfen of
        board # turn # hand # _ \<Rightarrow>
          if turn \<noteq> ''b'' \<and> turn \<noteq> ''w'' then Inl (BoardError ''invalid sfen turn'')
          else let rows = split_on (CHR ''/'') board in
            if length rows \<noteq> 9 then Inl (BoardError ''invalid sfen board'')
            else after (parse_rows 0 rows empty_board) (\<lambda>sq.
              after (if hand = ''-'' then Inr (\<lambda>_ _. 0) else parse_hands 0 hand (\<lambda>_ _. 0)) (\<lambda>h.
              Inr (sq, turn, h)))
      | _ \<Rightarrow> Inl (BoardError ''invalid sfen''))"

fun row_text :: "nat \<Rightarrow> string option list \<Rightarrow> string" where
  "row_text n [] = (if n = 0 then '''' else dec n)"
| "row_text n (None # cs) = row_text (n + 1) cs"
| "row_text n (Some p # cs) = (if n = 0 then '''' else dec n) @ p @ row_text 0 cs"

definition board_text :: "squares \<Rightarrow> string" where
  "board_text sq = join ''/'' (List.map (\<lambda>r. row_text 0 (take 9 (drop (r * 9) sq))) [0..<9])"

definition hand_item :: "hands \<Rightarrow> string \<times> string \<Rightarrow> string" where
  "hand_item h x = (case x of (side, role) \<Rightarrow>
     if h side role \<le> 0 then ''''
     else (if 1 < h side role then dec (nat (h side role)) else '''')
       @ (if side = ''sente'' then role else List.map lower_char role))"

definition hand_order :: "(string \<times> string) list" where
  "hand_order = List.product [''sente'', ''gote''] (List.map (\<lambda>c. [c]) ''RBGSNLP'')"

definition hand_text :: "hands \<Rightarrow> string" where
  "hand_text h = concat (List.map (hand_item h) hand_order)"

definition to_sfen :: "squares \<Rightarrow> hands \<Rightarrow> string \<Rightarrow> int \<Rightarrow> string" where
  "to_sfen sq h turn n = board_text sq @ '' '' @ turn @ '' '' @
     (if hand_text h = '''' then ''-'' else hand_text h) @ '' '' @ dec (nat (max 1 n))"

section \<open>Moves\<close>

definition demote :: "string \<Rightarrow> string" where
  "demote p = (if take 1 p = ''+'' then drop 1 p else p)"

definition upper :: "string \<Rightarrow> string" where
  "upper s = List.map upper_char s"

record move_facts =
  mf_piece :: string
  mf_captured :: "string option"
  mf_promote :: bool
  mf_drop :: bool

definition is_side :: "string \<Rightarrow> bool" where
  "is_side s \<longleftrightarrow> s = ''sente'' \<or> s = ''gote''"

text \<open>The branch for a drop such as \<open>P*5e\<close>.\<close>

definition apply_drop :: "squares \<Rightarrow> hands \<Rightarrow> string \<Rightarrow> nat \<Rightarrow> string \<Rightarrow> board_error + squares \<times> hands \<times> move_facts" where
  "apply_drop sq h role i side =
     (if sq ! i \<noteq> None then Inl (BoardError ''drop onto an occupied square'')
      else if h side role \<le> 0 then Inl (BoardError ''drop without the piece in hand'')
      else let piece = (if side = ''sente'' then role else List.map lower_char role) in
        Inr (sq[i := Some piece], add_hand side role (-1) h,
          \<lparr>mf_piece = piece, mf_captured = None, mf_promote = False, mf_drop = True\<rparr>))"

text \<open>The branch for a move of a piece on the board.\<close>

definition apply_step :: "squares \<Rightarrow> hands \<Rightarrow> nat \<Rightarrow> nat \<Rightarrow> bool \<Rightarrow> string \<Rightarrow> board_error + squares \<times> hands \<times> move_facts" where
  "apply_step sq h i j promote side =
     (case sq ! i of None \<Rightarrow> Inl (BoardError ''no piece on the from square'')
      | Some piece \<Rightarrow>
          if promote \<and> (take 1 piece = ''+'' \<or> upper piece \<notin> set (List.map (\<lambda>c. [c]) promotable))
          then Inl (BoardError ''invalid promotion'')
          else let piece = (if promote then ''+'' @ piece else piece);
                   h = (case sq ! j of None \<Rightarrow> h | Some c \<Rightarrow> add_hand side (upper (demote c)) 1 h)
            in Inr (sq[i := None, j := Some piece], h,
              \<lparr>mf_piece = piece, mf_captured = sq ! j, mf_promote = promote, mf_drop = False\<rparr>))"

definition apply_usi_move :: "squares \<Rightarrow> hands \<Rightarrow> string \<Rightarrow> string option \<Rightarrow> board_error + squares \<times> hands \<times> move_facts" where
  "apply_usi_move sq h usi side =
     (case side of None \<Rightarrow> Inl (BoardError ''invalid side'') | Some side \<Rightarrow>
      if \<not> is_side side then Inl (BoardError ''invalid side'')
      else if \<not> is_usi usi then Inl (BoardError ''invalid usi'')
      else case usi of a # b # c # d # rest \<Rightarrow>
          if CHR ''*'' \<in> set usi then apply_drop sq h [a] (square_index c d) side
          else apply_step sq h (square_index a b) (square_index c d) (rest = ''+'') side
        | _ \<Rightarrow> Inl (BoardError ''invalid usi''))"

section \<open>Texts\<close>

definition piece_name :: "string \<Rightarrow> board_error + utext" where
  "piece_name p = (case p of [] \<Rightarrow> Inl (BoardError ''invalid piece'')
     | c # cs \<Rightarrow>
         if c = CHR ''+'' then
           (case cs of [] \<Rightarrow> Inl BoardIndexError
            | d # _ \<Rightarrow> Inr (case map_of promoted_names (upper_char d) of None \<Rightarrow> [63] | Some t \<Rightarrow> t))
         else Inr (if cs = [] then (case map_of role_names (upper_char c) of None \<Rightarrow> [63] | Some t \<Rightarrow> t) else [63]))"

definition promotion_available :: "string \<Rightarrow> string \<Rightarrow> string \<Rightarrow> string \<Rightarrow> bool" where
  "promotion_available piece from_square to_square side =
     (if take 1 piece = ''+'' \<or> upper piece \<notin> set (List.map (\<lambda>c. [c]) promotable) then False
      else let zone = (if side = ''sente'' then ''abc'' else ''ghi'') in
        from_square ! 1 \<in> set zone \<or> to_square ! 1 \<in> set zone)"

definition rank_kanji :: utext where
  "rank_kanji = [19968, 20108, 19977, 22235, 20116, 20845, 19971, 20843, 20061]"

definition square_text_of :: "string \<Rightarrow> bool \<Rightarrow> utext" where
  "square_text_of sq same = (if same then [21516]
     else [of_char (sq ! 0), rank_kanji ! (of_char (sq ! 1) - 97)])"

definition side_mark :: "string \<Rightarrow> nat" where
  "side_mark side = (if side = ''gote'' then 9651 else 9650)"

definition notation_text :: "string \<Rightarrow> string \<Rightarrow> string \<Rightarrow> bool \<Rightarrow> board_error + utext" where
  "notation_text usi side piece same =
     (if \<not> is_usi usi then Inl (BoardError ''invalid usi'')
      else if CHR ''*'' \<in> set usi then
        after (piece_name (take 1 usi)) (\<lambda>n.
        Inr (side_mark side # square_text_of (drop 2 usi) same @ n @ [25171]))
      else let promote = (drop 4 usi = ''+''); target = take 2 (drop 2 usi) in
        after (piece_name (if promote then demote piece else piece)) (\<lambda>n.
        Inr (side_mark side # square_text_of target same @ n @
          (if promote then [25104]
           else if promotion_available piece (take 2 usi) target side then [19981, 25104] else []))))"

definition snapshot :: "squares \<Rightarrow> string" where
  "snapshot sq = concat (List.map (\<lambda>p. case p of
       None \<Rightarrow> ''..''
     | Some [] \<Rightarrow> ''..''
     | Some (c # cs) \<Rightarrow> if c = CHR ''+'' then ''+'' @ take 1 cs else CHR ''.'' # c # cs) sq)"

section \<open>The record of a game\<close>

text \<open>An entry of the move list: \<open>mv_usi\<close> is \<open>None\<close> when it is not a string.\<close>

record move_entry =
  mv_usi :: "string option"
  mv_by :: "string option"
  mv_ms :: "int option"

record kifu_entry =
  ke_n :: nat
  ke_side :: string
  ke_usi :: string
  ke_notation :: utext
  ke_piece :: utext
  ke_captured :: "utext option"
  ke_promote :: bool
  ke_drop :: bool
  ke_ms :: "int option"
  ke_board :: string

definition standard_start :: string where
  "standard_start = ''lnsgkgsnl/1r5b1/ppppppppp/9/9/9/PPPPPPPPP/1B5R1/LNSGKGSNL b - 1''"

definition target_square :: "string \<Rightarrow> string" where
  "target_square usi = (if CHR ''*'' \<in> set usi then drop 2 usi else take 2 (drop 2 usi))"

definition optional_name :: "string option \<Rightarrow> board_error + utext option" where
  "optional_name p = (case p of None \<Rightarrow> Inr None | Some [] \<Rightarrow> Inr None
     | Some p \<Rightarrow> after (piece_name p) (\<lambda>n. Inr (Some n)))"

fun annotate_from :: "nat \<Rightarrow> string option \<Rightarrow> squares \<Rightarrow> hands \<Rightarrow> move_entry list \<Rightarrow> board_error + kifu_entry list" where
  "annotate_from n previous sq h [] = Inr []"
| "annotate_from n previous sq h (mv # mvs) =
     (case mv_usi mv of None \<Rightarrow> Inl (BoardError ''invalid move entry'') | Some usi \<Rightarrow>
      after (apply_usi_move sq h usi (mv_by mv)) (\<lambda>(sq', h', facts).
      let side = (case mv_by mv of None \<Rightarrow> '''' | Some s \<Rightarrow> s); target = target_square usi in
      after (notation_text usi side (mf_piece facts) (Some target = previous)) (\<lambda>text.
      after (piece_name (mf_piece facts)) (\<lambda>name.
      after (optional_name (mf_captured facts)) (\<lambda>captured.
      after (annotate_from (n + 1) (Some target) sq' h' mvs) (\<lambda>rest.
      Inr (\<lparr>ke_n = n, ke_side = side, ke_usi = usi, ke_notation = text, ke_piece = name,
        ke_captured = captured, ke_promote = mf_promote facts, ke_drop = mf_drop facts,
        ke_ms = mv_ms mv, ke_board = snapshot sq'\<rparr> # rest)))))))"

definition annotate :: "move_entry list \<Rightarrow> board_error + kifu_entry list" where
  "annotate moves =
     (if \<not> (1 \<le> length moves \<and> length moves \<le> 512) then Inl (BoardError ''invalid move list'')
      else after (parse_sfen standard_start) (\<lambda>(sq, turn, h). annotate_from 1 None sq h moves))"

fun apply_moves :: "squares \<Rightarrow> hands \<Rightarrow> move_entry list \<Rightarrow> board_error + squares \<times> hands" where
  "apply_moves sq h [] = Inr (sq, h)"
| "apply_moves sq h (mv # mvs) =
     (case mv_usi mv of None \<Rightarrow> Inl (BoardError ''invalid usi'') | Some usi \<Rightarrow>
      after (apply_usi_move sq h usi (mv_by mv)) (\<lambda>(sq', h', _). apply_moves sq' h' mvs))"

record kifu =
  kf_start :: string
  kf_final :: string
  kf_moves :: "kifu_entry list"
  kf_move_count :: nat

definition position_fields :: "string \<Rightarrow> string" where
  "position_fields sfen = join '' '' (take 3 (split_on (CHR '' '') sfen))"

text \<open>\<open>reconstruct\<close> gives \<open>None\<close> for a \<open>BoardError\<close> on the way and lets an \<open>IndexError\<close> through.\<close>

definition rebuild :: "move_entry list \<Rightarrow> board_error + kifu" where
  "rebuild moves =
     after (annotate moves) (\<lambda>entries.
     after (parse_sfen standard_start) (\<lambda>(sq, turn, h).
     after (apply_moves sq h moves) (\<lambda>(sq', h').
     Inr \<lparr>kf_start = standard_start,
       kf_final = to_sfen sq' h' (if mv_by (last moves) = Some ''gote'' then ''b'' else ''w'') (int (length moves) + 1),
       kf_moves = entries, kf_move_count = length entries\<rparr>)))"

definition reconstruct :: "move_entry list \<Rightarrow> string \<Rightarrow> board_error + kifu option" where
  "reconstruct moves final_sfen =
     (if \<not> is_sfen final_sfen then Inr None
      else case rebuild moves of
        Inl (BoardError m) \<Rightarrow> Inr None
      | Inl BoardIndexError \<Rightarrow> Inl BoardIndexError
      | Inr k \<Rightarrow> if position_fields (kf_final k) \<noteq> position_fields final_sfen then Inr None else Inr (Some k))"

end
