(* ===== verification/ShogiFacts.thy ===== *)
theory ShogiFacts
  imports ShogiBoard
begin

text \<open>
  Facts about \<open>shogi_board.py\<close>: splitting what was joined, reading back a written row, board and
  hands, and what a move does to the pieces of a position.
\<close>

section \<open>Splitting and joining\<close>

lemma split_on_no: "c \<notin> set w \<Longrightarrow> split_on c w = [w]"
  by (induction w) auto

lemma split_on_app: "c \<notin> set w \<Longrightarrow> split_on c (w @ c # r) = w # split_on c r"
  by (induction w) auto

lemma split_on_join: "ws \<noteq> [] \<Longrightarrow> \<forall>w\<in>set ws. c \<notin> set w \<Longrightarrow> split_on c (join [c] ws) = ws"
proof (induction "[c]" ws rule: join.induct)
  case (2 x)
  then show ?case by (simp add: split_on_no)
next
  case (3 x y xs)
  then show ?case by (simp add: split_on_app)
qed simp

lemma set_join: "set (join sep ws) \<subseteq> set sep \<union> (\<Union>w\<in>set ws. set w)"
  by (induction sep ws rule: join.induct) auto

section \<open>Pieces\<close>

definition role_letters :: string where
  "role_letters = ''PLNSGBRKplnsgbrk''"

definition valid_piece :: "string \<Rightarrow> bool" where
  "valid_piece p \<longleftrightarrow> (\<exists>c\<in>set role_letters. p = [c] \<or> p = [CHR ''+'', c])"

lemma role_letter_facts:
  "list_all (\<lambda>c. upper_char c \<in> set (List.map fst role_names) \<and> \<not> is_digit c \<and> c \<noteq> CHR ''+'' \<and> c \<noteq> CHR ''/''
    \<and> c \<noteq> CHR '' '' \<and> c \<noteq> CHR ''-'' \<and> sfen_char c) role_letters"
  by (simp add: role_letters_def role_names_def upper_char_def is_lower_def is_upper_def is_digit_def
      sfen_char_def less_eq_char_def char_of_def bit_simps)

lemma role_letter:
  assumes "c \<in> set role_letters"
  shows "upper_char c \<in> set (List.map fst role_names)" "\<not> is_digit c" "c \<noteq> CHR ''+''"
    "c \<noteq> CHR ''/''" "c \<noteq> CHR '' ''" "c \<noteq> CHR ''-''" "sfen_char c"
  using role_letter_facts assms unfolding list_all_iff by blast+

lemma place_piece:
  assumes "c \<in> set role_letters" "slot \<le> 8"
  shows "place row slot pre c sq = Inr (sq[row * 9 + slot := Some (pre @ [c])])"
  using role_letter(1) [OF assms(1)] assms(2) by (simp add: place_def del: set_map)

lemma plus_no_digit: "\<not> is_digit CHR ''+''"
  by code_simp

section \<open>Rows\<close>

fun fill :: "nat \<Rightarrow> string option list \<Rightarrow> squares \<Rightarrow> squares" where
  "fill k [] sq = sq"
| "fill k (None # cs) sq = fill (k + 1) cs sq"
| "fill k (Some p # cs) sq = fill (k + 1) cs (sq[k := Some p])"

lemma fill_blank: "fill (length xs) cs (xs @ replicate (length cs) None @ ys) = xs @ cs @ ys"
proof (induction cs arbitrary: xs)
  case (Cons c cs)
  have "fill (length (xs @ [c])) cs ((xs @ [c]) @ replicate (length cs) None @ ys) = (xs @ [c]) @ cs @ ys"
    by (rule Cons.IH)
  then show ?case by (cases c) simp_all
qed simp

lemma parse_row_dec:
  assumes "n < 10"
  shows "parse_row r slot ((if n = 0 then '''' else dec n) @ s) sq = parse_row r (slot + n) s sq"
  using assms by (simp add: dec.simps [of n])

lemma parse_row_text:
  assumes "slot + n + length cs \<le> 9" "\<forall>p. Some p \<in> set cs \<longrightarrow> valid_piece p"
  shows "parse_row r slot (row_text n cs) sq = Inr (fill (r * 9 + slot + n) cs sq)"
  using assms
proof (induction n cs arbitrary: slot sq rule: row_text.induct)
  case (1 n)
  then show ?case using parse_row_dec [of n r slot "''''" sq] by simp
next
  case (2 n cs)
  then show ?case by (simp add: add.assoc)
next
  case (3 n p cs)
  have n: "n < 10" "slot + n \<le> 8" using 3(2) by simp_all
  obtain c where c: "c \<in> set role_letters" "p = [c] \<or> p = [CHR ''+'', c]"
    using 3(3) by (auto simp: valid_piece_def)
  have "parse_row r (slot + n) (p @ row_text 0 cs) sq =
      parse_row r (slot + n + 1) (row_text 0 cs) (sq[r * 9 + (slot + n) := Some p])"
    using c(2) role_letter(2,3) [OF c(1)] place_piece [OF c(1) n(2)] plus_no_digit by auto
  also have "\<dots> = Inr (fill (r * 9 + (slot + n + 1) + 0) cs (sq[r * 9 + (slot + n) := Some p]))"
    using 3(1) [of "slot + n + 1"] 3(2,3) by simp
  finally show ?case
    using parse_row_dec [OF n(1)] by (simp add: add.assoc)
qed

lemma row_text_chars:
  "\<forall>p. Some p \<in> set cs \<longrightarrow> valid_piece p \<Longrightarrow>
   \<forall>c\<in>set (row_text n cs). is_digit c \<or> c = CHR ''+'' \<or> c \<in> set role_letters"
proof (induction n cs rule: row_text.induct)
  case (1 n)
  then show ?case using dec_digits [of n] by (auto simp: list_all_iff)
next
  case (3 n p cs)
  then have "\<forall>c\<in>set p. c = CHR ''+'' \<or> c \<in> set role_letters" by (auto simp: valid_piece_def)
  with 3 show ?case using dec_digits [of n] by (auto simp: list_all_iff)
qed auto

definition board_valid :: "squares \<Rightarrow> bool" where
  "board_valid sq \<longleftrightarrow> length sq = 81 \<and> (\<forall>p. Some p \<in> set sq \<longrightarrow> valid_piece p)"

definition board_row :: "squares \<Rightarrow> nat \<Rightarrow> string option list" where
  "board_row sq r = take 9 (drop (r * 9) sq)"

lemma parse_rows_text:
  assumes "board_valid sq" "r + m = 9"
  shows "parse_rows r (List.map (\<lambda>r. row_text 0 (board_row sq r)) [r..<9]) (take (r * 9) sq @ replicate (m * 9) None) = Inr sq"
  using assms(2)
proof (induction m arbitrary: r)
  case 0
  with assms(1) show ?case by (simp add: board_valid_def)
next
  case (Suc m)
  have l: "length (board_row sq r) = 9" "length (take (r * 9) sq) = r * 9"
    using Suc.prems assms(1) by (auto simp: board_row_def board_valid_def)
  have v: "\<forall>p. Some p \<in> set (board_row sq r) \<longrightarrow> valid_piece p"
    using assms(1) by (auto simp: board_row_def board_valid_def dest!: in_set_takeD in_set_dropD)
  have "fill (r * 9) (board_row sq r) (take (r * 9) sq @ replicate (Suc m * 9) None)
      = take (r * 9) sq @ board_row sq r @ replicate (m * 9) None"
    using fill_blank [of "take (r * 9) sq" "board_row sq r" "replicate (m * 9) None"] l
    by (simp add: replicate_add [symmetric] add.commute)
  also have "\<dots> = take (Suc r * 9) sq @ replicate (m * 9) None"
    using l by (simp add: board_row_def take_add [symmetric] add.commute)
  finally have f: "fill (r * 9) (board_row sq r) (take (r * 9) sq @ replicate (Suc m * 9) None)
      = take (Suc r * 9) sq @ replicate (m * 9) None" .
  have u: "[r..<9] = r # [Suc r..<9]" using Suc.prems by (simp add: upt_conv_Cons)
  show ?case
    using Suc.IH [of "Suc r"] Suc.prems parse_row_text [of 0 0 "board_row sq r" r] l(1) v
    by (simp add: u f del: upt_Suc mult_Suc replicate_Suc)
qed

lemma board_text_chars:
  assumes "board_valid sq"
  shows "\<forall>c\<in>set (board_text sq). is_digit c \<or> c = CHR ''+'' \<or> c = CHR ''/'' \<or> c \<in> set role_letters"
proof -
  have "\<forall>c\<in>set (row_text 0 (board_row sq r)). is_digit c \<or> c = CHR ''+'' \<or> c \<in> set role_letters" for r
    using assms by (intro row_text_chars) (auto simp: board_row_def board_valid_def dest!: in_set_takeD in_set_dropD)
  then show ?thesis
    using set_join [of "''/''" "List.map (\<lambda>r. row_text 0 (take 9 (drop (r * 9) sq))) [0..<9]"]
    unfolding board_text_def board_row_def by fastforce
qed

lemma parse_board_text:
  assumes "board_valid sq"
  shows "length (split_on (CHR ''/'') (board_text sq)) = 9 \<and>
    parse_rows 0 (split_on (CHR ''/'') (board_text sq)) empty_board = Inr sq"
proof -
  have "CHR ''/'' \<notin> set (row_text 0 (board_row sq r))" for r
  proof -
    have "\<forall>c\<in>set (row_text 0 (board_row sq r)). is_digit c \<or> c = CHR ''+'' \<or> c \<in> set role_letters"
      using assms by (intro row_text_chars) (auto simp: board_row_def board_valid_def dest!: in_set_takeD in_set_dropD)
    then show ?thesis using role_letter(4) by (fastforce simp: is_digit_def less_eq_char_def)
  qed
  then have "split_on (CHR ''/'') (board_text sq) = List.map (\<lambda>r. row_text 0 (board_row sq r)) [0..<9]"
    unfolding board_text_def board_row_def by (intro split_on_join) auto
  then show ?thesis
    using parse_rows_text [OF assms, of 0 9] by (simp add: empty_board_def del: upt_Suc)
qed

section \<open>Hands\<close>

definition hands_ok :: "hands \<Rightarrow> bool" where
  "hands_ok h \<longleftrightarrow> (\<forall>side role. 0 \<le> h side role \<and> ((side, role) \<notin> set hand_order \<longrightarrow> h side role = 0))"

definition hand_letters :: string where
  "hand_letters = ''RBGSNLP''"

lemma hand_order_mem: "(side, role) \<in> set hand_order \<longleftrightarrow> is_side side \<and> (\<exists>c\<in>set hand_letters. role = [c])"
  by (auto simp: hand_order_def is_side_def hand_letters_def)

lemma hand_orderE:
  assumes "x \<in> set hand_order"
  obtains side c where "x = (side, [c])" "is_side side" "c \<in> set hand_letters"
  using assms hand_order_mem [of "fst x" "snd x"] by (auto simp: prod_eq_iff)

lemma hand_letter_facts:
  "list_all (\<lambda>c. is_upper c \<and> \<not> is_upper (lower_char c) \<and> upper_char c = c \<and> upper_char (lower_char c) = c \<and>
     \<not> is_digit c \<and> \<not> is_digit (lower_char c) \<and> c \<in> set role_letters \<and> lower_char c \<in> set role_letters) hand_letters"
  by (simp add: hand_letters_def role_letters_def upper_char_def lower_char_def is_lower_def is_upper_def is_digit_def
      less_eq_char_def char_of_def bit_simps)

lemma hand_letter:
  assumes "c \<in> set hand_letters"
  shows "is_upper c" "\<not> is_upper (lower_char c)" "upper_char c = c" "upper_char (lower_char c) = c"
    "\<not> is_digit c" "\<not> is_digit (lower_char c)" "c \<in> set role_letters" "lower_char c \<in> set role_letters"
  using hand_letter_facts assms unfolding list_all_iff by blast+

lemma parse_hands_digits: "list_all is_digit ds \<Longrightarrow>
    parse_hands n (ds @ s) h = parse_hands (foldl (\<lambda>a c. 10 * a + digit_val c) n ds) s h"
  by (induction ds arbitrary: n) (simp_all add: mult.commute)

lemma parse_hands_dec: "parse_hands 0 (dec k @ s) h = parse_hands k s h"
  using parse_hands_digits [OF dec_digits [of k], of 0 s h] undec_dec [of k] by (simp add: undec_def)

lemma add_hand_0 [simp]: "add_hand side role 0 h = h"
  by (simp add: add_hand_def)

lemma parse_hand_item:
  assumes "x \<in> set hand_order" "0 \<le> h (fst x) (snd x)"
  shows "parse_hands 0 (hand_item h x @ s) g = parse_hands 0 s (add_hand (fst x) (snd x) (h (fst x) (snd x)) g)"
proof -
  obtain side c where x: "x = (side, [c])" "is_side side" "c \<in> set hand_letters"
    using assms(1) by (rule hand_orderE)
  note c = hand_letter [OF x(3)]
  define l where "l = (if side = ''sente'' then c else lower_char c)"
  have l: "\<not> is_digit l" "upper_char l = c" "(if is_upper l then ''sente'' else ''gote'') = side"
    using c x(2) by (auto simp: l_def is_side_def)
  have one: "parse_hands k (l # s) g = parse_hands 0 s (add_hand side [c] (if k = 0 then 1 else int k) g)" for k
    using l x(3) by (simp add: hand_letters_def)
  have item: "hand_item h (side, [c]) = (if h side [c] \<le> 0 then '''' else (if 1 < h side [c] then dec (nat (h side [c])) else '''') @ [l])"
    by (simp add: hand_item_def l_def)
  consider "h side [c] = 0" | "h side [c] = 1" | "1 < h side [c]" using assms(2) x(1) by fastforce
  then show ?thesis
  proof cases
    case 3
    then show ?thesis by (simp add: item parse_hands_dec one x(1) del: parse_hands.simps)
  qed (simp_all add: item one x(1) del: parse_hands.simps)
qed

lemma parse_hand_items:
  assumes "set xs \<subseteq> set hand_order" "\<forall>x. 0 \<le> h (fst x) (snd x)"
  shows "parse_hands 0 (concat (List.map (hand_item h) xs)) g = Inr (fold (\<lambda>x. add_hand (fst x) (snd x) (h (fst x) (snd x))) xs g)"
  using assms(1)
proof (induction xs arbitrary: g)
  case (Cons x xs)
  then show ?case using parse_hand_item [of x h] assms(2) by simp
qed simp

lemma fold_add_hand:
  "distinct xs \<Longrightarrow> fold (\<lambda>x. add_hand (fst x) (snd x) (h (fst x) (snd x))) xs g side role
    = g side role + (if (side, role) \<in> set xs then h side role else 0)"
  by (induction xs arbitrary: g) (auto simp: add_hand_def)

lemma parse_hand_text:
  assumes "hands_ok h"
  shows "parse_hands 0 (hand_text h) (\<lambda>_ _. 0) = Inr h"
proof -
  have "distinct hand_order" by (simp add: hand_order_def)
  then have "fold (\<lambda>x. add_hand (fst x) (snd x) (h (fst x) (snd x))) hand_order (\<lambda>_ _. 0) = h"
    using assms by (auto simp: fun_eq_iff fold_add_hand hands_ok_def)
  then show ?thesis
    using parse_hand_items [of hand_order h] assms by (simp add: hand_text_def hands_ok_def)
qed

lemma hand_text_chars: "\<forall>c\<in>set (hand_text h). is_digit c \<or> c \<in> set role_letters"
proof -
  have "is_digit c \<or> c \<in> set role_letters" if x: "x \<in> set hand_order" "c \<in> set (hand_item h x)" for x c
  proof -
    obtain side d where d: "x = (side, [d])" "d \<in> set hand_letters"
      using x(1) by (rule hand_orderE)
    have "c = d \<or> c = lower_char d \<or> c \<in> set (dec (nat (h side [d])))"
      using x(2) by (auto simp: d(1) hand_item_def split: if_splits)
    with hand_letter(7,8) [OF d(2)] dec_digits [of "nat (h side [d])"] show ?thesis by (auto simp: list_all_iff)
  qed
  then show ?thesis by (auto simp: hand_text_def)
qed

section \<open>A written position\<close>

lemma digit_not: "is_digit c \<Longrightarrow> c \<noteq> CHR '' '' \<and> c \<noteq> CHR ''/'' \<and> c \<noteq> CHR ''-'' \<and> sfen_char c"
  by (auto simp: is_digit_def less_eq_char_def sfen_char_def)

lemma sfen_text_char: "is_digit c \<or> c = CHR ''+'' \<or> c = CHR ''/'' \<or> c \<in> set role_letters \<Longrightarrow> sfen_char c \<and> c \<noteq> CHR '' ''"
  using digit_not [of c] role_letter [of c] by (auto simp: sfen_char_def)

lemma hand_text_char: "c \<in> set (hand_text h) \<Longrightarrow> sfen_char c \<and> c \<noteq> CHR '' '' \<and> c \<noteq> CHR ''-''"
  using hand_text_chars [of h] digit_not [of c] role_letter [of c] by auto

lemma parse_to_sfen:
  assumes "board_valid sq" "hands_ok h" "turn = ''b'' \<or> turn = ''w''" "length (to_sfen sq h turn n) \<le> 200"
  shows "parse_sfen (to_sfen sq h turn n) = Inr (sq, turn, h)"
proof -
  let ?hand = "if hand_text h = '''' then ''-'' else hand_text h" and ?num = "dec (nat (max 1 n))"
  have b: "\<forall>c\<in>set (board_text sq). sfen_char c \<and> c \<noteq> CHR '' ''"
    using board_text_chars [OF assms(1)] sfen_text_char by blast
  have h: "\<forall>c\<in>set (hand_text h). sfen_char c \<and> c \<noteq> CHR '' '' \<and> c \<noteq> CHR ''-''"
    by (intro ballI hand_text_char)
  have d: "\<forall>c\<in>set ?num. sfen_char c \<and> c \<noteq> CHR '' ''"
    using dec_digits [of "nat (max 1 n)"] digit_not by (auto simp: list_all_iff)
  have m: "sfen_char (CHR ''-'')" "sfen_char (CHR '' '')" "sfen_char (CHR ''b'')" "sfen_char (CHR ''w'')"
    by (simp_all add: sfen_char_def is_lower_def less_eq_char_def)
  have written: "to_sfen sq h turn n = join '' '' [board_text sq, turn, ?hand, ?num]"
    by (simp add: to_sfen_def)
  have sfen: "is_sfen (to_sfen sq h turn n)"
  proof -
    have "set (to_sfen sq h turn n) \<subseteq> set (board_text sq) \<union> set (hand_text h) \<union> set ?num \<union> set '' -bw''"
      using assms(3) by (auto simp: to_sfen_def)
    moreover have "\<forall>c\<in>set '' -bw''. sfen_char c" using m by simp
    ultimately have "\<forall>c\<in>set (to_sfen sq h turn n). sfen_char c" using b h d by blast
    moreover have "1 \<le> length (to_sfen sq h turn n)" by (simp add: to_sfen_def)
    ultimately show ?thesis using assms(4) by (simp add: is_sfen_def list_all_iff)
  qed
  have ns: "CHR '' '' \<notin> set (board_text sq)" "CHR '' '' \<notin> set (hand_text h)" "CHR '' '' \<notin> set ?num"
    using b h d by blast+
  have ns': "CHR '' '' \<notin> set ?hand" "CHR '' '' \<notin> set turn"
    using ns(2) assms(3) by auto
  have split: "split_on (CHR '' '') (to_sfen sq h turn n) = [board_text sq, turn, ?hand, ?num]"
    unfolding written by (rule split_on_join) (simp, simp only: set_simps ball_simps ns ns' simp_thms)
  have "CHR ''-'' \<notin> set (hand_text h)" using h by blast
  then have hand: "(if ?hand = ''-'' then Inr (\<lambda>_ _. 0) else parse_hands 0 ?hand (\<lambda>_ _. 0)) = Inr h"
    using parse_hand_text [OF assms(2)] by (cases "hand_text h") auto
  show ?thesis
    unfolding parse_sfen_def Let_def split
    using assms(3) sfen parse_board_text [OF assms(1)] hand by simp
qed

section \<open>What a move does to the pieces\<close>

text \<open>The pieces of a role, on the board in either form and in the hands.\<close>

definition role_of :: "string \<Rightarrow> string" where
  "role_of p = upper (demote p)"

definition on_board_count :: "squares \<Rightarrow> string \<Rightarrow> int" where
  "on_board_count sq role = (\<Sum>p\<leftarrow>sq. of_bool (map_option role_of p = Some role))"

definition material :: "squares \<Rightarrow> hands \<Rightarrow> string \<Rightarrow> int" where
  "material sq h role = on_board_count sq role + h ''sente'' role + h ''gote'' role"

definition position_ok :: "squares \<Rightarrow> hands \<Rightarrow> bool" where
  "position_ok sq h \<longleftrightarrow> board_valid sq \<and> (\<forall>side role. 0 \<le> h side role)"

lemma on_board_update: "i < length sq \<Longrightarrow> on_board_count (sq[i := x]) role =
    on_board_count sq role - of_bool (map_option role_of (sq ! i) = Some role) + of_bool (map_option role_of x = Some role)"
  unfolding on_board_count_def
proof (induction sq arbitrary: i)
  case (Cons p sq)
  then show ?case by (cases i) simp_all
qed simp

lemma board_valid_update: "board_valid sq \<Longrightarrow> (\<forall>p. x = Some p \<longrightarrow> valid_piece p) \<Longrightarrow> board_valid (sq[i := x])"
  by (auto simp: board_valid_def dest!: subsetD [OF set_update_subset_insert])

lemma valid_role:
  assumes "valid_piece p"
  shows "\<exists>c. role_of p = [c]" and "take 1 p = ''+'' \<or> valid_piece (''+'' @ p) \<and> role_of (''+'' @ p) = role_of p"
proof -
  obtain c where c: "c \<in> set role_letters" "p = [c] \<or> p = [CHR ''+'', c]"
    using assms unfolding valid_piece_def by blast
  have plus: "(c = CHR ''+'') = False" using role_letter(3) [OF c(1)] by simp
  have r: "role_of [c] = [upper_char c]" "role_of [CHR ''+'', c] = [upper_char c]"
    by (simp_all add: role_of_def demote_def upper_def plus)
  from c(2) r show "\<exists>c. role_of p = [c]" by (elim disjE) simp_all
  have "valid_piece [CHR ''+'', c]" using c(1) unfolding valid_piece_def by blast
  with c(2) r show "take 1 p = ''+'' \<or> valid_piece (''+'' @ p) \<and> role_of (''+'' @ p) = role_of p"
    by (elim disjE) simp_all
qed

lemma material_hand:
  "material sq (add_hand side role n h) r = material sq h r + (if is_side side \<and> r = role then n else 0)"
  by (auto simp: material_def add_hand_def is_side_def)

lemma material_update: "i < length sq \<Longrightarrow> material (sq[i := x]) h role =
    material sq h role - of_bool (map_option role_of (sq ! i) = Some role) + of_bool (map_option role_of x = Some role)"
  by (simp add: material_def on_board_update)

lemma apply_step_keeps:
  assumes "apply_step sq h i j promote side = Inr (sq', h', f)" "position_ok sq h" "is_side side"
    "i < 81" "j < 81" "i \<noteq> j"
  shows "position_ok sq' h' \<and> material sq' h' role = material sq h role"
proof -
  have l: "length sq = 81" and v: "\<And>p. Some p \<in> set sq \<Longrightarrow> valid_piece p" and n: "\<And>s r. 0 \<le> h s r"
    using assms(2) by (auto simp: position_ok_def board_valid_def)
  obtain p where p: "sq ! i = Some p" using assms(1) by (auto simp: apply_step_def split: option.splits)
  then have vp: "valid_piece p" using v assms(4) l nth_mem [of i sq] by auto
  define q where "q = (if promote then ''+'' @ p else p)"
  have q: "valid_piece q" "role_of q = role_of p"
    using assms(1) valid_role(2) [OF vp] vp by (auto simp: apply_step_def p q_def Let_def split: if_splits)
  have sq': "sq' = sq[i := None, j := Some q]"
    and h': "h' = (case sq ! j of None \<Rightarrow> h | Some c \<Rightarrow> add_hand side (role_of c) 1 h)"
    using assms(1) by (auto simp: apply_step_def p q_def Let_def role_of_def split: if_splits option.splits)
  have "board_valid sq'"
    using assms(2) q(1) unfolding sq' by (intro board_valid_update) (auto simp: position_ok_def)
  moreover have "0 \<le> h' s r" for s r using n by (auto simp: h' add_hand_def split: option.splits)
  moreover have "material sq' h' role = material sq h role"
  proof -
    have "material sq' h' role = material sq h' role - of_bool (role_of p = role)
        - of_bool (map_option role_of (sq ! j) = Some role) + of_bool (role_of p = role)"
      using assms(4-6) l q(2) by (simp add: sq' material_update p)
    moreover have "material sq h' role = material sq h role + of_bool (map_option role_of (sq ! j) = Some role)"
      using assms(3) by (auto simp: h' material_hand split: option.splits)
    ultimately show ?thesis by simp
  qed
  ultimately show ?thesis by (simp add: position_ok_def)
qed

lemma apply_drop_keeps:
  assumes "apply_drop sq h [c] i side = Inr (sq', h', f)" "position_ok sq h" "is_side side" "i < 81" "c \<in> set hand_letters"
  shows "position_ok sq' h' \<and> material sq' h' role = material sq h role"
proof -
  define p where "p = (if side = ''sente'' then [c] else [lower_char c])"
  have l: "length sq = 81" using assms(2) by (simp add: position_ok_def board_valid_def)
  note c = hand_letter [OF assms(5)]
  have p: "valid_piece p" "role_of p = [c]"
    using c role_letter(3) [OF c(7)] role_letter(3) [OF c(8)]
    by (auto simp: p_def valid_piece_def role_of_def demote_def upper_def)
  have e: "sq ! i = None" "0 < h side [c]" "sq' = sq[i := Some p]" "h' = add_hand side [c] (-1) h"
    using assms(1) by (auto simp: apply_drop_def p_def Let_def split: if_splits)
  have "board_valid sq'"
    using assms(2) p(1) unfolding e(3) by (intro board_valid_update) (auto simp: position_ok_def)
  moreover have "0 \<le> h' s r" for s r using e(2) assms(2) by (auto simp: e(4) add_hand_def position_ok_def)
  moreover have "material sq' h' role = material sq h role"
    using assms(3,4) l p(2) by (auto simp: e material_update material_hand)
  ultimately show ?thesis by (simp add: position_ok_def)
qed

lemma nine_digits: "a * 9 + b = a' * 9 + (b' :: nat) \<Longrightarrow> b < 9 \<Longrightarrow> b' < 9 \<Longrightarrow> a = a' \<and> b = b'"
  by presburger

lemma file_bounds: "file_char f \<Longrightarrow> 1 \<le> digit_val f \<and> digit_val f \<le> 9 \<and> of_char f = digit_val f + (48 :: nat)"
proof -
  assume "file_char f"
  then have "49 \<le> (of_char f :: nat)" "(of_char f :: nat) \<le> 57" by (simp_all add: file_char_def less_eq_char_def)
  then show ?thesis unfolding digit_val_def by arith
qed

lemma rank_bounds: "rank_char r \<Longrightarrow> 97 \<le> (of_char r :: nat) \<and> (of_char r :: nat) \<le> 105"
  by (simp add: rank_char_def less_eq_char_def)

lemma square_index_bound:
  assumes "file_char f" "rank_char r"
  shows "square_index f r < 81"
  using file_bounds [OF assms(1)] rank_bounds [OF assms(2)] unfolding square_index_def by arith

lemma square_index_inj:
  assumes "file_char f" "rank_char r" "file_char f'" "rank_char r'" "square_index f r = square_index f' r'"
  shows "f = f' \<and> r = r'"
proof -
  note b = file_bounds [OF assms(1)] file_bounds [OF assms(3)] rank_bounds [OF assms(2)] rank_bounds [OF assms(4)]
  have "9 - digit_val f < 9" "9 - digit_val f' < 9" using b by arith+
  with assms(5) have "of_char r - (97 :: nat) = of_char r' - 97 \<and> 9 - digit_val f = 9 - digit_val f'"
    unfolding square_index_def by (rule nine_digits)
  with b have "(of_char r :: nat) = of_char r'" "(of_char f :: nat) = of_char f'" by arith+
  then show ?thesis by simp
qed

text \<open>A move in place, such as \<open>7g7g\<close>, has the form of a USI move but is none.\<close>

definition in_place :: "string \<Rightarrow> bool" where
  "in_place usi \<longleftrightarrow> CHR ''*'' \<notin> set usi \<and> take 2 usi = take 2 (drop 2 usi)"

lemma star_no_square: "\<not> file_char (CHR ''*'')" "\<not> rank_char (CHR ''*'')" "CHR ''*'' \<noteq> CHR ''+''"
  by (simp_all add: file_char_def rank_char_def less_eq_char_def)

lemma not_star: "file_char c \<Longrightarrow> c \<noteq> CHR ''*''" "rank_char c \<Longrightarrow> c \<noteq> CHR ''*''"
  using star_no_square by auto

definition drop_usi :: "string \<Rightarrow> bool" where
  "drop_usi usi \<longleftrightarrow> (\<exists>c f r. usi = [c, CHR ''*'', f, r] \<and> c \<in> set hand_letters \<and> file_char f \<and> rank_char r)"

definition step_usi :: "string \<Rightarrow> bool" where
  "step_usi usi \<longleftrightarrow> (\<exists>a b c d rest. usi = a # b # c # d # rest \<and> CHR ''*'' \<notin> set usi \<and>
     file_char a \<and> rank_char b \<and> file_char c \<and> rank_char d)"

lemma is_usi_cases: "is_usi usi \<Longrightarrow> drop_usi usi \<or> step_usi usi"
proof -
  assume u: "is_usi usi"
  have four: "drop_usi [a, b, c, d] \<or> step_usi [a, b, c, d]" if "is_usi [a, b, c, d]" for a b c d
  proof (cases "file_char a \<and> rank_char b \<and> file_char c \<and> rank_char d")
    case True
    then have "CHR ''*'' \<notin> set [a, b, c, d]" using not_star by auto
    with True show ?thesis unfolding step_usi_def by blast
  next
    case False
    with that have "a \<in> set hand_letters" "b = CHR ''*''" "file_char c" "rank_char d"
      by (auto simp: is_usi_def hand_letters_def)
    then show ?thesis unfolding drop_usi_def by blast
  qed
  have five: "step_usi [a, b, c, d, e]" if "is_usi [a, b, c, d, e]" for a b c d e
  proof -
    have f: "file_char a" "rank_char b" "file_char c" "rank_char d" "e = CHR ''+''"
      using that by (auto simp: is_usi_def)
    then have "CHR ''*'' \<notin> set [a, b, c, d, e]" using not_star star_no_square(3) by auto
    with f show ?thesis unfolding step_usi_def by blast
  qed
  have "(\<exists>a b c d. usi = [a, b, c, d]) \<or> (\<exists>a b c d e. usi = [a, b, c, d, e])"
    using u by (auto simp: is_usi_def split: list.splits)
  with u four five show ?thesis by blast
qed

lemma apply_move_keeps:
  assumes "apply_usi_move sq h usi side = Inr (sq', h', f)" "position_ok sq h" "\<not> in_place usi"
  shows "position_ok sq' h' \<and> material sq' h' role = material sq h role"
proof -
  obtain sd where sd: "side = Some sd" "is_side sd" and usi: "is_usi usi"
    using assms(1) by (auto simp: apply_usi_move_def split: option.splits if_splits)
  from is_usi_cases [OF usi] show ?thesis
  proof
    assume "drop_usi usi"
    then obtain c f' r where d: "usi = [c, CHR ''*'', f', r]" "c \<in> set hand_letters" "file_char f'" "rank_char r"
      unfolding drop_usi_def by blast
    then have "apply_drop sq h [c] (square_index f' r) sd = Inr (sq', h', f)"
      using assms(1) sd usi by (simp add: apply_usi_move_def)
    then show ?thesis
      by (rule apply_drop_keeps [OF _ assms(2) sd(2) square_index_bound [OF d(3,4)] d(2)])
  next
    assume "step_usi usi"
    then obtain a b c d rest where step: "usi = a # b # c # d # rest" "CHR ''*'' \<notin> set usi"
        "file_char a" "rank_char b" "file_char c" "rank_char d"
      unfolding step_usi_def by blast
    then have s: "apply_step sq h (square_index a b) (square_index c d) (rest = ''+'') sd = Inr (sq', h', f)"
      using assms(1) sd usi by (simp add: apply_usi_move_def)
    have "square_index a b \<noteq> square_index c d"
      using square_index_inj [OF step(3-6)] assms(3) step(1,2) by (auto simp: in_place_def)
    then show ?thesis
      by (rule apply_step_keeps [OF s assms(2) sd(2) square_index_bound [OF step(3,4)] square_index_bound [OF step(5,6)]])
  qed
qed

lemma apply_moves_keep:
  "apply_moves sq h mvs = Inr (sq', h') \<Longrightarrow> position_ok sq h \<Longrightarrow>
   \<forall>mv\<in>set mvs. \<forall>u. mv_usi mv = Some u \<longrightarrow> \<not> in_place u \<Longrightarrow>
   position_ok sq' h' \<and> material sq' h' role = material sq h role"
proof (induction mvs arbitrary: sq h)
  case (Cons mv mvs)
  obtain usi sq1 h1 f where m: "mv_usi mv = Some usi" "apply_usi_move sq h usi (mv_by mv) = Inr (sq1, h1, f)"
    "apply_moves sq1 h1 mvs = Inr (sq', h')"
    using Cons.prems(1) by (auto simp: after_Inr split: option.splits)
  have "\<not> in_place usi" using Cons.prems(3) m(1) by simp
  from apply_move_keeps [OF m(2) Cons.prems(2) this]
  have 1: "position_ok sq1 h1" "material sq1 h1 role = material sq h role" by simp_all
  from Cons.IH [OF m(3) 1(1)] Cons.prems(3) 1(2) show ?case by simp
qed simp

end
