(* ===== verification/ShogiProperties.thy ===== *)
theory ShogiProperties
  imports ShogiFacts
begin

text \<open>
  The properties of the shogi record: a written position reads back, and the position a
  reconstruction ends in is made of exactly the forty pieces of the game.
\<close>

section \<open>Positions as text\<close>

text \<open>C40: a position with well-formed pieces and hands, written by \<open>to_sfen\<close> within the 200 characters
  the reader takes, is read back by \<open>parse_sfen\<close> as the same board, side to move and hands.\<close>

theorem sfen_roundtrip:
  assumes "board_valid sq" "hands_ok h" "turn = ''b'' \<or> turn = ''w''" "length (to_sfen sq h turn n) \<le> 200"
  shows "parse_sfen (to_sfen sq h turn n) = Inr (sq, turn, h)"
  by (rule parse_to_sfen [OF assms])

definition sample_squares :: squares where
  "sample_squares = (replicate 81 None)[4 := Some ''k'', 40 := Some ''+P'', 76 := Some ''K'']"

lemma sfen_roundtrip_witness:
  "parse_sfen (to_sfen sample_squares (add_hand ''gote'' ''P'' 12 (\<lambda>_ _. 0)) ''w'' 9)
   = Inr (sample_squares, ''w'', add_hand ''gote'' ''P'' 12 (\<lambda>_ _. 0))"
proof (rule sfen_roundtrip)
  have "board_valid (replicate 81 None)" by (simp add: board_valid_def)
  then show "board_valid sample_squares"
    unfolding sample_squares_def by (intro board_valid_update) (auto simp: valid_piece_def role_letters_def)
  show "hands_ok (add_hand ''gote'' ''P'' 12 (\<lambda>_ _. 0))"
    by (auto simp: hands_ok_def add_hand_def hand_order_def)
  show "length (to_sfen sample_squares (add_hand ''gote'' ''P'' 12 (\<lambda>_ _. 0)) ''w'' 9) \<le> 200"
    by code_simp
qed simp

section \<open>Reconstruction\<close>

definition start_squares :: squares where
  "start_squares =
     List.map (\<lambda>c. Some [c]) ''lnsgkgsnl'' @ [None, Some ''r'', None, None, None, None, None, Some ''b'', None] @
     replicate 9 (Some ''p'') @ replicate 27 None @ replicate 9 (Some ''P'') @
     [None, Some ''B'', None, None, None, None, None, Some ''R'', None] @ List.map (\<lambda>c. Some [c]) ''LNSGKGSNL''"

lemma start_valid: "position_ok start_squares (\<lambda>_ _. 0)"
proof -
  have "\<forall>p\<in>set start_squares. case p of None \<Rightarrow> True | Some [c] \<Rightarrow> c \<in> set role_letters | _ \<Rightarrow> False"
    by (simp add: start_squares_def role_letters_def)
  then have "\<forall>p. Some p \<in> set start_squares \<longrightarrow> valid_piece p"
    by (fastforce simp: valid_piece_def split: list.splits)
  moreover have "length start_squares = 81" by (simp add: start_squares_def)
  ultimately show ?thesis by (simp add: position_ok_def board_valid_def)
qed

lemma start_position: "parse_sfen standard_start = Inr (start_squares, ''b'', \<lambda>_ _. 0)"
proof -
  have t: "to_sfen start_squares (\<lambda>_ _. 0) ''b'' 1 = standard_start" by code_simp
  have "length standard_start \<le> 200" by (simp add: standard_start_def)
  with start_valid have "parse_sfen (to_sfen start_squares (\<lambda>_ _. 0) ''b'' 1) = Inr (start_squares, ''b'', \<lambda>_ _. 0)"
    by (intro parse_to_sfen) (simp_all add: t position_ok_def hands_ok_def)
  then show ?thesis by (simp add: t)
qed

text \<open>The forty pieces of the game.\<close>

definition standard_material :: "string \<Rightarrow> int" where
  "standard_material role =
     (if role = ''P'' then 18 else if role \<in> {''L'', ''N'', ''S'', ''G''} then 4
      else if role \<in> {''B'', ''R'', ''K''} then 2 else 0)"

lemma start_material: "material start_squares (\<lambda>_ _. 0) role = standard_material role"
proof -
  have r: "List.map (map_option role_of) start_squares =
      List.map (\<lambda>c. Some [c]) ''LNSGKGSNL'' @ [None, Some ''R'', None, None, None, None, None, Some ''B'', None] @
      replicate 9 (Some ''P'') @ replicate 27 None @ replicate 9 (Some ''P'') @
      [None, Some ''B'', None, None, None, None, None, Some ''R'', None] @ List.map (\<lambda>c. Some [c]) ''LNSGKGSNL''"
    by (simp add: start_squares_def role_of_def demote_def upper_def upper_char_def is_lower_def less_eq_char_def
        char_of_def bit_simps)
  have "material start_squares (\<lambda>_ _. 0) role = (\<Sum>p\<leftarrow>List.map (map_option role_of) start_squares. of_bool (p = Some role))"
    by (simp add: material_def on_board_count_def comp_def)
  also have "\<dots> = standard_material role"
    unfolding r by (simp add: standard_material_def eval_nat_numeral)
  finally show ?thesis .
qed

lemma annotate_last:
  "annotate_from n previous sq h mvs = Inr es \<Longrightarrow> apply_moves sq h mvs = Inr (sq', h') \<Longrightarrow>
   length es = length mvs \<and> List.map (Some \<circ> ke_usi) es = List.map mv_usi mvs \<and>
   (mvs \<noteq> [] \<longrightarrow> ke_board (last es) = snapshot sq')"
proof (induction mvs arbitrary: n previous sq h es)
  case (Cons mv mvs)
  obtain usi sq1 h1 f where m: "mv_usi mv = Some usi" "apply_usi_move sq h usi (mv_by mv) = Inr (sq1, h1, f)"
    "apply_moves sq1 h1 mvs = Inr (sq', h')"
    using Cons.prems(2) by (auto simp: after_Inr split: option.splits)
  then obtain e rest where e: "es = e # rest" "annotate_from (n + 1) (Some (target_square usi)) sq1 h1 mvs = Inr rest"
    "ke_usi e = usi" "ke_board e = snapshot sq1"
    using Cons.prems(1) by (auto simp: after_Inr Let_def)
  show ?case
  proof (cases "mvs = []")
    case True
    with e m show ?thesis by simp
  next
    case False
    with Cons.IH [OF e(2) m(3)] e m(1) show ?thesis by auto
  qed
qed simp

text \<open>C39: a game that is reconstructed from moves none of which stays in place ends in a position of
  exactly the forty pieces of shogi, on the board and in hand; that position, written out, agrees
  with the authoritative one, there is one entry per move in their order, and the last board shown
  is that position.\<close>

theorem reconstruction_keeps_pieces:
  assumes "reconstruct moves final = Inr (Some k)" "\<forall>mv\<in>set moves. \<forall>u. mv_usi mv = Some u \<longrightarrow> \<not> in_place u"
  shows "\<exists>sq h turn. kf_final k = to_sfen sq h turn (int (length moves) + 1) \<and>
    position_fields (kf_final k) = position_fields final \<and>
    position_ok sq h \<and> (\<forall>role. material sq h role = standard_material role) \<and>
    kf_move_count k = length moves \<and> List.map (Some \<circ> ke_usi) (kf_moves k) = List.map mv_usi moves \<and>
    ke_board (last (kf_moves k)) = snapshot sq"
proof -
  have k: "rebuild moves = Inr k" and f: "position_fields (kf_final k) = position_fields final"
    using assms(1) by (auto simp: reconstruct_def split: if_splits sum.splits board_error.splits)
  obtain es sq h where r: "annotate moves = Inr es" "apply_moves start_squares (\<lambda>_ _. 0) moves = Inr (sq, h)"
    "k = \<lparr>kf_start = standard_start,
       kf_final = to_sfen sq h (if mv_by (last moves) = Some ''gote'' then ''b'' else ''w'') (int (length moves) + 1),
       kf_moves = es, kf_move_count = length es\<rparr>"
    using k by (auto simp: rebuild_def after_Inr start_position)
  have a: "annotate_from 1 None start_squares (\<lambda>_ _. 0) moves = Inr es" "moves \<noteq> []"
    using r(1) by (auto simp: annotate_def after_Inr start_position split: if_splits)
  have "position_ok sq h \<and> material sq h role = standard_material role" for role
    using apply_moves_keep [OF r(2) start_valid assms(2), of role] start_material by simp
  with annotate_last [OF a(1) r(2)] a(2) r(3) f show ?thesis by auto
qed

definition sample_moves :: "move_entry list" where
  "sample_moves = [\<lparr>mv_usi = Some ''7g7f'', mv_by = Some ''sente'', mv_ms = Some 1500\<rparr>,
     \<lparr>mv_usi = Some ''3c3d'', mv_by = Some ''gote'', mv_ms = None\<rparr>,
     \<lparr>mv_usi = Some ''8h2b+'', mv_by = Some ''sente'', mv_ms = None\<rparr>]"

definition sample_final :: string where
  "sample_final = ''lnsgkgsnl/1r5+B1/pppppp1pp/6p2/9/2P6/PP1PPPPPP/7R1/LNSGKGSNL w B 4''"

lemma piece_name_valid: "valid_piece p \<Longrightarrow> \<exists>t. piece_name p = Inr t"
  using role_letter(3) by (auto simp: valid_piece_def piece_name_def)

lemma demote_valid: "valid_piece p \<Longrightarrow> valid_piece (demote p)"
  using role_letter(3) by (auto simp: valid_piece_def demote_def)

lemma notation_valid:
  assumes "is_usi usi" "valid_piece p"
  shows "\<exists>t. notation_text usi side p same = Inr t"
proof (cases "CHR ''*'' \<in> set usi")
  case True
  with is_usi_cases [OF assms(1)] obtain c f r where u: "usi = [c, CHR ''*'', f, r]" "c \<in> set hand_letters"
    by (auto simp: drop_usi_def step_usi_def)
  have "valid_piece [c]" using hand_letter(7) [OF u(2)] by (auto simp: valid_piece_def)
  from piece_name_valid [OF this] u(1) assms(1) show ?thesis by (auto simp: notation_text_def)
next
  case False
  obtain t where "piece_name (if drop 4 usi = ''+'' then demote p else p) = Inr t"
    using piece_name_valid [OF assms(2)] piece_name_valid [OF demote_valid [OF assms(2)]] by (cases "drop 4 usi = ''+''") auto
  with False assms(1) show ?thesis by (simp add: notation_text_def Let_def)
qed

lemma promoted_valid: "valid_piece p \<Longrightarrow> take (Suc 0) p \<noteq> ''+'' \<Longrightarrow> valid_piece (CHR ''+'' # p)"
  using valid_role(2) [of p] by simp

lemma apply_move_facts:
  assumes "apply_usi_move sq h usi side = Inr (sq', h', f)" "board_valid sq"
  shows "is_usi usi \<and> valid_piece (mf_piece f) \<and> (\<forall>c. mf_captured f = Some c \<longrightarrow> valid_piece c)"
proof -
  obtain sd where sd: "side = Some sd" "is_side sd" and usi: "is_usi usi"
    using assms(1) by (auto simp: apply_usi_move_def split: option.splits if_splits)
  have v: "sq ! i = Some p \<Longrightarrow> i < 81 \<Longrightarrow> valid_piece p" for i p
    using assms(2) nth_mem [of i sq] by (auto simp: board_valid_def)
  from is_usi_cases [OF usi] have "valid_piece (mf_piece f) \<and> (\<forall>c. mf_captured f = Some c \<longrightarrow> valid_piece c)"
  proof
    assume "drop_usi usi"
    then obtain c f' r where d: "usi = [c, CHR ''*'', f', r]" "c \<in> set hand_letters"
      unfolding drop_usi_def by blast
    then have "apply_drop sq h [c] (square_index f' r) sd = Inr (sq', h', f)"
      using assms(1) sd usi by (simp add: apply_usi_move_def)
    with hand_letter(7,8) [OF d(2)] show ?thesis
      by (auto simp: apply_drop_def Let_def valid_piece_def split: if_splits)
  next
    assume "step_usi usi"
    then obtain a b c d rest where step: "usi = a # b # c # d # rest" "CHR ''*'' \<notin> set usi"
        "file_char a" "rank_char b" "file_char c" "rank_char d"
      unfolding step_usi_def by blast
    then have "apply_step sq h (square_index a b) (square_index c d) (rest = ''+'') sd = Inr (sq', h', f)"
      using assms(1) sd usi by (simp add: apply_usi_move_def)
    with v [OF _ square_index_bound [OF step(3,4)]] v [OF _ square_index_bound [OF step(5,6)]]
    show ?thesis
      by (auto intro: promoted_valid simp: apply_step_def Let_def split: if_splits option.splits)
  qed
  with usi show ?thesis by simp
qed

text \<open>A record that applies can always be annotated.\<close>

lemma annotate_succeeds:
  "apply_moves sq h mvs = Inr (sq', h') \<Longrightarrow> position_ok sq h \<Longrightarrow>
   \<forall>mv\<in>set mvs. \<forall>u. mv_usi mv = Some u \<longrightarrow> \<not> in_place u \<Longrightarrow>
   \<exists>es. annotate_from n previous sq h mvs = Inr es"
proof (induction mvs arbitrary: n previous sq h)
  case (Cons mv mvs)
  obtain usi sq1 h1 f where m: "mv_usi mv = Some usi" "apply_usi_move sq h usi (mv_by mv) = Inr (sq1, h1, f)"
    "apply_moves sq1 h1 mvs = Inr (sq', h')"
    using Cons.prems(1) by (auto simp: after_Inr split: option.splits)
  have "\<not> in_place usi" using Cons.prems(3) m(1) by simp
  from apply_move_keeps [OF m(2) Cons.prems(2) this] have ok: "position_ok sq1 h1" by simp
  have f: "is_usi usi" "valid_piece (mf_piece f)" "\<forall>c. mf_captured f = Some c \<longrightarrow> valid_piece c"
    using apply_move_facts [OF m(2)] Cons.prems(2) by (auto simp: position_ok_def)
  let ?side = "case mv_by mv of None \<Rightarrow> '''' | Some s \<Rightarrow> s"
  obtain t1 where t1: "notation_text usi ?side (mf_piece f) (Some (target_square usi) = previous) = Inr t1"
    using notation_valid [OF f(1,2)] by blast
  obtain t2 where t2: "piece_name (mf_piece f) = Inr t2" using piece_name_valid [OF f(2)] by blast
  obtain t3 where t3: "optional_name (mf_captured f) = Inr t3"
    using f(3) piece_name_valid by (cases "mf_captured f") (fastforce simp: optional_name_def split: list.splits)+
  obtain es where es: "annotate_from (n + 1) (Some (target_square usi)) sq1 h1 mvs = Inr es"
    using Cons.IH [OF m(3) ok, of "n + 1" "Some (target_square usi)"] Cons.prems(3) by auto
  from m(1,2) t1 t2 t3 es show ?case by (simp add: Let_def)
qed simp

definition sample_end :: squares where
  "sample_end = start_squares[56 := None, 47 := Some ''P'', 24 := None, 33 := Some ''p'', 64 := None, 16 := Some ''+B'']"

lemmas run_shogi = apply_usi_move_def is_side_def is_usi_def file_char_def rank_char_def less_eq_char_def
  apply_step_def square_index_def digit_val_def Let_def upper_def promotable_def demote_def

lemma sample_upper: "List.map upper_char ''pPbB'' = ''PPBB''"
  by (simp add: upper_char_def is_lower_def less_eq_char_def char_of_def bit_simps)

lemma sample_applied: "apply_moves start_squares (\<lambda>_ _. 0) sample_moves = Inr (sample_end, add_hand ''sente'' ''B'' 1 (\<lambda>_ _. 0))"
  using sample_upper by (simp add: sample_moves_def start_squares_def sample_end_def run_shogi eval_nat_numeral)

lemma reconstruction_keeps_pieces_witness:
  "\<exists>k sq h turn. reconstruct sample_moves sample_final = Inr (Some k) \<and> kf_final k = to_sfen sq h turn 4 \<and>
    (\<forall>role. material sq h role = standard_material role) \<and> ke_board (last (kf_moves k)) = snapshot sq"
proof -
  have moves: "\<forall>mv\<in>set sample_moves. \<forall>u. mv_usi mv = Some u \<longrightarrow> \<not> in_place u"
    by (simp add: sample_moves_def in_place_def)
  obtain es where "annotate_from 1 None start_squares (\<lambda>_ _. 0) sample_moves = Inr es"
    using annotate_succeeds [OF sample_applied start_valid moves] by blast
  then have "annotate sample_moves = Inr es" by (simp add: annotate_def start_position) (simp add: sample_moves_def)
  then obtain k where "rebuild sample_moves = Inr k"
    "kf_final k = to_sfen sample_end (add_hand ''sente'' ''B'' 1 (\<lambda>_ _. 0)) ''w'' 4"
    by (simp add: rebuild_def start_position sample_applied) (simp add: sample_moves_def)
  moreover have "to_sfen sample_end (add_hand ''sente'' ''B'' 1 (\<lambda>_ _. 0)) ''w'' 4 = sample_final" by code_simp
  moreover have "is_sfen sample_final" by code_simp
  ultimately have k: "reconstruct sample_moves sample_final = Inr (Some k)" by (simp add: reconstruct_def)
  from reconstruction_keeps_pieces [OF k moves] obtain sq h turn where
    "kf_final k = to_sfen sq h turn (int (length sample_moves) + 1)"
    "\<forall>role. material sq h role = standard_material role" "ke_board (last (kf_moves k)) = snapshot sq" by blast
  with k show ?thesis by (auto simp: sample_moves_def)
qed

end
