(* ===== verification/Spec2Isabelle.thy ===== *)
theory Spec2Isabelle
  imports SessionProperties StoreProperties QueueProperties NameProperties SwitchProperties DefectProperties
    AgentProperties CornerProperties CatalogProperties TrpgProperties OthelloProperties TsuitateProperties ShogiProperties
begin

text \<open>
  \<^bold>\<open>Docich: the control core of an unattended game broadcast\<close>

  The repository runs a live broadcast of games and shows without anybody watching over it.  Its core
  is \<open>src/docich/game_switch.py\<close>: the coordinator which starts, stops, switches, restarts and rotates
  the game on air, keeps a canonical state and one receipt per request on disk, waits for the end of
  a match before it stops a game, rolls back a switch that fails, and recovers after a crash.  Above
  it \<open>corner_rotation.py\<close> decides which show runs next; beside it run the agent worker, which plays the
  active game, and the shows themselves, of which the turn-based protocols and records are modelled.

  \<^bold>\<open>The parts and how they interact.\<close>  A public operation of the coordinator takes the writer lock
  (one process at a time), accepts its request in the store, and runs it.  The store is two
  documents: the canonical state (phase, owner, active, candidate, previous and retiring
  runtimes) and the directory of receipts.  Each change of phase is one durable write of the
  canonical state.  Adapters do the work on a game; the coordinator calls them with a time limit.
  While it waits for a match to end it gives the lock away, so other processes can queue requests;
  it checks every identity when it has the lock back.  The agent worker holds the same lock shared
  while it acts and checks before each action that its runtime is still the active one.  The rotation
  keeps a ledger of its own: it loads the catalog, draws a corner, writes the reservation before it
  starts the corner in the shared slot, and after a failure keeps the slot until the canonical state
  proves it free.

  \<^bold>\<open>Theories of the coordinator, in the order of the imports.\<close>
  \<^item> \<open>Prelude\<close>: effectful Python code as functions from a state to a raised exception or a value and
    the state after it; triples, relations kept on every exit (locale \<open>step_order\<close>), strings.
    \<open>Results\<close>: code that can raise and changes nothing.
  \<^item> \<open>Naming\<close>: the exception classes; \<open>naming.py\<close>, one definition per function.
  \<^item> \<open>Timestamps\<close>: \<open>_utc_now\<close>, the calendar behind it, \<open>fromisoformat\<close> for the texts the program
    writes, the wall deadline helpers; reading a written stamp back; when the order of the texts is
    the order of the instants.
  \<^item> \<open>SwitchTypes\<close>: phases, statuses, documents, adapters, the machine (what is on disk and in memory)
    and the environment.
  \<^item> \<open>CanonicalState\<close>: \<open>validate_state\<close> check by check, \<open>CanonicalStateStore\<close>.
  \<^item> \<open>Receipts\<close>: \<open>validate_receipt\<close>, \<open>committed_retirement_result\<close>, \<open>RequestReceiptStore\<close>.
  \<^item> \<open>SwitchStore\<close>: \<open>GameSwitchStore\<close>, \<open>GameSwitchTransaction\<close>, \<open>GameSwitchLock\<close>.
  \<^item> \<open>StoreFacts\<close>: the interface between the store and the coordinator as two locales.
    \<open>store_contract\<close> asks of the store that every transaction keeps a relation between machines;
    \<open>coordinator_contract\<close> extends it by what the coordinator itself does to the machine.  They are
    interpreted on the store of the code for the canonical state (\<open>canon_store\<close>), the receipts
    (\<open>receipt_store\<close>) and the memory of the process (\<open>memory_store\<close>).  The coordinator's theories prove
    inside the locale, once, that every operation keeps the relation.
  \<^item> \<open>AdapterCalls\<close>, \<open>Housekeeping\<close>, \<open>Rollback\<close>, \<open>Boundary\<close>, \<open>SwitchOps\<close>, \<open>Recovery\<close>,
    \<open>Coordinator\<close>: the coordinator, from the bounded adapter call to the public operations.
  \<^item> \<open>StoreRuns\<close>: what each successful run of the store did, step by step.
  \<^item> \<open>Samples\<close>: a concrete environment and the rules that run the model on it.
  \<^item> \<open>Sessions\<close>: the public operations as calls and the machines any sequence of calls can reach.
  \<^item> \<open>RequestText\<close>: the text a request is identified by can be read in one way only.
  \<^item> \<open>SessionProperties\<close> (invariants of all sessions), \<open>StoreProperties\<close> (acceptance, replay, finishing,
    retention), \<open>QueueProperties\<close> (the receipts as a priority queue), \<open>NameProperties\<close> (identifiers and
    stamps), \<open>CallProperties\<close> (time limits, stopping, the lock, termination), \<open>SwitchProperties\<close>
    (commit, rollback, recovery), \<open>DefectProperties\<close> (runs that show a defect of the code).

  \<^bold>\<open>Theories of the rotation of corners.\<close>
  \<^item> \<open>CornerTypes\<close>: errors, ledger, observations, environment, the machine of the scheduler.
    \<open>CornerCatalog\<close>: \<open>corner_catalog.py\<close>.  \<open>CornerNotice\<close>: \<open>corner_notice.py\<close>.
    \<open>CornerLedger\<close>: loading, checking and importing the ledger, the manual inbox.
    \<open>CornerSelection\<close>: eligibility, cooldown, ranking, the announcement of the next corner.
    \<open>CornerRelease\<close>: when the shared slot is free, what the corners' state files say, the release of a
    failed corner.  \<open>CornerOutcome\<close>: how a reservation is resolved and a latch recovered, the
    heartbeat, the execution in the slot.  \<open>CornerTick\<close>: one tick.  \<open>CornerManager\<close>: recovery, manual
    runs, the manual queue.
  \<^item> \<open>CornerFacts\<close>: the locales \<open>ledger_steps\<close> and \<open>rotation_steps\<close> (a relation kept by every minor step
    and every change of the ledger is kept by a tick), \<open>manual_ledger\<close> and their join \<open>manual_steps\<close>;
    \<open>CornerInvariant\<close> interprets them for rested starts, written reservations and bounded records,
    \<open>CornerCustody\<close> for a reservation that is on hold.  \<open>CornerProperties\<close>, \<open>CatalogProperties\<close>: the
    properties and sample runs.

  \<^bold>\<open>Theories of the agent and of the shows.\<close>
  \<^item> \<open>AgentFence\<close>, \<open>AgentProperties\<close>: \<open>agent/fence.py\<close> and the loop of \<open>agent/loop.py\<close>.
  \<^item> \<open>OthelloRules\<close>, \<open>OthelloRoom\<close>, \<open>OthelloFacts\<close>, \<open>OthelloProperties\<close>: \<open>othello_corner.py\<close>.
  \<^item> \<open>TrpgStory\<close>: \<open>trpg_corner.py\<close>, the rules of a role-playing story: scenario check, votes, scenes, climax,
    ending.  \<open>TrpgFacts\<close>: the invariant of a story and its preservation.  \<open>TrpgSession\<close>: \<open>trpg_session.py\<close>,
    the persistent session around it: reading the chat log by bytes, the tick, the announcements, the ledger of
    runs.  \<open>TrpgReading\<close>: which lines of the log a voting window hears.  \<open>TrpgAir\<close>: the process which saves a
    session and speaks; a tick is a list of effects, a crash keeps any prefix of it, and
    the interpretation \<open>tale\<close> of \<open>step_order\<close> shows that no mark is spoken twice.  \<open>Ballots\<close>: one vote
    per viewer, as the locale \<open>ballot\<close> (\<open>box\<close> interprets it on the code's table).
    \<open>TrpgProperties\<close>: the properties, sample runs and defects.
  \<^item> \<open>Tsuitate\<close>, \<open>TsuitateProperties\<close>: the checked view of the hidden-piece shogi service and the gate
    that hands out moves.
  \<^item> \<open>ShogiBoard\<close>, \<open>ShogiFacts\<close>, \<open>ShogiProperties\<close>: positions, moves, SFEN, the reconstruction of a game.

  \<^bold>\<open>State and faults.\<close>  A machine of the coordinator holds the canonical document, the receipts, the
  lock, the clock and counters of what has been asked of the environment.  A durable write
  (\<open>atomic_write\<close>) can succeed, fail before or after the replace, or the process can die before or
  after it (\<open>e_fault\<close>).  A process that dies stops there: no \<open>except\<close> clause catches \<open>Killed\<close>.  Before
  each attempt to take the lock other processes run any transactions of the store (\<open>e_others\<close>), with
  the same code.  A property of \<open>reached\<close> machines therefore holds under crashes at every write and
  under interference.  The machine of the rotation has the ledger on disk and in memory, the inbox,
  and a ghost list of the executions started, each with the ledger as it was on disk; every answer of
  its environment depends on the number of the call, so it can change between two questions.

  \<^bold>\<open>Bounds and fuel.\<close>  Times of the coordinator are integral microseconds, those of the rotation
  rationals.  Loops that poll until a deadline (\<open>wait_loop\<close>, \<open>reacquire_loop\<close>, \<open>entry_loop\<close>) have as many
  rounds as the deadline divided by the poll interval allows, plus three; \<open>wait_ends\<close> and
  \<open>reacquire_ends\<close> show that more change nothing and bound the time they take.  \<open>execute_locked\<close> recurses at most once per recovered
  drain (\<open>two_rounds_suffice\<close>), and the rounds of the agent's shared section are enough
  (\<open>shared_section_enough\<close>).

  \<^bold>\<open>What is not modelled.\<close>  Adapters, the file system below a durable write, \<open>Path.resolve\<close>, SHA-256 and
  the clocks are parameters.  Event records, the holder record of the lock, teardown evidence, log
  pruning and telemetry are diagnostics that no decision reads.  Messages are short ASCII tags of the
  Japanese texts.  Python strings are lists of code points below 256, or of numbers where a Japanese
  text is computed with.  Of the rotation, the command line, the stop markers and the reconciliation
  of display metadata are left out, and \<open>fromisoformat\<close> is read only on the stamps the program writes.
  The corners' own managers are parameters.  Of the role-playing session, the generation of a scenario by a
  language model, the views and the command line are left out; decoding UTF-8 and JSON are parameters
  (\<open>tv_decode\<close>, \<open>tv_loads\<close>, \<open>tv_dumped\<close>, \<open>tv_iso\<close>).  The rest of the repository (adapters, screens, speech,
  language models, trading, web interface, scripts) is effects on external programs, network
  services and screens around this core.
\<close>

end
